(* ===== verification/Mcp_Prelude.thy ===== *)
theory Mcp_Prelude
  imports Main "HOL-Library.AList" "HOL-Library.Char_ord" "HOL-Library.List_Lexorder"
begin

text \<open>
  Shared vocabulary of the development: Go errors as values, the outcome of calling user code,
  Go maps as association lists with distinct keys, the decimal conversions of package
  \<open>strconv\<close>, and sorting of a registry by its string key. The generic lemmas are
  declared \<open>[simp]\<close> or collected in \<open>gomap_simps\<close>, so that the component theories only
  have to unfold their own definitions.
\<close>

named_theorems gomap_simps \<open>reading, updating and deleting in Go maps\<close>
named_theorems wf_intros \<open>preservation of well-formedness by the operations\<close>

type_synonym bytes = string

section \<open>Errors and outcomes\<close>

text \<open>
  A Go error is a package-level sentinel (identified by its text, which no two sentinels
  share), an anonymous error made by \<open>errors.New\<close> or \<open>fmt.Errorf\<close> without \<open>%w\<close>, or an
  error that wraps another one (\<open>fmt.Errorf\<close> with \<open>%w\<close>).
\<close>

datatype goerr = Sentinel string | ErrNew string | Wrapped string goerr

fun Error :: "goerr \<Rightarrow> string" where
  "Error (Sentinel m) = m"
| "Error (ErrNew m) = m"
| "Error (Wrapped m _) = m"

fun errors_is :: "goerr \<Rightarrow> goerr \<Rightarrow> bool" where
  "errors_is (Wrapped m e) t \<longleftrightarrow> Wrapped m e = t \<or> errors_is e t"
| "errors_is e t \<longleftrightarrow> e = t"

text \<open>The sentinels of the standard library that the code tests for.\<close>

definition ioEOF :: goerr where "ioEOF = Sentinel ''EOF''"
definition contextCanceled :: goerr where "contextCanceled = Sentinel ''context canceled''"
definition contextDeadlineExceeded :: goerr where "contextDeadlineExceeded = Sentinel ''context deadline exceeded''"

text \<open>Calling user code: it returns a value, returns an error, or panics.\<close>

datatype 'a hres = Ret 'a | Err goerr | Panic string

section \<open>Go maps\<close>

type_synonym ('k, 'v) gomap = "('k \<times> 'v) list"

definition mget :: "('k, 'v) gomap \<Rightarrow> 'k \<Rightarrow> 'v option" where
  "mget m k = map_of m k"

definition mput :: "'k \<Rightarrow> 'v \<Rightarrow> ('k, 'v) gomap \<Rightarrow> ('k, 'v) gomap" where
  "mput k v m = AList.update k v m"

definition mdel :: "'k \<Rightarrow> ('k, 'v) gomap \<Rightarrow> ('k, 'v) gomap" where
  "mdel k m = AList.delete k m"

definition mvals :: "('k, 'v) gomap \<Rightarrow> 'v list" where
  "mvals m = map snd m"

definition wf_map :: "('k, 'v) gomap \<Rightarrow> bool" where
  "wf_map m \<longleftrightarrow> distinct (map fst m)"

lemma mget_Nil [simp]: "mget [] k = None"
  by (simp add: mget_def)

lemma wf_map_Nil [simp]: "wf_map []"
  by (simp add: wf_map_def)

lemma mget_mput [gomap_simps]: "mget (mput k v m) k' = (if k' = k then Some v else mget m k')"
  by (simp add: mget_def mput_def update_conv)

lemma mget_mdel [gomap_simps]: "mget (mdel k m) k' = (if k' = k then None else mget m k')"
  by (simp add: mget_def mdel_def delete_conv)

lemma wf_map_mput [wf_intros]: "wf_map m \<Longrightarrow> wf_map (mput k v m)"
  by (simp add: wf_map_def mput_def distinct_update)

lemma wf_map_mdel [wf_intros]: "wf_map m \<Longrightarrow> wf_map (mdel k m)"
  by (simp add: wf_map_def mdel_def distinct_delete)

lemma mget_SomeD: "mget m k = Some v \<Longrightarrow> (k, v) \<in> set m"
  by (simp add: mget_def map_of_SomeD)

lemma mget_Some_iff: "wf_map m \<Longrightarrow> mget m k = Some v \<longleftrightarrow> (k, v) \<in> set m"
  by (simp add: mget_def wf_map_def map_of_eq_Some_iff)

lemma mget_None_iff [gomap_simps]: "mget m k = None \<longleftrightarrow> k \<notin> fst ` set m"
  by (simp add: mget_def map_of_eq_None_iff)

lemma mput_fresh: "mget m k = None \<Longrightarrow> mput k v m = m @ [(k, v)]"
  by (induction m) (auto simp: mput_def mget_def split: if_splits)

lemma length_mput: "length (mput k v m) = (if mget m k = None then Suc (length m) else length m)"
  by (induction m) (auto simp: mput_def mget_def)

lemma mput_keys_same: "mget m k \<noteq> None \<Longrightarrow> map fst (mput k v m) = map fst m"
  by (induction m) (auto simp: mput_def mget_def)

lemma length_mdel_le: "length (mdel k m) \<le> length m"
  by (simp add: mdel_def AList.delete_eq)

lemma length_mdel: "wf_map m \<Longrightarrow> mget m k \<noteq> None \<Longrightarrow> length (mdel k m) = length m - 1"
proof (induction m)
  case (Cons p m)
  obtain a b where p: "p = (a, b)" by fastforce
  show ?case
  proof (cases "a = k")
    case True
    with Cons.prems p have "k \<notin> fst ` set m" by (auto simp: wf_map_def)
    then have "AList.delete k m = m" by (auto simp: AList.delete_eq filter_id_conv image_iff)
    with True p show ?thesis by (simp add: mdel_def)
  next
    case False
    with Cons p have "length (mdel k m) = length m - 1" "m \<noteq> []"
      by (auto simp: wf_map_def mget_def)
    with False p show ?thesis by (cases m) (auto simp: mdel_def)
  qed
qed simp

lemma set_mdel: "set (mdel k m) = {p \<in> set m. fst p \<noteq> k}"
  by (auto simp: mdel_def AList.delete_eq)

lemma set_mputD: "p \<in> set (mput k v m) \<Longrightarrow> p = (k, v) \<or> p \<in> set m"
  by (induction m) (auto simp: mput_def split: if_splits)

lemma set_mput_keys [simp]: "fst ` set (mput k v m) = insert k (fst ` set m)"
  by (simp add: mput_def dom_update)

lemma set_mdel_keys [simp]: "fst ` set (mdel k m) = fst ` set m - {k}"
  by (auto simp: set_mdel)

lemma nth_update_any: "xs[i := x] ! j = (if i = j \<and> i < length xs then x else xs ! j)"
  by (cases "i < length xs") (auto simp: nth_list_update list_update_beyond)

lemma mput_not_Nil [simp]: "mput k v m \<noteq> []"
  by (cases m) (auto simp: mput_def)

lemma mvals_mem: "v \<in> set (mvals m) \<longleftrightarrow> (\<exists>k. (k, v) \<in> set m)"
  by (force simp: mvals_def)

section \<open>Sorting a registry by its key\<close>

text \<open>
  \<open>sort.Slice\<close> is not stable, but the registries sort values whose keys are distinct, so
  there is only one result; \<open>sort_key\<close> computes it. Go compares strings byte by byte,
  which is the lexicographic order on \<^typ>\<open>string\<close>.
\<close>

definition sorted_snapshot :: "('v \<Rightarrow> string) \<Rightarrow> (string, 'v) gomap \<Rightarrow> 'v list" where
  "sorted_snapshot key m = sort_key key (mvals m)"

definition keyed :: "('v \<Rightarrow> string) \<Rightarrow> (string, 'v) gomap \<Rightarrow> bool" where
  "keyed key m \<longleftrightarrow> wf_map m \<and> (\<forall>(k, v) \<in> set m. key v = k)"

lemma keyed_Nil [simp]: "keyed key []"
  by (simp add: keyed_def)

lemma keyed_wf: "keyed key m \<Longrightarrow> wf_map m"
  by (simp add: keyed_def)

lemma keyed_mget: "keyed key m \<Longrightarrow> mget m k = Some v \<Longrightarrow> key v = k"
  by (auto simp: keyed_def dest: mget_SomeD)

lemma keyed_mput [wf_intros]:
  assumes "keyed key m" and "key v = k"
  shows "keyed key (mput k v m)"
proof -
  have "set (mput k v m) \<subseteq> insert (k, v) (set m)"
    by (induction m) (auto simp: mput_def)
  with assms show ?thesis by (auto simp: keyed_def wf_map_mput)
qed

lemma keyed_mdel [wf_intros]: "keyed key m \<Longrightarrow> keyed key (mdel k m)"
  by (auto simp: keyed_def wf_map_mdel set_mdel)

lemma keyed_map_keys: "keyed key m \<Longrightarrow> map key (mvals m) = map fst m"
  by (auto simp: keyed_def mvals_def)

lemma set_sorted_snapshot [simp]: "set (sorted_snapshot key m) = set (mvals m)"
  by (simp add: sorted_snapshot_def)

lemma sorted_snapshot_sorted: "sorted (map key (sorted_snapshot key m))"
  by (simp add: sorted_snapshot_def)

lemma sorted_snapshot_distinct:
  assumes "keyed key m"
  shows "distinct (map key (sorted_snapshot key m))"
proof -
  have "distinct (map key (mvals m))"
    using assms by (simp add: keyed_map_keys keyed_def wf_map_def)
  then show ?thesis by (simp add: sorted_snapshot_def distinct_map)
qed

lemma sorted_snapshot_strict:
  "keyed key m \<Longrightarrow> sorted_wrt (<) (map key (sorted_snapshot key m))"
  by (simp add: strict_sorted_iff sorted_snapshot_sorted sorted_snapshot_distinct)

lemma mem_sorted_snapshot:
  assumes "keyed key m"
  shows "v \<in> set (sorted_snapshot key m) \<longleftrightarrow> mget m (key v) = Some v"
  using assms by (auto simp: mvals_mem mget_Some_iff keyed_def)

lemma sorted_snapshot_length [simp]: "length (sorted_snapshot key m) = length m"
  by (simp add: sorted_snapshot_def mvals_def)

section \<open>Decimal conversion (package strconv)\<close>

definition digit_char :: "nat \<Rightarrow> char" where
  "digit_char d = char_of (48 + d)"

definition char_digit :: "char \<Rightarrow> nat option" where
  "char_digit c = (let n = of_char c in if 48 \<le> n \<and> n \<le> 57 then Some (n - 48) else None)"

fun Itoa_nat :: "nat \<Rightarrow> string" where
  "Itoa_nat n = (if n < 10 then [digit_char n] else Itoa_nat (n div 10) @ [digit_char (n mod 10)])"

declare Itoa_nat.simps [simp del]

definition Itoa :: "int \<Rightarrow> string" where
  "Itoa i = (if i < 0 then CHR ''-'' # Itoa_nat (nat (- i)) else Itoa_nat (nat i))"

fun digits_val :: "nat \<Rightarrow> string \<Rightarrow> nat option" where
  "digits_val a [] = Some a"
| "digits_val a (c # cs) =
     (case char_digit c of None \<Rightarrow> None | Some d \<Rightarrow> digits_val (10 * a + d) cs)"

definition max_int :: int where "max_int = 2 ^ 63 - 1"
definition min_int :: int where "min_int = - (2 ^ 63)"

text \<open>\<open>strconv.Atoi\<close>: an optional sign, at least one digit, and a value that fits 64 bits.\<close>

definition Atoi :: "string \<Rightarrow> int option" where
  "Atoi s =
     (let (neg, ds) = (case s of [] \<Rightarrow> (False, [])
          | c # cs \<Rightarrow> if c = CHR ''-'' then (True, cs) else if c = CHR ''+'' then (False, cs)
                     else (False, s))
      in if ds = [] then None
         else case digits_val 0 ds of None \<Rightarrow> None
              | Some n \<Rightarrow> (let i = (if neg then - int n else int n)
                          in if min_int \<le> i \<and> i \<le> max_int then Some i else None))"

lemma char_digit_digit_char [simp]: "d < 10 \<Longrightarrow> char_digit (digit_char d) = Some d"
  by (simp add: char_digit_def digit_char_def Let_def)

lemma digits_val_append:
  "digits_val a (xs @ ys) = (case digits_val a xs of None \<Rightarrow> None | Some b \<Rightarrow> digits_val b ys)"
  by (induction a xs rule: digits_val.induct) (auto split: option.splits)

lemma digits_val_Itoa_nat: "digits_val 0 (Itoa_nat n) = Some n"
proof (induction n rule: Itoa_nat.induct)
  case (1 n)
  show ?case
  proof (cases "n < 10")
    case True
    then show ?thesis by (simp add: Itoa_nat.simps [of n])
  next
    case False
    with "1" have "digits_val 0 (Itoa_nat (n div 10)) = Some (n div 10)" by simp
    with False show ?thesis by (simp add: Itoa_nat.simps [of n] digits_val_append)
  qed
qed

lemma Itoa_nat_not_Nil [simp]: "Itoa_nat n \<noteq> []"
  by (subst Itoa_nat.simps) simp

lemma hd_Itoa_nat: "\<exists>d < 10. hd (Itoa_nat n) = digit_char d"
proof (induction n rule: Itoa_nat.induct)
  case (1 n)
  then show ?case by (cases "n < 10") (auto simp: Itoa_nat.simps [of n])
qed

lemma digit_char_not_sign: "d < 10 \<Longrightarrow> digit_char d \<noteq> CHR ''-'' \<and> digit_char d \<noteq> CHR ''+''"
proof -
  assume "d < 10"
  moreover have "char_digit CHR ''-'' = None" "char_digit CHR ''+'' = None"
    by (simp_all add: char_digit_def)
  ultimately show ?thesis by (metis char_digit_digit_char option.distinct(1))
qed

lemma Atoi_Itoa:
  assumes "min_int \<le> i" "i \<le> max_int"
  shows "Atoi (Itoa i) = Some i"
proof (cases "i < 0")
  case True
  with assms show ?thesis
    by (simp add: Atoi_def Itoa_def digits_val_Itoa_nat)
next
  case False
  obtain d where "d < 10" "hd (Itoa_nat (nat i)) = digit_char d" using hd_Itoa_nat by blast
  then obtain cs where eq: "Itoa_nat (nat i) = digit_char d # cs"
    by (metis Itoa_nat_not_Nil list.collapse)
  have "digits_val 0 (digit_char d # cs) = Some (nat i)"
    using digits_val_Itoa_nat [of "nat i"] eq by simp
  with False assms \<open>d < 10\<close> eq show ?thesis
    by (simp add: Atoi_def Itoa_def digit_char_not_sign)
qed

lemma Itoa_not_Nil [simp]: "Itoa i \<noteq> []"
  by (simp add: Itoa_def)

end
