(* ===== verification/Json_Rpc.thy ===== *)
theory Json_Rpc
  imports Mcp_Prelude
begin

text \<open>
  The wire layer: JSON values, the rules by which \<open>encoding/json\<close> decodes an object into a Go
  struct, and the JSON-RPC messages of \<open>jsonrpc.go\<close> and \<open>protocol.go\<close>. A message is taken as
  the syntax tree of its text (\<open>None\<close> where the text is not JSON); objects keep the order and
  the duplicates of the text, since later members overwrite earlier ones.
\<close>

section \<open>JSON values and struct decoding\<close>

text \<open>A number is kept as its literal, as \<open>json.Number\<close> and \<open>json.RawMessage\<close> do.\<close>

datatype json =
    JNull
  | JBool bool
  | JNum string
  | JStr string
  | JArr "json list"
  | JObj "(string \<times> json) list"

text \<open>
  Struct fields are matched up to case folding. Only the names of fields, which are ASCII, have
  to be recognised, so it is enough to fold the ASCII letters and the two runes outside ASCII
  that fold to an ASCII letter: the Kelvin sign (bytes E2 84 AA) and the long s (bytes C5 BF).
\<close>

definition byte :: "nat \<Rightarrow> char" where
  "byte n = char_of n"

definition ascii_upper :: "char \<Rightarrow> char" where
  "ascii_upper c = (let n = (of_char c :: nat) in if 97 \<le> n \<and> n \<le> 122 then char_of (n - 32) else c)"

fun foldName :: "string \<Rightarrow> string" where
  "foldName (a # b # c # s) =
     (if a = byte 226 \<and> b = byte 132 \<and> c = byte 170 then CHR ''K'' # foldName s
      else if a = byte 197 \<and> b = byte 191 then CHR ''S'' # foldName (c # s)
      else ascii_upper a # foldName (b # c # s))"
| "foldName [a, b] =
     (if a = byte 197 \<and> b = byte 191 then ''S'' else [ascii_upper a, ascii_upper b])"
| "foldName [a] = [ascii_upper a]"
| "foldName [] = []"

definition members :: "string \<Rightarrow> (string \<times> json) list \<Rightarrow> json list" where
  "members name obj = map snd (filter (\<lambda>(k, _). foldName k = foldName name) obj)"

fun decode_seq :: "('a \<Rightarrow> json \<Rightarrow> 'a option) \<Rightarrow> 'a \<Rightarrow> json list \<Rightarrow> 'a option" where
  "decode_seq d a [] = Some a"
| "decode_seq d a (v # vs) = (case d a v of None \<Rightarrow> None | Some a' \<Rightarrow> decode_seq d a' vs)"

definition field :: "('a \<Rightarrow> json \<Rightarrow> 'a option) \<Rightarrow> 'a \<Rightarrow> string \<Rightarrow> (string \<times> json) list \<Rightarrow> 'a option" where
  "field d zero name obj = decode_seq d zero (members name obj)"

text \<open>The members of the object a struct is decoded from; \<open>null\<close> leaves the struct unchanged.\<close>

definition as_object :: "json \<Rightarrow> (string \<times> json) list option" where
  "as_object v = (case v of JObj kvs \<Rightarrow> Some kvs | JNull \<Rightarrow> Some [] | _ \<Rightarrow> None)"

text \<open>
  One decoder per Go type. \<open>null\<close> leaves a string, number, boolean or struct unchanged and
  sets a pointer, map, slice or interface to nil; a \<open>json.RawMessage\<close> takes any value.
\<close>

fun d_string :: "string \<Rightarrow> json \<Rightarrow> string option" where
  "d_string a (JStr s) = Some s"
| "d_string a JNull = Some a"
| "d_string a _ = None"

fun d_int :: "int \<Rightarrow> json \<Rightarrow> int option" where
  "d_int a (JNum l) = Atoi l"
| "d_int a JNull = Some a"
| "d_int a _ = None"

fun d_bool :: "bool \<Rightarrow> json \<Rightarrow> bool option" where
  "d_bool a (JBool b) = Some b"
| "d_bool a JNull = Some a"
| "d_bool a _ = None"

fun d_int_ptr :: "int option \<Rightarrow> json \<Rightarrow> int option option" where
  "d_int_ptr a (JNum l) = map_option Some (Atoi l)"
| "d_int_ptr a JNull = Some None"
| "d_int_ptr a _ = None"

definition d_raw :: "json option \<Rightarrow> json \<Rightarrow> json option option" where
  "d_raw a v = Some (Some v)"

text \<open>
  A Go interface value: \<open>None\<close> is nil. A number is kept as the literal it was decoded from. That is what
  \<open>UseNumber\<close> gives, with which the identifiers of requests are decoded; elsewhere Go keeps the nearest
  \<open>float64\<close>, and where it is printed again the conversion is an argument (\<open>to_any\<close> of \<open>Content_Codec\<close>,
  \<open>echo_id\<close> of \<open>Client_Inbound\<close>, the decoder that a call of the client gets).
\<close>

definition d_any :: "json option \<Rightarrow> json \<Rightarrow> json option option" where
  "d_any a v = Some (if v = JNull then None else Some v)"

fun merge_members :: "('v \<Rightarrow> 'w option) \<Rightarrow> (string, 'w) gomap \<Rightarrow> (string \<times> 'v) list \<Rightarrow> (string, 'w) gomap option" where
  "merge_members d m [] = Some m"
| "merge_members d m ((k, v) # kvs) =
     (case d v of None \<Rightarrow> None | Some w \<Rightarrow> merge_members d (mput k w m) kvs)"

type_synonym meta = "(string, json) gomap"

text \<open>\<open>map[string]any\<close> and \<open>map[string]string\<close>; \<open>None\<close> is the nil map.\<close>

fun d_map :: "meta option \<Rightarrow> json \<Rightarrow> meta option option" where
  "d_map a (JObj kvs) = map_option Some (merge_members Some (case a of None \<Rightarrow> [] | Some m \<Rightarrow> m) kvs)"
| "d_map a JNull = Some None"
| "d_map a _ = None"

fun d_string_map :: "(string, string) gomap option \<Rightarrow> json \<Rightarrow> (string, string) gomap option option" where
  "d_string_map a (JObj kvs) =
     map_option Some (merge_members (d_string []) (case a of None \<Rightarrow> [] | Some m \<Rightarrow> m) kvs)"
| "d_string_map a JNull = Some None"
| "d_string_map a _ = None"

section \<open>Messages\<close>

definition jsonrpcVersion :: string where "jsonrpcVersion = ''2.0''"

definition ErrCodeParseError :: int where "ErrCodeParseError = -32700"
definition ErrCodeInvalidRequest :: int where "ErrCodeInvalidRequest = -32600"
definition ErrCodeMethodNotFound :: int where "ErrCodeMethodNotFound = -32601"
definition ErrCodeInvalidParams :: int where "ErrCodeInvalidParams = -32602"
definition ErrCodeInternalError :: int where "ErrCodeInternalError = -32603"
definition ErrCodeUnauthorized :: int where "ErrCodeUnauthorized = -32001"
definition ErrCodeTenantRequired :: int where "ErrCodeTenantRequired = -32002"

lemmas error_codes = ErrCodeParseError_def ErrCodeInvalidRequest_def ErrCodeMethodNotFound_def
  ErrCodeInvalidParams_def ErrCodeInternalError_def ErrCodeUnauthorized_def
  ErrCodeTenantRequired_def

text \<open>
  A request. \<open>req_ID\<close> is the decoded identifier (\<open>None\<close> for nil) and \<open>req_hasID\<close> records
  whether the member was present at all.
\<close>

record JSONRPCRequest =
  req_JSONRPC :: string
  req_ID :: "json option"
  req_Method :: string
  req_Params :: "json option"
  req_hasID :: bool

definition IsNotification :: "JSONRPCRequest \<Rightarrow> bool" where
  "IsNotification r \<longleftrightarrow> \<not> req_hasID r"

definition UnmarshalRequest :: "json \<Rightarrow> JSONRPCRequest option" where
  "UnmarshalRequest data =
     (case as_object data of None \<Rightarrow> None
      | Some obj \<Rightarrow>
        (case (field d_string [] ''jsonrpc'' obj, field d_raw None ''id'' obj,
               field d_string [] ''method'' obj, field d_raw None ''params'' obj) of
           (Some v, Some i, Some m, Some p) \<Rightarrow>
             Some \<lparr> req_JSONRPC = v,
                    req_ID = (case i of Some raw \<Rightarrow> (if raw = JNull then None else Some raw)
                              | None \<Rightarrow> None),
                    req_Method = m, req_Params = p, req_hasID = (i \<noteq> None) \<rparr>
         | _ \<Rightarrow> None))"

record JSONRPCError =
  err_Code :: int
  err_Message :: string
  err_Data :: "json option"

text \<open>A response carries a result or an error; \<open>'r\<close> is the type of results.\<close>

record 'r JSONRPCResponse =
  resp_JSONRPC :: string
  resp_ID :: "json option"
  resp_Result :: "'r option"
  resp_Error :: "JSONRPCError option"

definition NewResponse :: "json option \<Rightarrow> 'r \<Rightarrow> 'r JSONRPCResponse" where
  "NewResponse i r = \<lparr> resp_JSONRPC = jsonrpcVersion, resp_ID = i, resp_Result = Some r, resp_Error = None \<rparr>"

definition NewErrorResponse :: "json option \<Rightarrow> int \<Rightarrow> string \<Rightarrow> 'r JSONRPCResponse" where
  "NewErrorResponse i c msg =
     \<lparr> resp_JSONRPC = jsonrpcVersion, resp_ID = i, resp_Result = None,
       resp_Error = Some \<lparr> err_Code = c, err_Message = msg, err_Data = None \<rparr> \<rparr>"

definition wf_response :: "'r JSONRPCResponse \<Rightarrow> bool" where
  "wf_response r \<longleftrightarrow> resp_JSONRPC r = jsonrpcVersion \<and> (resp_Result r = None) \<noteq> (resp_Error r = None)"

lemma wf_NewResponse [simp]: "wf_response (NewResponse i r)"
  by (simp add: wf_response_def NewResponse_def)

lemma wf_NewErrorResponse [simp]: "wf_response (NewErrorResponse i c m)"
  by (simp add: wf_response_def NewErrorResponse_def)

lemma resp_NewResponse [simp]:
  "resp_ID (NewResponse i r) = i" "resp_Result (NewResponse i r) = Some r"
  "resp_Error (NewResponse i r) = None"
  by (simp_all add: NewResponse_def)

lemma resp_NewErrorResponse [simp]:
  "resp_ID (NewErrorResponse i c m) = i" "resp_Result (NewErrorResponse i c m) = None"
  "resp_Error (NewErrorResponse i c m) = Some \<lparr> err_Code = c, err_Message = m, err_Data = None \<rparr>"
  by (simp_all add: NewErrorResponse_def)

text \<open>
  The key under which an in-flight request is tracked. Identifiers reach it as decoded with
  \<open>UseNumber\<close>, so a number arrives as its literal; objects, arrays, booleans and nil have no key.
\<close>

definition normalizeRequestID :: "json option \<Rightarrow> string option" where
  "normalizeRequestID i = (case i of
       Some (JStr s) \<Rightarrow> Some (''s:'' @ s)
     | Some (JNum l) \<Rightarrow> Some (''n:'' @ l)
     | _ \<Rightarrow> None)"

text \<open>
  A server-to-client notification. Progress values, which are floating-point numbers, are kept as
  JSON numbers; a streaming notification carries the sequence number and content of a chunk.
\<close>

datatype notif_params =
    NoParams
  | ResourceUpdatedParams string
  | LogMessageParams string string json
  | ProgressParams "json option" json json
  | StreamProgressParams "json option" nat json

record JSONRPCNotification =
  ntf_JSONRPC :: string
  ntf_Method :: string
  ntf_Params :: notif_params

lemma decode_seq_append:
  "decode_seq d a (xs @ ys) = (case decode_seq d a xs of None \<Rightarrow> None | Some b \<Rightarrow> decode_seq d b ys)"
  by (induction d a xs rule: decode_seq.induct) (auto split: option.splits)

lemma field_raw_None: "field d_raw None name obj = Some None \<longleftrightarrow> members name obj = []"
proof -
  have "decode_seq d_raw a (v # vs) \<noteq> Some None" for a v vs
    by (induction vs arbitrary: a v) (auto simp: d_raw_def)
  then show ?thesis by (cases "members name obj") (auto simp: field_def)
qed

lemma field_raw_total: "\<exists>p. field d_raw a name obj = Some p"
proof -
  have "\<exists>p. decode_seq d_raw a vs = Some p" for vs
    by (induction vs arbitrary: a) (auto simp: d_raw_def)
  then show ?thesis by (simp add: field_def)
qed

text \<open>
  A message is a notification exactly when no member named \<open>id\<close> (up to case) is present; a
  \<open>null\<close> identifier makes it a request without a tracked identifier.
\<close>

lemma notification_iff_no_id:
  assumes "UnmarshalRequest (JObj obj) = Some r"
  shows "IsNotification r \<longleftrightarrow> members ''id'' obj = []"
proof -
  from assms obtain i where "field d_raw None ''id'' obj = Some i" "req_hasID r = (i \<noteq> None)"
    by (auto simp: UnmarshalRequest_def as_object_def split: option.splits)
  then show ?thesis by (auto simp: IsNotification_def field_raw_None [symmetric])
qed

lemma normalizeRequestID_inj:
  assumes "normalizeRequestID i = Some k" "normalizeRequestID j = Some k"
  shows "i = j"
  using assms by (auto simp: normalizeRequestID_def split: option.splits json.splits)

text \<open>Names of fields are ASCII, where folding is a map.\<close>

lemma foldName_ascii: "list_all (\<lambda>c. (of_char c :: nat) < 128) s \<Longrightarrow> foldName s = map ascii_upper s"
proof (induction s rule: foldName.induct)
  case (1 a b c s)
  then have "a \<noteq> byte 226" "a \<noteq> byte 197" by (auto simp: byte_def)
  then show ?case using 1 by simp
next
  case (2 a b)
  then have "a \<noteq> byte 197" by (auto simp: byte_def)
  then show ?case by simp
qed simp_all

lemmas fold_eval = ascii_upper_def char_of_def bit_iff_odd

end
