(* ===== verification/Mcp_Types.thy ===== *)
theory Mcp_Types
  imports Json_Rpc
begin

text \<open>
  The values the server keeps and passes to user code: contents and results (\<open>content.go\<close>,
  \<open>result.go\<close>), the request context (\<open>context.go\<close>), and tools, resources, resource templates,
  prompts and roots with their constructors (\<open>tool.go\<close>, \<open>resource.go\<close>, \<open>prompt.go\<close>,
  \<open>roots.go\<close>). User code runs on a state of an arbitrary type \<open>'w\<close> (its database, the network,
  the buffers of the transports), which the server hands through and never inspects.
\<close>

section \<open>Contents and results\<close>

record ResourceContent =
  rc_URI :: string
  rc_MimeType :: string
  rc_Text :: "string option"
  rc_Blob :: "string option"

datatype Content =
    TextContent string
  | ImageContent bytes string
  | AudioContent bytes string
  | EmbeddedResource ResourceContent

fun contentType :: "Content \<Rightarrow> string" where
  "contentType (TextContent _) = ''text''"
| "contentType (ImageContent _ _) = ''image''"
| "contentType (AudioContent _ _) = ''audio''"
| "contentType (EmbeddedResource _) = ''resource''"

record CallToolResult =
  ctr_Content :: "Content list"
  ctr_IsError :: bool
  ctr_StructuredContent :: "json option"
  ctr_Meta :: "meta option"

definition NewTextResult :: "string \<Rightarrow> CallToolResult" where
  "NewTextResult text = \<lparr> ctr_Content = [TextContent text], ctr_IsError = False,
     ctr_StructuredContent = None, ctr_Meta = None \<rparr>"

definition NewErrorResult :: "string \<Rightarrow> CallToolResult" where
  "NewErrorResult text = \<lparr> ctr_Content = [TextContent text], ctr_IsError = True,
     ctr_StructuredContent = None, ctr_Meta = None \<rparr>"

definition ValidateResourceContent :: "ResourceContent \<Rightarrow> goerr option" where
  "ValidateResourceContent c =
     (if rc_URI c = [] then Some (ErrNew ''resource content: URI must not be empty'')
      else if rc_Text c \<noteq> None \<and> rc_Blob c \<noteq> None
        then Some (ErrNew ''resource content: exactly one of Text or Blob must be set, got both'')
      else if rc_Text c = None \<and> rc_Blob c = None
        then Some (ErrNew ''resource content: exactly one of Text or Blob must be set, got neither'')
      else None)"

record PromptMessage =
  pm_Role :: string
  pm_Content :: Content

record PromptArgument =
  pa_Name :: string
  pa_Description :: string
  pa_Required :: bool

section \<open>The request context\<close>

record AuthInfo =
  ai_Subject :: string
  ai_Roles :: "string list option"
  ai_Meta :: "meta option"

text \<open>A transport's send function for one connection.\<close>

type_synonym 'w NotificationSender = "JSONRPCNotification \<Rightarrow> 'w \<Rightarrow> 'w"

text \<open>
  The keys of \<open>context.go\<close> that user code can read. \<open>cx_Done\<close> is the context's error once it is
  cancelled. The context of a request is extended with the tool's simulator, and in the
  dispatch layer with the tenant's filter, which is not visible to user code.
\<close>

record 'w base_ctx =
  cx_RequestID :: "json option"
  cx_ToolName :: string
  cx_Roles :: "string list option"
  cx_ToolRoles :: "string list option"
  cx_ToolSchema :: "json option"
  cx_SkipValidation :: bool
  cx_ProgressToken :: "json option option"
  cx_Sender :: "'w NotificationSender option"
  cx_SubscriberID :: string
  cx_Meta :: "meta option"
  cx_AuthInfo :: "AuthInfo option"
  cx_TenantID :: string
  cx_Simulated :: bool
  cx_SimDepth :: int
  cx_Done :: "goerr option"

definition Background :: "'w base_ctx" where
  "Background = \<lparr> cx_RequestID = None, cx_ToolName = [], cx_Roles = None, cx_ToolRoles = None,
     cx_ToolSchema = None, cx_SkipValidation = False, cx_ProgressToken = None, cx_Sender = None,
     cx_SubscriberID = [], cx_Meta = None, cx_AuthInfo = None, cx_TenantID = [],
     cx_Simulated = False, cx_SimDepth = 0, cx_Done = None \<rparr>"

definition WithAuthInfo :: "AuthInfo \<Rightarrow> ('w, 'x) base_ctx_scheme \<Rightarrow> ('w, 'x) base_ctx_scheme" where
  "WithAuthInfo info c =
     c \<lparr> cx_Roles := Some (case ai_Roles info of None \<Rightarrow> [] | Some rs \<Rightarrow> rs),
         cx_AuthInfo := Some info \<rparr>"

text \<open>
  The state user code runs on: its own world, the response metadata it has set so far (the
  \<open>responseMetaHolder\<close> that the dispatch layer puts into the context by pointer; \<open>None\<close> where
  there is no holder), and the chunks accepted by the call's stream (\<open>None\<close> where the transport
  has no notification channel and \<open>StreamFromCtx\<close> is nil).
\<close>

record 'w hstate =
  hs_holder :: "meta option option"
  hs_stream :: "json list option"
  hs_world :: 'w

definition SetResponseMeta :: "string \<Rightarrow> json \<Rightarrow> 'w hstate \<Rightarrow> 'w hstate" where
  "SetResponseMeta k v st =
     (case hs_holder st of None \<Rightarrow> st
      | Some h \<Rightarrow> st \<lparr> hs_holder := Some (Some (mput k v (case h of None \<Rightarrow> [] | Some m \<Rightarrow> m))) \<rparr>)"

definition responseMetaFromHolder :: "'w hstate \<Rightarrow> meta option" where
  "responseMetaFromHolder st = (case hs_holder st of None \<Rightarrow> None | Some h \<Rightarrow> h)"

type_synonym ('w, 'a) usercode = "'w hstate \<Rightarrow> 'a hres \<times> 'w hstate"

type_synonym 'w SimulatorFunc = "'w base_ctx \<Rightarrow> bytes \<Rightarrow> ('w, bytes) usercode"

record 'w ctx = "'w base_ctx" +
  cx_ToolSimulator :: "'w SimulatorFunc option"

section \<open>Tools, resources, templates, prompts, roots\<close>

type_synonym 'w ToolHandler = "'w ctx \<Rightarrow> bytes \<Rightarrow> ('w, bytes) usercode"
type_synonym 'w Middleware = "'w ToolHandler \<Rightarrow> 'w ToolHandler"
type_synonym 'w ResourceHandler = "'w ctx \<Rightarrow> string \<Rightarrow> ('w, ResourceContent list) usercode"
type_synonym 'w PromptHandler =
  "'w ctx \<Rightarrow> (string, string) gomap option \<Rightarrow> ('w, PromptMessage list) usercode"

record ToolAnnotations =
  ta_ReadOnlyHint :: "bool option"
  ta_DestructiveHint :: "bool option"
  ta_IdempotentHint :: "bool option"
  ta_Title :: string
  ta_OpenWorldHint :: "bool option"

record 'w Tool =
  tool_Name :: string
  tool_Description :: string
  tool_Handler :: "'w ToolHandler option"
  tool_Simulator :: "'w SimulatorFunc option"
  tool_Roles :: "string list"
  tool_InputSchema :: "json option"
  tool_Annotations :: "ToolAnnotations option"
  tool_SkipValidation :: bool

record 'w Resource =
  res_URI :: string
  res_Name :: string
  res_Description :: string
  res_MimeType :: string
  res_Handler :: "'w ResourceHandler option"

record CompletionRef =
  ref_Type :: string
  ref_Name :: string
  ref_URI :: string

record CompletionArgument =
  carg_Name :: string
  carg_Value :: string

record CompletionResult =
  cr_Values :: "string list"
  cr_Total :: int
  cr_HasMore :: bool

text \<open>A completer may return nil, which stands for no suggestion.\<close>

type_synonym 'w CompleteHandler =
  "'w ctx \<Rightarrow> CompletionRef \<Rightarrow> CompletionArgument \<Rightarrow> ('w, CompletionResult option) usercode"

record 'w Prompt =
  pr_Name :: string
  pr_Description :: string
  pr_Arguments :: "PromptArgument list"
  pr_Handler :: "'w PromptHandler option"
  pr_Completer :: "'w CompleteHandler option"

record Root =
  root_URI :: string
  root_Name :: string

text \<open>Constructors and functional options; an option is a function on the value under construction.\<close>

definition WithRoles :: "string list \<Rightarrow> 'w Tool \<Rightarrow> 'w Tool" where
  "WithRoles roles t = t \<lparr> tool_Roles := filter (\<lambda>r. r \<noteq> []) roles \<rparr>"

definition WithSimulator :: "'w SimulatorFunc \<Rightarrow> 'w Tool \<Rightarrow> 'w Tool" where
  "WithSimulator fn t = t \<lparr> tool_Simulator := Some fn \<rparr>"

definition WithDescription :: "string \<Rightarrow> 'w Tool \<Rightarrow> 'w Tool" where
  "WithDescription desc t = t \<lparr> tool_Description := desc \<rparr>"

definition WithInputSchema :: "json option \<Rightarrow> 'w Tool \<Rightarrow> 'w Tool" where
  "WithInputSchema schema t = t \<lparr> tool_InputSchema := schema \<rparr>"

definition WithValidation :: "bool \<Rightarrow> 'w Tool \<Rightarrow> 'w Tool" where
  "WithValidation enabled t = t \<lparr> tool_SkipValidation := \<not> enabled \<rparr>"

definition WithAnnotations :: "ToolAnnotations \<Rightarrow> 'w Tool \<Rightarrow> 'w Tool" where
  "WithAnnotations a t = t \<lparr> tool_Annotations := Some a \<rparr>"

definition ensureAnnotations :: "'w Tool \<Rightarrow> ToolAnnotations" where
  "ensureAnnotations t = (case tool_Annotations t of
       None \<Rightarrow> \<lparr> ta_ReadOnlyHint = None, ta_DestructiveHint = None, ta_IdempotentHint = None,
                 ta_Title = [], ta_OpenWorldHint = None \<rparr>
     | Some a \<Rightarrow> a)"

definition WithReadOnly :: "'w Tool \<Rightarrow> 'w Tool" where
  "WithReadOnly t = t \<lparr> tool_Annotations := Some (ensureAnnotations t \<lparr> ta_ReadOnlyHint := Some True \<rparr>) \<rparr>"

definition WithDestructive :: "'w Tool \<Rightarrow> 'w Tool" where
  "WithDestructive t = t \<lparr> tool_Annotations := Some (ensureAnnotations t \<lparr> ta_DestructiveHint := Some True \<rparr>) \<rparr>"

definition WithIdempotent :: "'w Tool \<Rightarrow> 'w Tool" where
  "WithIdempotent t = t \<lparr> tool_Annotations := Some (ensureAnnotations t \<lparr> ta_IdempotentHint := Some True \<rparr>) \<rparr>"

definition WithTitle :: "string \<Rightarrow> 'w Tool \<Rightarrow> 'w Tool" where
  "WithTitle title t = t \<lparr> tool_Annotations := Some (ensureAnnotations t \<lparr> ta_Title := title \<rparr>) \<rparr>"

definition WithOpenWorld :: "'w Tool \<Rightarrow> 'w Tool" where
  "WithOpenWorld t = t \<lparr> tool_Annotations := Some (ensureAnnotations t \<lparr> ta_OpenWorldHint := Some True \<rparr>) \<rparr>"

definition errResourceURIEmpty :: goerr where "errResourceURIEmpty = Sentinel ''resource URI must not be empty''"
definition errResourceNameEmpty :: goerr where "errResourceNameEmpty = Sentinel ''resource name must not be empty''"
definition errResourceHandlerNil :: goerr where "errResourceHandlerNil = Sentinel ''resource handler must not be nil''"
definition errPromptNameEmpty :: goerr where "errPromptNameEmpty = Sentinel ''prompt name must not be empty''"
definition errPromptHandlerNil :: goerr where "errPromptHandlerNil = Sentinel ''prompt handler must not be nil''"
definition errRootURIEmpty :: goerr where "errRootURIEmpty = Sentinel ''root URI must not be empty''"

definition NewResource ::
  "string \<Rightarrow> string \<Rightarrow> 'w ResourceHandler option \<Rightarrow> ('w Resource \<Rightarrow> 'w Resource) list \<Rightarrow> goerr + 'w Resource" where
  "NewResource uri name handler opts =
     (if uri = [] then Inl errResourceURIEmpty
      else if name = [] then Inl errResourceNameEmpty
      else if handler = None then Inl errResourceHandlerNil
      else Inr (fold (\<lambda>opt r. opt r) opts
                 \<lparr> res_URI = uri, res_Name = name, res_Description = [], res_MimeType = [],
                   res_Handler = handler \<rparr>))"

definition NewPrompt ::
  "string \<Rightarrow> 'w PromptHandler option \<Rightarrow> ('w Prompt \<Rightarrow> 'w Prompt) list \<Rightarrow> goerr + 'w Prompt" where
  "NewPrompt name handler opts =
     (if name = [] then Inl errPromptNameEmpty
      else if handler = None then Inl errPromptHandlerNil
      else Inr (fold (\<lambda>opt p. opt p) opts
                 \<lparr> pr_Name = name, pr_Description = [], pr_Arguments = [], pr_Handler = handler,
                   pr_Completer = None \<rparr>))"

definition NewRoot :: "string \<Rightarrow> (Root \<Rightarrow> Root) list \<Rightarrow> goerr + Root" where
  "NewRoot uri opts =
     (if uri = [] then Inl errRootURIEmpty
      else Inr (fold (\<lambda>opt r. opt r) opts \<lparr> root_URI = uri, root_Name = [] \<rparr>))"

lemma SetResponseMeta_get:
  "hs_holder st \<noteq> None \<Longrightarrow> \<exists>m. responseMetaFromHolder (SetResponseMeta k v st) = Some m \<and> mget m k = Some v"
  by (auto simp: SetResponseMeta_def responseMetaFromHolder_def gomap_simps)

lemma ValidateResourceContent_ok:
  "ValidateResourceContent c = None \<longleftrightarrow>
     rc_URI c \<noteq> [] \<and> (rc_Text c = None) \<noteq> (rc_Blob c = None)"
  by (auto simp: ValidateResourceContent_def)

end
