(* ===== verification/Names.thy ===== *)
theory Names
  imports Mcp_Types "HOL-Library.Word"
begin

text \<open>
  Validation of names: \<open>tool_validator.go\<close> (the 256-bit bitmap of the bytes a tool name may
  contain), \<open>NewTool\<close> of \<open>tool.go\<close>, and the grammar of notification methods in
  \<open>notification_handler.go\<close>. Both loops are related to the character sets their comments name.
\<close>

unbundle bit_operations_syntax

section \<open>Tool names\<close>

definition errToolNameEmpty :: goerr where "errToolNameEmpty = Sentinel ''tool name must not be empty''"
definition errToolNameTooLong :: goerr where
  "errToolNameTooLong = Sentinel ''tool name must be between 1 and 128 characters''"
definition errToolNameChars :: goerr where
  "errToolNameChars = Sentinel ''tool name contains invalid characters; allowed: A-Z, a-z, 0-9, _, -, .''"
definition errToolHandlerNil :: goerr where "errToolHandlerNil = Sentinel ''tool handler must not be nil''"

definition validToolNameBitmap :: "64 word list" where
  "validToolNameBitmap = [0x03FF600000000000, 0x07FFFFFE87FFFFFE, 0, 0]"

text \<open>The test of the loop body: \<open>c>>6\<close> selects the word and \<open>c&63\<close> the bit.\<close>

definition validToolNameByte :: "char \<Rightarrow> bool" where
  "validToolNameByte c =
     (let b = (of_char c :: 8 word)
      in drop_bit (unat (b AND 63)) (validToolNameBitmap ! unat (drop_bit 6 b)) AND 1 \<noteq> 0)"

fun validateToolName_loop :: "string \<Rightarrow> goerr option" where
  "validateToolName_loop [] = None"
| "validateToolName_loop (c # cs) =
     (if \<not> validToolNameByte c then Some errToolNameChars else validateToolName_loop cs)"

definition validateToolName :: "string \<Rightarrow> goerr option" where
  "validateToolName name =
     (if name = [] then Some errToolNameEmpty
      else if length name > 128 then Some errToolNameTooLong
      else validateToolName_loop name)"

definition validateHandler :: "'w ToolHandler option \<Rightarrow> goerr option" where
  "validateHandler h = (if h = None then Some errToolHandlerNil else None)"

definition NewTool ::
  "string \<Rightarrow> 'w ToolHandler option \<Rightarrow> ('w Tool \<Rightarrow> 'w Tool) list \<Rightarrow> goerr + 'w Tool" where
  "NewTool name handler opts =
     (case validateToolName name of Some e \<Rightarrow> Inl e
      | None \<Rightarrow>
        (case validateHandler handler of Some e \<Rightarrow> Inl e
         | None \<Rightarrow> Inr (fold (\<lambda>opt t. opt t) opts
             \<lparr> tool_Name = name, tool_Description = [], tool_Handler = handler,
               tool_Simulator = None, tool_Roles = [], tool_InputSchema = None,
               tool_Annotations = None, tool_SkipValidation = False \<rparr>)))"

text \<open>The set the comment names: letters, digits, underscore, hyphen and dot.\<close>

definition alnum :: "char \<Rightarrow> bool" where
  "alnum c = (let n = (of_char c :: nat)
     in (48 \<le> n \<and> n \<le> 57) \<or> (65 \<le> n \<and> n \<le> 90) \<or> (97 \<le> n \<and> n \<le> 122))"

definition tool_name_char :: "char \<Rightarrow> bool" where
  "tool_name_char c \<longleftrightarrow> alnum c \<or> c \<in> {CHR ''_'', CHR ''-'', CHR ''.''}"

text \<open>The same set on the codes of the bytes, split at the word boundary of the bitmap.\<close>

definition name_code :: "nat \<Rightarrow> bool" where
  "name_code n \<longleftrightarrow> (48 \<le> n \<and> n \<le> 57) \<or> (65 \<le> n \<and> n \<le> 90) \<or> (97 \<le> n \<and> n \<le> 122)
     \<or> n = 95 \<or> n = 45 \<or> n = 46"

lemma tool_name_char_code: "tool_name_char c \<longleftrightarrow> name_code (of_char c)"
proof -
  have eq: "c = d \<longleftrightarrow> (of_char c :: nat) = of_char d" for d by simp
  have "c = CHR ''_'' \<longleftrightarrow> (of_char c :: nat) = 95" "c = CHR ''-'' \<longleftrightarrow> (of_char c :: nat) = 45"
    "c = CHR ''.'' \<longleftrightarrow> (of_char c :: nat) = 46"
    by (subst eq, simp only: of_char_Char, simp)+
  then show ?thesis by (auto simp: tool_name_char_def alnum_def name_code_def Let_def)
qed

lemma of_char_less: "(of_char c :: nat) < 256"
  by (metis mod_less_divisor of_char_mod_256 zero_less_numeral)

lemma of_char_unat: "unat (of_char c :: 8 word) = of_char c"
proof -
  have "(of_char c :: 8 word) = of_nat (of_char c)" by (simp only: of_nat_of_char)
  moreover have "(of_char c :: nat) < 2 ^ 8" by (simp add: of_char_less)
  ultimately show ?thesis by (simp only: unat_of_nat) (simp add: take_bit_nat_eq_self)
qed

lemma drop_bit_and_1: "drop_bit n w AND 1 \<noteq> 0 \<longleftrightarrow> bit w n" for w :: "64 word"
  by (simp add: and_one_eq bit_iff_odd_drop_bit odd_iff_mod_2_eq_one)

lemma bitmap_word0: "\<forall>n < 64. bit (0x03FF600000000000 :: int) n = name_code n"
proof -
  have "list_all (\<lambda>n. bit (0x03FF600000000000 :: int) n = name_code n) [0..<64]"
    by (simp add: upt_rec name_code_def bit_0)
  then show ?thesis by (simp add: list_all_iff)
qed

lemma bitmap_word1: "\<forall>n < 64. bit (0x07FFFFFE87FFFFFE :: int) n = name_code (64 + n)"
proof -
  have "list_all (\<lambda>n. bit (0x07FFFFFE87FFFFFE :: int) n = name_code (64 + n)) [0..<64]"
    by (simp add: upt_rec name_code_def bit_0)
  then show ?thesis by (simp add: list_all_iff)
qed

lemma validToolNameByte_iff: "validToolNameByte c \<longleftrightarrow> tool_name_char c"
proof -
  define n where "n = (of_char c :: nat)"
  have n: "n < 256" by (simp add: n_def of_char_less)
  have idx: "unat (drop_bit 6 (of_char c :: 8 word)) = n div 64"
    by (subst unat_drop_bit_eq) (simp add: of_char_unat n_def drop_bit_eq_div)
  have off: "unat ((of_char c :: 8 word) AND 63) = n mod 64"
  proof -
    have "(of_char c :: 8 word) AND 63 = take_bit 6 (of_char c)"
      by (simp add: take_bit_eq_mask mask_eq_exp_minus_1)
    then show ?thesis
      by (simp only: unsigned_take_bit_eq of_char_unat n_def) (simp add: take_bit_eq_mod)
  qed
  have "validToolNameByte c \<longleftrightarrow> bit (validToolNameBitmap ! (n div 64)) (n mod 64)"
    by (simp only: validToolNameByte_def Let_def idx off drop_bit_and_1)
  also have "\<dots> \<longleftrightarrow> name_code n"
  proof -
    consider "n div 64 = 0" | "n div 64 = 1" | "n div 64 = 2 \<or> n div 64 = 3"
      using n by linarith
    then show ?thesis
    proof cases
      case 1
      then have "n < 64" by simp
      then show ?thesis using bitmap_word0
        by (simp add: validToolNameBitmap_def)
    next
      case 2
      obtain m where "n = 64 + m" "m < 64"
        using 2 by (intro that [of "n - 64"]) auto
      then show ?thesis using bitmap_word1
        by (simp add: validToolNameBitmap_def)
    next
      case 3
      then have "n \<ge> 128" by auto
      then show ?thesis using 3 by (auto simp: validToolNameBitmap_def name_code_def)
    qed
  qed
  finally show ?thesis by (simp add: tool_name_char_code n_def)
qed

lemma validateToolName_loop_iff: "validateToolName_loop s = None \<longleftrightarrow> list_all tool_name_char s"
  by (induction s) (auto simp: validToolNameByte_iff)

lemma validateToolName_ok:
  "validateToolName s = None \<longleftrightarrow> s \<noteq> [] \<and> length s \<le> 128 \<and> list_all tool_name_char s"
  by (auto simp: validateToolName_def validateToolName_loop_iff)

lemma validateHandler_ok [simp]: "validateHandler h = None \<longleftrightarrow> h \<noteq> None"
  by (simp add: validateHandler_def)

section \<open>Notification method names\<close>

definition maxNotifMethodNameLength :: nat where "maxNotifMethodNameLength = 512"

fun isValidNotifMethodName_loop :: "bool \<Rightarrow> string \<Rightarrow> bool" where
  "isValidNotifMethodName_loop prevSlash [] = True"
| "isValidNotifMethodName_loop prevSlash (c # cs) =
     (if c = CHR ''/'' \<and> prevSlash then False
      else if \<not> (alnum c \<or> c = CHR ''_'' \<or> c = CHR ''-'' \<or> c = CHR ''/'' \<or> c = CHR ''.'') then False
      else isValidNotifMethodName_loop (c = CHR ''/'') cs)"

definition isValidNotifMethodName :: "string \<Rightarrow> bool" where
  "isValidNotifMethodName name =
     (if name = [] then False
      else if hd name = CHR ''/'' \<or> last name = CHR ''/'' then False
      else isValidNotifMethodName_loop False name)"

text \<open>The grammar: non-empty segments of name characters, separated by single slashes.\<close>

fun split_slash :: "string \<Rightarrow> string list" where
  "split_slash [] = [[]]"
| "split_slash (c # cs) =
     (if c = CHR ''/'' then [] # split_slash cs
      else (case split_slash cs of [] \<Rightarrow> [[c]] | s # ss \<Rightarrow> (c # s) # ss))"

definition segment_ok :: "string \<Rightarrow> bool" where
  "segment_ok s \<longleftrightarrow> s \<noteq> [] \<and> list_all tool_name_char s"

lemma split_slash_not_Nil [simp]: "split_slash s \<noteq> []"
  by (induction s) (auto split: list.splits)

lemma segment_ok_Nil [simp]: "\<not> segment_ok []"
  by (simp add: segment_ok_def)

lemma segment_ok_Cons: "segment_ok (c # s) \<longleftrightarrow> tool_name_char c \<and> (s = [] \<or> segment_ok s)"
  by (auto simp: segment_ok_def)

lemma notif_loop_grammar:
  "s \<noteq> [] \<Longrightarrow> last s \<noteq> CHR ''/'' \<Longrightarrow>
   isValidNotifMethodName_loop p s \<longleftrightarrow>
     (if hd s = CHR ''/'' then \<not> p \<and> list_all segment_ok (tl (split_slash s))
      else list_all segment_ok (split_slash s))"
proof (induction s arbitrary: p)
  case (Cons c cs)
  show ?case
  proof (cases cs)
    case Nil
    with Cons.prems show ?thesis by (auto simp: segment_ok_def tool_name_char_def)
  next
    case (Cons d ds)
    then have IH: "isValidNotifMethodName_loop q cs \<longleftrightarrow>
       (if d = CHR ''/'' then \<not> q \<and> list_all segment_ok (tl (split_slash cs))
        else list_all segment_ok (split_slash cs))" for q
      using Cons.IH Cons.prems by simp
    obtain t ts where ts: "split_slash cs = t # ts" by (cases "split_slash cs") auto
    have t: "t = [] \<longleftrightarrow> d = CHR ''/''"
      using ts Cons by (auto split: if_splits list.splits)
    show ?thesis
      using ts t by (auto simp: IH segment_ok_Nil segment_ok_Cons tool_name_char_def)
  qed
qed simp

lemma isValidNotifMethodName_grammar:
  "isValidNotifMethodName s \<longleftrightarrow> list_all segment_ok (split_slash s)"
proof (cases "s = [] \<or> hd s = CHR ''/'' \<or> last s = CHR ''/''")
  case True
  have "s \<noteq> [] \<Longrightarrow> last s = CHR ''/'' \<Longrightarrow> [] \<in> set (tl (split_slash s))" for s
    by (induction s) (auto split: if_splits list.splits)
  then have "s \<noteq> [] \<Longrightarrow> last s = CHR ''/'' \<Longrightarrow> [] \<in> set (split_slash s)"
    by (meson list.set_sel(2) split_slash_not_Nil)
  with True have "[] \<in> set (split_slash s)" by (cases s) auto
  with True show ?thesis by (auto simp: isValidNotifMethodName_def list_all_iff segment_ok_def)
next
  case False
  then show ?thesis by (simp add: isValidNotifMethodName_def notif_loop_grammar)
qed

end
