(* ===== verification/Uri_Template.thy ===== *)
theory Uri_Template
  imports Mcp_Prelude
begin

text \<open>
  \<open>uritemplate.go\<close>: parsing, validation and matching of URI templates. Strings are byte lists
  and are decoded to runes as Go's conversion \<open>[]rune(s)\<close> and \<open>range s\<close> do. The matcher is kept
  with its shared step budget; it is related to a declarative reading of templates.
\<close>

section \<open>Runes\<close>

definition runeError :: nat where "runeError = 65533"

definition cont :: "nat \<Rightarrow> bool" where
  "cont b \<longleftrightarrow> 128 \<le> b \<and> b \<le> 191"

text \<open>
  The first rune of a byte sequence and its width; a byte that starts no valid encoding is
  \<open>U+FFFD\<close> of width one. The ranges of the second byte exclude overlong forms and surrogates.
\<close>

definition lo2 :: "nat \<Rightarrow> nat" where
  "lo2 b0 = (if b0 = 224 then 160 else if b0 = 240 then 144 else 128)"

definition hi2 :: "nat \<Rightarrow> nat" where
  "hi2 b0 = (if b0 = 237 then 159 else if b0 = 244 then 143 else 191)"

fun decode_rune :: "nat list \<Rightarrow> nat \<times> nat" where
  "decode_rune [] = (runeError, 0)"
| "decode_rune (b0 # bs) =
     (if b0 < 128 then (b0, 1)
      else if 194 \<le> b0 \<and> b0 \<le> 223 then
        (case bs of b1 # _ \<Rightarrow> if cont b1 then ((b0 - 192) * 64 + (b1 - 128), 2) else (runeError, 1)
         | _ \<Rightarrow> (runeError, 1))
      else if 224 \<le> b0 \<and> b0 \<le> 239 then
        (case bs of b1 # b2 # _ \<Rightarrow>
             if lo2 b0 \<le> b1 \<and> b1 \<le> hi2 b0 \<and> cont b2
             then ((b0 - 224) * 4096 + (b1 - 128) * 64 + (b2 - 128), 3) else (runeError, 1)
         | _ \<Rightarrow> (runeError, 1))
      else if 240 \<le> b0 \<and> b0 \<le> 244 then
        (case bs of b1 # b2 # b3 # _ \<Rightarrow>
             if lo2 b0 \<le> b1 \<and> b1 \<le> hi2 b0 \<and> cont b2 \<and> cont b3
             then ((b0 - 240) * 262144 + (b1 - 128) * 4096 + (b2 - 128) * 64 + (b3 - 128), 4)
             else (runeError, 1)
         | _ \<Rightarrow> (runeError, 1))
      else (runeError, 1))"

function decode_runes :: "nat list \<Rightarrow> nat list" where
  "decode_runes [] = []"
| "decode_runes (b # bs) =
     (let (r, n) = decode_rune (b # bs) in r # decode_runes (drop (n - 1) bs))"
  by pat_completeness auto
termination by (relation "measure length") (auto simp: less_Suc_eq_le)

definition runes :: "string \<Rightarrow> nat list" where
  "runes s = decode_runes (map of_char s)"

text \<open>\<open>unicode.IsSpace\<close>.\<close>

definition IsSpace :: "nat \<Rightarrow> bool" where
  "IsSpace r \<longleftrightarrow> r \<in> {9, 10, 11, 12, 13, 32, 133, 160, 5760, 8232, 8233, 8239, 8287, 12288}
     \<or> (8192 \<le> r \<and> r \<le> 8202)"

definition rune_open :: nat where "rune_open = 123"
definition rune_close :: nat where "rune_close = 125"
definition rune_plus :: nat where "rune_plus = 43"
definition rune_slash :: nat where "rune_slash = 47"

lemmas rune_defs = rune_open_def rune_close_def rune_plus_def rune_slash_def

section \<open>Parsing\<close>

datatype segment = Lit "nat list" | Placeholder

definition strip_plus :: "nat list \<Rightarrow> nat list" where
  "strip_plus inner = (if inner \<noteq> [] \<and> hd inner = rune_plus then tl inner else inner)"

function parse_runes :: "nat list \<Rightarrow> segment list option" where
  "parse_runes [] = Some []"
| "parse_runes (c # r) =
     (if c = rune_open then
        (case dropWhile (\<lambda>x. x \<noteq> rune_close) r of
           [] \<Rightarrow> None
         | _ # r' \<Rightarrow>
           let inner = takeWhile (\<lambda>x. x \<noteq> rune_close) r
           in if inner = [] then None
              else if list_all IsSpace (strip_plus inner) then None
              else map_option ((#) Placeholder) (parse_runes r'))
      else map_option ((#) (Lit (takeWhile (\<lambda>x. x \<noteq> rune_open) (c # r))))
             (parse_runes (dropWhile (\<lambda>x. x \<noteq> rune_open) (c # r))))"
  by pat_completeness auto
termination
proof (relation "measure length")
  fix c r and a :: nat and r' assume "dropWhile (\<lambda>x. x \<noteq> rune_close) r = a # r'"
  then show "(r', c # r) \<in> measure length"
    using length_dropWhile_le [of "\<lambda>x. x \<noteq> rune_close" r] by simp
next
  fix c r assume "c \<noteq> rune_open"
  then show "(dropWhile (\<lambda>x. x \<noteq> rune_open) (c # r), c # r) \<in> measure length"
    using length_dropWhile_le [of "\<lambda>x. x \<noteq> rune_open" r] by simp
qed simp

text \<open>\<open>parseTemplate\<close>; the nil slice is \<open>[]\<close>.\<close>

definition parseTemplate :: "string \<Rightarrow> segment list" where
  "parseTemplate tmpl = (case parse_runes (runes tmpl) of None \<Rightarrow> [] | Some segs \<Rightarrow> segs)"

section \<open>Matching\<close>

definition maxBacktrackSteps :: int where "maxBacktrackSteps = 10000"

fun strip_prefix :: "nat list \<Rightarrow> nat list \<Rightarrow> nat list option" where
  "strip_prefix [] u = Some u"
| "strip_prefix (c # l) u = (case u of [] \<Rightarrow> None | d # v \<Rightarrow> if d \<noteq> c then None else strip_prefix l v)"

text \<open>
  The loop skips a split point when the next segment is a literal that does not start there. A
  literal whose first rune is 0 disables the test, as \<open>nextLit == 0\<close> does in the source.
\<close>

definition pruned :: "segment list \<Rightarrow> nat list \<Rightarrow> bool" where
  "pruned ss u = (case ss of
       Lit (c # l) # _ \<Rightarrow> c \<noteq> 0 \<and> (u = [] \<or> hd u \<noteq> c)
     | _ \<Rightarrow> False)"

text \<open>
  \<open>matchSegs\<close> on the remaining segments and the remaining runes, with the budget threaded
  through; \<open>trySplits\<close> is its loop over the split points of a placeholder.
\<close>

function (sequential) matchSegs :: "segment list \<Rightarrow> nat list \<Rightarrow> int \<Rightarrow> bool \<times> int"
  and trySplits :: "segment list \<Rightarrow> nat list \<Rightarrow> int \<Rightarrow> bool \<times> int" where
  "matchSegs [] u b = (u = [], b)"
| "matchSegs (Lit l # ss) u b =
     (case strip_prefix l u of None \<Rightarrow> (False, b) | Some v \<Rightarrow> matchSegs ss v b)"
| "matchSegs [Placeholder] u b = (u \<noteq> [] \<and> rune_slash \<notin> set u, b)"
| "matchSegs (Placeholder # ss) u b = trySplits ss u b"
| "trySplits ss [] b = (False, b)"
| "trySplits ss (c # u) b =
     (if c = rune_slash then (False, b)
      else if b - 1 \<le> 0 then (False, b - 1)
      else if pruned ss u then trySplits ss u (b - 1)
      else (case matchSegs ss u (b - 1) of
              (True, b') \<Rightarrow> (True, b')
            | (False, b') \<Rightarrow> trySplits ss u b'))"
  by pat_completeness auto
termination
  by (relation "measures [\<lambda>x. case x of Inl (ss, u, b) \<Rightarrow> length ss | Inr (ss, u, b) \<Rightarrow> length ss,
                          \<lambda>x. case x of Inl (ss, u, b) \<Rightarrow> length u | Inr (ss, u, b) \<Rightarrow> length u]") auto

definition matchesParsedTemplate :: "segment list \<Rightarrow> string \<Rightarrow> bool" where
  "matchesParsedTemplate segs uri =
     (if segs = [] then False else fst (matchSegs segs (runes uri) maxBacktrackSteps))"

definition uriTemplateMatches :: "string \<Rightarrow> string \<Rightarrow> bool" where
  "uriTemplateMatches tmpl uri =
     (if tmpl = [] then uri = []
      else let segs = parseTemplate tmpl
           in if segs = [] then False else fst (matchSegs segs (runes uri) maxBacktrackSteps))"

section \<open>Validation\<close>

fun braces_ok :: "nat \<Rightarrow> nat list \<Rightarrow> bool" where
  "braces_ok depth [] \<longleftrightarrow> depth = 0"
| "braces_ok depth (ch # r) =
     (if ch = rune_open then (if depth > 0 then False else braces_ok (depth + 1) r)
      else if ch = rune_close then (if depth = 0 then False else braces_ok (depth - 1) r)
      else braces_ok depth r)"

text \<open>\<open>unicode.IsLetter\<close> and \<open>unicode.IsDigit\<close> are parameters of the validation.\<close>

definition isValidVarName :: "(nat \<Rightarrow> bool) \<Rightarrow> (nat \<Rightarrow> bool) \<Rightarrow> string \<Rightarrow> bool" where
  "isValidVarName IsLetter IsDigit s =
     (case runes s of [] \<Rightarrow> False
      | r # rs \<Rightarrow> (IsLetter r \<or> IsDigit r \<or> r = 95)
          \<and> list_all (\<lambda>r. IsLetter r \<or> IsDigit r \<or> r = 95 \<or> r = 46) rs)"

function names_ok :: "(nat \<Rightarrow> bool) \<Rightarrow> (nat \<Rightarrow> bool) \<Rightarrow> string \<Rightarrow> bool" where
  "names_ok IsLetter IsDigit rest =
     (case dropWhile (\<lambda>c. c \<noteq> CHR ''{'') rest of
        [] \<Rightarrow> True
      | _ # r \<Rightarrow>
        (case dropWhile (\<lambda>c. c \<noteq> CHR ''}'') r of
           [] \<Rightarrow> False
         | _ # r' \<Rightarrow>
           let inner = takeWhile (\<lambda>c. c \<noteq> CHR ''}'') r
           in if inner = [] then False
              else if \<not> isValidVarName IsLetter IsDigit (if hd inner = CHR ''+'' then tl inner else inner)
                then False
              else names_ok IsLetter IsDigit r'))"
  by pat_completeness auto
termination
proof (relation "measure (\<lambda>(_, _, s). length s)", simp)
  fix IsLetter IsDigit :: "nat \<Rightarrow> bool" and rest a r b r'
  assume "dropWhile (\<lambda>c. c \<noteq> CHR ''{'') rest = a # r" "dropWhile (\<lambda>c. c \<noteq> CHR ''}'') r = b # r'"
  then have "length (a # r) \<le> length rest" "length (b # r') \<le> length r"
    by (metis length_dropWhile_le)+
  then show "((IsLetter, IsDigit, r'), IsLetter, IsDigit, rest) \<in> measure (\<lambda>(_, _, s). length s)"
    by simp
qed

declare names_ok.simps [simp del]

definition isValidURITemplate :: "(nat \<Rightarrow> bool) \<Rightarrow> (nat \<Rightarrow> bool) \<Rightarrow> string \<Rightarrow> bool" where
  "isValidURITemplate IsLetter IsDigit tmpl \<longleftrightarrow>
     braces_ok 0 (runes tmpl) \<and> names_ok IsLetter IsDigit tmpl"

section \<open>What a template means\<close>

text \<open>
  A literal stands for itself and a placeholder for one or more runes other than the slash.
\<close>

fun denotes :: "segment list \<Rightarrow> nat list \<Rightarrow> bool" where
  "denotes [] u \<longleftrightarrow> u = []"
| "denotes (Lit l # ss) u \<longleftrightarrow> (\<exists>v. u = l @ v \<and> denotes ss v)"
| "denotes (Placeholder # ss) u \<longleftrightarrow>
     (\<exists>w v. u = w @ v \<and> w \<noteq> [] \<and> rune_slash \<notin> set w \<and> denotes ss v)"

definition denotes_split :: "segment list \<Rightarrow> nat list \<Rightarrow> bool" where
  "denotes_split ss u \<longleftrightarrow> (\<exists>w v. u = w @ v \<and> w \<noteq> [] \<and> rune_slash \<notin> set w \<and> denotes ss v)"

text \<open>The placeholders that are not the last segment; only these cost steps.\<close>

definition inner_placeholders :: "segment list \<Rightarrow> nat" where
  "inner_placeholders ss = length (filter (\<lambda>s. s = Placeholder) (butlast ss))"

lemma strip_prefix_iff: "strip_prefix l u = Some v \<longleftrightarrow> u = l @ v"
  by (induction l arbitrary: u) (auto split: list.splits)

lemma strip_prefix_None: "strip_prefix l u = None \<longleftrightarrow> (\<nexists>v. u = l @ v)"
  using strip_prefix_iff [of l u] by (metis not_None_eq option.distinct(1))

lemma denotes_last: "denotes [Placeholder] u \<longleftrightarrow> u \<noteq> [] \<and> rune_slash \<notin> set u"
  by auto

lemma denotes_placeholder: "denotes (Placeholder # ss) u \<longleftrightarrow> denotes_split ss u"
  by (simp add: denotes_split_def)

lemma denotes_split_Nil [simp]: "\<not> denotes_split ss []"
  by (simp add: denotes_split_def)

lemma denotes_split_Cons:
  "denotes_split ss (c # u) \<longleftrightarrow> c \<noteq> rune_slash \<and> (denotes ss u \<or> denotes_split ss u)"
proof
  assume "denotes_split ss (c # u)"
  then obtain w v where w: "c # u = w @ v" "w \<noteq> []" "rune_slash \<notin> set w" "denotes ss v"
    by (auto simp: denotes_split_def)
  then obtain w' where "w = c # w'" "u = w' @ v" by (cases w) auto
  with w show "c \<noteq> rune_slash \<and> (denotes ss u \<or> denotes_split ss u)"
    unfolding denotes_split_def by (cases "w' = []") auto
next
  assume asm: "c \<noteq> rune_slash \<and> (denotes ss u \<or> denotes_split ss u)"
  show "denotes_split ss (c # u)"
  proof (cases "denotes ss u")
    case True
    have "c # u = [c] @ u" by simp
    with True asm show ?thesis unfolding denotes_split_def by (metis insertE list.distinct(1) list.set(2) empty_set empty_iff)
  next
    case False
    with asm obtain w v where "u = w @ v" "rune_slash \<notin> set w" "denotes ss v"
      by (auto simp: denotes_split_def)
    moreover from this have "c # u = (c # w) @ v" by simp
    ultimately show ?thesis using asm unfolding denotes_split_def by (metis list.distinct(1) set_ConsD)
  qed
qed

lemma pruned_simps [simp]:
  "\<not> pruned [] u" "\<not> pruned (Placeholder # r) u" "\<not> pruned (Lit [] # r) u"
  "pruned (Lit (c # l) # r) u \<longleftrightarrow> c \<noteq> 0 \<and> (u = [] \<or> hd u \<noteq> c)"
  by (simp_all add: pruned_def)

lemma pruned_no_match: "pruned ss u \<Longrightarrow> \<not> denotes ss u"
proof (cases ss)
  case (Cons s r)
  assume "pruned ss u"
  with Cons obtain c l where "s = Lit (c # l)" "u = [] \<or> hd u \<noteq> c"
    by (cases s) (auto simp: neq_Nil_conv elim: list.exhaust, metis pruned_simps(3,4) list.exhaust)
  with Cons show ?thesis by auto
qed simp

lemma match_sound:
  "fst (matchSegs ss u b) \<Longrightarrow> denotes ss u"
  "fst (trySplits ss u b) \<Longrightarrow> denotes_split ss u"
proof (induction ss u b and ss u b rule: matchSegs_trySplits.induct)
  case (2 l ss u b)
  then show ?case by (auto simp: strip_prefix_iff split: option.splits)
next
  case (4 v va u b)
  then show ?case by (simp add: denotes_split_def)
next
  case (6 ss c u b)
  then show ?case
    by (auto simp: denotes_split_Cons split: if_splits prod.splits bool.splits)
qed auto

lemma match_budget_le:
  "snd (matchSegs ss u b) \<le> b"
  "snd (trySplits ss u b) \<le> b"
proof (induction ss u b and ss u b rule: matchSegs_trySplits.induct)
  case (6 ss c u b)
  then show ?case by (fastforce split: if_splits prod.splits bool.splits)
qed (auto split: option.splits)

lemma match_complete:
  "\<not> fst (matchSegs ss u b) \<Longrightarrow> snd (matchSegs ss u b) > 0 \<Longrightarrow> \<not> denotes ss u"
  "\<not> fst (trySplits ss u b) \<Longrightarrow> snd (trySplits ss u b) > 0 \<Longrightarrow> \<not> denotes_split ss u"
proof (induction ss u b and ss u b rule: matchSegs_trySplits.induct)
  case (2 l ss u b)
  then show ?case by (auto simp: strip_prefix_iff strip_prefix_None split: option.splits)
next
  case (4 v va u b)
  then show ?case by (simp add: denotes_placeholder del: denotes.simps)
next
  case (6 ss c u b)
  show ?case
  proof (cases "c = rune_slash \<or> b - 1 \<le> 0 \<or> pruned ss u")
    case True
    with 6 pruned_no_match show ?thesis by (auto simp: denotes_split_Cons split: if_splits)
  next
    case False
    obtain r b' where m: "matchSegs ss u (b - 1) = (r, b')" by fastforce
    with 6 False have r: "\<not> r" by (auto split: bool.splits)
    with m 6 False have t: "\<not> fst (trySplits ss u b')" "snd (trySplits ss u b') > 0" by auto
    then have "b' > 0" using match_budget_le(2) [of ss u b'] by linarith
    with 6 False m r t show ?thesis by (auto simp: denotes_split_Cons)
  qed
qed auto

section \<open>Cost of matching\<close>

lemma inner_simps [simp]:
  "inner_placeholders [] = 0" "inner_placeholders [s] = 0"
  "inner_placeholders (Lit l # ss) = inner_placeholders ss"
  "inner_placeholders (Placeholder # s # ss) = Suc (inner_placeholders (s # ss))"
  by (simp_all add: inner_placeholders_def)

lemma power_step: "int n * int ((N + 1) ^ k) \<le> int ((N + 1) ^ Suc k) - 1" if "n \<le> N"
proof -
  have "n * (N + 1) ^ k + 1 \<le> N * (N + 1) ^ k + (N + 1) ^ k"
    using that by (intro add_mono mult_right_mono) auto
  then have "int (n * (N + 1) ^ k + 1) \<le> int ((N + 1) ^ Suc k)"
    by (metis (no_types, lifting) add.commute mult.commute mult_Suc of_nat_le_iff power_Suc Suc_eq_plus1)
  then show ?thesis by simp
qed

lemma match_cost:
  "length u \<le> N \<Longrightarrow> b - snd (matchSegs ss u b) \<le> int ((N + 1) ^ inner_placeholders ss) - 1"
  "ss \<noteq> [] \<Longrightarrow> length u \<le> N \<Longrightarrow>
     b - snd (trySplits ss u b) \<le> int (length u) * int ((N + 1) ^ inner_placeholders ss)"
proof (induction ss u b and ss u b rule: matchSegs_trySplits.induct)
  case (2 l ss u b)
  then show ?case by (auto simp: strip_prefix_iff split: option.splits)
next
  case (4 v va u b)
  then have "b - snd (trySplits (v # va) u b) \<le> int (length u) * int ((N + 1) ^ inner_placeholders (v # va))"
    by simp
  also have "\<dots> \<le> int ((N + 1) ^ Suc (inner_placeholders (v # va))) - 1"
    by (rule power_step) (rule 4)
  finally show ?case by simp
next
  case (6 ss c u b)
  define k where "k = int ((N + 1) ^ inner_placeholders ss)"
  note IH = 6 [folded k_def]
  have k: "1 \<le> k" by (simp add: k_def)
  have nn: "0 \<le> int (length u) * k" using k by simp
  have len: "int (length (c # u)) * k = k + int (length u) * k" by (simp add: algebra_simps)
  have "b - snd (trySplits ss (c # u) b) \<le> k + int (length u) * k"
  proof (cases "c = rune_slash \<or> b - 1 \<le> 0")
    case True
    then have "b - snd (trySplits ss (c # u) b) \<le> 1" by auto
    then show ?thesis using k nn by linarith
  next
    case open1: False
    show ?thesis
    proof (cases "pruned ss u")
      case True
      with open1 IH have "(b - 1) - snd (trySplits ss u (b - 1)) \<le> int (length u) * k" by simp
      with True open1 k show ?thesis by auto
    next
      case False
      obtain r b' where m: "matchSegs ss u (b - 1) = (r, b')" by fastforce
      from IH(2) [OF _ _ False] open1 IH(5) m have m': "(b - 1) - b' \<le> k - 1" by simp
      show ?thesis
      proof (cases r)
        case True
        with m m' False open1 nn show ?thesis by auto
      next
        case r: False
        from IH(3) open1 IH(4,5) m r False
        have "b' - snd (trySplits ss u b') \<le> int (length u) * k" by auto
        with m m' r False open1 show ?thesis by auto
      qed
    qed
  qed
  then have "b - snd (trySplits ss (c # u) b) \<le> int (length (c # u)) * k" by (simp only: len)
  then show ?case by (simp only: k_def)
qed auto

section \<open>Bytes and runes\<close>

lemma decode_rune_ascii: "fst (decode_rune (b # bs)) < 128 \<Longrightarrow> fst (decode_rune (b # bs)) = b"
  by (auto simp: runeError_def lo2_def cont_def split: if_splits list.splits)

lemma decode_rune_append:
  assumes "c < 128"
  shows "decode_rune (b # bs @ c # ys) = decode_rune (b # bs)"
proof -
  consider "bs = []" | b1 where "bs = [b1]" | b1 b2 where "bs = [b1, b2]"
    | b1 b2 b3 r where "bs = b1 # b2 # b3 # r"
    by (metis list.exhaust)
  then show ?thesis
    by cases (use assms in \<open>auto simp: cont_def lo2_def split: list.splits\<close>)
qed

lemma decode_rune_width: "snd (decode_rune (b # bs)) - 1 \<le> length bs"
  by (auto split: if_splits list.splits)

lemma decode_runes_append:
  "c < 128 \<Longrightarrow> decode_runes (xs @ c # ys) = decode_runes xs @ c # decode_runes ys"
proof (induction xs rule: decode_runes.induct)
  case (2 b bs)
  obtain r n where d: "decode_rune (b # bs) = (r, n)" by fastforce
  have "n - 1 \<le> length bs" using decode_rune_width [of b bs] d by simp
  with 2 d show ?case by (simp add: decode_rune_append del: decode_rune.simps)
qed simp

lemma decode_runes_mem: "r < 128 \<Longrightarrow> r \<in> set (decode_runes xs) \<Longrightarrow> r \<in> set xs"
proof (induction xs rule: decode_runes.induct)
  case (2 b bs)
  obtain r' n where d: "decode_rune (b # bs) = (r', n)" by fastforce
  have "r' < 128 \<Longrightarrow> r' = b" using decode_rune_ascii [of b bs] d by simp
  moreover have "set (drop (n - 1) bs) \<subseteq> set bs" by (rule set_drop_subset)
  ultimately show ?case using 2 d by (auto simp del: decode_rune.simps)
qed simp

lemma runes_append:
  "(of_char c :: nat) < 128 \<Longrightarrow> runes (xs @ c # ys) = runes xs @ of_char c # runes ys"
  by (simp add: runes_def decode_runes_append)

lemma runes_mem: "r < 128 \<Longrightarrow> r \<in> set (runes s) \<Longrightarrow> char_of r \<in> set s"
  using decode_runes_mem [of r "map of_char s"] by (auto simp: runes_def)

lemma runes_Nil [simp]: "runes [] = []"
  by (simp add: runes_def)

lemma runes_Nil_iff [simp]: "runes s = [] \<longleftrightarrow> s = []"
  by (cases s) (auto simp: runes_def Let_def split: prod.splits)

lemma hd_runes_ascii: "s \<noteq> [] \<Longrightarrow> hd (runes s) < 128 \<Longrightarrow> hd (runes s) = of_char (hd s)"
proof (cases s)
  case (Cons c t)
  assume "hd (runes s) < 128"
  with Cons show ?thesis
    using decode_rune_ascii [of "of_char c" "map of_char t"]
    by (simp add: runes_def Let_def split: prod.splits del: decode_rune.simps)
qed simp

section \<open>Properties\<close>

lemma brace_chars [simp]:
  "char_of (123 :: nat) = CHR ''{''" "char_of (125 :: nat) = CHR ''}''"
  by (simp_all add: char_of_eq_iff take_bit_eq_mod)

lemma parse_no_open: "rune_open \<notin> set p \<Longrightarrow> p \<noteq> [] \<Longrightarrow> parse_runes p = Some [Lit p]"
proof (cases p)
  case (Cons c r)
  assume p: "rune_open \<notin> set p"
  have d: "dropWhile (\<lambda>x. x \<noteq> rune_open) (c # r) = []"
    and t: "takeWhile (\<lambda>x. x \<noteq> rune_open) (c # r) = c # r"
    using p Cons by (auto simp: dropWhile_eq_Nil_conv takeWhile_eq_all_conv)
  have "c \<noteq> rune_open" using p Cons by auto
  then show ?thesis unfolding Cons parse_runes.simps(2) d t by simp
qed simp

lemma parse_prefix:
  assumes "rune_open \<notin> set p" "p \<noteq> []"
  shows "parse_runes (p @ rune_open # r) = map_option ((#) (Lit p)) (parse_runes (rune_open # r))"
proof (cases p)
  case (Cons c q)
  have "dropWhile (\<lambda>x. x \<noteq> rune_open) (p @ rune_open # r) = rune_open # r"
    "takeWhile (\<lambda>x. x \<noteq> rune_open) (p @ rune_open # r) = p"
    using assms by (auto simp: dropWhile_append takeWhile_append)
  moreover have "c \<noteq> rune_open" using assms Cons by auto
  ultimately show ?thesis
    using Cons parse_runes.simps(2) [of c "q @ rune_open # r"] by simp
qed (use assms in simp)

lemma split_at_char:
  assumes "dropWhile (\<lambda>x. x \<noteq> c) s = a # r"
  obtains p where "s = p @ c # r" "takeWhile (\<lambda>x. x \<noteq> c) s = p" "c \<notin> set p"
proof -
  from assms have "a = c" using hd_dropWhile [of "\<lambda>x. x \<noteq> c" s] by simp
  with assms have "s = takeWhile (\<lambda>x. x \<noteq> c) s @ c # r"
    using takeWhile_dropWhile_id [of "\<lambda>x. x \<noteq> c" s] by simp
  moreover have "c \<notin> set (takeWhile (\<lambda>x. x \<noteq> c) s)" using set_takeWhileD by fastforce
  ultimately show thesis using that by blast
qed

lemma valid_name_not_blank:
  assumes "\<And>r. IsLetter r \<or> IsDigit r \<Longrightarrow> \<not> IsSpace r"
    and "isValidVarName IsLetter IsDigit (if hd inner = CHR ''+'' then tl inner else inner)"
    and "inner \<noteq> []"
  shows "\<not> list_all IsSpace (strip_plus (runes inner))"
proof -
  let ?name = "if hd inner = CHR ''+'' then tl inner else inner"
  have strip: "strip_plus (runes inner) = runes ?name"
  proof (cases "hd inner = CHR ''+''")
    case True
    then obtain t where "inner = [] @ CHR ''+'' # t" using assms(3) by (cases inner) auto
    then have "runes inner = 43 # runes t" using runes_append [of "CHR ''+''" "[]" t]
      by (simp add: runes_def)
    with True \<open>inner = [] @ CHR ''+'' # t\<close> show ?thesis by (simp add: strip_plus_def rune_defs)
  next
    case False
    have "hd (runes inner) \<noteq> 43"
    proof
      assume "hd (runes inner) = 43"
      then have "of_char (hd inner) = (43 :: nat)" using hd_runes_ascii [of inner] assms(3) by simp
      then have "of_char (hd inner) = (of_char CHR ''+'' :: nat)" by simp
      with False show False by (simp only: of_char_eq_iff)
    qed
    with False show ?thesis by (simp add: strip_plus_def rune_defs)
  qed
  from assms(2) obtain r rs where "runes ?name = r # rs" "IsLetter r \<or> IsDigit r \<or> r = 95"
    by (auto simp: isValidVarName_def split: list.splits)
  moreover have "\<not> IsSpace 95" by (simp add: IsSpace_def)
  ultimately show ?thesis using assms(1) strip by auto
qed

lemma names_ok_parses:
  assumes letters: "\<And>r. IsLetter r \<or> IsDigit r \<Longrightarrow> \<not> IsSpace r"
  shows "names_ok IsLetter IsDigit s \<Longrightarrow> parse_runes (runes s) \<noteq> None"
proof (induction "length s" arbitrary: s rule: less_induct)
  case less
  show ?case
  proof (cases "dropWhile (\<lambda>c. c \<noteq> CHR ''{'') s")
    case Nil
    then have "CHR ''{'' \<notin> set s" by (auto simp: dropWhile_eq_Nil_conv)
    then have "rune_open \<notin> set (runes s)" using runes_mem [of 123 s] by (auto simp: rune_defs)
    then show ?thesis by (cases "s = []") (simp_all add: parse_no_open)
  next
    case (Cons a r)
    then obtain p where p: "s = p @ CHR ''{'' # r" "CHR ''{'' \<notin> set p" by (rule split_at_char)
    from less.prems Cons obtain b r' where r': "dropWhile (\<lambda>c. c \<noteq> CHR ''}'') r = b # r'"
      by (subst (asm) names_ok.simps) (auto split: list.splits)
    then obtain q where q: "r = q @ CHR ''}'' # r'" "takeWhile (\<lambda>c. c \<noteq> CHR ''}'') r = q" "CHR ''}'' \<notin> set q"
      by (rule split_at_char)
    from less.prems Cons r' q have ok: "q \<noteq> []" "names_ok IsLetter IsDigit r'"
      "isValidVarName IsLetter IsDigit (if hd q = CHR ''+'' then tl q else q)"
      by (subst (asm) names_ok.simps, auto simp: Let_def split: if_splits)+
    have "parse_runes (runes r') \<noteq> None" using less.hyps [of r'] ok p q by simp
    moreover have rr: "runes r = runes q @ rune_close # runes r'"
      using runes_append [of "CHR ''}''" q r'] q by (simp add: rune_defs)
    moreover have "rune_close \<notin> set (runes q)" using runes_mem [of 125 q] q by (auto simp: rune_defs)
    ultimately have "parse_runes (rune_open # runes r) \<noteq> None"
      using valid_name_not_blank [OF letters ok(3) ok(1)] ok(1)
      by (simp add: dropWhile_append takeWhile_append Let_def)
    moreover have "runes s = runes p @ rune_open # runes r"
      using runes_append [of "CHR ''{''" p r] p by (simp add: rune_defs)
    moreover have "rune_open \<notin> set (runes p)" using runes_mem [of 123 p] p by (auto simp: rune_defs)
    ultimately show ?thesis by (cases "p = []") (auto simp: parse_prefix)
  qed
qed

text \<open>C18: The bounded matcher against the meaning of templates: a template that is reported to
  match does match; a report of no match is right whenever budget is left; and the budget of
  10000 steps is left whenever \<open>(n + 1) ^ k \<le> 10000\<close>, where \<open>n\<close> is the number of runes of the
  URI and \<open>k\<close> the number of placeholders before the last segment.\<close>

theorem matcher_exact:
  "(matchesParsedTemplate segs uri \<longrightarrow> denotes segs (runes uri))
   \<and> (segs \<noteq> [] \<and> snd (matchSegs segs (runes uri) maxBacktrackSteps) > 0 \<longrightarrow>
        matchesParsedTemplate segs uri = denotes segs (runes uri))
   \<and> ((length (runes uri) + 1) ^ inner_placeholders segs \<le> 10000 \<longrightarrow>
        snd (matchSegs segs (runes uri) maxBacktrackSteps) > 0)"
proof (intro conjI impI)
  assume "matchesParsedTemplate segs uri"
  then show "denotes segs (runes uri)"
    using match_sound(1) by (auto simp: matchesParsedTemplate_def split: if_splits)
next
  assume "segs \<noteq> [] \<and> snd (matchSegs segs (runes uri) maxBacktrackSteps) > 0"
  then show "matchesParsedTemplate segs uri = denotes segs (runes uri)"
    using match_sound(1) [of segs "runes uri"] match_complete(1) [of segs "runes uri"]
    by (auto simp: matchesParsedTemplate_def)
next
  assume "(length (runes uri) + 1) ^ inner_placeholders segs \<le> 10000"
  then have "int ((length (runes uri) + 1) ^ inner_placeholders segs) \<le> 10000"
    using of_nat_mono by fastforce
  then show "snd (matchSegs segs (runes uri) maxBacktrackSteps) > 0"
    using match_cost(1) [of "runes uri" "length (runes uri)" maxBacktrackSteps segs]
    by (simp add: maxBacktrackSteps_def)
qed

definition demo_segs :: "segment list" where
  "demo_segs = [Lit [97, 47], Placeholder, Lit [46], Placeholder]"

theorem matcher_exact_witness:
  "matchesParsedTemplate demo_segs ''a/bc.d'' \<and> denotes demo_segs (runes ''a/bc.d'')"
proof -
  have r: "runes ''a/bc.d'' = [97, 47, 98, 99, 46, 100]"
    by (simp add: runes_def Let_def)
  have "matchesParsedTemplate demo_segs ''a/bc.d''"
    by (simp add: matchesParsedTemplate_def demo_segs_def r maxBacktrackSteps_def rune_defs)
  with matcher_exact [of demo_segs "''a/bc.d''"] show ?thesis by blast
qed

text \<open>A template that passes validation parses: \<open>parseTemplate\<close> does not return nil for it,
  so a registered template always has segments to match against. The hypothesis on the Unicode
  tables is that neither letters nor digits are white space.\<close>

theorem valid_template_parses:
  assumes "\<And>r. IsLetter r \<or> IsDigit r \<Longrightarrow> \<not> IsSpace r"
    and "isValidURITemplate IsLetter IsDigit tmpl" and "tmpl \<noteq> []"
  shows "parseTemplate tmpl \<noteq> []"
proof -
  obtain segs where segs: "parse_runes (runes tmpl) = Some segs"
    using names_ok_parses [of IsLetter IsDigit tmpl] assms(1,2) by (auto simp: isValidURITemplate_def)
  have "runes tmpl \<noteq> []" using assms(3) by simp
  then have "segs \<noteq> []"
    using segs by (cases "runes tmpl") (auto simp: Let_def split: list.splits if_splits)
  with segs show ?thesis by (simp add: parseTemplate_def)
qed

definition ascii_letter :: "nat \<Rightarrow> bool" where
  "ascii_letter r \<longleftrightarrow> (65 \<le> r \<and> r \<le> 90) \<or> (97 \<le> r \<and> r \<le> 122)"

definition ascii_digit :: "nat \<Rightarrow> bool" where
  "ascii_digit r \<longleftrightarrow> 48 \<le> r \<and> r \<le> 57"

theorem valid_template_parses_witness: "parseTemplate ''f:/{+a}.x'' \<noteq> []"
proof (rule valid_template_parses [of ascii_letter ascii_digit])
  show "\<not> IsSpace r" if "ascii_letter r \<or> ascii_digit r" for r
    using that by (auto simp: ascii_letter_def ascii_digit_def IsSpace_def)
  show "isValidURITemplate ascii_letter ascii_digit ''f:/{+a}.x''"
    by (simp add: isValidURITemplate_def names_ok.simps runes_def Let_def isValidVarName_def
        ascii_letter_def rune_defs)
qed simp

end
