(* ===== verification/Registry.thy ===== *)
theory Registry
  imports Names Uri_Template
begin

text \<open>
  The registries of \<open>server.go\<close> and \<open>roots.go\<close>: tools, resources, resource templates, prompts and
  roots, each a map with, except for the roots, a cached sorted snapshot that is dropped when the
  map changes, and the broadcast of list-changed notifications. A pointer argument is an option.
  The operations are defined on every extension of the record of the registries, so that they
  apply to the whole server. Under the server's lock each operation is one step.
\<close>

section \<open>State\<close>

record 'w ResourceTemplate =
  rt_URITemplate :: string
  rt_Name :: string
  rt_Description :: string
  rt_MimeType :: string
  rt_Handler :: "'w ResourceHandler option"
  rt_Completer :: "'w CompleteHandler option"
  rt_parsedSegs :: "segment list"

record 'w registries =
  s_tools :: "(string, 'w Tool) gomap"
  s_resources :: "(string, 'w Resource) gomap"
  s_templates :: "(string, 'w ResourceTemplate) gomap"
  s_sortedTemplates :: "'w ResourceTemplate list option"
  s_sortedTools :: "'w Tool list option"
  s_sortedResources :: "'w Resource list option"
  s_sortedPrompts :: "'w Prompt list option"
  s_roots :: "(string, Root) gomap"
  s_prompts :: "(string, 'w Prompt) gomap"
  s_senders :: "(string, 'w NotificationSender) gomap"

definition errToolNotFound :: goerr where "errToolNotFound = Sentinel ''tool not found''"
definition errToolAlreadyExists :: goerr where "errToolAlreadyExists = Sentinel ''tool already registered''"
definition errToolNil :: goerr where "errToolNil = Sentinel ''tool must not be nil''"
definition errResourceAlreadyExists :: goerr where "errResourceAlreadyExists = Sentinel ''resource already registered''"
definition errResourceNotFound :: goerr where "errResourceNotFound = Sentinel ''resource not found''"
definition errResourceNil :: goerr where "errResourceNil = Sentinel ''resource must not be nil''"
definition errTemplateURIEmpty :: goerr where "errTemplateURIEmpty = Sentinel ''resource template URI must not be empty''"
definition errTemplateNameEmpty :: goerr where "errTemplateNameEmpty = Sentinel ''resource template name must not be empty''"
definition errTemplateHandlerNil :: goerr where "errTemplateHandlerNil = Sentinel ''resource template handler must not be nil''"
definition errTemplateAlreadyExists :: goerr where "errTemplateAlreadyExists = Sentinel ''resource template already registered''"
definition errTemplateNil :: goerr where "errTemplateNil = Sentinel ''resource template must not be nil''"
definition errTemplateInvalid :: goerr where "errTemplateInvalid = Sentinel ''resource template URI has malformed placeholders''"
definition errPromptAlreadyExists :: goerr where "errPromptAlreadyExists = Sentinel ''prompt already registered''"
definition errPromptNotFound :: goerr where "errPromptNotFound = Sentinel ''prompt not found''"
definition errPromptNil :: goerr where "errPromptNil = Sentinel ''prompt must not be nil''"
definition errRootAlreadyExists :: goerr where "errRootAlreadyExists = Sentinel ''root already registered''"
definition errRootNil :: goerr where "errRootNil = Sentinel ''root must not be nil''"
definition errSenderAlreadyExists :: goerr where
  "errSenderAlreadyExists = Sentinel ''a sender is already registered for this connection ID''"

section \<open>Broadcasting\<close>

definition methodToolsListChanged :: string where "methodToolsListChanged = ''notifications/tools/list_changed''"
definition methodResourcesListChanged :: string where "methodResourcesListChanged = ''notifications/resources/list_changed''"
definition methodPromptsListChanged :: string where "methodPromptsListChanged = ''notifications/prompts/list_changed''"
definition methodRootsListChanged :: string where "methodRootsListChanged = ''notifications/roots/list_changed''"

definition list_changed :: "string \<Rightarrow> JSONRPCNotification" where
  "list_changed m = \<lparr> ntf_JSONRPC = jsonrpcVersion, ntf_Method = m, ntf_Params = NoParams \<rparr>"

definition broadcastListChanged :: "string \<Rightarrow> ('w, 'x) registries_scheme \<Rightarrow> 'w \<Rightarrow> 'w" where
  "broadcastListChanged m s w = fold (\<lambda>(_, sender) w. sender (list_changed m) w) (s_senders s) w"

definition NotifyToolsListChanged :: "('w, 'x) registries_scheme \<Rightarrow> 'w \<Rightarrow> 'w" where
  "NotifyToolsListChanged s w = broadcastListChanged methodToolsListChanged s w"

definition NotifyResourcesListChanged :: "('w, 'x) registries_scheme \<Rightarrow> 'w \<Rightarrow> 'w" where
  "NotifyResourcesListChanged s w = broadcastListChanged methodResourcesListChanged s w"

definition NotifyPromptsListChanged :: "('w, 'x) registries_scheme \<Rightarrow> 'w \<Rightarrow> 'w" where
  "NotifyPromptsListChanged s w = broadcastListChanged methodPromptsListChanged s w"

definition NotifyRootsListChanged :: "('w, 'x) registries_scheme \<Rightarrow> 'w \<Rightarrow> 'w" where
  "NotifyRootsListChanged s w = broadcastListChanged methodRootsListChanged s w"

definition AddSender ::
  "string \<Rightarrow> 'w NotificationSender option \<Rightarrow> ('w, 'x) registries_scheme \<Rightarrow> goerr option \<times> ('w, 'x) registries_scheme" where
  "AddSender cid sender s =
     (if cid = [] then (Some (ErrNew ''finemcp: AddSender requires a non-empty connection ID''), s)
      else case sender of
        None \<Rightarrow> (Some (ErrNew ''finemcp: AddSender requires a non-nil NotificationSender''), s)
      | Some f \<Rightarrow>
        if mget (s_senders s) cid \<noteq> None then (Some errSenderAlreadyExists, s)
        else (None, s \<lparr> s_senders := mput cid f (s_senders s) \<rparr>))"

definition RemoveSender :: "string \<Rightarrow> ('w, 'x) registries_scheme \<Rightarrow> ('w, 'x) registries_scheme" where
  "RemoveSender cid s = (if cid = [] then s else s \<lparr> s_senders := mdel cid (s_senders s) \<rparr>)"

section \<open>Tools\<close>

definition RegisterTool ::
  "'w Tool option \<Rightarrow> ('w, 'x) registries_scheme \<Rightarrow> 'w \<Rightarrow> goerr option \<times> ('w, 'x) registries_scheme \<times> 'w" where
  "RegisterTool tool s w =
     (case tool of None \<Rightarrow> (Some errToolNil, s, w)
      | Some t \<Rightarrow>
        (case validateToolName (tool_Name t) of Some e \<Rightarrow> (Some e, s, w)
         | None \<Rightarrow>
           (case validateHandler (tool_Handler t) of Some e \<Rightarrow> (Some e, s, w)
            | None \<Rightarrow>
              if mget (s_tools s) (tool_Name t) \<noteq> None then (Some errToolAlreadyExists, s, w)
              else let s' = s \<lparr> s_tools := mput (tool_Name t) t (s_tools s), s_sortedTools := None \<rparr>
                   in (None, s', NotifyToolsListChanged s' w))))"

definition RemoveTool ::
  "string \<Rightarrow> ('w, 'x) registries_scheme \<Rightarrow> 'w \<Rightarrow> goerr option \<times> ('w, 'x) registries_scheme \<times> 'w" where
  "RemoveTool name s w =
     (if name = [] then (Some errToolNotFound, s, w)
      else if mget (s_tools s) name = None then (Some errToolNotFound, s, w)
      else let s' = s \<lparr> s_tools := mdel name (s_tools s), s_sortedTools := None \<rparr>
           in (None, s', NotifyToolsListChanged s' w))"

text \<open>The first loop of \<open>RegisterTools\<close>, with the set of the names seen so far.\<close>

fun check_batch :: "string list \<Rightarrow> 'w Tool option list \<Rightarrow> goerr option" where
  "check_batch seen [] = None"
| "check_batch seen (t # ts) =
     (case t of None \<Rightarrow> Some errToolNil
      | Some t \<Rightarrow>
        (case validateToolName (tool_Name t) of Some e \<Rightarrow> Some e
         | None \<Rightarrow>
           (case validateHandler (tool_Handler t) of Some e \<Rightarrow> Some e
            | None \<Rightarrow>
              if tool_Name t \<in> set seen then Some errToolAlreadyExists
              else check_batch (tool_Name t # seen) ts)))"

definition RegisterTools ::
  "'w Tool option list \<Rightarrow> ('w, 'x) registries_scheme \<Rightarrow> 'w \<Rightarrow> goerr option \<times> ('w, 'x) registries_scheme \<times> 'w" where
  "RegisterTools tools s w =
     (if tools = [] then (None, s, w)
      else case check_batch [] tools of Some e \<Rightarrow> (Some e, s, w)
      | None \<Rightarrow>
        let ts = map the tools
        in if list_ex (\<lambda>t. mget (s_tools s) (tool_Name t) \<noteq> None) ts
           then (Some errToolAlreadyExists, s, w)
           else let s' = s \<lparr> s_tools := fold (\<lambda>t. mput (tool_Name t) t) ts (s_tools s),
                             s_sortedTools := None \<rparr>
                in (None, s', NotifyToolsListChanged s' w))"

text \<open>
  The cached snapshots. The read-locked fast path and the re-check under the write lock read the
  same field, so one case distinction covers both.
\<close>

definition getSortedTools :: "('w, 'x) registries_scheme \<Rightarrow> 'w Tool list \<times> ('w, 'x) registries_scheme" where
  "getSortedTools s =
     (case s_sortedTools s of Some cached \<Rightarrow> (cached, s)
      | None \<Rightarrow> let result = sorted_snapshot tool_Name (s_tools s)
                in (result, s \<lparr> s_sortedTools := Some result \<rparr>))"

definition ListTools :: "('w, 'x) registries_scheme \<Rightarrow> 'w Tool list \<times> ('w, 'x) registries_scheme" where
  "ListTools s = getSortedTools s"

section \<open>Resources\<close>

definition RegisterResource ::
  "'w Resource option \<Rightarrow> ('w, 'x) registries_scheme \<Rightarrow> goerr option \<times> ('w, 'x) registries_scheme" where
  "RegisterResource res s =
     (case res of None \<Rightarrow> (Some errResourceNil, s)
      | Some r \<Rightarrow>
        if res_URI r = [] then (Some errResourceURIEmpty, s)
        else if res_Name r = [] then (Some errResourceNameEmpty, s)
        else if res_Handler r = None then (Some errResourceHandlerNil, s)
        else if mget (s_resources s) (res_URI r) \<noteq> None then (Some errResourceAlreadyExists, s)
        else (None, s \<lparr> s_resources := mput (res_URI r) r (s_resources s), s_sortedResources := None \<rparr>))"

definition getSortedResources :: "('w, 'x) registries_scheme \<Rightarrow> 'w Resource list \<times> ('w, 'x) registries_scheme" where
  "getSortedResources s =
     (case s_sortedResources s of Some cached \<Rightarrow> (cached, s)
      | None \<Rightarrow> let result = sorted_snapshot res_URI (s_resources s)
                in (result, s \<lparr> s_sortedResources := Some result \<rparr>))"

definition ListResources :: "('w, 'x) registries_scheme \<Rightarrow> 'w Resource list \<times> ('w, 'x) registries_scheme" where
  "ListResources s = getSortedResources s"

section \<open>Resource templates\<close>

definition NewResourceTemplate ::
  "(nat \<Rightarrow> bool) \<Rightarrow> (nat \<Rightarrow> bool) \<Rightarrow> string \<Rightarrow> string \<Rightarrow> 'w ResourceHandler option
   \<Rightarrow> ('w ResourceTemplate \<Rightarrow> 'w ResourceTemplate) list \<Rightarrow> goerr + 'w ResourceTemplate" where
  "NewResourceTemplate IsLetter IsDigit uriTemplate name handler opts =
     (if uriTemplate = [] then Inl errTemplateURIEmpty
      else if name = [] then Inl errTemplateNameEmpty
      else if handler = None then Inl errTemplateHandlerNil
      else if \<not> isValidURITemplate IsLetter IsDigit uriTemplate then Inl errTemplateInvalid
      else Inr (fold (\<lambda>opt t. opt t) opts
                 \<lparr> rt_URITemplate = uriTemplate, rt_Name = name, rt_Description = [],
                   rt_MimeType = [], rt_Handler = handler, rt_Completer = None,
                   rt_parsedSegs = parseTemplate uriTemplate \<rparr>))"

definition RegisterResourceTemplate ::
  "(nat \<Rightarrow> bool) \<Rightarrow> (nat \<Rightarrow> bool) \<Rightarrow> 'w ResourceTemplate option \<Rightarrow> ('w, 'x) registries_scheme
   \<Rightarrow> goerr option \<times> ('w, 'x) registries_scheme" where
  "RegisterResourceTemplate IsLetter IsDigit tmpl s =
     (case tmpl of None \<Rightarrow> (Some errTemplateNil, s)
      | Some t \<Rightarrow>
        if rt_URITemplate t = [] then (Some errTemplateURIEmpty, s)
        else if rt_Name t = [] then (Some errTemplateNameEmpty, s)
        else if rt_Handler t = None then (Some errTemplateHandlerNil, s)
        else if \<not> isValidURITemplate IsLetter IsDigit (rt_URITemplate t) then (Some errTemplateInvalid, s)
        else if mget (s_templates s) (rt_URITemplate t) \<noteq> None then (Some errTemplateAlreadyExists, s)
        else
          let t' = (if rt_parsedSegs t = [] then t \<lparr> rt_parsedSegs := parseTemplate (rt_URITemplate t) \<rparr> else t)
          in (None, s \<lparr> s_templates := mput (rt_URITemplate t) t' (s_templates s), s_sortedTemplates := None \<rparr>))"

definition getSortedTemplates ::
  "('w, 'x) registries_scheme \<Rightarrow> 'w ResourceTemplate list \<times> ('w, 'x) registries_scheme" where
  "getSortedTemplates s =
     (case s_sortedTemplates s of Some cached \<Rightarrow> (cached, s)
      | None \<Rightarrow> let result = sorted_snapshot rt_URITemplate (s_templates s)
                in (result, s \<lparr> s_sortedTemplates := Some result \<rparr>))"

text \<open>\<open>ListResourceTemplates\<close> reads the cache but does not fill it.\<close>

definition ListResourceTemplates :: "('w, 'x) registries_scheme \<Rightarrow> 'w ResourceTemplate list" where
  "ListResourceTemplates s =
     (case s_sortedTemplates s of Some cached \<Rightarrow> cached
      | None \<Rightarrow> sorted_snapshot rt_URITemplate (s_templates s))"

definition findTemplateForURI ::
  "string \<Rightarrow> ('w, 'x) registries_scheme \<Rightarrow> 'w ResourceTemplate option \<times> ('w, 'x) registries_scheme" where
  "findTemplateForURI uri s =
     (let (sorted, s') = getSortedTemplates s
      in (find (\<lambda>t. matchesParsedTemplate (rt_parsedSegs t) uri) sorted, s'))"

section \<open>Prompts and roots\<close>

definition RegisterPrompt ::
  "'w Prompt option \<Rightarrow> ('w, 'x) registries_scheme \<Rightarrow> goerr option \<times> ('w, 'x) registries_scheme" where
  "RegisterPrompt prompt s =
     (case prompt of None \<Rightarrow> (Some errPromptNil, s)
      | Some p \<Rightarrow>
        if pr_Name p = [] then (Some errPromptNameEmpty, s)
        else if pr_Handler p = None then (Some errPromptHandlerNil, s)
        else if mget (s_prompts s) (pr_Name p) \<noteq> None then (Some errPromptAlreadyExists, s)
        else (None, s \<lparr> s_prompts := mput (pr_Name p) p (s_prompts s), s_sortedPrompts := None \<rparr>))"

definition getSortedPrompts :: "('w, 'x) registries_scheme \<Rightarrow> 'w Prompt list \<times> ('w, 'x) registries_scheme" where
  "getSortedPrompts s =
     (case s_sortedPrompts s of Some cached \<Rightarrow> (cached, s)
      | None \<Rightarrow> let result = sorted_snapshot pr_Name (s_prompts s)
                in (result, s \<lparr> s_sortedPrompts := Some result \<rparr>))"

definition ListPrompts :: "('w, 'x) registries_scheme \<Rightarrow> 'w Prompt list \<times> ('w, 'x) registries_scheme" where
  "ListPrompts s = getSortedPrompts s"

definition RegisterRoot ::
  "Root option \<Rightarrow> ('w, 'x) registries_scheme \<Rightarrow> goerr option \<times> ('w, 'x) registries_scheme" where
  "RegisterRoot root s =
     (case root of None \<Rightarrow> (Some errRootNil, s)
      | Some r \<Rightarrow>
        if root_URI r = [] then (Some errRootURIEmpty, s)
        else if mget (s_roots s) (root_URI r) \<noteq> None then (Some errRootAlreadyExists, s)
        else (None, s \<lparr> s_roots := mput (root_URI r) r (s_roots s) \<rparr>))"

definition ListRoots :: "('w, 'x) registries_scheme \<Rightarrow> Root list" where
  "ListRoots s = sorted_snapshot root_URI (s_roots s)"

section \<open>Cached snapshots\<close>

text \<open>
  The contract of a registry with a cached snapshot: reading through the cache changes nothing
  but the cache, and yields the cached list or sorts the map. As long as every change of the map
  drops the cache, a read is the sorted list of the map, whatever happened before.
\<close>

locale sorted_registry =
  fixes key :: "'v \<Rightarrow> string"
    and items :: "'s \<Rightarrow> (string, 'v) gomap"
    and cache :: "'s \<Rightarrow> 'v list option"
    and get :: "'s \<Rightarrow> 'v list \<times> 's"
  assumes get_hit: "cache s = Some c \<Longrightarrow> get s = (c, s)"
    and get_miss: "cache s = None \<Longrightarrow> fst (get s) = sorted_snapshot key (items s)
                     \<and> cache (snd (get s)) = Some (sorted_snapshot key (items s))"
    and get_items: "items (snd (get s)) = items s"
begin

definition coherent :: "'s \<Rightarrow> bool" where
  "coherent s \<longleftrightarrow> keyed key (items s)
     \<and> (\<forall>c. cache s = Some c \<longrightarrow> c = sorted_snapshot key (items s))"

lemma get_exact: "coherent s \<Longrightarrow> fst (get s) = sorted_snapshot key (items s)"
  by (cases "cache s") (auto simp: coherent_def get_hit get_miss)

lemma coherent_get: "coherent s \<Longrightarrow> coherent (snd (get s))"
  by (cases "cache s") (auto simp: coherent_def get_hit get_miss get_items)

lemma coherent_same: "coherent s \<Longrightarrow> items s' = items s \<Longrightarrow> cache s' = cache s \<Longrightarrow> coherent s'"
  by (simp add: coherent_def)

lemma coherent_dropped: "keyed key (items s) \<Longrightarrow> cache s = None \<Longrightarrow> coherent s"
  by (simp add: coherent_def)

lemma get_sorted: "coherent s \<Longrightarrow> sorted_wrt (<) (map key (fst (get s)))"
  by (simp add: get_exact sorted_snapshot_strict coherent_def)

lemma get_mem: "coherent s \<Longrightarrow> v \<in> set (fst (get s)) \<longleftrightarrow> mget (items s) (key v) = Some v"
  by (metis get_exact mem_sorted_snapshot coherent_def)

lemma coherent_keyed: "coherent s \<Longrightarrow> keyed key (items s)"
  by (simp add: coherent_def)

end

lemmas get_defs = getSortedTools_def getSortedResources_def getSortedTemplates_def getSortedPrompts_def

interpretation rtool: sorted_registry tool_Name s_tools s_sortedTools getSortedTools
  by unfold_locales (auto simp: get_defs Let_def split: option.splits)

interpretation rres: sorted_registry res_URI s_resources s_sortedResources getSortedResources
  by unfold_locales (auto simp: get_defs Let_def split: option.splits)

interpretation rtmpl: sorted_registry rt_URITemplate s_templates s_sortedTemplates getSortedTemplates
  by unfold_locales (auto simp: get_defs Let_def split: option.splits)

interpretation rprompt: sorted_registry pr_Name s_prompts s_sortedPrompts getSortedPrompts
  by unfold_locales (auto simp: get_defs Let_def split: option.splits)

definition wf_registries :: "('w, 'x) registries_scheme \<Rightarrow> bool" where
  "wf_registries s \<longleftrightarrow> rtool.coherent s \<and> rres.coherent s \<and> rtmpl.coherent s \<and> rprompt.coherent s
     \<and> keyed root_URI (s_roots s) \<and> wf_map (s_senders s)"

lemmas coherent_defs = rtool.coherent_def rres.coherent_def rtmpl.coherent_def rprompt.coherent_def

section \<open>Sequences of operations\<close>

datatype 'w reg_op =
    ORegisterTool "'w Tool option" | ORemoveTool string | ORegisterTools "'w Tool option list"
  | ORegisterResource "'w Resource option" | ORegisterTemplate "'w ResourceTemplate option"
  | ORegisterPrompt "'w Prompt option" | ORegisterRoot "Root option"
  | OAddSender string "'w NotificationSender option" | ORemoveSender string
  | OListTools | OListResources | OListTemplates | OListPrompts | OFindTemplate string

text \<open>The state and the world after an operation; the world changes by the notifications sent.\<close>

fun reg_exec :: "(nat \<Rightarrow> bool) \<Rightarrow> (nat \<Rightarrow> bool) \<Rightarrow> 'w reg_op
  \<Rightarrow> ('w, 'x) registries_scheme \<times> 'w \<Rightarrow> ('w, 'x) registries_scheme \<times> 'w" where
  "reg_exec L D (ORegisterTool t) (s, w) = snd (RegisterTool t s w)"
| "reg_exec L D (ORemoveTool n) (s, w) = snd (RemoveTool n s w)"
| "reg_exec L D (ORegisterTools ts) (s, w) = snd (RegisterTools ts s w)"
| "reg_exec L D (ORegisterResource r) (s, w) = (snd (RegisterResource r s), w)"
| "reg_exec L D (ORegisterTemplate t) (s, w) = (snd (RegisterResourceTemplate L D t s), w)"
| "reg_exec L D (ORegisterPrompt p) (s, w) = (snd (RegisterPrompt p s), w)"
| "reg_exec L D (ORegisterRoot r) (s, w) = (snd (RegisterRoot r s), w)"
| "reg_exec L D (OAddSender i f) (s, w) = (snd (AddSender i f s), w)"
| "reg_exec L D (ORemoveSender i) (s, w) = (RemoveSender i s, w)"
| "reg_exec L D OListTools (s, w) = (snd (ListTools s), w)"
| "reg_exec L D OListResources (s, w) = (snd (ListResources s), w)"
| "reg_exec L D OListTemplates (s, w) = (snd (getSortedTemplates s), w)"
| "reg_exec L D OListPrompts (s, w) = (snd (ListPrompts s), w)"
| "reg_exec L D (OFindTemplate u) (s, w) = (snd (findTemplateForURI u s), w)"

definition empty_registries :: "'w registries" where
  "empty_registries = \<lparr> s_tools = [], s_resources = [], s_templates = [], s_sortedTemplates = None,
     s_sortedTools = None, s_sortedResources = None, s_sortedPrompts = None, s_roots = [],
     s_prompts = [], s_senders = [] \<rparr>"

lemma keyed_fold_mput:
  "keyed key m \<Longrightarrow> keyed key (fold (\<lambda>t. mput (key t) t) ts m)"
  by (induction ts arbitrary: m) (auto intro: keyed_mput)

lemma mget_fold_mput:
  "distinct (map key ts) \<Longrightarrow> mget (fold (\<lambda>t. mput (key t) t) ts m) k =
     (case map_of (map (\<lambda>t. (key t, t)) ts) k of Some t \<Rightarrow> Some t | None \<Rightarrow> mget m k)"
proof (induction ts arbitrary: m)
  case (Cons t ts)
  have "key t \<notin> fst ` set (map (\<lambda>t. (key t, t)) ts)" using Cons.prems by auto
  then have "map_of (map (\<lambda>t. (key t, t)) ts) (key t) = None" by (simp only: map_of_eq_None_iff) simp
  with Cons show ?case by (auto simp: mget_mput split: option.splits)
qed simp

lemma wf_empty_registries [simp]: "wf_registries empty_registries"
  by (simp add: wf_registries_def coherent_defs empty_registries_def)

lemma wf_RegisterTool: "wf_registries s \<Longrightarrow> wf_registries (fst (snd (RegisterTool t s w)))"
  by (auto simp: RegisterTool_def wf_registries_def coherent_defs Let_def keyed_mput split: option.splits)

lemma wf_RemoveTool: "wf_registries s \<Longrightarrow> wf_registries (fst (snd (RemoveTool n s w)))"
  by (auto simp: RemoveTool_def wf_registries_def coherent_defs Let_def keyed_mdel)

lemma wf_RegisterTools: "wf_registries s \<Longrightarrow> wf_registries (fst (snd (RegisterTools ts s w)))"
  by (auto simp: RegisterTools_def wf_registries_def coherent_defs Let_def keyed_fold_mput split: option.splits)

lemma wf_RegisterResource: "wf_registries s \<Longrightarrow> wf_registries (snd (RegisterResource r s))"
  by (auto simp: RegisterResource_def wf_registries_def coherent_defs keyed_mput split: option.splits)

lemma wf_RegisterTemplate: "wf_registries s \<Longrightarrow> wf_registries (snd (RegisterResourceTemplate L D t s))"
  by (auto simp: RegisterResourceTemplate_def wf_registries_def coherent_defs Let_def keyed_mput split: option.splits)

lemma wf_RegisterPrompt: "wf_registries s \<Longrightarrow> wf_registries (snd (RegisterPrompt p s))"
  by (auto simp: RegisterPrompt_def wf_registries_def coherent_defs keyed_mput split: option.splits)

lemma wf_RegisterRoot: "wf_registries s \<Longrightarrow> wf_registries (snd (RegisterRoot r s))"
  by (auto simp: RegisterRoot_def wf_registries_def coherent_defs keyed_mput split: option.splits)

lemma wf_AddSender: "wf_registries s \<Longrightarrow> wf_registries (snd (AddSender i f s))"
  by (auto simp: AddSender_def wf_registries_def coherent_defs wf_map_mput split: option.splits)

lemma wf_RemoveSender: "wf_registries s \<Longrightarrow> wf_registries (RemoveSender i s)"
  by (auto simp: RemoveSender_def wf_registries_def coherent_defs wf_map_mdel)

lemma wf_getters:
  "wf_registries s \<Longrightarrow> wf_registries (snd (getSortedTools s))"
  "wf_registries s \<Longrightarrow> wf_registries (snd (getSortedResources s))"
  "wf_registries s \<Longrightarrow> wf_registries (snd (getSortedTemplates s))"
  "wf_registries s \<Longrightarrow> wf_registries (snd (getSortedPrompts s))"
  by (auto simp: get_defs wf_registries_def coherent_defs Let_def split: option.splits)

lemma wf_findTemplate: "wf_registries s \<Longrightarrow> wf_registries (snd (findTemplateForURI u s))"
  using wf_getters(3) [of s] by (cases "getSortedTemplates s") (simp add: findTemplateForURI_def)

lemmas wf_reg_ops = wf_RegisterTool wf_RemoveTool wf_RegisterTools wf_RegisterResource
  wf_RegisterTemplate wf_RegisterPrompt wf_RegisterRoot wf_AddSender wf_RemoveSender
  wf_getters wf_findTemplate

lemma wf_reg_exec: "wf_registries (fst p) \<Longrightarrow> wf_registries (fst (reg_exec L D a p))"
  by (cases p; cases a)
     (simp_all add: wf_reg_ops ListTools_def ListResources_def ListPrompts_def)

lemma wf_reg_trace: "wf_registries (fst p) \<Longrightarrow> wf_registries (fst (fold (reg_exec L D) as p))"
  by (induction as arbitrary: p) (simp_all add: wf_reg_exec)

section \<open>Properties\<close>

lemma check_batch_ok:
  "check_batch seen ts = None \<longleftrightarrow>
     None \<notin> set ts \<and> list_all (\<lambda>t. validateToolName (tool_Name t) = None \<and> tool_Handler t \<noteq> None) (map the ts)
     \<and> distinct (map (tool_Name \<circ> the) ts) \<and> set (map (tool_Name \<circ> the) ts) \<inter> set seen = {}"
proof (induction seen ts rule: check_batch.induct)
  case (2 seen t ts)
  show ?case
  proof (cases t)
    case (Some u)
    with 2 show ?thesis
      by (cases "validateToolName (tool_Name u)"; cases "tool_Handler u")
         (auto simp: validateHandler_def split: if_splits)
  qed simp
qed simp

text \<open>A list that holds exactly the values of a map, in strictly increasing order of their keys.\<close>

definition exact_list :: "('v \<Rightarrow> string) \<Rightarrow> (string, 'v) gomap \<Rightarrow> 'v list \<Rightarrow> bool" where
  "exact_list key m xs \<longleftrightarrow> sorted_wrt (<) (map key xs) \<and> (\<forall>v. v \<in> set xs \<longleftrightarrow> mget m (key v) = Some v)"

definition reg_run :: "(nat \<Rightarrow> bool) \<Rightarrow> (nat \<Rightarrow> bool) \<Rightarrow> 'w reg_op list \<Rightarrow> 'w \<Rightarrow> 'w registries" where
  "reg_run L D as w = fst (fold (reg_exec L D) as (empty_registries, w))"

lemma wf_lists_exact:
  assumes "wf_registries s"
  shows "exact_list tool_Name (s_tools s) (fst (getSortedTools s))"
    and "exact_list res_URI (s_resources s) (fst (getSortedResources s))"
    and "exact_list pr_Name (s_prompts s) (fst (getSortedPrompts s))"
    and "exact_list rt_URITemplate (s_templates s) (fst (getSortedTemplates s))"
    and "exact_list root_URI (s_roots s) (ListRoots s)"
proof -
  have c: "rtool.coherent s" "rres.coherent s" "rprompt.coherent s" "rtmpl.coherent s"
    and k: "keyed root_URI (s_roots s)"
    using assms by (auto simp: wf_registries_def)
  show "exact_list tool_Name (s_tools s) (fst (getSortedTools s))"
    using rtool.get_sorted [OF c(1)] rtool.get_mem [OF c(1)] by (simp add: exact_list_def)
  show "exact_list res_URI (s_resources s) (fst (getSortedResources s))"
    using rres.get_sorted [OF c(2)] rres.get_mem [OF c(2)] by (simp add: exact_list_def)
  show "exact_list pr_Name (s_prompts s) (fst (getSortedPrompts s))"
    using rprompt.get_sorted [OF c(3)] rprompt.get_mem [OF c(3)] by (simp add: exact_list_def)
  show "exact_list rt_URITemplate (s_templates s) (fst (getSortedTemplates s))"
    using rtmpl.get_sorted [OF c(4)] rtmpl.get_mem [OF c(4)] by (simp add: exact_list_def)
  show "exact_list root_URI (s_roots s) (ListRoots s)"
    using sorted_snapshot_strict [OF k] mem_sorted_snapshot [OF k]
    by (simp add: exact_list_def ListRoots_def)
qed

lemma ListResourceTemplates_get: "ListResourceTemplates s = fst (getSortedTemplates s)"
  by (simp add: ListResourceTemplates_def getSortedTemplates_def Let_def split: option.splits)

text \<open>After any sequence of registrations, removals, sender changes and cached reads on a fresh
  server, each list operation returns its items in strictly increasing key order and exactly
  those that the map holds under their own key: the cache never serves a stale list.\<close>

theorem registry_lists_exact:
  "let s = reg_run L D as w
   in exact_list tool_Name (s_tools s) (fst (ListTools s))
      \<and> exact_list res_URI (s_resources s) (fst (ListResources s))
      \<and> exact_list rt_URITemplate (s_templates s) (ListResourceTemplates s)
      \<and> exact_list pr_Name (s_prompts s) (fst (ListPrompts s))
      \<and> exact_list root_URI (s_roots s) (ListRoots s)"
proof -
  have "wf_registries (reg_run L D as w)" unfolding reg_run_def by (rule wf_reg_trace) simp
  from wf_lists_exact [OF this] show ?thesis
    by (simp add: Let_def ListTools_def ListResources_def ListPrompts_def ListResourceTemplates_get)
qed

text \<open>\<open>RegisterTools\<close> is all or nothing. If it returns an error, neither the registries nor the
  outside world changed. If it succeeds, every tool of the batch has a valid name of its own and
  a handler, was not registered before, is found under its name afterwards, and nothing else in
  the tool map changed.\<close>

theorem register_tools_atomic:
  assumes "RegisterTools tools s w = (err, s', w')"
  shows "(err \<noteq> None \<longrightarrow> s' = s \<and> w' = w)
    \<and> (err = None \<longrightarrow> None \<notin> set tools
        \<and> distinct (map (tool_Name \<circ> the) tools)
        \<and> (\<forall>t. Some t \<in> set tools \<longrightarrow> validateToolName (tool_Name t) = None \<and> tool_Handler t \<noteq> None
               \<and> mget (s_tools s) (tool_Name t) = None \<and> mget (s_tools s') (tool_Name t) = Some t)
        \<and> (\<forall>n. n \<notin> (tool_Name \<circ> the) ` set tools \<longrightarrow> mget (s_tools s') n = mget (s_tools s) n))"
proof (intro conjI impI)
  assume "err \<noteq> None"
  with assms show "s' = s" "w' = w"
    by (auto simp: RegisterTools_def Let_def split: if_splits option.splits)
next
  assume "err = None"
  show "None \<notin> set tools" "distinct (map (tool_Name \<circ> the) tools)"
    using assms \<open>err = None\<close>
    by (auto simp: RegisterTools_def Let_def check_batch_ok split: if_splits option.splits)
  then have d: "distinct (map tool_Name (map the tools))" by (simp add: comp_def)
  have fields: "s_tools s' = fold (\<lambda>t. mput (tool_Name t) t) (map the tools) (s_tools s)"
    and ok: "\<And>t. Some t \<in> set tools \<Longrightarrow> validateToolName (tool_Name t) = None \<and> tool_Handler t \<noteq> None
               \<and> mget (s_tools s) (tool_Name t) = None"
    using assms \<open>err = None\<close>
    by (force simp: RegisterTools_def Let_def check_batch_ok list_all_iff list_ex_iff
        split: if_splits option.splits)+
  note get = mget_fold_mput [OF d, of "s_tools s", folded fields]
  show "\<forall>t. Some t \<in> set tools \<longrightarrow> validateToolName (tool_Name t) = None \<and> tool_Handler t \<noteq> None
          \<and> mget (s_tools s) (tool_Name t) = None \<and> mget (s_tools s') (tool_Name t) = Some t"
  proof (intro allI impI)
    fix t assume t: "Some t \<in> set tools"
    then have "(tool_Name t, t) \<in> set (map (\<lambda>t. (tool_Name t, t)) (map the tools))" by force
    then have "map_of (map (\<lambda>t. (tool_Name t, t)) (map the tools)) (tool_Name t) = Some t"
      using d by (intro map_of_is_SomeI) (simp_all add: comp_def)
    with ok [OF t] get show "validateToolName (tool_Name t) = None \<and> tool_Handler t \<noteq> None
          \<and> mget (s_tools s) (tool_Name t) = None \<and> mget (s_tools s') (tool_Name t) = Some t" by simp
  qed
  show "\<forall>n. n \<notin> (tool_Name \<circ> the) ` set tools \<longrightarrow> mget (s_tools s') n = mget (s_tools s) n"
  proof (intro allI impI)
    fix n assume "n \<notin> (tool_Name \<circ> the) ` set tools"
    then have "n \<notin> fst ` set (map (\<lambda>t. (tool_Name t, t)) (map the tools))" by force
    then have "map_of (map (\<lambda>t. (tool_Name t, t)) (map the tools)) n = None"
      by (simp only: map_of_eq_None_iff not_False_eq_True)
    then show "mget (s_tools s') n = mget (s_tools s) n" by (simp add: get)
  qed
qed

definition echo_tool :: "string \<Rightarrow> 'w Tool" where
  "echo_tool n = \<lparr> tool_Name = n, tool_Description = [], tool_Handler = Some (\<lambda>_ input st. (Ret input, st)),
     tool_Simulator = None, tool_Roles = [], tool_InputSchema = None, tool_Annotations = None,
     tool_SkipValidation = False \<rparr>"

theorem register_tools_atomic_witness:
  "fst (RegisterTools [Some (echo_tool ''a''), Some (echo_tool ''b'')] (empty_registries :: nat registries) (0 :: nat)) = None
   \<and> mget (s_tools (fst (snd (RegisterTools [Some (echo_tool ''a''), Some (echo_tool ''b'')]
       (empty_registries :: nat registries) (0 :: nat))))) ''b'' = Some (echo_tool ''b'')"
proof -
  let ?r = "RegisterTools [Some (echo_tool ''a''), Some (echo_tool ''b'')] (empty_registries :: nat registries) (0 :: nat)"
  have "validateToolName ''a'' = None" "validateToolName ''b'' = None"
    by (simp_all add: validateToolName_ok tool_name_char_def alnum_def)
  then have none: "fst ?r = None"
    by (simp add: RegisterTools_def echo_tool_def empty_registries_def validateHandler_def Let_def)
  obtain s' w' where r: "?r = (None, s', w')" using none by (metis prod.collapse)
  have "Some (echo_tool ''b'') \<in> set [Some (echo_tool ''a''), Some (echo_tool ''b'' :: nat Tool)]" by simp
  with register_tools_atomic [OF r]
  have "mget (s_tools s') (tool_Name (echo_tool ''b'' :: nat Tool)) = Some (echo_tool ''b'')" by blast
  with r none show ?thesis by (simp add: echo_tool_def)
qed

lemma find_least:
  assumes "sorted_wrt (<) (map key xs)"
  shows "find P xs = Some x \<longleftrightarrow> x \<in> set xs \<and> P x \<and> (\<forall>y \<in> set xs. P y \<longrightarrow> key x \<le> (key y :: 'k :: linorder))"
  using assms
proof (induction xs)
  case (Cons a xs)
  have less: "key a < key y" if "y \<in> set xs" for y using Cons.prems that by simp
  show ?case
  proof (cases "P a")
    case True
    then show ?thesis using less by (auto intro: less_imp_le dest: leD)
  next
    case False
    then show ?thesis using Cons by auto
  qed
qed simp

text \<open>\<open>findTemplateForURI\<close> returns the registered template with the least URI template among
  those whose parsed segments match the URI, and nil exactly when none matches.\<close>

theorem find_template_least:
  assumes "wf_registries s"
  shows "(fst (findTemplateForURI uri s) = Some t \<longleftrightarrow>
            mget (s_templates s) (rt_URITemplate t) = Some t \<and> matchesParsedTemplate (rt_parsedSegs t) uri
            \<and> (\<forall>k t'. mget (s_templates s) k = Some t' \<longrightarrow> matchesParsedTemplate (rt_parsedSegs t') uri
                 \<longrightarrow> rt_URITemplate t \<le> k))
    \<and> (fst (findTemplateForURI uri s) = None \<longleftrightarrow>
         (\<forall>k t'. mget (s_templates s) k = Some t' \<longrightarrow> \<not> matchesParsedTemplate (rt_parsedSegs t') uri))"
proof -
  let ?xs = "fst (getSortedTemplates s)"
  have f: "fst (findTemplateForURI uri s) = find (\<lambda>t. matchesParsedTemplate (rt_parsedSegs t) uri) ?xs"
    by (cases "getSortedTemplates s") (simp add: findTemplateForURI_def)
  have ex: "exact_list rt_URITemplate (s_templates s) ?xs" by (rule wf_lists_exact(4) [OF assms])
  have keyed: "keyed rt_URITemplate (s_templates s)"
    using assms rtmpl.coherent_keyed by (auto simp: wf_registries_def)
  have all: "(\<forall>k t'. mget (s_templates s) k = Some t' \<longrightarrow> Q k t') \<longleftrightarrow> (\<forall>t' \<in> set ?xs. Q (rt_URITemplate t') t')" for Q
  proof (intro iffI ballI allI impI)
    fix t' assume "\<forall>k t'. mget (s_templates s) k = Some t' \<longrightarrow> Q k t'" "t' \<in> set ?xs"
    then show "Q (rt_URITemplate t') t'" using ex by (simp add: exact_list_def)
  next
    fix k t' assume "\<forall>t' \<in> set ?xs. Q (rt_URITemplate t') t'" and g: "mget (s_templates s) k = Some t'"
    moreover have "rt_URITemplate t' = k" using keyed_mget [OF keyed g] .
    ultimately show "Q k t'" using ex by (auto simp: exact_list_def)
  qed
  note all1 = all [of "\<lambda>k t'. matchesParsedTemplate (rt_parsedSegs t') uri \<longrightarrow> rt_URITemplate t \<le> k"]
  note all2 = all [of "\<lambda>k t'. \<not> matchesParsedTemplate (rt_parsedSegs t') uri"]
  have sorted: "sorted_wrt (<) (map rt_URITemplate ?xs)"
    and mem: "t \<in> set ?xs \<longleftrightarrow> mget (s_templates s) (rt_URITemplate t) = Some t"
    using ex by (simp_all add: exact_list_def)
  show ?thesis
    unfolding f all1 all2 find_least [OF sorted] find_None_iff mem by blast
qed

definition demo_template :: "nat ResourceTemplate" where
  "demo_template = \<lparr> rt_URITemplate = ''f:{x}'', rt_Name = ''f'', rt_Description = [], rt_MimeType = [],
     rt_Handler = Some (\<lambda>_ _ st. (Ret [], st)), rt_Completer = None, rt_parsedSegs = [Lit [102, 58], Placeholder] \<rparr>"

definition demo_registries :: "nat registries" where
  "demo_registries = empty_registries \<lparr> s_templates := [(''f:{x}'', demo_template)] \<rparr>"

theorem find_template_least_witness:
  "fst (findTemplateForURI ''f:y'' demo_registries) = Some demo_template"
proof -
  have wf: "wf_registries demo_registries"
    by (simp add: wf_registries_def coherent_defs demo_registries_def empty_registries_def keyed_def
        wf_map_def demo_template_def)
  have m: "matchesParsedTemplate (rt_parsedSegs demo_template) ''f:y''"
    by (simp add: matchesParsedTemplate_def demo_template_def runes_def Let_def maxBacktrackSteps_def rune_defs)
  have g: "mget (s_templates demo_registries) k = (if k = ''f:{x}'' then Some demo_template else None)" for k
    by (simp add: demo_registries_def mget_def)
  have n: "rt_URITemplate demo_template = ''f:{x}''" by (simp add: demo_template_def)
  show ?thesis using find_template_least [OF wf, of "''f:y''" demo_template] m by (simp add: g n)
qed

end
