(* ===== verification/Session_Tools.thy ===== *)
theory Session_Tools
  imports Registry
begin

text \<open>
  The tenant filter of \<open>server.go\<close> and the per-session tool overlay of \<open>session_tools.go\<close>: the
  registry of session tools with its bounded memory of closed sessions, and the merge of the
  global and the session's tools for \<open>tools/list\<close>.
\<close>

section \<open>Item filters\<close>

text \<open>
  A filter function of user code returns a boolean or panics (\<open>None\<close>); a nil function allows
  everything. The recovered panic leaves the result at \<open>false\<close>.
\<close>

record 'w ItemFilter =
  if_TenantID :: string
  if_Tool :: "('w Tool \<Rightarrow> bool option) option"
  if_Resource :: "('w Resource \<Rightarrow> bool option) option"
  if_ResourceTemplate :: "('w ResourceTemplate \<Rightarrow> bool option) option"
  if_Prompt :: "('w Prompt \<Rightarrow> bool option) option"

definition allow :: "('a \<Rightarrow> bool option) option \<Rightarrow> 'a \<Rightarrow> bool" where
  "allow fn x = (case fn of None \<Rightarrow> True | Some g \<Rightarrow> (case g x of None \<Rightarrow> False | Some b \<Rightarrow> b))"

definition AllowTool :: "'w ItemFilter option \<Rightarrow> 'w Tool \<Rightarrow> bool" where
  "AllowTool f t = (case f of None \<Rightarrow> True | Some f \<Rightarrow> allow (if_Tool f) t)"

definition AllowResource :: "'w ItemFilter option \<Rightarrow> 'w Resource \<Rightarrow> bool" where
  "AllowResource f r = (case f of None \<Rightarrow> True | Some f \<Rightarrow> allow (if_Resource f) r)"

definition AllowResourceTemplate :: "'w ItemFilter option \<Rightarrow> 'w ResourceTemplate \<Rightarrow> bool" where
  "AllowResourceTemplate f t = (case f of None \<Rightarrow> True | Some f \<Rightarrow> allow (if_ResourceTemplate f) t)"

definition AllowPrompt :: "'w ItemFilter option \<Rightarrow> 'w Prompt \<Rightarrow> bool" where
  "AllowPrompt f p = (case f of None \<Rightarrow> True | Some f \<Rightarrow> allow (if_Prompt f) p)"

section \<open>The registry of session tools\<close>

definition errSessionIDEmpty :: goerr where "errSessionIDEmpty = Sentinel ''session ID must not be empty''"
definition errSessionToolNil :: goerr where "errSessionToolNil = Sentinel ''session tool must not be nil''"
definition errSessionToolExists :: goerr where "errSessionToolExists = Sentinel ''session tool already registered''"
definition errSessionToolNotFound :: goerr where "errSessionToolNotFound = Sentinel ''session tool not found''"
definition errSessionToolNameEmpty :: goerr where "errSessionToolNameEmpty = Sentinel ''session tool name must not be empty''"
definition errSessionToolNoHandler :: goerr where "errSessionToolNoHandler = Sentinel ''session tool handler must not be nil''"
definition errSessionClosed :: goerr where "errSessionClosed = Sentinel ''session has been closed''"
definition errSessionToolDenied :: goerr where "errSessionToolDenied = Sentinel ''session tool rejected by tenant filter''"
definition errSessionToolLimit :: goerr where "errSessionToolLimit = Sentinel ''session tool limit exceeded''"
definition errSessionLimitReached :: goerr where "errSessionLimitReached = Sentinel ''session limit reached''"

definition DefaultMaxSessionTools :: int where "DefaultMaxSessionTools = 100"
definition DefaultMaxSessions :: int where "DefaultMaxSessions = 10000"
definition maxClosedSessions :: nat where "maxClosedSessions = 10000"

record 'w sessionTools =
  st_tools :: "(string, 'w Tool) gomap"
  st_sorted :: "'w Tool list option"

record 'w sessionToolRegistry =
  sr_sessions :: "(string, 'w sessionTools) gomap"
  sr_maxToolsPerSess :: int
  sr_maxSessions :: int
  sr_closed :: "(string, unit) gomap option"
  sr_closedRng :: "string list"
  sr_closedIdx :: nat

definition newSessionToolRegistry :: "'w sessionToolRegistry" where
  "newSessionToolRegistry = \<lparr> sr_sessions = [], sr_maxToolsPerSess = 0, sr_maxSessions = 0,
     sr_closed = None, sr_closedRng = [], sr_closedIdx = 0 \<rparr>"

definition session_limit :: "'w sessionToolRegistry \<Rightarrow> int" where
  "session_limit r = (if sr_maxSessions r \<le> 0 then DefaultMaxSessions else sr_maxSessions r)"

definition tool_limit :: "'w sessionToolRegistry \<Rightarrow> int" where
  "tool_limit r = (if sr_maxToolsPerSess r \<le> 0 then DefaultMaxSessionTools else sr_maxToolsPerSess r)"

definition isClosed :: "'w sessionToolRegistry \<Rightarrow> string \<Rightarrow> bool" where
  "isClosed r sid = (case sr_closed r of None \<Rightarrow> False | Some c \<Rightarrow> mget c sid \<noteq> None)"

text \<open>
  The part of \<open>add\<close> after the session's entry has been found or created: the tool limit, the
  duplicate test and the insertion. A new entry is already in the map at this point.
\<close>

definition add_to_session ::
  "string \<Rightarrow> 'w Tool \<Rightarrow> 'w sessionTools \<Rightarrow> 'w sessionToolRegistry \<Rightarrow> goerr option \<times> 'w sessionToolRegistry" where
  "add_to_session sid t st r =
     (if int (length (st_tools st)) \<ge> tool_limit r then (Some errSessionToolLimit, r)
      else if mget (st_tools st) (tool_Name t) \<noteq> None then (Some errSessionToolExists, r)
      else (None, r \<lparr> sr_sessions := mput sid
             \<lparr> st_tools = mput (tool_Name t) t (st_tools st), st_sorted = None \<rparr> (sr_sessions r) \<rparr>))"

definition add :: "string \<Rightarrow> 'w Tool option \<Rightarrow> 'w sessionToolRegistry \<Rightarrow> goerr option \<times> 'w sessionToolRegistry" where
  "add sid tool r =
     (if sid = [] then (Some errSessionIDEmpty, r)
      else case tool of None \<Rightarrow> (Some errSessionToolNil, r)
      | Some t \<Rightarrow>
        if tool_Name t = [] then (Some errSessionToolNameEmpty, r)
        else if tool_Handler t = None then (Some errSessionToolNoHandler, r)
        else if isClosed r sid then (Some errSessionClosed, r)
        else case mget (sr_sessions r) sid of
          Some st \<Rightarrow> add_to_session sid t st r
        | None \<Rightarrow>
          if int (length (sr_sessions r)) \<ge> session_limit r then (Some errSessionLimitReached, r)
          else let st = \<lparr> st_tools = [], st_sorted = None \<rparr>
               in add_to_session sid t st (r \<lparr> sr_sessions := mput sid st (sr_sessions r) \<rparr>))"

definition remove :: "string \<Rightarrow> string \<Rightarrow> 'w sessionToolRegistry \<Rightarrow> goerr option \<times> 'w sessionToolRegistry" where
  "remove sid name r =
     (if sid = [] then (Some errSessionIDEmpty, r)
      else if name = [] then (Some errSessionToolNameEmpty, r)
      else case mget (sr_sessions r) sid of None \<Rightarrow> (Some errSessionToolNotFound, r)
      | Some st \<Rightarrow>
        if mget (st_tools st) name = None then (Some errSessionToolNotFound, r)
        else let tools = mdel name (st_tools st)
             in (None, r \<lparr> sr_sessions := (if tools = [] then mdel sid (sr_sessions r)
                  else mput sid \<lparr> st_tools = tools, st_sorted = None \<rparr> (sr_sessions r)) \<rparr>))"

text \<open>The closing of a session in the ring buffer of \<open>removeAll\<close>.\<close>

definition mark_closed :: "string \<Rightarrow> 'w sessionToolRegistry \<Rightarrow> 'w sessionToolRegistry" where
  "mark_closed sid r =
     (let closed = (case sr_closed r of None \<Rightarrow> [] | Some c \<Rightarrow> c);
          rng = (case sr_closed r of None \<Rightarrow> replicate maxClosedSessions [] | Some _ \<Rightarrow> sr_closedRng r);
          r1 = r \<lparr> sr_closed := Some closed, sr_closedRng := rng \<rparr>
      in if mget closed sid \<noteq> None then r1
         else let old = rng ! sr_closedIdx r1;
                  closed' = (if old \<noteq> [] then mdel old closed else closed)
              in r1 \<lparr> sr_closed := Some (mput sid () closed'),
                      sr_closedRng := rng[sr_closedIdx r1 := sid],
                      sr_closedIdx := (sr_closedIdx r1 + 1) mod length rng \<rparr>)"

definition removeAll :: "string \<Rightarrow> 'w sessionToolRegistry \<Rightarrow> 'w sessionToolRegistry" where
  "removeAll sid r =
     (if sid = [] then r else mark_closed sid (r \<lparr> sr_sessions := mdel sid (sr_sessions r) \<rparr>))"

definition lookup :: "'w sessionToolRegistry \<Rightarrow> string \<Rightarrow> string \<Rightarrow> 'w Tool option" where
  "lookup r sid name =
     (if sid = [] \<or> name = [] then None
      else case mget (sr_sessions r) sid of None \<Rightarrow> None | Some st \<Rightarrow> mget (st_tools st) name)"

text \<open>\<open>sortedTools\<close>; the nil result for a session without tools is \<open>None\<close>.\<close>

definition sortedTools :: "string \<Rightarrow> 'w sessionToolRegistry \<Rightarrow> 'w Tool list option \<times> 'w sessionToolRegistry" where
  "sortedTools sid r =
     (if sid = [] then (None, r)
      else case mget (sr_sessions r) sid of None \<Rightarrow> (None, r)
      | Some st \<Rightarrow>
        (case st_sorted st of Some cached \<Rightarrow> (Some cached, r)
         | None \<Rightarrow> let result = sorted_snapshot tool_Name (st_tools st)
                   in (Some result, r \<lparr> sr_sessions :=
                        mput sid (st \<lparr> st_sorted := Some result \<rparr>) (sr_sessions r) \<rparr>)))"

definition hasSession :: "'w sessionToolRegistry \<Rightarrow> string \<Rightarrow> bool" where
  "hasSession r sid = (sid \<noteq> [] \<and> (case mget (sr_sessions r) sid of None \<Rightarrow> False | Some st \<Rightarrow> st_tools st \<noteq> []))"

section \<open>Merging\<close>

fun mergeSessionTools :: "'w Tool list \<Rightarrow> 'w Tool list \<Rightarrow> 'w Tool list" where
  "mergeSessionTools (g # gs) (s # ss) =
     (if tool_Name g < tool_Name s then g # mergeSessionTools gs (s # ss)
      else if tool_Name g > tool_Name s then s # mergeSessionTools (g # gs) ss
      else s # mergeSessionTools gs ss)"
| "mergeSessionTools gs ss = gs @ ss"

fun mergeSessionToolsFiltered :: "'w Tool list \<Rightarrow> 'w Tool list \<Rightarrow> 'w ItemFilter option \<Rightarrow> 'w Tool list" where
  "mergeSessionToolsFiltered (g # gs) (s # ss) f =
     (if tool_Name g < tool_Name s then
        (if AllowTool f g then [g] else []) @ mergeSessionToolsFiltered gs (s # ss) f
      else if tool_Name g > tool_Name s then
        (if AllowTool f s then [s] else []) @ mergeSessionToolsFiltered (g # gs) ss f
      else (if AllowTool f s then [s] else []) @ mergeSessionToolsFiltered gs ss f)"
| "mergeSessionToolsFiltered (g # gs) [] f =
     (if AllowTool f g then [g] else []) @ mergeSessionToolsFiltered gs [] f"
| "mergeSessionToolsFiltered [] (s # ss) f =
     (if AllowTool f s then [s] else []) @ mergeSessionToolsFiltered [] ss f"
| "mergeSessionToolsFiltered [] [] f = []"

section \<open>Merging is shadowing\<close>

lemma mergeSessionTools_Nil [simp]: "mergeSessionTools [] ss = ss" "mergeSessionTools gs [] = gs"
  by (simp_all add: mergeSessionTools.simps(2) mergeSessionTools.simps(3))

lemma mergeFiltered_filter:
  "mergeSessionToolsFiltered gs ss f = filter (AllowTool f) (mergeSessionTools gs ss)"
  by (induction gs ss f rule: mergeSessionToolsFiltered.induct) auto

lemma merge_set_sub: "set (mergeSessionTools gs ss) \<subseteq> set gs \<union> set ss"
  by (induction gs ss rule: mergeSessionTools.induct) auto

lemma merge_mem:
  "sorted_wrt (<) (map tool_Name gs) \<Longrightarrow> sorted_wrt (<) (map tool_Name ss) \<Longrightarrow>
   t \<in> set (mergeSessionTools gs ss) \<longleftrightarrow> t \<in> set ss \<or> (t \<in> set gs \<and> tool_Name t \<notin> tool_Name ` set ss)"
proof (induction gs ss rule: mergeSessionTools.induct)
  case (1 g gs s ss)
  have gs: "tool_Name g < tool_Name x" if "x \<in> set gs" for x using 1 that by simp
  have ss: "tool_Name s < tool_Name x" if "x \<in> set ss" for x using 1 that by simp
  consider (less) "tool_Name g < tool_Name s" | (greater) "tool_Name g > tool_Name s" | (eq) "tool_Name g = tool_Name s"
    by (meson linorder_cases)
  then show ?case
  proof cases
    case less
    have "tool_Name g \<noteq> tool_Name x" if "x \<in> set (s # ss)" for x
      using that ss [of x] less less_trans [OF less, of "tool_Name x"] by auto
    then have "tool_Name g \<notin> tool_Name ` set (s # ss)" by blast
    with 1 less show ?thesis by auto
  next
    case greater
    have "tool_Name s \<noteq> tool_Name x" if "x \<in> set (g # gs)" for x
      using that gs [of x] greater less_trans [OF greater, of "tool_Name x"] by auto
    then have "tool_Name s \<notin> tool_Name ` set (g # gs)" by blast
    moreover have "\<not> tool_Name g < tool_Name s" using greater by (rule less_not_sym)
    ultimately show ?thesis using 1 greater by (auto simp: image_iff)
  next
    case eq
    then have "x \<in> set gs \<Longrightarrow> tool_Name x \<noteq> tool_Name s" for x using gs by fastforce
    with 1 eq show ?thesis by (auto simp: image_iff)
  qed
qed auto

lemma merge_sorted:
  "sorted_wrt (<) (map tool_Name gs) \<Longrightarrow> sorted_wrt (<) (map tool_Name ss) \<Longrightarrow>
   sorted_wrt (<) (map tool_Name (mergeSessionTools gs ss))"
proof (induction gs ss rule: mergeSessionTools.induct)
  case (1 g gs s ss)
  note sub1 = merge_set_sub [of gs "s # ss"]
  note sub2 = merge_set_sub [of "g # gs" ss]
  note sub3 = merge_set_sub [of gs ss]
  consider (less) "tool_Name g < tool_Name s" | (greater) "tool_Name g > tool_Name s" | (eq) "tool_Name g = tool_Name s"
    by (meson linorder_cases)
  then show ?case
  proof cases
    case less
    then have "\<forall>x \<in> set (mergeSessionTools gs (s # ss)). tool_Name g < tool_Name x"
      using 1(4,5) sub1 by (auto dest: less_trans)
    with 1 less show ?thesis by simp
  next
    case greater
    then have "\<forall>x \<in> set (mergeSessionTools (g # gs) ss). tool_Name s < tool_Name x"
      using 1(4,5) sub2 by (auto dest: less_trans)
    moreover have "\<not> tool_Name g < tool_Name s" using greater by (rule less_not_sym)
    ultimately show ?thesis using 1 greater by simp
  next
    case eq
    then have "\<forall>x \<in> set (mergeSessionTools gs ss). tool_Name s < tool_Name x"
      using 1(4,5) sub3 by auto
    with 1 eq show ?thesis by simp
  qed
qed simp_all

text \<open>The single-pass filtered merge of \<open>tools/list\<close> equals merging first and filtering
  afterwards; on sorted inputs its result is strictly sorted by name and consists of the allowed
  session tools and the allowed global tools whose name no session tool has (not even a session
  tool that the filter rejects).\<close>

theorem merge_filtered_shadowing:
  assumes "sorted_wrt (<) (map tool_Name gs)" and "sorted_wrt (<) (map tool_Name ss)"
  shows "mergeSessionToolsFiltered gs ss f = filter (AllowTool f) (mergeSessionTools gs ss)
    \<and> sorted_wrt (<) (map tool_Name (mergeSessionToolsFiltered gs ss f))
    \<and> set (mergeSessionToolsFiltered gs ss f) =
        {t. AllowTool f t \<and> (t \<in> set ss \<or> (t \<in> set gs \<and> tool_Name t \<notin> tool_Name ` set ss))}"
  using merge_sorted [OF assms] merge_mem [OF assms]
  by (auto simp: mergeFiltered_filter sorted_wrt_map intro: sorted_wrt_filter)

theorem merge_filtered_shadowing_witness:
  "set (mergeSessionToolsFiltered [echo_tool ''a'', echo_tool ''b''] [WithTitle ''mine'' (echo_tool ''b'')] None)
     = {echo_tool ''a'', WithTitle ''mine'' (echo_tool ''b'' :: nat Tool)}"
proof -
  have sorted: "sorted_wrt (<) (map tool_Name [echo_tool ''a'', echo_tool ''b'' :: nat Tool])"
    by (simp add: echo_tool_def less_char_def)
  have "sorted_wrt (<) (map tool_Name [WithTitle ''mine'' (echo_tool ''b'' :: nat Tool)])" by simp
  from merge_filtered_shadowing [OF sorted this, of None] show ?thesis
    by (auto simp: AllowTool_def echo_tool_def WithTitle_def)
qed

section \<open>The memory of closed sessions\<close>

text \<open>
  Read from its oldest slot on, the ring buffer is a run of unused slots followed by the closed
  sessions in the order of their closing; \<open>closed_queue\<close> is the latter. Closing a session
  appends it and forgets the oldest when all slots are in use.
\<close>

definition ring_order :: "'w sessionToolRegistry \<Rightarrow> string list" where
  "ring_order r = drop (sr_closedIdx r) (sr_closedRng r) @ take (sr_closedIdx r) (sr_closedRng r)"

definition closed_queue :: "'w sessionToolRegistry \<Rightarrow> string list" where
  "closed_queue r = (if sr_closed r = None then [] else filter (\<lambda>x. x \<noteq> []) (ring_order r))"

definition close_spec :: "string \<Rightarrow> string list \<Rightarrow> string list" where
  "close_spec sid q = (if sid \<in> set q then q else drop (length q + 1 - maxClosedSessions) (q @ [sid]))"

definition wf_ring :: "'w sessionToolRegistry \<Rightarrow> bool" where
  "wf_ring r \<longleftrightarrow> (case sr_closed r of
       None \<Rightarrow> sr_closedIdx r = 0
     | Some c \<Rightarrow> length (sr_closedRng r) = maxClosedSessions \<and> sr_closedIdx r < maxClosedSessions
         \<and> wf_map c \<and> fst ` set c = set (closed_queue r) \<and> distinct (closed_queue r)
         \<and> ring_order r = replicate (maxClosedSessions - length (closed_queue r)) [] @ closed_queue r)"

lemma closed_queue_not_Nil: "[] \<notin> set (closed_queue r)"
  by (simp add: closed_queue_def)

lemma ring_write:
  assumes "i < length rng"
  shows "drop (Suc i mod length rng) (rng[i := x]) @ take (Suc i mod length rng) (rng[i := x])
       = tl (drop i rng @ take i rng) @ [x]"
proof (cases "Suc i = length rng")
  case True
  then have "drop i rng = [rng ! i]"
    by (metis Cons_nth_drop_Suc assms drop_all order_refl)
  moreover have "rng[i := x] = take i rng @ [x]"
    using True by (metis assms drop_all order_refl upd_conv_take_nth_drop append_Nil2)
  ultimately show ?thesis using True by simp
next
  case False
  then have "Suc i < length rng" using assms by simp
  moreover have "tl (drop i rng) = drop (Suc i) rng" by (simp add: drop_Suc tl_drop)
  moreover have "drop i rng \<noteq> []" using assms by simp
  ultimately show ?thesis using assms
    by (simp add: take_Suc_conv_app_nth drop_update_cancel)
qed

lemma ring_oldest: "i < length rng \<Longrightarrow> hd (drop i rng @ take i rng) = rng ! i"
  by (simp add: hd_append hd_drop_conv_nth)

lemma mark_closed_first:
  assumes "sr_closed r = None" "sr_closedIdx r = 0" "sid \<noteq> []"
  shows "wf_ring (mark_closed sid r) \<and> closed_queue (mark_closed sid r) = [sid]"
proof -
  obtain n where n: "maxClosedSessions = Suc n" by (simp add: maxClosedSessions_def)
  have o: "ring_order (mark_closed sid r) = replicate n [] @ [sid]"
    using ring_write [of 0 "replicate (Suc n) []" sid] assms n
    by (simp add: mark_closed_def Let_def ring_order_def)
  then have q: "closed_queue (mark_closed sid r) = [sid]"
    using assms by (simp add: closed_queue_def mark_closed_def Let_def)
  show ?thesis unfolding wf_ring_def o q
    using assms by (simp add: n mark_closed_def Let_def mput_def wf_map_def)
qed

lemma mark_closed_again:
  assumes "wf_ring r" "sr_closed r = Some c" "sid \<in> set (closed_queue r)"
  shows "mark_closed sid r = r"
proof -
  have "mget c sid \<noteq> None" using assms by (auto simp: wf_ring_def mget_None_iff)
  with assms(2) show ?thesis by (simp add: mark_closed_def Let_def)
qed

lemma mark_closed_new:
  assumes wf: "wf_ring r" and c: "sr_closed r = Some c"
    and sid: "sid \<noteq> []" "sid \<notin> set (closed_queue r)"
  shows "wf_ring (mark_closed sid r) \<and> closed_queue (mark_closed sid r) = close_spec sid (closed_queue r)"
proof -
  let ?q = "closed_queue r" and ?i = "sr_closedIdx r" and ?rng = "sr_closedRng r"
  have i: "?i < length ?rng" and len: "length ?rng = maxClosedSessions"
    and keys: "wf_map c" "fst ` set c = set ?q" and dist: "distinct ?q"
    and ord: "ring_order r = replicate (maxClosedSessions - length ?q) [] @ ?q"
    using wf c by (auto simp: wf_ring_def)
  have pos: "maxClosedSessions > 0" by (simp add: maxClosedSessions_def)
  have le: "length ?q \<le> maxClosedSessions"
    using arg_cong [OF ord, of length] i len by (simp add: ring_order_def)
  have new: "mget c sid = None" using sid keys by (simp add: mget_None_iff)
  let ?old = "?rng ! ?i" and ?r = "mark_closed sid r"
  have old: "?old = hd (ring_order r)" using ring_oldest [OF i] by (simp add: ring_order_def)
  have r: "sr_closed ?r = Some (mput sid () (if ?old \<noteq> [] then mdel ?old c else c))"
    "sr_closedRng ?r = ?rng[?i := sid]" "sr_closedIdx ?r = Suc ?i mod length ?rng"
    using c new by (simp_all add: mark_closed_def Let_def)
  have o': "ring_order ?r = tl (ring_order r) @ [sid]"
    using ring_write [OF i, of sid] by (simp only: ring_order_def r)
  show ?thesis
  proof (cases "length ?q < maxClosedSessions")
    case True
    then obtain k where k: "maxClosedSessions - length ?q = Suc k" by (metis Suc_diff_Suc)
    have "?old = []" using old ord k by simp
    moreover have o2: "ring_order ?r = replicate k [] @ ?q @ [sid]" using o' ord k by simp
    then have q: "closed_queue ?r = ?q @ [sid]"
      using r sid closed_queue_not_Nil [of r] by (auto simp: closed_queue_def filter_id_conv)
    moreover have "close_spec sid ?q = ?q @ [sid]" using True sid by (simp add: close_spec_def)
    ultimately show ?thesis
      using o2 k keys dist sid pos len i unfolding wf_ring_def r q
      by (auto simp: wf_map_mput)
  next
    case False
    then have full: "length ?q = maxClosedSessions" using le by simp
    then obtain a q' where q': "?q = a # q'" using pos by (cases "?q") auto
    have "?old = a" using old ord full q' by simp
    moreover have a: "a \<noteq> []" using closed_queue_not_Nil [of r] q' by auto
    moreover have o2: "ring_order ?r = q' @ [sid]" using o' ord full q' by simp
    then have q: "closed_queue ?r = q' @ [sid]"
      using r sid closed_queue_not_Nil [of r] q' by (auto simp: closed_queue_def filter_id_conv)
    moreover have "close_spec sid ?q = q' @ [sid]" using full sid q' by (simp add: close_spec_def)
    ultimately show ?thesis
      using o2 full keys dist sid q' pos len i unfolding wf_ring_def r q
      by (auto simp: wf_map_mput wf_map_mdel)
  qed
qed

text \<open>Closing a session refines the bounded queue.\<close>

lemma mark_closed_refines:
  assumes "wf_ring r" "sid \<noteq> []"
  shows "wf_ring (mark_closed sid r) \<and> closed_queue (mark_closed sid r) = close_spec sid (closed_queue r)"
proof (cases "sr_closed r")
  case None
  then have "closed_queue r = []" by (simp add: closed_queue_def)
  then have "close_spec sid (closed_queue r) = [sid]" by (simp add: close_spec_def maxClosedSessions_def)
  with None assms mark_closed_first [OF None, of sid] show ?thesis by (simp add: wf_ring_def)
next
  case (Some c)
  show ?thesis
  proof (cases "sid \<in> set (closed_queue r)")
    case True
    with assms Some show ?thesis by (simp add: mark_closed_again close_spec_def)
  next
    case False
    with assms Some show ?thesis by (simp add: mark_closed_new)
  qed
qed

lemma isClosed_queue: "wf_ring r \<Longrightarrow> isClosed r sid \<longleftrightarrow> sid \<in> set (closed_queue r)"
  by (auto simp: isClosed_def wf_ring_def mget_None_iff closed_queue_def split: option.splits)

section \<open>The invariant of the registry\<close>

definition wf_session :: "int \<Rightarrow> 'w sessionTools \<Rightarrow> bool" where
  "wf_session limit st \<longleftrightarrow> keyed tool_Name (st_tools st) \<and> st_tools st \<noteq> []
     \<and> mget (st_tools st) [] = None
     \<and> (\<forall>c. st_sorted st = Some c \<longrightarrow> c = sorted_snapshot tool_Name (st_tools st))
     \<and> int (length (st_tools st)) \<le> limit"

definition wf_sessions :: "'w sessionToolRegistry \<Rightarrow> bool" where
  "wf_sessions r \<longleftrightarrow> wf_map (sr_sessions r) \<and> int (length (sr_sessions r)) \<le> session_limit r \<and> wf_ring r
     \<and> (\<forall>(sid, st) \<in> set (sr_sessions r). sid \<noteq> [] \<and> \<not> isClosed r sid \<and> wf_session (tool_limit r) st)"

datatype 'w session_op =
    SAdd string "'w Tool option" | SRemove string string | SRemoveAll string | SSorted string

fun session_exec :: "'w session_op \<Rightarrow> 'w sessionToolRegistry \<Rightarrow> 'w sessionToolRegistry" where
  "session_exec (SAdd sid t) r = snd (add sid t r)"
| "session_exec (SRemove sid n) r = snd (remove sid n r)"
| "session_exec (SRemoveAll sid) r = removeAll sid r"
| "session_exec (SSorted sid) r = snd (sortedTools sid r)"

lemma limit_pos: "session_limit r > 0" "tool_limit r > 0"
  by (auto simp: session_limit_def tool_limit_def DefaultMaxSessions_def DefaultMaxSessionTools_def)

lemma limits_sessions [simp]:
  "session_limit (r \<lparr> sr_sessions := m \<rparr>) = session_limit r"
  "tool_limit (r \<lparr> sr_sessions := m \<rparr>) = tool_limit r"
  "isClosed (r \<lparr> sr_sessions := m \<rparr>) sid = isClosed r sid"
  "wf_ring (r \<lparr> sr_sessions := m \<rparr>) = wf_ring r"
  "closed_queue (r \<lparr> sr_sessions := m \<rparr>) = closed_queue r"
  by (simp_all add: session_limit_def tool_limit_def isClosed_def wf_ring_def closed_queue_def
      ring_order_def split: option.splits)

lemma limits_mark_closed [simp]:
  "session_limit (mark_closed sid r) = session_limit r"
  "tool_limit (mark_closed sid r) = tool_limit r"
  "sr_sessions (mark_closed sid r) = sr_sessions r"
  by (simp_all add: session_limit_def tool_limit_def mark_closed_def Let_def)

lemma wf_session_entry:
  "wf_sessions r \<Longrightarrow> mget (sr_sessions r) sid = Some st \<Longrightarrow>
   sid \<noteq> [] \<and> \<not> isClosed r sid \<and> wf_session (tool_limit r) st"
  by (auto simp: wf_sessions_def dest: mget_SomeD)

lemma wf_sessions_mput:
  assumes "wf_sessions r" "sid \<noteq> []" "\<not> isClosed r sid" "wf_session (tool_limit r) st"
    and "mget (sr_sessions r) sid = None \<Longrightarrow> int (length (sr_sessions r)) < session_limit r"
  shows "wf_sessions (r \<lparr> sr_sessions := mput sid st (sr_sessions r) \<rparr>)"
  using assms by (auto simp: wf_sessions_def wf_map_mput length_mput dest: set_mputD)

lemma wf_sessions_mdel: "wf_sessions r \<Longrightarrow> wf_sessions (r \<lparr> sr_sessions := mdel sid (sr_sessions r) \<rparr>)"
  using length_mdel_le [of sid "sr_sessions r"] by (auto simp: wf_sessions_def wf_map_mdel set_mdel)

lemma mput_mput_same: "mput k v (mput k u m) = mput k v m"
  by (induction m) (auto simp: mput_def)

lemma wf_session_insert:
  assumes "wf_session l st \<or> st_tools st = []" "int (length (st_tools st)) < l"
    and "mget (st_tools st) (tool_Name t) = None" "tool_Name t \<noteq> []"
  shows "wf_session l \<lparr> st_tools = mput (tool_Name t) t (st_tools st), st_sorted = None \<rparr>"
  using assms by (auto simp: wf_session_def length_mput keyed_mput mget_mput)

lemma wf_session_first:
  "0 < l \<Longrightarrow> tool_Name t \<noteq> [] \<Longrightarrow> wf_session l \<lparr> st_tools = mput (tool_Name t) t [], st_sorted = None \<rparr>"
  using wf_session_insert [of l "\<lparr> st_tools = [], st_sorted = None \<rparr>" t] by simp

lemma wf_add: assumes "wf_sessions r" shows "wf_sessions (snd (add sid t r))"
proof -
  let ?new = "\<lparr> st_tools = [], st_sorted = None \<rparr>"
  have old: "wf_sessions (snd (add_to_session sid u st r))"
    if "mget (sr_sessions r) sid = Some st" "tool_Name u \<noteq> []" for u st
    using wf_session_entry [OF assms that(1)] assms that
    by (auto simp: add_to_session_def intro!: wf_sessions_mput wf_session_insert)
  have new: "wf_sessions (snd (add_to_session sid u ?new (r \<lparr> sr_sessions := mput sid ?new (sr_sessions r) \<rparr>)))"
    if "mget (sr_sessions r) sid = None" "sid \<noteq> []" "\<not> isClosed r sid"
      "int (length (sr_sessions r)) < session_limit r" "tool_Name u \<noteq> []" for u
    using assms that limit_pos(2) [of r]
    by (auto simp: add_to_session_def mput_mput_same not_le intro!: wf_sessions_mput wf_session_first)
  show ?thesis
    using assms old new by (auto simp: add_def Let_def not_le split: option.splits)
qed

lemma wf_remove: assumes "wf_sessions r" shows "wf_sessions (snd (remove sid n r))"
proof (cases "sid = [] \<or> n = [] \<or> mget (sr_sessions r) sid = None")
  case True
  with assms show ?thesis by (auto simp: remove_def)
next
  case False
  then obtain st where st: "mget (sr_sessions r) sid = Some st" by auto
  have "wf_session (tool_limit r) \<lparr> st_tools = mdel n (st_tools st), st_sorted = None \<rparr>"
    if "mdel n (st_tools st) \<noteq> []"
    using wf_session_entry [OF assms st] that length_mdel_le [of n "st_tools st"]
    by (auto simp: wf_session_def keyed_mdel mget_mdel)
  with wf_session_entry [OF assms st] st False assms show ?thesis
    by (auto simp: remove_def Let_def intro: wf_sessions_mdel wf_sessions_mput)
qed

lemma close_spec_subset: "set (close_spec sid q) \<subseteq> insert sid (set q)"
  by (auto simp: close_spec_def dest!: in_set_dropD simp del: drop_append)

lemma wf_removeAll: assumes "wf_sessions r" shows "wf_sessions (removeAll sid r)"
proof (cases "sid = []")
  case False
  let ?r = "r \<lparr> sr_sessions := mdel sid (sr_sessions r) \<rparr>"
  have wf: "wf_sessions ?r" by (rule wf_sessions_mdel [OF assms])
  then have ring: "wf_ring ?r" by (simp add: wf_sessions_def)
  note ref = mark_closed_refines [OF ring False]
  have "\<not> isClosed (mark_closed sid ?r) s" if "(s, st) \<in> set (sr_sessions ?r)" for s st
  proof -
    from wf that have "\<not> isClosed ?r s" by (auto simp: wf_sessions_def)
    then have "s \<notin> set (closed_queue ?r)" using isClosed_queue [OF ring] by simp
    moreover have "s \<noteq> sid" using that by (auto simp: set_mdel)
    ultimately show ?thesis
      using ref isClosed_queue [of "mark_closed sid ?r" s] close_spec_subset [of sid "closed_queue ?r"] by auto
  qed
  with wf ref show ?thesis using False by (auto simp: removeAll_def wf_sessions_def)
qed (use assms in \<open>simp add: removeAll_def\<close>)

lemma wf_sorted: assumes "wf_sessions r" shows "wf_sessions (snd (sortedTools sid r))"
proof (cases "mget (sr_sessions r) sid")
  case (Some st)
  from wf_session_entry [OF assms Some] Some assms show ?thesis
    by (auto simp: sortedTools_def Let_def wf_session_def split: option.splits intro!: wf_sessions_mput)
qed (use assms in \<open>simp add: sortedTools_def\<close>)

lemma wf_session_exec: "wf_sessions r \<Longrightarrow> wf_sessions (session_exec a r)"
  by (cases a) (simp_all add: wf_add wf_remove wf_removeAll wf_sorted)

lemma wf_session_trace: "wf_sessions r \<Longrightarrow> wf_sessions (fold session_exec as r)"
  by (induction as arbitrary: r) (simp_all add: wf_session_exec)

lemma sortedTools_exact:
  "wf_sessions r \<Longrightarrow> fst (sortedTools sid r) =
     (if sid = [] then None else map_option (\<lambda>st. sorted_snapshot tool_Name (st_tools st)) (mget (sr_sessions r) sid))"
  by (auto simp: sortedTools_def wf_session_def Let_def dest: wf_session_entry split: option.splits)

section \<open>Properties of the overlay\<close>

fun session_of :: "'w session_op \<Rightarrow> string" where
  "session_of (SAdd sid t) = sid"
| "session_of (SRemove sid n) = sid"
| "session_of (SRemoveAll sid) = sid"
| "session_of (SSorted sid) = sid"

definition closings :: "'w session_op list \<Rightarrow> nat" where
  "closings as = length (filter (\<lambda>a. case a of SRemoveAll _ \<Rightarrow> True | _ \<Rightarrow> False) as)"

lemma other_session_kept:
  "session_of a \<noteq> sid \<Longrightarrow> mget (sr_sessions (session_exec a r)) sid = mget (sr_sessions r) sid"
  by (cases a) (auto simp: add_def add_to_session_def remove_def removeAll_def sortedTools_def Let_def
      mget_mput mget_mdel split: option.splits)

lemma close_spec_keeps:
  assumes "length q \<le> maxClosedSessions" "q = pre @ sid # post" "length post + 1 < maxClosedSessions"
  shows "\<exists>pre' post'. close_spec x q = pre' @ sid # post' \<and> length post' \<le> length post + 1"
proof (cases "x \<in> set q")
  case True
  then have "close_spec x q = pre @ sid # post" using assms(2) by (simp add: close_spec_def)
  then show ?thesis by (intro exI [of _ pre] exI [of _ post]) simp
next
  case False
  let ?d = "length q + 1 - maxClosedSessions"
  have "?d \<le> length pre" using assms by auto
  then have "close_spec x q = drop ?d pre @ sid # (post @ [x])" using False assms(2) by (simp add: close_spec_def)
  then show ?thesis by (intro exI [of _ "drop ?d pre"] exI [of _ "post @ [x]"]) simp
qed

lemma wf_queue_length: "wf_ring r \<Longrightarrow> length (closed_queue r) \<le> maxClosedSessions"
proof (cases "sr_closed r")
  case (Some c)
  assume "wf_ring r"
  with Some have "sr_closedIdx r < length (sr_closedRng r)" "length (sr_closedRng r) = maxClosedSessions"
    by (simp_all add: wf_ring_def)
  then have "length (ring_order r) = maxClosedSessions" by (simp add: ring_order_def)
  moreover have "length (closed_queue r) \<le> length (ring_order r)"
    using Some by (simp only: closed_queue_def) (simp only: option.distinct if_False length_filter_le)
  ultimately show ?thesis by simp
qed (simp add: closed_queue_def)

lemma queue_exec:
  assumes "wf_sessions r"
  shows "closed_queue (session_exec a r) =
    (case a of SRemoveAll sid \<Rightarrow> if sid = [] then closed_queue r else close_spec sid (closed_queue r)
     | _ \<Rightarrow> closed_queue r)"
proof (cases a)
  case (SRemoveAll sid)
  have "wf_ring (r \<lparr> sr_sessions := mdel sid (sr_sessions r) \<rparr>)" using assms by (simp add: wf_sessions_def)
  from mark_closed_refines [OF this, of sid] SRemoveAll show ?thesis by (simp add: removeAll_def)
qed (auto simp: add_def add_to_session_def remove_def sortedTools_def Let_def split: option.splits)

lemma closed_kept:
  assumes "wf_sessions r" "closed_queue r = pre @ sid # post" "length post + closings as < maxClosedSessions"
  shows "sid \<in> set (closed_queue (fold session_exec as r))"
  using assms
proof (induction as arbitrary: r pre post)
  case (Cons a as)
  have wf: "wf_sessions (session_exec a r)" by (rule wf_session_exec [OF Cons.prems(1)])
  have len: "length (closed_queue r) \<le> maxClosedSessions"
    using Cons.prems(1) wf_queue_length by (auto simp: wf_sessions_def)
  show ?case
  proof (cases "\<exists>x. a = SRemoveAll x \<and> x \<noteq> []")
    case True
    then obtain x where x: "a = SRemoveAll x" "x \<noteq> []" by blast
    with Cons.prems(3) have "length post + 1 < maxClosedSessions \<or> closings as = 0"
      by (auto simp: closings_def)
    moreover have c: "closings (a # as) = Suc (closings as)" using x by (simp add: closings_def)
    ultimately have "length post + 1 < maxClosedSessions" using Cons.prems(3) by auto
    from close_spec_keeps [OF len Cons.prems(2) this, of x] obtain pre' post' where
      "close_spec x (closed_queue r) = pre' @ sid # post'" "length post' \<le> length post + 1" by blast
    moreover from this have "length post' + closings as < maxClosedSessions" using c Cons.prems(3) by simp
    ultimately show ?thesis
      using Cons.IH [OF wf, of pre' post'] x queue_exec [OF Cons.prems(1), of a] by simp
  next
    case False
    then have "closed_queue (session_exec a r) = closed_queue r"
      using queue_exec [OF Cons.prems(1), of a] by (cases a) auto
    moreover have "closings as \<le> closings (a # as)" by (simp add: closings_def)
    ultimately show ?thesis using Cons.IH [OF wf, of pre post] Cons.prems(2,3) by simp
  qed
qed simp

text \<open>Every registry reached by any sequence of operations keeps its limits and its structure:
  no more sessions and no more tools per session than configured, no empty sessions, sorted
  caches that agree with the maps, no tools for a session remembered as closed, and a memory of
  at most 10000 closed sessions whose ring buffer and map agree.\<close>

theorem session_registry_invariant:
  "wf_sessions (fold session_exec as
     (newSessionToolRegistry \<lparr> sr_maxToolsPerSess := m, sr_maxSessions := n \<rparr>))"
proof (rule wf_session_trace)
  show "wf_sessions (newSessionToolRegistry \<lparr> sr_maxToolsPerSess := m, sr_maxSessions := n \<rparr>)"
    by (simp add: newSessionToolRegistry_def wf_sessions_def wf_ring_def session_limit_def
        DefaultMaxSessions_def)
qed

text \<open>Operations on one session never change another one: after any sequence of operations on
  other sessions, a session's tools are what they were.\<close>

theorem session_isolation:
  assumes "list_all (\<lambda>a. session_of a \<noteq> sid) as"
  shows "lookup (fold session_exec as r) sid n = lookup r sid n
       \<and> hasSession (fold session_exec as r) sid = hasSession r sid"
proof -
  have "mget (sr_sessions (fold session_exec as r)) sid = mget (sr_sessions r) sid"
    using assms by (induction as arbitrary: r) (simp_all add: other_session_kept)
  then show ?thesis by (simp add: lookup_def hasSession_def)
qed

theorem session_isolation_witness:
  "lookup (fold session_exec [SAdd ''b'' (Some (echo_tool ''t'')), SRemoveAll ''b'']
     (snd (add ''a'' (Some (echo_tool ''t'' :: nat Tool)) newSessionToolRegistry))) ''a'' ''t'' = Some (echo_tool ''t'')"
  using session_isolation [of "''a''" "[SAdd ''b'' (Some (echo_tool ''t'')), SRemoveAll ''b'']"
      "snd (add ''a'' (Some (echo_tool ''t'' :: nat Tool)) newSessionToolRegistry)" "''t''"]
  by (simp add: add_def add_to_session_def newSessionToolRegistry_def isClosed_def echo_tool_def lookup_def
      session_limit_def tool_limit_def DefaultMaxSessions_def DefaultMaxSessionTools_def mget_mput mput_mput_same)

text \<open>A session that has been cleaned up stays closed: until 10000 further clean-ups have
  happened, whatever else is done to the registry, every attempt to add a well-formed tool to it
  is refused with \<open>errSessionClosed\<close> and it has no tools.\<close>

theorem closed_session_stays_closed:
  assumes wf: "wf_sessions r" and sid: "sid \<noteq> []" "\<not> isClosed r sid"
    and few: "closings as < maxClosedSessions"
    and tool: "tool_Name t \<noteq> []" "tool_Handler t \<noteq> None"
  shows "let r' = fold session_exec as (removeAll sid r)
         in fst (add sid (Some t) r') = Some errSessionClosed \<and> lookup r' sid n = None"
proof -
  define r' where "r' = fold session_exec as (removeAll sid r)"
  have wf1: "wf_sessions (removeAll sid r)" by (rule wf_removeAll [OF wf])
  have wf': "wf_sessions r'" unfolding r'_def by (rule wf_session_trace [OF wf1])
  have "sid \<notin> set (closed_queue r)" using sid wf isClosed_queue [of r sid] by (simp add: wf_sessions_def)
  moreover have "length (closed_queue r) + 1 - maxClosedSessions \<le> length (closed_queue r)"
    by (simp add: maxClosedSessions_def)
  ultimately have "closed_queue (removeAll sid r) =
      drop (length (closed_queue r) + 1 - maxClosedSessions) (closed_queue r) @ [sid]"
    using queue_exec [OF wf, of "SRemoveAll sid"] sid by (simp add: close_spec_def)
  from closed_kept [OF wf1 this] few have "sid \<in> set (closed_queue r')" by (simp add: r'_def)
  then have closed: "isClosed r' sid" using wf' isClosed_queue [of r' sid] by (simp add: wf_sessions_def)
  then have "mget (sr_sessions r') sid = None"
    using wf_session_entry [OF wf', of sid] by (cases "mget (sr_sessions r') sid") auto
  with closed sid tool show ?thesis by (auto simp: Let_def add_def lookup_def r'_def [symmetric])
qed

theorem closed_session_stays_closed_witness:
  "fst (add ''a'' (Some (echo_tool ''t'' :: nat Tool))
     (fold session_exec [SRemoveAll ''b''] (removeAll ''a'' newSessionToolRegistry))) = Some errSessionClosed"
proof -
  have "wf_sessions (newSessionToolRegistry :: nat sessionToolRegistry)"
    by (simp add: newSessionToolRegistry_def wf_sessions_def wf_ring_def session_limit_def DefaultMaxSessions_def)
  moreover have "\<not> isClosed (newSessionToolRegistry :: nat sessionToolRegistry) ''a''"
    by (simp add: newSessionToolRegistry_def isClosed_def)
  moreover have "closings [SRemoveAll ''b'' :: nat session_op] < maxClosedSessions"
    by (simp add: closings_def maxClosedSessions_def)
  ultimately show ?thesis
    using closed_session_stays_closed [of "newSessionToolRegistry :: nat sessionToolRegistry" "''a''" "[SRemoveAll ''b'']" "echo_tool ''t''" "''t''"]
    by (simp add: Let_def echo_tool_def)
qed

end
