(* ===== verification/Lifecycle.thy ===== *)
theory Lifecycle
  imports Mcp_Prelude
begin

text \<open>
  The contract shared by the two stores of asynchronous work, \<open>TaskStore\<close> (\<open>task.go\<close>) and
  \<open>JobStore\<close> (\<open>async.go\<close>): operations run one at a time under the store's lock, an operation
  that moves an entry to its end may succeed only while the entry is still open, and an entry
  that has ended is changed by nothing but its removal. What follows for arbitrary sequences of
  operations is proved here once.
\<close>

locale lifecycle =
  fixes exec :: "'op \<Rightarrow> 's \<Rightarrow> 's"
    and entry :: "'s \<Rightarrow> 'k \<Rightarrow> 'v option"
    and final :: "'v \<Rightarrow> bool"
    and removes :: "'op \<Rightarrow> 'k \<Rightarrow> bool"
    and ends :: "'op \<Rightarrow> 'k \<Rightarrow> 's \<Rightarrow> bool"
    and inv :: "'s \<Rightarrow> bool"
  assumes final_kept:
      "entry s k = Some v \<Longrightarrow> final v \<Longrightarrow> \<not> removes a k \<Longrightarrow> entry (exec a s) k = Some v"
    and ends_open: "ends a k s \<Longrightarrow> \<exists>v. entry s k = Some v \<and> \<not> final v"
    and ends_final: "ends a k s \<Longrightarrow> \<exists>v. entry (exec a s) k = Some v \<and> final v"
    and inv_exec: "inv s \<Longrightarrow> inv (exec a s)"
begin

primrec winners :: "'op list \<Rightarrow> 'k \<Rightarrow> 's \<Rightarrow> 'op list" where
  "winners [] k s = []"
| "winners (a # as) k s = (if ends a k s then [a] else []) @ winners as k (exec a s)"

lemma inv_trace: "inv s \<Longrightarrow> inv (fold exec as s)"
  by (induction as arbitrary: s) (auto intro: inv_exec)

lemma final_trace:
  "entry s k = Some v \<Longrightarrow> final v \<Longrightarrow> list_all (\<lambda>a. \<not> removes a k) as \<Longrightarrow>
   entry (fold exec as s) k = Some v"
  by (induction as arbitrary: s) (auto intro: final_kept)

lemma no_winner_after_final:
  "entry s k = Some v \<Longrightarrow> final v \<Longrightarrow> list_all (\<lambda>a. \<not> removes a k) as \<Longrightarrow> winners as k s = []"
proof (induction as arbitrary: s)
  case (Cons a as)
  then have "\<not> ends a k s" using ends_open by fastforce
  with Cons show ?case by (simp add: final_kept)
qed simp

lemma one_winner:
  "list_all (\<lambda>a. \<not> removes a k) as \<Longrightarrow> length (winners as k s) \<le> 1"
proof (induction as arbitrary: s)
  case (Cons a as)
  show ?case
  proof (cases "ends a k s")
    case True
    then obtain v where "entry (exec a s) k = Some v" "final v" using ends_final by blast
    with Cons.prems have "winners as k (exec a s) = []" by (simp add: no_winner_after_final)
    with True show ?thesis by simp
  next
    case False
    with Cons show ?thesis by simp
  qed
qed simp

end

end
