(* ===== verification/Task_Store.thy ===== *)
theory Task_Store
  imports Mcp_Types Lifecycle
begin

text \<open>
  \<open>TaskStore\<close> of \<open>task.go\<close>: one definition per method, on a record of its fields. Every method
  holds the store's lock from its first read to its last write, so a method is one step. The
  clock is passed as the formatted time that \<open>ts.now().UTC().Format(time.RFC3339)\<close> yields. A
  cancel function is represented by the background work it cancels.
\<close>

section \<open>Data\<close>

datatype TaskStatus =
    TaskStatusWorking | TaskStatusInputRequired | TaskStatusCompleted | TaskStatusFailed
  | TaskStatusCancelled

fun task_status_text :: "TaskStatus \<Rightarrow> string" where
  "task_status_text TaskStatusWorking = ''working''"
| "task_status_text TaskStatusInputRequired = ''input_required''"
| "task_status_text TaskStatusCompleted = ''completed''"
| "task_status_text TaskStatusFailed = ''failed''"
| "task_status_text TaskStatusCancelled = ''cancelled''"

record Task =
  task_TaskID :: string
  task_Status :: TaskStatus
  task_StatusMessage :: "string option"
  task_CreatedAt :: string
  task_LastUpdatedAt :: string
  task_TTL :: "int option"
  task_PollInterval :: "int option"

record internalTask =
  it_task :: Task
  it_result :: "CallToolResult option"
  it_ownerID :: string
  it_cancelFn :: "string option"

record TaskStore =
  ts_tasks :: "(string, internalTask) gomap"
  ts_maxTasks :: int

record TaskOptions =
  to_TTL :: "int option"
  to_PollInterval :: "int option"
  to_OwnerID :: string

definition errTaskNotFound :: goerr where "errTaskNotFound = Sentinel ''task not found''"
definition errTaskIDEmpty :: goerr where "errTaskIDEmpty = Sentinel ''task ID must not be empty''"
definition errTaskIDExists :: goerr where "errTaskIDExists = Sentinel ''task ID already exists''"
definition errTaskInvalidTransit :: goerr where "errTaskInvalidTransit = Sentinel ''invalid task status transition''"
definition errTaskNotCompleted :: goerr where "errTaskNotCompleted = Sentinel ''task is not completed''"
definition errTaskLimitExceeded :: goerr where "errTaskLimitExceeded = Sentinel ''task limit exceeded''"

lemmas task_errors = errTaskNotFound_def errTaskIDEmpty_def errTaskIDExists_def
  errTaskInvalidTransit_def errTaskNotCompleted_def errTaskLimitExceeded_def

definition invalid_transit :: "TaskStatus \<Rightarrow> TaskStatus \<Rightarrow> goerr" where
  "invalid_transit a b =
     Wrapped (Error errTaskInvalidTransit @ '': cannot transition from '' @ task_status_text a
              @ '' to '' @ task_status_text b) errTaskInvalidTransit"

section \<open>Operations\<close>

definition WithMaxTasks :: "int \<Rightarrow> TaskStore \<Rightarrow> TaskStore" where
  "WithMaxTasks n ts = ts \<lparr> ts_maxTasks := n \<rparr>"

definition NewTaskStore :: "(TaskStore \<Rightarrow> TaskStore) list \<Rightarrow> TaskStore" where
  "NewTaskStore opts = fold (\<lambda>opt ts. opt ts) opts \<lparr> ts_tasks = [], ts_maxTasks = 0 \<rparr>"

definition SubmitWithOptions ::
  "string \<Rightarrow> string \<Rightarrow> TaskOptions \<Rightarrow> TaskStore \<Rightarrow> (goerr + Task) \<times> TaskStore" where
  "SubmitWithOptions now tid opts ts =
     (if tid = [] then (Inl errTaskIDEmpty, ts)
      else if mget (ts_tasks ts) tid \<noteq> None then (Inl errTaskIDExists, ts)
      else if ts_maxTasks ts > 0 \<and> int (length (ts_tasks ts)) \<ge> ts_maxTasks ts
        then (Inl errTaskLimitExceeded, ts)
      else
        let t = \<lparr> task_TaskID = tid, task_Status = TaskStatusWorking, task_StatusMessage = None,
                  task_CreatedAt = now, task_LastUpdatedAt = now, task_TTL = to_TTL opts,
                  task_PollInterval = to_PollInterval opts \<rparr>
        in (Inr t, ts \<lparr> ts_tasks := mput tid \<lparr> it_task = t, it_result = None,
                           it_ownerID = to_OwnerID opts, it_cancelFn = None \<rparr> (ts_tasks ts) \<rparr>))"

definition Submit :: "string \<Rightarrow> string \<Rightarrow> TaskStore \<Rightarrow> (goerr + Task) \<times> TaskStore" where
  "Submit now tid ts =
     SubmitWithOptions now tid \<lparr> to_TTL = None, to_PollInterval = None, to_OwnerID = [] \<rparr> ts"

text \<open>\<open>GenerateID\<close>: sixteen random bytes in lower-case hexadecimal.\<close>

definition hex_digit :: "nat \<Rightarrow> char" where
  "hex_digit d = (if d < 10 then char_of (48 + d) else char_of (87 + d))"

definition hex_encode :: "nat list \<Rightarrow> string" where
  "hex_encode bs = concat (map (\<lambda>b. [hex_digit (b div 16), hex_digit (b mod 16)]) bs)"

definition GenerateID :: "goerr + nat list \<Rightarrow> string hres" where
  "GenerateID entropy = (case entropy of
       Inl e \<Rightarrow> Panic (''finemcp: failed to generate random task ID: '' @ Error e)
     | Inr b \<Rightarrow> Ret (''task-'' @ hex_encode b))"

definition storeCancelFunc :: "string \<Rightarrow> string \<Rightarrow> TaskStore \<Rightarrow> TaskStore" where
  "storeCancelFunc tid fn ts =
     (case mget (ts_tasks ts) tid of None \<Rightarrow> ts
      | Some it \<Rightarrow> ts \<lparr> ts_tasks := mput tid (it \<lparr> it_cancelFn := Some fn \<rparr>) (ts_tasks ts) \<rparr>)"

definition ownerOf :: "TaskStore \<Rightarrow> string \<Rightarrow> string" where
  "ownerOf ts tid = (case mget (ts_tasks ts) tid of None \<Rightarrow> [] | Some it \<Rightarrow> it_ownerID it)"

definition Get :: "TaskStore \<Rightarrow> string \<Rightarrow> goerr + Task" where
  "Get ts tid = (case mget (ts_tasks ts) tid of None \<Rightarrow> Inl errTaskNotFound | Some it \<Rightarrow> Inr (it_task it))"

definition Complete :: "string \<Rightarrow> string \<Rightarrow> CallToolResult option \<Rightarrow> TaskStore \<Rightarrow> goerr option \<times> TaskStore" where
  "Complete now tid result ts =
     (case mget (ts_tasks ts) tid of None \<Rightarrow> (Some errTaskNotFound, ts)
      | Some it \<Rightarrow>
        if task_Status (it_task it) \<noteq> TaskStatusWorking
        then (Some (invalid_transit (task_Status (it_task it)) TaskStatusCompleted), ts)
        else (None, ts \<lparr> ts_tasks := mput tid
          (it \<lparr> it_task := (it_task it) \<lparr> task_Status := TaskStatusCompleted, task_LastUpdatedAt := now \<rparr>,
                it_result := result \<rparr>) (ts_tasks ts) \<rparr>))"

definition Fail :: "string \<Rightarrow> string \<Rightarrow> string \<Rightarrow> TaskStore \<Rightarrow> goerr option \<times> TaskStore" where
  "Fail now tid errMsg ts =
     (case mget (ts_tasks ts) tid of None \<Rightarrow> (Some errTaskNotFound, ts)
      | Some it \<Rightarrow>
        if task_Status (it_task it) \<noteq> TaskStatusWorking
        then (Some (invalid_transit (task_Status (it_task it)) TaskStatusFailed), ts)
        else (None, ts \<lparr> ts_tasks := mput tid
          (it \<lparr> it_task := (it_task it) \<lparr> task_Status := TaskStatusFailed,
                  task_StatusMessage := Some errMsg, task_LastUpdatedAt := now \<rparr> \<rparr>) (ts_tasks ts) \<rparr>))"

text \<open>\<open>Cancel\<close> also yields the cancel function it calls, if one was stored.\<close>

definition Cancel :: "string \<Rightarrow> string \<Rightarrow> TaskStore \<Rightarrow> (goerr + Task) \<times> string option \<times> TaskStore" where
  "Cancel now tid ts =
     (case mget (ts_tasks ts) tid of None \<Rightarrow> (Inl errTaskNotFound, None, ts)
      | Some it \<Rightarrow>
        if task_Status (it_task it) \<noteq> TaskStatusWorking
        then (Inl (invalid_transit (task_Status (it_task it)) TaskStatusCancelled), None, ts)
        else
          let t = (it_task it) \<lparr> task_Status := TaskStatusCancelled, task_LastUpdatedAt := now \<rparr>
          in (Inr t, it_cancelFn it, ts \<lparr> ts_tasks := mput tid (it \<lparr> it_task := t \<rparr>) (ts_tasks ts) \<rparr>))"

definition GetResult :: "TaskStore \<Rightarrow> string \<Rightarrow> goerr + CallToolResult" where
  "GetResult ts tid =
     (case mget (ts_tasks ts) tid of None \<Rightarrow> Inl errTaskNotFound
      | Some it \<Rightarrow>
        (case it_result it of
           Some r \<Rightarrow> if task_Status (it_task it) \<noteq> TaskStatusCompleted then
              Inl (Wrapped (Error errTaskNotCompleted @ '': task '' @ tid @ '' is in ''
                   @ task_status_text (task_Status (it_task it)) @ '' state'') errTaskNotCompleted)
             else Inr r
         | None \<Rightarrow> Inl (Wrapped (Error errTaskNotCompleted @ '': task '' @ tid @ '' is in ''
                   @ task_status_text (task_Status (it_task it)) @ '' state'') errTaskNotCompleted)))"

definition ListByOwner :: "TaskStore \<Rightarrow> string \<Rightarrow> Task list" where
  "ListByOwner ts ownerID =
     sort_key task_TaskID (map it_task (filter
       (\<lambda>it. \<not> (ownerID \<noteq> [] \<and> it_ownerID it \<noteq> [] \<and> it_ownerID it \<noteq> ownerID)) (mvals (ts_tasks ts))))"

definition List :: "TaskStore \<Rightarrow> Task list" where
  "List ts = ListByOwner ts []"

definition Delete :: "string \<Rightarrow> TaskStore \<Rightarrow> goerr option \<times> TaskStore" where
  "Delete tid ts =
     (if mget (ts_tasks ts) tid = None then (Some errTaskNotFound, ts)
      else (None, ts \<lparr> ts_tasks := mdel tid (ts_tasks ts) \<rparr>))"

lemmas task_ops = SubmitWithOptions_def storeCancelFunc_def Complete_def Fail_def Cancel_def Delete_def

section \<open>Well-formedness\<close>

text \<open>
  Tasks are filed under their own non-empty identifier; a result is present only for completed
  tasks and a status message only for failed ones; no operation leads to \<open>input_required\<close>; and
  a positive limit bounds the number of tasks.
\<close>

definition wf_itask :: "string \<Rightarrow> internalTask \<Rightarrow> bool" where
  "wf_itask tid it \<longleftrightarrow> tid \<noteq> [] \<and> task_TaskID (it_task it) = tid
     \<and> task_Status (it_task it) \<noteq> TaskStatusInputRequired
     \<and> (it_result it \<noteq> None \<longrightarrow> task_Status (it_task it) = TaskStatusCompleted)
     \<and> (task_StatusMessage (it_task it) \<noteq> None \<longleftrightarrow> task_Status (it_task it) = TaskStatusFailed)"

definition wf_tasks :: "TaskStore \<Rightarrow> bool" where
  "wf_tasks ts \<longleftrightarrow> wf_map (ts_tasks ts) \<and> (\<forall>(tid, it) \<in> set (ts_tasks ts). wf_itask tid it)
     \<and> (ts_maxTasks ts > 0 \<longrightarrow> int (length (ts_tasks ts)) \<le> ts_maxTasks ts)"

lemma wf_tasks_entry: "wf_tasks ts \<Longrightarrow> mget (ts_tasks ts) tid = Some it \<Longrightarrow> wf_itask tid it"
  by (auto simp: wf_tasks_def dest: mget_SomeD)

lemma wf_tasks_replace:
  assumes "wf_tasks ts" "mget (ts_tasks ts) tid \<noteq> None" "wf_itask tid it"
  shows "wf_tasks (ts \<lparr> ts_tasks := mput tid it (ts_tasks ts) \<rparr>)"
  using assms by (auto simp: wf_tasks_def wf_map_mput length_mput dest: set_mputD)

lemma wf_NewTaskStore [simp]: "wf_tasks (NewTaskStore [])"
  by (simp add: NewTaskStore_def wf_tasks_def)

lemma wf_tasks_insert:
  assumes "wf_tasks ts" "mget (ts_tasks ts) tid = None" "wf_itask tid it"
    and "ts_maxTasks ts > 0 \<Longrightarrow> int (length (ts_tasks ts)) < ts_maxTasks ts"
  shows "wf_tasks (ts \<lparr> ts_tasks := mput tid it (ts_tasks ts) \<rparr>)"
  using assms by (auto simp: wf_tasks_def wf_map_mput length_mput dest: set_mputD)

lemma wf_Submit: "wf_tasks ts \<Longrightarrow> wf_tasks (snd (SubmitWithOptions now tid opts ts))"
  by (auto simp: SubmitWithOptions_def wf_itask_def Let_def intro!: wf_tasks_insert)

lemma wf_storeCancel: "wf_tasks ts \<Longrightarrow> wf_tasks (storeCancelFunc tid fn ts)"
  by (auto simp: storeCancelFunc_def wf_itask_def dest: wf_tasks_entry intro!: wf_tasks_replace
      split: option.splits)

lemma wf_Complete: "wf_tasks ts \<Longrightarrow> wf_tasks (snd (Complete now tid r ts))"
  by (auto simp: Complete_def wf_itask_def dest: wf_tasks_entry intro!: wf_tasks_replace
      split: option.splits)

lemma wf_Fail: "wf_tasks ts \<Longrightarrow> wf_tasks (snd (Fail now tid msg ts))"
  by (auto simp: Fail_def wf_itask_def dest: wf_tasks_entry intro!: wf_tasks_replace
      split: option.splits)

lemma wf_Cancel: "wf_tasks ts \<Longrightarrow> wf_tasks (snd (snd (Cancel now tid ts)))"
  by (auto simp: Cancel_def Let_def wf_itask_def dest: wf_tasks_entry intro!: wf_tasks_replace
      split: option.splits)

lemma wf_Delete: "wf_tasks ts \<Longrightarrow> wf_tasks (snd (Delete tid ts))"
  using length_mdel_le [of tid "ts_tasks ts"]
  by (auto simp: Delete_def wf_tasks_def wf_map_mdel set_mdel)

section \<open>Sequences of operations\<close>

datatype task_op =
    OpSubmit string string TaskOptions
  | OpStoreCancel string string
  | OpComplete string string "CallToolResult option"
  | OpFail string string string
  | OpCancel string string
  | OpDelete string

fun task_exec :: "task_op \<Rightarrow> TaskStore \<Rightarrow> TaskStore" where
  "task_exec (OpSubmit now tid opts) ts = snd (SubmitWithOptions now tid opts ts)"
| "task_exec (OpStoreCancel tid fn) ts = storeCancelFunc tid fn ts"
| "task_exec (OpComplete now tid r) ts = snd (Complete now tid r ts)"
| "task_exec (OpFail now tid msg) ts = snd (Fail now tid msg ts)"
| "task_exec (OpCancel now tid) ts = snd (snd (Cancel now tid ts))"
| "task_exec (OpDelete tid) ts = snd (Delete tid ts)"

text \<open>What clients can observe of a task: all but the stored cancel function.\<close>

definition task_view :: "TaskStore \<Rightarrow> string \<Rightarrow> (Task \<times> CallToolResult option \<times> string) option" where
  "task_view ts tid =
     map_option (\<lambda>it. (it_task it, it_result it, it_ownerID it)) (mget (ts_tasks ts) tid)"

definition ended :: "Task \<times> CallToolResult option \<times> string \<Rightarrow> bool" where
  "ended v \<longleftrightarrow> task_Status (fst v) \<in> {TaskStatusCompleted, TaskStatusFailed, TaskStatusCancelled}"

definition task_removes :: "task_op \<Rightarrow> string \<Rightarrow> bool" where
  "task_removes a tid \<longleftrightarrow> a = OpDelete tid"

text \<open>The operation asks for the end of the task, and the store reports success.\<close>

fun task_ends :: "task_op \<Rightarrow> string \<Rightarrow> TaskStore \<Rightarrow> bool" where
  "task_ends (OpComplete now t r) tid ts \<longleftrightarrow> t = tid \<and> fst (Complete now t r ts) = None"
| "task_ends (OpFail now t msg) tid ts \<longleftrightarrow> t = tid \<and> fst (Fail now t msg ts) = None"
| "task_ends (OpCancel now t) tid ts \<longleftrightarrow> t = tid \<and> \<not> isl (fst (Cancel now t ts))"
| "task_ends _ tid ts \<longleftrightarrow> False"

lemma Get_view: "Get ts tid = (case task_view ts tid of None \<Rightarrow> Inl errTaskNotFound | Some (t, _) \<Rightarrow> Inr t)"
  by (simp add: Get_def task_view_def split: option.splits)

lemma ownerOf_view: "ownerOf ts tid = (case task_view ts tid of None \<Rightarrow> [] | Some (_, _, w) \<Rightarrow> w)"
  by (simp add: ownerOf_def task_view_def split: option.splits)

lemma GetResult_view:
  "task_view ts tid = task_view ts' tid \<Longrightarrow> GetResult ts tid = GetResult ts' tid"
  by (cases "mget (ts_tasks ts) tid"; cases "mget (ts_tasks ts') tid")
     (simp_all add: GetResult_def task_view_def split: option.splits)

lemma Get_Inr: "Get ts tid = Inr t \<longleftrightarrow> (\<exists>it. mget (ts_tasks ts) tid = Some it \<and> it_task it = t)"
  by (simp add: Get_def split: option.splits)

lemma task_view_mput [simp]:
  "task_view (ts \<lparr> ts_tasks := mput t it m \<rparr>) tid =
     (if tid = t then Some (it_task it, it_result it, it_ownerID it)
      else map_option (\<lambda>it. (it_task it, it_result it, it_ownerID it)) (mget m tid))"
  by (simp add: task_view_def mget_mput)

lemma task_view_mdel [simp]:
  "task_view (ts \<lparr> ts_tasks := mdel t m \<rparr>) tid =
     (if tid = t then None else map_option (\<lambda>it. (it_task it, it_result it, it_ownerID it)) (mget m tid))"
  by (simp add: task_view_def mget_mdel)

interpretation tl: lifecycle task_exec task_view ended task_removes task_ends wf_tasks
proof
  fix ts tid v a
  assume v: "task_view ts tid = Some v" "ended v" "\<not> task_removes a tid"
  show "task_view (task_exec a ts) tid = Some v"
    using v by (cases a) (auto simp: task_ops task_view_def ended_def task_removes_def mget_mput mget_mdel
        Let_def split: option.splits if_splits)
next
  fix a tid ts assume "task_ends a tid ts"
  then show "\<exists>v. task_view ts tid = Some v \<and> \<not> ended v"
    by (cases a) (auto simp: task_ops task_view_def ended_def Let_def split: option.splits if_splits)
next
  fix a tid ts assume "task_ends a tid ts"
  then show "\<exists>v. task_view (task_exec a ts) tid = Some v \<and> ended v"
    by (cases a) (auto simp: task_ops ended_def Let_def split: option.splits if_splits)
next
  fix ts a assume "wf_tasks ts"
  then show "wf_tasks (task_exec a ts)"
    by (cases a) (simp_all add: wf_Submit wf_storeCancel wf_Complete wf_Fail wf_Cancel wf_Delete)
qed

section \<open>Properties\<close>

fun task_asks :: "string \<Rightarrow> task_op \<Rightarrow> bool" where
  "task_asks tid (OpComplete now t r) \<longleftrightarrow> t = tid"
| "task_asks tid (OpFail now t msg) \<longleftrightarrow> t = tid"
| "task_asks tid (OpCancel now t) \<longleftrightarrow> t = tid"
| "task_asks tid _ \<longleftrightarrow> False"

definition working :: "TaskStore \<Rightarrow> string \<Rightarrow> bool" where
  "working ts tid \<longleftrightarrow> (\<exists>v. task_view ts tid = Some v \<and> task_Status (fst v) = TaskStatusWorking)"

lemma working_kept:
  "working ts tid \<Longrightarrow> \<not> task_asks tid a \<Longrightarrow> \<not> task_removes a tid \<Longrightarrow> working (task_exec a ts) tid"
  by (cases a) (auto simp: working_def task_ops task_view_def task_removes_def mget_mput mget_mdel
      Let_def split: option.splits if_splits)

lemma working_ends: "working ts tid \<Longrightarrow> task_ends a tid ts = task_asks tid a"
  by (cases a) (auto simp: working_def task_ops task_view_def Let_def split: option.splits if_splits)

lemma list_order_eq:
  "wf_tasks ts \<Longrightarrow> map task_TaskID (map it_task (mvals (ts_tasks ts))) = map fst (ts_tasks ts)"
  by (auto simp: wf_tasks_def wf_itask_def mvals_def)

text \<open>C16: From a working task, whatever sequence of submissions, completions, failures,
  cancellations and deletions of other tasks follows, exactly the first of the operations that
  ask to end this task succeeds; every later one is refused.\<close>

theorem task_first_end_wins:
  assumes "working ts tid" and "list_all (\<lambda>a. \<not> task_removes a tid) as"
  shows "tl.winners as tid ts = take 1 (filter (task_asks tid) as)"
  using assms
proof (induction as arbitrary: ts)
  case (Cons a as)
  show ?case
  proof (cases "task_asks tid a")
    case True
    with Cons.prems have "task_ends a tid ts" by (simp add: working_ends)
    moreover from this obtain v where "task_view (task_exec a ts) tid = Some v" "ended v"
      using tl.ends_final by blast
    ultimately show ?thesis using True Cons.prems by (simp add: tl.no_winner_after_final)
  next
    case False
    with Cons show ?thesis by (simp add: working_ends working_kept)
  qed
qed simp

definition demo_store :: TaskStore where
  "demo_store = snd (Submit ''t0'' ''a'' (NewTaskStore []))"

lemma demo_working: "working demo_store ''a''"
  by (simp add: working_def demo_store_def Submit_def SubmitWithOptions_def NewTaskStore_def
      task_view_def mget_def mput_def Let_def)

theorem task_first_end_wins_witness:
  "tl.winners [OpCancel ''t1'' ''a'', OpComplete ''t2'' ''a'' None, OpFail ''t3'' ''a'' ''x''] ''a'' demo_store
     = [OpCancel ''t1'' ''a'']"
  using task_first_end_wins [OF demo_working,
      of "[OpCancel ''t1'' ''a'', OpComplete ''t2'' ''a'' None, OpFail ''t3'' ''a'' ''x'']"]
  by (simp add: task_removes_def)

text \<open>Once a task has completed, failed or been cancelled, no sequence of operations that
  does not delete it changes what \<open>Get\<close>, \<open>GetResult\<close> and \<open>ownerOf\<close> report for it.\<close>

theorem task_end_is_final:
  assumes "task_view ts tid = Some v" "ended v" and "list_all (\<lambda>a. \<not> task_removes a tid) as"
  shows "Get (fold task_exec as ts) tid = Get ts tid
    \<and> GetResult (fold task_exec as ts) tid = GetResult ts tid
    \<and> ownerOf (fold task_exec as ts) tid = ownerOf ts tid"
proof -
  have eq: "task_view (fold task_exec as ts) tid = task_view ts tid"
    using tl.final_trace [OF assms] assms(1) by simp
  show ?thesis using GetResult_view [OF eq] by (simp add: Get_view ownerOf_view eq)
qed

theorem task_end_is_final_witness:
  "Get (fold task_exec [OpFail ''t3'' ''a'' ''x'', OpDelete ''b''] (snd (snd (Cancel ''t1'' ''a'' demo_store)))) ''a''
     = Get (snd (snd (Cancel ''t1'' ''a'' demo_store))) ''a''"
  using task_end_is_final [where ts = "snd (snd (Cancel ''t1'' ''a'' demo_store))" and tid = "''a''"
      and as = "[OpFail ''t3'' ''a'' ''x'', OpDelete ''b'']"]
  by (simp add: demo_store_def Submit_def SubmitWithOptions_def NewTaskStore_def Cancel_def
      task_view_def mget_def mput_def Let_def ended_def task_removes_def)

text \<open>Every store reached from a fresh one by any sequence of operations is well formed; in
  particular a positive \<open>maxTasks\<close> is never exceeded, a result belongs to a completed task, and
  exactly the failed tasks carry a status message.\<close>

theorem task_store_invariant:
  "wf_tasks (fold task_exec as (NewTaskStore [WithMaxTasks n]))"
proof -
  have "wf_tasks (NewTaskStore [WithMaxTasks n])"
    by (simp add: NewTaskStore_def WithMaxTasks_def wf_tasks_def)
  then show ?thesis by (rule tl.inv_trace)
qed

text \<open>\<open>ListByOwner\<close> returns, in strictly increasing order of task identifier, exactly the
  tasks that have no owner or the given one; for the empty owner it returns every task.\<close>

theorem list_by_owner_exact:
  assumes "wf_tasks ts"
  shows "sorted_wrt (<) (map task_TaskID (ListByOwner ts owner))
    \<and> set (ListByOwner ts owner) =
        {t. \<exists>tid. Get ts tid = Inr t \<and> (owner = [] \<or> ownerOf ts tid = [] \<or> ownerOf ts tid = owner)}"
proof
  let ?vis = "filter (\<lambda>it. \<not> (owner \<noteq> [] \<and> it_ownerID it \<noteq> [] \<and> it_ownerID it \<noteq> owner)) (mvals (ts_tasks ts))"
  have "distinct (map task_TaskID (map it_task (mvals (ts_tasks ts))))"
    using assms by (simp only: list_order_eq) (simp add: wf_tasks_def wf_map_def)
  then have "distinct (map (task_TaskID \<circ> it_task) ?vis)" by (simp add: distinct_map_filter)
  then have "distinct (map task_TaskID (ListByOwner ts owner))"
    by (simp add: ListByOwner_def distinct_map inj_on_def) blast
  then show "sorted_wrt (<) (map task_TaskID (ListByOwner ts owner))"
    by (simp add: strict_sorted_iff ListByOwner_def)
  have wf: "wf_map (ts_tasks ts)" using assms by (simp add: wf_tasks_def)
  show "set (ListByOwner ts owner) =
        {t. \<exists>tid. Get ts tid = Inr t \<and> (owner = [] \<or> ownerOf ts tid = [] \<or> ownerOf ts tid = owner)}"
    (is "_ = {t. ?visible t}")
  proof (rule set_eqI)
    fix t
    have "t \<in> set (ListByOwner ts owner) \<longleftrightarrow>
       (\<exists>tid it. mget (ts_tasks ts) tid = Some it \<and> it_task it = t
          \<and> (owner = [] \<or> it_ownerID it = [] \<or> it_ownerID it = owner))"
      using wf by (auto simp: ListByOwner_def mvals_mem mget_Some_iff)
    also have "\<dots> \<longleftrightarrow> ?visible t"
      by (rule ex_cong1) (auto simp: Get_Inr ownerOf_def)
    finally show "t \<in> set (ListByOwner ts owner) \<longleftrightarrow> t \<in> {t. ?visible t}" by simp
  qed
qed

theorem list_by_owner_exact_witness:
  "wf_tasks demo_store \<and> sorted_wrt (<) (map task_TaskID (ListByOwner demo_store ''s1''))"
proof -
  have "wf_tasks demo_store" by (simp add: demo_store_def Submit_def wf_Submit)
  then show ?thesis using list_by_owner_exact [of demo_store "''s1''"] by simp
qed

end
