(* ===== verification/Server.thy ===== *)
theory Server
  imports Session_Tools Task_Store
begin

text \<open>
  The \<open>Server\<close> of \<open>server.go\<close> with its operations apart from the registries: calling tools,
  reading resources and getting prompts, the tracking of in-flight requests, subscriptions, the
  session-tool methods of \<open>session_tools.go\<close>, custom notification handlers
  (\<open>notification_handler.go\<close>), logging (\<open>logging.go\<close>) and progress (\<open>progress.go\<close>). User code is
  called with the context and the state of its world; the tenant's filter, which the source keeps
  in the context under a private key, is an argument of its own.
\<close>

section \<open>State\<close>

type_synonym 'w AuthChecker = "'w ctx \<Rightarrow> 'w \<Rightarrow> unit hres \<times> 'w"
type_synonym 'w TenantResolver = "'w ctx \<Rightarrow> 'w \<Rightarrow> 'w ItemFilter option hres \<times> 'w"
type_synonym 'w LogHandler = "'w ctx \<Rightarrow> string \<Rightarrow> 'w \<Rightarrow> unit hres \<times> 'w"
type_synonym 'w NotificationHandlerFunc = "'w ctx \<Rightarrow> json option \<Rightarrow> 'w \<Rightarrow> unit hres \<times> 'w"

record ClientCaps =
  cc_Sampling :: bool
  cc_Elicitation :: bool

record ServerInfo =
  si_Name :: string
  si_Version :: string
  si_Title :: string
  si_Description :: string
  si_WebsiteURL :: string
  si_Instructions :: string

text \<open>
  A cancel function is represented by the number of the in-flight request whose context it
  cancels.
\<close>

record 'w Server = "'w registries" +
  s_info :: ServerInfo
  s_initialized :: bool
  s_enableSubs :: bool
  s_supportedVersions :: "string list"
  s_negotiatedVersion :: string
  s_taskStore :: "TaskStore option"
  s_middleware :: "'w Middleware list"
  s_requests :: "(string, nat) gomap"
  s_subscriptions :: "(string \<times> string, 'w NotificationSender) gomap"
  s_sessionTools :: "'w sessionToolRegistry"
  s_sessionToolShadowCB :: "(string \<Rightarrow> string \<Rightarrow> 'w \<Rightarrow> 'w) option"
  s_notificationHandlers :: "(string, 'w NotificationHandlerFunc list) gomap"
  s_maxNotifMethods :: int
  s_maxHandlersPerMethod :: int
  s_notifPanicHandler :: "(string \<Rightarrow> string \<Rightarrow> 'w \<Rightarrow> 'w) option"
  s_logHandler :: "'w LogHandler option"
  s_authChecker :: "'w AuthChecker option"
  s_tenantResolver :: "'w TenantResolver option"
  s_clientCaps :: ClientCaps

definition errNotInitialized :: goerr where "errNotInitialized = Sentinel ''server not initialized''"
definition errAlreadyInitialized :: goerr where "errAlreadyInitialized = Sentinel ''server already initialized''"
definition errSubscriptionsDisabled :: goerr where
  "errSubscriptionsDisabled = Sentinel ''resource subscriptions are not enabled; use WithResourceSubscriptions()''"
definition errNoNotificationSender :: goerr where
  "errNoNotificationSender = Sentinel ''no notification sender available''"

definition ProtocolVersion :: string where "ProtocolVersion = ''2025-11-25''"

definition defaultSupportedVersions :: "string list" where
  "defaultSupportedVersions = [''2025-11-25'', ''2025-06-18'', ''2025-03-26'', ''2024-11-05'']"

definition NewServer :: "string \<Rightarrow> string \<Rightarrow> ('w Server \<Rightarrow> 'w Server) list \<Rightarrow> 'w Server" where
  "NewServer name version opts = fold (\<lambda>opt s. opt s) opts
     \<lparr> s_tools = [], s_resources = [], s_templates = [], s_sortedTemplates = None,
       s_sortedTools = None, s_sortedResources = None, s_sortedPrompts = None, s_roots = [],
       s_prompts = [], s_senders = [],
       s_info = \<lparr> si_Name = name, si_Version = version, si_Title = [], si_Description = [],
                  si_WebsiteURL = [], si_Instructions = [] \<rparr>,
       s_initialized = False, s_enableSubs = False,
       s_supportedVersions = defaultSupportedVersions, s_negotiatedVersion = [],
       s_taskStore = None, s_middleware = [], s_requests = [], s_subscriptions = [],
       s_sessionTools = newSessionToolRegistry, s_sessionToolShadowCB = None,
       s_notificationHandlers = [], s_maxNotifMethods = 0, s_maxHandlersPerMethod = 0,
       s_notifPanicHandler = None, s_logHandler = None, s_authChecker = None,
       s_tenantResolver = None, s_clientCaps = \<lparr> cc_Sampling = False, cc_Elicitation = False \<rparr> \<rparr>"

text \<open>Server options that only set a field; the others of \<open>server.go\<close> check their argument.\<close>

definition WithResourceSubscriptions :: "'w Server \<Rightarrow> 'w Server" where
  "WithResourceSubscriptions s = s \<lparr> s_enableSubs := True \<rparr>"

definition WithTaskStore :: "TaskStore \<Rightarrow> 'w Server \<Rightarrow> 'w Server" where
  "WithTaskStore ts s = s \<lparr> s_taskStore := Some ts \<rparr>"

fun descending :: "string list \<Rightarrow> bool" where
  "descending (a # b # vs) \<longleftrightarrow> \<not> a < b \<and> descending (b # vs)"
| "descending _ \<longleftrightarrow> True"

text \<open>\<open>WithSupportedVersions\<close> panics on an empty or ascending list before it yields an option.\<close>

definition WithSupportedVersions :: "string list \<Rightarrow> ('w Server \<Rightarrow> 'w Server) hres" where
  "WithSupportedVersions versions =
     (if versions = [] then Panic ''finemcp: WithSupportedVersions requires at least one version''
      else if \<not> descending versions
        then Panic ''finemcp: WithSupportedVersions requires descending order (latest first)''
      else Ret (\<lambda>s. s \<lparr> s_supportedVersions := versions \<rparr>))"

definition SetAuthChecker :: "'w AuthChecker option \<Rightarrow> 'w Server \<Rightarrow> 'w Server" where
  "SetAuthChecker checker s = s \<lparr> s_authChecker := checker \<rparr>"

definition SetTenantResolver :: "'w TenantResolver option \<Rightarrow> 'w Server \<Rightarrow> 'w Server" where
  "SetTenantResolver resolver s = s \<lparr> s_tenantResolver := resolver \<rparr>"

definition SetLogHandler :: "'w LogHandler option \<Rightarrow> 'w Server \<Rightarrow> 'w Server" where
  "SetLogHandler handler s = s \<lparr> s_logHandler := handler \<rparr>"

definition Use :: "'w Middleware list \<Rightarrow> 'w Server \<Rightarrow> 'w Server" where
  "Use mw s = s \<lparr> s_middleware := s_middleware s @ mw \<rparr>"

section \<open>Calling tools\<close>

text \<open>The loop runs from the last middleware to the first, so the first is the outermost.\<close>

definition buildChain :: "'w Server \<Rightarrow> 'w ToolHandler \<Rightarrow> 'w ToolHandler" where
  "buildChain s h = fold (\<lambda>m h. m h) (rev (s_middleware s)) h"

text \<open>Calling a nil function panics.\<close>

definition the_handler :: "'w Tool \<Rightarrow> 'w ToolHandler" where
  "the_handler t = (case tool_Handler t of Some h \<Rightarrow> h
     | None \<Rightarrow> (\<lambda>_ _ st. (Panic ''invalid memory address or nil pointer dereference'', st)))"

definition visible_tool :: "'w Server \<Rightarrow> string \<Rightarrow> string \<Rightarrow> 'w Tool option" where
  "visible_tool s sid name =
     (case lookup (s_sessionTools s) sid name of Some t \<Rightarrow> Some t | None \<Rightarrow> mget (s_tools s) name)"

definition tool_ctx :: "'w Tool \<Rightarrow> 'w ctx \<Rightarrow> 'w ctx" where
  "tool_ctx t c =
     (let c1 = (if tool_Roles t \<noteq> [] then c \<lparr> cx_ToolRoles := Some (tool_Roles t) \<rparr> else c);
          c2 = (case tool_InputSchema t of None \<Rightarrow> c1 | Some sch \<Rightarrow> c1 \<lparr> cx_ToolSchema := Some sch \<rparr>);
          c3 = (if tool_SkipValidation t then c2 \<lparr> cx_SkipValidation := True \<rparr> else c2)
      in (case tool_Simulator t of None \<Rightarrow> c3 | Some sim \<Rightarrow> c3 \<lparr> cx_ToolSimulator := Some sim \<rparr>))"

definition CallTool ::
  "'w ctx \<Rightarrow> 'w ItemFilter option \<Rightarrow> string \<Rightarrow> bytes \<Rightarrow> 'w Server \<Rightarrow> ('w, CallToolResult) usercode" where
  "CallTool c f name input s st =
     (case visible_tool s (cx_SubscriberID c) name of
        None \<Rightarrow> (Err errToolNotFound, st)
      | Some t \<Rightarrow>
        if \<not> AllowTool f t then (Err errToolNotFound, st)
        else (case buildChain s (the_handler t) (tool_ctx t c) input st of
                (Ret out, st') \<Rightarrow> (Ret (NewTextResult out), st')
              | (Err e, st') \<Rightarrow> (Ret (NewErrorResult (Error e)), st')
              | (Panic m, st') \<Rightarrow> (Panic m, st')))"

section \<open>Request tracking\<close>

definition trackRequest :: "json option \<Rightarrow> nat \<Rightarrow> 'w Server \<Rightarrow> 'w Server" where
  "trackRequest i cancel s =
     (case normalizeRequestID i of None \<Rightarrow> s
      | Some key \<Rightarrow> s \<lparr> s_requests := mput key cancel (s_requests s) \<rparr>)"

definition untrackRequest :: "json option \<Rightarrow> 'w Server \<Rightarrow> 'w Server" where
  "untrackRequest i s =
     (case normalizeRequestID i of None \<Rightarrow> s
      | Some key \<Rightarrow> s \<lparr> s_requests := mdel key (s_requests s) \<rparr>)"

text \<open>\<open>cancelRequest\<close> yields the cancel function it calls.\<close>

definition cancelRequest :: "json option \<Rightarrow> 'w Server \<Rightarrow> nat option \<times> 'w Server" where
  "cancelRequest i s =
     (case normalizeRequestID i of None \<Rightarrow> (None, s)
      | Some key \<Rightarrow>
        (case mget (s_requests s) key of None \<Rightarrow> (None, s)
         | Some cancel \<Rightarrow> (Some cancel, s \<lparr> s_requests := mdel key (s_requests s) \<rparr>)))"

section \<open>Resources and prompts\<close>

record ReadResourceResult =
  rr_Contents :: "ResourceContent list"
  rr_Meta :: "meta option"

record GetPromptResult =
  gp_Description :: string
  gp_Messages :: "PromptMessage list"
  gp_Meta :: "meta option"

definition run_resource ::
  "'w ResourceHandler option \<Rightarrow> 'w ctx \<Rightarrow> string \<Rightarrow> ('w, ReadResourceResult) usercode" where
  "run_resource h c uri st =
     (case h of None \<Rightarrow> (Panic ''invalid memory address or nil pointer dereference'', st)
      | Some h \<Rightarrow>
        (case h c uri st of
           (Ret contents, st') \<Rightarrow> (Ret \<lparr> rr_Contents = contents, rr_Meta = None \<rparr>, st')
         | (Err e, st') \<Rightarrow> (Err e, st')
         | (Panic m, st') \<Rightarrow> (Panic m, st')))"

definition ReadResource ::
  "'w ctx \<Rightarrow> 'w ItemFilter option \<Rightarrow> string \<Rightarrow> 'w Server \<Rightarrow> 'w hstate
   \<Rightarrow> ReadResourceResult hres \<times> 'w Server \<times> 'w hstate" where
  "ReadResource c f uri s st =
     (case mget (s_resources s) uri of
        Some r \<Rightarrow>
          if \<not> AllowResource f r then (Err errResourceNotFound, s, st)
          else (case run_resource (res_Handler r) c uri st of (x, st') \<Rightarrow> (x, s, st'))
      | None \<Rightarrow>
        (case findTemplateForURI uri s of
           (None, s') \<Rightarrow> (Err errResourceNotFound, s', st)
         | (Some t, s') \<Rightarrow>
             if \<not> AllowResourceTemplate f t then (Err errResourceNotFound, s', st)
             else (case run_resource (rt_Handler t) c uri st of (x, st') \<Rightarrow> (x, s', st'))))"

definition maxPromptMessages :: nat where "maxPromptMessages = 1000"

definition GetPrompt ::
  "'w ctx \<Rightarrow> 'w ItemFilter option \<Rightarrow> string \<Rightarrow> (string, string) gomap option \<Rightarrow> 'w Server
   \<Rightarrow> ('w, GetPromptResult) usercode" where
  "GetPrompt c f name args s st =
     (case mget (s_prompts s) name of None \<Rightarrow> (Err errPromptNotFound, st)
      | Some p \<Rightarrow>
        if \<not> AllowPrompt f p then (Err errPromptNotFound, st)
        else (case pr_Handler p of
            None \<Rightarrow> (Panic ''invalid memory address or nil pointer dereference'', st)
          | Some h \<Rightarrow>
            (case h c args st of
               (Err e, st') \<Rightarrow> (Err e, st')
             | (Panic m, st') \<Rightarrow> (Panic m, st')
             | (Ret messages, st') \<Rightarrow>
                 if length messages > maxPromptMessages
                 then (Err (ErrNew (''prompt returned too many messages (max '' @ Itoa (int maxPromptMessages) @ '')'')), st')
                 else (Ret \<lparr> gp_Description = pr_Description p, gp_Messages = messages, gp_Meta = None \<rparr>, st'))))"

section \<open>Subscriptions\<close>

definition Subscribe ::
  "string \<Rightarrow> string \<Rightarrow> 'w NotificationSender option \<Rightarrow> 'w Server \<Rightarrow> goerr option \<times> 'w Server" where
  "Subscribe sub uri sender s =
     (if \<not> s_enableSubs s then (Some errSubscriptionsDisabled, s)
      else if sub = [] then (Some (ErrNew ''finemcp: Subscribe requires a non-empty subscriberID''), s)
      else case sender of None \<Rightarrow> (Some (ErrNew ''finemcp: Subscribe requires a non-nil sender''), s)
      | Some f \<Rightarrow>
        if uri = [] then (Some errResourceURIEmpty, s)
        else (None, s \<lparr> s_subscriptions := mput (sub, uri) f (s_subscriptions s) \<rparr>))"

definition Unsubscribe :: "string \<Rightarrow> string \<Rightarrow> 'w Server \<Rightarrow> 'w Server" where
  "Unsubscribe sub uri s =
     (if sub = [] then s else s \<lparr> s_subscriptions := mdel (sub, uri) (s_subscriptions s) \<rparr>)"

definition UnsubscribeAll :: "string \<Rightarrow> 'w Server \<Rightarrow> 'w Server" where
  "UnsubscribeAll sub s =
     (if sub = [] then s
      else s \<lparr> s_subscriptions := filter (\<lambda>(k, _). fst k \<noteq> sub) (s_subscriptions s) \<rparr>)"

definition resource_updated :: "string \<Rightarrow> JSONRPCNotification" where
  "resource_updated uri = \<lparr> ntf_JSONRPC = jsonrpcVersion,
     ntf_Method = ''notifications/resources/updated'', ntf_Params = ResourceUpdatedParams uri \<rparr>"

definition NotifyResourceUpdated :: "string \<Rightarrow> 'w Server \<Rightarrow> 'w \<Rightarrow> 'w" where
  "NotifyResourceUpdated uri s w =
     fold (\<lambda>sender w. sender (resource_updated uri) w)
       (map snd (filter (\<lambda>(k, _). snd k = uri) (s_subscriptions s))) w"

section \<open>Session tools\<close>

definition notifySessionToolsChanged :: "string \<Rightarrow> 'w Server \<Rightarrow> 'w \<Rightarrow> 'w" where
  "notifySessionToolsChanged sid s w =
     (if sid = [] then w
      else case mget (s_senders s) sid of None \<Rightarrow> w
           | Some sender \<Rightarrow> sender (list_changed methodToolsListChanged) w)"

definition tenant_allows ::
  "'w ctx \<Rightarrow> 'w ItemFilter option \<Rightarrow> 'w Tool \<Rightarrow> 'w Server \<Rightarrow> 'w \<Rightarrow> bool hres \<times> 'w" where
  "tenant_allows c f t s w =
     (case f of
        Some _ \<Rightarrow> (Ret (AllowTool f t), w)
      | None \<Rightarrow>
        (case s_tenantResolver s of None \<Rightarrow> (Ret True, w)
         | Some resolver \<Rightarrow>
           (case resolver c w of
              (Err e, w') \<Rightarrow> (Ret False, w')
            | (Panic m, w') \<Rightarrow> (Panic m, w')
            | (Ret g, w') \<Rightarrow> (Ret (g = None \<or> AllowTool g t), w'))))"

definition AddSessionTool ::
  "'w ctx \<Rightarrow> 'w ItemFilter option \<Rightarrow> string \<Rightarrow> 'w Tool option \<Rightarrow> 'w Server \<Rightarrow> 'w
   \<Rightarrow> unit hres \<times> 'w Server \<times> 'w" where
  "AddSessionTool c f sid tool s w =
     (case tool of None \<Rightarrow> (Err errSessionToolNil, s, w)
      | Some t \<Rightarrow>
        if tool_Handler t = None then (Err errSessionToolNoHandler, s, w)
        else case validateToolName (tool_Name t) of Some e \<Rightarrow> (Err e, s, w)
        | None \<Rightarrow>
          if sid = [] then (Err errSessionIDEmpty, s, w)
          else if isClosed (s_sessionTools s) sid then (Err errSessionClosed, s, w)
          else case cx_Done c of Some e \<Rightarrow> (Err e, s, w)
          | None \<Rightarrow>
            (case tenant_allows c f t s w of
               (Panic m, w1) \<Rightarrow> (Panic m, s, w1)
             | (Err e, w1) \<Rightarrow> (Err e, s, w1)
             | (Ret False, w1) \<Rightarrow> (Err errSessionToolDenied, s, w1)
             | (Ret True, w1) \<Rightarrow>
                 (case add sid (Some t) (s_sessionTools s) of
                    (Some e, r) \<Rightarrow> (Err e, s \<lparr> s_sessionTools := r \<rparr>, w1)
                  | (None, r) \<Rightarrow>
                    let s' = s \<lparr> s_sessionTools := r \<rparr>;
                        w2 = (case s_sessionToolShadowCB s' of None \<Rightarrow> w1
                              | Some cb \<Rightarrow> if mget (s_tools s') (tool_Name t) \<noteq> None
                                           then cb sid (tool_Name t) w1 else w1)
                    in (Ret (), s', notifySessionToolsChanged sid s' w2))))"

definition RemoveSessionTool ::
  "string \<Rightarrow> string \<Rightarrow> 'w Server \<Rightarrow> 'w \<Rightarrow> goerr option \<times> 'w Server \<times> 'w" where
  "RemoveSessionTool sid name s w =
     (case remove sid name (s_sessionTools s) of
        (Some e, r) \<Rightarrow> (Some e, s \<lparr> s_sessionTools := r \<rparr>, w)
      | (None, r) \<Rightarrow> let s' = s \<lparr> s_sessionTools := r \<rparr>
                     in (None, s', notifySessionToolsChanged sid s' w))"

definition RemoveSessionTools :: "string \<Rightarrow> 'w Server \<Rightarrow> 'w Server" where
  "RemoveSessionTools sid s = s \<lparr> s_sessionTools := removeAll sid (s_sessionTools s) \<rparr>"

definition SessionTools :: "string \<Rightarrow> 'w Server \<Rightarrow> 'w Tool list option \<times> 'w Server" where
  "SessionTools sid s =
     (case sortedTools sid (s_sessionTools s) of (ts, r) \<Rightarrow> (ts, s \<lparr> s_sessionTools := r \<rparr>))"

definition OnSessionToolShadow :: "(string \<Rightarrow> string \<Rightarrow> 'w \<Rightarrow> 'w) option \<Rightarrow> 'w Server \<Rightarrow> 'w Server" where
  "OnSessionToolShadow cb s = s \<lparr> s_sessionToolShadowCB := cb \<rparr>"

section \<open>Notification handlers, logging, progress\<close>

definition DefaultMaxNotificationMethods :: int where "DefaultMaxNotificationMethods = 1000"
definition DefaultMaxHandlersPerMethod :: int where "DefaultMaxHandlersPerMethod = 100"

definition OnNotification ::
  "string \<Rightarrow> 'w NotificationHandlerFunc option \<Rightarrow> 'w Server \<Rightarrow> unit hres \<times> 'w Server" where
  "OnNotification m handler s =
     (if m = [] then (Panic ''finemcp: OnNotification requires a non-empty method'', s)
      else if length m > maxNotifMethodNameLength then (Panic ''finemcp: notification method name too long'', s)
      else if \<not> isValidNotifMethodName m then (Panic ''finemcp: invalid notification method name'', s)
      else case handler of None \<Rightarrow> (Panic ''finemcp: OnNotification requires a non-nil handler'', s)
      | Some h \<Rightarrow>
        let maxMethods = (if s_maxNotifMethods s \<le> 0 then DefaultMaxNotificationMethods else s_maxNotifMethods s);
            maxPerMethod = (if s_maxHandlersPerMethod s \<le> 0 then DefaultMaxHandlersPerMethod else s_maxHandlersPerMethod s);
            hs = (case mget (s_notificationHandlers s) m of None \<Rightarrow> [] | Some hs \<Rightarrow> hs)
        in if mget (s_notificationHandlers s) m = None \<and> int (length (s_notificationHandlers s)) \<ge> maxMethods
           then (Panic ''finemcp: notification method limit exceeded'', s)
           else if int (length hs) \<ge> maxPerMethod then (Panic ''finemcp: handler limit for method exceeded'', s)
           else (Ret (), s \<lparr> s_notificationHandlers := mput m (hs @ [h]) (s_notificationHandlers s) \<rparr>))"

definition RemoveNotificationHandlers :: "string \<Rightarrow> 'w Server \<Rightarrow> nat \<times> 'w Server" where
  "RemoveNotificationHandlers m s =
     (if m = [] \<or> length m > maxNotifMethodNameLength then (0, s)
      else (case mget (s_notificationHandlers s) m of None \<Rightarrow> 0 | Some hs \<Rightarrow> length hs,
            s \<lparr> s_notificationHandlers := mdel m (s_notificationHandlers s) \<rparr>))"

definition NotificationStats :: "'w Server \<Rightarrow> (string, nat) gomap" where
  "NotificationStats s = map (\<lambda>(m, hs). (m, length hs)) (s_notificationHandlers s)"

definition SendLogMessage ::
  "'w ctx \<Rightarrow> string \<Rightarrow> string \<Rightarrow> json \<Rightarrow> 'w Server \<Rightarrow> 'w \<Rightarrow> goerr option \<times> 'w" where
  "SendLogMessage c level logger data s w =
     (if \<not> s_initialized s then (Some errNotInitialized, w)
      else case cx_Sender c of None \<Rightarrow> (Some errNoNotificationSender, w)
      | Some sender \<Rightarrow> (None, sender \<lparr> ntf_JSONRPC = jsonrpcVersion,
          ntf_Method = ''notifications/message'', ntf_Params = LogMessageParams level logger data \<rparr> w))"

definition newProgressNotification :: "json option \<Rightarrow> json \<Rightarrow> json \<Rightarrow> JSONRPCNotification" where
  "newProgressNotification token progress tot = \<lparr> ntf_JSONRPC = jsonrpcVersion,
     ntf_Method = ''notifications/progress'', ntf_Params = ProgressParams token progress tot \<rparr>"

text \<open>The progress reporter of a context is the closure over its token and its sender.\<close>

definition ReportProgress :: "'w ctx \<Rightarrow> json \<Rightarrow> json \<Rightarrow> 'w \<Rightarrow> 'w" where
  "ReportProgress c progress tot w =
     (case (cx_ProgressToken c, cx_Sender c) of
        (Some token, Some sender) \<Rightarrow> sender (newProgressNotification token progress tot) w
      | _ \<Rightarrow> w)"

end
