(* ===== verification/Pagination.thy ===== *)
theory Pagination
  imports Mcp_Prelude
begin

text \<open>
  Cursor-based pagination, both ends: \<open>paginateSlice\<close> of \<open>dispatch.go\<close> cuts a window out of a
  list, and the iterators of \<open>client/pagination.go\<close> fetch page after page. The five iterators
  (tools, resources, prompts, roots, tasks) are the same code at different types, so they are
  modelled by one polymorphic iterator. The call to the server is a parameter of the iterator.
\<close>

section \<open>Server side\<close>

record ListParams =
  lp_Cursor :: string
  lp_Limit :: int

definition paginateSlice :: "'a list \<Rightarrow> string \<Rightarrow> int \<Rightarrow> goerr + 'a list \<times> string" where
  "paginateSlice items cursor limit =
     (case (if cursor = [] then Inr 0
            else case Atoi cursor of None \<Rightarrow> Inl (ErrNew ''invalid cursor'')
                 | Some idx \<Rightarrow> if idx < 0 then Inl (ErrNew ''invalid cursor'')
                               else if idx > int (length items) then Inl (ErrNew ''cursor out of range'')
                               else Inr (nat idx)) of
        Inl e \<Rightarrow> Inl e
      | Inr start \<Rightarrow>
        if start \<ge> length items then Inr ([], [])
        else
          let limit1 = (if limit \<le> 0 then 50 else limit);
              limit2 = (if limit1 > 1000 then 1000 else limit1);
              end1 = start + nat limit2;
              end2 = (if end1 > length items then length items else end1);
              page = take (end2 - start) (drop start items)
          in if end2 = length items then Inr (page, []) else Inr (page, Itoa (int end2)))"

text \<open>The window that \<open>handlePaginatedList\<close> serves: without cursor and limit it is the full list.\<close>

definition list_window :: "'a list \<Rightarrow> ListParams \<Rightarrow> goerr + 'a list \<times> string" where
  "list_window items p =
     (if lp_Cursor p = [] \<and> lp_Limit p = 0 then Inr (items, [])
      else paginateSlice items (lp_Cursor p) (lp_Limit p))"

section \<open>Client side\<close>

record IteratorOptions =
  io_MaxPages :: int
  io_MaxItems :: int

definition DefaultIteratorOptions :: IteratorOptions where
  "DefaultIteratorOptions = \<lparr> io_MaxPages = 1000, io_MaxItems = 100000 \<rparr>"

record 'a iterator =
  it_params :: ListParams
  it_buffer :: "'a list"
  it_index :: nat
  it_cursor :: string
  it_done :: bool
  it_err :: "goerr option"
  it_maxPages :: int
  it_maxItems :: int
  it_pageCount :: int

definition iterate :: "ListParams \<Rightarrow> IteratorOptions option \<Rightarrow> 'a iterator" where
  "iterate params opts =
     (let o' = (case opts of None \<Rightarrow> DefaultIteratorOptions | Some x \<Rightarrow> x)
      in \<lparr> it_params = params, it_buffer = [], it_index = 0, it_cursor = [], it_done = False,
           it_err = None, it_maxPages = io_MaxPages o', it_maxItems = io_MaxItems o', it_pageCount = 0 \<rparr>)"

datatype 'a next_res = Item 'a | EOF | NextErr goerr

text \<open>The list call: parameters and client state to an error or a page with its next cursor.\<close>

type_synonym ('a, 's) list_call = "ListParams \<Rightarrow> 's \<Rightarrow> (goerr + 'a list \<times> string) \<times> 's"

definition page_limit_error :: "int \<Rightarrow> goerr" where
  "page_limit_error n = ErrNew (''pagination: max pages limit reached ('' @ Itoa n @ '')'')"

definition item_limit_error :: "int \<Rightarrow> goerr" where
  "item_limit_error n = ErrNew (''pagination: max items limit reached ('' @ Itoa n @ '')'')"

definition iter_Next :: "('a, 's) list_call \<Rightarrow> 'a iterator \<Rightarrow> 's \<Rightarrow> 'a next_res \<times> 'a iterator \<times> 's" where
  "iter_Next fetch i s =
     (case it_err i of Some e \<Rightarrow> (NextErr e, i, s)
      | None \<Rightarrow>
        if it_index i < length (it_buffer i)
        then (Item (it_buffer i ! it_index i), i \<lparr> it_index := it_index i + 1 \<rparr>, s)
        else if it_done i then (EOF, i, s)
        else if it_maxPages i > 0 \<and> it_pageCount i \<ge> it_maxPages i
          then (NextErr (page_limit_error (it_maxPages i)),
                i \<lparr> it_err := Some (page_limit_error (it_maxPages i)) \<rparr>, s)
        else
          let params = (if it_cursor i \<noteq> [] then (it_params i) \<lparr> lp_Cursor := it_cursor i \<rparr> else it_params i);
              i1 = i \<lparr> it_params := params \<rparr>
          in case fetch params s of
               (Inl e, s') \<Rightarrow> (NextErr e, i1 \<lparr> it_err := Some e \<rparr>, s')
             | (Inr (page, next), s') \<Rightarrow>
                 let i2 = i1 \<lparr> it_buffer := page, it_index := 0, it_cursor := next,
                               it_pageCount := it_pageCount i1 + 1,
                               it_done := it_done i1 \<or> next = [] \<or> page = [] \<rparr>
                 in if page = [] then (EOF, i2, s')
                    else (Item (page ! 0), i2 \<lparr> it_index := 1 \<rparr>, s'))"

definition iter_HasMore :: "'a iterator \<Rightarrow> bool" where
  "iter_HasMore i \<longleftrightarrow> \<not> it_done i \<or> it_index i < length (it_buffer i)"

text \<open>\<open>All\<close> ends at \<open>io.EOF\<close>, also when a list call returned it. It may run forever against a server that always returns another page; then it is \<open>None\<close>.\<close>

partial_function (option) iter_All_loop ::
  "('a, 's) list_call \<Rightarrow> 'a list \<Rightarrow> 'a iterator \<Rightarrow> 's \<Rightarrow> ('a list \<times> goerr option \<times> 'a iterator \<times> 's) option" where
  "iter_All_loop fetch acc i s =
     (if it_maxItems i > 0 \<and> int (length acc) \<ge> it_maxItems i
      then Some (acc, Some (item_limit_error (it_maxItems i)), i, s)
      else case iter_Next fetch i s of
          (EOF, i', s') \<Rightarrow> Some (acc, None, i', s')
        | (NextErr e, i', s') \<Rightarrow> Some (acc, if e = ioEOF then None else Some e, i', s')
        | (Item x, i', s') \<Rightarrow> iter_All_loop fetch (acc @ [x]) i' s')"

definition iter_All ::
  "('a, 's) list_call \<Rightarrow> 'a iterator \<Rightarrow> 's \<Rightarrow> ('a list \<times> goerr option \<times> 'a iterator \<times> 's) option" where
  "iter_All fetch i s = iter_All_loop fetch [] i s"

section \<open>Windows\<close>

definition page_size :: "int \<Rightarrow> nat" where
  "page_size limit = (if limit \<le> 0 then 50 else if limit > 1000 then 1000 else nat limit)"

lemma page_size_bounds: "0 < page_size l" "page_size l \<le> 1000"
  by (auto simp: page_size_def)

definition window_at :: "'a list \<Rightarrow> nat \<Rightarrow> nat \<Rightarrow> 'a list \<times> string" where
  "window_at items n p =
     (take n (drop p items), if p + n \<ge> length items then [] else Itoa (int (p + n)))"

lemma paginate_start:
  "items \<noteq> [] \<Longrightarrow> paginateSlice items [] limit = Inr (window_at items (page_size limit) 0)"
  by (auto simp: paginateSlice_def window_at_def page_size_def Let_def)

lemma paginate_at:
  assumes "p < length items" "int p \<le> max_int"
  shows "paginateSlice items (Itoa (int p)) limit = Inr (window_at items (page_size limit) p)"
proof -
  have "min_int \<le> int p" by (simp add: min_int_def)
  then have "Atoi (Itoa (int p)) = Some (int p)" using assms by (simp add: Atoi_Itoa)
  with assms show ?thesis
    by (auto simp: paginateSlice_def window_at_def page_size_def Let_def)
qed

section \<open>Iterating over the windows of a list\<close>

definition serve :: "'a list \<Rightarrow> ('a, 's) list_call" where
  "serve items p s = (list_window items p, s)"

text \<open>
  The iterator between two pages of size \<open>n\<close>: the buffer ends at position \<open>p\<close> of the list, all
  pages so far were full, and the page limit does not fall short of the list.
\<close>

definition at_position :: "'a list \<Rightarrow> nat \<Rightarrow> 'a iterator \<Rightarrow> nat \<Rightarrow> bool" where
  "at_position items n i p \<longleftrightarrow> it_err i = None \<and> n = page_size (lp_Limit (it_params i))
     \<and> p \<le> length items \<and> it_cursor i = (if p = length items then [] else Itoa (int p))
     \<and> (it_done i \<longleftrightarrow> p = length items)
     \<and> (p < length items \<longrightarrow> int p = it_pageCount i * int n)
     \<and> (it_maxPages i \<le> 0 \<or> int (length items) \<le> it_maxPages i * int n)"

lemma Next_buffered:
  "it_err i = None \<Longrightarrow> it_index i < length (it_buffer i) \<Longrightarrow>
   iter_Next fetch i s = (Item (it_buffer i ! it_index i), i \<lparr> it_index := it_index i + 1 \<rparr>, s)"
  by (simp add: iter_Next_def)

lemma Next_done:
  "it_err i = None \<Longrightarrow> \<not> it_index i < length (it_buffer i) \<Longrightarrow> it_done i \<Longrightarrow> iter_Next fetch i s = (EOF, i, s)"
  by (simp add: iter_Next_def)

lemma page_limit_not_reached:
  assumes "at_position items n i p" "p < length items"
  shows "\<not> (it_maxPages i > 0 \<and> it_pageCount i \<ge> it_maxPages i)"
proof
  assume lim: "it_maxPages i > 0 \<and> it_pageCount i \<ge> it_maxPages i"
  then have "it_maxPages i * int n \<le> it_pageCount i * int n" by (simp add: mult_right_mono)
  with assms lim show False by (auto simp: at_position_def)
qed

lemma Next_page:
  assumes inv: "at_position items n i p" and more: "p < length items" "\<not> it_index i < length (it_buffer i)"
    and small: "int (length items) \<le> max_int"
  shows "\<exists>i'. iter_Next (serve items) i s = (Item (items ! p), i', s)
     \<and> at_position items n i' (min (p + n) (length items)) \<and> it_index i' = 1
     \<and> it_buffer i' = take n (drop p items) \<and> it_maxItems i' = it_maxItems i"
proof -
  have n: "n = page_size (lp_Limit (it_params i))" and cur: "it_cursor i = Itoa (int p)"
    and cnt: "int p = it_pageCount i * int n"
    using inv more by (auto simp: at_position_def)
  have pos: "0 < n" using n page_size_bounds by simp
  have "list_window items ((it_params i) \<lparr> lp_Cursor := Itoa (int p) \<rparr>) = Inr (window_at items n p)"
    using paginate_at [of p items] more small n by (simp add: list_window_def)
  moreover have "take n (drop p items) \<noteq> []" "take n (drop p items) ! 0 = items ! p"
    using more pos by auto
  ultimately have "iter_Next (serve items) i s = (Item (items ! p),
      i \<lparr> it_params := (it_params i) \<lparr> lp_Cursor := Itoa (int p) \<rparr>, it_buffer := take n (drop p items),
          it_index := 1, it_cursor := snd (window_at items n p), it_pageCount := it_pageCount i + 1,
          it_done := snd (window_at items n p) = [] \<rparr>, s)" (is "_ = (_, ?i', _)")
    using inv more page_limit_not_reached [OF inv more(1)] cur
    by (auto simp: iter_Next_def serve_def at_position_def window_at_def Let_def)
  moreover have "at_position items n ?i' (min (p + n) (length items))"
    using inv n cnt by (auto simp: at_position_def window_at_def algebra_simps)
  ultimately show ?thesis by auto
qed

lemma All_from_position:
  assumes "at_position items n i p" "it_index i \<le> length (it_buffer i)"
    and small: "int (length items) \<le> max_int"
    and "it_maxItems i \<le> 0
      \<or> int (length acc + length (drop (it_index i) (it_buffer i) @ drop p items)) < it_maxItems i"
  shows "\<exists>i'. iter_All_loop (serve items) acc i s =
     Some (acc @ drop (it_index i) (it_buffer i) @ drop p items, None, i', s)"
  using assms(1,2,4)
proof (induction "length (drop (it_index i) (it_buffer i) @ drop p items)" arbitrary: acc i p)
  case 0
  then have "\<not> it_index i < length (it_buffer i)" "it_done i" "it_err i = None" by (auto simp: at_position_def)
  then have "iter_All_loop (serve items) acc i s = Some (acc, None, i, s)"
    using 0 by (subst iter_All_loop.simps) (auto simp: Next_done)
  with 0 show ?case by auto
next
  case (Suc k)
  have lim: "\<not> (it_maxItems i > 0 \<and> int (length acc) \<ge> it_maxItems i)" using Suc.prems(3) by auto
  show ?case
  proof (cases "it_index i < length (it_buffer i)")
    case True
    let ?i = "i \<lparr> it_index := it_index i + 1 \<rparr>" and ?x = "it_buffer i ! it_index i"
    have d: "drop (it_index i) (it_buffer i) = ?x # drop (it_index ?i) (it_buffer ?i)"
      using True by (simp add: Cons_nth_drop_Suc)
    have err: "it_err i = None" using Suc.prems by (simp add: at_position_def)
    have "at_position items n ?i p" using Suc.prems(1) by (auto simp: at_position_def)
    with Suc.hyps(1) [of ?i p "acc @ [?x]"] Suc.hyps(2) Suc.prems True d
    obtain i' where "iter_All_loop (serve items) (acc @ [?x]) ?i s =
        Some ((acc @ [?x]) @ drop (it_index ?i) (it_buffer ?i) @ drop p items, None, i', s)" by auto
    then show ?thesis
      using lim d by (subst iter_All_loop.simps) (auto simp: Next_buffered [OF err True])
  next
    case False
    with Suc.hyps(2) have p: "p < length items" by simp
    obtain i' where i': "iter_Next (serve items) i s = (Item (items ! p), i', s)"
      "at_position items n i' (min (p + n) (length items))" "it_index i' = 1"
      "it_buffer i' = take n (drop p items)" "it_maxItems i' = it_maxItems i"
      using Next_page [OF Suc.prems(1) p False small, of s] by (elim exE conjE) (rule that)
    have n: "0 < n" using Suc.prems(1) page_size_bounds by (auto simp: at_position_def)
    have split: "drop p items = items ! p # drop 1 (take n (drop p items)) @ drop (min (p + n) (length items)) items"
    proof -
      have "drop p items = take n (drop p items) @ drop (p + n) items" by (metis append_take_drop_id drop_drop add.commute)
      moreover have "take n (drop p items) = items ! p # drop 1 (take n (drop p items))"
        using n p by (simp add: Cons_nth_drop_Suc [symmetric] take_Cons')
      moreover have "drop (min (p + n) (length items)) items = drop (p + n) items" by (simp add: min_def)
      ultimately show ?thesis by (metis append_Cons)
    qed
    have rest: "drop (it_index i) (it_buffer i) @ drop p items
        = items ! p # drop (it_index i') (it_buffer i') @ drop (min (p + n) (length items)) items"
      using split False i' by simp
    have idx: "it_index i' \<le> length (it_buffer i')" using i' n p by simp
    have len: "k = length (drop (it_index i') (it_buffer i') @ drop (min (p + n) (length items)) items)"
      using Suc.hyps(2) unfolding rest by simp
    have room: "it_maxItems i' \<le> 0 \<or> int (length (acc @ [items ! p])
        + length (drop (it_index i') (it_buffer i') @ drop (min (p + n) (length items)) items)) < it_maxItems i'"
      using Suc.prems(3) unfolding Suc.hyps(2) [symmetric] len [symmetric] i'(5) by simp
    from Suc.hyps(1) [OF len i'(2) idx room]
    obtain i'' where "iter_All_loop (serve items) (acc @ [items ! p]) i' s = Some ((acc @ [items ! p])
        @ drop (it_index i') (it_buffer i') @ drop (min (p + n) (length items)) items, None, i'', s)" by blast
    then show ?thesis using lim rest i'(1) by (subst iter_All_loop.simps) auto
  qed
qed

section \<open>Properties\<close>

lemma first_page:
  assumes "list_window items (it_params i) = Inr (page, next)" "page \<noteq> []"
    and "it_err i = None" "it_buffer i = []" "\<not> it_done i" "it_cursor i = []" "it_pageCount i = 0"
  shows "iter_Next (serve items) i s = (Item (page ! 0), i \<lparr> it_buffer := page, it_index := 1,
     it_cursor := next, it_pageCount := 1, it_done := next = [] \<rparr>, s)"
  using assms by (auto simp: iter_Next_def serve_def Let_def)

lemma All_first_page:
  assumes i: "i = (iterate \<lparr> lp_Cursor = [], lp_Limit = l \<rparr> (Some \<lparr> io_MaxPages = m, io_MaxItems = k \<rparr>) :: 'a iterator)"
    and w: "list_window items (it_params i) = Inr (window_at items n 0)" "items \<noteq> []" "0 < n"
    and n: "n = page_size l \<or> length items \<le> n"
    and lim: "m \<le> 0 \<or> int (length items) \<le> m * int (page_size l)" "k \<le> 0 \<or> int (length items) < k"
    and small: "int (length items) \<le> max_int"
  shows "\<exists>i'. iter_All (serve items) i s = Some (items, None, i', s)"
proof -
  let ?p = "min n (length items)" and ?next = "snd (window_at items n 0)"
  let ?i = "i \<lparr> it_buffer := take n items, it_index := 1, it_cursor := ?next, it_pageCount := 1, it_done := ?next = [] \<rparr>"
  have hd: "items = items ! 0 # drop 1 (take n items) @ drop ?p items"
  proof -
    have "take n items = items ! 0 # drop 1 (take n items)"
      using w by (cases items) (auto simp: take_Cons')
    moreover have "items = take n items @ drop ?p items" by (simp add: min_def)
    ultimately show ?thesis by (metis append_Cons)
  qed
  have step: "iter_Next (serve items) i s = (Item (items ! 0), ?i, s)"
    using first_page [of items i "take n items" ?next s] w i
    by (simp add: window_at_def iterate_def Let_def)
  have "at_position items (page_size l) ?i ?p"
    using n lim i w by (auto simp: at_position_def window_at_def iterate_def Let_def min_def)
  moreover have "it_index ?i \<le> length (it_buffer ?i)" using w by (cases items; cases n) auto
  moreover have "it_maxItems ?i = k" using i by (simp add: iterate_def Let_def)
  moreover have "length [items ! 0] + length (drop 1 (take n items) @ drop ?p items) = length items"
    using arg_cong [OF hd, of length] by simp
  ultimately obtain i' where "iter_All_loop (serve items) [items ! 0] ?i s =
      Some ([items ! 0] @ drop 1 (take n items) @ drop ?p items, None, i', s)"
    using All_from_position [of items "page_size l" ?i ?p "[items ! 0]" s] lim(2) small by auto
  then have "iter_All_loop (serve items) [items ! 0] ?i s = Some (items, None, i', s)" using hd by simp
  moreover have "it_maxItems i = k" using i by (simp add: iterate_def Let_def)
  ultimately show ?thesis unfolding iter_All_def using step lim(2) w(2)
    by (subst iter_All_loop.simps) auto
qed

text \<open>C17: Iterating over a list that does not change returns exactly that list, in order and
  without error, for every requested limit: the server's windows neither overlap nor leave gaps,
  every cursor it issues is accepted, and the loop ends. The hypotheses say that the page limit
  times the effective page size covers the list and that the item limit exceeds its length.\<close>

theorem pagination_round_trip:
  assumes "m \<le> 0 \<or> int (length items) \<le> m * int (page_size l)"
    and "k \<le> 0 \<or> int (length items) < k" and "int (length items) \<le> max_int"
  shows "\<exists>i'. iter_All (serve items)
      (iterate \<lparr> lp_Cursor = [], lp_Limit = l \<rparr> (Some \<lparr> io_MaxPages = m, io_MaxItems = k \<rparr>)) s
    = Some (items, None, i', s)"
proof (cases "items = []")
  case True
  let ?i = "iterate \<lparr> lp_Cursor = [], lp_Limit = l \<rparr> (Some \<lparr> io_MaxPages = m, io_MaxItems = k \<rparr>)"
  have "list_window items (it_params ?i) = Inr ([], [])"
    using True by (simp add: list_window_def iterate_def paginateSlice_def Let_def)
  then show ?thesis using True
    unfolding iter_All_def by (subst iter_All_loop.simps) (auto simp: iter_Next_def serve_def iterate_def Let_def)
next
  case False
  let ?i = "iterate \<lparr> lp_Cursor = [], lp_Limit = l \<rparr> (Some \<lparr> io_MaxPages = m, io_MaxItems = k \<rparr>)"
  show ?thesis
  proof (cases "l = 0")
    case True
    then have "list_window items (it_params ?i) = Inr (window_at items (length items) 0)"
      by (simp add: list_window_def iterate_def window_at_def Let_def)
    from All_first_page [OF refl this] False assms show ?thesis by auto
  next
    case l: False
    then have "list_window items (it_params ?i) = Inr (window_at items (page_size l) 0)"
      using False by (simp add: list_window_def iterate_def paginate_start Let_def)
    from All_first_page [OF refl this] False assms page_size_bounds(1) [of l] show ?thesis by auto
  qed
qed

theorem pagination_round_trip_witness:
  "\<exists>i'. iter_All (serve [1, 2, 3, 4, 5 :: nat])
      (iterate \<lparr> lp_Cursor = [], lp_Limit = 2 \<rparr> (Some \<lparr> io_MaxPages = 3, io_MaxItems = 6 \<rparr>)) ()
    = Some ([1, 2, 3, 4, 5], None, i', ())"
  using pagination_round_trip [of 3 "[1, 2, 3, 4, 5 :: nat]" 2 6 "()"]
  by (simp add: page_size_def max_int_def)

text \<open>A window starts at its cursor, has at most 1000 items, and together with the windows
  reached through the returned cursors covers the rest: the returned cursor is the position after
  the last item, or empty exactly when the window reaches the end. Malformed and negative cursors
  and cursors beyond the end are refused.\<close>

theorem paginate_window:
  assumes "paginateSlice items cursor limit = r"
  shows "(cursor \<noteq> [] \<and> (Atoi cursor = None \<or> (\<exists>i. Atoi cursor = Some i \<and> (i < 0 \<or> i > int (length items))))
            \<longrightarrow> (\<exists>e. r = Inl e))
    \<and> (\<forall>page next. r = Inr (page, next) \<longrightarrow>
         (let start = (if cursor = [] then 0 else nat (the (Atoi cursor)))
          in page = take (length page) (drop start items)
             \<and> length page = min (page_size limit) (length items - start) \<and> length page \<le> 1000
             \<and> (if start + length page = length items then next = []
                 else next = Itoa (int (start + length page)) \<and> page \<noteq> [])))"
proof (intro conjI impI allI)
  assume "cursor \<noteq> [] \<and> (Atoi cursor = None \<or> (\<exists>i. Atoi cursor = Some i \<and> (i < 0 \<or> i > int (length items))))"
  then show "\<exists>e. r = Inl e" using assms by (auto simp: paginateSlice_def)
next
  fix page and nxt :: string
  assume r: "r = Inr (page, nxt)"
  define start where "start = (if cursor = [] then 0 else nat (the (Atoi cursor)))"
  have le: "start \<le> length items"
    using assms r by (auto simp: start_def paginateSlice_def split: if_splits option.splits)
  have eq: "Inr (page, nxt) = (if start \<ge> length items then Inr ([], []) else
      Inr (window_at items (page_size limit) start) :: goerr + 'a list \<times> string)"
    using assms r by (auto simp: start_def paginateSlice_def window_at_def page_size_def Let_def
        split: if_splits option.splits)
  have pos: "0 < page_size limit" "page_size limit \<le> 1000" by (rule page_size_bounds)+
  show "let start = (if cursor = [] then 0 else nat (the (Atoi cursor)))
          in page = take (length page) (drop start items)
             \<and> length page = min (page_size limit) (length items - start) \<and> length page \<le> 1000
             \<and> (if start + length page = length items then nxt = []
                 else nxt = Itoa (int (start + length page)) \<and> page \<noteq> [])"
    unfolding start_def [symmetric] Let_def
    using eq le pos by (cases "start < length items") (auto simp: window_at_def min_def split: if_splits)
qed

theorem paginate_window_witness:
  "paginateSlice [1, 2, 3 :: nat] ''9'' 2 = Inl (ErrNew ''cursor out of range'')
   \<and> (\<exists>e. paginateSlice [1, 2, 3 :: nat] ''9'' 2 = Inl e)"
proof -
  have a: "Atoi ''9'' = Some 9" by (simp add: Atoi_def char_digit_def Let_def min_int_def max_int_def)
  then have "paginateSlice [1, 2, 3 :: nat] ''9'' 2 = Inl (ErrNew ''cursor out of range'')"
    by (simp add: paginateSlice_def)
  with paginate_window [of "[1, 2, 3 :: nat]" "''9''" 2] a show ?thesis by simp
qed

end
