(* ===== verification/Protocol.thy ===== *)
theory Protocol
  imports Server Pagination
begin

text \<open>
  The payloads of the protocol: the parameter types of \<open>protocol.go\<close>, \<open>completion.go\<close> and
  \<open>logging.go\<close> with the rules by which they are decoded, the results, and what the handling of
  a request takes from and gives to its surroundings.
\<close>

section \<open>Parameters\<close>

definition dmeta :: "(string \<times> json) list \<Rightarrow> meta option option" where
  "dmeta obj = field d_map None ''_meta'' obj"

definition decode_list_params :: "json \<Rightarrow> ListParams option" where
  "decode_list_params raw =
     (case as_object raw of None \<Rightarrow> None
      | Some obj \<Rightarrow>
        (case (field d_string [] ''cursor'' obj, field d_int 0 ''limit'' obj, dmeta obj) of
           (Some c, Some l, Some _) \<Rightarrow> Some \<lparr> lp_Cursor = c, lp_Limit = l \<rparr>
         | _ \<Rightarrow> None))"

record CallToolParams =
  ctp_Name :: string
  ctp_Arguments :: "json option"
  ctp_Task :: "int option option"

text \<open>\<open>*TaskMetadata\<close>: nil, or the optional TTL.\<close>

fun d_task :: "int option option \<Rightarrow> json \<Rightarrow> int option option option" where
  "d_task a (JObj kvs) = map_option Some (field d_int_ptr (case a of None \<Rightarrow> None | Some t \<Rightarrow> t) ''ttl'' kvs)"
| "d_task a JNull = Some None"
| "d_task a _ = None"

definition decode_call_params :: "json \<Rightarrow> CallToolParams option" where
  "decode_call_params raw =
     (case as_object raw of None \<Rightarrow> None
      | Some obj \<Rightarrow>
        (case (field d_string [] ''name'' obj, field d_raw None ''arguments'' obj,
               field d_task None ''task'' obj, dmeta obj) of
           (Some n, Some a, Some t, Some _) \<Rightarrow> Some \<lparr> ctp_Name = n, ctp_Arguments = a, ctp_Task = t \<rparr>
         | _ \<Rightarrow> None))"

text \<open>Parameters that consist of one string member and \<open>_meta\<close>: \<open>uri\<close> and \<open>taskId\<close>.\<close>

definition decode_string_param :: "string \<Rightarrow> json \<Rightarrow> string option" where
  "decode_string_param name raw =
     (case as_object raw of None \<Rightarrow> None
      | Some obj \<Rightarrow>
        (case (field d_string [] name obj, dmeta obj) of (Some v, Some _) \<Rightarrow> Some v | _ \<Rightarrow> None))"

definition decode_prompt_params :: "json \<Rightarrow> (string \<times> (string, string) gomap option) option" where
  "decode_prompt_params raw =
     (case as_object raw of None \<Rightarrow> None
      | Some obj \<Rightarrow>
        (case (field d_string [] ''name'' obj, field d_string_map None ''arguments'' obj, dmeta obj) of
           (Some n, Some a, Some _) \<Rightarrow> Some (n, a) | _ \<Rightarrow> None))"

fun d_ref :: "CompletionRef \<Rightarrow> json \<Rightarrow> CompletionRef option" where
  "d_ref a (JObj kvs) =
     (case (field d_string (ref_Type a) ''type'' kvs, field d_string (ref_Name a) ''name'' kvs,
            field d_string (ref_URI a) ''uri'' kvs) of
        (Some t, Some n, Some u) \<Rightarrow> Some \<lparr> ref_Type = t, ref_Name = n, ref_URI = u \<rparr> | _ \<Rightarrow> None)"
| "d_ref a JNull = Some a"
| "d_ref a _ = None"

fun d_arg :: "CompletionArgument \<Rightarrow> json \<Rightarrow> CompletionArgument option" where
  "d_arg a (JObj kvs) =
     (case (field d_string (carg_Name a) ''name'' kvs, field d_string (carg_Value a) ''value'' kvs) of
        (Some n, Some v) \<Rightarrow> Some \<lparr> carg_Name = n, carg_Value = v \<rparr> | _ \<Rightarrow> None)"
| "d_arg a JNull = Some a"
| "d_arg a _ = None"

definition decode_complete_params :: "json \<Rightarrow> (CompletionRef \<times> CompletionArgument) option" where
  "decode_complete_params raw =
     (case as_object raw of None \<Rightarrow> None
      | Some obj \<Rightarrow>
        (case (field d_ref \<lparr> ref_Type = [], ref_Name = [], ref_URI = [] \<rparr> ''ref'' obj,
               field d_arg \<lparr> carg_Name = [], carg_Value = [] \<rparr> ''argument'' obj, dmeta obj) of
           (Some r, Some a, Some _) \<Rightarrow> Some (r, a) | _ \<Rightarrow> None))"

text \<open>\<open>SetLevelParams\<close> has no \<open>_meta\<close> member.\<close>

definition decode_level :: "json \<Rightarrow> string option" where
  "decode_level raw = (case as_object raw of None \<Rightarrow> None | Some obj \<Rightarrow> field d_string [] ''level'' obj)"

definition decode_cancelled :: "json \<Rightarrow> json option option" where
  "decode_cancelled raw =
     (case as_object raw of None \<Rightarrow> None
      | Some obj \<Rightarrow>
        (case (field d_any None ''requestId'' obj, dmeta obj) of (Some i, Some _) \<Rightarrow> Some i | _ \<Rightarrow> None))"

text \<open>
  \<open>InitializeParams\<close>: the protocol version and the client's capabilities are used; the client's
  description only has to have the right types.
\<close>

fun d_flag :: "bool \<Rightarrow> json \<Rightarrow> bool option" where
  "d_flag a (JObj _) = Some True"
| "d_flag a JNull = Some False"
| "d_flag a _ = None"

fun d_caps :: "ClientCaps \<Rightarrow> json \<Rightarrow> ClientCaps option" where
  "d_caps a (JObj kvs) =
     (case (field d_flag (cc_Sampling a) ''sampling'' kvs, field d_flag (cc_Elicitation a) ''elicitation'' kvs) of
        (Some x, Some y) \<Rightarrow> Some \<lparr> cc_Sampling = x, cc_Elicitation = y \<rparr> | _ \<Rightarrow> None)"
| "d_caps a JNull = Some a"
| "d_caps a _ = None"

fun is_string :: "json \<Rightarrow> bool" where
  "is_string (JStr _) = True" | "is_string JNull = True" | "is_string _ = False"

fun is_string_array :: "json \<Rightarrow> bool" where
  "is_string_array (JArr xs) = list_all is_string xs" | "is_string_array JNull = True" | "is_string_array _ = False"

definition strings_ok :: "string list \<Rightarrow> (string \<times> json) list \<Rightarrow> bool" where
  "strings_ok names obj = list_all (\<lambda>n. list_all is_string (members n obj)) names"

definition is_icon :: "json \<Rightarrow> bool" where
  "is_icon v = (case as_object v of None \<Rightarrow> False
     | Some obj \<Rightarrow> strings_ok [''src'', ''mimeType''] obj \<and> list_all is_string_array (members ''sizes'' obj))"

fun is_icons :: "json \<Rightarrow> bool" where
  "is_icons (JArr xs) = list_all is_icon xs" | "is_icons JNull = True" | "is_icons _ = False"

definition is_process_info :: "json \<Rightarrow> bool" where
  "is_process_info v = (case as_object v of None \<Rightarrow> False
     | Some obj \<Rightarrow> strings_ok [''name'', ''version'', ''title'', ''description'', ''websiteUrl''] obj
                   \<and> list_all is_icons (members ''icons'' obj))"

definition decode_initialize :: "json \<Rightarrow> (string \<times> ClientCaps) option" where
  "decode_initialize raw =
     (case as_object raw of None \<Rightarrow> None
      | Some obj \<Rightarrow>
        (case (field d_string [] ''protocolVersion'' obj,
               field d_caps \<lparr> cc_Sampling = False, cc_Elicitation = False \<rparr> ''capabilities'' obj, dmeta obj) of
           (Some v, Some caps, Some _) \<Rightarrow>
             if list_all is_process_info (members ''clientInfo'' obj) then Some (v, caps) else None
         | _ \<Rightarrow> None))"

definition extractMeta :: "json option \<Rightarrow> meta option" where
  "extractMeta raw = (case raw of None \<Rightarrow> None
     | Some v \<Rightarrow> (case as_object v of None \<Rightarrow> None
        | Some obj \<Rightarrow> (case dmeta obj of None \<Rightarrow> None | Some m \<Rightarrow> m)))"

text \<open>A null token is a nil interface.\<close>

definition progressTokenFromMeta :: "meta option \<Rightarrow> json option" where
  "progressTokenFromMeta m = (case m of None \<Rightarrow> None
     | Some m \<Rightarrow> (case mget m ''progressToken'' of None \<Rightarrow> None
        | Some t \<Rightarrow> if t = JNull then None else Some t))"

section \<open>Results\<close>

record ToolInfo =
  tinfo_Name :: string
  tinfo_Description :: string
  tinfo_InputSchema :: json
  tinfo_Annotations :: "ToolAnnotations option"

record ResourceInfo =
  rinfo_URI :: string
  rinfo_Name :: string
  rinfo_Description :: string
  rinfo_MimeType :: string

record PromptInfo =
  pinfo_Name :: string
  pinfo_Description :: string
  pinfo_Arguments :: "PromptArgument list"

record InitializeResult =
  ir_ProtocolVersion :: string
  ir_ToolsListChanged :: bool
  ir_ResourcesSubscribe :: bool
  ir_ResourcesListChanged :: bool
  ir_PromptsListChanged :: bool
  ir_Logging :: bool
  ir_Tasks :: bool
  ir_Completions :: bool
  ir_ServerInfo :: ServerInfo

datatype result =
    REmpty
  | RInitialize InitializeResult
  | RListTools "ToolInfo list" string
  | RCallTool CallToolResult
  | RCreateTask Task
  | RListResources "ResourceInfo list" string
  | RListTemplates "ResourceInfo list" string
  | RListRoots "(string \<times> string) list" string
  | RReadResource ReadResourceResult
  | RListPrompts "PromptInfo list" string
  | RGetPrompt GetPromptResult
  | RComplete CompletionResult
  | RTask Task
  | RTaskResult CallToolResult
  | RListTasks "Task list" string

type_synonym response = "result JSONRPCResponse"

text \<open>
  What a request takes from outside: the clock, the entropy for task identifiers, the number of
  the request (which names its cancel function), and the text of a raw JSON value.
\<close>

record env =
  e_now :: string
  e_entropy :: "goerr + nat list"
  e_request :: nat
  e_text :: "json \<Rightarrow> bytes"

record 'w goroutine =
  g_taskID :: string
  g_name :: string
  g_input :: bytes
  g_session :: string
  g_filter :: "'w ItemFilter option"
  g_tenant :: string

datatype 'w effect = Spawn "'w goroutine" | CancelRequest nat | CancelTask string

type_synonym 'w handled = "response hres \<times> 'w Server \<times> 'w \<times> 'w effect list"

definition reply :: "response \<Rightarrow> 'w Server \<Rightarrow> 'w \<Rightarrow> 'w handled" where
  "reply r s w = (Ret r, s, w, [])"

end
