(* ===== verification/Dispatch.thy ===== *)
theory Dispatch
  imports Protocol
begin

text \<open>
  \<open>dispatch.go\<close>: from a message to the response, one definition per handler. \<open>HandleMessage\<close> yields
  the response (or the panic that user code let through), the new server and world, and the
  effects that reach beyond the request: a goroutine to start and the contexts it cancelled.
\<close>

section \<open>Lists\<close>

definition handlePaginatedList ::
  "JSONRPCRequest \<Rightarrow> 'a list \<Rightarrow> ('a \<Rightarrow> 'b) \<Rightarrow> ('b list \<Rightarrow> string \<Rightarrow> result) \<Rightarrow> response" where
  "handlePaginatedList req items toInfo wrapResult =
     (case req_Params req of
        None \<Rightarrow> NewResponse (req_ID req) (wrapResult (map toInfo items) [])
      | Some raw \<Rightarrow>
        (case decode_list_params raw of
           None \<Rightarrow> NewErrorResponse (req_ID req) ErrCodeInvalidParams ''invalid list params''
         | Some p \<Rightarrow>
           (case list_window items p of
              Inl e \<Rightarrow> NewErrorResponse (req_ID req) ErrCodeInvalidParams (Error e)
            | Inr (page, next) \<Rightarrow> NewResponse (req_ID req) (wrapResult (map toInfo page) next))))"

definition toolToInfo :: "'w Tool \<Rightarrow> ToolInfo" where
  "toolToInfo t = \<lparr> tinfo_Name = tool_Name t, tinfo_Description = tool_Description t,
     tinfo_InputSchema = (case tool_InputSchema t of None \<Rightarrow> JObj [(''type'', JStr ''object'')] | Some sch \<Rightarrow> sch),
     tinfo_Annotations = tool_Annotations t \<rparr>"

definition handleToolsList ::
  "'w ctx \<Rightarrow> 'w ItemFilter option \<Rightarrow> JSONRPCRequest \<Rightarrow> 'w Server \<Rightarrow> response \<times> 'w Server" where
  "handleToolsList c f req s =
     (let (allTools, s1) = getSortedTools s;
          (sessionSorted, r) = sortedTools (cx_SubscriberID c) (s_sessionTools s1);
          s2 = s1 \<lparr> s_sessionTools := r \<rparr>;
          ss = (case sessionSorted of None \<Rightarrow> [] | Some xs \<Rightarrow> xs);
          tools = (if ss = [] then filter (AllowTool f) allTools
                   else mergeSessionToolsFiltered allTools ss f)
      in (handlePaginatedList req tools toolToInfo RListTools, s2))"

definition handleResourcesList ::
  "'w ItemFilter option \<Rightarrow> JSONRPCRequest \<Rightarrow> 'w Server \<Rightarrow> response \<times> 'w Server" where
  "handleResourcesList f req s =
     (let (all, s1) = getSortedResources s
      in (handlePaginatedList req (filter (AllowResource f) all)
            (\<lambda>r. \<lparr> rinfo_URI = res_URI r, rinfo_Name = res_Name r, rinfo_Description = res_Description r,
                   rinfo_MimeType = res_MimeType r \<rparr>) RListResources, s1))"

definition handleResourcesTemplatesList ::
  "'w ItemFilter option \<Rightarrow> JSONRPCRequest \<Rightarrow> 'w Server \<Rightarrow> response \<times> 'w Server" where
  "handleResourcesTemplatesList f req s =
     (let (all, s1) = getSortedTemplates s
      in (handlePaginatedList req (filter (AllowResourceTemplate f) all)
            (\<lambda>t. \<lparr> rinfo_URI = rt_URITemplate t, rinfo_Name = rt_Name t,
                   rinfo_Description = rt_Description t, rinfo_MimeType = rt_MimeType t \<rparr>) RListTemplates, s1))"

definition handleRootsList :: "JSONRPCRequest \<Rightarrow> 'w Server \<Rightarrow> response" where
  "handleRootsList req s =
     handlePaginatedList req (ListRoots s) (\<lambda>r. (root_URI r, root_Name r)) RListRoots"

definition handlePromptsList ::
  "'w ItemFilter option \<Rightarrow> JSONRPCRequest \<Rightarrow> 'w Server \<Rightarrow> response \<times> 'w Server" where
  "handlePromptsList f req s =
     (let (all, s1) = getSortedPrompts s
      in (handlePaginatedList req (filter (AllowPrompt f) all)
            (\<lambda>p. \<lparr> pinfo_Name = pr_Name p, pinfo_Description = pr_Description p,
                   pinfo_Arguments = pr_Arguments p \<rparr>) RListPrompts, s1))"

section \<open>Initialization\<close>

definition negotiateVersion :: "'w Server \<Rightarrow> string \<Rightarrow> string" where
  "negotiateVersion s clientVersion =
     (case find (\<lambda>v. v = clientVersion) (s_supportedVersions s) of
        Some v \<Rightarrow> v
      | None \<Rightarrow> (case s_supportedVersions s of v # _ \<Rightarrow> v | [] \<Rightarrow> ProtocolVersion))"

definition hasCompleters :: "'w Server \<Rightarrow> bool" where
  "hasCompleters s \<longleftrightarrow> list_ex (\<lambda>p. pr_Completer p \<noteq> None) (mvals (s_prompts s))
     \<or> list_ex (\<lambda>t. rt_Completer t \<noteq> None) (mvals (s_templates s))"

definition handleInitialize :: "'w ctx \<Rightarrow> JSONRPCRequest \<Rightarrow> 'w Server \<Rightarrow> response \<times> 'w Server" where
  "handleInitialize c req s =
     (if s_initialized s
      then (NewErrorResponse (req_ID req) ErrCodeInvalidRequest (Error errAlreadyInitialized), s)
      else case (case req_Params req of
                   None \<Rightarrow> Some ([], \<lparr> cc_Sampling = False, cc_Elicitation = False \<rparr>)
                 | Some raw \<Rightarrow> decode_initialize raw) of
        None \<Rightarrow> (NewErrorResponse (req_ID req) ErrCodeInvalidParams ''invalid initialize params'', s)
      | Some (version, caps) \<Rightarrow>
        if version = [] then (NewErrorResponse (req_ID req) ErrCodeInvalidParams ''protocolVersion is required'', s)
        else
          let negotiated = negotiateVersion s version;
              s1 = s \<lparr> s_negotiatedVersion := negotiated, s_clientCaps := caps, s_initialized := True \<rparr>;
              hasNotifChan = (cx_Sender c \<noteq> None \<and> cx_SubscriberID c \<noteq> [])
          in (NewResponse (req_ID req) (RInitialize
                \<lparr> ir_ProtocolVersion = negotiated, ir_ToolsListChanged = hasNotifChan,
                  ir_ResourcesSubscribe = (s_enableSubs s1 \<and> hasNotifChan),
                  ir_ResourcesListChanged = hasNotifChan, ir_PromptsListChanged = hasNotifChan,
                  ir_Logging = (s_logHandler s1 \<noteq> None), ir_Tasks = (s_taskStore s1 \<noteq> None),
                  ir_Completions = hasCompleters s1, ir_ServerInfo = s_info s1 \<rparr>), s1))"

section \<open>Subscriptions\<close>

text \<open>The tenant check of \<open>handleResourcesSubscribe\<close>: is the resource hidden from the caller?\<close>

definition subscription_hidden ::
  "'w ItemFilter option \<Rightarrow> string \<Rightarrow> 'w Server \<Rightarrow> bool \<times> 'w Server" where
  "subscription_hidden f uri s =
     (if f = None then (False, s)
      else case mget (s_resources s) uri of
        Some r \<Rightarrow> (\<not> AllowResource f r, s)
      | None \<Rightarrow>
        (case findTemplateForURI uri s of
           (None, s1) \<Rightarrow> (False, s1)
         | (Some t, s1) \<Rightarrow> (\<not> AllowResourceTemplate f t, s1)))"

definition handleResourcesSubscribe ::
  "'w ctx \<Rightarrow> 'w ItemFilter option \<Rightarrow> JSONRPCRequest \<Rightarrow> 'w Server \<Rightarrow> response \<times> 'w Server" where
  "handleResourcesSubscribe c f req s =
     (if \<not> s_enableSubs s
      then (NewErrorResponse (req_ID req) ErrCodeMethodNotFound ''resource subscriptions are disabled'', s)
      else case req_Params req of
        None \<Rightarrow> (NewErrorResponse (req_ID req) ErrCodeInvalidParams ''missing params'', s)
      | Some raw \<Rightarrow>
        (case decode_string_param ''uri'' raw of
           None \<Rightarrow> (NewErrorResponse (req_ID req) ErrCodeInvalidParams ''invalid params'', s)
         | Some uri \<Rightarrow>
           if uri = [] then (NewErrorResponse (req_ID req) ErrCodeInvalidParams ''uri is required'', s)
           else if cx_SubscriberID c = [] \<or> cx_Sender c = None
             then (NewErrorResponse (req_ID req) ErrCodeInvalidRequest
                    ''transport does not support server-to-client notifications; resource subscriptions require a bidirectional connection'', s)
           else
             let (hidden, s1) = subscription_hidden f uri s
             in if hidden then (NewErrorResponse (req_ID req) ErrCodeInvalidParams (Error errResourceNotFound), s1)
                else (case Subscribe (cx_SubscriberID c) uri (cx_Sender c) s1 of
                        (Some e, s2) \<Rightarrow> (NewErrorResponse (req_ID req) ErrCodeInternalError (Error e), s2)
                      | (None, s2) \<Rightarrow> (NewResponse (req_ID req) REmpty, s2))))"

definition handleResourcesUnsubscribe ::
  "'w ctx \<Rightarrow> JSONRPCRequest \<Rightarrow> 'w Server \<Rightarrow> response \<times> 'w Server" where
  "handleResourcesUnsubscribe c req s =
     (if \<not> s_enableSubs s
      then (NewErrorResponse (req_ID req) ErrCodeMethodNotFound ''resource subscriptions are disabled'', s)
      else case req_Params req of
        None \<Rightarrow> (NewErrorResponse (req_ID req) ErrCodeInvalidParams ''missing params'', s)
      | Some raw \<Rightarrow>
        (case decode_string_param ''uri'' raw of
           None \<Rightarrow> (NewErrorResponse (req_ID req) ErrCodeInvalidParams ''invalid params'', s)
         | Some uri \<Rightarrow>
           if uri = [] then (NewErrorResponse (req_ID req) ErrCodeInvalidParams ''uri is required'', s)
           else if cx_SubscriberID c = []
             then (NewErrorResponse (req_ID req) ErrCodeInvalidRequest
                    ''transport did not provide a subscriber/connection ID; server cannot identify which subscription to remove'', s)
           else (NewResponse (req_ID req) REmpty, Unsubscribe (cx_SubscriberID c) uri s)))"

section \<open>Resources, prompts, completion, logging\<close>

definition with_holder :: "'w \<Rightarrow> 'w hstate" where
  "with_holder w = \<lparr> hs_holder = Some None, hs_stream = None, hs_world = w \<rparr>"

definition without_holder :: "'w \<Rightarrow> 'w hstate" where
  "without_holder w = \<lparr> hs_holder = None, hs_stream = None, hs_world = w \<rparr>"

definition handleResourcesRead ::
  "'w ctx \<Rightarrow> 'w ItemFilter option \<Rightarrow> JSONRPCRequest \<Rightarrow> 'w Server \<Rightarrow> 'w \<Rightarrow> 'w handled" where
  "handleResourcesRead c f req s w =
     (case req_Params req of
        None \<Rightarrow> reply (NewErrorResponse (req_ID req) ErrCodeInvalidParams ''missing params'') s w
      | Some raw \<Rightarrow>
        (case decode_string_param ''uri'' raw of
           None \<Rightarrow> reply (NewErrorResponse (req_ID req) ErrCodeInvalidParams ''invalid read params'') s w
         | Some uri \<Rightarrow>
           if uri = [] then reply (NewErrorResponse (req_ID req) ErrCodeInvalidParams ''resource URI must not be empty'') s w
           else (case ReadResource c f uri s (with_holder w) of
               (Panic m, s1, st) \<Rightarrow> (Panic m, s1, hs_world st, [])
             | (Err e, s1, st) \<Rightarrow>
                 reply (if errors_is e errResourceNotFound
                        then NewErrorResponse (req_ID req) ErrCodeInvalidParams (Error e)
                        else NewErrorResponse (req_ID req) ErrCodeInternalError ''resource read failed'') s1 (hs_world st)
             | (Ret r, s1, st) \<Rightarrow>
                 reply (NewResponse (req_ID req) (RReadResource
                   (case responseMetaFromHolder st of None \<Rightarrow> r | Some m \<Rightarrow> r \<lparr> rr_Meta := Some m \<rparr>))) s1 (hs_world st))))"

definition handlePromptsGet ::
  "'w ctx \<Rightarrow> 'w ItemFilter option \<Rightarrow> JSONRPCRequest \<Rightarrow> 'w Server \<Rightarrow> 'w \<Rightarrow> 'w handled" where
  "handlePromptsGet c f req s w =
     (case req_Params req of
        None \<Rightarrow> reply (NewErrorResponse (req_ID req) ErrCodeInvalidParams ''missing params'') s w
      | Some raw \<Rightarrow>
        (case decode_prompt_params raw of
           None \<Rightarrow> reply (NewErrorResponse (req_ID req) ErrCodeInvalidParams ''invalid prompt params'') s w
         | Some (name, args) \<Rightarrow>
           if name = [] then reply (NewErrorResponse (req_ID req) ErrCodeInvalidParams ''prompt name must not be empty'') s w
           else (case GetPrompt c f name args s (with_holder w) of
               (Panic m, st) \<Rightarrow> (Panic m, s, hs_world st, [])
             | (Err e, st) \<Rightarrow>
                 reply (if errors_is e errPromptNotFound
                        then NewErrorResponse (req_ID req) ErrCodeInvalidParams (Error e)
                        else NewErrorResponse (req_ID req) ErrCodeInternalError ''prompt get failed'') s (hs_world st)
             | (Ret r, st) \<Rightarrow>
                 reply (NewResponse (req_ID req) (RGetPrompt
                   (case responseMetaFromHolder st of None \<Rightarrow> r | Some m \<Rightarrow> r \<lparr> gp_Meta := Some m \<rparr>))) s (hs_world st))))"

definition maxCompletionValues :: nat where "maxCompletionValues = 100"

text \<open>The completer that a completion request refers to, or the error message.\<close>

definition find_completer ::
  "'w ItemFilter option \<Rightarrow> CompletionRef \<Rightarrow> 'w Server \<Rightarrow> string + 'w CompleteHandler option" where
  "find_completer f ref s =
     (if ref_Type ref = ''ref/prompt'' then
        if ref_Name ref = [] then Inl ''ref.name is required for ref/prompt''
        else (case mget (s_prompts s) (ref_Name ref) of
                None \<Rightarrow> Inl (''prompt not found: '' @ ref_Name ref)
              | Some p \<Rightarrow> if \<not> AllowPrompt f p then Inl (''prompt not found: '' @ ref_Name ref)
                          else Inr (pr_Completer p))
      else if ref_Type ref = ''ref/resource'' then
        let uri = (if ref_URI ref = [] then ref_Name ref else ref_URI ref)
        in if uri = [] then Inl ''ref.uri (or ref.name) is required for ref/resource''
           else (case mget (s_templates s) uri of
                   None \<Rightarrow> Inl (''resource template not found: '' @ uri)
                 | Some t \<Rightarrow> if \<not> AllowResourceTemplate f t then Inl (''resource template not found: '' @ uri)
                             else Inr (rt_Completer t))
      else Inl (''unsupported ref type: '' @ ref_Type ref))"

definition truncate_completion :: "CompletionResult \<Rightarrow> CompletionResult" where
  "truncate_completion r =
     (if length (cr_Values r) > maxCompletionValues
      then \<lparr> cr_Values = take maxCompletionValues (cr_Values r),
             cr_Total = (if cr_Total r = 0 then int (length (cr_Values r)) else cr_Total r),
             cr_HasMore = True \<rparr>
      else r)"

definition handleCompletionComplete ::
  "'w ctx \<Rightarrow> 'w ItemFilter option \<Rightarrow> JSONRPCRequest \<Rightarrow> 'w Server \<Rightarrow> 'w \<Rightarrow> 'w handled" where
  "handleCompletionComplete c f req s w =
     (case req_Params req of
        None \<Rightarrow> reply (NewErrorResponse (req_ID req) ErrCodeInvalidParams ''params required'') s w
      | Some raw \<Rightarrow>
        (case decode_complete_params raw of
           None \<Rightarrow> reply (NewErrorResponse (req_ID req) ErrCodeInvalidParams ''invalid completion params'') s w
         | Some (ref, arg) \<Rightarrow>
           if carg_Name arg = [] then reply (NewErrorResponse (req_ID req) ErrCodeInvalidParams ''argument name is required'') s w
           else (case find_completer f ref s of
               Inl msg \<Rightarrow> reply (NewErrorResponse (req_ID req) ErrCodeInvalidParams msg) s w
             | Inr None \<Rightarrow> reply (NewResponse (req_ID req)
                   (RComplete \<lparr> cr_Values = [], cr_Total = 0, cr_HasMore = False \<rparr>)) s w
             | Inr (Some h) \<Rightarrow>
                 (case h c ref arg (without_holder w) of
                    (Panic m, st) \<Rightarrow> (Panic m, s, hs_world st, [])
                  | (Err e, st) \<Rightarrow> reply (NewErrorResponse (req_ID req) ErrCodeInternalError (Error e)) s (hs_world st)
                  | (Ret None, st) \<Rightarrow> reply (NewResponse (req_ID req)
                       (RComplete \<lparr> cr_Values = [], cr_Total = 0, cr_HasMore = False \<rparr>)) s (hs_world st)
                  | (Ret (Some r), st) \<Rightarrow>
                       reply (NewResponse (req_ID req) (RComplete (truncate_completion r))) s (hs_world st)))))"

definition validLogLevels :: "string list" where
  "validLogLevels = [''debug'', ''info'', ''notice'', ''warning'', ''error'', ''critical'', ''alert'', ''emergency'']"

text \<open>Unmarshalling absent parameters fails, as the empty input is not JSON.\<close>

definition handleLoggingSetLevel :: "'w ctx \<Rightarrow> JSONRPCRequest \<Rightarrow> 'w Server \<Rightarrow> 'w \<Rightarrow> 'w handled" where
  "handleLoggingSetLevel c req s w =
     (case (case req_Params req of None \<Rightarrow> None | Some raw \<Rightarrow> decode_level raw) of
        None \<Rightarrow> reply (NewErrorResponse (req_ID req) ErrCodeInvalidParams ''invalid params'') s w
      | Some level \<Rightarrow>
        if level \<notin> set validLogLevels then reply (NewErrorResponse (req_ID req) ErrCodeInvalidParams ''invalid log level'') s w
        else (case s_logHandler s of
            None \<Rightarrow> reply (NewResponse (req_ID req) REmpty) s w
          | Some h \<Rightarrow>
            (case h c level w of
               (Panic m, w1) \<Rightarrow> (Panic m, s, w1, [])
             | (Err e, w1) \<Rightarrow> reply (NewErrorResponse (req_ID req) ErrCodeInternalError (Error e)) s w1
             | (Ret _, w1) \<Rightarrow> reply (NewResponse (req_ID req) REmpty) s w1)))"

section \<open>Tasks\<close>

definition requireTaskStore :: "json option \<Rightarrow> 'w Server \<Rightarrow> response option" where
  "requireTaskStore i s =
     (if s_taskStore s = None then Some (NewErrorResponse i ErrCodeInvalidRequest ''task support is not enabled'') else None)"

definition checkTaskOwnership :: "'w ctx \<Rightarrow> string \<Rightarrow> json option \<Rightarrow> TaskStore \<Rightarrow> response option" where
  "checkTaskOwnership c tid i ts =
     (let ownerID = ownerOf ts tid; callerID = cx_SubscriberID c
      in if ownerID \<noteq> [] \<and> callerID \<noteq> [] \<and> ownerID \<noteq> callerID
         then Some (NewErrorResponse i ErrCodeInvalidRequest ''access denied: task belongs to another session'')
         else None)"

definition parseTaskIdParams :: "JSONRPCRequest \<Rightarrow> response + string" where
  "parseTaskIdParams req =
     (case req_Params req of
        None \<Rightarrow> Inl (NewErrorResponse (req_ID req) ErrCodeInvalidParams ''missing params'')
      | Some raw \<Rightarrow>
        (case decode_string_param ''taskId'' raw of
           None \<Rightarrow> Inl (NewErrorResponse (req_ID req) ErrCodeInvalidParams ''invalid params'')
         | Some tid \<Rightarrow>
           if tid = [] then Inl (NewErrorResponse (req_ID req) ErrCodeInvalidParams ''taskId is required'')
           else Inr tid))"

text \<open>
  The opening that \<open>handleTasksGet\<close>, \<open>handleTasksResult\<close> and \<open>handleTasksCancel\<close> share: the
  store is configured, the identifier is present, and the caller may access the task.
\<close>

definition task_access :: "'w ctx \<Rightarrow> JSONRPCRequest \<Rightarrow> 'w Server \<Rightarrow> response + TaskStore \<times> string" where
  "task_access c req s =
     (case s_taskStore s of
        None \<Rightarrow> Inl (the (requireTaskStore (req_ID req) s))
      | Some ts \<Rightarrow>
        (case parseTaskIdParams req of Inl e \<Rightarrow> Inl e
         | Inr tid \<Rightarrow>
           (case checkTaskOwnership c tid (req_ID req) ts of Some e \<Rightarrow> Inl e | None \<Rightarrow> Inr (ts, tid))))"

definition handleTasksGet :: "'w ctx \<Rightarrow> JSONRPCRequest \<Rightarrow> 'w Server \<Rightarrow> response" where
  "handleTasksGet c req s =
     (case task_access c req s of Inl e \<Rightarrow> e
      | Inr (ts, tid) \<Rightarrow>
        (case Get ts tid of
           Inl e \<Rightarrow> NewErrorResponse (req_ID req)
             (if errors_is e errTaskNotFound then ErrCodeInvalidParams else ErrCodeInternalError) (Error e)
         | Inr t \<Rightarrow> NewResponse (req_ID req) (RTask t)))"

definition handleTasksResult :: "'w ctx \<Rightarrow> JSONRPCRequest \<Rightarrow> 'w Server \<Rightarrow> response" where
  "handleTasksResult c req s =
     (case task_access c req s of Inl e \<Rightarrow> e
      | Inr (ts, tid) \<Rightarrow>
        (case GetResult ts tid of
           Inl e \<Rightarrow> NewErrorResponse (req_ID req)
             (if errors_is e errTaskNotFound then ErrCodeInvalidParams
              else if errors_is e errTaskNotCompleted then ErrCodeInvalidRequest
              else ErrCodeInternalError) (Error e)
         | Inr r \<Rightarrow> NewResponse (req_ID req) (RTaskResult r)))"

definition handleTasksCancel ::
  "env \<Rightarrow> 'w ctx \<Rightarrow> JSONRPCRequest \<Rightarrow> 'w Server \<Rightarrow> 'w \<Rightarrow> 'w handled" where
  "handleTasksCancel env c req s w =
     (case task_access c req s of Inl e \<Rightarrow> reply e s w
      | Inr (ts, tid) \<Rightarrow>
        (case Cancel (e_now env) tid ts of
           (Inl e, _, ts') \<Rightarrow> reply (NewErrorResponse (req_ID req)
             (if errors_is e errTaskNotFound then ErrCodeInvalidParams
              else if errors_is e errTaskInvalidTransit then ErrCodeInvalidRequest
              else ErrCodeInternalError) (Error e)) (s \<lparr> s_taskStore := Some ts' \<rparr>) w
         | (Inr t, fn, ts') \<Rightarrow>
             (Ret (NewResponse (req_ID req) (RTask t)), s \<lparr> s_taskStore := Some ts' \<rparr>, w,
              case fn of None \<Rightarrow> [] | Some g \<Rightarrow> [CancelTask g])))"

definition handleTasksList :: "'w ctx \<Rightarrow> JSONRPCRequest \<Rightarrow> 'w Server \<Rightarrow> response" where
  "handleTasksList c req s =
     (case s_taskStore s of
        None \<Rightarrow> the (requireTaskStore (req_ID req) s)
      | Some ts \<Rightarrow> handlePaginatedList req (ListByOwner ts (cx_SubscriberID c)) (\<lambda>t. t) RListTasks)"

section \<open>Tool calls\<close>

text \<open>Absent arguments are the empty input.\<close>

definition input_of :: "env \<Rightarrow> CallToolParams \<Rightarrow> bytes" where
  "input_of env p = (case ctp_Arguments p of None \<Rightarrow> [] | Some a \<Rightarrow> e_text env a)"

definition handleTaskAugmentedCall ::
  "env \<Rightarrow> 'w ctx \<Rightarrow> 'w ItemFilter option \<Rightarrow> JSONRPCRequest \<Rightarrow> CallToolParams \<Rightarrow> 'w Server \<Rightarrow> 'w \<Rightarrow> 'w handled" where
  "handleTaskAugmentedCall env c f req p s w =
     (case s_taskStore s of
        None \<Rightarrow> reply (NewErrorResponse (req_ID req) ErrCodeInvalidRequest
                  ''task support is not enabled; configure the server with WithTaskStore'') s w
      | Some ts \<Rightarrow>
        (case visible_tool s (cx_SubscriberID c) (ctp_Name p) of
           None \<Rightarrow> reply (NewErrorResponse (req_ID req) ErrCodeInvalidParams (Error errToolNotFound)) s w
         | Some t \<Rightarrow>
           if f \<noteq> None \<and> \<not> AllowTool f t
           then reply (NewErrorResponse (req_ID req) ErrCodeInvalidParams (Error errToolNotFound)) s w
           else
             let opts = \<lparr> to_TTL = (case ctp_Task p of None \<Rightarrow> None | Some ttl \<Rightarrow> ttl),
                          to_PollInterval = None, to_OwnerID = cx_SubscriberID c \<rparr>
             in case GenerateID (e_entropy env) of
                  Panic m \<Rightarrow> (Panic m, s, w, [])
                | Err e \<Rightarrow> (Err e, s, w, [])
                | Ret tid \<Rightarrow>
                  (case SubmitWithOptions (e_now env) tid opts ts of
                     (Inl e, ts') \<Rightarrow> reply (NewErrorResponse (req_ID req) ErrCodeInternalError (Error e))
                         (s \<lparr> s_taskStore := Some ts' \<rparr>) w
                   | (Inr task, ts') \<Rightarrow>
                       (Ret (NewResponse (req_ID req) (RCreateTask task)), s \<lparr> s_taskStore := Some ts' \<rparr>, w,
                        [Spawn \<lparr> g_taskID = tid, g_name = ctp_Name p, g_input = input_of env p,
                                 g_session = cx_SubscriberID c, g_filter = f, g_tenant = cx_TenantID c \<rparr>]))))"

text \<open>
  The goroutine of a task in three steps, between which anything else may run: it stores its
  cancel function, calls the tool in a context of its own, and reports the outcome.
\<close>

definition task_ctx :: "'w goroutine \<Rightarrow> 'w ctx" where
  "task_ctx g = base_ctx.extend
     (Background \<lparr> cx_SubscriberID := g_session g, cx_TenantID := g_tenant g, cx_ToolName := g_name g \<rparr>)
     (ctx.fields None)"

datatype task_outcome = TaskFails string | TaskSucceeds CallToolResult

definition task_start :: "'w goroutine \<Rightarrow> TaskStore \<Rightarrow> TaskStore" where
  "task_start g ts = storeCancelFunc (g_taskID g) (g_taskID g) ts"

definition task_call :: "'w goroutine \<Rightarrow> 'w Server \<Rightarrow> 'w \<Rightarrow> task_outcome \<times> 'w" where
  "task_call g s w =
     (case CallTool (task_ctx g) (g_filter g) (g_name g) (g_input g) s (with_holder w) of
        (Panic m, st) \<Rightarrow> (TaskFails (''panic: '' @ m), hs_world st)
      | (Err e, st) \<Rightarrow> (TaskFails (Error e), hs_world st)
      | (Ret r, st) \<Rightarrow>
          (if ctr_IsError r
           then TaskFails (case ctr_Content r of TextContent text # _ \<Rightarrow> text | _ \<Rightarrow> ''tool returned error'')
           else TaskSucceeds (case responseMetaFromHolder st of None \<Rightarrow> r | Some m \<Rightarrow> r \<lparr> ctr_Meta := Some m \<rparr>),
           hs_world st))"

definition task_finish :: "string \<Rightarrow> 'w goroutine \<Rightarrow> task_outcome \<Rightarrow> TaskStore \<Rightarrow> TaskStore" where
  "task_finish now g outcome ts =
     (case outcome of
        TaskFails msg \<Rightarrow> snd (Fail now (g_taskID g) msg ts)
      | TaskSucceeds r \<Rightarrow> snd (Complete now (g_taskID g) (Some r) ts))"

text \<open>
  The stream of a synchronous call: the chunks the handler sent are delivered in order with
  consecutive sequence numbers before the response, also when the handler panics.
\<close>

definition stream_chunk :: "json option \<Rightarrow> nat \<Rightarrow> json \<Rightarrow> JSONRPCNotification" where
  "stream_chunk token seq chunk = \<lparr> ntf_JSONRPC = jsonrpcVersion,
     ntf_Method = ''notifications/progress'', ntf_Params = StreamProgressParams token seq chunk \<rparr>"

definition close_stream ::
  "'w NotificationSender option \<Rightarrow> json option \<Rightarrow> 'w hstate \<Rightarrow> 'w" where
  "close_stream sender token st =
     (case (sender, hs_stream st) of
        (Some send, Some chunks) \<Rightarrow>
          fold (\<lambda>(seq, chunk) w. send (stream_chunk token seq chunk) w) (enumerate 1 chunks) (hs_world st)
      | _ \<Rightarrow> hs_world st)"

definition handleToolsCall ::
  "env \<Rightarrow> 'w ctx \<Rightarrow> 'w ItemFilter option \<Rightarrow> JSONRPCRequest \<Rightarrow> 'w Server \<Rightarrow> 'w \<Rightarrow> 'w handled" where
  "handleToolsCall env c f req s w =
     (case req_Params req of
        None \<Rightarrow> reply (NewErrorResponse (req_ID req) ErrCodeInvalidParams ''missing params'') s w
      | Some raw \<Rightarrow>
        (case decode_call_params raw of
           None \<Rightarrow> reply (NewErrorResponse (req_ID req) ErrCodeInvalidParams ''invalid call params'') s w
         | Some p \<Rightarrow>
           if ctp_Name p = [] then reply (NewErrorResponse (req_ID req) ErrCodeInvalidParams ''tool name must not be empty'') s w
           else if ctp_Task p \<noteq> None then handleTaskAugmentedCall env c f req p s w
           else
             let c1 = c \<lparr> cx_ToolName := ctp_Name p \<rparr>;
                 token = (case progressTokenFromMeta (cx_Meta c1) of None \<Rightarrow> req_ID req | Some t \<Rightarrow> Some t);
                 st0 = \<lparr> hs_holder = Some None,
                         hs_stream = (if cx_Sender c1 = None then None else Some []), hs_world = w \<rparr>
             in case CallTool c1 f (ctp_Name p) (input_of env p) s st0 of
                  (Panic m, st) \<Rightarrow> (Panic m, s, close_stream (cx_Sender c1) token st, [])
                | (Err e, st) \<Rightarrow> reply (NewErrorResponse (req_ID req) ErrCodeInvalidParams (Error e)) s
                     (close_stream (cx_Sender c1) token st)
                | (Ret r, st) \<Rightarrow> reply (NewResponse (req_ID req) (RCallTool
                     (case responseMetaFromHolder st of None \<Rightarrow> r | Some m \<Rightarrow> r \<lparr> ctr_Meta := Some m \<rparr>))) s
                     (close_stream (cx_Sender c1) token st)))"

section \<open>Requests and messages\<close>

definition lift :: "response \<times> 'w Server \<Rightarrow> 'w \<Rightarrow> 'w handled" where
  "lift p w = (case p of (r, s) \<Rightarrow> reply r s w)"

text \<open>The switch on the method at the end of \<open>handleRequest\<close>.\<close>

definition route ::
  "env \<Rightarrow> 'w ctx \<Rightarrow> 'w ItemFilter option \<Rightarrow> JSONRPCRequest \<Rightarrow> 'w Server \<Rightarrow> 'w \<Rightarrow> 'w handled" where
  "route env c f req s w =
     (let m = req_Method req in
      if m = ''tools/list'' then lift (handleToolsList c f req s) w
      else if m = ''tools/call'' then handleToolsCall env c f req s w
      else if m = ''resources/list'' then lift (handleResourcesList f req s) w
      else if m = ''resources/read'' then handleResourcesRead c f req s w
      else if m = ''resources/templates/list'' then lift (handleResourcesTemplatesList f req s) w
      else if m = ''roots/list'' then reply (handleRootsList req s) s w
      else if m = ''resources/subscribe'' then lift (handleResourcesSubscribe c f req s) w
      else if m = ''resources/unsubscribe'' then lift (handleResourcesUnsubscribe c req s) w
      else if m = ''prompts/list'' then lift (handlePromptsList f req s) w
      else if m = ''prompts/get'' then handlePromptsGet c f req s w
      else if m = ''completion/complete'' then handleCompletionComplete c f req s w
      else if m = ''logging/setLevel'' then handleLoggingSetLevel c req s w
      else if m = ''ping'' then reply (NewResponse (req_ID req) REmpty) s w
      else if m = ''tasks/get'' then reply (handleTasksGet c req s) s w
      else if m = ''tasks/result'' then reply (handleTasksResult c req s) s w
      else if m = ''tasks/cancel'' then handleTasksCancel env c req s w
      else if m = ''tasks/list'' then reply (handleTasksList c req s) s w
      else reply (NewErrorResponse (req_ID req) ErrCodeMethodNotFound (''method not found: '' @ m)) s w)"

text \<open>The context of a request: identifier, metadata and, if there is a sender, the progress token.\<close>

definition request_ctx :: "JSONRPCRequest \<Rightarrow> 'w ctx \<Rightarrow> 'w ctx" where
  "request_ctx req c =
     (let m = extractMeta (req_Params req);
          c1 = c \<lparr> cx_RequestID := req_ID req \<rparr>;
          c2 = (if m = None then c1 else c1 \<lparr> cx_Meta := m \<rparr>)
      in if cx_Sender c2 = None then c2
         else c2 \<lparr> cx_ProgressToken := Some (case progressTokenFromMeta m of None \<Rightarrow> req_ID req | Some t \<Rightarrow> Some t) \<rparr>)"

text \<open>Authentication and tenant resolution, then the switch.\<close>

definition with_tenant ::
  "env \<Rightarrow> 'w ctx \<Rightarrow> JSONRPCRequest \<Rightarrow> 'w Server \<Rightarrow> 'w \<Rightarrow> 'w handled" where
  "with_tenant env c req s w =
     (case s_tenantResolver s of
        None \<Rightarrow> route env c None req s w
      | Some resolver \<Rightarrow>
        (case resolver c w of
           (Panic m, w1) \<Rightarrow> (Panic m, s, w1, [])
         | (Err e, w1) \<Rightarrow> reply (NewErrorResponse (req_ID req) ErrCodeTenantRequired ''tenant identification required'') s w1
         | (Ret None, w1) \<Rightarrow> route env c None req s w1
         | (Ret (Some f), w1) \<Rightarrow>
             route env (if if_TenantID f \<noteq> [] then c \<lparr> cx_TenantID := if_TenantID f \<rparr> else c) (Some f) req s w1))"

definition authenticated ::
  "env \<Rightarrow> 'w ctx \<Rightarrow> JSONRPCRequest \<Rightarrow> 'w Server \<Rightarrow> 'w \<Rightarrow> 'w handled" where
  "authenticated env c req s w =
     (case s_authChecker s of
        None \<Rightarrow> with_tenant env c req s w
      | Some checker \<Rightarrow>
        (case checker c w of
           (Panic m, w1) \<Rightarrow> (Panic m, s, w1, [])
         | (Err e, w1) \<Rightarrow> reply (NewErrorResponse (req_ID req) ErrCodeUnauthorized (Error e)) s w1
         | (Ret _, w1) \<Rightarrow> with_tenant env c req s w1))"

definition request_body ::
  "env \<Rightarrow> 'w ctx \<Rightarrow> JSONRPCRequest \<Rightarrow> 'w Server \<Rightarrow> 'w \<Rightarrow> 'w handled" where
  "request_body env c req s w =
     (if req_Method req = ''initialize'' then lift (handleInitialize c req s) w
      else if \<not> s_initialized s
        then reply (NewErrorResponse (req_ID req) ErrCodeInvalidRequest (Error errNotInitialized)) s w
      else if req_Method req = ''ping'' then reply (NewResponse (req_ID req) REmpty) s w
      else authenticated env c req s w)"

definition handleRequest ::
  "env \<Rightarrow> 'w ctx \<Rightarrow> JSONRPCRequest \<Rightarrow> 'w Server \<Rightarrow> 'w \<Rightarrow> 'w handled" where
  "handleRequest env c req s w =
     (let s1 = (if req_ID req = None then s else trackRequest (req_ID req) (e_request env) s)
      in case request_body env (request_ctx req c) req s1 w of
           (r, s2, w2, effs) \<Rightarrow>
             (r, if req_ID req = None then s2 else untrackRequest (req_ID req) s2, w2, effs))"

text \<open>User-registered notification handlers; a panic is recovered and reported.\<close>

fun run_notification_handlers ::
  "'w Server \<Rightarrow> 'w ctx \<Rightarrow> string \<Rightarrow> json option \<Rightarrow> 'w NotificationHandlerFunc list \<Rightarrow> 'w \<Rightarrow> 'w" where
  "run_notification_handlers s c m params [] w = w"
| "run_notification_handlers s c m params (h # hs) w =
     (if cx_Done c \<noteq> None then w
      else case h c params w of
        (Panic r, w1) \<Rightarrow> run_notification_handlers s c m params hs
            (case s_notifPanicHandler s of None \<Rightarrow> w1 | Some ph \<Rightarrow> ph m r w1)
      | (_, w1) \<Rightarrow> run_notification_handlers s c m params hs w1)"

definition handleNotification ::
  "'w ctx \<Rightarrow> JSONRPCRequest \<Rightarrow> 'w Server \<Rightarrow> 'w \<Rightarrow> 'w Server \<times> 'w \<times> 'w effect list" where
  "handleNotification c req s w =
     (let (s1, effs) =
        (if req_Method req = ''notifications/cancelled'' then
           (case (case req_Params req of None \<Rightarrow> None | Some raw \<Rightarrow> decode_cancelled raw) of
              None \<Rightarrow> (s, [])
            | Some i \<Rightarrow> (case cancelRequest i s of
                 (None, s') \<Rightarrow> (s', []) | (Some k, s') \<Rightarrow> (s', [CancelRequest k])))
         else (s, []))
      in (s1, run_notification_handlers s1 c (req_Method req) (req_Params req)
                (case mget (s_notificationHandlers s1) (req_Method req) of None \<Rightarrow> [] | Some hs \<Rightarrow> hs) w, effs))"

definition HandleMessage ::
  "env \<Rightarrow> 'w ctx \<Rightarrow> json option \<Rightarrow> 'w Server \<Rightarrow> 'w
   \<Rightarrow> response option hres \<times> 'w Server \<times> 'w \<times> 'w effect list" where
  "HandleMessage env c data s w =
     (case (case data of None \<Rightarrow> None | Some v \<Rightarrow> UnmarshalRequest v) of
        None \<Rightarrow> (Ret (Some (NewErrorResponse None ErrCodeParseError ''parse error'')), s, w, [])
      | Some req \<Rightarrow>
        if req_JSONRPC req \<noteq> jsonrpcVersion
        then (Ret (Some (NewErrorResponse (req_ID req) ErrCodeInvalidRequest ''invalid jsonrpc version'')), s, w, [])
        else if req_Method req = []
        then (Ret (Some (NewErrorResponse (req_ID req) ErrCodeInvalidRequest ''method must not be empty'')), s, w, [])
        else if IsNotification req
        then (case handleNotification c req s w of (s1, w1, effs) \<Rightarrow> (Ret None, s1, w1, effs))
        else (case handleRequest env c req s w of
                (Ret r, s1, w1, effs) \<Rightarrow> (Ret (Some r), s1, w1, effs)
              | (Err e, s1, w1, effs) \<Rightarrow> (Err e, s1, w1, effs)
              | (Panic m, s1, w1, effs) \<Rightarrow> (Panic m, s1, w1, effs)))"

end
