(* ===== verification/Dispatch_Props.thy ===== *)
theory Dispatch_Props
  imports Dispatch
begin

text \<open>
  Properties of the dispatch layer: every response answers its request, the gates in front of
  the handlers hold, handlers keep the server well formed and the tracked requests in order, and
  tenants and sessions see only what is theirs.
\<close>

section \<open>Responses answer their request\<close>

definition answers :: "json option \<Rightarrow> response \<Rightarrow> bool" where
  "answers i r \<longleftrightarrow> wf_response r \<and> resp_ID r = i"

definition handled_ok :: "json option \<Rightarrow> 'w handled \<Rightarrow> bool" where
  "handled_ok i h \<longleftrightarrow> (\<forall>r. fst h = Ret r \<longrightarrow> answers i r) \<and> (\<forall>e. fst h \<noteq> Err e)"

named_theorems answer_intros \<open>responses and handled requests that answer their request\<close>

lemma answers_New [answer_intros]: "answers i (NewResponse i x)" "answers i (NewErrorResponse i c m)"
  by (simp_all add: answers_def)

lemma handled_reply [answer_intros]: "answers i r \<Longrightarrow> handled_ok i (reply r s w)"
  by (simp add: handled_ok_def reply_def)

lemma handled_lift [answer_intros]: "answers i (fst p) \<Longrightarrow> handled_ok i (lift p w)"
  by (cases p) (simp add: lift_def handled_reply)

lemma handled_panic [answer_intros]: "handled_ok i (Panic m, s, w, effs)"
  by (simp add: handled_ok_def)

lemma handled_ret [answer_intros]: "answers i r \<Longrightarrow> handled_ok i (Ret r, s, w, effs)"
  by (simp add: handled_ok_def)

lemma answers_paginated [answer_intros]: "answers (req_ID req) (handlePaginatedList req items g h)"
  by (auto simp: handlePaginatedList_def intro!: answer_intros split: option.splits sum.splits)

lemma answers_lists [answer_intros]:
  "answers (req_ID req) (fst (handleToolsList c f req s))"
  "answers (req_ID req) (fst (handleResourcesList f req s))"
  "answers (req_ID req) (fst (handleResourcesTemplatesList f req s))"
  "answers (req_ID req) (handleRootsList req s)"
  "answers (req_ID req) (fst (handlePromptsList f req s))"
  by (auto simp: handleToolsList_def handleResourcesList_def handleResourcesTemplatesList_def
      handleRootsList_def handlePromptsList_def Let_def intro!: answer_intros split: prod.splits)

lemma answers_initialize [answer_intros]: "answers (req_ID req) (fst (handleInitialize c req s))"
  by (auto simp: handleInitialize_def Let_def intro!: answer_intros split: option.splits prod.splits)

lemma answers_subscribe [answer_intros]:
  "answers (req_ID req) (fst (handleResourcesSubscribe c f req s))"
  "answers (req_ID req) (fst (handleResourcesUnsubscribe c req s))"
  by (auto simp: handleResourcesSubscribe_def handleResourcesUnsubscribe_def Let_def
      intro!: answer_intros split: option.splits prod.splits)

lemma handled_read [answer_intros]: "handled_ok (req_ID req) (handleResourcesRead c f req s w)"
  by (auto simp: handleResourcesRead_def intro!: answer_intros split: option.splits prod.splits hres.splits)

lemma handled_prompt [answer_intros]: "handled_ok (req_ID req) (handlePromptsGet c f req s w)"
  by (auto simp: handlePromptsGet_def intro!: answer_intros split: option.splits prod.splits hres.splits)

lemma handled_complete [answer_intros]: "handled_ok (req_ID req) (handleCompletionComplete c f req s w)"
  by (auto simp: handleCompletionComplete_def intro!: answer_intros
      split: option.splits prod.splits hres.splits sum.splits)

lemma handled_level [answer_intros]: "handled_ok (req_ID req) (handleLoggingSetLevel c req s w)"
  by (auto simp: handleLoggingSetLevel_def intro!: answer_intros split: option.splits prod.splits hres.splits)

lemma answers_access: "task_access c req s = Inl e \<Longrightarrow> answers (req_ID req) e"
  by (auto simp: task_access_def requireTaskStore_def parseTaskIdParams_def checkTaskOwnership_def Let_def
      intro!: answer_intros split: option.splits sum.splits if_splits)

lemma answers_tasks [answer_intros]:
  "answers (req_ID req) (handleTasksGet c req s)"
  "answers (req_ID req) (handleTasksResult c req s)"
  "answers (req_ID req) (handleTasksList c req s)"
  by (auto simp: handleTasksGet_def handleTasksResult_def handleTasksList_def requireTaskStore_def
      intro!: answer_intros dest: answers_access split: option.splits sum.splits prod.splits)

lemma handled_task_cancel [answer_intros]: "handled_ok (req_ID req) (handleTasksCancel env c req s w)"
  by (auto simp: handleTasksCancel_def intro!: answer_intros dest: answers_access
      split: option.splits sum.splits prod.splits)

lemma GenerateID_not_Err: "GenerateID e \<noteq> Err x"
  by (simp add: GenerateID_def split: sum.splits)

lemma handled_task_call [answer_intros]: "handled_ok (req_ID req) (handleTaskAugmentedCall env c f req p s w)"
  by (auto simp: handleTaskAugmentedCall_def Let_def GenerateID_not_Err intro!: answer_intros
      split: option.splits sum.splits prod.splits hres.splits)

lemma handled_call [answer_intros]: "handled_ok (req_ID req) (handleToolsCall env c f req s w)"
  by (auto simp: handleToolsCall_def Let_def intro!: answer_intros
      split: option.splits prod.splits hres.splits)

lemma handled_route [answer_intros]: "handled_ok (req_ID req) (route env c f req s w)"
  by (auto simp: route_def Let_def intro: answer_intros)

lemma handled_tenant [answer_intros]: "handled_ok (req_ID req) (with_tenant env c req s w)"
  by (auto simp: with_tenant_def intro!: answer_intros split: option.splits prod.splits hres.splits)

lemma handled_auth [answer_intros]: "handled_ok (req_ID req) (authenticated env c req s w)"
  by (auto simp: authenticated_def intro!: answer_intros split: option.splits prod.splits hres.splits)

lemma handled_body [answer_intros]: "handled_ok (req_ID req) (request_body env c req s w)"
  by (auto simp: request_body_def intro!: answer_intros)

lemma handled_request [answer_intros]: "handled_ok (req_ID req) (handleRequest env c req s w)"
proof -
  let ?s1 = "if req_ID req = None then s else trackRequest (req_ID req) (e_request env) s"
  have "handled_ok (req_ID req) (request_body env (request_ctx req c) req ?s1 w)" by (rule handled_body)
  then show ?thesis by (auto simp: handleRequest_def handled_ok_def Let_def split: prod.splits)
qed

text \<open>C1: \<open>HandleMessage\<close> never returns a Go error. Text that is not a JSON-RPC message is answered
  with a parse error without identifier; otherwise every response carries the request's
  identifier and either a result or an error but not both; and a message that has no identifier,
  the right version and a method gets no response.\<close>

theorem responses_answer_requests:
  "let out = fst (HandleMessage env c data s w);
       parsed = (case data of None \<Rightarrow> None | Some v \<Rightarrow> UnmarshalRequest v)
   in (\<forall>e. out \<noteq> Err e)
      \<and> (parsed = None \<longrightarrow> out = Ret (Some (NewErrorResponse None ErrCodeParseError ''parse error'')))
      \<and> (\<forall>req. parsed = Some req \<longrightarrow>
           (\<forall>r. out = Ret (Some r) \<longrightarrow> answers (req_ID req) r)
           \<and> (IsNotification req \<and> req_JSONRPC req = jsonrpcVersion \<and> req_Method req \<noteq> [] \<longrightarrow> out = Ret None)
           \<and> (\<not> IsNotification req \<longrightarrow> out \<noteq> Ret None))"
proof -
  have not_err: "handleRequest env c req s w \<noteq> (Err e, x)"
    and ok: "handleRequest env c req s w = (Ret r, x) \<Longrightarrow> answers (req_ID req) r" for req e x r
    using handled_request [of req env c s w] by (auto simp: handled_ok_def)
  show ?thesis
    by (auto simp: HandleMessage_def Let_def not_err answers_New dest: ok
        split: option.splits prod.splits hres.splits)
qed

definition demo_env :: env where
  "demo_env = \<lparr> e_now = ''t'', e_entropy = Inr [7], e_request = 1, e_text = (\<lambda>_. ''{}'') \<rparr>"

definition demo_ctx :: "string \<Rightarrow> nat ctx" where
  "demo_ctx sid = base_ctx.extend (Background \<lparr> cx_SubscriberID := sid \<rparr>) (ctx.fields None)"

definition demo_server :: "nat Server" where
  "demo_server = (NewServer ''demo'' ''1'' []) \<lparr> s_initialized := True,
     s_tools := [(''a'', echo_tool ''a'')] \<rparr>"

theorem responses_answer_requests_witness:
  "fst (HandleMessage demo_env (demo_ctx ''s1'') None demo_server 0)
     = Ret (Some (NewErrorResponse None ErrCodeParseError ''parse error''))"
  using responses_answer_requests [of demo_env "demo_ctx ''s1''" None demo_server 0]
  by (simp add: Let_def)

section \<open>Gates\<close>

text \<open>The server apart from the tracked requests.\<close>

definition untracked :: "'w Server \<Rightarrow> 'w Server" where
  "untracked s = s \<lparr> s_requests := [] \<rparr>"

lemma untracked_track [simp]: "untracked (trackRequest i k s) = untracked s"
  by (simp add: untracked_def trackRequest_def split: option.splits)

lemma untracked_untrack [simp]: "untracked (untrackRequest i s) = untracked s"
  by (simp add: untracked_def untrackRequest_def split: option.splits)

lemma track_fields [simp]:
  "s_initialized (trackRequest i k s) = s_initialized s"
  "s_authChecker (trackRequest i k s) = s_authChecker s"
  "s_tenantResolver (trackRequest i k s) = s_tenantResolver s"
  by (simp_all add: trackRequest_def split: option.splits)

text \<open>Before the handshake every request other than \<open>initialize\<close> is refused: the response is
  the not-initialized error, no user code runs, and nothing but the tracking of requests is
  touched.\<close>

theorem not_initialized_gate:
  assumes "\<not> s_initialized s" and "req_Method req \<noteq> ''initialize''"
  shows "case handleRequest env c req s w of
     (r, s', w', effs) \<Rightarrow>
        r = Ret (NewErrorResponse (req_ID req) ErrCodeInvalidRequest (Error errNotInitialized))
        \<and> untracked s' = untracked s \<and> w' = w \<and> effs = []"
  using assms by (simp add: handleRequest_def request_body_def reply_def Let_def)

definition demo_request :: "string \<Rightarrow> json option \<Rightarrow> JSONRPCRequest" where
  "demo_request m p = \<lparr> req_JSONRPC = ''2.0'', req_ID = Some (JNum ''1''), req_Method = m, req_Params = p,
     req_hasID = True \<rparr>"

theorem not_initialized_gate_witness:
  "case handleRequest demo_env (demo_ctx ''s1'') (demo_request ''tools/list'' None)
          (demo_server \<lparr> s_initialized := False \<rparr>) 0 of
     (r, s', w', effs) \<Rightarrow> w' = 0 \<and> effs = []"
proof -
  have "\<not> s_initialized (demo_server \<lparr> s_initialized := False \<rparr>)" by simp
  moreover have "req_Method (demo_request ''tools/list'' None) \<noteq> ''initialize''" by (simp add: demo_request_def)
  ultimately show ?thesis
    using not_initialized_gate [where s = "demo_server \<lparr> s_initialized := False \<rparr>"
        and req = "demo_request ''tools/list'' None" and env = demo_env and c = "demo_ctx ''s1''" and w = 0] by (auto split: prod.splits)
qed

text \<open>What lets a request past the authentication: there is no checker, or the checker returns without an error.
  The world is then what the checker left.\<close>

definition passes_auth :: "'w Server \<Rightarrow> 'w ctx \<Rightarrow> 'w \<Rightarrow> 'w \<Rightarrow> bool" where
  "passes_auth s c w w1 \<longleftrightarrow>
     (case s_authChecker s of None \<Rightarrow> w1 = w | Some checker \<Rightarrow> (\<exists>u. checker c w = (Ret u, w1)))"

text \<open>C9: On an initialized server a request other than \<open>initialize\<close> and \<open>ping\<close> that the
  authentication checker rejects is answered with the code for unauthorized requests; no handler
  runs (the world is what the checker left), the server is unchanged and no task is started. The
  same holds, with the generic tenant error, when there is no checker or the checker accepts, and the tenant
  resolver, run on the world the checker left, fails.\<close>

theorem auth_and_tenant_gate:
  assumes "s_initialized s" and "req_Method req \<notin> {''initialize'', ''ping''}"
  shows "(\<forall>checker e w1. s_authChecker s = Some checker \<and> checker (request_ctx req c) w = (Err e, w1) \<longrightarrow>
            (case handleRequest env c req s w of (r, s', w', effs) \<Rightarrow>
               r = Ret (NewErrorResponse (req_ID req) ErrCodeUnauthorized (Error e))
               \<and> untracked s' = untracked s \<and> w' = w1 \<and> effs = []))
    \<and> (\<forall>resolver e w1 w2. passes_auth s (request_ctx req c) w w1 \<and> s_tenantResolver s = Some resolver
          \<and> resolver (request_ctx req c) w1 = (Err e, w2) \<longrightarrow>
            (case handleRequest env c req s w of (r, s', w', effs) \<Rightarrow>
               r = Ret (NewErrorResponse (req_ID req) ErrCodeTenantRequired ''tenant identification required'')
               \<and> untracked s' = untracked s \<and> w' = w2 \<and> effs = []))"
  using assms
  by (auto simp: handleRequest_def request_body_def authenticated_def with_tenant_def reply_def passes_auth_def Let_def split: option.splits)

text \<open>A rejecting checker, and an accepting checker in front of a resolver that fails.\<close>

theorem auth_and_tenant_gate_witness:
  "(case handleRequest demo_env (demo_ctx ''s1'') (demo_request ''tools/list'' None)
          (SetAuthChecker (Some (\<lambda>_ w. (Err (ErrNew ''no''), w + 1))) demo_server) 0 of
     (r, s', w', effs) \<Rightarrow>
        r = Ret (NewErrorResponse (Some (JNum ''1'')) ErrCodeUnauthorized ''no'') \<and> w' = 1 \<and> effs = [])
   \<and> (case handleRequest demo_env (demo_ctx ''s1'') (demo_request ''tools/list'' None)
          (SetTenantResolver (Some (\<lambda>_ w. (Err (ErrNew ''none''), w + 2))) (SetAuthChecker (Some (\<lambda>_ w. (Ret (), w + 1))) demo_server)) 0 of
     (r, s', w', effs) \<Rightarrow>
        r = Ret (NewErrorResponse (Some (JNum ''1'')) ErrCodeTenantRequired ''tenant identification required'') \<and> w' = 3 \<and> effs = [])"
proof -
  let ?s = "SetAuthChecker (Some (\<lambda>_ w. (Err (ErrNew ''no''), w + 1))) demo_server"
  let ?t = "SetTenantResolver (Some (\<lambda>_ w. (Err (ErrNew ''none''), w + 2))) (SetAuthChecker (Some (\<lambda>_ w. (Ret (), w + 1))) demo_server)"
  have i: "s_initialized ?s" "s_initialized ?t" by (simp_all add: SetAuthChecker_def SetTenantResolver_def demo_server_def)
  have m: "req_Method (demo_request ''tools/list'' None) \<notin> {''initialize'', ''ping''}" by (simp add: demo_request_def)
  have p: "passes_auth ?t (request_ctx (demo_request ''tools/list'' None) (demo_ctx ''s1'')) 0 1"
    by (simp add: passes_auth_def SetAuthChecker_def SetTenantResolver_def)
  note g = auth_and_tenant_gate [where req = "demo_request ''tools/list'' None" and c = "demo_ctx ''s1''" and w = 0 and env = demo_env, OF _ m]
  have 1: "case handleRequest demo_env (demo_ctx ''s1'') (demo_request ''tools/list'' None) ?s 0 of (r, s', w', effs) \<Rightarrow>
      r = Ret (NewErrorResponse (Some (JNum ''1'')) ErrCodeUnauthorized ''no'') \<and> w' = 1 \<and> effs = []"
    using g [OF i(1)] by (auto simp: SetAuthChecker_def demo_request_def split: prod.splits)
  have "case handleRequest demo_env (demo_ctx ''s1'') (demo_request ''tools/list'' None) ?t 0 of (r, s', w', effs) \<Rightarrow>
      r = Ret (NewErrorResponse (Some (JNum ''1'')) ErrCodeTenantRequired ''tenant identification required'') \<and> w' = 3 \<and> effs = []"
    using g [OF i(2), THEN conjunct2, rule_format, OF conjI [OF p]] by (auto simp: SetTenantResolver_def demo_request_def split: prod.splits)
  with 1 show ?thesis by blast
qed

section \<open>The server stays well formed\<close>

definition wf_server :: "'w Server \<Rightarrow> bool" where
  "wf_server s \<longleftrightarrow> wf_registries s \<and> wf_sessions (s_sessionTools s)
     \<and> (\<forall>ts. s_taskStore s = Some ts \<longrightarrow> wf_tasks ts)
     \<and> wf_map (s_subscriptions s)"

definition keeps :: "'w Server \<Rightarrow> 'w Server \<Rightarrow> bool" where
  "keeps s s' \<longleftrightarrow> s_requests s' = s_requests s \<and> (wf_server s \<longrightarrow> wf_server s')"

named_theorems keep_intros \<open>operations that keep the server well formed and the tracked requests\<close>

lemma keeps_refl [keep_intros]: "keeps s s"
  by (simp add: keeps_def)

lemma keeps_trans: "keeps s s1 \<Longrightarrow> keeps s1 s2 \<Longrightarrow> keeps s s2"
  by (simp add: keeps_def)

lemma wf_registries_other [simp]:
  "wf_registries (s \<lparr> s_sessionTools := r \<rparr>) = wf_registries s"
  "wf_registries (s \<lparr> s_taskStore := ts \<rparr>) = wf_registries s"
  "wf_registries (s \<lparr> s_requests := q \<rparr>) = wf_registries s"
  "wf_registries (s \<lparr> s_subscriptions := m \<rparr>) = wf_registries s"
  "wf_registries (s \<lparr> s_negotiatedVersion := v, s_clientCaps := caps, s_initialized := b \<rparr>) = wf_registries s"
  by (simp_all add: wf_registries_def coherent_defs)

lemma get_other_fields [simp]:
  "s_requests (snd (getSortedTools s)) = s_requests s"
  "s_requests (snd (getSortedResources s)) = s_requests s"
  "s_requests (snd (getSortedTemplates s)) = s_requests s"
  "s_requests (snd (getSortedPrompts s)) = s_requests s"
  "s_sessionTools (snd (getSortedTools s)) = s_sessionTools s"
  "s_sessionTools (snd (getSortedResources s)) = s_sessionTools s"
  "s_sessionTools (snd (getSortedTemplates s)) = s_sessionTools s"
  "s_sessionTools (snd (getSortedPrompts s)) = s_sessionTools s"
  "s_taskStore (snd (getSortedTools s)) = s_taskStore s"
  "s_taskStore (snd (getSortedResources s)) = s_taskStore s"
  "s_taskStore (snd (getSortedTemplates s)) = s_taskStore s"
  "s_taskStore (snd (getSortedPrompts s)) = s_taskStore s"
  "s_subscriptions (snd (getSortedTools s)) = s_subscriptions s"
  "s_subscriptions (snd (getSortedResources s)) = s_subscriptions s"
  "s_subscriptions (snd (getSortedTemplates s)) = s_subscriptions s"
  "s_subscriptions (snd (getSortedPrompts s)) = s_subscriptions s"
  by (simp_all add: get_defs Let_def split: option.splits)

lemma keeps_get [keep_intros]:
  "keeps s (snd (getSortedTools s))" "keeps s (snd (getSortedResources s))"
  "keeps s (snd (getSortedTemplates s))" "keeps s (snd (getSortedPrompts s))"
  by (simp_all add: keeps_def wf_server_def wf_getters)

lemma keeps_find [keep_intros]: "keeps s (snd (findTemplateForURI uri s))"
  using keeps_get(3) [of s] by (cases "getSortedTemplates s") (simp add: findTemplateForURI_def)

lemma keeps_sessions:
  assumes "wf_sessions (s_sessionTools s) \<Longrightarrow> wf_sessions r"
  shows "keeps s (s \<lparr> s_sessionTools := r \<rparr>)"
  using assms unfolding keeps_def wf_server_def by simp

lemma keeps_tools_list [keep_intros]: "keeps s (snd (handleToolsList c f req s))"
proof -
  obtain ts s1 where g: "getSortedTools s = (ts, s1)" by fastforce
  then have k: "keeps s s1" using keeps_get(1) [of s] by simp
  obtain x r where r: "sortedTools (cx_SubscriberID c) (s_sessionTools s1) = (x, r)" by fastforce
  then have wf: "wf_sessions (s_sessionTools s1) \<Longrightarrow> wf_sessions r"
    using wf_sorted [of "s_sessionTools s1" "cx_SubscriberID c"] by simp
  have "snd (handleToolsList c f req s) = s1 \<lparr> s_sessionTools := r \<rparr>"
    by (simp add: handleToolsList_def g r Let_def)
  then show ?thesis using keeps_trans [OF k keeps_sessions [OF wf]] by simp
qed

lemma keeps_lists [keep_intros]:
  "keeps s (snd (handleResourcesList f req s))"
  "keeps s (snd (handleResourcesTemplatesList f req s))"
  "keeps s (snd (handlePromptsList f req s))"
  using keeps_get [of s]
  by (auto simp: handleResourcesList_def handleResourcesTemplatesList_def handlePromptsList_def Let_def
      split: prod.splits)

lemma keeps_initialize [keep_intros]: "keeps s (snd (handleInitialize c req s))"
  by (auto simp: handleInitialize_def keeps_def wf_server_def Let_def split: option.splits prod.splits)

lemma keeps_hidden: "keeps s (snd (subscription_hidden f uri s))"
  using keeps_find [of s uri] by (auto simp: subscription_hidden_def keeps_refl split: option.splits prod.splits)

lemma keeps_Subscribe: "keeps s (snd (Subscribe sub uri sender s))"
  by (auto simp: Subscribe_def keeps_def wf_server_def wf_map_mput split: option.splits)

lemma keeps_subscribe [keep_intros]: "keeps s (snd (handleResourcesSubscribe c f req s))"
proof -
  have "keeps s (snd (Subscribe (cx_SubscriberID c) uri (cx_Sender c) (snd (subscription_hidden f uri s))))" for uri
    using keeps_trans [OF keeps_hidden keeps_Subscribe] .
  then show ?thesis using keeps_hidden [of s f]
    by (auto simp: handleResourcesSubscribe_def keeps_refl Let_def split: option.splits prod.splits)
       (metis snd_conv)+
qed

lemma keeps_unsubscribe [keep_intros]: "keeps s (snd (handleResourcesUnsubscribe c req s))"
  by (auto simp: handleResourcesUnsubscribe_def Unsubscribe_def keeps_def wf_server_def wf_map_mdel
      split: option.splits)

lemma keeps_ReadResource: "keeps s (fst (snd (ReadResource c f uri s st)))"
  using keeps_find [of s uri]
  by (auto simp: ReadResource_def keeps_refl split: option.splits prod.splits)

definition server_of :: "'w handled \<Rightarrow> 'w Server" where
  "server_of h = fst (snd h)"

lemma server_of_simps [simp]:
  "server_of (x, s, w, effs) = s" "server_of (reply r s w) = s" "server_of (lift p w) = snd p"
  by (simp_all add: server_of_def reply_def lift_def split: prod.splits)

lemma keeps_read [keep_intros]: "keeps s (server_of (handleResourcesRead c f req s w))"
  using keeps_ReadResource [of s c f _ "with_holder w"]
  by (auto simp: handleResourcesRead_def keeps_refl split: option.splits prod.splits hres.splits)
     (metis fst_conv snd_conv)+

lemma same_server [simp]:
  "server_of (handlePromptsGet c f req s w) = s"
  "server_of (handleCompletionComplete c f req s w) = s"
  "server_of (handleLoggingSetLevel c req s w) = s"
  by (auto simp: handlePromptsGet_def handleCompletionComplete_def handleLoggingSetLevel_def
      split: option.splits prod.splits hres.splits sum.splits)

lemma keeps_task_store: "(\<And>ts. s_taskStore s = Some ts \<Longrightarrow> wf_tasks ts \<Longrightarrow> wf_tasks ts') \<Longrightarrow>
  s_taskStore s \<noteq> None \<Longrightarrow> keeps s (s \<lparr> s_taskStore := Some ts' \<rparr>)"
  by (auto simp: keeps_def wf_server_def)

lemma access_store: "task_access c req s = Inr (ts, tid) \<Longrightarrow> s_taskStore s = Some ts"
  by (auto simp: task_access_def split: option.splits sum.splits)

lemma keeps_tasks_cancel [keep_intros]: "keeps s (server_of (handleTasksCancel env c req s w))"
proof (cases "task_access c req s")
  case (Inr p)
  obtain ts tid where p: "p = (ts, tid)" by fastforce
  have st: "s_taskStore s = Some ts" using Inr p access_store by simp
  have "wf_tasks ts \<Longrightarrow> wf_tasks (snd (snd (Cancel (e_now env) tid ts)))" by (rule wf_Cancel)
  with Inr p st show ?thesis
    by (auto simp: handleTasksCancel_def keeps_def wf_server_def split: prod.splits sum.splits)
qed (simp add: handleTasksCancel_def keeps_refl)

lemma keeps_task_call [keep_intros]: "keeps s (server_of (handleTaskAugmentedCall env c f req p s w))"
proof (cases "s_taskStore s")
  case (Some ts)
  have "wf_tasks ts \<Longrightarrow> wf_tasks (snd (SubmitWithOptions (e_now env) tid opts ts))" for tid opts by (rule wf_Submit)
  with Some show ?thesis
    by (auto simp: handleTaskAugmentedCall_def keeps_def wf_server_def Let_def
        split: option.splits prod.splits sum.splits hres.splits) (metis snd_conv)+
qed (simp add: handleTaskAugmentedCall_def keeps_refl)

lemma keeps_tools_call [keep_intros]: "keeps s (server_of (handleToolsCall env c f req s w))"
  by (auto simp: handleToolsCall_def Let_def intro!: keep_intros split: option.splits prod.splits hres.splits)

lemma keeps_route: "keeps s (server_of (route env c f req s w))"
  by (simp add: route_def Let_def keep_intros)

lemma keeps_tenant: "keeps s (server_of (with_tenant env c req s w))"
  by (auto simp: with_tenant_def keeps_route keeps_refl split: option.splits prod.splits hres.splits)

lemma keeps_auth: "keeps s (server_of (authenticated env c req s w))"
  by (auto simp: authenticated_def keeps_tenant keeps_refl split: option.splits prod.splits hres.splits)

lemma keeps_body: "keeps s (server_of (request_body env c req s w))"
  by (simp add: request_body_def keeps_auth keep_intros)


lemma wf_server_requests [simp]: "wf_server (s \<lparr> s_requests := q \<rparr>) = wf_server s"
  by (simp add: wf_server_def)

lemma wf_track [simp]:
  "wf_server (trackRequest i k s) = wf_server s" "wf_server (untrackRequest i s) = wf_server s"
  "wf_server (snd (cancelRequest i s)) = wf_server s"
  by (simp_all add: trackRequest_def untrackRequest_def cancelRequest_def split: option.splits)

lemma request_server:
  assumes "handleRequest env c req s w = (r, s', w', effs)"
  shows "(wf_server s \<longrightarrow> wf_server s')
    \<and> s_requests s' = (case normalizeRequestID (req_ID req) of None \<Rightarrow> s_requests s
        | Some key \<Rightarrow> mdel key (mput key (e_request env) (s_requests s)))"
proof -
  let ?s1 = "if req_ID req = None then s else trackRequest (req_ID req) (e_request env) s"
  obtain r2 s2 w2 effs2 where b: "request_body env (request_ctx req c) req ?s1 w = (r2, s2, w2, effs2)"
    by (metis prod_cases4)
  have k: "keeps ?s1 s2" using keeps_body [of ?s1 env "request_ctx req c" req w] unfolding b by simp
  have s': "s' = (if req_ID req = None then s2 else untrackRequest (req_ID req) s2)"
    using assms b by (simp add: handleRequest_def Let_def)
  show ?thesis
  proof (cases "req_ID req")
    case None
    with k s' show ?thesis by (simp add: keeps_def normalizeRequestID_def)
  next
    case (Some v)
    with k s' show ?thesis
      by (simp add: keeps_def untrackRequest_def trackRequest_def split: option.splits)
  qed
qed

text \<open>C6: Handling any message keeps the server well formed: registries, caches, session tools, tasks
  and subscriptions. It adds no tracked request that outlives it, and after a request with an
  identifier nothing is tracked under that identifier, whether the handlers returned or panicked:
  cancelling it is a no-op.\<close>

theorem message_keeps_server:
  assumes "wf_server s" and "HandleMessage env c data s w = (out, s', w', effs)"
  shows "wf_server s' \<and> (\<forall>k. mget (s_requests s') k \<in> {None, mget (s_requests s) k})
    \<and> (\<forall>v req. data = Some v \<and> UnmarshalRequest v = Some req \<and> \<not> IsNotification req
         \<and> req_JSONRPC req = jsonrpcVersion \<and> req_Method req \<noteq> [] \<longrightarrow>
         cancelRequest (req_ID req) s' = (None, s'))"
proof -
  have notif: "wf_server s1 \<and> (\<forall>k. mget (s_requests s1) k \<in> {None, mget (s_requests s) k})"
    if "handleNotification c req s w = (s1, w1, effs1)" for req s1 w1 effs1
    using that assms(1)
    by (auto simp: handleNotification_def Let_def cancelRequest_def mget_mdel split: if_splits option.splits prod.splits)
  have req: "wf_server s1 \<and> (\<forall>k. mget (s_requests s1) k \<in> {None, mget (s_requests s) k})
      \<and> cancelRequest (req_ID req) s1 = (None, s1)"
    if "handleRequest env c req s w = (r1, s1, w1, effs1)" for req r1 s1 w1 effs1
    using request_server [OF that] assms(1)
    by (auto simp: cancelRequest_def mget_mdel mget_mput split: option.splits)
  show ?thesis
    using assms by (auto simp: HandleMessage_def dest!: notif req split: option.splits if_splits prod.splits hres.splits)
qed

lemma wf_demo_server: "wf_server demo_server"
  by (simp add: wf_server_def wf_registries_def coherent_defs demo_server_def NewServer_def keyed_def
      wf_map_def echo_tool_def wf_sessions_def newSessionToolRegistry_def wf_ring_def session_limit_def
      DefaultMaxSessions_def)

lemma foldName_fields:
  "foldName ''jsonrpc'' = ''JSONRPC''" "foldName ''id'' = ''ID''" "foldName ''method'' = ''METHOD''"
  "foldName ''params'' = ''PARAMS''"
  by (subst foldName_ascii; simp add: fold_eval)+

lemmas unmarshal_eval = UnmarshalRequest_def as_object_def field_def members_def d_raw_def foldName_fields

theorem message_keeps_server_witness:
  "let s' = fst (snd (HandleMessage demo_env (demo_ctx ''s1'')
      (Some (JObj [(''jsonrpc'', JStr ''2.0''), (''id'', JNum ''1''), (''method'', JStr ''ping'')])) demo_server (0 :: nat)))
   in wf_server s' \<and> fst (cancelRequest (Some (JNum ''1'')) s') = None"
proof -
  let ?data = "Some (JObj [(''jsonrpc'', JStr ''2.0''), (''id'', JNum ''1''), (''method'', JStr ''ping'')])"
  let ?req = "\<lparr> req_JSONRPC = ''2.0'', req_ID = Some (JNum ''1''), req_Method = ''ping'', req_Params = None, req_hasID = True \<rparr>"
  obtain out s' w' effs where h: "HandleMessage demo_env (demo_ctx ''s1'') ?data demo_server 0 = (out, s', w', effs)"
    by (metis prod_cases4)
  have "UnmarshalRequest (the ?data) = Some ?req"
    by (simp add: unmarshal_eval del: foldName.simps)
  then show ?thesis using message_keeps_server [OF wf_demo_server h]
    by (simp add: h IsNotification_def jsonrpcVersion_def)
qed

section \<open>Listing and calling tools\<close>

lemma exact_unique:
  assumes "sorted_wrt (<) (map key xs)" "sorted_wrt (<) (map (key :: 'a \<Rightarrow> 'k :: linorder) ys)" "set xs = set ys"
  shows "xs = ys"
  using assms map_sorted_distinct_set_unique [of key xs ys]
  by (auto simp: strict_sorted_iff distinct_map)

text \<open>The tools that \<open>handleToolsList\<close> pages through.\<close>

definition shown_tools :: "'w Server \<Rightarrow> string \<Rightarrow> 'w ItemFilter option \<Rightarrow> 'w Tool list" where
  "shown_tools s sid f =
     (let allTools = fst (getSortedTools s);
          ss = (case fst (sortedTools sid (s_sessionTools s)) of None \<Rightarrow> [] | Some xs \<Rightarrow> xs)
      in if ss = [] then filter (AllowTool f) allTools else mergeSessionToolsFiltered allTools ss f)"

lemma tools_list_shown:
  "fst (handleToolsList c f req s)
     = handlePaginatedList req (shown_tools s (cx_SubscriberID c) f) toolToInfo RListTools"
  using get_other_fields(5) [of s]
  by (cases "getSortedTools s"; cases "sortedTools (cx_SubscriberID c) (s_sessionTools s)")
     (simp add: handleToolsList_def shown_tools_def Let_def)

lemma shown_merge:
  "shown_tools s sid f = filter (AllowTool f) (mergeSessionTools (fst (getSortedTools s))
     (case fst (sortedTools sid (s_sessionTools s)) of None \<Rightarrow> [] | Some xs \<Rightarrow> xs))"
  by (simp add: shown_tools_def mergeFiltered_filter Let_def)

lemma session_list_lookup:
  fixes t :: "'w Tool" and sid :: string
  assumes "wf_sessions r"
  defines "xs \<equiv> (case fst (sortedTools sid r) of None \<Rightarrow> [] | Some xs \<Rightarrow> xs)"
  shows "sorted_wrt (<) (map tool_Name xs)" and "t \<in> set xs \<longleftrightarrow> lookup r sid (tool_Name t) = Some t"
    and "n \<in> tool_Name ` set xs \<longleftrightarrow> lookup r sid n \<noteq> None"
proof -
  have "sorted_wrt (<) (map tool_Name xs) \<and> (\<forall>t. t \<in> set xs \<longleftrightarrow> lookup r sid (tool_Name t) = Some t)
      \<and> (\<forall>n t. lookup r sid n = Some t \<longrightarrow> tool_Name t = n)"
  proof (cases "sid = [] \<or> mget (sr_sessions r) sid = None")
    case True
    then show ?thesis using assms by (auto simp: sortedTools_def lookup_def)
  next
    case False
    then obtain st where st: "mget (sr_sessions r) sid = Some st" by auto
    then have k: "keyed tool_Name (st_tools st)" and e: "mget (st_tools st) [] = None"
      using wf_session_entry [OF assms(1) st] by (auto simp: wf_session_def)
    have xs: "xs = sorted_snapshot tool_Name (st_tools st)"
      using False st unfolding xs_def sortedTools_exact [OF assms(1)] by simp
    have "lookup r sid n = mget (st_tools st) n" for n using False st e by (simp add: lookup_def)
    then show ?thesis
      using sorted_snapshot_strict [OF k] mem_sorted_snapshot [OF k] keyed_mget [OF k] xs by simp
  qed
  then have srt: "sorted_wrt (<) (map tool_Name xs)"
    and mem: "t \<in> set xs \<longleftrightarrow> lookup r sid (tool_Name t) = Some t"
    and key: "lookup r sid n = Some t \<Longrightarrow> tool_Name t = n" for n t by blast+
  show "sorted_wrt (<) (map tool_Name xs)" by (rule srt)
  show "t \<in> set xs \<longleftrightarrow> lookup r sid (tool_Name t) = Some t" by (rule mem)
  show "n \<in> tool_Name ` set xs \<longleftrightarrow> lookup r sid n \<noteq> None"
  proof
    assume "n \<in> tool_Name ` set xs"
    then show "lookup r sid n \<noteq> None" using mem by auto
  next
    assume "lookup r sid n \<noteq> None"
    then obtain t where l: "lookup r sid n = Some t" by auto
    then have n: "tool_Name t = n" by (rule key)
    then have "t \<in> set xs" using mem [of t] l by simp
    then show "n \<in> tool_Name ` set xs" using n by blast
  qed
qed

lemma shown_tools_exact:
  assumes "wf_server s"
  shows "sorted_wrt (<) (map tool_Name (shown_tools s sid f))"
    and "t \<in> set (shown_tools s sid f) \<longleftrightarrow> visible_tool s sid (tool_Name t) = Some t \<and> AllowTool f t"
proof -
  have ex: "exact_list tool_Name (s_tools s) (fst (getSortedTools s))" and wf: "wf_sessions (s_sessionTools s)"
    using assms wf_lists_exact(1) by (auto simp: wf_server_def)
  note ss = session_list_lookup [OF wf]
  have g: "sorted_wrt (<) (map tool_Name (fst (getSortedTools s)))" using ex by (simp add: exact_list_def)
  show "sorted_wrt (<) (map tool_Name (shown_tools s sid f))"
    unfolding shown_merge using merge_sorted [OF g ss(1) [of sid]] by (simp add: sorted_wrt_map sorted_wrt_filter)
  show "t \<in> set (shown_tools s sid f) \<longleftrightarrow> visible_tool s sid (tool_Name t) = Some t \<and> AllowTool f t"
    unfolding shown_merge using merge_mem [OF g ss(1) [of sid], of t] ss(2,3) ex
    by (auto simp: visible_tool_def exact_list_def split: option.splits)
qed


lemma visible_name:
  assumes "wf_server s" "visible_tool s sid n = Some t" shows "tool_Name t = n"
proof (cases "lookup (s_sessionTools s) sid n")
  case None
  have "keyed tool_Name (s_tools s)"
    using assms(1) rtool.coherent_keyed [of s] by (simp add: wf_server_def wf_registries_def)
  then show ?thesis using keyed_mget assms(2) None by (fastforce simp: visible_tool_def)
next
  case (Some u)
  then have "n \<in> tool_Name ` set (case fst (sortedTools sid (s_sessionTools s)) of None \<Rightarrow> [] | Some xs \<Rightarrow> xs)"
    using session_list_lookup(3) [of "s_sessionTools s" n sid] assms(1) by (simp add: wf_server_def)
  then obtain v where "tool_Name v = n" "lookup (s_sessionTools s) sid (tool_Name v) = Some v"
    using session_list_lookup(2) [of "s_sessionTools s" _ sid] assms(1) by (auto simp: wf_server_def)
  then show ?thesis using assms(2) Some by (simp add: visible_tool_def)
qed

text \<open>C11: \<open>tools/list\<close> and \<open>tools/call\<close> agree. A list request without parameters answers with the
  tools that the session sees and the tenant's filter allows, each once and sorted by name; a call
  naming one of them runs exactly that tool through the middleware chain, and a call of any other
  name fails with the not-found error before any user code has run, whether the tool exists or not.\<close>

theorem tools_list_matches_call:
  assumes "wf_server s" and "req_Params req = None"
  shows "\<exists>ts. fst (handleToolsList c f req s) = NewResponse (req_ID req) (RListTools (map toolToInfo ts) [])
    \<and> sorted_wrt (<) (map tool_Name ts)
    \<and> (\<forall>t \<in> set ts. CallTool c f (tool_Name t) input s st =
         (case buildChain s (the_handler t) (tool_ctx t c) input st of
            (Ret out, st') \<Rightarrow> (Ret (NewTextResult out), st')
          | (Err e, st') \<Rightarrow> (Ret (NewErrorResult (Error e)), st')
          | (Panic m, st') \<Rightarrow> (Panic m, st')))
    \<and> (\<forall>n. n \<notin> tool_Name ` set ts \<longrightarrow> CallTool c f n input s st = (Err errToolNotFound, st))"
proof -
  let ?ts = "shown_tools s (cx_SubscriberID c) f"
  note ex = shown_tools_exact [OF assms(1), where sid = "cx_SubscriberID c" and f = f]
  have "CallTool c f n input s st = (Err errToolNotFound, st)" if n: "n \<notin> tool_Name ` set ?ts" for n
  proof (cases "visible_tool s (cx_SubscriberID c) n")
    case (Some t)
    with visible_name [OF assms(1) Some] n ex(2) [where t = t] have "\<not> AllowTool f t" by force
    then show ?thesis by (simp add: CallTool_def Some)
  qed (simp add: CallTool_def)
  moreover have "CallTool c f (tool_Name t) input s st =
      (case buildChain s (the_handler t) (tool_ctx t c) input st of
         (Ret out, st') \<Rightarrow> (Ret (NewTextResult out), st')
       | (Err e, st') \<Rightarrow> (Ret (NewErrorResult (Error e)), st')
       | (Panic m, st') \<Rightarrow> (Panic m, st'))" if "t \<in> set ?ts" for t
    using ex(2) that by (simp add: CallTool_def)
  moreover have "fst (handleToolsList c f req s) = NewResponse (req_ID req) (RListTools (map toolToInfo ?ts) [])"
    by (simp add: tools_list_shown handlePaginatedList_def assms(2))
  ultimately show ?thesis using ex(1) by blast
qed


theorem tools_list_matches_call_witness:
  "CallTool (demo_ctx ''s1'') None ''b'' ''{}'' demo_server (with_holder 0) = (Err errToolNotFound, with_holder 0)
   \<and> CallTool (demo_ctx ''s1'') None ''a'' ''{}'' demo_server (with_holder 0) = (Ret (NewTextResult ''{}''), with_holder 0)"
proof -
  have r: "req_Params (demo_request ''tools/list'' None) = None" by (simp add: demo_request_def)
  obtain ts :: "nat Tool list" where ts: "fst (handleToolsList (demo_ctx ''s1'') None (demo_request ''tools/list'' None) demo_server)
        = NewResponse (req_ID (demo_request ''tools/list'' None)) (RListTools (map toolToInfo ts) [])"
      "\<forall>n. n \<notin> tool_Name ` set ts \<longrightarrow> CallTool (demo_ctx ''s1'') None n ''{}'' demo_server (with_holder 0) = (Err errToolNotFound, with_holder 0)"
    using tools_list_matches_call [OF wf_demo_server r, where f = None and c = "demo_ctx ''s1''"
        and input = "''{}''" and st = "with_holder 0"]
    by blast
  have "map tinfo_Name (map toolToInfo ts) = [''a'']"
    using ts(1) by (auto simp: handleToolsList_def handlePaginatedList_def demo_request_def demo_server_def
        NewServer_def newSessionToolRegistry_def getSortedTools_def sorted_snapshot_def mvals_def NewResponse_def
        sortedTools_def AllowTool_def toolToInfo_def echo_tool_def Let_def split: if_splits)
  then have n: "tool_Name ` set ts = {''a''}"
    by (auto simp: toolToInfo_def)
  then have "''b'' \<notin> tool_Name ` set ts" by simp
  then have "CallTool (demo_ctx ''s1'') None ''b'' ''{}'' demo_server (with_holder 0) = (Err errToolNotFound, with_holder 0)"
    using ts(2) by blast
  moreover have "CallTool (demo_ctx ''s1'') None ''a'' ''{}'' demo_server (with_holder 0) = (Ret (NewTextResult ''{}''), with_holder 0)"
    by (simp add: CallTool_def visible_tool_def lookup_def demo_ctx_def base_ctx.defs demo_server_def NewServer_def
        newSessionToolRegistry_def AllowTool_def echo_tool_def buildChain_def mget_def the_handler_def)
  ultimately show ?thesis by simp
qed


section \<open>What a tenant cannot see\<close>

text \<open>
  Two servers that differ only in tools and prompts which the filter hides: entries of one may be
  absent from or different in the other.
\<close>

definition visible_part :: "('v \<Rightarrow> bool) \<Rightarrow> (string, 'v) gomap \<Rightarrow> string \<Rightarrow> 'v option" where
  "visible_part P m n = (case mget m n of Some v \<Rightarrow> if P v then Some v else None | None \<Rightarrow> None)"

definition same_for :: "'w ItemFilter option \<Rightarrow> 'w Server \<Rightarrow> 'w Server \<Rightarrow> bool" where
  "same_for f s s' \<longleftrightarrow> (\<exists>T cT P cP.
     s' = s \<lparr> s_tools := T, s_sortedTools := cT, s_prompts := P, s_sortedPrompts := cP \<rparr>
     \<and> visible_part (AllowTool f) (s_tools s) = visible_part (AllowTool f) T
     \<and> visible_part (AllowPrompt f) (s_prompts s) = visible_part (AllowPrompt f) P)"

lemma visible_part_eqD:
  assumes "visible_part P m = visible_part P m'"
  shows "mget m n = Some v \<Longrightarrow> P v \<Longrightarrow> mget m' n = Some v"
    and "mget m' n = Some v \<Longrightarrow> P v \<Longrightarrow> mget m n = Some v"
  using fun_cong [OF assms, of n] by (auto simp: visible_part_def split: option.splits if_splits)

lemma same_for_tool:
  assumes "same_for f s s'"
  shows "(visible_tool s sid n = Some t \<and> AllowTool f t) \<longleftrightarrow> (visible_tool s' sid n = Some t \<and> AllowTool f t)"
  using assms by (auto simp: same_for_def visible_tool_def dest: visible_part_eqD split: option.splits)

lemma same_for_shown:
  assumes "same_for f s s'" "wf_server s" "wf_server s'"
  shows "shown_tools s sid f = shown_tools s' sid f"
proof (rule exact_unique [where key = tool_Name])
  show "set (shown_tools s sid f) = set (shown_tools s' sid f)"
    using shown_tools_exact(2) [OF assms(2)] shown_tools_exact(2) [OF assms(3)] same_for_tool [OF assms(1)]
    by (auto simp: set_eq_iff)
qed (use assms shown_tools_exact(1) in auto)

lemma option_eqI: "(\<And>v. x = Some v \<longleftrightarrow> y = Some v) \<Longrightarrow> x = y"
  by (metis not_None_eq)

lemma bind_guard: "Option.bind x (\<lambda>t. if P t then Some t else None) = Some v \<longleftrightarrow> x = Some v \<and> P v"
  by (cases x) auto

lemma same_for_call:
  assumes "same_for f s s'" shows "CallTool c f n input s st = CallTool c f n input s' st"
proof -
  have b: "buildChain s' = buildChain s" using assms by (auto simp: same_for_def buildChain_def fun_eq_iff)
  have x: "CallTool c f n input q st = (case Option.bind (visible_tool q (cx_SubscriberID c) n)
        (\<lambda>t. if AllowTool f t then Some t else None) of None \<Rightarrow> (Err errToolNotFound, st)
      | Some t \<Rightarrow> (case buildChain q (the_handler t) (tool_ctx t c) input st of
                (Ret out, st') \<Rightarrow> (Ret (NewTextResult out), st')
              | (Err e, st') \<Rightarrow> (Ret (NewErrorResult (Error e)), st')
              | (Panic m, st') \<Rightarrow> (Panic m, st')))" for q
    by (simp add: CallTool_def split: option.splits)
  have "Option.bind (visible_tool s (cx_SubscriberID c) n) (\<lambda>t. if AllowTool f t then Some t else None)
      = Option.bind (visible_tool s' (cx_SubscriberID c) n) (\<lambda>t. if AllowTool f t then Some t else None)"
    by (rule option_eqI) (unfold bind_guard, rule same_for_tool [OF assms])
  then show ?thesis unfolding x b by simp
qed

lemma same_for_prompts:
  assumes "same_for f s s'" "wf_server s" "wf_server s'"
  shows "filter (AllowPrompt f) (fst (getSortedPrompts s)) = filter (AllowPrompt f) (fst (getSortedPrompts s'))"
proof (rule exact_unique [where key = pr_Name])
  have ex: "exact_list pr_Name (s_prompts s) (fst (getSortedPrompts s))"
    "exact_list pr_Name (s_prompts s') (fst (getSortedPrompts s'))"
    using assms(2,3) wf_lists_exact(3) by (auto simp: wf_server_def)
  then show "set (filter (AllowPrompt f) (fst (getSortedPrompts s))) = set (filter (AllowPrompt f) (fst (getSortedPrompts s')))"
    using assms(1) by (auto simp: same_for_def exact_list_def dest: visible_part_eqD)
  from ex show "sorted_wrt (<) (map pr_Name (filter (AllowPrompt f) (fst (getSortedPrompts s))))"
    "sorted_wrt (<) (map pr_Name (filter (AllowPrompt f) (fst (getSortedPrompts s'))))"
    by (simp_all add: exact_list_def sorted_wrt_map sorted_wrt_filter)
qed


text \<open>What leaves the server: the response, the world and the effects.\<close>

definition outcome :: "'w handled \<Rightarrow> response hres \<times> 'w \<times> 'w effect list" where
  "outcome h = (case h of (r, s, w, effs) \<Rightarrow> (r, w, effs))"

lemma outcome_simps [simp]:
  "outcome (r, s, w, effs) = (r, w, effs)" "outcome (reply x s w) = (Ret x, w, [])"
  "outcome (lift p w) = (Ret (fst p), w, [])"
  by (simp_all add: outcome_def reply_def lift_def split: prod.splits)

lemma same_for_fields:
  assumes "same_for f s s'"
  shows "s_taskStore s' = s_taskStore s" "s_logHandler s' = s_logHandler s" "s_enableSubs s' = s_enableSubs s"
    "s_resources s' = s_resources s" "s_templates s' = s_templates s" "s_sortedTemplates s' = s_sortedTemplates s"
    "s_sortedResources s' = s_sortedResources s" "s_roots s' = s_roots s"
  using assms by (auto simp: same_for_def)

lemma same_for_find: assumes "same_for f s s'"
  shows "fst (findTemplateForURI uri s') = fst (findTemplateForURI uri s)"
  by (simp add: findTemplateForURI_def getSortedTemplates_def same_for_fields [OF assms] Let_def
      split: option.splits)

lemma same_for_read: assumes "same_for f s s'"
  shows "outcome (handleResourcesRead c f req s' w) = outcome (handleResourcesRead c f req s w)"
proof -
  have "fst (ReadResource c f uri s' st) = fst (ReadResource c f uri s st)
      \<and> snd (snd (ReadResource c f uri s' st)) = snd (snd (ReadResource c f uri s st))" for uri st
    using same_for_find [OF assms, of uri]
    by (cases "findTemplateForURI uri s"; cases "findTemplateForURI uri s'")
       (simp add: ReadResource_def same_for_fields [OF assms] split: option.splits prod.splits)
  then have "\<exists>s1 s2 x st'. ReadResource c f uri s st = (x, s1, st') \<and> ReadResource c f uri s' st = (x, s2, st')" for uri st
    by (metis prod.collapse)
  note r = this [of _ "with_holder w"]
  have "outcome (handleResourcesRead c f req s' w) = outcome (handleResourcesRead c f req s w)" if "req_Params req = Some raw"
      "decode_string_param ''uri'' raw = Some uri" for raw uri
    using r [of uri] that by (auto simp: handleResourcesRead_def split: hres.splits)
  then show ?thesis
    by (cases "req_Params req"; cases "decode_string_param ''uri'' (the (req_Params req))")
       (auto simp: handleResourcesRead_def)
qed

lemma same_for_visible: "same_for f s s' \<Longrightarrow>
  visible_part (AllowPrompt f) (s_prompts s') = visible_part (AllowPrompt f) (s_prompts s)"
  by (auto simp: same_for_def)

lemma same_for_prompt_get: assumes "same_for f s s'"
  shows "outcome (handlePromptsGet c f req s' w) = outcome (handlePromptsGet c f req s w)"
proof -
  have one: "mget [(n, p)] n = Some p" for n and p :: "'a Prompt" by (simp add: mget_def)
  have g: "GetPrompt c f n args q st = (case visible_part (AllowPrompt f) (s_prompts q) n of
        None \<Rightarrow> (Err errPromptNotFound, st)
      | Some p \<Rightarrow> GetPrompt c f n args (q \<lparr> s_prompts := [(n, p)] \<rparr>) st)" for n args st q
    by (cases "mget (s_prompts q) n") (simp_all add: GetPrompt_def visible_part_def one)
  have h: "GetPrompt c f n args (q \<lparr> s_prompts := m \<rparr>) st = GetPrompt c f n args (q' \<lparr> s_prompts := m \<rparr>) st"
    for n args st q q' m by (simp add: GetPrompt_def)
  have "GetPrompt c f n args s' st = GetPrompt c f n args s st" for n args st
    using g [of n args s' st] g [of n args s st] h [of n args _ s' st s]
    by (cases "visible_part (AllowPrompt f) (s_prompts s) n") (simp_all add: same_for_visible [OF assms])
  then show ?thesis
    by (simp add: handlePromptsGet_def split: option.splits prod.splits hres.splits)
qed

lemma same_for_complete: assumes "same_for f s s'"
  shows "outcome (handleCompletionComplete c f req s' w) = outcome (handleCompletionComplete c f req s w)"
proof -
  have p: "(case mget m n of None \<Rightarrow> Inl e | Some p \<Rightarrow> if \<not> AllowPrompt f p then Inl e else Inr (pr_Completer p))
      = (case visible_part (AllowPrompt f) m n of None \<Rightarrow> Inl e | Some p \<Rightarrow> Inr (pr_Completer p))" for m n and e :: string
    by (simp add: visible_part_def split: option.splits)
  have "find_completer f ref s' = find_completer f ref s" for ref
    unfolding find_completer_def p same_for_visible [OF assms] same_for_fields(5) [OF assms] ..
  then show ?thesis
    by (simp add: handleCompletionComplete_def split: option.splits prod.splits hres.splits sum.splits)
qed


lemma task_call_refused:
  assumes "s_taskStore s = Some ts" "\<nexists>t. visible_tool s (cx_SubscriberID c) (ctp_Name p) = Some t \<and> AllowTool f t"
  shows "outcome (handleTaskAugmentedCall env c f req p s w)
    = (Ret (NewErrorResponse (req_ID req) ErrCodeInvalidParams (Error errToolNotFound)), w, [])"
  using assms by (auto simp: handleTaskAugmentedCall_def AllowTool_def split: option.splits)

lemma same_for_tools_call: assumes "same_for f s s'"
  shows "outcome (handleToolsCall env c f req s' w) = outcome (handleToolsCall env c f req s w)"
proof -
  have "outcome (handleTaskAugmentedCall env c f req p s' w) = outcome (handleTaskAugmentedCall env c f req p s w)" for p
  proof (cases "s_taskStore s")
    case None
    then show ?thesis using same_for_fields(1) [OF assms] by (simp add: handleTaskAugmentedCall_def)
  next
    case (Some ts)
    then have ts': "s_taskStore s' = Some ts" using same_for_fields(1) [OF assms] by simp
    note eq = same_for_tool [OF assms, of "cx_SubscriberID c" "ctp_Name p"]
    show ?thesis
    proof (cases "\<exists>t. visible_tool s (cx_SubscriberID c) (ctp_Name p) = Some t \<and> AllowTool f t")
      case True
      then obtain t where "visible_tool s (cx_SubscriberID c) (ctp_Name p) = Some t" "AllowTool f t" by blast
      moreover have "visible_tool s' (cx_SubscriberID c) (ctp_Name p) = Some t" using calculation eq by blast
      ultimately show ?thesis using Some ts'
        by (simp add: handleTaskAugmentedCall_def Let_def split: hres.splits prod.splits sum.splits)
    next
      case False
      then have "\<nexists>t. visible_tool s' (cx_SubscriberID c) (ctp_Name p) = Some t \<and> AllowTool f t" using eq by blast
      then show ?thesis using task_call_refused [OF Some False] task_call_refused [OF ts'] by simp
    qed
  qed
  then show ?thesis
    unfolding handleToolsCall_def same_for_call [OF assms]
    by (simp add: Let_def split: option.splits hres.splits prod.splits)
qed


lemma same_for_subscribe: assumes "same_for f s s'"
  shows "fst (handleResourcesSubscribe c f req s') = fst (handleResourcesSubscribe c f req s)"
proof -
  have h: "fst (subscription_hidden f uri s') = fst (subscription_hidden f uri s)" for uri
    using same_for_find [OF assms, of uri]
    by (cases "findTemplateForURI uri s"; cases "findTemplateForURI uri s'")
       (simp add: subscription_hidden_def same_for_fields [OF assms] split: option.splits)
  have e: "s_enableSubs (snd (subscription_hidden f uri q)) = s_enableSubs q" for uri and q :: "'a Server"
    by (simp add: subscription_hidden_def findTemplateForURI_def getSortedTemplates_def Let_def
        split: option.splits prod.splits)
  have sub: "fst (Subscribe sub uri x (snd (subscription_hidden f u s')))
      = fst (Subscribe sub uri x (snd (subscription_hidden f u s)))" for sub uri x u
    by (simp add: Subscribe_def e same_for_fields(3) [OF assms] split: option.splits)
  have x: "fst (case p of (hidden, s1) \<Rightarrow> if hidden then (a, s1)
         else (case Subscribe sub uri y s1 of (Some e, s2) \<Rightarrow> (g e, s2) | (None, s2) \<Rightarrow> (b, s2)))
      = (if fst p then a else case fst (Subscribe sub uri y (snd p)) of Some e \<Rightarrow> g e | None \<Rightarrow> b)"
    for p :: "bool \<times> 'a Server" and a b :: response and sub uri y g
    by (cases p; cases "Subscribe sub uri y (snd p)") (auto split: option.splits)
  show ?thesis
    unfolding handleResourcesSubscribe_def same_for_fields(3) [OF assms]
    by (cases "req_Params req"; cases "decode_string_param ''uri'' (the (req_Params req))") (simp_all add: x h sub)
qed

lemma same_for_route:
  assumes "same_for f s s'" "wf_server s" "wf_server s'"
  shows "outcome (route env c f req s' w) = outcome (route env c f req s w)"
proof -
  note fld = same_for_fields [OF assms(1)]
  have "fst (handleToolsList c f req s') = fst (handleToolsList c f req s)"
    by (simp add: tools_list_shown same_for_shown [OF assms])
  moreover have "fst (handlePromptsList f req s') = fst (handlePromptsList f req s)"
    using same_for_prompts [OF assms]
    by (cases "getSortedPrompts s"; cases "getSortedPrompts s'") (simp add: handlePromptsList_def)
  moreover have "fst (handleResourcesList f req s') = fst (handleResourcesList f req s)"
    by (simp add: handleResourcesList_def getSortedResources_def fld Let_def split: option.splits)
  moreover have "fst (handleResourcesTemplatesList f req s') = fst (handleResourcesTemplatesList f req s)"
    by (simp add: handleResourcesTemplatesList_def getSortedTemplates_def fld Let_def split: option.splits)
  moreover have "handleRootsList req s' = handleRootsList req s"
    by (simp add: handleRootsList_def ListRoots_def fld)
  moreover have "fst (handleResourcesUnsubscribe c req s') = fst (handleResourcesUnsubscribe c req s)"
    by (simp add: handleResourcesUnsubscribe_def fld split: option.splits)
  moreover have "outcome (handleLoggingSetLevel c req s' w) = outcome (handleLoggingSetLevel c req s w)"
    by (simp add: handleLoggingSetLevel_def fld split: option.splits prod.splits hres.splits)
  moreover have acc: "task_access c req s' = task_access c req s"
    by (simp add: task_access_def requireTaskStore_def fld split: option.splits)
  moreover have "handleTasksGet c req s' = handleTasksGet c req s" "handleTasksResult c req s' = handleTasksResult c req s"
    by (simp_all add: handleTasksGet_def handleTasksResult_def acc)
  moreover have "handleTasksList c req s' = handleTasksList c req s"
    by (simp add: handleTasksList_def requireTaskStore_def fld split: option.splits)
  moreover have "outcome (handleTasksCancel env c req s' w) = outcome (handleTasksCancel env c req s w)"
    by (simp add: handleTasksCancel_def acc split: sum.splits prod.splits)
  ultimately show ?thesis
    using same_for_tools_call [OF assms(1)] same_for_read [OF assms(1)] same_for_subscribe [OF assms(1)]
      same_for_prompt_get [OF assms(1)] same_for_complete [OF assms(1)]
    by (simp add: route_def Let_def)
qed

text \<open>C5: A tenant learns nothing about hidden tools and prompts. When two servers differ only in
  tools and prompts that the filter hides, every request routed under that filter (listing, calling,
  starting a task, reading, completing) gets the same response and leaves the same world and the
  same effects on both.\<close>

theorem tenant_noninterference:
  assumes "same_for (Some f) s s'" "wf_server s" "wf_server s'"
  shows "case (route env c (Some f) req s w, route env c (Some f) req s' w) of
    ((r1, s1, w1, effs1), (r2, s2, w2, effs2)) \<Rightarrow> r1 = r2 \<and> w1 = w2 \<and> effs1 = effs2"
  using same_for_route [OF assms, of env c req w] by (auto simp: outcome_def split: prod.splits)

theorem tenant_noninterference_witness:
  "let f = \<lparr> if_TenantID = ''acme'', if_Tool = Some (\<lambda>t. Some (tool_Name t \<noteq> ''secret'')), if_Resource = None,
             if_ResourceTemplate = None, if_Prompt = None \<rparr>;
       s' = demo_server \<lparr> s_tools := [(''a'', echo_tool ''a''), (''secret'', echo_tool ''secret'')] \<rparr>
   in fst (route demo_env (demo_ctx ''s1'') (Some f) (demo_request ''tools/list'' None) s' 0)
      = Ret (NewResponse (Some (JNum ''1'')) (RListTools [toolToInfo (echo_tool ''a'' :: nat Tool)] []))"
proof -
  define f :: "nat ItemFilter" where "f = \<lparr> if_TenantID = ''acme'', if_Tool = Some (\<lambda>t. Some (tool_Name t \<noteq> ''secret'')),
    if_Resource = None, if_ResourceTemplate = None, if_Prompt = None \<rparr>"
  let ?T = "[(''a'', echo_tool ''a''), (''secret'', echo_tool ''secret'')] :: (string, nat Tool) gomap"
  let ?s' = "demo_server \<lparr> s_tools := ?T \<rparr>"
  have "visible_part (AllowTool (Some f)) (s_tools demo_server) = visible_part (AllowTool (Some f)) ?T"
    by (rule ext) (simp add: visible_part_def mget_def demo_server_def AllowTool_def allow_def f_def echo_tool_def)
  then have same: "same_for (Some f) demo_server ?s'"
    unfolding same_for_def
    by (intro exI [of _ ?T] exI [of _ "s_sortedTools demo_server"] exI [of _ "s_prompts demo_server"]
        exI [of _ "s_sortedPrompts demo_server"]) simp
  have wf: "wf_server ?s'"
    by (simp add: wf_server_def wf_registries_def coherent_defs demo_server_def NewServer_def keyed_def
        wf_map_def echo_tool_def wf_sessions_def newSessionToolRegistry_def wf_ring_def session_limit_def
        DefaultMaxSessions_def)
  have "fst (route demo_env (demo_ctx ''s1'') (Some f) (demo_request ''tools/list'' None) demo_server 0)
      = Ret (NewResponse (Some (JNum ''1'')) (RListTools [toolToInfo (echo_tool ''a'' :: nat Tool)] []))"
    by (simp add: route_def lift_def handleToolsList_def handlePaginatedList_def demo_request_def demo_server_def
        NewServer_def newSessionToolRegistry_def getSortedTools_def sorted_snapshot_def mvals_def reply_def
        sortedTools_def AllowTool_def allow_def f_def echo_tool_def Let_def)
  with tenant_noninterference [OF same wf_demo_server wf, of demo_env "demo_ctx ''s1''"
      "demo_request ''tools/list'' None" 0]
  show ?thesis by (auto simp: f_def split: prod.splits)
qed

end
