(* ===== verification/Dispatch_Sessions.thy ===== *)
theory Dispatch_Sessions
  imports Dispatch_Props
begin

text \<open>
  Properties of \<open>dispatch.go\<close> that follow one session over several messages: the handshake, the
  ownership of tasks, a task from its creation to its result, and the identifiers under which
  requests are tracked.
\<close>

section \<open>Handshake\<close>

lemma find_equal: "find (\<lambda>v. v = x) xs = (if x \<in> set xs then Some x else None)"
  by (induction xs) auto

text \<open>C10: A successful handshake answers with a version that the server supports, the client's own
  whenever that is supported, records it, and makes the server initialized. From then on every
  further \<open>initialize\<close> is refused and changes nothing.\<close>

theorem handshake_once:
  assumes "handleInitialize c req s = (r, s1)" and "resp_Error r = None" and "s_supportedVersions s \<noteq> []"
  shows "\<exists>version caps ir. Option.bind (req_Params req) decode_initialize = Some (version, caps) \<and> version \<noteq> []
      \<and> \<not> s_initialized s \<and> resp_Result r = Some (RInitialize ir)
      \<and> ir_ProtocolVersion ir \<in> set (s_supportedVersions s)
      \<and> (version \<in> set (s_supportedVersions s) \<longrightarrow> ir_ProtocolVersion ir = version)
      \<and> s1 = s \<lparr> s_negotiatedVersion := ir_ProtocolVersion ir, s_clientCaps := caps, s_initialized := True \<rparr>
      \<and> (\<forall>c' req'. handleInitialize c' req' s1
           = (NewErrorResponse (req_ID req') ErrCodeInvalidRequest (Error errAlreadyInitialized), s1))"
proof -
  have n: "negotiateVersion s v \<in> set (s_supportedVersions s)
      \<and> (v \<in> set (s_supportedVersions s) \<longrightarrow> negotiateVersion s v = v)" for v
    using assms(3)
    by (auto simp: negotiateVersion_def find_equal split: list.splits)
  have i: "\<not> s_initialized s"
    using assms(1,2) by (auto simp: handleInitialize_def NewErrorResponse_def)
  obtain raw version caps where p: "req_Params req = Some raw" "decode_initialize raw = Some (version, caps)" "version \<noteq> []"
    using assms(1,2) i
    by (auto simp: handleInitialize_def NewErrorResponse_def split: option.splits if_splits)
  obtain ir where r: "r = NewResponse (req_ID req) (RInitialize ir)"
    and v: "ir_ProtocolVersion ir = negotiateVersion s version"
    and s1: "s1 = s \<lparr> s_negotiatedVersion := ir_ProtocolVersion ir, s_clientCaps := caps, s_initialized := True \<rparr>"
    using assms(1) i p by (auto simp: handleInitialize_def Let_def)
  have again: "handleInitialize c' req' s1
      = (NewErrorResponse (req_ID req') ErrCodeInvalidRequest (Error errAlreadyInitialized), s1)" for c' req'
    by (simp add: s1 handleInitialize_def)
  show ?thesis
    by (rule exI [of _ version], rule exI [of _ caps], rule exI [of _ ir])
       (use p i r v n [of version] s1 again in \<open>simp add: NewResponse_def\<close>)
qed

lemma foldName_init:
  "foldName ''protocolVersion'' = ''PROTOCOLVERSION''" "foldName ''capabilities'' = ''CAPABILITIES''"
  "foldName ''clientInfo'' = ''CLIENTINFO''" "foldName ''_meta'' = ''_META''"
  by (subst foldName_ascii; simp add: fold_eval)+

lemma foldName_task: "foldName ''taskId'' = ''TASKID''"
  by (subst foldName_ascii; simp add: fold_eval)+

lemma decode_demo_init:
  "decode_initialize (JObj [(''protocolVersion'', JStr v)]) = Some (v, \<lparr> cc_Sampling = False, cc_Elicitation = False \<rparr>)"
  by (simp add: decode_initialize_def as_object_def field_def members_def dmeta_def foldName_init del: foldName.simps)

theorem handshake_once_witness:
  "let s1 = snd (handleInitialize (demo_ctx ''s1'') (demo_request ''initialize''
        (Some (JObj [(''protocolVersion'', JStr ''2024-11-05'')])))
        ((NewServer ''demo'' ''1'' []) \<lparr> s_supportedVersions := [''2024-11-05''] \<rparr> :: nat Server))
   in s_initialized s1 \<and> s_negotiatedVersion s1 = ''2024-11-05''"
proof -
  let ?req = "demo_request ''initialize'' (Some (JObj [(''protocolVersion'', JStr ''2024-11-05'')]))"
  let ?s = "(NewServer ''demo'' ''1'' []) \<lparr> s_supportedVersions := [''2024-11-05''] \<rparr> :: nat Server"
  obtain r s1 where h: "handleInitialize (demo_ctx ''s1'') ?req ?s = (r, s1)" by fastforce
  have e: "resp_Error r = None" using h
    by (auto simp: handleInitialize_def demo_request_def decode_demo_init NewServer_def NewResponse_def Let_def)
  have v: "s_supportedVersions ?s \<noteq> []" by simp
  show ?thesis using handshake_once [OF h e v] h
    by (auto simp: demo_request_def decode_demo_init)
qed

section \<open>Ownership of tasks\<close>

text \<open>C15: A task belongs to the session that created it. To any other identified session the requests
  for its state, its result and its cancellation are refused, the server is unchanged, and the list
  of tasks does not show it.\<close>

theorem task_owner_only:
  assumes "s_taskStore s = Some ts" and "wf_tasks ts"
    and "parseTaskIdParams req = Inr tid"
    and "ownerOf ts tid \<noteq> []" "cx_SubscriberID c \<noteq> []" "ownerOf ts tid \<noteq> cx_SubscriberID c"
  shows "let denied = NewErrorResponse (req_ID req) ErrCodeInvalidRequest
               ''access denied: task belongs to another session''
     in handleTasksGet c req s = denied \<and> handleTasksResult c req s = denied
        \<and> handleTasksCancel env c req s w = (Ret denied, s, w, [])
        \<and> tid \<notin> task_TaskID ` set (ListByOwner ts (cx_SubscriberID c))"
proof -
  have "task_access c req s = Inl (NewErrorResponse (req_ID req) ErrCodeInvalidRequest
      ''access denied: task belongs to another session'')"
    using assms by (simp add: task_access_def checkTaskOwnership_def)
  moreover have "tid \<notin> task_TaskID ` set (ListByOwner ts (cx_SubscriberID c))"
  proof
    assume "tid \<in> task_TaskID ` set (ListByOwner ts (cx_SubscriberID c))"
    then obtain k it where m: "(k, it) \<in> set (ts_tasks ts)" "task_TaskID (it_task it) = tid"
      and o': "\<not> (cx_SubscriberID c \<noteq> [] \<and> it_ownerID it \<noteq> [] \<and> it_ownerID it \<noteq> cx_SubscriberID c)"
      by (auto simp: ListByOwner_def mvals_mem)
    then have "k = tid" "mget (ts_tasks ts) k = Some it"
      using assms(2) mget_Some_iff [of "ts_tasks ts" k it] by (auto simp: wf_tasks_def wf_itask_def)
    then show False using o' assms by (simp add: ownerOf_def)
  qed
  ultimately show ?thesis
    by (simp add: handleTasksGet_def handleTasksResult_def handleTasksCancel_def reply_def)
qed

theorem task_owner_only_witness:
  "handleTasksCancel demo_env (demo_ctx ''s2'') (demo_request ''tasks/cancel'' (Some (JObj [(''taskId'', JStr ''t'')])))
     (demo_server \<lparr> s_taskStore := Some (snd (SubmitWithOptions ''now'' ''t''
        \<lparr> to_TTL = None, to_PollInterval = None, to_OwnerID = ''s1'' \<rparr> (NewTaskStore []))) \<rparr>) 0
   = (Ret (NewErrorResponse (Some (JNum ''1'')) ErrCodeInvalidRequest ''access denied: task belongs to another session''),
      demo_server \<lparr> s_taskStore := Some (snd (SubmitWithOptions ''now'' ''t''
        \<lparr> to_TTL = None, to_PollInterval = None, to_OwnerID = ''s1'' \<rparr> (NewTaskStore []))) \<rparr>, 0, [])"
proof -
  let ?ts = "snd (SubmitWithOptions ''now'' ''t'' \<lparr> to_TTL = None, to_PollInterval = None, to_OwnerID = ''s1'' \<rparr> (NewTaskStore []))"
  let ?s = "demo_server \<lparr> s_taskStore := Some ?ts \<rparr>"
  let ?req = "demo_request ''tasks/cancel'' (Some (JObj [(''taskId'', JStr ''t'')]))"
  have p: "parseTaskIdParams ?req = Inr ''t''"
    by (simp add: parseTaskIdParams_def demo_request_def decode_string_param_def as_object_def field_def members_def
        dmeta_def foldName_init foldName_task del: foldName.simps)
  have w: "ownerOf ?ts ''t'' = ''s1''"
    by (simp add: ownerOf_def SubmitWithOptions_def NewTaskStore_def Let_def mget_mput)
  have s: "s_taskStore ?s = Some ?ts" by simp
  have c: "cx_SubscriberID (demo_ctx ''s2'') = ''s2''" by (simp add: demo_ctx_def base_ctx.defs)
  show ?thesis
    using task_owner_only [OF s wf_Submit [OF wf_NewTaskStore] p, where c = "demo_ctx ''s2''" and env = demo_env and w = 0]
    by (simp add: w c Let_def demo_request_def)
qed

section \<open>A task from its creation to its result\<close>

lemma view_kept:
  assumes "task_view ts tid = Some v" "\<not> task_removes a tid"
  shows "\<exists>v'. task_view (task_exec a ts) tid = Some v' \<and> snd (snd v') = snd (snd v)"
  using assms by (cases a) (auto simp: task_ops task_view_def task_removes_def mget_mput mget_mdel
      Let_def split: option.splits if_splits)

lemma working_trace:
  assumes "working ts tid" "list_all (\<lambda>a. \<not> task_asks tid a \<and> \<not> task_removes a tid) as"
  shows "working (fold task_exec as ts) tid \<and> ownerOf (fold task_exec as ts) tid = ownerOf ts tid"
  using assms
proof (induction as arbitrary: ts)
  case (Cons a as)
  then have "working (task_exec a ts) tid" using working_kept by simp
  moreover have "ownerOf (task_exec a ts) tid = ownerOf ts tid"
    using Cons.prems view_kept [of ts tid _ a] by (fastforce simp: working_def ownerOf_view split: prod.splits)
  ultimately show ?case using Cons by simp
qed simp

lemma task_start_working:
  "working ts (g_taskID g) \<Longrightarrow> working (task_start g ts) (g_taskID g) \<and> ownerOf (task_start g ts) (g_taskID g) = ownerOf ts (g_taskID g)"
  using working_trace [of ts "g_taskID g" "[OpStoreCancel (g_taskID g) (g_taskID g)]"] by (simp add: task_start_def task_removes_def)

lemma task_finish_view:
  assumes "working ts (g_taskID g)"
  shows "\<exists>t r. task_view (task_finish now g res ts) (g_taskID g) = Some (t, r, ownerOf ts (g_taskID g))
    \<and> (case res of TaskSucceeds x \<Rightarrow> task_Status t = TaskStatusCompleted \<and> r = Some x
        | TaskFails msg \<Rightarrow> task_Status t = TaskStatusFailed \<and> task_StatusMessage t = Some msg)"
  using assms
  by (auto simp: working_def task_finish_def Complete_def Fail_def task_view_def ownerOf_def mget_mput split: task_outcome.splits)

lemma view_result:
  "task_view ts tid = Some (t, Some x, w) \<Longrightarrow> task_Status t = TaskStatusCompleted \<Longrightarrow> GetResult ts tid = Inr x"
  by (auto simp: task_view_def GetResult_def)

text \<open>C14: A task-augmented call that is accepted starts one goroutine, for a task of the caller's
  session in state working. Other operations on the store may come before the goroutine stores its cancel function, between
  that and the end of the tool call, and after the goroutine has written the outcome. As long as the first two groups do not ask
  for this task's end and none of them deletes it, in the end the task's result is the result of calling the tool, or the task
  has failed with the message of the tool's error or panic; a cancellation that comes after the outcome changes nothing.\<close>

theorem task_runs_to_its_end:
  assumes "handleTaskAugmentedCall env c f req p s w = (Ret (NewResponse (req_ID req) (RCreateTask task)), s1, w1, effs)"
    and "s_taskStore s1 = Some ts1"
    and "list_all (\<lambda>a. \<not> task_asks (task_TaskID task) a \<and> \<not> task_removes a (task_TaskID task)) (before @ meanwhile)"
    and "list_all (\<lambda>a. \<not> task_removes a (task_TaskID task)) after"
  shows "\<exists>g. effs = [Spawn g] \<and> g_taskID g = task_TaskID task \<and> g_name g = ctp_Name p
    \<and> task_Status task = TaskStatusWorking \<and> Get ts1 (task_TaskID task) = Inr task
    \<and> (let started = task_start g (fold task_exec before ts1);
           res = fst (task_call g s2 w2);
           finished = task_finish now g res (fold task_exec meanwhile started);
           ts' = fold task_exec after finished
       in ownerOf ts' (task_TaskID task) = cx_SubscriberID c
          \<and> (case res of
               TaskSucceeds r \<Rightarrow> GetResult ts' (task_TaskID task) = Inr r
             | TaskFails msg \<Rightarrow> (\<exists>t. Get ts' (task_TaskID task) = Inr t
                  \<and> task_Status t = TaskStatusFailed \<and> task_StatusMessage t = Some msg)))"
proof -
  obtain ts tid opts g where sub: "SubmitWithOptions (e_now env) tid opts ts = (Inr task, ts1)"
    and opts: "to_OwnerID opts = cx_SubscriberID c"
    and e: "effs = [Spawn g]" and gid: "g_taskID g = tid" and gn: "g_name g = ctp_Name p"
    using assms(1,2)
    by (auto simp: handleTaskAugmentedCall_def reply_def NewResponse_def NewErrorResponse_def Let_def
        split: option.splits if_splits hres.splits prod.splits sum.splits)
  have id: "task_TaskID task = tid" and st: "task_Status task = TaskStatusWorking"
    and get: "Get ts1 tid = Inr task" and wk: "working ts1 tid" and ow: "ownerOf ts1 tid = cx_SubscriberID c"
    using sub opts by (auto simp: SubmitWithOptions_def Let_def Get_def working_def task_view_def ownerOf_def
        mget_mput split: if_splits)
  have quiet: "list_all (\<lambda>a. \<not> task_asks tid a \<and> \<not> task_removes a tid) before" "list_all (\<lambda>a. \<not> task_asks tid a \<and> \<not> task_removes a tid) meanwhile"
    using assms(3) by (simp_all add: id)
  let ?ts2 = "task_start g (fold task_exec before ts1)"
  let ?ts3 = "fold task_exec meanwhile ?ts2"
  let ?res = "fst (task_call g s2 w2)"
  have "working ?ts2 tid \<and> ownerOf ?ts2 tid = cx_SubscriberID c"
    using working_trace [OF wk quiet(1)] task_start_working [of "fold task_exec before ts1" g] ow gid by simp
  then have w3: "working ?ts3 tid \<and> ownerOf ?ts3 tid = cx_SubscriberID c" using working_trace [OF _ quiet(2)] by simp
  then obtain t r where v: "task_view (task_finish now g ?res ?ts3) tid = Some (t, r, cx_SubscriberID c)"
    and res: "case ?res of TaskSucceeds x \<Rightarrow> task_Status t = TaskStatusCompleted \<and> r = Some x
        | TaskFails msg \<Rightarrow> task_Status t = TaskStatusFailed \<and> task_StatusMessage t = Some msg"
    using task_finish_view [of ?ts3 g now ?res] gid by auto
  have "ended (t, r, cx_SubscriberID c)" using res by (auto simp: ended_def split: task_outcome.splits)
  then have v': "task_view (fold task_exec after (task_finish now g ?res ?ts3)) tid = Some (t, r, cx_SubscriberID c)"
    using tl.final_trace [OF v _ assms(4) [unfolded id]] by blast
  have "ownerOf (fold task_exec after (task_finish now g ?res ?ts3)) tid = cx_SubscriberID c" using v' by (simp add: ownerOf_view)
  moreover have "case ?res of TaskSucceeds r \<Rightarrow> GetResult (fold task_exec after (task_finish now g ?res ?ts3)) tid = Inr r
      | TaskFails msg \<Rightarrow> (\<exists>t. Get (fold task_exec after (task_finish now g ?res ?ts3)) tid = Inr t
           \<and> task_Status t = TaskStatusFailed \<and> task_StatusMessage t = Some msg)"
    using res v' view_result [of _ tid t] by (auto simp: Get_view split: task_outcome.splits)
  ultimately show ?thesis
    unfolding id Let_def by (intro exI [of _ g] conjI e gid gn st get)
qed

text \<open>Another task is cancelled before, one is submitted meanwhile, and this task is cancelled too late.\<close>

theorem task_runs_to_its_end_witness:
  "case handleTaskAugmentedCall demo_env (demo_ctx ''s1'') None (demo_request ''tools/call'' None)
         \<lparr> ctp_Name = ''a'', ctp_Arguments = None, ctp_Task = Some None \<rparr>
         (demo_server \<lparr> s_taskStore := Some (NewTaskStore []) \<rparr>) 0 of
     (r, s1, w1, effs) \<Rightarrow> \<exists>g ts1. effs = [Spawn g] \<and> g_taskID g = ''task-07'' \<and> s_taskStore s1 = Some ts1
       \<and> GetResult (task_exec (OpCancel ''t3'' ''task-07'')
            (task_finish ''t2'' g (fst (task_call g demo_server 0))
              (task_exec (OpSubmit ''t1'' ''other'' \<lparr> to_TTL = None, to_PollInterval = None, to_OwnerID = ''s2'' \<rparr>)
                (task_start g (task_exec (OpCancel ''t0'' ''other'') ts1))))) ''task-07'' = Inr (NewTextResult [])"
proof -
  let ?h = "handleTaskAugmentedCall demo_env (demo_ctx ''s1'') None (demo_request ''tools/call'' None)
         \<lparr> ctp_Name = ''a'', ctp_Arguments = None, ctp_Task = Some None \<rparr>
         (demo_server \<lparr> s_taskStore := Some (NewTaskStore []) \<rparr>) 0"
  let ?task = "\<lparr> task_TaskID = ''task-07'', task_Status = TaskStatusWorking, task_StatusMessage = None,
     task_CreatedAt = ''t'', task_LastUpdatedAt = ''t'', task_TTL = None, task_PollInterval = None \<rparr>"
  let ?g = "\<lparr> g_taskID = ''task-07'', g_name = ''a'', g_input = [], g_session = ''s1'', g_filter = None, g_tenant = [] \<rparr> :: nat goroutine"
  have hex: "hex_encode [7] = ''07''" by code_simp
  have r: "fst ?h = Ret (NewResponse (req_ID (demo_request ''tools/call'' None)) (RCreateTask ?task))
      \<and> s_taskStore (fst (snd ?h)) \<noteq> None \<and> snd (snd (snd ?h)) = [Spawn ?g]"
    by (simp add: handleTaskAugmentedCall_def visible_tool_def lookup_def demo_ctx_def base_ctx.defs demo_server_def
        NewServer_def newSessionToolRegistry_def mget_def NewTaskStore_def GenerateID_def demo_env_def hex
        SubmitWithOptions_def AllowTool_def Let_def input_of_def Background_def)
  then obtain s1 w1 ts1 where h: "?h = (Ret (NewResponse (req_ID (demo_request ''tools/call'' None)) (RCreateTask ?task)), s1, w1, [Spawn ?g])"
    and ts: "s_taskStore s1 = Some ts1"
    by (metis (no_types, lifting) not_None_eq prod.collapse)
  have call: "fst (task_call ?g demo_server 0) = TaskSucceeds (NewTextResult [])"
    by (simp add: task_call_def CallTool_def visible_tool_def lookup_def demo_server_def NewServer_def newSessionToolRegistry_def
        mget_def task_ctx_def base_ctx.defs AllowTool_def buildChain_def echo_tool_def the_handler_def with_holder_def NewTextResult_def responseMetaFromHolder_def)
  show ?thesis
    using task_runs_to_its_end [OF h ts, where before = "[OpCancel ''t0'' ''other'']" and after = "[OpCancel ''t3'' ''task-07'']"
        and meanwhile = "[OpSubmit ''t1'' ''other'' \<lparr> to_TTL = None, to_PollInterval = None, to_OwnerID = ''s2'' \<rparr>]"
        and now = "''t2''" and ?s2.0 = demo_server and ?w2.0 = 0]
    by (auto simp: h ts call task_removes_def Let_def simp del: task_exec.simps)
qed

section \<open>Identifiers of tracked requests\<close>

text \<open>Requests are tracked per server and not per session. When two sessions have requests with the
  same identifier in flight, a cancellation notification from any context cancels the one that came
  last; and when that one finishes, the other is no longer tracked, so that nothing can cancel it.\<close>

theorem request_ids_are_shared:
  assumes "normalizeRequestID i \<noteq> None"
    and "req_Method req = ''notifications/cancelled''" "req_Params req = Some raw" "decode_cancelled raw = Some i"
  shows "snd (snd (handleNotification c req (trackRequest i k2 (trackRequest i k1 s)) w)) = [CancelRequest k2]
    \<and> fst (cancelRequest i (untrackRequest i (trackRequest i k2 (trackRequest i k1 s)))) = None"
  using assms
  by (auto simp: handleNotification_def trackRequest_def untrackRequest_def cancelRequest_def mget_mput mget_mdel)

lemma foldName_requestId: "foldName ''requestId'' = ''REQUESTID''"
  by (subst foldName_ascii; simp add: fold_eval)+

theorem request_ids_are_shared_witness:
  "snd (snd (handleNotification (demo_ctx ''s3'') (demo_request ''notifications/cancelled''
       (Some (JObj [(''requestId'', JNum ''1'')])))
     (trackRequest (Some (JNum ''1'')) 2 (trackRequest (Some (JNum ''1'')) 1 demo_server)) 0)) = [CancelRequest 2]"
  using request_ids_are_shared [where i = "Some (JNum ''1'')" and req = "demo_request ''notifications/cancelled''
       (Some (JObj [(''requestId'', JNum ''1'')]))" and c = "demo_ctx ''s3''" and s = demo_server and w = 0
       and raw = "JObj [(''requestId'', JNum ''1'')]"]
  by (simp add: demo_request_def normalizeRequestID_def decode_cancelled_def as_object_def field_def members_def
      dmeta_def d_any_def foldName_requestId foldName_init del: foldName.simps)

end
