(* ===== verification/Job_Store.thy ===== *)
theory Job_Store
  imports Mcp_Types Lifecycle
begin

text \<open>
  \<open>JobStore\<close> of \<open>async.go\<close>, the store behind the asynchronous middleware: jobs go from pending
  to running to an end, and may be cancelled from either open state. Times are nanosecond counts;
  the zero time is \<open>None\<close>.
\<close>

datatype JobStatus =
    JobStatusPending | JobStatusRunning | JobStatusComplete | JobStatusFailed | JobStatusCancelled

fun job_status_text :: "JobStatus \<Rightarrow> string" where
  "job_status_text JobStatusPending = ''pending''"
| "job_status_text JobStatusRunning = ''running''"
| "job_status_text JobStatusComplete = ''complete''"
| "job_status_text JobStatusFailed = ''failed''"
| "job_status_text JobStatusCancelled = ''cancelled''"

record Job =
  job_ID :: string
  job_ToolName :: string
  job_Status :: JobStatus
  job_Result :: "CallToolResult option"
  job_Error :: string
  job_CreatedAt :: int
  job_CompletedAt :: "int option"

type_synonym JobStore = "(string, Job) gomap"

definition errJobNotFound :: goerr where "errJobNotFound = Sentinel ''job not found''"
definition errJobIDEmpty :: goerr where "errJobIDEmpty = Sentinel ''job ID must not be empty''"
definition errJobIDExists :: goerr where "errJobIDExists = Sentinel ''job ID already exists''"
definition errInvalidTransition :: goerr where "errInvalidTransition = Sentinel ''invalid job status transition''"

definition invalid_transition :: "JobStatus \<Rightarrow> JobStatus \<Rightarrow> goerr" where
  "invalid_transition a b =
     Wrapped (Error errInvalidTransition @ '': cannot transition from '' @ job_status_text a
              @ '' to '' @ job_status_text b) errInvalidTransition"

definition JobSubmit :: "int \<Rightarrow> string \<Rightarrow> string \<Rightarrow> JobStore \<Rightarrow> (goerr + Job) \<times> JobStore" where
  "JobSubmit now jid toolName js =
     (if jid = [] then (Inl errJobIDEmpty, js)
      else if mget js jid \<noteq> None then (Inl errJobIDExists, js)
      else let job = \<lparr> job_ID = jid, job_ToolName = toolName, job_Status = JobStatusPending,
                       job_Result = None, job_Error = [], job_CreatedAt = now, job_CompletedAt = None \<rparr>
           in (Inr job, mput jid job js))"

definition JobGet :: "JobStore \<Rightarrow> string \<Rightarrow> goerr + Job" where
  "JobGet js jid = (case mget js jid of None \<Rightarrow> Inl errJobNotFound | Some j \<Rightarrow> Inr j)"

definition MarkRunning :: "string \<Rightarrow> JobStore \<Rightarrow> goerr option \<times> JobStore" where
  "MarkRunning jid js =
     (case mget js jid of None \<Rightarrow> (Some errJobNotFound, js)
      | Some job \<Rightarrow>
        if job_Status job \<noteq> JobStatusPending
        then (Some (invalid_transition (job_Status job) JobStatusRunning), js)
        else (None, mput jid (job \<lparr> job_Status := JobStatusRunning \<rparr>) js))"

definition JobComplete :: "int \<Rightarrow> string \<Rightarrow> CallToolResult option \<Rightarrow> JobStore \<Rightarrow> goerr option \<times> JobStore" where
  "JobComplete now jid result js =
     (case mget js jid of None \<Rightarrow> (Some errJobNotFound, js)
      | Some job \<Rightarrow>
        if job_Status job \<noteq> JobStatusRunning
        then (Some (invalid_transition (job_Status job) JobStatusComplete), js)
        else (None, mput jid (job \<lparr> job_Status := JobStatusComplete, job_Result := result,
                                    job_CompletedAt := Some now \<rparr>) js))"

definition JobFail :: "int \<Rightarrow> string \<Rightarrow> string \<Rightarrow> JobStore \<Rightarrow> goerr option \<times> JobStore" where
  "JobFail now jid errMsg js =
     (case mget js jid of None \<Rightarrow> (Some errJobNotFound, js)
      | Some job \<Rightarrow>
        if job_Status job \<noteq> JobStatusRunning
        then (Some (invalid_transition (job_Status job) JobStatusFailed), js)
        else (None, mput jid (job \<lparr> job_Status := JobStatusFailed, job_Error := errMsg,
                                    job_CompletedAt := Some now \<rparr>) js))"

definition JobCancel :: "int \<Rightarrow> string \<Rightarrow> JobStore \<Rightarrow> goerr option \<times> JobStore" where
  "JobCancel now jid js =
     (case mget js jid of None \<Rightarrow> (Some errJobNotFound, js)
      | Some job \<Rightarrow>
        if job_Status job \<noteq> JobStatusPending \<and> job_Status job \<noteq> JobStatusRunning
        then (Some (invalid_transition (job_Status job) JobStatusCancelled), js)
        else (None, mput jid (job \<lparr> job_Status := JobStatusCancelled,
                                    job_CompletedAt := Some now \<rparr>) js))"

definition JobDelete :: "string \<Rightarrow> JobStore \<Rightarrow> goerr option \<times> JobStore" where
  "JobDelete jid js =
     (if mget js jid = None then (Some errJobNotFound, js) else (None, mdel jid js))"

text \<open>\<open>List\<close> ranges over the map, so its order is that of the map.\<close>

definition JobList :: "JobStore \<Rightarrow> Job list" where
  "JobList js = mvals js"

lemmas job_ops = JobSubmit_def MarkRunning_def JobComplete_def JobFail_def JobCancel_def JobDelete_def

section \<open>Sequences of operations\<close>

datatype job_op =
    JSubmit int string string
  | JRun string
  | JComplete int string "CallToolResult option"
  | JFail int string string
  | JCancel int string
  | JDelete string

fun job_exec :: "job_op \<Rightarrow> JobStore \<Rightarrow> JobStore" where
  "job_exec (JSubmit now jid t) js = snd (JobSubmit now jid t js)"
| "job_exec (JRun jid) js = snd (MarkRunning jid js)"
| "job_exec (JComplete now jid r) js = snd (JobComplete now jid r js)"
| "job_exec (JFail now jid msg) js = snd (JobFail now jid msg js)"
| "job_exec (JCancel now jid) js = snd (JobCancel now jid js)"
| "job_exec (JDelete jid) js = snd (JobDelete jid js)"

definition job_ended :: "Job \<Rightarrow> bool" where
  "job_ended j \<longleftrightarrow> job_Status j \<in> {JobStatusComplete, JobStatusFailed, JobStatusCancelled}"

definition job_removes :: "job_op \<Rightarrow> string \<Rightarrow> bool" where
  "job_removes a jid \<longleftrightarrow> a = JDelete jid"

fun job_ends :: "job_op \<Rightarrow> string \<Rightarrow> JobStore \<Rightarrow> bool" where
  "job_ends (JComplete now j r) jid js \<longleftrightarrow> j = jid \<and> fst (JobComplete now j r js) = None"
| "job_ends (JFail now j msg) jid js \<longleftrightarrow> j = jid \<and> fst (JobFail now j msg js) = None"
| "job_ends (JCancel now j) jid js \<longleftrightarrow> j = jid \<and> fst (JobCancel now j js) = None"
| "job_ends _ jid js \<longleftrightarrow> False"

text \<open>
  A completion time is recorded exactly for ended jobs, a result only for completed ones and an
  error only for failed ones.
\<close>

definition wf_job :: "string \<Rightarrow> Job \<Rightarrow> bool" where
  "wf_job jid j \<longleftrightarrow> jid \<noteq> [] \<and> job_ID j = jid
     \<and> (job_CompletedAt j \<noteq> None \<longleftrightarrow> job_ended j)
     \<and> (job_Result j \<noteq> None \<longrightarrow> job_Status j = JobStatusComplete)
     \<and> (job_Error j \<noteq> [] \<longrightarrow> job_Status j = JobStatusFailed)"

definition wf_jobs :: "JobStore \<Rightarrow> bool" where
  "wf_jobs js \<longleftrightarrow> wf_map js \<and> (\<forall>(jid, j) \<in> set js. wf_job jid j)"

lemma wf_jobs_entry: "wf_jobs js \<Longrightarrow> mget js jid = Some j \<Longrightarrow> wf_job jid j"
  by (auto simp: wf_jobs_def dest: mget_SomeD)

lemma wf_jobs_mput: "wf_jobs js \<Longrightarrow> wf_job jid j \<Longrightarrow> wf_jobs (mput jid j js)"
  by (auto simp: wf_jobs_def wf_map_mput dest: set_mputD)

lemma wf_jobs_mdel: "wf_jobs js \<Longrightarrow> wf_jobs (mdel jid js)"
  by (auto simp: wf_jobs_def wf_map_mdel set_mdel)

lemma wf_job_exec: "wf_jobs js \<Longrightarrow> wf_jobs (job_exec a js)"
  by (cases a) (auto simp: job_ops Let_def wf_jobs_mdel wf_job_def job_ended_def
      dest: wf_jobs_entry intro!: wf_jobs_mput split: option.splits)

interpretation jl: lifecycle job_exec mget job_ended job_removes job_ends wf_jobs
proof
  fix js jid v a
  assume v: "mget js jid = Some v" "job_ended v" "\<not> job_removes a jid"
  show "mget (job_exec a js) jid = Some v"
    using v by (cases a) (auto simp: job_ops job_ended_def job_removes_def mget_mput mget_mdel
        Let_def split: option.splits if_splits)
next
  fix a jid js assume "job_ends a jid js"
  then show "\<exists>v. mget js jid = Some v \<and> \<not> job_ended v"
    by (cases a) (auto simp: job_ops job_ended_def split: option.splits if_splits)
next
  fix a jid js assume "job_ends a jid js"
  then show "\<exists>v. mget (job_exec a js) jid = Some v \<and> job_ended v"
    by (cases a) (auto simp: job_ops job_ended_def mget_mput split: option.splits if_splits)
qed (rule wf_job_exec)

text \<open>Whatever sequence of job operations runs, as long as a job is not deleted at most one
  completion, failure or cancellation of it succeeds, and from a fresh store every state is well
  formed: completion times exactly on ended jobs, results only on completed ones.\<close>

theorem job_at_most_one_end:
  "(list_all (\<lambda>a. \<not> job_removes a jid) as \<longrightarrow> length (jl.winners as jid js) \<le> 1)
   \<and> wf_jobs (fold job_exec as [])"
  using jl.one_winner [of jid as js] jl.inv_trace [of "[]" as] by (auto simp: wf_jobs_def)

theorem job_at_most_one_end_witness:
  "length (jl.winners [JSubmit 1 ''j'' ''t'', JRun ''j'', JCancel 2 ''j'', JComplete 3 ''j'' None] ''j'' []) \<le> 1
   \<and> wf_jobs (fold job_exec [JSubmit 1 ''j'' ''t'', JRun ''j'', JCancel 2 ''j''] [])"
  using job_at_most_one_end [of "''j''"
      "[JSubmit 1 ''j'' ''t'', JRun ''j'', JCancel 2 ''j'', JComplete 3 ''j'' None]" "[]"]
    job_at_most_one_end [of "''j''" "[JSubmit 1 ''j'' ''t'', JRun ''j'', JCancel 2 ''j'']" "[]"]
  by (simp add: job_removes_def)

end
