(* ===== verification/Client_Iterators.thy ===== *)
theory Client_Iterators
  imports Protocol
begin

text \<open>
  \<open>client/pagination.go\<close>: the five iterators, which differ only in the type of their elements and
  in the list call they make. Each is the iterator of \<open>Pagination\<close> at its element type; the list
  call, which goes through the client's transport, is an argument.
\<close>

type_synonym ToolsIterator = "ToolInfo iterator"
type_synonym ResourcesIterator = "ResourceInfo iterator"
type_synonym PromptsIterator = "PromptInfo iterator"
type_synonym RootsIterator = "(string \<times> string) iterator"
type_synonym TasksIterator = "Task iterator"

section \<open>Construction\<close>

definition IterateTools :: "ListParams \<Rightarrow> IteratorOptions option \<Rightarrow> ToolsIterator" where
  "IterateTools params opts = iterate params opts"

definition IterateResources :: "ListParams \<Rightarrow> IteratorOptions option \<Rightarrow> ResourcesIterator" where
  "IterateResources params opts = iterate params opts"

definition IteratePrompts :: "ListParams \<Rightarrow> IteratorOptions option \<Rightarrow> PromptsIterator" where
  "IteratePrompts params opts = iterate params opts"

definition IterateRoots :: "ListParams \<Rightarrow> IteratorOptions option \<Rightarrow> RootsIterator" where
  "IterateRoots params opts = iterate params opts"

definition IterateTasks :: "ListParams \<Rightarrow> IteratorOptions option \<Rightarrow> TasksIterator" where
  "IterateTasks params opts = iterate params opts"

section \<open>Next\<close>

definition ResourcesIterator_Next ::
  "(ResourceInfo, 's) list_call \<Rightarrow> ResourcesIterator \<Rightarrow> 's \<Rightarrow> ResourceInfo next_res \<times> ResourcesIterator \<times> 's" where
  "ResourcesIterator_Next fetch i s = iter_Next fetch i s"

definition PromptsIterator_Next ::
  "(PromptInfo, 's) list_call \<Rightarrow> PromptsIterator \<Rightarrow> 's \<Rightarrow> PromptInfo next_res \<times> PromptsIterator \<times> 's" where
  "PromptsIterator_Next fetch i s = iter_Next fetch i s"

definition RootsIterator_Next ::
  "(string \<times> string, 's) list_call \<Rightarrow> RootsIterator \<Rightarrow> 's \<Rightarrow> (string \<times> string) next_res \<times> RootsIterator \<times> 's" where
  "RootsIterator_Next fetch i s = iter_Next fetch i s"

definition TasksIterator_Next ::
  "(Task, 's) list_call \<Rightarrow> TasksIterator \<Rightarrow> 's \<Rightarrow> Task next_res \<times> TasksIterator \<times> 's" where
  "TasksIterator_Next fetch i s = iter_Next fetch i s"

section \<open>All\<close>

definition ResourcesIterator_All ::
  "(ResourceInfo, 's) list_call \<Rightarrow> ResourcesIterator \<Rightarrow> 's
   \<Rightarrow> (ResourceInfo list \<times> goerr option \<times> ResourcesIterator \<times> 's) option" where
  "ResourcesIterator_All fetch i s = iter_All fetch i s"

definition PromptsIterator_All ::
  "(PromptInfo, 's) list_call \<Rightarrow> PromptsIterator \<Rightarrow> 's
   \<Rightarrow> (PromptInfo list \<times> goerr option \<times> PromptsIterator \<times> 's) option" where
  "PromptsIterator_All fetch i s = iter_All fetch i s"

definition RootsIterator_All ::
  "(string \<times> string, 's) list_call \<Rightarrow> RootsIterator \<Rightarrow> 's
   \<Rightarrow> ((string \<times> string) list \<times> goerr option \<times> RootsIterator \<times> 's) option" where
  "RootsIterator_All fetch i s = iter_All fetch i s"

definition TasksIterator_All ::
  "(Task, 's) list_call \<Rightarrow> TasksIterator \<Rightarrow> 's
   \<Rightarrow> (Task list \<times> goerr option \<times> TasksIterator \<times> 's) option" where
  "TasksIterator_All fetch i s = iter_All fetch i s"

end
