(* ===== verification/Correlation.thy ===== *)
theory Correlation
  imports Mcp_Prelude
begin

text \<open>
  Correlating responses with requests, as the server does for the requests it sends
  (\<open>pending.go\<close>) and the client for its own (\<open>client/client.go\<close>): a table from identifiers to channels,
  channels that each belong to one identifier, goroutines that refer to a channel under an
  identifier, responses held in channels, and responses that a goroutine has got for its identifier.
  The laws say what a single step may do to them.
\<close>

locale correlation =
  fixes step :: "'s \<Rightarrow> 's \<Rightarrow> bool"
    and pend :: "'s \<Rightarrow> string \<Rightarrow> nat option"
    and owner :: "'s \<Rightarrow> nat \<Rightarrow> string option"
    and held :: "'s \<Rightarrow> nat \<Rightarrow> 'r set"
    and refs :: "'s \<Rightarrow> (string \<times> nat) set"
    and got :: "'s \<Rightarrow> (string \<times> 'r) set"
    and key :: "'r \<Rightarrow> string"
  assumes owner_step: "step s s' \<Longrightarrow> owner s ch = Some i \<Longrightarrow> owner s' ch = Some i"
    and pend_step: "step s s' \<Longrightarrow> pend s' i = Some ch \<Longrightarrow> pend s i = Some ch \<or> owner s' ch = Some i"
    and refs_step: "step s s' \<Longrightarrow> (i, ch) \<in> refs s' \<Longrightarrow> (i, ch) \<in> refs s \<or> pend s i = Some ch \<or> owner s' ch = Some i"
    and held_step: "step s s' \<Longrightarrow> r \<in> held s' ch \<Longrightarrow> r \<in> held s ch \<or> (key r, ch) \<in> refs s"
    and got_step: "step s s' \<Longrightarrow> (i, r) \<in> got s' \<Longrightarrow>
      (i, r) \<in> got s \<or> (\<exists>ch. (i, ch) \<in> refs s \<and> (owner s ch = Some i \<longrightarrow> r \<in> held s ch))"
begin

definition matched :: "'s \<Rightarrow> bool" where
  "matched s \<longleftrightarrow> (\<forall>i ch. pend s i = Some ch \<longrightarrow> owner s ch = Some i) \<and> (\<forall>(i, ch) \<in> refs s. owner s ch = Some i)
     \<and> (\<forall>ch. \<forall>r \<in> held s ch. owner s ch = Some (key r)) \<and> (\<forall>(i, r) \<in> got s. key r = i)"

lemma matched_step:
  assumes "step s s'" "matched s"
  shows "matched s'"
proof -
  note inv = assms(2) [unfolded matched_def]
  have own: "owner s ch = Some i \<Longrightarrow> owner s' ch = Some i" for ch i by (rule owner_step [OF assms(1)])
  have "owner s' ch = Some i" if "pend s' i = Some ch" for i ch
    using pend_step [OF assms(1) that] inv own by blast
  moreover have "owner s' ch = Some i" if "(i, ch) \<in> refs s'" for i ch
    using refs_step [OF assms(1) that] inv own by blast
  moreover have "owner s' ch = Some (key r)" if "r \<in> held s' ch" for r ch
    using held_step [OF assms(1) that] inv own by blast
  moreover have "key r = i" if "(i, r) \<in> got s'" for i r
    using got_step [OF assms(1) that] inv by fastforce
  ultimately show ?thesis unfolding matched_def by blast
qed

lemma got_own:
  assumes "matched s" "(i, r) \<in> got s"
  shows "key r = i"
  using assms by (auto simp: matched_def)

end

end
