(* ===== verification/Pending.thy ===== *)
theory Pending
  imports Json_Rpc Correlation "HOL-Library.Word"
begin

text \<open>
  \<open>pending.go\<close>: requests from the server to the client. \<open>Send\<close> and \<open>Deliver\<close> run in any number of
  goroutines; each of their accesses to shared state (the table under its mutex, a channel) is one
  step, so that all interleavings with \<open>CloseAll\<close> are covered. A channel has room for one response.
\<close>

section \<open>Responses of the client\<close>

type_synonym client_response = "json JSONRPCResponse"

fun d_error :: "JSONRPCError option \<Rightarrow> json \<Rightarrow> JSONRPCError option option" where
  "d_error a JNull = Some None"
| "d_error a (JObj obj) =
     (let z = (case a of None \<Rightarrow> \<lparr> err_Code = 0, err_Message = [], err_Data = None \<rparr> | Some e \<Rightarrow> e)
      in case (field d_int (err_Code z) ''code'' obj, field d_string (err_Message z) ''message'' obj, field d_any (err_Data z) ''data'' obj) of
           (Some c, Some m, Some d) \<Rightarrow> Some (Some \<lparr> err_Code = c, err_Message = m, err_Data = d \<rparr>)
         | _ \<Rightarrow> None)"
| "d_error a _ = None"

text \<open>\<open>json.Unmarshal\<close> into a \<open>JSONRPCResponse\<close>.\<close>

definition UnmarshalResponse :: "json \<Rightarrow> client_response option" where
  "UnmarshalResponse data =
     (case as_object data of None \<Rightarrow> None
      | Some obj \<Rightarrow>
        (case (field d_string [] ''jsonrpc'' obj, field d_any None ''id'' obj,
               field d_any None ''result'' obj, field d_error None ''error'' obj) of
           (Some v, Some i, Some r, Some e) \<Rightarrow>
             Some \<lparr> resp_JSONRPC = v, resp_ID = i, resp_Result = r, resp_Error = e \<rparr>
         | _ \<Rightarrow> None))"

definition IsResponse :: "json option \<Rightarrow> bool" where
  "IsResponse data =
     (case data of None \<Rightarrow> False
      | Some v \<Rightarrow>
        (case as_object v of None \<Rightarrow> False
         | Some obj \<Rightarrow>
           (case (field d_raw None ''id'' obj, field d_string [] ''method'' obj,
                  field d_raw None ''result'' obj, field d_raw None ''error'' obj) of
              (Some i, Some m, Some r, Some e) \<Rightarrow> i \<noteq> None \<and> m = [] \<and> (r \<noteq> None \<or> e \<noteq> None)
            | _ \<Rightarrow> False)))"

text \<open>
  The key of a response: \<open>fmt.Sprintf("%v", resp.ID)\<close>. A string is its own text; the text of other
  values, which are floating-point numbers for the most part, is the argument \<open>fmtv\<close>.
\<close>

definition response_key :: "(json option \<Rightarrow> string) \<Rightarrow> client_response \<Rightarrow> string" where
  "response_key fmtv r = (case resp_ID r of Some (JStr s) \<Rightarrow> s | v \<Rightarrow> fmtv v)"

section \<open>State\<close>

record pchan =
  pc_id :: string
  pc_buf :: "client_response list"
  pc_closed :: bool

datatype send_result = SResponse client_response | SError string

text \<open>The points of \<open>Send\<close> and \<open>Deliver\<close> between two steps.\<close>

datatype send_pc =
    SIdle
  | SWrite string nat
  | SWait string nat
  | SReturn string send_result
  | SDone string send_result

datatype deliver_pc = DIdle | DGot nat client_response | DDone bool | DPanic

record PendingRequests =
  p_pending :: "(string, nat) gomap"
  p_idSeq :: "64 word"
  p_closed :: bool
  p_chans :: "pchan list"
  p_send :: "nat \<Rightarrow> send_pc"
  p_deliver :: "nat \<Rightarrow> deliver_pc"

definition NewPendingRequests :: PendingRequests where
  "NewPendingRequests = \<lparr> p_pending = [], p_idSeq = 0, p_closed = False, p_chans = [],
     p_send = (\<lambda>_. SIdle), p_deliver = (\<lambda>_. DIdle) \<rparr>"

definition request_id :: "64 word \<Rightarrow> string" where
  "request_id n = ''srv-'' @ Itoa (uint n)"

section \<open>Steps\<close>

text \<open>\<open>Send\<close>: the registration under the mutex.\<close>

definition Send_register :: "nat \<Rightarrow> PendingRequests \<Rightarrow> PendingRequests" where
  "Send_register t s =
     (if p_closed s then s \<lparr> p_send := (p_send s)(t := SDone [] (SError ''transport closed'')) \<rparr>
      else let n = p_idSeq s + 1; i = request_id n; ch = length (p_chans s)
           in s \<lparr> p_idSeq := n, p_pending := mput i ch (p_pending s),
                  p_chans := p_chans s @ [\<lparr> pc_id = i, pc_buf = [], pc_closed = False \<rparr>],
                  p_send := (p_send s)(t := SWrite i ch) \<rparr>)"

text \<open>\<open>Send\<close>: marshalling and writing, which fail with a message or succeed.\<close>

definition Send_write :: "nat \<Rightarrow> string option \<Rightarrow> PendingRequests \<Rightarrow> PendingRequests" where
  "Send_write t failure s =
     (case p_send s t of
        SWrite i ch \<Rightarrow> s \<lparr> p_send := (p_send s)(t := (case failure of None \<Rightarrow> SWait i ch | Some m \<Rightarrow> SReturn i (SError m))) \<rparr>
      | _ \<Rightarrow> s)"

text \<open>\<open>Send\<close>: the two branches of the select. Receiving needs a response or a closed channel.\<close>

definition can_receive :: "nat \<Rightarrow> PendingRequests \<Rightarrow> bool" where
  "can_receive t s = (case p_send s t of
       SWait i ch \<Rightarrow> pc_buf (p_chans s ! ch) \<noteq> [] \<or> pc_closed (p_chans s ! ch) | _ \<Rightarrow> False)"

definition Send_receive :: "nat \<Rightarrow> PendingRequests \<Rightarrow> PendingRequests" where
  "Send_receive t s =
     (case p_send s t of
        SWait i ch \<Rightarrow>
          (case pc_buf (p_chans s ! ch) of
             r # rs \<Rightarrow> s \<lparr> p_chans := (p_chans s)[ch := (p_chans s ! ch) \<lparr> pc_buf := rs \<rparr>],
                            p_send := (p_send s)(t := SReturn i (SResponse r)) \<rparr>
           | [] \<Rightarrow> s \<lparr> p_send := (p_send s)(t := SReturn i (SError ''transport closed'')) \<rparr>)
      | _ \<Rightarrow> s)"

definition Send_cancelled :: "nat \<Rightarrow> string \<Rightarrow> PendingRequests \<Rightarrow> PendingRequests" where
  "Send_cancelled t err s =
     (case p_send s t of SWait i ch \<Rightarrow> s \<lparr> p_send := (p_send s)(t := SReturn i (SError err)) \<rparr> | _ \<Rightarrow> s)"

text \<open>\<open>Send\<close>: the deferred removal from the table.\<close>

definition Send_cleanup :: "nat \<Rightarrow> PendingRequests \<Rightarrow> PendingRequests" where
  "Send_cleanup t s =
     (case p_send s t of
        SReturn i r \<Rightarrow> s \<lparr> p_pending := mdel i (p_pending s), p_send := (p_send s)(t := SDone i r) \<rparr>
      | _ \<Rightarrow> s)"

text \<open>\<open>Deliver\<close>: decoding and the lookup under the mutex, then the non-blocking send. Sending on a
  closed channel panics.\<close>

definition Deliver_lookup :: "(json option \<Rightarrow> string) \<Rightarrow> nat \<Rightarrow> json option \<Rightarrow> PendingRequests \<Rightarrow> PendingRequests" where
  "Deliver_lookup fmtv t data s =
     s \<lparr> p_deliver := (p_deliver s)(t :=
       (case (case data of None \<Rightarrow> None | Some v \<Rightarrow> UnmarshalResponse v) of
          None \<Rightarrow> DDone False
        | Some r \<Rightarrow> (case mget (p_pending s) (response_key fmtv r) of None \<Rightarrow> DDone False | Some ch \<Rightarrow> DGot ch r))) \<rparr>"

definition Deliver_send :: "nat \<Rightarrow> PendingRequests \<Rightarrow> PendingRequests" where
  "Deliver_send t s =
     (case p_deliver s t of
        DGot ch r \<Rightarrow>
          if pc_closed (p_chans s ! ch) then s \<lparr> p_deliver := (p_deliver s)(t := DPanic) \<rparr>
          else if pc_buf (p_chans s ! ch) = []
          then s \<lparr> p_chans := (p_chans s)[ch := (p_chans s ! ch) \<lparr> pc_buf := [r] \<rparr>],
                   p_deliver := (p_deliver s)(t := DDone True) \<rparr>
          else s \<lparr> p_deliver := (p_deliver s)(t := DDone False) \<rparr>
      | _ \<Rightarrow> s)"

definition CloseAll :: "PendingRequests \<Rightarrow> PendingRequests" where
  "CloseAll s = s \<lparr> p_closed := True, p_pending := [],
     p_chans := fold (\<lambda>(_, ch) cs. cs[ch := (cs ! ch) \<lparr> pc_closed := True \<rparr>]) (p_pending s) (p_chans s) \<rparr>"

inductive pstep :: "(json option \<Rightarrow> string) \<Rightarrow> PendingRequests \<Rightarrow> PendingRequests \<Rightarrow> bool" for fmtv where
  register: "p_send s t = SIdle \<Longrightarrow> pstep fmtv s (Send_register t s)"
| wrote: "p_send s t = SWrite i ch \<Longrightarrow> pstep fmtv s (Send_write t failure s)"
| receive: "can_receive t s \<Longrightarrow> pstep fmtv s (Send_receive t s)"
| cancelled: "p_send s t = SWait i ch \<Longrightarrow> pstep fmtv s (Send_cancelled t err s)"
| cleanup: "p_send s t = SReturn i r \<Longrightarrow> pstep fmtv s (Send_cleanup t s)"
| lookup: "p_deliver s t = DIdle \<Longrightarrow> pstep fmtv s (Deliver_lookup fmtv t data s)"
| deliver: "p_deliver s t = DGot ch r \<Longrightarrow> pstep fmtv s (Deliver_send t s)"
| close_all: "pstep fmtv s (CloseAll s)"

text \<open>States reachable in a number of steps.\<close>

inductive reaches :: "(json option \<Rightarrow> string) \<Rightarrow> nat \<Rightarrow> PendingRequests \<Rightarrow> bool" for fmtv where
  start [intro]: "reaches fmtv 0 NewPendingRequests"
| step: "reaches fmtv n s \<Longrightarrow> pstep fmtv s s' \<Longrightarrow> reaches fmtv (Suc n) s'"

section \<open>Correlation\<close>

lemmas send_defs = Send_register_def Send_write_def Send_receive_def Send_cancelled_def Send_cleanup_def
  can_receive_def
lemmas pstep_defs = send_defs Deliver_lookup_def Deliver_send_def CloseAll_def Let_def
lemmas pstep_splits = send_pc.splits deliver_pc.splits list.splits option.splits if_splits

fun send_ref :: "send_pc \<Rightarrow> (string \<times> nat) option" where
  "send_ref (SWrite i ch) = Some (i, ch)" | "send_ref (SWait i ch) = Some (i, ch)" | "send_ref _ = None"

fun deliver_ref :: "(json option \<Rightarrow> string) \<Rightarrow> deliver_pc \<Rightarrow> (string \<times> nat) option" where
  "deliver_ref fmtv (DGot ch r) = Some (response_key fmtv r, ch)" | "deliver_ref fmtv _ = None"

fun send_got :: "send_pc \<Rightarrow> (string \<times> client_response) option" where
  "send_got (SReturn i (SResponse r)) = Some (i, r)" | "send_got (SDone i (SResponse r)) = Some (i, r)" | "send_got _ = None"

definition p_owner :: "PendingRequests \<Rightarrow> nat \<Rightarrow> string option" where
  "p_owner s ch = (if ch < length (p_chans s) then Some (pc_id (p_chans s ! ch)) else None)"

definition p_held :: "PendingRequests \<Rightarrow> nat \<Rightarrow> client_response set" where
  "p_held s ch = (if ch < length (p_chans s) then set (pc_buf (p_chans s ! ch)) else {})"

definition p_refs :: "(json option \<Rightarrow> string) \<Rightarrow> PendingRequests \<Rightarrow> (string \<times> nat) set" where
  "p_refs fmtv s = {x. (\<exists>t. send_ref (p_send s t) = Some x) \<or> (\<exists>t. deliver_ref fmtv (p_deliver s t) = Some x)}"

definition p_got :: "PendingRequests \<Rightarrow> (string \<times> client_response) set" where
  "p_got s = {x. \<exists>t. send_got (p_send s t) = Some x}"

lemma close_fold:
  "length (fold (\<lambda>(_, ch) cs. cs[ch := (cs ! ch) \<lparr> pc_closed := True \<rparr>]) m cs) = length cs
   \<and> (k < length cs \<longrightarrow> fold (\<lambda>(_, ch) cs. cs[ch := (cs ! ch) \<lparr> pc_closed := True \<rparr>]) m cs ! k
        = (if k \<in> snd ` set m then (cs ! k) \<lparr> pc_closed := True \<rparr> else cs ! k))"
proof (induction m arbitrary: cs)
  case (Cons p m)
  obtain i ch where p: "p = (i, ch)" by fastforce
  show ?case using Cons [of "cs[ch := (cs ! ch) \<lparr> pc_closed := True \<rparr>]"] by (auto simp: p nth_update_any)
qed simp

lemma p_owner_keep:
  assumes "pstep fmtv s s'" "ch < length (p_chans s)"
  shows "ch < length (p_chans s') \<and> pc_id (p_chans s' ! ch) = pc_id (p_chans s ! ch)"
  using assms by (induction rule: pstep.induct) (auto simp: pstep_defs nth_append nth_update_any close_fold split: pstep_splits)

lemma p_pend_keep:
  assumes "pstep fmtv s s'" "mget (p_pending s') i = Some ch"
  shows "mget (p_pending s) i = Some ch \<or> ch < length (p_chans s') \<and> pc_id (p_chans s' ! ch) = i"
  using assms by (induction rule: pstep.induct) (auto simp: pstep_defs gomap_simps split: pstep_splits)

lemma send_ref_keep:
  assumes "pstep fmtv s s'" "send_ref (p_send s' t) = Some (i, ch)"
  shows "send_ref (p_send s t) = Some (i, ch) \<or> ch < length (p_chans s') \<and> pc_id (p_chans s' ! ch) = i"
  using assms by (induction rule: pstep.induct) (auto simp: pstep_defs split: pstep_splits)

lemma deliver_ref_keep:
  assumes "pstep fmtv s s'" "deliver_ref fmtv (p_deliver s' t) = Some (i, ch)"
  shows "deliver_ref fmtv (p_deliver s t) = Some (i, ch) \<or> mget (p_pending s) i = Some ch"
  using assms by (induction rule: pstep.induct) (auto simp: pstep_defs split: pstep_splits)

lemma p_held_keep:
  assumes "pstep fmtv s s'" "ch < length (p_chans s')" "r \<in> set (pc_buf (p_chans s' ! ch))"
  shows "ch < length (p_chans s) \<and> r \<in> set (pc_buf (p_chans s ! ch)) \<or> (\<exists>t. p_deliver s t = DGot ch r)"
  using assms by (induction rule: pstep.induct) (auto simp: pstep_defs nth_append nth_update_any close_fold split: pstep_splits)

lemma send_got_iff: "send_got pc = Some (i, r) \<longleftrightarrow> pc = SReturn i (SResponse r) \<or> pc = SDone i (SResponse r)"
  by (induction pc rule: send_got.induct) auto

lemma deliver_ref_iff: "deliver_ref fmtv pc = Some x \<longleftrightarrow> (\<exists>ch r. pc = DGot ch r \<and> x = (response_key fmtv r, ch))"
  by (cases pc) auto

lemma p_got_keep:
  assumes "pstep fmtv s s'" "send_got (p_send s' t) = Some (i, r)"
  shows "send_got (p_send s t) = Some (i, r) \<or> (\<exists>ch. send_ref (p_send s t) = Some (i, ch) \<and> r \<in> set (pc_buf (p_chans s ! ch)))"
  using assms by (induction rule: pstep.induct) (auto simp: pstep_defs send_got_iff split: pstep_splits)

interpretation sc: correlation "pstep fmtv" "\<lambda>s. mget (p_pending s)" p_owner p_held "p_refs fmtv" p_got "response_key fmtv"
proof
  fix s s' assume st: "pstep fmtv s s'"
  show "p_owner s ch = Some i \<Longrightarrow> p_owner s' ch = Some i" for ch i
    using p_owner_keep [OF st, of ch] by (auto simp: p_owner_def split: if_splits)
  show "mget (p_pending s') i = Some ch \<Longrightarrow> mget (p_pending s) i = Some ch \<or> p_owner s' ch = Some i" for i ch
    using p_pend_keep [OF st] by (auto simp: p_owner_def)
  show "(i, ch) \<in> p_refs fmtv s' \<Longrightarrow> (i, ch) \<in> p_refs fmtv s \<or> mget (p_pending s) i = Some ch \<or> p_owner s' ch = Some i" for i ch
    using send_ref_keep [OF st, of _ i ch] deliver_ref_keep [OF st, of _ i ch] by (fastforce simp: p_refs_def p_owner_def)
  show "r \<in> p_held s' ch \<Longrightarrow> r \<in> p_held s ch \<or> (response_key fmtv r, ch) \<in> p_refs fmtv s" for r ch
    using p_held_keep [OF st, of ch r] unfolding p_held_def p_refs_def deliver_ref_iff by (auto split: if_splits)
  show "(i, r) \<in> p_got s \<or> (\<exists>ch. (i, ch) \<in> p_refs fmtv s \<and> (p_owner s ch = Some i \<longrightarrow> r \<in> p_held s ch))"
    if "(i, r) \<in> p_got s'" for i r
  proof -
    from that obtain t where "send_got (p_send s' t) = Some (i, r)" by (auto simp: p_got_def)
    from p_got_keep [OF st this] show ?thesis
    proof (elim disjE exE conjE)
      fix ch assume "send_ref (p_send s t) = Some (i, ch)" "r \<in> set (pc_buf (p_chans s ! ch))"
      then have "(i, ch) \<in> p_refs fmtv s \<and> (p_owner s ch = Some i \<longrightarrow> r \<in> p_held s ch)"
        unfolding p_refs_def p_owner_def p_held_def by auto
      then show ?thesis by blast
    qed (auto simp: p_got_def)
  qed
qed

lemma reaches_matched: "reaches fmtv n s \<Longrightarrow> sc.matched fmtv s"
proof (induction rule: reaches.induct)
  case start
  show ?case unfolding sc.matched_def by (simp add: NewPendingRequests_def p_refs_def p_held_def p_got_def)
qed (rule sc.matched_step)

lemma CloseAll_fields [simp]:
  "p_pending (CloseAll s) = []" "p_send (CloseAll s) = p_send s" "p_deliver (CloseAll s) = p_deliver s"
  "p_closed (CloseAll s)" "p_idSeq (CloseAll s) = p_idSeq s"
  by (simp_all add: CloseAll_def)

text \<open>C19: Whatever the interleaving of sends, deliveries, cancellations and shutdown, and even after the
  64-bit counter has wrapped around, a \<open>Send\<close> that returns a response returns one whose identifier
  is the identifier of its own request.\<close>

theorem send_returns_own_response:
  assumes "reaches fmtv n s" and "p_send s t = SDone i (SResponse r)"
  shows "response_key fmtv r = i"
proof (rule sc.got_own [OF reaches_matched [OF assms(1)]])
  show "(i, r) \<in> p_got s" using assms(2) by (auto simp: p_got_def intro!: exI [of _ t])
qed

section \<open>Shutdown\<close>

lemma request_id_inj: "request_id m = request_id n \<Longrightarrow> m = n"
proof -
  assume "request_id m = request_id n"
  then have "Itoa_nat (unat m) = Itoa_nat (unat n)" by (simp add: request_id_def Itoa_def)
  then show ?thesis using digits_val_Itoa_nat by (metis option.inject unsigned_word_eqI)
qed

fun thread_id :: "send_pc \<Rightarrow> string option" where
  "thread_id (SWrite i ch) = Some i" | "thread_id (SWait i ch) = Some i" | "thread_id (SReturn i r) = Some i"
| "thread_id _ = None"

text \<open>As long as the counter has not wrapped around, identifiers are unique and every waiting goroutine
  is in the table or its channel has been closed.\<close>

definition issued :: "PendingRequests \<Rightarrow> string set" where
  "issued s = request_id ` {m. 0 < m \<and> m \<le> p_idSeq s}"

definition tracked :: "nat \<Rightarrow> PendingRequests \<Rightarrow> bool" where
  "tracked n s \<longleftrightarrow> unat (p_idSeq s) \<le> n \<and> (p_closed s \<longrightarrow> p_pending s = [])
     \<and> (\<forall>t i. thread_id (p_send s t) = Some i \<longrightarrow> i \<in> issued s)
     \<and> (\<forall>t t' i. thread_id (p_send s t) = Some i \<and> thread_id (p_send s t') = Some i \<longrightarrow> t = t')
     \<and> (\<forall>t i ch. send_ref (p_send s t) = Some (i, ch) \<longrightarrow>
          ch < length (p_chans s) \<and> (mget (p_pending s) i = Some ch \<or> pc_closed (p_chans s ! ch)))"

lemma tracked_thread:
  assumes "tracked n s" and "unat (p_idSeq s') \<le> Suc n" "p_closed s' \<longrightarrow> p_pending s' = []" "issued s \<subseteq> issued s'"
    and "\<And>u. u \<noteq> t \<Longrightarrow> p_send s' u = p_send s u"
    and "\<And>i. thread_id (p_send s' t) = Some i \<Longrightarrow> thread_id (p_send s t) = Some i \<or> i \<in> issued s' - issued s"
    and "\<And>u i ch. send_ref (p_send s' u) = Some (i, ch) \<Longrightarrow>
          ch < length (p_chans s') \<and> (mget (p_pending s') i = Some ch \<or> pc_closed (p_chans s' ! ch))"
  shows "tracked (Suc n) s'"
proof -
  have old: "thread_id (p_send s u) = Some i \<Longrightarrow> i \<in> issued s" for u i using assms(1) by (simp add: tracked_def)
  have id: "thread_id (p_send s' u) = Some i \<Longrightarrow> thread_id (p_send s u) = Some i \<or> u = t \<and> i \<in> issued s' - issued s" for u i
    using assms(5,6) by (cases "u = t") auto
  have "i \<in> issued s'" if "thread_id (p_send s' u) = Some i" for u i using id [OF that] old assms(4) by blast
  moreover have "u = v" if "thread_id (p_send s' u) = Some i" "thread_id (p_send s' v) = Some i" for u v i
    using id [OF that(1)] id [OF that(2)] old assms(1) by (auto simp: tracked_def)
  ultimately show ?thesis using assms(2,3,7) by (auto simp: tracked_def)
qed

lemma waits_id: "send_ref pc = Some (i, ch) \<Longrightarrow> thread_id pc = Some i"
  by (cases pc) auto

lemma tracked_waits:
  assumes "tracked n s" "send_ref (p_send s u) = Some (i, ch)"
  shows "ch < length (p_chans s) \<and> (mget (p_pending s) i = Some ch \<or> pc_closed (p_chans s ! ch))"
  using assms by (simp add: tracked_def)

lemma issued_next:
  assumes "Suc (unat (p_idSeq s)) < 2 ^ 64" "p_idSeq s' = p_idSeq s + 1"
  shows "issued s \<subseteq> issued s'" and "request_id (p_idSeq s + 1) \<in> issued s' - issued s"
    and "unat (p_idSeq s') = Suc (unat (p_idSeq s))"
proof -
  have u: "unat (p_idSeq s + 1) = Suc (unat (p_idSeq s))"
    using assms(1) by (simp add: unat_word_ariths)
  then show "unat (p_idSeq s') = Suc (unat (p_idSeq s))" by (simp add: assms(2))
  from u have lt: "p_idSeq s < p_idSeq s + 1" by (simp add: word_less_nat_alt)
  then show "issued s \<subseteq> issued s'" by (auto simp: issued_def assms(2) intro!: imageI)
  have "request_id (p_idSeq s + 1) \<notin> issued s" using lt by (auto simp: issued_def dest!: request_id_inj)
  moreover have "0 < p_idSeq s + 1" using u by (simp add: word_less_nat_alt)
  ultimately show "request_id (p_idSeq s + 1) \<in> issued s' - issued s"
    by (auto simp: issued_def assms(2) intro!: imageI)
qed

lemma tracked_register:
  assumes "tracked n s" "Suc n < 2 ^ 64" "p_send s t = SIdle"
  shows "tracked (Suc n) (Send_register t s)"
proof (cases "p_closed s")
  case True
  then show ?thesis
    using assms(1) tracked_waits [OF assms(1)]
    by (intro tracked_thread [OF assms(1), where t = t]) (auto simp: Send_register_def tracked_def issued_def split: if_splits)
next
  case False
  have le: "unat (p_idSeq s) \<le> n" using assms(1) by (simp add: tracked_def)
  let ?s = "Send_register t s"
  have q: "p_idSeq ?s = p_idSeq s + 1" using False by (simp add: Send_register_def Let_def)
  note nx = issued_next [OF _ q]
  have lim: "Suc (unat (p_idSeq s)) < 2 ^ 64" using le assms(2) by simp
  show ?thesis
  proof (rule tracked_thread [OF assms(1), where t = t])
    show "unat (p_idSeq ?s) \<le> Suc n" using nx(3) [OF lim] le by simp
    show "issued s \<subseteq> issued ?s" by (rule nx(1) [OF lim])
    show "thread_id (p_send ?s t) = Some i \<Longrightarrow> thread_id (p_send s t) = Some i \<or> i \<in> issued ?s - issued s" for i
      using nx(2) [OF lim] False by (auto simp: Send_register_def Let_def)
    fix u i ch assume w: "send_ref (p_send ?s u) = Some (i, ch)"
    show "ch < length (p_chans ?s) \<and> (mget (p_pending ?s) i = Some ch \<or> pc_closed (p_chans ?s ! ch))"
    proof (cases "u = t")
      case True
      then show ?thesis using w False by (auto simp: Send_register_def Let_def mget_mput)
    next
      case ut: False
      with w False have w0: "send_ref (p_send s u) = Some (i, ch)" by (simp add: Send_register_def Let_def)
      have "i \<in> issued s" using assms(1) waits_id [OF w0] by (simp add: tracked_def)
      then have "i \<noteq> request_id (p_idSeq s + 1)" using nx(2) [OF lim] by auto
      then show ?thesis
        using tracked_waits [OF assms(1) w0] False by (auto simp: Send_register_def Let_def mget_mput nth_append)
    qed
  qed (use False in \<open>auto simp: Send_register_def Let_def\<close>)
qed

lemma mdel_Nil [simp]: "mdel k [] = []"
  by (simp add: mdel_def)

lemma tracked_pstep:
  assumes "pstep fmtv s s'" "tracked n s" "Suc n < 2 ^ 64"
  shows "tracked (Suc n) s'"
  using assms
proof (induction rule: pstep.induct)
  case (register s t)
  then show ?case by (simp add: tracked_register)
next
  case (wrote s t i ch failure)
  then show ?case using tracked_waits [OF wrote.prems(1)] tracked_waits [OF wrote.prems(1), of t i ch]
    by (intro tracked_thread [OF wrote.prems(1), where t = t])
       (auto simp: Send_write_def tracked_def issued_def split: option.splits if_splits)
next
  case (receive t s)
  then show ?case using tracked_waits [OF receive.prems(1)]
    by (intro tracked_thread [OF receive.prems(1), where t = t])
       (auto simp: Send_receive_def can_receive_def tracked_def issued_def nth_update_any
         split: send_pc.splits list.splits if_splits)
next
  case (cancelled s t i ch err)
  then show ?case using tracked_waits [OF cancelled.prems(1)]
    by (intro tracked_thread [OF cancelled.prems(1), where t = t])
       (auto simp: Send_cancelled_def tracked_def issued_def split: if_splits)
next
  case (cleanup s t i r)
  have "j \<noteq> i" if "send_ref (p_send s u) = Some (j, ch)" "u \<noteq> t" for u j ch
    using cleanup that waits_id [OF that(1)] by (auto simp: tracked_def)
  then show ?case using cleanup tracked_waits [OF cleanup.prems(1)]
    by (intro tracked_thread [OF cleanup.prems(1), where t = t])
       (auto simp: Send_cleanup_def tracked_def issued_def mget_mdel split: if_splits)
next
  case (lookup s t data)
  then show ?case by (auto simp: Deliver_lookup_def tracked_def issued_def)
next
  case (deliver s t ch r)
  then show ?case by (auto simp: Deliver_send_def tracked_def issued_def nth_update_any)
next
  case (close_all s)
  have "ch < length (p_chans (CloseAll s)) \<and> pc_closed (p_chans (CloseAll s) ! ch)"
    if "send_ref (p_send s u) = Some (i, ch)" for u i ch
    using tracked_waits [OF close_all.prems(1) that]
    by (force simp: CloseAll_def close_fold dest: mget_SomeD)
  then show ?case using close_all by (simp add: tracked_def issued_def)
qed

lemma reaches_tracked: "reaches fmtv n s \<Longrightarrow> n < 2 ^ 64 \<Longrightarrow> tracked n s"
proof (induction rule: reaches.induct)
  case start
  show ?case by (simp add: tracked_def NewPendingRequests_def)
next
  case (step n s s')
  then show ?case using tracked_pstep [of fmtv s s' n] by simp
qed

text \<open>Shutdown leaves no \<open>Send\<close> behind. In every state reachable in fewer than \<open>2\<^sup>64\<close> steps in which
  \<open>CloseAll\<close> has run, every goroutine that waits for its response can receive from its channel (a
  response or the closing), and a new \<open>Send\<close> fails at once.\<close>

theorem close_wakes_all:
  assumes "reaches fmtv n s" and "n < 2 ^ 64" and "p_closed s"
  shows "(p_send s t = SWait i ch \<longrightarrow> can_receive t s)
    \<and> p_send (Send_register t s) t = SDone [] (SError ''transport closed'')"
proof -
  have tr: "tracked n s" by (rule reaches_tracked [OF assms(1,2)])
  then have "p_pending s = []" using assms(3) by (simp add: tracked_def)
  then have "pc_closed (p_chans s ! ch)" if "p_send s t = SWait i ch"
    using tracked_waits [OF tr, of t i ch] that by simp
  then show ?thesis using assms(3) by (simp add: can_receive_def Send_register_def)
qed

section \<open>Delivering while shutting down\<close>

definition demo_reply :: client_response where
  "demo_reply = \<lparr> resp_JSONRPC = ''2.0'', resp_ID = Some (JStr ''srv-1''), resp_Result = Some (JObj []), resp_Error = None \<rparr>"

definition demo_data :: json where
  "demo_data = JObj [(''jsonrpc'', JStr ''2.0''), (''id'', JStr ''srv-1''), (''result'', JObj [])]"

lemma foldName_response:
  "foldName ''jsonrpc'' = ''JSONRPC''" "foldName ''id'' = ''ID''" "foldName ''result'' = ''RESULT''"
  "foldName ''error'' = ''ERROR''"
  by (subst foldName_ascii; simp add: fold_eval)+

lemma unmarshal_demo: "UnmarshalResponse demo_data = Some demo_reply"
  by (simp add: UnmarshalResponse_def demo_data_def demo_reply_def as_object_def field_def members_def d_any_def
      foldName_response del: foldName.simps)

lemma key_demo: "response_key fmtv demo_reply = ''srv-1''"
  by (simp add: response_key_def demo_reply_def)

lemma id_demo: "request_id 1 = ''srv-1''"
  by code_simp

text \<open>The state after one goroutine has sent a request and is waiting.\<close>

definition demo_waiting :: PendingRequests where
  "demo_waiting = Send_write 0 None (Send_register 0 NewPendingRequests)"

lemma demo_waiting_fields:
  "p_send demo_waiting 0 = SWait ''srv-1'' 0" "p_pending demo_waiting = [(''srv-1'', 0)]"
  "p_chans demo_waiting = [\<lparr> pc_id = ''srv-1'', pc_buf = [], pc_closed = False \<rparr>]"
  "p_deliver demo_waiting t = DIdle" "\<not> p_closed demo_waiting"
  by (simp_all add: demo_waiting_def Send_register_def Send_write_def NewPendingRequests_def Let_def id_demo mput_def)

lemma demo_waiting_reaches: "reaches fmtv 2 demo_waiting"
proof -
  have "pstep fmtv NewPendingRequests (Send_register 0 NewPendingRequests)"
    by (rule pstep.register) (simp add: NewPendingRequests_def)
  moreover have "pstep fmtv (Send_register 0 NewPendingRequests) demo_waiting"
    unfolding demo_waiting_def
    by (rule pstep.wrote [of _ _ "request_id 1" 0]) (simp add: NewPendingRequests_def Send_register_def Let_def)
  ultimately show ?thesis using reaches.step reaches.start by (metis Suc_1 One_nat_def)
qed

text \<open>\<open>Deliver\<close> can panic. There is an execution in which \<open>CloseAll\<close> closes a channel after \<open>Deliver\<close>
  has looked it up and before it sends on it, and a send on a closed channel is a run-time panic.\<close>

theorem deliver_can_panic: "\<exists>n s. reaches fmtv n s \<and> p_deliver s 0 = DPanic"
proof -
  let ?s1 = "Deliver_lookup fmtv 0 (Some demo_data) demo_waiting"
  let ?s2 = "CloseAll ?s1"
  have got: "p_deliver ?s1 0 = DGot 0 demo_reply"
    by (simp add: Deliver_lookup_def unmarshal_demo key_demo demo_waiting_fields mget_def)
  have "pstep fmtv demo_waiting ?s1" by (rule pstep.lookup) (simp add: demo_waiting_fields)
  moreover have "pstep fmtv ?s1 ?s2" by (rule pstep.close_all)
  moreover have "pstep fmtv ?s2 (Deliver_send 0 ?s2)" by (rule pstep.deliver [of _ _ 0 demo_reply]) (simp add: got)
  ultimately have "reaches fmtv (Suc (Suc (Suc 2))) (Deliver_send 0 ?s2)"
    using demo_waiting_reaches reaches.step by blast
  moreover have "p_deliver (Deliver_send 0 ?s2) 0 = DPanic"
    using got by (simp add: Deliver_send_def) (simp add: CloseAll_def Deliver_lookup_def demo_waiting_fields)
  ultimately show ?thesis by blast
qed

text \<open>The same request answered in time.\<close>

definition demo_answered :: "(json option \<Rightarrow> string) \<Rightarrow> PendingRequests" where
  "demo_answered fmtv = Send_cleanup 0 (Send_receive 0 (Deliver_send 0 (Deliver_lookup fmtv 0 (Some demo_data) demo_waiting)))"

lemma demo_answered_reaches: "reaches fmtv 6 (demo_answered fmtv) \<and> p_send (demo_answered fmtv) 0 = SDone ''srv-1'' (SResponse demo_reply)"
proof -
  let ?s1 = "Deliver_lookup fmtv 0 (Some demo_data) demo_waiting"
  let ?s2 = "Deliver_send 0 ?s1"
  let ?s3 = "Send_receive 0 ?s2"
  note ev = Deliver_lookup_def Deliver_send_def Send_receive_def Send_cleanup_def can_receive_def
    unmarshal_demo key_demo demo_waiting_fields mget_def
  have "pstep fmtv demo_waiting ?s1" by (rule pstep.lookup) (simp add: demo_waiting_fields)
  moreover have "pstep fmtv ?s1 ?s2" by (rule pstep.deliver [of _ _ 0 demo_reply]) (simp add: ev)
  moreover have "pstep fmtv ?s2 ?s3" by (rule pstep.receive) (simp add: ev)
  moreover have "pstep fmtv ?s3 (demo_answered fmtv)"
    unfolding demo_answered_def by (rule pstep.cleanup [of _ _ "''srv-1''" "SResponse demo_reply"]) (simp add: ev)
  ultimately have "reaches fmtv (Suc (Suc (Suc (Suc 2)))) (demo_answered fmtv)"
    using demo_waiting_reaches reaches.step by blast
  then show ?thesis by (simp add: numeral_eq_Suc demo_answered_def ev)
qed

theorem send_returns_own_response_witness: "response_key (\<lambda>_. ''?'') demo_reply = ''srv-1''"
  using send_returns_own_response [OF conjunct1 [OF demo_answered_reaches] conjunct2 [OF demo_answered_reaches]] .

theorem close_wakes_all_witness: "can_receive 0 (CloseAll demo_waiting)"
proof -
  have "reaches (\<lambda>_. ''?'') (Suc 2) (CloseAll demo_waiting)"
    by (rule reaches.step [OF demo_waiting_reaches pstep.close_all])
  from close_wakes_all [OF this, of 0 "''srv-1''" 0] show ?thesis by (simp add: demo_waiting_fields)
qed

end
