(* ===== verification/Tool_Stream.thy ===== *)
theory Tool_Stream
  imports Dispatch
begin

text \<open>
  \<open>stream.go\<close>: the stream of a tool call. Any number of goroutines send; the drain goroutine moves
  chunks from the bounded channel to the client; and the end of the call closes the stream. Every
  access to a channel, to the closed flag and to the sender is one step.
\<close>

section \<open>State\<close>

definition DefaultStreamBufferSize :: nat where "DefaultStreamBufferSize = 16"

datatype stream_result = StreamSent | ErrStreamClosed | StreamErr string | StreamCtxErr

datatype stream_send_pc = TIdle | TSelect json | TDone stream_result

text \<open>The drain goroutine: in its loop, in \<open>flushRemaining\<close>, or with a received chunk in hand (the
  flag says whether it is flushing).\<close>

datatype drain_pc = DrLoop | DrFlush | DrHold json bool | DrDone

text \<open>The goroutine in \<open>close\<close>; the flag of the last point says whether it waited for the drain.\<close>

datatype close_pc = CIdle | CMarked | CWait | CContext | CFlush | CHold json | CReturned bool

text \<open>The last field is history: the chunks that entered the channel, in their order.\<close>

record ToolStream =
  st_token :: "json option"
  st_cap :: nat
  st_buf :: "json list"
  st_closed :: bool
  st_quit :: bool
  st_ctxDone :: bool
  st_seq :: nat
  st_sent :: "JSONRPCNotification list"
  st_senders :: "nat \<Rightarrow> stream_send_pc"
  st_drain :: drain_pc
  st_closer :: close_pc
  st_accepted :: "json list"

definition newToolStream :: "json option \<Rightarrow> int \<Rightarrow> ToolStream" where
  "newToolStream token bufSize =
     \<lparr> st_token = token, st_cap = (if bufSize \<le> 0 then DefaultStreamBufferSize else nat bufSize), st_buf = [],
       st_closed = False, st_quit = False, st_ctxDone = False, st_seq = 0, st_sent = [],
       st_senders = (\<lambda>_. TIdle), st_drain = DrLoop, st_closer = CIdle, st_accepted = [] \<rparr>"

section \<open>Steps\<close>

text \<open>\<open>Send\<close> up to its select. The content is nil, or what marshalling it yields.\<close>

definition Send_check :: "nat \<Rightarrow> (string + json) option \<Rightarrow> ToolStream \<Rightarrow> ToolStream" where
  "Send_check t content s =
     s \<lparr> st_senders := (st_senders s)(t :=
       (if st_closed s then TDone ErrStreamClosed
        else case content of
          None \<Rightarrow> TDone (StreamErr ''stream: content must not be nil'')
        | Some (Inl e) \<Rightarrow> TDone (StreamErr (''stream: content is not marshallable: '' @ e))
        | Some (Inr chunk) \<Rightarrow> TSelect chunk)) \<rparr>"

definition SendText_check :: "nat \<Rightarrow> string \<Rightarrow> ToolStream \<Rightarrow> ToolStream" where
  "SendText_check t txt = Send_check t (Some (Inr (JObj [(''type'', JStr ''text''), (''text'', JStr txt)])))"

definition Send_enqueue :: "nat \<Rightarrow> json \<Rightarrow> ToolStream \<Rightarrow> ToolStream" where
  "Send_enqueue t chunk s = s \<lparr> st_buf := st_buf s @ [chunk], st_accepted := st_accepted s @ [chunk],
     st_senders := (st_senders s)(t := TDone StreamSent) \<rparr>"

definition sendProgressChunk :: "json \<Rightarrow> ToolStream \<Rightarrow> ToolStream" where
  "sendProgressChunk chunk s =
     (let seq = st_seq s + 1
      in s \<lparr> st_seq := seq, st_sent := st_sent s @ [stream_chunk (st_token s) seq chunk] \<rparr>)"

definition Sequence :: "ToolStream \<Rightarrow> nat" where
  "Sequence s = st_seq s"

inductive sstep :: "ToolStream \<Rightarrow> ToolStream \<Rightarrow> bool" where
  send: "st_senders s t = TIdle \<Longrightarrow> sstep s (Send_check t content s)"
| enqueue: "st_senders s t = TSelect chunk \<Longrightarrow> length (st_buf s) < st_cap s \<Longrightarrow> sstep s (Send_enqueue t chunk s)"
| send_quit: "st_senders s t = TSelect chunk \<Longrightarrow> st_quit s \<Longrightarrow>
    sstep s (s \<lparr> st_senders := (st_senders s)(t := TDone ErrStreamClosed) \<rparr>)"
| send_ctx: "st_senders s t = TSelect chunk \<Longrightarrow> st_ctxDone s \<Longrightarrow>
    sstep s (s \<lparr> st_senders := (st_senders s)(t := TDone StreamCtxErr) \<rparr>)"
| context_done: "sstep s (s \<lparr> st_ctxDone := True \<rparr>)"
| drain_take: "st_drain s = DrLoop \<Longrightarrow> st_buf s = chunk # rest \<Longrightarrow>
    sstep s (s \<lparr> st_buf := rest, st_drain := DrHold chunk False \<rparr>)"
| drain_stop: "st_drain s = DrLoop \<Longrightarrow> st_quit s \<or> st_ctxDone s \<Longrightarrow> sstep s (s \<lparr> st_drain := DrFlush \<rparr>)"
| drain_flush: "st_drain s = DrFlush \<Longrightarrow> st_buf s = chunk # rest \<Longrightarrow>
    sstep s (s \<lparr> st_buf := rest, st_drain := DrHold chunk True \<rparr>)"
| drain_exit: "st_drain s = DrFlush \<Longrightarrow> st_buf s = [] \<Longrightarrow> sstep s (s \<lparr> st_drain := DrDone \<rparr>)"
| drain_send: "st_drain s = DrHold chunk fl \<Longrightarrow>
    sstep s ((sendProgressChunk chunk s) \<lparr> st_drain := (if fl then DrFlush else DrLoop) \<rparr>)"
| close_mark: "st_closer s = CIdle \<Longrightarrow> sstep s (s \<lparr> st_closed := True, st_closer := CMarked \<rparr>)"
| close_quit: "st_closer s = CMarked \<Longrightarrow> sstep s (s \<lparr> st_quit := True, st_closer := CWait \<rparr>)"
| close_done: "st_closer s \<in> {CWait, CContext} \<Longrightarrow> st_drain s = DrDone \<Longrightarrow> sstep s (s \<lparr> st_closer := CFlush \<rparr>)"
| close_ctx: "st_closer s = CWait \<Longrightarrow> st_ctxDone s \<Longrightarrow> sstep s (s \<lparr> st_closer := CContext \<rparr>)"
| close_early: "st_closer s = CContext \<Longrightarrow> st_drain s \<noteq> DrDone \<Longrightarrow> sstep s (s \<lparr> st_closer := CReturned False \<rparr>)"
| close_flush: "st_closer s = CFlush \<Longrightarrow> st_buf s = chunk # rest \<Longrightarrow>
    sstep s (s \<lparr> st_buf := rest, st_closer := CHold chunk \<rparr>)"
| close_send: "st_closer s = CHold chunk \<Longrightarrow> sstep s ((sendProgressChunk chunk s) \<lparr> st_closer := CFlush \<rparr>)"
| close_return: "st_closer s = CFlush \<Longrightarrow> st_buf s = [] \<Longrightarrow> sstep s (s \<lparr> st_closer := CReturned True \<rparr>)"

inductive stream_reaches :: "ToolStream \<Rightarrow> ToolStream \<Rightarrow> bool" where
  stream_start [intro]: "stream_reaches s s"
| stream_step: "stream_reaches s s1 \<Longrightarrow> sstep s1 s2 \<Longrightarrow> stream_reaches s s2"

section \<open>Order and numbering\<close>

definition held :: "ToolStream \<Rightarrow> json list" where
  "held s = (case st_drain s of DrHold c _ \<Rightarrow> [c] | _ \<Rightarrow> []) @ (case st_closer s of CHold c \<Rightarrow> [c] | _ \<Rightarrow> [])"

definition numbered :: "json option \<Rightarrow> json list \<Rightarrow> JSONRPCNotification list" where
  "numbered token chunks = map (\<lambda>(seq, chunk). stream_chunk token seq chunk) (enumerate 1 chunks)"

lemma numbered_snoc: "numbered token (xs @ [x]) = numbered token xs @ [stream_chunk token (Suc (length xs)) x]"
  by (simp add: numbered_def enumerate_append_eq)

definition in_order :: "ToolStream \<Rightarrow> bool" where
  "in_order s \<longleftrightarrow> (\<exists>out. st_sent s = numbered (st_token s) out \<and> st_seq s = length out
       \<and> out @ held s @ st_buf s = st_accepted s)
     \<and> length (st_buf s) \<le> st_cap s
     \<and> (st_closer s = CFlush \<or> (\<exists>c. st_closer s = CHold c) \<or> st_closer s = CReturned True \<longrightarrow> st_drain s = DrDone)"

lemma in_orderI:
  assumes "st_sent s = numbered (st_token s) out" "st_seq s = length out" "out @ held s @ st_buf s = st_accepted s"
    and "length (st_buf s) \<le> st_cap s"
    and "st_closer s = CFlush \<or> (\<exists>c. st_closer s = CHold c) \<or> st_closer s = CReturned True \<longrightarrow> st_drain s = DrDone"
  shows "in_order s"
  using assms by (auto simp: in_order_def)

lemma sstep_in_order: "sstep s s' \<Longrightarrow> in_order s \<Longrightarrow> in_order s'"
proof (induction rule: sstep.induct)
  case (drain_send s chunk fl)
  then obtain out where out: "st_sent s = numbered (st_token s) out" "st_seq s = length out"
    "out @ held s @ st_buf s = st_accepted s" by (auto simp: in_order_def)
  have "\<nexists>c. st_closer s = CHold c" using drain_send by (auto simp: in_order_def)
  then have "held s = [chunk]" "held ((sendProgressChunk chunk s) \<lparr> st_drain := (if fl then DrFlush else DrLoop) \<rparr>) = []"
    using drain_send(1) by (auto simp: held_def sendProgressChunk_def Let_def split: close_pc.splits)
  with out drain_send show ?case
    by (intro in_orderI [where out = "out @ [chunk]"])
       (auto simp: sendProgressChunk_def numbered_snoc in_order_def Let_def)
next
  case (close_send s chunk)
  then obtain out where out: "st_sent s = numbered (st_token s) out" "st_seq s = length out"
    "out @ held s @ st_buf s = st_accepted s" by (auto simp: in_order_def)
  have d: "st_drain s = DrDone" using close_send by (auto simp: in_order_def)
  then have "held s = [chunk]" "held ((sendProgressChunk chunk s) \<lparr> st_closer := CFlush \<rparr>) = []"
    using close_send(1) by (auto simp: held_def sendProgressChunk_def Let_def)
  with out close_send d show ?case
    by (intro in_orderI [where out = "out @ [chunk]"])
       (auto simp: sendProgressChunk_def numbered_snoc in_order_def Let_def)
qed (auto simp: in_order_def held_def Send_check_def Send_enqueue_def split: close_pc.splits)

lemma new_in_order: "in_order (newToolStream token n)"
  by (simp add: in_order_def newToolStream_def held_def numbered_def)

lemma reaches_in_order: "stream_reaches s s' \<Longrightarrow> in_order s \<Longrightarrow> in_order s'"
  by (induction rule: stream_reaches.induct) (auto intro: sstep_in_order)

lemma reaches_token: "stream_reaches s s' \<Longrightarrow> st_token s' = st_token s"
proof (induction rule: stream_reaches.induct)
  case (stream_step s s1 s2)
  have "st_token s2 = st_token s1"
    using stream_step(2)
    by (induction rule: sstep.induct) (simp_all add: Send_check_def Send_enqueue_def sendProgressChunk_def Let_def)
  with stream_step show ?case by simp
qed simp

text \<open>C20: Whatever the interleaving, the client receives the chunks in the order in which they entered
  the channel, numbered from one without gaps, and the channel never holds more than its capacity.
  When \<open>close\<close> returns after waiting for the drain, every chunk accepted so far has been delivered,
  which is the world that the synchronous model of \<open>tools/call\<close> computes with \<open>close_stream\<close>.\<close>

theorem stream_delivers_in_order:
  assumes "stream_reaches (newToolStream token n) s"
  shows "(\<exists>k. st_sent s = numbered token (take k (st_accepted s))) \<and> Sequence s = length (st_sent s)
    \<and> length (st_buf s) \<le> st_cap s
    \<and> (st_closer s = CFlush \<and> st_buf s = [] \<longrightarrow>
         st_sent s = numbered token (st_accepted s)
         \<and> close_stream (Some send) token \<lparr> hs_holder = h, hs_stream = Some (st_accepted s), hs_world = w \<rparr>
             = fold send (st_sent s) w)"
proof -
  have tok: "st_token s = token" using reaches_token [OF assms] by (simp add: newToolStream_def)
  have ord: "in_order s" by (rule reaches_in_order [OF assms new_in_order])
  then obtain out where out: "st_sent s = numbered token out" "st_seq s = length out"
    "out @ held s @ st_buf s = st_accepted s" by (auto simp: in_order_def tok)
  have len: "length (numbered token xs) = length xs" for xs by (simp add: numbered_def)
  have "take (length out) (st_accepted s) = out" using out(3) [symmetric] by simp
  then have "\<exists>k. st_sent s = numbered token (take k (st_accepted s))" using out(1) by metis
  moreover have "out = st_accepted s" if "st_closer s = CFlush" "st_buf s = []"
    using out(3) that ord by (simp add: in_order_def held_def)
  moreover have "close_stream (Some send) token \<lparr> hs_holder = h, hs_stream = Some xs, hs_world = w \<rparr>
      = fold send (numbered token xs) w" for xs
    by (simp add: close_stream_def numbered_def fold_map comp_def split_def)
  ultimately show ?thesis using out(1,2) len ord by (auto simp: Sequence_def in_order_def)
qed

section \<open>Closing ends\<close>

fun drain_weight :: "drain_pc \<Rightarrow> nat" where
  "drain_weight DrLoop = 2" | "drain_weight DrFlush = 1" | "drain_weight (DrHold _ fl) = (if fl then 4 else 5)"
| "drain_weight DrDone = 0"

fun close_weight :: "close_pc \<Rightarrow> nat" where
  "close_weight CIdle = 10" | "close_weight CMarked = 9" | "close_weight CWait = 8" | "close_weight CContext = 7"
| "close_weight CFlush = 1" | "close_weight (CHold _) = 4" | "close_weight (CReturned _) = 0"

definition remaining :: "ToolStream \<Rightarrow> nat" where
  "remaining s = 4 * length (st_buf s) + drain_weight (st_drain s) + close_weight (st_closer s)"

text \<open>Once the closer has gone past closing the quit channel, that channel stays closed.\<close>

definition quit_seen :: "ToolStream \<Rightarrow> bool" where
  "quit_seen s \<longleftrightarrow> (st_closer s \<in> {CWait, CContext, CFlush} \<or> (\<exists>c. st_closer s = CHold c) \<longrightarrow> st_quit s)"

lemma reaches_quit: "stream_reaches s s' \<Longrightarrow> quit_seen s \<Longrightarrow> quit_seen s'"
proof (induction rule: stream_reaches.induct)
  case (stream_step s s1 s2)
  have "quit_seen s1 \<Longrightarrow> quit_seen s2"
    using stream_step(2)
    by (induction rule: sstep.induct) (auto simp: quit_seen_def Send_check_def Send_enqueue_def sendProgressChunk_def Let_def)
  with stream_step show ?case by simp
qed

lemma progressI: "sstep s s' \<Longrightarrow> remaining s' < remaining s \<Longrightarrow> \<exists>s'. sstep s s' \<and> remaining s' < remaining s"
  by blast

text \<open>The drain goroutine, once it may stop, always has a step, and so has the closer that waits for it.\<close>

lemma drain_progress:
  assumes "st_quit s" and "st_drain s \<noteq> DrDone"
  shows "\<exists>s'. sstep s s' \<and> remaining s' < remaining s"
proof (cases "st_drain s")
  case DrLoop
  with assms(1) show ?thesis by (intro progressI [OF sstep.drain_stop]) (auto simp: remaining_def)
next
  case DrFlush
  show ?thesis
  proof (cases "st_buf s")
    case Nil
    with DrFlush show ?thesis by (intro progressI [OF sstep.drain_exit]) (auto simp: remaining_def)
  next
    case (Cons c cs)
    with DrFlush show ?thesis by (intro progressI [OF sstep.drain_flush]) (auto simp: remaining_def)
  qed
next
  case (DrHold c fl)
  then show ?thesis
    by (intro progressI [OF sstep.drain_send]) (auto simp: remaining_def sendProgressChunk_def Let_def)
qed (use assms in simp)

lemma closer_progress:
  assumes "quit_seen s" and "st_closer s \<noteq> CIdle" and "\<nexists>b. st_closer s = CReturned b"
  shows "\<exists>s'. sstep s s' \<and> remaining s' < remaining s"
proof (cases "st_closer s")
  case CMarked
  then show ?thesis by (intro progressI [OF sstep.close_quit]) (auto simp: remaining_def)
next
  case CFlush
  show ?thesis
  proof (cases "st_buf s")
    case Nil
    with CFlush show ?thesis by (intro progressI [OF sstep.close_return]) (auto simp: remaining_def)
  next
    case (Cons c cs)
    with CFlush show ?thesis by (intro progressI [OF sstep.close_flush]) (auto simp: remaining_def)
  qed
next
  case (CHold c)
  then show ?thesis
    by (intro progressI [OF sstep.close_send]) (auto simp: remaining_def sendProgressChunk_def Let_def)
next
  case CContext
  show ?thesis
  proof (cases "st_drain s = DrDone")
    case True
    with CContext show ?thesis by (intro progressI [OF sstep.close_done]) (auto simp: remaining_def)
  next
    case False
    with CContext show ?thesis by (intro progressI [OF sstep.close_early]) (auto simp: remaining_def)
  qed
next
  case CWait
  show ?thesis
  proof (cases "st_drain s = DrDone")
    case True
    with CWait show ?thesis by (intro progressI [OF sstep.close_done]) (auto simp: remaining_def)
  qed (use CWait assms(1) in \<open>simp add: drain_progress quit_seen_def\<close>)
qed (use assms in auto)

lemma steps_do_not_add_work:
  "sstep s s' \<Longrightarrow> remaining s' < remaining s \<or> (st_drain s' = st_drain s \<and> st_closer s' = st_closer s)"
  by (auto elim!: sstep.cases simp: remaining_def Send_check_def Send_enqueue_def sendProgressChunk_def Let_def
      split: if_splits)

text \<open>C21: \<open>close\<close> comes to its end. While it runs, some step of the drain goroutine or of \<open>close\<close> itself
  is possible that reduces the remaining work, no step of theirs increases it, and the only steps
  that do are of senders that were already past the test of the closed flag.\<close>

theorem close_makes_progress:
  assumes "stream_reaches (newToolStream token n) s"
    and "st_closer s \<noteq> CIdle" and "\<nexists>b. st_closer s = CReturned b"
  shows "(\<exists>s'. sstep s s' \<and> remaining s' < remaining s)
    \<and> (\<forall>s'. sstep s s' \<longrightarrow> remaining s' < remaining s \<or> (st_drain s' = st_drain s \<and> st_closer s' = st_closer s))"
proof -
  have "quit_seen s" by (rule reaches_quit [OF assms(1)]) (simp add: quit_seen_def newToolStream_def)
  then show ?thesis using closer_progress [OF _ assms(2,3)] steps_do_not_add_work by blast
qed

section \<open>A short stream\<close>

definition demo_stream :: ToolStream where
  "demo_stream = newToolStream None 1"

definition demo_closing :: ToolStream where
  "demo_closing = (let s1 = Send_enqueue 0 JNull (Send_check 0 (Some (Inr JNull)) demo_stream);
       s2 = s1 \<lparr> st_closed := True, st_closer := CMarked \<rparr>
   in s2 \<lparr> st_quit := True, st_closer := CWait \<rparr>)"

lemma demo_closing_reaches: "stream_reaches (newToolStream None 1) demo_closing"
proof -
  let ?s0 = "newToolStream None 1"
  let ?s1 = "Send_check 0 (Some (Inr JNull)) ?s0"
  let ?s2 = "Send_enqueue 0 JNull ?s1"
  let ?s3 = "?s2 \<lparr> st_closed := True, st_closer := CMarked \<rparr>"
  note ev = newToolStream_def Send_check_def Send_enqueue_def
  have "sstep ?s0 ?s1" by (rule sstep.send) (simp add: ev)
  moreover have "sstep ?s1 ?s2" by (rule sstep.enqueue) (simp_all add: ev)
  moreover have "sstep ?s2 ?s3" by (rule sstep.close_mark) (simp add: ev)
  moreover have "sstep ?s3 demo_closing"
    unfolding demo_closing_def Let_def demo_stream_def by (rule sstep.close_quit) simp
  ultimately show ?thesis by (meson stream_start stream_step)
qed

theorem stream_delivers_in_order_witness: "length (st_buf demo_closing) \<le> st_cap demo_closing"
  using stream_delivers_in_order [OF demo_closing_reaches, where send = "\<lambda>_ w. w" and h = None and w = "()"] by blast

theorem close_makes_progress_witness: "\<exists>s'. sstep demo_closing s' \<and> remaining s' < remaining demo_closing"
proof -
  have "st_closer demo_closing = CWait" by (simp add: demo_closing_def Let_def)
  then show ?thesis using close_makes_progress [OF demo_closing_reaches] by simp
qed

end
