(* ===== verification/Breaker_Spec.thy ===== *)
theory Breaker_Spec
  imports Mcp_Prelude
begin

text \<open>
  What the two circuit breakers of the repository (\<open>middleware/circuitbreaker.go\<close> and
  \<open>client/circuitbreaker.go\<close>) promise to calls that do not overlap: count consecutive failures, trip
  at the threshold, then reject without calling until the timeout has passed.
\<close>

text \<open>A call is the time it starts, the time it ends and whether it failed. \<open>run_calls\<close> yields which of
  a sequence of calls were admitted, and the breaker after them.\<close>

primrec run_calls ::
  "(int \<Rightarrow> 'b \<Rightarrow> bool \<times> 'b) \<Rightarrow> (int \<Rightarrow> bool \<Rightarrow> 'b \<Rightarrow> 'b) \<Rightarrow> (int \<times> int \<times> bool) list \<Rightarrow> 'b \<Rightarrow> bool list \<times> 'b" where
  "run_calls admit record_call [] b = ([], b)"
| "run_calls admit record_call (c # cs) b =
     (case admit (fst c) b of
        (False, b1) \<Rightarrow> (case run_calls admit record_call cs b1 of (as, b') \<Rightarrow> (False # as, b'))
      | (True, b1) \<Rightarrow> (case run_calls admit record_call cs (record_call (fst (snd c)) (snd (snd c)) b1) of
           (as, b') \<Rightarrow> (True # as, b')))"

text \<open>The longest run of failures at the end of a sequence of outcomes, on top of \<open>k\<close> earlier ones.\<close>

primrec streak :: "int \<Rightarrow> bool list \<Rightarrow> int" where
  "streak k [] = k"
| "streak k (failed # fs) = streak (if failed then k + 1 else 0) fs"

primrec stays_below :: "int \<Rightarrow> int \<Rightarrow> bool list \<Rightarrow> bool" where
  "stays_below n k [] \<longleftrightarrow> k < n"
| "stays_below n k (failed # fs) \<longleftrightarrow> k < n \<and> stays_below n (if failed then k + 1 else 0) fs"

locale call_breaker =
  fixes admit :: "int \<Rightarrow> 'b \<Rightarrow> bool \<times> 'b"
    and record_call :: "int \<Rightarrow> bool \<Rightarrow> 'b \<Rightarrow> 'b"
    and is_closed :: "'b \<Rightarrow> bool"
    and is_open :: "'b \<Rightarrow> bool"
    and failures :: "'b \<Rightarrow> int"
    and opened_at :: "'b \<Rightarrow> int"
    and threshold :: int
    and timeout :: int
  assumes closed_admits: "is_closed b \<Longrightarrow> admit t b = (True, b)"
    and open_rejects: "is_open b \<Longrightarrow> t < opened_at b + timeout \<Longrightarrow> admit t b = (False, b)"
    and success_resets: "is_closed b \<Longrightarrow> is_closed (record_call t False b) \<and> failures (record_call t False b) = 0"
    and failure_counts: "is_closed b \<Longrightarrow> failures b + 1 < threshold \<Longrightarrow>
          is_closed (record_call t True b) \<and> failures (record_call t True b) = failures b + 1"
    and failure_trips: "is_closed b \<Longrightarrow> failures b + 1 \<ge> threshold \<Longrightarrow>
          is_open (record_call t True b) \<and> opened_at (record_call t True b) = t"
    and threshold_pos: "threshold \<ge> 1"
begin

lemma closed_run:
  assumes "is_closed b" "stays_below threshold (failures b) (map (\<lambda>c. snd (snd c)) cs)"
  shows "fst (run_calls admit record_call cs b) = replicate (length cs) True
    \<and> is_closed (snd (run_calls admit record_call cs b))
    \<and> failures (snd (run_calls admit record_call cs b)) = streak (failures b) (map (\<lambda>c. snd (snd c)) cs)"
  using assms
proof (induction cs arbitrary: b)
  case (Cons c cs)
  let ?b = "record_call (fst (snd c)) (snd (snd c)) b"
  have below: "stays_below threshold (if snd (snd c) then failures b + 1 else 0) (map (\<lambda>c. snd (snd c)) cs)"
    using Cons.prems(2) by simp
  then have "(if snd (snd c) then failures b + 1 else 0) < threshold" by (cases cs) auto
  then have b: "is_closed ?b \<and> failures ?b = (if snd (snd c) then failures b + 1 else 0)"
    using Cons.prems(1) success_resets failure_counts by (cases "snd (snd c)") auto
  show ?case using Cons.IH [of ?b] b below closed_admits [OF Cons.prems(1)]
    by (cases "snd (snd c)"; cases "run_calls admit record_call cs ?b") simp_all
qed simp

lemma open_run:
  assumes "is_open b" "\<forall>c \<in> set cs. fst c < opened_at b + timeout"
  shows "run_calls admit record_call cs b = (replicate (length cs) False, b)"
  using assms by (induction cs) (simp_all add: open_rejects)

text \<open>The contract: below the threshold everything is admitted; the failure that reaches it trips the
  breaker; from then on every call that starts within the timeout is rejected and changes nothing.\<close>

lemma contract:
  assumes "is_closed b" "stays_below threshold (failures b) (map (\<lambda>c. snd (snd c)) cs)"
    and "streak (failures b) (map (\<lambda>c. snd (snd c)) cs) + 1 = threshold"
    and "\<forall>c \<in> set cs'. fst c < t + timeout"
  shows "fst (run_calls admit record_call (cs @ (t0, t, True) # cs') b)
       = replicate (Suc (length cs)) True @ replicate (length cs') False"
proof -
  have app: "run_calls admit record_call (xs @ ys) b = (case run_calls admit record_call xs b of (as, b1) \<Rightarrow>
      (case run_calls admit record_call ys b1 of (as', b2) \<Rightarrow> (as @ as', b2)))" for xs ys b
    by (induction xs arbitrary: b) (auto split: prod.splits bool.splits)
  obtain as b1 where r: "run_calls admit record_call cs b = (as, b1)" by fastforce
  with closed_run [OF assms(1,2)] assms(3)
  have as: "as = replicate (length cs) True" and b1: "is_closed b1" "failures b1 + 1 = threshold" by auto
  from failure_trips [OF b1(1), of t] b1(2)
  have o1: "is_open (record_call t True b1)" "opened_at (record_call t True b1) = t" by auto
  have "run_calls admit record_call cs' (record_call t True b1) = (replicate (length cs') False, record_call t True b1)"
    by (rule open_run) (use o1 assms(4) in auto)
  then show ?thesis by (simp add: app r as closed_admits [OF b1(1)] replicate_append_same)
qed

end

end
