(* ===== verification/Circuit_Breaker.thy ===== *)
theory Circuit_Breaker
  imports Breaker_Spec
begin

text \<open>
  \<open>middleware/circuitbreaker.go\<close>: the per-key circuit breaker. \<open>beforeCall\<close> and \<open>afterCall\<close> are atomic
  (they hold the mutex), so concurrent calls are sequences of these two. Times are nanoseconds since
  the epoch; the clock reading is an argument. A state-change notification is a pair of states.
\<close>

section \<open>Model\<close>

definition ErrCircuitOpen :: goerr where "ErrCircuitOpen = Sentinel ''circuit breaker is open''"

datatype CircuitState = StateClosed | StateOpen | StateHalfOpen

fun circuit_state_text :: "CircuitState \<Rightarrow> string" where
  "circuit_state_text StateClosed = ''closed''"
| "circuit_state_text StateOpen = ''open''"
| "circuit_state_text StateHalfOpen = ''half-open''"

record circuitBreakerConfig =
  cb_failureThreshold :: int
  cb_successThreshold :: int
  cb_timeout :: int
  cb_maxHalfOpen :: int

definition WithFailureThreshold :: "int \<Rightarrow> circuitBreakerConfig \<Rightarrow> circuitBreakerConfig" where
  "WithFailureThreshold n c = (if n > 0 then c \<lparr> cb_failureThreshold := n \<rparr> else c)"

definition WithSuccessThreshold :: "int \<Rightarrow> circuitBreakerConfig \<Rightarrow> circuitBreakerConfig" where
  "WithSuccessThreshold n c = (if n > 0 then c \<lparr> cb_successThreshold := n \<rparr> else c)"

definition WithResetTimeout :: "int \<Rightarrow> circuitBreakerConfig \<Rightarrow> circuitBreakerConfig" where
  "WithResetTimeout d c = (if d > 0 then c \<lparr> cb_timeout := d \<rparr> else c)"

definition WithMaxHalfOpen :: "int \<Rightarrow> circuitBreakerConfig \<Rightarrow> circuitBreakerConfig" where
  "WithMaxHalfOpen n c = (if n > 0 then c \<lparr> cb_maxHalfOpen := n \<rparr> else c)"

text \<open>The defaults, the options, and the final clamping of the constructor.\<close>

definition circuit_config :: "(circuitBreakerConfig \<Rightarrow> circuitBreakerConfig) list \<Rightarrow> circuitBreakerConfig" where
  "circuit_config opts =
     (let c = fold (\<lambda>opt c. opt c) opts \<lparr> cb_failureThreshold = 5, cb_successThreshold = 2,
                cb_timeout = 30 * 10 ^ 9, cb_maxHalfOpen = 1 \<rparr>;
          c1 = (if cb_failureThreshold c < 1 then c \<lparr> cb_failureThreshold := 1 \<rparr> else c)
      in if cb_successThreshold c1 < 1 then c1 \<lparr> cb_successThreshold := 1 \<rparr> else c1)"

record breaker =
  b_state :: CircuitState
  b_failures :: int
  b_successes :: int
  b_lastFailureTime :: int
  b_halfOpenCount :: int

definition new_breaker :: breaker where
  "new_breaker = \<lparr> b_state = StateClosed, b_failures = 0, b_successes = 0, b_lastFailureTime = 0, b_halfOpenCount = 0 \<rparr>"

definition timed_out :: "circuitBreakerConfig \<Rightarrow> int \<Rightarrow> breaker \<Rightarrow> bool" where
  "timed_out cfg now b \<longleftrightarrow> now > b_lastFailureTime b + cb_timeout cfg"

definition effective_State :: "circuitBreakerConfig \<Rightarrow> int \<Rightarrow> breaker \<Rightarrow> CircuitState" where
  "effective_State cfg now b =
     (if b_state b = StateOpen \<and> timed_out cfg now b then StateHalfOpen else b_state b)"

definition transitionLocked :: "CircuitState \<Rightarrow> breaker \<Rightarrow> breaker \<times> (CircuitState \<times> CircuitState) list" where
  "transitionLocked to b =
     (let b1 = b \<lparr> b_state := to, b_successes := 0, b_halfOpenCount := 0 \<rparr>
      in (if to = StateClosed then b1 \<lparr> b_failures := 0 \<rparr> else b1, [(b_state b, to)]))"

definition maybeTransitionToHalfOpen ::
  "circuitBreakerConfig \<Rightarrow> int \<Rightarrow> breaker \<Rightarrow> breaker \<times> (CircuitState \<times> CircuitState) list" where
  "maybeTransitionToHalfOpen cfg now b =
     (if b_state b = StateOpen \<and> timed_out cfg now b then transitionLocked StateHalfOpen b else (b, []))"

definition beforeCall ::
  "circuitBreakerConfig \<Rightarrow> int \<Rightarrow> breaker \<Rightarrow> (CircuitState \<times> goerr option) \<times> breaker \<times> (CircuitState \<times> CircuitState) list" where
  "beforeCall cfg now b =
     (let (b1, notify) = maybeTransitionToHalfOpen cfg now b
      in case b_state b1 of
           StateClosed \<Rightarrow> ((StateClosed, None), b1, notify)
         | StateOpen \<Rightarrow> ((StateOpen, Some ErrCircuitOpen), b1, notify)
         | StateHalfOpen \<Rightarrow>
             if b_halfOpenCount b1 \<ge> cb_maxHalfOpen cfg then ((StateHalfOpen, Some ErrCircuitOpen), b1, notify)
             else ((StateHalfOpen, None), b1 \<lparr> b_halfOpenCount := b_halfOpenCount b1 + 1 \<rparr>, notify))"

definition afterCall ::
  "circuitBreakerConfig \<Rightarrow> int \<Rightarrow> CircuitState \<Rightarrow> bool \<Rightarrow> breaker \<Rightarrow> breaker \<times> (CircuitState \<times> CircuitState) list" where
  "afterCall cfg now admittedState failed b =
     (case admittedState of
        StateClosed \<Rightarrow>
          if failed then
            let b1 = b \<lparr> b_failures := b_failures b + 1 \<rparr>
            in if b_failures b1 \<ge> cb_failureThreshold cfg
               then transitionLocked StateOpen (b1 \<lparr> b_lastFailureTime := now \<rparr>)
               else (b1, [])
          else (b \<lparr> b_failures := 0 \<rparr>, [])
      | StateHalfOpen \<Rightarrow>
          let b1 = (if b_state b = StateHalfOpen then b \<lparr> b_halfOpenCount := b_halfOpenCount b - 1 \<rparr> else b)
          in if failed then
               let b2 = b1 \<lparr> b_lastFailureTime := now, b_successes := 0 \<rparr>
               in if b_state b2 = StateHalfOpen then transitionLocked StateOpen b2 else (b2, [])
             else if b_state b1 = StateHalfOpen then
               let b2 = b1 \<lparr> b_successes := b_successes b1 + 1 \<rparr>
               in if b_successes b2 \<ge> cb_successThreshold cfg \<and> b_halfOpenCount b2 = 0
                  then transitionLocked StateClosed b2 else (b2, [])
             else (b1, [])
      | StateOpen \<Rightarrow> (b, []))"

section \<open>The group and the middleware\<close>

type_synonym circuitBreakerGroup = "(string, breaker) gomap"

definition getOrCreate :: "string \<Rightarrow> circuitBreakerGroup \<Rightarrow> breaker \<times> circuitBreakerGroup" where
  "getOrCreate key g =
     (case mget g key of Some b \<Rightarrow> (b, g) | None \<Rightarrow> (new_breaker, mput key new_breaker g))"

text \<open>
  One call through the middleware with nothing else in between, at times \<open>t0\<close> and \<open>t1\<close>. The rest of
  the chain is \<open>next\<close>; \<open>quote\<close> is the formatting of \<open>%q\<close>. The outcome is recorded by a deferred
  function, which runs with a nil error when \<open>next\<close> panics.
\<close>

definition CircuitBreaker_call ::
  "circuitBreakerConfig \<Rightarrow> (goerr option \<Rightarrow> bool) option \<Rightarrow> (string \<Rightarrow> string) \<Rightarrow> string \<Rightarrow> int \<Rightarrow> int
   \<Rightarrow> ('s \<Rightarrow> 'a hres \<times> 's) \<Rightarrow> circuitBreakerGroup \<Rightarrow> 's \<Rightarrow> 'a hres \<times> circuitBreakerGroup \<times> 's" where
  "CircuitBreaker_call cfg isFailure quote key t0 t1 next g s =
     (case getOrCreate key g of (b, g1) \<Rightarrow>
       (case beforeCall cfg t0 b of
          ((admitted, Some e), b1, _) \<Rightarrow>
            (Err (if key \<noteq> [] then Wrapped (Error e @ '': key='' @ quote key) e else e), mput key b1 g1, s)
        | ((admitted, None), b1, _) \<Rightarrow>
            (case next s of (r, s') \<Rightarrow>
               let callErr = (case r of Err e \<Rightarrow> Some e | _ \<Rightarrow> None);
                   failed = (case isFailure of None \<Rightarrow> callErr \<noteq> None | Some f \<Rightarrow> f callErr)
               in (r, mput key (fst (afterCall cfg t1 admitted failed b1)) g1, s'))))"

lemmas breaker_defs = beforeCall_def afterCall_def transitionLocked_def maybeTransitionToHalfOpen_def

section \<open>Calls that do not overlap\<close>

definition mw_admit :: "circuitBreakerConfig \<Rightarrow> int \<Rightarrow> breaker \<Rightarrow> bool \<times> breaker" where
  "mw_admit cfg now b = (case beforeCall cfg now b of ((_, e), b1, _) \<Rightarrow> (e = None, b1))"

definition mw_record :: "circuitBreakerConfig \<Rightarrow> int \<Rightarrow> bool \<Rightarrow> breaker \<Rightarrow> breaker" where
  "mw_record cfg now failed b = fst (afterCall cfg now (b_state b) failed b)"

interpretation mwb: call_breaker "mw_admit (circuit_config opts)" "mw_record (circuit_config opts)"
  "\<lambda>b. b_state b = StateClosed" "\<lambda>b. b_state b = StateOpen" b_failures b_lastFailureTime
  "cb_failureThreshold (circuit_config opts)" "cb_timeout (circuit_config opts)" for opts
proof unfold_locales
  show "cb_failureThreshold (circuit_config opts) \<ge> 1"
    by (simp add: circuit_config_def Let_def)
qed (auto simp: mw_admit_def mw_record_def breaker_defs timed_out_def Let_def)

text \<open>C22: For calls that do not overlap, and whatever options the breaker was built with: calls are
  admitted as long as there are fewer consecutive failures than the threshold; the failure that
  reaches the threshold trips the breaker; and from then on every call that starts before the reset
  timeout has passed is rejected.\<close>

theorem circuit_trips_and_fails_fast:
  fixes opts cs
  defines "cfg \<equiv> circuit_config opts" and "fs \<equiv> map (\<lambda>c. snd (snd c)) cs"
  assumes "stays_below (cb_failureThreshold cfg) 0 fs" and "streak 0 fs + 1 = cb_failureThreshold cfg"
    and "\<forall>c \<in> set cs'. fst c < t + cb_timeout cfg"
  shows "fst (run_calls (mw_admit cfg) (mw_record cfg) (cs @ (t0, t, True) # cs') new_breaker)
       = replicate (Suc (length cs)) True @ replicate (length cs') False"
  using mwb.contract [of new_breaker opts cs cs' t t0] assms by (simp add: new_breaker_def)

theorem circuit_trips_and_fails_fast_witness:
  "fst (run_calls (mw_admit (circuit_config [WithFailureThreshold 2])) (mw_record (circuit_config [WithFailureThreshold 2]))
       ([(0, 1, True), (2, 3, False), (4, 5, True)] @ (6, 7, True) # [(8, 9, False)]) new_breaker)
     = [True, True, True, True, False]"
  using circuit_trips_and_fails_fast [of "[WithFailureThreshold 2]" "[(0, 1, True), (2, 3, False), (4, 5, True)]"
      "[(8, 9, False)]" 7 6]
  by (simp add: circuit_config_def WithFailureThreshold_def Let_def numeral_eq_Suc)

section \<open>Recovery\<close>

text \<open>A sequence of probes, one after the other, that start after the timeout.\<close>

primrec probe_all :: "circuitBreakerConfig \<Rightarrow> (int \<times> int \<times> bool) list \<Rightarrow> breaker \<Rightarrow> breaker" where
  "probe_all cfg [] b = b"
| "probe_all cfg (c # cs) b =
     (case beforeCall cfg (fst c) b of
        ((adm, None), b1, _) \<Rightarrow> probe_all cfg cs (fst (afterCall cfg (fst (snd c)) adm (snd (snd c)) b1))
      | ((adm, Some e), b1, _) \<Rightarrow> probe_all cfg cs b1)"

definition half_open :: "int \<Rightarrow> breaker \<Rightarrow> bool" where
  "half_open k b \<longleftrightarrow> b_state b = StateHalfOpen \<and> b_halfOpenCount b = 0 \<and> b_successes b = k"

lemma half_open_probe:
  assumes "half_open k b" "cb_maxHalfOpen cfg \<ge> 1"
  shows "probe_all cfg ((t0, t1, False) # cs) b = probe_all cfg cs
      (if k + 1 \<ge> cb_successThreshold cfg then fst (transitionLocked StateClosed (b \<lparr> b_successes := k + 1 \<rparr>))
       else b \<lparr> b_successes := k + 1 \<rparr>)"
  using assms by (cases b) (auto simp: half_open_def breaker_defs Let_def)

lemma successes_close:
  assumes "half_open k b" "cb_maxHalfOpen cfg \<ge> 1" "k + int (length cs) = cb_successThreshold cfg" "cs \<noteq> []"
    and "\<forall>c \<in> set cs. \<not> snd (snd c)"
  shows "b_state (probe_all cfg cs b) = StateClosed \<and> b_failures (probe_all cfg cs b) = 0"
  using assms
proof (induction cs arbitrary: k b)
  case (Cons c cs)
  obtain t0 t1 where c: "c = (t0, t1, False)" using Cons.prems(5) by (cases c) auto
  show ?case
  proof (cases "cs = []")
    case True
    then show ?thesis using Cons.prems half_open_probe [OF Cons.prems(1,2), of t0 t1 "[]"]
      by (simp add: c transitionLocked_def Let_def)
  next
    case False
    then have "k + 1 < cb_successThreshold cfg" using Cons.prems(3) by (cases cs) auto
    moreover have "half_open (k + 1) (b \<lparr> b_successes := k + 1 \<rparr>)" using Cons.prems(1) by (simp add: half_open_def)
    ultimately show ?thesis
      using Cons.IH [of "k + 1" "b \<lparr> b_successes := k + 1 \<rparr>"] Cons.prems False
        half_open_probe [OF Cons.prems(1,2), of t0 t1 cs] by (simp add: c)
  qed
qed simp

text \<open>A tripped breaker recovers: after the timeout, as many successful probes as the success
  threshold, one after the other, close it with no failure counted; and a probe that fails opens it
  again at the time of the failure.\<close>

theorem circuit_recovers:
  fixes opts
  defines "cfg \<equiv> circuit_config opts"
  assumes "cb_maxHalfOpen cfg \<ge> 1" and "b_state b = StateOpen" and "t0 > b_lastFailureTime b + cb_timeout cfg"
  shows "(\<forall>cs. 1 + int (length cs) = cb_successThreshold cfg \<and> (\<forall>c \<in> set cs. \<not> snd (snd c)) \<longrightarrow>
            b_state (probe_all cfg ((t0, t1, False) # cs) b) = StateClosed
            \<and> b_failures (probe_all cfg ((t0, t1, False) # cs) b) = 0)
    \<and> b_state (probe_all cfg [(t0, t1, True)] b) = StateOpen
    \<and> b_lastFailureTime (probe_all cfg [(t0, t1, True)] b) = t1"
proof -
  let ?h = "fst (transitionLocked StateHalfOpen b)"
  have h: "half_open 0 ?h" by (simp add: half_open_def transitionLocked_def Let_def)
  have first: "probe_all cfg ((t0, t1, f) # cs) b = probe_all cfg ((t0, t1, f) # cs) ?h" for f cs
    using assms(3,4) by (simp add: breaker_defs timed_out_def Let_def)
  have ok: "b_state (probe_all cfg ((t0, t1, False) # cs) b) = StateClosed
        \<and> b_failures (probe_all cfg ((t0, t1, False) # cs) b) = 0"
    if "1 + int (length cs) = cb_successThreshold cfg" "\<forall>c \<in> set cs. \<not> snd (snd c)" for cs
    unfolding first by (rule successes_close [OF h assms(2)]) (use that in auto)
  have bad: "b_state (probe_all cfg [(t0, t1, True)] ?h) = StateOpen"
    "b_lastFailureTime (probe_all cfg [(t0, t1, True)] ?h) = t1"
    using assms(2) by (simp_all add: breaker_defs Let_def)
  show ?thesis using ok bad unfolding first by blast
qed

definition tripped :: breaker where
  "tripped = \<lparr> b_state = StateOpen, b_failures = 5, b_successes = 0, b_lastFailureTime = 0, b_halfOpenCount = 0 \<rparr>"

theorem circuit_recovers_witness:
  "b_state (probe_all (circuit_config []) [(10 ^ 11, 10 ^ 11, False), (10 ^ 11, 10 ^ 11, False)] tripped) = StateClosed"
proof -
  let ?cs = "[(10 ^ 11, 10 ^ 11, False)] :: (int \<times> int \<times> bool) list"
  have m: "cb_maxHalfOpen (circuit_config []) \<ge> 1" and l: "1 + int (length ?cs) = cb_successThreshold (circuit_config [])"
    and t: "10 ^ 11 > b_lastFailureTime tripped + cb_timeout (circuit_config [])"
    by (simp_all add: circuit_config_def tripped_def Let_def)
  have o': "b_state tripped = StateOpen" by (simp add: tripped_def)
  have f: "\<forall>c \<in> set ?cs. \<not> snd (snd c)" by simp
  show ?thesis using conjunct1 [OF circuit_recovers [OF m o' t, of "10 ^ 11"]] l f by blast
qed

section \<open>Overlapping calls\<close>

text \<open>Calls by number: a call in flight remembers the state under which it was admitted.\<close>

datatype cb_event = Before nat int | After nat int bool

type_synonym cb_world = "breaker \<times> (nat \<Rightarrow> CircuitState option)"

fun cb_step :: "circuitBreakerConfig \<Rightarrow> cb_event \<Rightarrow> cb_world \<Rightarrow> cb_world" where
  "cb_step cfg (Before i now) (b, adm) =
     (case beforeCall cfg now b of
        ((st, None), b1, _) \<Rightarrow> (b1, adm(i := Some st))
      | ((st, Some e), b1, _) \<Rightarrow> (b1, adm))"
| "cb_step cfg (After i now failed) (b, adm) =
     (case adm i of None \<Rightarrow> (b, adm)
      | Some st \<Rightarrow> (fst (afterCall cfg now st failed b), adm(i := None)))"

definition cb_run :: "circuitBreakerConfig \<Rightarrow> cb_event list \<Rightarrow> cb_world" where
  "cb_run cfg evs = fold (cb_step cfg) evs (new_breaker, \<lambda>_. None)"

text \<open>In any interleaving the counters keep these bounds.\<close>

definition wf_breaker :: "circuitBreakerConfig \<Rightarrow> breaker \<Rightarrow> bool" where
  "wf_breaker cfg b \<longleftrightarrow> b_failures b \<ge> 0 \<and> b_successes b \<ge> 0
     \<and> (b_state b = StateClosed \<longrightarrow> b_failures b < cb_failureThreshold cfg)
     \<and> (b_state b \<noteq> StateHalfOpen \<longrightarrow> b_successes b = 0 \<and> b_halfOpenCount b = 0)
     \<and> b_halfOpenCount b \<le> max 0 (cb_maxHalfOpen cfg)"

lemma wf_beforeCall: "wf_breaker cfg b \<Longrightarrow> wf_breaker cfg (fst (snd (beforeCall cfg now b)))"
  by (auto simp: wf_breaker_def breaker_defs Let_def split: CircuitState.splits)

lemma wf_afterCall: "wf_breaker cfg b \<Longrightarrow> cb_failureThreshold cfg \<ge> 1 \<Longrightarrow> wf_breaker cfg (fst (afterCall cfg now st failed b))"
  by (auto simp: wf_breaker_def breaker_defs Let_def split: CircuitState.splits)

lemma wf_cb_step:
  assumes "wf_breaker cfg (fst w)" "cb_failureThreshold cfg \<ge> 1"
  shows "wf_breaker cfg (fst (cb_step cfg ev w))"
proof (cases ev)
  case (Before i now)
  then show ?thesis using wf_beforeCall [OF assms(1), of now]
    by (cases w) (auto split: prod.splits option.splits)
next
  case (After i now failed)
  then show ?thesis using wf_afterCall [OF assms] assms(1) by (cases w) (auto split: option.splits)
qed

text \<open>In every interleaving of calls: a closed breaker has fewer counted failures than the threshold,
  the counters of the half-open state are zero in the other two states, and the count of probes
  never exceeds the configured maximum.\<close>

theorem circuit_counters_bounded: "wf_breaker (circuit_config opts) (fst (cb_run (circuit_config opts) evs))"
proof -
  have t: "cb_failureThreshold (circuit_config opts) \<ge> 1" by (simp add: circuit_config_def Let_def)
  have "wf_breaker (circuit_config opts) (fst w) \<Longrightarrow> wf_breaker (circuit_config opts) (fst (fold (cb_step (circuit_config opts)) evs w))" for w
    by (induction evs arbitrary: w) (simp_all add: wf_cb_step t)
  then show ?thesis using t by (simp add: cb_run_def wf_breaker_def new_breaker_def)
qed

text \<open>The stale probe: a call admitted while the breaker was closed fails after a probe has been
  admitted and trips the breaker again; the probe then ends in the next half-open period.\<close>

definition stale_probe :: "cb_event list" where
  "stale_probe =
     [Before 0 0, Before 1 0, After 1 0 True, Before 2 0, After 2 0 True, Before 3 0, After 3 0 True,
      Before 4 0, After 4 0 True, Before 5 0, After 5 0 True,
      Before 6 (31 * 10 ^ 9), After 0 (31 * 10 ^ 9) True,
      Before 7 (62 * 10 ^ 9), After 6 (62 * 10 ^ 9) False]"

lemma stale_probe_state:
  "cb_run (circuit_config []) stale_probe =
     (\<lparr> b_state = StateHalfOpen, b_failures = 6, b_successes = 1, b_lastFailureTime = 31 * 10 ^ 9, b_halfOpenCount = 0 \<rparr>,
      (\<lambda>_. None)(7 := Some StateHalfOpen))"
  by (simp add: cb_run_def stale_probe_def circuit_config_def new_breaker_def breaker_defs timed_out_def Let_def
      fun_upd_twist fun_eq_iff)

lemma negative_count_stays:
  assumes "b_state b = StateHalfOpen" "b_halfOpenCount b < 0" "cb_maxHalfOpen cfg \<ge> 1" "\<forall>c \<in> set cs. \<not> snd (snd c)"
  shows "b_state (probe_all cfg cs b) = StateHalfOpen"
  using assms
proof (induction cs arbitrary: b)
  case (Cons c cs)
  let ?b = "b \<lparr> b_successes := b_successes b + 1 \<rparr>"
  have "probe_all cfg (c # cs) b = probe_all cfg cs ?b"
    using Cons.prems by (cases b) (auto simp: breaker_defs Let_def)
  moreover have "b_state (probe_all cfg cs ?b) = StateHalfOpen"
    by (rule Cons.IH) (use Cons.prems in auto)
  ultimately show ?case by simp
qed simp

text \<open>The probe limit is not kept and recovery can be blocked. With the default configuration there is
  an interleaving in which a probe of an earlier half-open period is counted in the current one:
  a second probe is then admitted beside the one in flight although one is the limit; and when
  the first of them ends, the count is negative and no number of successful calls, one after the
  other, closes the breaker again.\<close>

theorem stale_probe_blocks_recovery:
  assumes "\<forall>c \<in> set cs. \<not> snd (snd c)"
  shows "snd (cb_run (circuit_config []) (stale_probe @ [Before 8 (62 * 10 ^ 9)])) 7 = Some StateHalfOpen
    \<and> snd (cb_run (circuit_config []) (stale_probe @ [Before 8 (62 * 10 ^ 9)])) 8 = Some StateHalfOpen
    \<and> b_state (probe_all (circuit_config []) cs
         (fst (cb_run (circuit_config []) (stale_probe @ [After 7 (62 * 10 ^ 9) False])))) = StateHalfOpen"
proof -
  have run: "cb_run cfg (xs @ [ev]) = cb_step cfg ev (cb_run cfg xs)" for cfg xs ev by (simp add: cb_run_def)
  have "b_state (fst (cb_run (circuit_config []) (stale_probe @ [After 7 (62 * 10 ^ 9) False]))) = StateHalfOpen
      \<and> b_halfOpenCount (fst (cb_run (circuit_config []) (stale_probe @ [After 7 (62 * 10 ^ 9) False]))) < 0"
    unfolding run stale_probe_state by (simp add: circuit_config_def breaker_defs Let_def)
  then have "b_state (probe_all (circuit_config []) cs
      (fst (cb_run (circuit_config []) (stale_probe @ [After 7 (62 * 10 ^ 9) False])))) = StateHalfOpen"
    using assms by (intro negative_count_stays) (auto simp: circuit_config_def Let_def)
  moreover have "snd (cb_run (circuit_config []) (stale_probe @ [Before 8 (62 * 10 ^ 9)])) j = Some StateHalfOpen"
    if "j = 7 \<or> j = 8" for j
    unfolding run stale_probe_state
    using that by (auto simp: circuit_config_def breaker_defs timed_out_def Let_def)
  ultimately show ?thesis by blast
qed

theorem stale_probe_blocks_recovery_witness:
  "b_state (probe_all (circuit_config []) [(10 ^ 11, 10 ^ 11, False)]
     (fst (cb_run (circuit_config []) (stale_probe @ [After 7 (62 * 10 ^ 9) False])))) = StateHalfOpen"
proof -
  have "\<forall>c \<in> set [(10 ^ 11, 10 ^ 11, False) :: int \<times> int \<times> bool]. \<not> snd (snd c)" by simp
  from stale_probe_blocks_recovery [OF this] show ?thesis by blast
qed

text \<open>A panic counts as a success. When the handler panics, the deferred function sees a nil error, so
  that a closed breaker forgets the failures it has counted, and a panicking probe closes a
  half-open breaker like a successful one.\<close>

theorem panic_counts_as_success:
  assumes "mget g key = Some b" and "b_state b = StateClosed" and "next s = (Panic m, s')"
  shows "case CircuitBreaker_call cfg None quote key t0 t1 next g s of
     (r, g', s1) \<Rightarrow> r = Panic m \<and> mget g' key = Some (b \<lparr> b_failures := 0 \<rparr>)"
  using assms
  by (simp add: CircuitBreaker_call_def getOrCreate_def breaker_defs mget_mput Let_def)

theorem panic_counts_as_success_witness:
  "case CircuitBreaker_call (circuit_config []) None (\<lambda>k. k) ''t'' 0 1 (\<lambda>s. (Panic ''boom'', s))
        [(''t'', new_breaker \<lparr> b_failures := 4 \<rparr>)] () of
     (r, g', s1) \<Rightarrow> r = Panic ''boom'' \<and> mget g' ''t'' = Some new_breaker"
  using panic_counts_as_success [of "[(''t'', new_breaker \<lparr> b_failures := 4 \<rparr>)]" "''t''" "new_breaker \<lparr> b_failures := 4 \<rparr>"
      "\<lambda>s. (Panic ''boom'', s)" "()" "''boom''" "()" "circuit_config []" "\<lambda>k. k" 0 1]
  by (simp add: mget_def new_breaker_def)

end
