(* ===== verification/Client_Breaker.thy ===== *)
theory Client_Breaker
  imports Breaker_Spec
begin

text \<open>
  \<open>client/circuitbreaker.go\<close>: the circuit breaker around a client transport. \<open>beforeRequest\<close> and
  \<open>afterRequest\<close> hold the mutex and are atomic; the clock reading and the inner transport are
  arguments; callbacks run in goroutines of their own and are not modelled.
\<close>

section \<open>Model\<close>

datatype client_circuit = CircuitClosed | CircuitOpen | CircuitHalfOpen

definition errCircuitOpen :: goerr where "errCircuitOpen = Sentinel ''circuit breaker: circuit is open''"
definition errClientNotInitialized :: goerr where "errClientNotInitialized = Sentinel ''client: not initialized; call Initialize first''"
definition errClientAlreadyInit :: goerr where "errClientAlreadyInit = Sentinel ''client: already initialized''"

record CircuitBreakerConfig =
  cc_MaxFailures :: int
  cc_OpenTimeout :: int
  cc_HalfOpenMaxRequests :: int
  cc_ShouldTrip :: "(goerr option \<Rightarrow> bool) option"

record circuitBreakerTransport =
  ct_state :: client_circuit
  ct_consecutiveFailures :: int
  ct_lastFailureTime :: int
  ct_halfOpenRequests :: int

definition defaultShouldTrip :: "goerr option \<Rightarrow> bool" where
  "defaultShouldTrip err =
     (case err of None \<Rightarrow> False
      | Some e \<Rightarrow> \<not> (errors_is e contextCanceled \<or> errors_is e contextDeadlineExceeded)
                  \<and> \<not> (errors_is e errClientNotInitialized \<or> errors_is e errClientAlreadyInit))"

definition WithCircuitBreaker :: "CircuitBreakerConfig \<Rightarrow> CircuitBreakerConfig \<times> circuitBreakerTransport" where
  "WithCircuitBreaker cfg =
     (cfg \<lparr> cc_MaxFailures := (if cc_MaxFailures cfg \<le> 0 then 5 else cc_MaxFailures cfg),
            cc_OpenTimeout := (if cc_OpenTimeout cfg \<le> 0 then 30 * 10 ^ 9 else cc_OpenTimeout cfg),
            cc_HalfOpenMaxRequests := (if cc_HalfOpenMaxRequests cfg \<le> 0 then 1 else cc_HalfOpenMaxRequests cfg),
            cc_ShouldTrip := Some (case cc_ShouldTrip cfg of None \<Rightarrow> defaultShouldTrip | Some f \<Rightarrow> f) \<rparr>,
      \<lparr> ct_state = CircuitClosed, ct_consecutiveFailures = 0, ct_lastFailureTime = 0, ct_halfOpenRequests = 0 \<rparr>)"

definition should_trip :: "CircuitBreakerConfig \<Rightarrow> goerr option \<Rightarrow> bool" where
  "should_trip cfg err = (case cc_ShouldTrip cfg of Some f \<Rightarrow> f err | None \<Rightarrow> defaultShouldTrip err)"

definition beforeRequest ::
  "CircuitBreakerConfig \<Rightarrow> int \<Rightarrow> circuitBreakerTransport \<Rightarrow> goerr option \<times> circuitBreakerTransport" where
  "beforeRequest cfg now b =
     (case ct_state b of
        CircuitClosed \<Rightarrow> (None, b)
      | CircuitOpen \<Rightarrow>
          if now - ct_lastFailureTime b \<ge> cc_OpenTimeout cfg
          then (None, b \<lparr> ct_state := CircuitHalfOpen, ct_halfOpenRequests := 1 \<rparr>)
          else (Some errCircuitOpen, b)
      | CircuitHalfOpen \<Rightarrow>
          if ct_halfOpenRequests b < cc_HalfOpenMaxRequests cfg
          then (None, b \<lparr> ct_halfOpenRequests := ct_halfOpenRequests b + 1 \<rparr>)
          else (Some errCircuitOpen, b))"

definition afterRequest ::
  "CircuitBreakerConfig \<Rightarrow> int \<Rightarrow> goerr option \<Rightarrow> circuitBreakerTransport \<Rightarrow> circuitBreakerTransport" where
  "afterRequest cfg now err b =
     (if \<not> should_trip cfg err then
        (case ct_state b of
           CircuitHalfOpen \<Rightarrow>
             if err = None
             then b \<lparr> ct_state := CircuitClosed, ct_consecutiveFailures := 0, ct_halfOpenRequests := 0 \<rparr> else b
         | CircuitClosed \<Rightarrow> if err = None then b \<lparr> ct_consecutiveFailures := 0 \<rparr> else b
         | CircuitOpen \<Rightarrow> b)
      else
        let b1 = b \<lparr> ct_lastFailureTime := now \<rparr>
        in case ct_state b1 of
             CircuitClosed \<Rightarrow>
               let b2 = b1 \<lparr> ct_consecutiveFailures := ct_consecutiveFailures b1 + 1 \<rparr>
               in if ct_consecutiveFailures b2 \<ge> cc_MaxFailures cfg then b2 \<lparr> ct_state := CircuitOpen \<rparr> else b2
           | CircuitHalfOpen \<Rightarrow> b1 \<lparr> ct_halfOpenRequests := 0, ct_state := CircuitOpen \<rparr>
           | CircuitOpen \<Rightarrow> b1)"

text \<open>\<open>Send\<close> and \<open>Receive\<close> with nothing else in between; \<open>inner\<close> is the inner transport's operation.\<close>

definition breaker_Send ::
  "CircuitBreakerConfig \<Rightarrow> int \<Rightarrow> int \<Rightarrow> ('s \<Rightarrow> goerr option \<times> 's) \<Rightarrow> circuitBreakerTransport \<Rightarrow> 's
   \<Rightarrow> goerr option \<times> circuitBreakerTransport \<times> 's" where
  "breaker_Send cfg t0 t1 inner b s =
     (case beforeRequest cfg t0 b of
        (Some e, b1) \<Rightarrow> (Some e, b1, s)
      | (None, b1) \<Rightarrow> (case inner s of (err, s') \<Rightarrow> (err, afterRequest cfg t1 err b1, s')))"

definition breaker_Receive ::
  "CircuitBreakerConfig \<Rightarrow> int \<Rightarrow> int \<Rightarrow> ('s \<Rightarrow> (goerr + 'd) \<times> 's) \<Rightarrow> circuitBreakerTransport \<Rightarrow> 's
   \<Rightarrow> (goerr + 'd) \<times> circuitBreakerTransport \<times> 's" where
  "breaker_Receive cfg t0 t1 inner b s =
     (case beforeRequest cfg t0 b of
        (Some e, b1) \<Rightarrow> (Inl e, b1, s)
      | (None, b1) \<Rightarrow> (case inner s of (r, s') \<Rightarrow>
          (r, afterRequest cfg t1 (case r of Inl e \<Rightarrow> Some e | Inr _ \<Rightarrow> None) b1, s')))"

definition breaker_Metrics :: "circuitBreakerTransport \<Rightarrow> client_circuit \<times> int \<times> int \<times> int" where
  "breaker_Metrics b = (ct_state b, ct_consecutiveFailures b, ct_lastFailureTime b, ct_halfOpenRequests b)"

section \<open>Requests that do not overlap\<close>

definition client_admit :: "CircuitBreakerConfig \<Rightarrow> int \<Rightarrow> circuitBreakerTransport \<Rightarrow> bool \<times> circuitBreakerTransport" where
  "client_admit cfg now b = (case beforeRequest cfg now b of (e, b1) \<Rightarrow> (e = None, b1))"

text \<open>A failed request failed with a fresh error, which the default predicate counts.\<close>

definition client_record ::
  "CircuitBreakerConfig \<Rightarrow> string \<Rightarrow> int \<Rightarrow> bool \<Rightarrow> circuitBreakerTransport \<Rightarrow> circuitBreakerTransport" where
  "client_record cfg msg now failed b = afterRequest cfg now (if failed then Some (ErrNew msg) else None) b"

definition default_breaker :: "int \<Rightarrow> int \<Rightarrow> int \<Rightarrow> CircuitBreakerConfig" where
  "default_breaker m t h = fst (WithCircuitBreaker
     \<lparr> cc_MaxFailures = m, cc_OpenTimeout = t, cc_HalfOpenMaxRequests = h, cc_ShouldTrip = None \<rparr>)"

lemma default_trips: "should_trip (default_breaker m t h) (Some (ErrNew msg))" "\<not> should_trip (default_breaker m t h) None"
  by (simp_all add: should_trip_def default_breaker_def WithCircuitBreaker_def defaultShouldTrip_def
      contextCanceled_def contextDeadlineExceeded_def errClientNotInitialized_def errClientAlreadyInit_def)

interpretation clb: call_breaker "client_admit (default_breaker m t h)" "client_record (default_breaker m t h) msg"
  "\<lambda>b. ct_state b = CircuitClosed" "\<lambda>b. ct_state b = CircuitOpen" ct_consecutiveFailures ct_lastFailureTime
  "cc_MaxFailures (default_breaker m t h)" "cc_OpenTimeout (default_breaker m t h)" for m t h msg
proof unfold_locales
  show "cc_MaxFailures (default_breaker m t h) \<ge> 1"
    by (simp add: default_breaker_def WithCircuitBreaker_def)
qed (auto simp: client_admit_def client_record_def beforeRequest_def afterRequest_def default_trips Let_def)

text \<open>For requests that do not overlap, and whatever numbers the breaker is configured with: requests
  go through as long as there are fewer consecutive failures than \<open>MaxFailures\<close>; the failure that
  reaches it opens the circuit; and every request that starts before \<open>OpenTimeout\<close> has passed is
  rejected.\<close>

theorem client_circuit_trips_and_fails_fast:
  fixes m t h cs
  defines "cfg \<equiv> default_breaker m t h" and "fs \<equiv> map (\<lambda>c. snd (snd c)) cs"
  assumes "stays_below (cc_MaxFailures cfg) 0 fs" and "streak 0 fs + 1 = cc_MaxFailures cfg"
    and "\<forall>c \<in> set cs'. fst c < t1 + cc_OpenTimeout cfg"
  shows "fst (run_calls (client_admit cfg) (client_record cfg msg) (cs @ (t0, t1, True) # cs')
            (snd (WithCircuitBreaker c0)))
       = replicate (Suc (length cs)) True @ replicate (length cs') False"
  using clb.contract [of "snd (WithCircuitBreaker c0)" m t h cs cs' t1 msg t0] assms
  by (simp add: WithCircuitBreaker_def)

theorem client_circuit_trips_and_fails_fast_witness:
  "fst (run_calls (client_admit (default_breaker 1 5 1)) (client_record (default_breaker 1 5 1) ''x'')
       ([] @ (0, 1, True) # [(2, 3, False)]) (snd (WithCircuitBreaker (default_breaker 1 5 1))))
     = [True, False]"
  using client_circuit_trips_and_fails_fast [of 1 5 1 "[]" "[(2, 3, False)]" 1 "''x''" 0 "default_breaker 1 5 1"]
  by (simp add: default_breaker_def WithCircuitBreaker_def)

section \<open>The half-open state\<close>

text \<open>The half-open state admits at most \<open>HalfOpenMaxRequests\<close> requests, a success closes the
  circuit, a tripping error opens it; but an error that does not trip gives its slot back to nobody.
  Once the last slot has been used by such an error, every further request is rejected at all
  times without changing anything, so that with a limit of one the circuit stays half-open for good.\<close>

theorem half_open_slots_leak:
  fixes cfg
  assumes "ct_state b = CircuitHalfOpen" and "\<not> should_trip cfg (Some e)"
    and "ct_halfOpenRequests b + 1 = cc_HalfOpenMaxRequests cfg"
  shows "let b1 = snd (beforeRequest cfg t0 b); b2 = afterRequest cfg t1 (Some e) b1
     in fst (beforeRequest cfg t0 b) = None \<and> b2 = b1
        \<and> (\<forall>ts. fold (\<lambda>t b. snd (beforeRequest cfg t b)) ts b2 = b2)
        \<and> (\<forall>t. fst (beforeRequest cfg t b2) = Some errCircuitOpen)"
proof -
  let ?b = "b \<lparr> ct_halfOpenRequests := ct_halfOpenRequests b + 1 \<rparr>"
  have full: "beforeRequest cfg t ?b = (Some errCircuitOpen, ?b)" for t
    using assms by (simp add: beforeRequest_def)
  have "fold (\<lambda>t b. snd (beforeRequest cfg t b)) ts ?b = ?b" for ts
    by (induction ts) (simp_all add: full)
  then show ?thesis using assms full by (simp add: beforeRequest_def afterRequest_def Let_def)
qed

theorem half_open_slots_leak_witness:
  "fst (beforeRequest (default_breaker 5 5 1) (10 ^ 18)
     (afterRequest (default_breaker 5 5 1) 1 (Some contextCanceled)
       (snd (beforeRequest (default_breaker 5 5 1) 0
         \<lparr> ct_state = CircuitHalfOpen, ct_consecutiveFailures = 5, ct_lastFailureTime = 0, ct_halfOpenRequests = 0 \<rparr>))))
   = Some errCircuitOpen"
proof -
  let ?cfg = "default_breaker 5 5 1"
  let ?b = "\<lparr> ct_state = CircuitHalfOpen, ct_consecutiveFailures = 5, ct_lastFailureTime = 0, ct_halfOpenRequests = 0 \<rparr>"
  have n: "\<not> should_trip ?cfg (Some contextCanceled)"
    by (simp add: should_trip_def default_breaker_def WithCircuitBreaker_def defaultShouldTrip_def contextCanceled_def)
  have h: "ct_state ?b = CircuitHalfOpen" "ct_halfOpenRequests ?b + 1 = cc_HalfOpenMaxRequests ?cfg"
    by (simp_all add: default_breaker_def WithCircuitBreaker_def)
  show ?thesis using half_open_slots_leak [OF h(1) n h(2), of 0 1] unfolding Let_def by blast
qed

end
