(* ===== verification/Rate_Limit.thy ===== *)
theory Rate_Limit
  imports Complex_Main Mcp_Prelude
begin

text \<open>
  \<open>middleware/ratelimit.go\<close>: the token bucket per key. Times are nanoseconds; tokens, which the code
  keeps in floating point, are rational numbers here, so that rounding is not part of the model.
\<close>

section \<open>Model\<close>

definition ErrRateLimited :: goerr where "ErrRateLimited = Sentinel ''rate limited''"

record bucket =
  bk_tokens :: rat
  bk_lastTime :: int

record rateLimiter =
  rl_rate :: rat
  rl_burst :: int
  rl_buckets :: "(string, bucket) gomap"

text \<open>The rate rounded up, as an \<open>int\<close>. Go leaves the conversion of a \<open>float64\<close> beyond 64 bits to the
  implementation, which is the argument \<open>wrap\<close>.\<close>

definition ceil_int :: "(rat \<Rightarrow> int) \<Rightarrow> rat \<Rightarrow> int" where
  "ceil_int wrap rate = (if \<lceil>rate\<rceil> \<le> max_int then \<lceil>rate\<rceil> else wrap rate)"

text \<open>The constructor: the rate must be positive, the burst defaults to the rate rounded up, a positive
  option overrides it, and it is at least one.\<close>

definition RateLimit :: "(rat \<Rightarrow> int) \<Rightarrow> rat \<Rightarrow> int option \<Rightarrow> rateLimiter hres" where
  "RateLimit wrap rate burst =
     (if rate \<le> 0 then Panic ''middleware.RateLimit: rate must be a finite positive number''
      else let b = (case burst of Some n \<Rightarrow> if n > 0 then n else ceil_int wrap rate | None \<Rightarrow> ceil_int wrap rate)
           in Ret \<lparr> rl_rate = rate, rl_burst = (if b < 1 then 1 else b), rl_buckets = [] \<rparr>)"

definition rl_allow :: "string \<Rightarrow> int \<Rightarrow> rateLimiter \<Rightarrow> bool \<times> rateLimiter" where
  "rl_allow key now rl =
     (let b = (case mget (rl_buckets rl) key of Some b \<Rightarrow> b
               | None \<Rightarrow> \<lparr> bk_tokens = of_int (rl_burst rl), bk_lastTime = now \<rparr>);
          elapsed = of_int (now - bk_lastTime b) / 10 ^ 9;
          tokens = bk_tokens b + elapsed * rl_rate rl;
          capped = (if tokens > of_int (rl_burst rl) then of_int (rl_burst rl) else tokens);
          left = (if capped < 1 then capped else capped - 1)
      in (\<not> capped < 1, rl \<lparr> rl_buckets := mput key \<lparr> bk_tokens = left, bk_lastTime = now \<rparr> (rl_buckets rl) \<rparr>))"

definition RateLimit_call ::
  "string \<Rightarrow> int \<Rightarrow> ('s \<Rightarrow> 'a hres \<times> 's) \<Rightarrow> rateLimiter \<Rightarrow> 's \<Rightarrow> 'a hres \<times> rateLimiter \<times> 's" where
  "RateLimit_call key now next rl s =
     (case rl_allow key now rl of
        (False, rl1) \<Rightarrow> (Err (Wrapped (Error ErrRateLimited @ '': too many requests'') ErrRateLimited), rl1, s)
      | (True, rl1) \<Rightarrow> (case next s of (r, s') \<Rightarrow> (r, rl1, s')))"

section \<open>The bound\<close>

text \<open>The number of admitted requests of one key in a sequence of requests.\<close>

primrec admitted :: "string \<Rightarrow> (string \<times> int) list \<Rightarrow> rateLimiter \<Rightarrow> nat" where
  "admitted k [] rl = 0"
| "admitted k (q # qs) rl =
     (case rl_allow (fst q) (snd q) rl of (ok, rl1) \<Rightarrow> (if ok \<and> fst q = k then 1 else 0) + admitted k qs rl1)"

definition wf_limiter :: "rateLimiter \<Rightarrow> bool" where
  "wf_limiter rl \<longleftrightarrow> rl_rate rl > 0 \<and> rl_burst rl \<ge> 1
     \<and> (\<forall>k b. mget (rl_buckets rl) k = Some b \<longrightarrow> bk_tokens b \<le> of_int (rl_burst rl))"

lemma allow_config [simp]:
  "rl_rate (snd (rl_allow k t rl)) = rl_rate rl" "rl_burst (snd (rl_allow k t rl)) = rl_burst rl"
  by (simp_all add: rl_allow_def Let_def)

lemma wf_allow: "wf_limiter rl \<Longrightarrow> wf_limiter (snd (rl_allow k t rl))"
  by (auto simp: wf_limiter_def rl_allow_def Let_def mget_mput)

text \<open>The tokens that accrue between two times, and the credit of a key at a time: the tokens that its
  bucket holds after refilling.\<close>

definition accrued :: "rat \<Rightarrow> int \<Rightarrow> int \<Rightarrow> rat" where
  "accrued rate t t' = of_int (t' - t) / 10 ^ 9 * rate"

lemma accrued_add: "accrued r a b + accrued r b c = accrued r a c"
  by (simp add: accrued_def field_simps)

lemma accrued_nonneg: "r > 0 \<Longrightarrow> a \<le> b \<Longrightarrow> 0 \<le> accrued r a b"
  by (simp add: accrued_def)

definition credit :: "string \<Rightarrow> int \<Rightarrow> rateLimiter \<Rightarrow> rat" where
  "credit k t rl = (case mget (rl_buckets rl) k of
       Some b \<Rightarrow> min (of_int (rl_burst rl)) (bk_tokens b + accrued (rl_rate rl) (bk_lastTime b) t)
     | None \<Rightarrow> of_int (rl_burst rl))"

lemma credit_le: "credit k t rl \<le> of_int (rl_burst rl)"
  by (simp add: credit_def split: option.splits)

lemma allow_credit:
  "rl_allow k t rl = (credit k t rl \<ge> 1, rl \<lparr> rl_buckets := mput k
     \<lparr> bk_tokens = credit k t rl - (if credit k t rl \<ge> 1 then 1 else 0), bk_lastTime = t \<rparr> (rl_buckets rl) \<rparr>)"
  by (cases "mget (rl_buckets rl) k") (auto simp: rl_allow_def credit_def accrued_def Let_def min_def not_less)

lemma credit_own:
  assumes "rl_burst rl \<ge> 1"
  shows "credit k t (snd (rl_allow k t rl)) = credit k t rl - (if fst (rl_allow k t rl) then 1 else 0)"
  using credit_le [of k t rl] unfolding allow_credit
  by (simp add: credit_def [of k t "rl_buckets_update f rl" for f] mget_mput accrued_def)

lemma credit_other: "j \<noteq> k \<Longrightarrow> credit k t' (snd (rl_allow j t rl)) = credit k t' rl"
  unfolding allow_credit by (simp add: credit_def [of k t'] mget_mput split: option.splits)

lemma credit_later:
  assumes "rl_rate rl > 0" "t \<le> t'"
  shows "credit k t' rl \<le> credit k t rl + accrued (rl_rate rl) t t'"
proof (cases "mget (rl_buckets rl) k")
  case None
  then show ?thesis using accrued_nonneg [OF assms] by (simp add: credit_def)
next
  case (Some b)
  then show ?thesis
    using accrued_add [of "rl_rate rl" "bk_lastTime b" t t'] accrued_nonneg [OF assms] by (auto simp: credit_def min_def)
qed

lemma granted:
  assumes "rl_rate rl > 0" "rl_burst rl \<ge> 1" "sorted (t # map snd qs)" "\<forall>q \<in> set qs. snd q \<le> t'" "t \<le> t'"
  shows "of_nat (admitted k qs rl) \<le> max 0 (credit k t rl) + accrued (rl_rate rl) t t'"
  using assms
proof (induction qs arbitrary: rl t)
  case Nil
  then show ?case using accrued_nonneg [of "rl_rate rl" t t'] by simp
next
  case (Cons q qs)
  obtain j u where q: "q = (j, u)" by fastforce
  let ?rl = "snd (rl_allow j u rl)"
  have u: "t \<le> u" "u \<le> t'" using Cons.prems q by auto
  have ih: "of_nat (admitted k qs ?rl) \<le> max 0 (credit k u ?rl) + accrued (rl_rate rl) u t'"
    using Cons.IH [of ?rl u] Cons.prems q by auto
  have later: "credit k u rl \<le> credit k t rl + accrued (rl_rate rl) t u"
    by (rule credit_later [OF Cons.prems(1) u(1)])
  have add: "accrued (rl_rate rl) t u + accrued (rl_rate rl) u t' = accrued (rl_rate rl) t t'" by (rule accrued_add)
  have nn: "0 \<le> accrued (rl_rate rl) t u" by (rule accrued_nonneg [OF Cons.prems(1) u(1)])
  have a: "admitted k (q # qs) rl = (if fst (rl_allow j u rl) \<and> j = k then 1 else 0) + admitted k qs ?rl"
    by (simp add: q split: prod.splits)
  show ?case
  proof (cases "j = k")
    case True
    have ok: "fst (rl_allow j u rl) \<longleftrightarrow> credit k u rl \<ge> 1" by (simp add: allow_credit True)
    show ?thesis
      using ih later add nn credit_own [OF Cons.prems(2), of j u] ok unfolding a True
      by (cases "fst (rl_allow k u rl)") (auto simp: max_def split: if_splits)
  next
    case False
    then show ?thesis using ih later add nn credit_other [OF False, of u u rl] unfolding a
      by (auto simp: max_def split: if_splits)
  qed
qed

lemma wf_RateLimit: "RateLimit wrap rate burst = Ret rl \<Longrightarrow> wf_limiter rl"
  by (auto simp: RateLimit_def wf_limiter_def Let_def split: if_splits)

lemma wf_trace: "wf_limiter rl \<Longrightarrow> wf_limiter (fold (\<lambda>q rl. snd (rl_allow (fst q) (snd q) rl)) qs rl)"
  by (induction qs arbitrary: rl) (simp_all add: wf_allow)

lemma trace_config: "rl_rate (fold (\<lambda>q rl. snd (rl_allow (fst q) (snd q) rl)) qs rl) = rl_rate rl
  \<and> rl_burst (fold (\<lambda>q rl. snd (rl_allow (fst q) (snd q) rl)) qs rl) = rl_burst rl"
  by (induction qs arbitrary: rl) simp_all

text \<open>C23: The rate is kept. After any history of requests, for every key and every interval of time, the
  requests of that key that are admitted within the interval number at most the burst plus the rate
  times the length of the interval in seconds, whatever requests of other keys are mixed in.\<close>

theorem rate_is_kept:
  assumes "RateLimit wrap rate burst = Ret rl0" and "rl = fold (\<lambda>q rl. snd (rl_allow (fst q) (snd q) rl)) history rl0"
    and "sorted (t # map snd qs)" and "\<forall>q \<in> set qs. snd q \<le> t'" and "t \<le> t'"
  shows "of_nat (admitted k qs rl) \<le> of_int (rl_burst rl0) + rate * (of_int (t' - t) / 10 ^ 9)"
proof -
  have wf: "wf_limiter rl" using wf_trace [OF wf_RateLimit [OF assms(1)]] assms(2) by simp
  have cfg: "rl_rate rl = rate" "rl_burst rl = rl_burst rl0"
    using trace_config [of history rl0] assms(1,2) by (auto simp: RateLimit_def Let_def split: if_splits)
  have "of_nat (admitted k qs rl) \<le> max 0 (credit k t rl) + accrued (rl_rate rl) t t'"
    by (rule granted) (use wf assms in \<open>auto simp: wf_limiter_def\<close>)
  also have "\<dots> \<le> of_int (rl_burst rl) + accrued (rl_rate rl) t t'"
    by (rule add_right_mono) (use wf credit_le [of k t rl] in \<open>simp add: wf_limiter_def\<close>)
  finally show ?thesis by (simp add: cfg accrued_def mult.commute)
qed

theorem rate_is_kept_witness:
  "of_nat (admitted ''k'' [(''k'', 0), (''k'', 10), (''j'', 20)] \<lparr> rl_rate = 1, rl_burst = 1, rl_buckets = [] \<rparr>)
     \<le> 1 + (1 :: rat) * (of_int (20 - 0) / 10 ^ 9)"
  using rate_is_kept [of "\<lambda>_. 0" 1 None "\<lparr> rl_rate = 1, rl_burst = 1, rl_buckets = [] \<rparr>" _ "[]" 0 "[(''k'', 0), (''k'', 10), (''j'', 20)]" 20 "''k''"]
  by (simp add: RateLimit_def ceil_int_def max_int_def)

text \<open>A key is never starved by others: if its bucket is idle long enough for one token to accrue,
  its next request is admitted, whatever happened to other keys in between.\<close>

theorem rate_admits_when_idle:
  assumes "wf_limiter rl" and "mget (rl_buckets rl) k = Some b" and "bk_tokens b \<ge> 0"
    and "\<forall>q \<in> set others. fst q \<noteq> k" and "of_int (t - bk_lastTime b) / 10 ^ 9 * rl_rate rl \<ge> 1"
  shows "fst (rl_allow k t (fold (\<lambda>q rl. snd (rl_allow (fst q) (snd q) rl)) others rl))"
proof -
  have "credit k t (fold (\<lambda>q rl. snd (rl_allow (fst q) (snd q) rl)) others rl) = credit k t rl"
    using assms(4) by (induction others arbitrary: rl) (simp_all add: credit_other)
  moreover have "credit k t rl \<ge> 1"
    using assms(1,2,3,5) by (simp add: credit_def accrued_def wf_limiter_def)
  ultimately show ?thesis by (simp add: allow_credit)
qed

theorem rate_admits_when_idle_witness:
  "fst (rl_allow ''k'' (2 * 10 ^ 9) (fold (\<lambda>q rl. snd (rl_allow (fst q) (snd q) rl)) [(''j'', 5)]
     \<lparr> rl_rate = 1, rl_burst = 1, rl_buckets = [(''k'', \<lparr> bk_tokens = 0, bk_lastTime = 0 \<rparr>)] \<rparr>))"
  using rate_admits_when_idle [of "\<lparr> rl_rate = 1, rl_burst = 1, rl_buckets = [(''k'', \<lparr> bk_tokens = 0, bk_lastTime = 0 \<rparr>)] \<rparr>"
      "''k''" "\<lparr> bk_tokens = 0, bk_lastTime = 0 \<rparr>" "[(''j'', 5)]" "2 * 10 ^ 9"]
  by (simp add: wf_limiter_def mget_def)

end
