(* ===== verification/Cache_Spec.thy ===== *)
theory Cache_Spec
  imports Mcp_Prelude
begin

text \<open>
  The interface \<open>CacheBackend\<close> of \<open>middleware/cache.go\<close> as a locale. A backend is read and written at
  a time of its clock; what it holds is a value with an optional expiry. The first group of laws is
  what the cache middleware relies on: nothing is returned that is not held and unexpired, and
  nothing becomes held but by \<open>Set\<close>. A backend may forget entries at any time.
\<close>

locale cache_backend =
  fixes get :: "int \<Rightarrow> string \<Rightarrow> 's \<Rightarrow> (goerr + bytes) \<times> 's"
    and set_op :: "int \<Rightarrow> string \<Rightarrow> bytes \<Rightarrow> int \<Rightarrow> 's \<Rightarrow> 's"
    and inv :: "'s \<Rightarrow> bool"
    and held :: "'s \<Rightarrow> string \<Rightarrow> (bytes \<times> int option) option"
  assumes get_inv: "inv s \<Longrightarrow> inv (snd (get t k s))"
    and get_held: "inv s \<Longrightarrow> held (snd (get t k s)) j = Some e \<Longrightarrow> held s j = Some e"
    and get_hit: "inv s \<Longrightarrow> fst (get t k s) = Inr v \<Longrightarrow>
      \<exists>exp. held s k = Some (v, exp) \<and> (case exp of None \<Rightarrow> True | Some x \<Rightarrow> t \<le> x)"
    and set_inv: "inv s \<Longrightarrow> inv (set_op t k v ttl s)"
    and set_held: "inv s \<Longrightarrow> held (set_op t k v ttl s) j = Some e \<Longrightarrow>
      (j = k \<and> e = (v, if ttl > 0 then Some (t + ttl) else None)) \<or> held s j = Some e"
begin

text \<open>The entries of a backend are justified by a log of what was stored and when.\<close>

definition justified :: "int \<Rightarrow> (string \<times> int \<times> bytes) list \<Rightarrow> 's \<Rightarrow> bool" where
  "justified ttl log s \<longleftrightarrow> inv s \<and> (\<forall>k v exp. held s k = Some (v, exp) \<longrightarrow>
     (\<exists>t. (k, t, v) \<in> set log \<and> exp = (if ttl > 0 then Some (t + ttl) else None)))"

lemma justified_inv: "justified ttl log s \<Longrightarrow> inv s"
  by (simp add: justified_def)

lemma justified_get: "justified ttl log s \<Longrightarrow> justified ttl log (snd (get t k s))"
  unfolding justified_def using get_inv get_held by blast

lemma justified_set: "justified ttl log s \<Longrightarrow> justified ttl ((k, t, v) # log) (set_op t k v ttl s)"
  by (fastforce simp: justified_def set_inv dest: set_held)

lemma justified_hit:
  assumes "justified ttl log s" and "fst (get t k s) = Inr v"
  shows "\<exists>t1. (k, t1, v) \<in> set log \<and> (ttl > 0 \<longrightarrow> t \<le> t1 + ttl)"
proof -
  from assms obtain exp where "held s k = Some (v, exp)" "case exp of None \<Rightarrow> True | Some x \<Rightarrow> t \<le> x"
    using get_hit justified_inv by blast
  with assms(1) show ?thesis by (fastforce simp: justified_def)
qed

end

end
