(* ===== verification/Lru_Cache.thy ===== *)
theory Lru_Cache
  imports Cache_Spec
begin

text \<open>
  The in-memory cache of \<open>middleware/cache.go\<close>: a map from keys to the elements of a doubly linked list
  whose front is the most recently used. An element of the list is known by a number, as the code
  knows it by its address. Times are nanoseconds of the clock of the cache.
\<close>

section \<open>Model\<close>

definition ErrCacheMiss :: goerr where "ErrCacheMiss = Sentinel ''cache miss''"

record lruEntry =
  le_key :: string
  le_value :: bytes
  le_expiresAt :: "int option"

record lruCache =
  lc_capacity :: int
  lc_items :: "(string, nat) gomap"
  lc_order :: "(nat \<times> lruEntry) list"
  lc_next :: nat

definition NewLRUCache :: "int \<Rightarrow> lruCache hres" where
  "NewLRUCache capacity =
     (if capacity < 1 then Panic ''middleware.NewLRUCache: capacity must be >= 1''
      else Ret \<lparr> lc_capacity = capacity, lc_items = [], lc_order = [], lc_next = 0 \<rparr>)"

text \<open>Operations of \<open>container/list\<close>: removing an element and moving it to the front.\<close>

definition list_Remove :: "nat \<Rightarrow> (nat \<times> 'e) list \<Rightarrow> (nat \<times> 'e) list" where
  "list_Remove el xs = filter (\<lambda>p. fst p \<noteq> el) xs"

definition MoveToFront :: "nat \<Rightarrow> (nat \<times> 'e) list \<Rightarrow> (nat \<times> 'e) list" where
  "MoveToFront el xs = filter (\<lambda>p. fst p = el) xs @ list_Remove el xs"

definition removeLocked :: "nat \<Rightarrow> lruCache \<Rightarrow> lruCache" where
  "removeLocked el c =
     (case map_of (lc_order c) el of
        None \<Rightarrow> c
      | Some entry \<Rightarrow> c \<lparr> lc_items := mdel (le_key entry) (lc_items c), lc_order := list_Remove el (lc_order c) \<rparr>)"

definition evictLocked :: "lruCache \<Rightarrow> lruCache" where
  "evictLocked c = (case lc_order c of [] \<Rightarrow> c | _ \<Rightarrow> removeLocked (fst (last (lc_order c))) c)"

definition lru_Get :: "int \<Rightarrow> string \<Rightarrow> lruCache \<Rightarrow> (goerr + bytes) \<times> lruCache" where
  "lru_Get now key c =
     (case mget (lc_items c) key of
        None \<Rightarrow> (Inl ErrCacheMiss, c)
      | Some el \<Rightarrow>
          (case map_of (lc_order c) el of
             None \<Rightarrow> (Inl ErrCacheMiss, c)
           | Some entry \<Rightarrow>
               if (case le_expiresAt entry of None \<Rightarrow> False | Some x \<Rightarrow> now > x)
               then (Inl ErrCacheMiss, removeLocked el c)
               else (Inr (le_value entry), c \<lparr> lc_order := MoveToFront el (lc_order c) \<rparr>)))"

definition lru_Set :: "int \<Rightarrow> string \<Rightarrow> bytes \<Rightarrow> int \<Rightarrow> lruCache \<Rightarrow> lruCache" where
  "lru_Set now key val ttl c =
     (let expiresAt = (if ttl > 0 then Some (now + ttl) else None)
      in case mget (lc_items c) key of
           Some el \<Rightarrow>
             c \<lparr> lc_order := MoveToFront el (map (\<lambda>(i, e). if i = el
                  then (i, e \<lparr> le_value := val, le_expiresAt := expiresAt \<rparr>) else (i, e)) (lc_order c)) \<rparr>
         | None \<Rightarrow>
             let c1 = (if int (length (lc_order c)) \<ge> lc_capacity c then evictLocked c else c);
                 el = lc_next c1
             in c1 \<lparr> lc_order := (el, \<lparr> le_key = key, le_value = val, le_expiresAt = expiresAt \<rparr>) # lc_order c1,
                     lc_items := mput key el (lc_items c1), lc_next := Suc el \<rparr>)"

definition lru_Delete :: "string \<Rightarrow> lruCache \<Rightarrow> lruCache" where
  "lru_Delete key c = (case mget (lc_items c) key of None \<Rightarrow> c | Some el \<Rightarrow> removeLocked el c)"

definition HasPrefix :: "string \<Rightarrow> string \<Rightarrow> bool" where
  "HasPrefix s p \<longleftrightarrow> take (length p) s = p"

definition lru_DeleteByPrefix :: "string \<Rightarrow> lruCache \<Rightarrow> nat \<times> lruCache" where
  "lru_DeleteByPrefix prefix c =
     (let toDelete = map snd (filter (\<lambda>p. HasPrefix (fst p) prefix) (lc_items c))
      in (length toDelete, fold removeLocked toDelete c))"

definition lru_Len :: "lruCache \<Rightarrow> nat" where
  "lru_Len c = length (lc_order c)"

section \<open>Specification\<close>

text \<open>
  Abstractly the cache is a list of keys with their values and expiries, the most recently used
  first, in which every key occurs once and whose length the capacity bounds.
\<close>

type_synonym recency = "(string \<times> bytes \<times> int option) list"

definition spec_Get :: "int \<Rightarrow> string \<Rightarrow> recency \<Rightarrow> (goerr + bytes) \<times> recency" where
  "spec_Get now k r =
     (case map_of r k of
        None \<Rightarrow> (Inl ErrCacheMiss, r)
      | Some (v, exp) \<Rightarrow>
          if exp = None \<or> now \<le> the exp
          then (Inr v, (k, v, exp) # filter (\<lambda>p. fst p \<noteq> k) r)
          else (Inl ErrCacheMiss, filter (\<lambda>p. fst p \<noteq> k) r))"

definition spec_Set :: "nat \<Rightarrow> int \<Rightarrow> string \<Rightarrow> bytes \<Rightarrow> int \<Rightarrow> recency \<Rightarrow> recency" where
  "spec_Set cap now k v ttl r =
     (k, v, if ttl > 0 then Some (now + ttl) else None) # take (cap - 1) (filter (\<lambda>p. fst p \<noteq> k) r)"

definition spec_DeleteByPrefix :: "string \<Rightarrow> recency \<Rightarrow> nat \<times> recency" where
  "spec_DeleteByPrefix p r =
     (length (filter (\<lambda>e. HasPrefix (fst e) p) r), filter (\<lambda>e. \<not> HasPrefix (fst e) p) r)"

definition recency_of :: "lruCache \<Rightarrow> recency" where
  "recency_of c = map (\<lambda>(_, e). (le_key e, le_value e, le_expiresAt e)) (lc_order c)"

definition wf_lru :: "lruCache \<Rightarrow> bool" where
  "wf_lru c \<longleftrightarrow> 1 \<le> lc_capacity c \<and> int (length (lc_order c)) \<le> lc_capacity c
     \<and> wf_map (lc_items c) \<and> distinct (map fst (lc_order c)) \<and> distinct (map (le_key \<circ> snd) (lc_order c))
     \<and> (\<forall>k el. (k, el) \<in> set (lc_items c) \<longleftrightarrow> (\<exists>e. (el, e) \<in> set (lc_order c) \<and> le_key e = k))
     \<and> (\<forall>el \<in> fst ` set (lc_order c). el < lc_next c)"


section \<open>Refinement\<close>

lemma wf_items:
  "wf_lru c \<Longrightarrow> mget (lc_items c) k = Some el \<longleftrightarrow> (\<exists>e. (el, e) \<in> set (lc_order c) \<and> le_key e = k)"
  by (simp add: wf_lru_def mget_Some_iff)

text \<open>An element of the list that the map leads to, with the rest of the list.\<close>

definition located :: "lruCache \<Rightarrow> nat \<Rightarrow> lruEntry \<Rightarrow> (nat \<times> lruEntry) list \<Rightarrow> (nat \<times> lruEntry) list \<Rightarrow> bool" where
  "located c el e xs ys \<longleftrightarrow> lc_order c = xs @ (el, e) # ys
     \<and> (\<forall>p \<in> set (xs @ ys). fst p \<noteq> el \<and> le_key (snd p) \<noteq> le_key e)"

lemma located_split: "wf_lru c \<Longrightarrow> lc_order c = xs @ (el, e) # ys \<Longrightarrow> located c el e xs ys"
  unfolding located_def wf_lru_def by (fastforce simp: image_iff)

lemma wf_element:
  assumes "wf_lru c" and "mget (lc_items c) k = Some el"
  obtains e xs ys where "located c el e xs ys" "le_key e = k"
proof -
  from assms obtain e where e: "(el, e) \<in> set (lc_order c)" "le_key e = k" using wf_items by blast
  then obtain xs ys where "lc_order c = xs @ (el, e) # ys" by (meson split_list)
  with that e(2) located_split [OF assms(1)] show thesis by blast
qed

lemma wf_absent:
  assumes "wf_lru c" and "mget (lc_items c) k = None" and "p \<in> set (lc_order c)"
  shows "le_key (snd p) \<noteq> k"
  using wf_items [OF assms(1), of k "fst p"] assms(2,3) by (cases p) auto

definition triple :: "nat \<times> lruEntry \<Rightarrow> string \<times> bytes \<times> int option" where
  "triple p = (le_key (snd p), le_value (snd p), le_expiresAt (snd p))"

lemma fst_triple [simp]: "fst (triple p) = le_key (snd p)"
  by (simp add: triple_def)

lemma recency_of_triple: "recency_of c = map triple (lc_order c)"
  by (auto simp: recency_of_def triple_def)

lemma filter_all: "(\<forall>p \<in> set xs. P p) \<Longrightarrow> filter P xs = xs"
  by (simp add: filter_id_conv)

lemma map_of_middle: "(\<forall>p \<in> set xs. fst p \<noteq> a) \<Longrightarrow> map_of (xs @ (a, b) # ys) a = Some b"
  by (induction xs) auto

lemma located_order: "located c el e xs ys \<Longrightarrow> map_of (lc_order c) el = Some e"
  by (simp add: located_def map_of_middle del: map_of_append)

lemma located_recency:
  assumes "located c el e xs ys"
  shows "map_of (recency_of c) (le_key e) = Some (le_value e, le_expiresAt e)"
proof -
  have "recency_of c = map triple xs @ (le_key e, le_value e, le_expiresAt e) # map triple ys"
    using assms by (simp add: located_def recency_of_triple triple_def [of "(el, e)"])
  moreover have "\<forall>p \<in> set (map triple xs). fst p \<noteq> le_key e" using assms by (auto simp: located_def)
  ultimately show ?thesis by (metis map_of_middle)
qed

lemma located_rest:
  assumes "located c el e xs ys"
  shows "filter (\<lambda>p. fst p \<noteq> le_key e) (recency_of c) = map triple (xs @ ys)"
  using assms by (auto simp: located_def recency_of_triple intro!: filter_all)

lemma located_Remove: "located c el e xs ys \<Longrightarrow> list_Remove el (lc_order c) = xs @ ys"
  by (auto simp: located_def list_Remove_def intro!: filter_all)

lemma located_front: "located c el e xs ys \<Longrightarrow> MoveToFront el (lc_order c) = (el, e) # xs @ ys"
  using located_Remove [of c el e xs ys] by (auto simp: located_def MoveToFront_def filter_empty_conv)

lemma located_removed:
  assumes "located c el e xs ys"
  shows "removeLocked el c = c \<lparr> lc_items := mdel (le_key e) (lc_items c), lc_order := xs @ ys \<rparr>"
  using located_order [OF assms] located_Remove [OF assms] by (simp add: removeLocked_def)

lemma wf_removed:
  assumes "wf_lru c" and "located c el e xs ys"
  shows "wf_lru (removeLocked el c)"
proof -
  have order: "lc_order c = xs @ (el, e) # ys" using assms(2) by (simp add: located_def)
  have apart: "\<forall>p \<in> set (xs @ ys). fst p \<noteq> el \<and> le_key (snd p) \<noteq> le_key e" using assms(2) by (simp add: located_def)
  have items: "(k, i) \<in> set (lc_items c) \<longleftrightarrow> (\<exists>e'. (i, e') \<in> set (lc_order c) \<and> le_key e' = k)" for k i
    using assms(1) by (simp add: wf_lru_def)
  have "(k, i) \<in> set (mdel (le_key e) (lc_items c)) \<longleftrightarrow> (\<exists>e'. (i, e') \<in> set (xs @ ys) \<and> le_key e' = k)" for k i
    using apart by (fastforce simp: set_mdel items order)
  with assms(1) order show ?thesis unfolding located_removed [OF assms(2)]
    by (auto simp: wf_lru_def wf_map_mdel)
qed

lemma wf_front:
  assumes "wf_lru c" and "located c el e xs ys" and "le_key e' = le_key e"
  shows "wf_lru (c \<lparr> lc_order := (el, e') # xs @ ys \<rparr>)"
proof -
  have "lc_order c = xs @ (el, e) # ys" using assms(2) by (simp add: located_def)
  with assms(1,3) show ?thesis by (fastforce simp: wf_lru_def)
qed

definition refines :: "'a \<times> lruCache \<Rightarrow> 'a \<times> recency \<Rightarrow> lruCache \<Rightarrow> bool" where
  "refines x y c \<longleftrightarrow> fst x = fst y \<and> recency_of (snd x) = snd y \<and> wf_lru (snd x) \<and> lc_capacity (snd x) = lc_capacity c"

lemma Get_refines:
  assumes "wf_lru c"
  shows "refines (lru_Get t k c) (spec_Get t k (recency_of c)) c"
proof (cases "mget (lc_items c) k")
  case None
  have "map_of (recency_of c) k = None"
    using wf_absent [OF assms None] by (fastforce simp: recency_of_triple map_of_eq_None_iff)
  with None assms show ?thesis by (simp add: lru_Get_def spec_Get_def refines_def)
next
  case (Some el)
  obtain e xs ys where s: "located c el e xs ys" "le_key e = k" using wf_element [OF assms Some] .
  note loc = located_order [OF s(1)] located_recency [OF s(1), unfolded s(2)] located_rest [OF s(1), unfolded s(2)]
    located_front [OF s(1)] wf_front [OF assms s(1) refl] wf_removed [OF assms s(1)] located_removed [OF s(1)]
  show ?thesis
  proof (cases "le_expiresAt e = None \<or> t \<le> the (le_expiresAt e)")
    case True
    then show ?thesis
      using Some loc s(2)
      by (auto simp: lru_Get_def spec_Get_def refines_def recency_of_triple triple_def [of "(el, e)"] split: option.splits)
  next
    case False
    then show ?thesis
      using Some loc s(2)
      by (auto simp: lru_Get_def spec_Get_def refines_def recency_of_triple split: option.splits)
  qed
qed

lemma wf_evict:
  assumes "wf_lru c" and "lc_order c \<noteq> []"
  shows "wf_lru (evictLocked c) \<and> lc_order (evictLocked c) = butlast (lc_order c)
    \<and> lc_items (evictLocked c) = mdel (le_key (snd (last (lc_order c)))) (lc_items c)
    \<and> lc_capacity (evictLocked c) = lc_capacity c"
proof -
  obtain el e where l: "last (lc_order c) = (el, e)" by fastforce
  have "lc_order c = butlast (lc_order c) @ (el, e) # []" using assms(2) l by (metis append_butlast_last_id)
  then have loc: "located c el e (butlast (lc_order c)) []" using located_split [OF assms(1)] by simp
  have "evictLocked c = removeLocked el c" using assms(2) l by (cases "lc_order c") (simp_all add: evictLocked_def)
  with wf_removed [OF assms(1) loc] located_removed [OF loc] l show ?thesis by simp
qed

lemma wf_push:
  assumes "wf_lru c" and "int (length (lc_order c)) < lc_capacity c" and "mget (lc_items c) (le_key e) = None"
  shows "wf_lru (c \<lparr> lc_order := (lc_next c, e) # lc_order c, lc_items := mput (le_key e) (lc_next c) (lc_items c),
    lc_next := Suc (lc_next c) \<rparr>)"
proof -
  have fresh: "\<forall>p \<in> set (lc_order c). le_key (snd p) \<noteq> le_key e" using wf_absent [OF assms(1,3)] by blast
  have lt: "\<forall>p \<in> set (lc_order c). fst p < lc_next c" using assms(1) by (auto simp: wf_lru_def)
  have items: "\<forall>k i. (k, i) \<in> set (lc_items c) \<longleftrightarrow> (\<exists>e'. (i, e') \<in> set (lc_order c) \<and> le_key e' = k)"
    using assms(1) by (simp add: wf_lru_def)
  show ?thesis
    using assms fresh lt items by (auto simp: wf_lru_def mput_fresh wf_map_mput [unfolded wf_map_def] wf_map_def mget_None_iff image_iff less_Suc_eq)
qed

lemma take_all_but: "length xs < n \<Longrightarrow> take (n - 1) xs = xs"
  by simp

lemma map_other: "(\<forall>p \<in> set xs. fst p \<noteq> el) \<Longrightarrow> map (\<lambda>(i, e). if i = el then f i e else (i, e)) xs = xs"
  by (induction xs) auto

lemma Set_refines:
  assumes "wf_lru c"
  shows "refines ((), lru_Set t k v ttl c) ((), spec_Set (nat (lc_capacity c)) t k v ttl (recency_of c)) c"
proof (cases "mget (lc_items c) k")
  case None
  let ?e = "\<lparr> le_key = k, le_value = v, le_expiresAt = if ttl > 0 then Some (t + ttl) else None \<rparr>"
  let ?c = "if int (length (lc_order c)) \<ge> lc_capacity c then evictLocked c else c"
  have cap: "1 \<le> lc_capacity c" "int (length (lc_order c)) \<le> lc_capacity c" using assms by (simp_all add: wf_lru_def)
  have ne: "lc_order c \<noteq> []" if "int (length (lc_order c)) \<ge> lc_capacity c" using that cap by auto
  have room: "wf_lru ?c" "int (length (lc_order ?c)) < lc_capacity ?c" "lc_capacity ?c = lc_capacity c" "mget (lc_items ?c) k = None"
    using assms wf_evict [OF assms ne] cap None by (auto simp: mget_mdel)
  have rest: "filter (\<lambda>p. fst p \<noteq> k) (recency_of c) = recency_of c"
    using wf_absent [OF assms None] by (intro filter_all) (auto simp: recency_of_triple)
  have "lc_order ?c = take (nat (lc_capacity c) - 1) (lc_order c)"
    using wf_evict [OF assms ne] cap by (auto simp: butlast_conv_take)
  then have "recency_of ?c = take (nat (lc_capacity c) - 1) (recency_of c)" by (simp add: recency_of_triple take_map)
  moreover have "lru_Set t k v ttl c = ?c \<lparr> lc_order := (lc_next ?c, ?e) # lc_order ?c, lc_items := mput (le_key ?e) (lc_next ?c) (lc_items ?c),
    lc_next := Suc (lc_next ?c) \<rparr>"
    using None by (simp add: lru_Set_def Let_def)
  ultimately show ?thesis
    using wf_push [OF room(1,2), of ?e] room(3,4) rest
    by (simp add: refines_def spec_Set_def recency_of_triple triple_def [of "(a, ?e)" for a])
next
  case (Some el)
  obtain e xs ys where s: "located c el e xs ys" "le_key e = k" using wf_element [OF assms Some] .
  let ?e = "e \<lparr> le_value := v, le_expiresAt := if ttl > 0 then Some (t + ttl) else None \<rparr>"
  let ?upd = "map (\<lambda>(i, e). if i = el then (i, e \<lparr> le_value := v, le_expiresAt := if ttl > 0 then Some (t + ttl) else None \<rparr>) else (i, e)) (lc_order c)"
  have order: "lc_order c = xs @ (el, e) # ys" "\<forall>p \<in> set (xs @ ys). fst p \<noteq> el" using s(1) by (auto simp: located_def)
  have "?upd = xs @ (el, ?e) # ys" using order by (simp add: map_other)
  then have "MoveToFront el ?upd = (el, ?e) # xs @ ys"
    using order(2) by (auto simp: MoveToFront_def list_Remove_def filter_empty_conv intro!: filter_all)
  then have "lru_Set t k v ttl c = c \<lparr> lc_order := (el, ?e) # xs @ ys \<rparr>" using Some by (simp add: lru_Set_def Let_def)
  moreover have "take (nat (lc_capacity c) - 1) (map triple (xs @ ys)) = map triple (xs @ ys)"
    using assms order(1) by (intro take_all_but) (simp add: wf_lru_def zless_nat_eq_int_zless)
  ultimately show ?thesis
    using wf_front [OF assms s(1), of ?e] located_rest [OF s(1)] s(2)
    by (simp add: refines_def spec_Set_def recency_of_triple triple_def [of "(el, ?e)"])
qed

lemma Delete_refines:
  assumes "wf_lru c"
  shows "refines ((), lru_Delete k c) ((), filter (\<lambda>p. fst p \<noteq> k) (recency_of c)) c"
proof (cases "mget (lc_items c) k")
  case None
  then have "filter (\<lambda>p. fst p \<noteq> k) (recency_of c) = recency_of c"
    using wf_absent [OF assms] by (intro filter_all) (auto simp: recency_of_triple)
  with None assms show ?thesis by (simp add: lru_Delete_def refines_def)
next
  case (Some el)
  obtain e xs ys where s: "located c el e xs ys" "le_key e = k" using wf_element [OF assms Some] .
  with Some show ?thesis
    using wf_removed [OF assms s(1)] located_removed [OF s(1)] located_rest [OF s(1)]
    by (simp add: lru_Delete_def refines_def recency_of_triple)
qed

lemma removeLocked_Delete: "mget (lc_items c) k = Some el \<Longrightarrow> removeLocked el c = lru_Delete k c"
  by (simp add: lru_Delete_def)

lemma Delete_items:
  assumes "wf_lru c" and "j \<noteq> k"
  shows "mget (lc_items (lru_Delete k c)) j = mget (lc_items c) j"
proof (cases "mget (lc_items c) k")
  case (Some el)
  obtain e xs ys where s: "located c el e xs ys" "le_key e = k" using wf_element [OF assms(1) Some] .
  with Some assms(2) show ?thesis by (simp add: lru_Delete_def located_removed [OF s(1)] mget_mdel)
qed (simp add: lru_Delete_def)

lemma Deletes_refine:
  assumes "wf_lru c" and "\<forall>(k, el) \<in> set ps. mget (lc_items c) k = Some el" and "distinct (map fst ps)"
  shows "refines ((), fold removeLocked (map snd ps) c) ((), filter (\<lambda>p. fst p \<notin> fst ` set ps) (recency_of c)) c"
  using assms
proof (induction ps arbitrary: c)
  case Nil
  then show ?case by (simp add: refines_def)
next
  case (Cons q ps)
  obtain k el where q: "q = (k, el)" by fastforce
  have first: "removeLocked el c = lru_Delete k c" using Cons.prems(2) q by (simp add: removeLocked_Delete)
  have del: "wf_lru (lru_Delete k c)" "recency_of (lru_Delete k c) = filter (\<lambda>p. fst p \<noteq> k) (recency_of c)"
    "lc_capacity (lru_Delete k c) = lc_capacity c"
    using Delete_refines [OF Cons.prems(1), of k] by (simp_all add: refines_def)
  have "\<forall>(j, i) \<in> set ps. mget (lc_items (lru_Delete k c)) j = Some i"
  proof clarify
    fix j i assume ji: "(j, i) \<in> set ps"
    with Cons.prems(3) q have "j \<noteq> k" by (auto simp: image_iff)
    with ji Cons.prems(2) show "mget (lc_items (lru_Delete k c)) j = Some i"
      by (auto simp: Delete_items [OF Cons.prems(1)])
  qed
  with Cons.IH [OF del(1)] Cons.prems(3) q have
    "refines ((), fold removeLocked (map snd ps) (lru_Delete k c)) ((), filter (\<lambda>p. fst p \<notin> fst ` set ps) (recency_of (lru_Delete k c))) (lru_Delete k c)"
    by simp
  then show ?case by (simp add: refines_def first del q conj_commute)
qed

lemma length_filter_keys:
  "distinct (map fst m) \<Longrightarrow> length (filter (\<lambda>p. P (fst p)) m) = card {k \<in> fst ` set m. P k}"
proof -
  assume "distinct (map fst m)"
  then have "distinct (map fst (filter (\<lambda>p. P (fst p)) m))" by (rule distinct_map_filter)
  then have "card (set (map fst (filter (\<lambda>p. P (fst p)) m))) = length (filter (\<lambda>p. P (fst p)) m)"
    by (simp only: distinct_card length_map)
  moreover have "set (map fst (filter (\<lambda>p. P (fst p)) m)) = {k \<in> fst ` set m. P k}" by auto
  ultimately show ?thesis by simp
qed

lemma wf_recency: "wf_lru c \<Longrightarrow> distinct (map fst (recency_of c)) \<and> fst ` set (recency_of c) = fst ` set (lc_items c)"
proof
  assume wf: "wf_lru c"
  then show "distinct (map fst (recency_of c))" by (simp add: wf_lru_def recency_of_triple comp_def)
  show "fst ` set (recency_of c) = fst ` set (lc_items c)"
  proof -
    have "k \<in> fst ` set (recency_of c) \<longleftrightarrow> (\<exists>i e. (i, e) \<in> set (lc_order c) \<and> le_key e = k)" for k
      by (auto simp: recency_of_triple image_image image_iff Bex_def)
    moreover have "k \<in> fst ` set (lc_items c) \<longleftrightarrow> (\<exists>i. (k, i) \<in> set (lc_items c))" for k by (auto simp: image_iff Bex_def)
    moreover have "(k, i) \<in> set (lc_items c) \<longleftrightarrow> (\<exists>e. (i, e) \<in> set (lc_order c) \<and> le_key e = k)" for k i
      using wf by (simp add: wf_lru_def)
    ultimately show ?thesis by (intro set_eqI) (simp only:)
  qed
qed

lemma DeleteByPrefix_refines:
  assumes "wf_lru c"
  shows "refines (lru_DeleteByPrefix p c) (spec_DeleteByPrefix p (recency_of c)) c"
proof -
  let ?ps = "filter (\<lambda>q. HasPrefix (fst q) p) (lc_items c)"
  have "\<forall>(k, el) \<in> set ?ps. mget (lc_items c) k = Some el" using assms by (auto simp: wf_lru_def mget_Some_iff)
  moreover have "distinct (map fst ?ps)" using assms by (simp add: wf_lru_def wf_map_def distinct_map_filter)
  ultimately have "refines ((), fold removeLocked (map snd ?ps) c) ((), filter (\<lambda>q. fst q \<notin> fst ` set ?ps) (recency_of c)) c"
    by (rule Deletes_refine [OF assms])
  moreover have "filter (\<lambda>q. fst q \<notin> fst ` set ?ps) (recency_of c) = filter (\<lambda>e. \<not> HasPrefix (fst e) p) (recency_of c)"
  proof (rule filter_cong [OF refl])
    fix q assume "q \<in> set (recency_of c)"
    then have "fst q \<in> fst ` set (lc_items c)" using wf_recency [OF assms] by auto
    then show "fst q \<notin> fst ` set ?ps \<longleftrightarrow> \<not> HasPrefix (fst q) p" by force
  qed
  moreover have "length ?ps = length (filter (\<lambda>e. HasPrefix (fst e) p) (recency_of c))"
    using wf_recency [OF assms] assms length_filter_keys [of "lc_items c" "\<lambda>k. HasPrefix k p"]
      length_filter_keys [of "recency_of c" "\<lambda>k. HasPrefix k p"]
    by (simp add: wf_lru_def wf_map_def case_prod_beta)
  ultimately show ?thesis by (simp add: refines_def lru_DeleteByPrefix_def spec_DeleteByPrefix_def Let_def)
qed

section \<open>Runs\<close>

datatype lru_op = OGet int string | OSet int string bytes int | ODelete string | ODeleteByPrefix string

datatype lru_out = RGet "goerr + bytes" | RDone | RCount nat

fun lru_exec :: "lru_op \<Rightarrow> lruCache \<Rightarrow> lru_out \<times> lruCache" where
  "lru_exec (OGet t k) c = (case lru_Get t k c of (r, c') \<Rightarrow> (RGet r, c'))"
| "lru_exec (OSet t k v ttl) c = (RDone, lru_Set t k v ttl c)"
| "lru_exec (ODelete k) c = (RDone, lru_Delete k c)"
| "lru_exec (ODeleteByPrefix p) c = (case lru_DeleteByPrefix p c of (n, c') \<Rightarrow> (RCount n, c'))"

fun spec_exec :: "nat \<Rightarrow> lru_op \<Rightarrow> recency \<Rightarrow> lru_out \<times> recency" where
  "spec_exec cap (OGet t k) r = (case spec_Get t k r of (x, r') \<Rightarrow> (RGet x, r'))"
| "spec_exec cap (OSet t k v ttl) r = (RDone, spec_Set cap t k v ttl r)"
| "spec_exec cap (ODelete k) r = (RDone, filter (\<lambda>p. fst p \<noteq> k) r)"
| "spec_exec cap (ODeleteByPrefix p) r = (case spec_DeleteByPrefix p r of (n, r') \<Rightarrow> (RCount n, r'))"

primrec run_ops :: "('op \<Rightarrow> 's \<Rightarrow> 'out \<times> 's) \<Rightarrow> 'op list \<Rightarrow> 's \<Rightarrow> 'out list \<times> 's" where
  "run_ops exec [] s = ([], s)"
| "run_ops exec (op # ops) s = (case exec op s of (out, s1) \<Rightarrow>
     (case run_ops exec ops s1 of (outs, s2) \<Rightarrow> (out # outs, s2)))"

lemma exec_refines: "wf_lru c \<Longrightarrow> refines (lru_exec op c) (spec_exec (nat (lc_capacity c)) op (recency_of c)) c"
  using Get_refines [of c] Set_refines [of c] Delete_refines [of c] DeleteByPrefix_refines [of c]
  by (cases op) (simp_all add: refines_def split_beta)

lemma run_refines:
  "wf_lru c \<Longrightarrow> refines (run_ops lru_exec ops c) (run_ops (spec_exec (nat (lc_capacity c))) ops (recency_of c)) c"
proof (induction ops arbitrary: c)
  case Nil
  then show ?case by (simp add: refines_def)
next
  case (Cons op ops)
  have step: "refines (lru_exec op c) (spec_exec (nat (lc_capacity c)) op (recency_of c)) c"
    by (rule exec_refines [OF Cons.prems])
  then have "wf_lru (snd (lru_exec op c))" by (simp add: refines_def)
  from Cons.IH [OF this] step show ?case by (simp add: refines_def split_beta)
qed

lemma wf_new: "NewLRUCache cap = Ret c \<Longrightarrow> wf_lru c \<and> recency_of c = [] \<and> lc_capacity c = cap"
  by (auto simp: NewLRUCache_def wf_lru_def recency_of_def split: if_splits)

text \<open>C25: The map and the linked list implement the list of recency. For every sequence of operations on a
  new cache, what the operations return is what they return on the abstract list, in which \<open>Set\<close>
  puts its entry first and drops the last one beyond the capacity, \<open>Get\<close> moves an entry to the
  front or drops it when it has expired, and deletions filter; the cache never holds more entries
  than its capacity.\<close>

theorem lru_refines_recency:
  assumes "NewLRUCache cap = Ret c"
  shows "fst (run_ops lru_exec ops c) = fst (run_ops (spec_exec (nat cap)) ops [])
    \<and> recency_of (snd (run_ops lru_exec ops c)) = snd (run_ops (spec_exec (nat cap)) ops [])
    \<and> int (lru_Len (snd (run_ops lru_exec ops c))) \<le> cap"
  using run_refines [of c ops] wf_new [OF assms] by (auto simp: refines_def wf_lru_def lru_Len_def)

theorem lru_refines_recency_witness:
  "int (lru_Len (snd (run_ops lru_exec [OSet 0 ''a'' ''1'' 0, OSet 1 ''b'' ''2'' 5, OGet 2 ''a'']
     \<lparr> lc_capacity = 1, lc_items = [], lc_order = [], lc_next = 0 \<rparr>))) \<le> 1"
  using lru_refines_recency [of 1 "\<lparr> lc_capacity = 1, lc_items = [], lc_order = [], lc_next = 0 \<rparr>"
      "[OSet 0 ''a'' ''1'' 0, OSet 1 ''b'' ''2'' 5, OGet 2 ''a'']"]
  by (simp add: NewLRUCache_def)

section \<open>What is kept\<close>

text \<open>The key that an operation may move to the front, and the operations that leave an entry alone.\<close>

fun used_key :: "lru_op \<Rightarrow> string set" where
  "used_key (OGet _ k) = {k}"
| "used_key (OSet _ k _ _) = {k}"
| "used_key _ = {}"

fun spares :: "string \<Rightarrow> int \<Rightarrow> lru_op \<Rightarrow> bool" where
  "spares k t (OGet s _) \<longleftrightarrow> s \<le> t"
| "spares k t (OSet _ j _ _) \<longleftrightarrow> j \<noteq> k"
| "spares k t (ODelete j) \<longleftrightarrow> j \<noteq> k"
| "spares k t (ODeleteByPrefix p) \<longleftrightarrow> \<not> HasPrefix k p"

definition within :: "string \<Rightarrow> bytes \<times> int option \<Rightarrow> string set \<Rightarrow> recency \<Rightarrow> bool" where
  "within k e U r \<longleftrightarrow> distinct (map fst r) \<and> (\<exists>xs ys. r = xs @ (k, e) # ys \<and> fst ` set xs \<subseteq> U)"

lemma within_cons:
  assumes "within k e U r" and "j \<in> U" and "j \<noteq> k"
  shows "within k e U ((j, x) # filter (\<lambda>p. fst p \<noteq> j) r)"
proof -
  from assms(1) obtain xs ys where r: "r = xs @ (k, e) # ys" "fst ` set xs \<subseteq> U" by (auto simp: within_def)
  have "(j, x) # filter (\<lambda>p. fst p \<noteq> j) r = ((j, x) # filter (\<lambda>p. fst p \<noteq> j) xs) @ (k, e) # filter (\<lambda>p. fst p \<noteq> j) ys"
    using r(1) assms(3) by simp
  moreover have "fst ` set ((j, x) # filter (\<lambda>p. fst p \<noteq> j) xs) \<subseteq> U" using r(2) assms(2) by auto
  moreover have "distinct (map fst ((j, x) # filter (\<lambda>p. fst p \<noteq> j) r))"
    using assms(1) by (auto simp: within_def distinct_map_filter)
  ultimately show ?thesis unfolding within_def by blast
qed

lemma within_filter: "within k e U r \<Longrightarrow> P (k, e) \<Longrightarrow> within k e U (filter P r)"
proof -
  assume "within k e U r" and P: "P (k, e)"
  then obtain xs ys where r: "r = xs @ (k, e) # ys" "fst ` set xs \<subseteq> U" "distinct (map fst r)" by (auto simp: within_def)
  have "filter P r = filter P xs @ (k, e) # filter P ys" using r(1) P by simp
  moreover have "fst ` set (filter P xs) \<subseteq> U" using r(2) by auto
  ultimately show ?thesis unfolding within_def using distinct_map_filter [OF r(3)] by blast
qed

lemma within_take:
  assumes "within k e U r" and "finite U" and "card U < n"
  shows "within k e U (take n r)"
proof -
  from assms(1) obtain xs ys where r: "r = xs @ (k, e) # ys" "fst ` set xs \<subseteq> U" "distinct (map fst r)" by (auto simp: within_def)
  have "distinct (map fst xs)" using r(1,3) by simp
  then have "length xs = card (fst ` set xs)" using distinct_card [of "map fst xs"] by simp
  also have "\<dots> \<le> card U" using r(2) assms(2) by (rule card_mono [rotated])
  finally have "length xs < n" using assms(3) by simp
  then have "take n r = xs @ (k, e) # take (n - length xs - 1) ys" using r(1) by (cases "n - length xs") auto
  with r show ?thesis unfolding within_def by (metis distinct_take take_map)
qed

lemma map_of_filter_key: "map_of (filter (\<lambda>p. fst p \<noteq> k) r) j = (if j = k then None else map_of r j)"
  by (induction r) auto

lemma map_of_take: "map_of (take n r) j = Some e \<Longrightarrow> map_of r j = Some e"
  by (metis append_take_drop_id map_add_Some_iff map_of_append)

lemma within_map_of: "within k e U r \<Longrightarrow> map_of r k = Some e"
proof -
  assume "within k e U r"
  then obtain xs ys where r: "r = xs @ (k, e) # ys" "distinct (map fst r)" by (auto simp: within_def)
  from r have "\<forall>p \<in> set xs. fst p \<noteq> k" by (auto simp: image_iff)
  then show ?thesis unfolding r(1) by (rule map_of_middle)
qed

lemma within_front:
  assumes "within k e U r"
  shows "within k e U ((k, e) # filter (\<lambda>p. fst p \<noteq> k) r)"
proof -
  have "distinct (map fst ((k, e) # filter (\<lambda>p. fst p \<noteq> k) r))"
    using assms by (auto simp: within_def distinct_map_filter)
  moreover have "(k, e) # filter (\<lambda>p. fst p \<noteq> k) r = [] @ (k, e) # filter (\<lambda>p. fst p \<noteq> k) r" by simp
  ultimately show ?thesis unfolding within_def by (metis empty_subsetI image_empty list.set(1))
qed

lemma within_exec:
  assumes "within k (v, exp) U r" and "spares k t op" and "used_key op - {k} \<subseteq> U" and "finite U" and "card U < cap"
    and "exp = None \<or> t \<le> the exp"
  shows "within k (v, exp) U (snd (spec_exec cap op r))"
proof (cases op)
  case (OGet s j)
  show ?thesis
  proof (cases "j = k")
    case True
    have "exp = None \<or> s \<le> the exp" using assms(2,6) OGet by auto
    then show ?thesis
      using within_front [OF assms(1)] within_map_of [OF assms(1)] OGet True by (simp add: spec_Get_def)
  next
    case False
    then have "j \<in> U" using assms(3) OGet by auto
    then show ?thesis
      using within_cons [OF assms(1) _ False] within_filter [OF assms(1), of "\<lambda>p. fst p \<noteq> j"] False assms(1) OGet
      by (auto simp: spec_Get_def split: option.splits)
  qed
next
  case (OSet s j w ttl)
  then have j: "j \<in> U" "j \<noteq> k" using assms(2,3) by auto
  obtain n where n: "cap = Suc n" using assms(5) by (cases cap) auto
  have "within k (v, exp) U (take cap ((j, w, if ttl > 0 then Some (s + ttl) else None) # filter (\<lambda>p. fst p \<noteq> j) r))"
    by (rule within_take [OF within_cons [OF assms(1) j] assms(4,5)])
  with OSet n show ?thesis by (simp add: spec_Set_def)
next
  case (ODelete j)
  then show ?thesis using within_filter [OF assms(1), of "\<lambda>p. fst p \<noteq> j"] assms(2) by simp
next
  case (ODeleteByPrefix p)
  then show ?thesis
    using within_filter [OF assms(1), of "\<lambda>q. \<not> HasPrefix (fst q) p"] assms(2) by (simp add: spec_DeleteByPrefix_def)
qed

lemma within_run:
  assumes "within k (v, exp) U r" and "\<forall>op \<in> set ops. spares k t op" and "(\<Union>op \<in> set ops. used_key op) - {k} \<subseteq> U"
    and "finite U" and "card U < cap" and "exp = None \<or> t \<le> the exp"
  shows "within k (v, exp) U (snd (run_ops (spec_exec cap) ops r))"
  using assms(1,2,3)
proof (induction ops arbitrary: r)
  case (Cons op ops)
  have "within k (v, exp) U (snd (spec_exec cap op r))"
    using Cons.prems by (intro within_exec [where t = t] assms) auto
  with Cons.IH [of "snd (spec_exec cap op r)"] Cons.prems show ?case by (auto simp: split_beta)
qed simp

text \<open>The cache keeps what is in use. An entry that was set is still returned at a time up to its
  expiry, if since then it was neither overwritten nor deleted and fewer other keys than the
  capacity were read or written.\<close>

theorem lru_keeps_recent:
  assumes "NewLRUCache cap = Ret c0" and "c = snd (run_ops lru_exec history c0)"
    and "\<forall>op \<in> set ops. spares k t op" and "card ((\<Union>op \<in> set ops. used_key op) - {k}) < nat cap"
    and "ttl > 0 \<longrightarrow> t \<le> s + ttl"
  shows "fst (lru_Get t k (snd (run_ops lru_exec ops (lru_Set s k v ttl c)))) = Inr v"
proof -
  let ?U = "(\<Union>op \<in> set ops. used_key op) - {k}" and ?exp = "if ttl > 0 then Some (s + ttl) else None"
  have c: "wf_lru c" "lc_capacity c = cap"
    using run_refines [of c0 history] wf_new [OF assms(1)] assms(2) by (simp_all add: refines_def)
  have fin: "finite (used_key op)" for op by (cases op) auto
  have c1: "wf_lru (lru_Set s k v ttl c)" "recency_of (lru_Set s k v ttl c) = spec_Set (nat cap) s k v ttl (recency_of c)"
    "lc_capacity (lru_Set s k v ttl c) = cap"
    using Set_refines [OF c(1), of s k v ttl] c(2) by (simp_all add: refines_def)
  have "distinct (map fst (recency_of (lru_Set s k v ttl c)))" using wf_recency [OF c1(1)] by blast
  then have "within k (v, ?exp) ?U (recency_of (lru_Set s k v ttl c))"
    unfolding c1(2) within_def spec_Set_def by (metis append_Nil empty_subsetI image_empty list.set(1))
  then have "within k (v, ?exp) ?U (snd (run_ops (spec_exec (nat cap)) ops (recency_of (lru_Set s k v ttl c))))"
    by (rule within_run [where t = t]) (use assms fin in auto)
  then have "within k (v, ?exp) ?U (recency_of (snd (run_ops lru_exec ops (lru_Set s k v ttl c))))"
    and wf: "wf_lru (snd (run_ops lru_exec ops (lru_Set s k v ttl c)))"
    using run_refines [OF c1(1), of ops] c1(3) by (simp_all add: refines_def)
  with Get_refines [OF wf, of t k] assms(5) show ?thesis
    by (auto simp: refines_def spec_Get_def dest: within_map_of)
qed

definition demo_lru :: lruCache where
  "demo_lru = \<lparr> lc_capacity = 2, lc_items = [], lc_order = [], lc_next = 0 \<rparr>"

theorem lru_keeps_recent_witness:
  "fst (lru_Get 9 ''a'' (snd (run_ops lru_exec [OSet 2 ''b'' ''2'' 0, OGet 3 ''b'', ODelete ''c'']
     (lru_Set 1 ''a'' ''1'' 10 demo_lru)))) = Inr ''1''"
  using lru_keeps_recent [of 2 demo_lru demo_lru "[]" "[OSet 2 ''b'' ''2'' 0, OGet 3 ''b'', ODelete ''c'']" "''a''" 9 10 1 "''1''"]
  by (simp add: NewLRUCache_def demo_lru_def)

section \<open>The backend of the cache middleware\<close>

interpretation lru: cache_backend lru_Get lru_Set wf_lru "\<lambda>c. map_of (recency_of c)"
proof
  fix s :: lruCache and t k j v ttl and e :: "bytes \<times> int option"
  assume wf: "wf_lru s"
  have get: "fst (lru_Get t k s) = fst (spec_Get t k (recency_of s))" "recency_of (snd (lru_Get t k s)) = snd (spec_Get t k (recency_of s))"
    "wf_lru (snd (lru_Get t k s))"
    using Get_refines [OF wf, of t k] by (simp_all add: refines_def)
  have set: "recency_of (lru_Set t k v ttl s) = spec_Set (nat (lc_capacity s)) t k v ttl (recency_of s)" "wf_lru (lru_Set t k v ttl s)"
    using Set_refines [OF wf, of t k v ttl] by (simp_all add: refines_def)
  show "wf_lru (snd (lru_Get t k s))" and "wf_lru (lru_Set t k v ttl s)" by (rule get set)+
  show "map_of (recency_of (snd (lru_Get t k s))) j = Some e \<Longrightarrow> map_of (recency_of s) j = Some e"
    unfolding get by (auto simp: spec_Get_def map_of_filter_key split: option.splits if_splits)
  show "fst (lru_Get t k s) = Inr v \<Longrightarrow> \<exists>exp. map_of (recency_of s) k = Some (v, exp) \<and> (case exp of None \<Rightarrow> True | Some x \<Rightarrow> t \<le> x)"
    unfolding get by (auto simp: spec_Get_def split: option.splits if_splits)
  show "map_of (recency_of (lru_Set t k v ttl s)) j = Some e \<Longrightarrow>
      (j = k \<and> e = (v, if ttl > 0 then Some (t + ttl) else None)) \<or> map_of (recency_of s) j = Some e"
    unfolding set by (auto simp: spec_Set_def map_of_filter_key split: if_splits dest!: map_of_take)
qed

end
