(* ===== verification/Cache.thy ===== *)
theory Cache
  imports Lru_Cache Names
begin

text \<open>
  The cache middleware of \<open>middleware/cache.go\<close>. Calls are threads whose steps interleave; the backend is
  any that keeps the contract of \<open>CacheBackend\<close>, and the in-memory cache is one. The package
  \<open>singleflight\<close> is not part of the repository: of its \<open>Do\<close> the model uses what its documentation
  says, that a call either runs the function itself or receives the results of a call that did, and
  that the flag \<open>shared\<close> tells whether the result was given to several callers. The digest of the
  input, \<open>hex.EncodeToString(sha256.Sum256(input))\<close>, is an argument.
\<close>

section \<open>Configuration and keys\<close>

record cacheConfig =
  cf_ttl :: int
  cf_skipTools :: "string list"
  cf_onlyTools :: "string list"
  cf_setMeta :: bool

definition WithCacheTTL :: "int \<Rightarrow> cacheConfig \<Rightarrow> cacheConfig" where
  "WithCacheTTL ttl c = c \<lparr> cf_ttl := ttl \<rparr>"

definition WithCacheSkipTools :: "string list \<Rightarrow> cacheConfig \<Rightarrow> cacheConfig" where
  "WithCacheSkipTools tools c = c \<lparr> cf_skipTools := cf_skipTools c @ tools \<rparr>"

definition WithCacheOnlyTools :: "string list \<Rightarrow> cacheConfig \<Rightarrow> cacheConfig" where
  "WithCacheOnlyTools tools c = c \<lparr> cf_onlyTools := cf_onlyTools c @ tools \<rparr>"

definition WithCacheMeta :: "bool \<Rightarrow> cacheConfig \<Rightarrow> cacheConfig" where
  "WithCacheMeta enabled c = c \<lparr> cf_setMeta := enabled \<rparr>"

definition Cache_config :: "(cacheConfig \<Rightarrow> cacheConfig) list \<Rightarrow> cacheConfig hres" where
  "Cache_config opts =
     (let cfg = fold (\<lambda>opt c. opt c) opts
            \<lparr> cf_ttl = 300 * 10 ^ 9, cf_skipTools = [], cf_onlyTools = [], cf_setMeta = True \<rparr>
      in if cf_skipTools cfg \<noteq> [] \<and> cf_onlyTools cfg \<noteq> []
         then Panic ''middleware.Cache: cannot use both WithCacheSkipTools and WithCacheOnlyTools''
         else Ret cfg)"

definition shouldCache :: "cacheConfig \<Rightarrow> string \<Rightarrow> bool" where
  "shouldCache c toolName =
     (if cf_onlyTools c \<noteq> [] then toolName \<in> set (cf_onlyTools c) else toolName \<notin> set (cf_skipTools c))"

text \<open>The string of the key function is empty when no key function is set.\<close>

definition buildKey :: "(bytes \<Rightarrow> string) \<Rightarrow> string \<Rightarrow> string \<Rightarrow> bytes \<Rightarrow> string" where
  "buildKey digest toolName extra input =
     (if extra \<noteq> [] then toolName @ '':'' @ extra else toolName) @ '':'' @ digest input"

definition CacheKey :: "(bytes \<Rightarrow> string) \<Rightarrow> string \<Rightarrow> bytes \<Rightarrow> string" where
  "CacheKey digest toolName input = toolName @ '':'' @ digest input"

definition CacheKeyWithExtra :: "(bytes \<Rightarrow> string) \<Rightarrow> string \<Rightarrow> string \<Rightarrow> bytes \<Rightarrow> string" where
  "CacheKeyWithExtra digest toolName extra input = toolName @ '':'' @ extra @ '':'' @ digest input"

definition InvalidateTool :: "string \<Rightarrow> lruCache \<Rightarrow> nat \<times> lruCache" where
  "InvalidateTool toolName = lru_DeleteByPrefix (toolName @ '':'')"

definition InvalidateKey :: "string \<Rightarrow> lruCache \<Rightarrow> lruCache" where
  "InvalidateKey key = lru_Delete key"

section \<open>Calls\<close>

text \<open>
  The points of a call: before the handler of an uncached tool, before the first lookup, on entering
  \<open>Do\<close>, before the handler as the leader of the flight, before the store, and returned, with the
  result and whether \<open>_meta.cached\<close> was set.
\<close>

datatype cache_pc =
    KIdle
  | KPass
  | KLookup string
  | KFlight string
  | KRun string
  | KStore string bytes
  | KDone string "bytes hres" bool
  | KPassed "bytes hres"

text \<open>The last three fields are history: the results of the handler, the stores and the hits, each with
  its key and time.\<close>

record 's cache_world =
  kw_backend :: 's
  kw_now :: int
  kw_threads :: "nat \<Rightarrow> cache_pc"
  kw_ran :: "(string \<times> bytes hres) list"
  kw_stored :: "(string \<times> int \<times> bytes) list"
  kw_hits :: "(string \<times> int \<times> bytes) list"

definition Cache_begin :: "cacheConfig \<Rightarrow> (bytes \<Rightarrow> string) \<Rightarrow> string \<Rightarrow> string \<Rightarrow> bytes \<Rightarrow> cache_pc" where
  "Cache_begin cfg digest toolName extra input =
     (if \<not> shouldCache cfg toolName then KPass else KLookup (buildKey digest toolName extra input))"

text \<open>Both lookups: a hit is returned, a miss leads to the given point.\<close>

definition Cache_lookup ::
  "(int \<Rightarrow> string \<Rightarrow> 's \<Rightarrow> (goerr + bytes) \<times> 's) \<Rightarrow> nat \<Rightarrow> string \<Rightarrow> bool \<Rightarrow> cache_pc \<Rightarrow> 's cache_world \<Rightarrow> 's cache_world" where
  "Cache_lookup get t key cached miss w =
     (case get (kw_now w) key (kw_backend w) of
        (Inr v, s) \<Rightarrow> w \<lparr> kw_backend := s, kw_threads := (kw_threads w)(t := KDone key (Ret v) cached),
                          kw_hits := (key, kw_now w, v) # kw_hits w \<rparr>
      | (Inl _, s) \<Rightarrow> w \<lparr> kw_backend := s, kw_threads := (kw_threads w)(t := miss) \<rparr>)"

definition Cache_run :: "nat \<Rightarrow> string \<Rightarrow> bytes hres \<Rightarrow> bool \<Rightarrow> 's cache_world \<Rightarrow> 's cache_world" where
  "Cache_run t key r cached w =
     w \<lparr> kw_ran := (key, r) # kw_ran w,
         kw_threads := (kw_threads w)(t := (case r of Ret out \<Rightarrow> KStore key out | _ \<Rightarrow> KDone key r cached)) \<rparr>"

definition Cache_store ::
  "(int \<Rightarrow> string \<Rightarrow> bytes \<Rightarrow> int \<Rightarrow> 's \<Rightarrow> 's) \<Rightarrow> int \<Rightarrow> nat \<Rightarrow> string \<Rightarrow> bytes \<Rightarrow> bool \<Rightarrow> 's cache_world \<Rightarrow> 's cache_world" where
  "Cache_store setf ttl t key out cached w =
     w \<lparr> kw_backend := setf (kw_now w) key out ttl (kw_backend w), kw_stored := (key, kw_now w, out) # kw_stored w,
         kw_threads := (kw_threads w)(t := KDone key (Ret out) cached) \<rparr>"

inductive kstep for get :: "int \<Rightarrow> string \<Rightarrow> 's \<Rightarrow> (goerr + bytes) \<times> 's" and setf and cfg and digest where
  call: "kw_threads w t = KIdle \<Longrightarrow>
    kstep get setf cfg digest w (w \<lparr> kw_threads := (kw_threads w)(t := Cache_begin cfg digest toolName extra input) \<rparr>)"
| pass: "kw_threads w t = KPass \<Longrightarrow>
    kstep get setf cfg digest w (w \<lparr> kw_threads := (kw_threads w)(t := KPassed r) \<rparr>)"
| first_lookup: "kw_threads w t = KLookup key \<Longrightarrow>
    kstep get setf cfg digest w (Cache_lookup get t key (cf_setMeta cfg) (KFlight key) w)"
| lead: "kw_threads w t = KFlight key \<Longrightarrow>
    kstep get setf cfg digest w (Cache_lookup get t key (shared \<and> cf_setMeta cfg) (KRun key) w)"
| follow: "kw_threads w t = KFlight key \<Longrightarrow> kw_threads w u = KDone key r m \<Longrightarrow>
    kstep get setf cfg digest w (w \<lparr> kw_threads := (kw_threads w)(t := KDone key r (cf_setMeta cfg \<and> (\<exists>v. r = Ret v))) \<rparr>)"
| run: "kw_threads w t = KRun key \<Longrightarrow> kstep get setf cfg digest w (Cache_run t key r False w)"
| store: "kw_threads w t = KStore key out \<Longrightarrow>
    kstep get setf cfg digest w (Cache_store setf (cf_ttl cfg) t key out (shared \<and> cf_setMeta cfg) w)"
| tick: "d \<ge> 0 \<Longrightarrow> kstep get setf cfg digest w (w \<lparr> kw_now := kw_now w + d \<rparr>)"

inductive cache_reaches for get setf cfg digest and s0 :: 's where
  cache_start: "cache_reaches get setf cfg digest s0
    \<lparr> kw_backend = s0, kw_now = t0, kw_threads = (\<lambda>_. KIdle), kw_ran = [], kw_stored = [], kw_hits = [] \<rparr>"
| cache_step: "cache_reaches get setf cfg digest s0 w \<Longrightarrow> kstep get setf cfg digest w w' \<Longrightarrow> cache_reaches get setf cfg digest s0 w'"

section \<open>Keys\<close>

lemma colon_not_in_name: "validateToolName t = None \<Longrightarrow> CHR '':'' \<notin> set t"
  by (auto simp: validateToolName_ok list_all_iff tool_name_char_def alnum_def)

lemma name_of_key: "CHR '':'' \<notin> set t \<Longrightarrow> takeWhile (\<lambda>c. c \<noteq> CHR '':'') (t @ '':'' @ r) = t"
  by (subst takeWhile_append2) auto

lemma buildKey_split:
  "buildKey digest t e i = t @ '':'' @ (if e = [] then [] else e @ '':'') @ digest i"
  by (simp add: buildKey_def)

lemma HasPrefix_append: "HasPrefix s p \<longleftrightarrow> (\<exists>r. s = p @ r)"
  unfolding HasPrefix_def by (metis append_eq_conv_conj append_take_drop_id)

text \<open>Keys do not mix calls up. For tool names that validation accepts and digests of one length that
  do not collide on the two inputs, two calls share a cache key only if tool, extra key and input
  are the same; and the keys of a tool are exactly those that invalidating the tool removes.\<close>

theorem cache_key_injective:
  assumes "validateToolName t1 = None" and "validateToolName t2 = None"
    and "length (digest i1) = length (digest i2)" and "digest i1 = digest i2 \<Longrightarrow> i1 = i2"
  shows "(buildKey digest t1 e1 i1 = buildKey digest t2 e2 i2 \<longrightarrow> t1 = t2 \<and> e1 = e2 \<and> i1 = i2)
    \<and> (HasPrefix (buildKey digest t1 e1 i1) (t2 @ '':'') \<longleftrightarrow> t1 = t2)"
proof (intro conjI impI)
  note names = name_of_key [OF colon_not_in_name [OF assms(1)]] name_of_key [OF colon_not_in_name [OF assms(2)]]
  assume eq: "buildKey digest t1 e1 i1 = buildKey digest t2 e2 i2"
  then show t: "t1 = t2" unfolding buildKey_split using names by metis
  with eq have "(if e1 = [] then [] else e1 @ '':'') @ digest i1 = (if e2 = [] then [] else e2 @ '':'') @ digest i2"
    by (simp add: buildKey_split)
  with assms(3) have parts: "(if e1 = [] then [] else e1 @ '':'') = (if e2 = [] then [] else e2 @ '':'')" "digest i1 = digest i2"
    by (blast dest: append_eq_append_conv [THEN iffD1, rotated])+
  then show "e1 = e2" by (auto split: if_splits)
  show "i1 = i2" using parts(2) by (rule assms(4))
next
  note names = name_of_key [OF colon_not_in_name [OF assms(1)]] name_of_key [OF colon_not_in_name [OF assms(2)]]
  show "HasPrefix (buildKey digest t1 e1 i1) (t2 @ '':'') \<longleftrightarrow> t1 = t2"
  proof
    assume "HasPrefix (buildKey digest t1 e1 i1) (t2 @ '':'')"
    then obtain r where "buildKey digest t1 e1 i1 = t2 @ '':'' @ r" by (auto simp: HasPrefix_append)
    then show "t1 = t2" unfolding buildKey_split using names by metis
  qed (auto simp: HasPrefix_append buildKey_split)
qed

definition demo_digest :: "bytes \<Rightarrow> string" where
  "demo_digest i = take 64 (i @ replicate 64 CHR ''0'')"

theorem cache_key_injective_witness:
  "buildKey demo_digest ''get'' ''x'' ''1'' \<noteq> buildKey demo_digest ''get'' [] ''2''
   \<and> HasPrefix (buildKey demo_digest ''get'' ''x'' ''1'') (''get'' @ '':'')"
proof -
  have "validateToolName ''get'' = None" by (simp add: validateToolName_ok tool_name_char_def alnum_def)
  then show ?thesis
    using cache_key_injective [of "''get''" "''get''" demo_digest "''1''" "''2''" "''x''" "[]"] by (auto simp: demo_digest_def)
qed

section \<open>Transparency\<close>

context cache_backend
begin

definition sound :: "int \<Rightarrow> 's cache_world \<Rightarrow> bool" where
  "sound ttl w \<longleftrightarrow> justified ttl (kw_stored w) (kw_backend w)
     \<and> (\<forall>(k, t, v) \<in> set (kw_stored w). (k, Ret v) \<in> set (kw_ran w) \<and> t \<le> kw_now w)
     \<and> (\<forall>(k, t, v) \<in> set (kw_hits w). \<exists>t1 \<le> t. (k, t1, v) \<in> set (kw_stored w) \<and> (ttl > 0 \<longrightarrow> t \<le> t1 + ttl))
     \<and> (\<forall>t k v. kw_threads w t = KStore k v \<longrightarrow> (k, Ret v) \<in> set (kw_ran w))
     \<and> (\<forall>t k r m. kw_threads w t = KDone k r m \<longrightarrow> (k, r) \<in> set (kw_ran w))"

lemma sound_lookup:
  assumes "sound ttl w" and "\<forall>k r m v. miss \<noteq> KDone k r m \<and> miss \<noteq> KStore k v"
  shows "sound ttl (Cache_lookup get t key cached miss w)"
proof (cases "get (kw_now w) key (kw_backend w)")
  case (Pair x s)
  have j: "justified ttl (kw_stored w) s"
    using justified_get [of ttl "kw_stored w" "kw_backend w" "kw_now w" key] assms(1) Pair by (simp add: sound_def)
  show ?thesis
  proof (cases x)
    case (Inl e)
    with Pair j assms show ?thesis by (auto simp: sound_def Cache_lookup_def)
  next
    case (Inr v)
    obtain t1 where t1: "(key, t1, v) \<in> set (kw_stored w)" "ttl > 0 \<longrightarrow> kw_now w \<le> t1 + ttl"
      using justified_hit [of ttl "kw_stored w" "kw_backend w" "kw_now w" key v] assms(1) Pair Inr by (auto simp: sound_def)
    with assms(1) have "(key, Ret v) \<in> set (kw_ran w)" "t1 \<le> kw_now w" by (auto simp: sound_def)
    with t1 Pair Inr j assms(1) show ?thesis by (auto simp: sound_def Cache_lookup_def)
  qed
qed

lemma sound_store:
  assumes "sound ttl w" and "kw_threads w t = KStore key out"
  shows "sound ttl (Cache_store set_op ttl t key out cached w)"
proof -
  have "(key, Ret out) \<in> set (kw_ran w)" using assms by (auto simp: sound_def)
  moreover have "justified ttl ((key, kw_now w, out) # kw_stored w) (set_op (kw_now w) key out ttl (kw_backend w))"
    using assms(1) by (intro justified_set) (simp add: sound_def)
  moreover have "\<exists>t1 \<le> s. (k, t1, v) \<in> set ((key, kw_now w, out) # kw_stored w) \<and> (ttl > 0 \<longrightarrow> s \<le> t1 + ttl)"
    if "(k, s, v) \<in> set (kw_hits w)" for k s v
    using assms(1) that unfolding sound_def by fastforce
  ultimately show ?thesis using assms(1) by (auto simp: sound_def Cache_store_def)
qed

lemma sound_step:
  assumes "kstep get set_op cfg digest w w'" and "sound (cf_ttl cfg) w"
  shows "sound (cf_ttl cfg) w'"
  using assms
proof cases
  case (run t key r)
  then show ?thesis using assms(2) by (auto simp: sound_def Cache_run_def split: hres.splits)
next
  case (call t toolName extra input)
  then show ?thesis using assms(2) by (auto simp: sound_def Cache_begin_def)
next
  case (follow t key u r m)
  then have "(key, r) \<in> set (kw_ran w)" using assms(2) by (meson sound_def)
  with follow show ?thesis using assms(2) by (auto simp: sound_def)
next
  case (tick d)
  then show ?thesis using assms(2) by (fastforce simp: sound_def)
next
  case (pass t r)
  then show ?thesis using assms(2) by (auto simp: sound_def)
next
  case (first_lookup t key)
  then show ?thesis using assms(2) by (simp add: sound_lookup)
next
  case (lead t key shared)
  then show ?thesis using assms(2) by (simp add: sound_lookup)
next
  case (store t key out shared)
  then show ?thesis using assms(2) by (simp add: sound_store)
qed

lemma sound_reaches:
  assumes "cache_reaches get set_op cfg digest s0 w" and "inv s0" and "\<forall>k. held s0 k = None"
  shows "sound (cf_ttl cfg) w"
  using assms(1)
proof induction
  case (cache_start t0)
  then show ?case using assms(2,3) by (simp add: sound_def justified_def)
next
  case (cache_step w w')
  then show ?case using sound_step by blast
qed

end

text \<open>C26: Caching is transparent. Whatever the interleaving of calls, what a cached call returns, result or
  error, is what the handler returned in some call with the same key; errors and panics are never
  stored; and what is served from the cache was stored at most the time to live before.\<close>

theorem cache_is_transparent:
  assumes "NewLRUCache cap = Ret s0" and "cache_reaches lru_Get lru_Set cfg digest s0 w"
  shows "(kw_threads w t = KDone k r m \<longrightarrow> (k, r) \<in> set (kw_ran w))
    \<and> (\<forall>(k, t, v) \<in> set (kw_hits w). (k, Ret v) \<in> set (kw_ran w)
         \<and> (\<exists>t1 \<le> t. (k, t1, v) \<in> set (kw_stored w) \<and> (cf_ttl cfg > 0 \<longrightarrow> t \<le> t1 + cf_ttl cfg)))"
proof -
  have "lru.sound (cf_ttl cfg) w" by (rule lru.sound_reaches [OF assms(2)]) (use wf_new [OF assms(1)] in auto)
  then show ?thesis unfolding lru.sound_def by fastforce
qed

definition demo_cfg :: cacheConfig where
  "demo_cfg = \<lparr> cf_ttl = 60, cf_skipTools = [], cf_onlyTools = [], cf_setMeta = True \<rparr>"

definition demo_begin :: "nat \<Rightarrow> lruCache cache_world \<Rightarrow> lruCache cache_world" where
  "demo_begin t w = w \<lparr> kw_threads := (kw_threads w)(t := Cache_begin demo_cfg id ''get'' [] ''1'') \<rparr>"

text \<open>A call that misses, runs the handler and stores its result.\<close>

definition demo_miss :: "lruCache cache_world" where
  "demo_miss = Cache_store lru_Set 60 0 ''get:1'' ''out'' False (Cache_run 0 ''get:1'' (Ret ''out'') False
     (Cache_lookup lru_Get 0 ''get:1'' False (KRun ''get:1'') (Cache_lookup lru_Get 0 ''get:1'' True (KFlight ''get:1'')
       (demo_begin 0 \<lparr> kw_backend = demo_lru, kw_now = 5, kw_threads = (\<lambda>_. KIdle), kw_ran = [], kw_stored = [], kw_hits = [] \<rparr>))))"

definition demo_hit :: "lruCache cache_world" where
  "demo_hit = Cache_lookup lru_Get 1 ''get:1'' True (KFlight ''get:1'') (demo_begin 1 demo_miss)"

lemmas demo_defs = demo_cfg_def demo_begin_def Cache_begin_def shouldCache_def buildKey_def Cache_lookup_def
  Cache_run_def Cache_store_def demo_lru_def lru_Get_def lru_Set_def mget_def mput_def MoveToFront_def list_Remove_def Let_def

lemma demo_steps:
  assumes "cache_reaches lru_Get lru_Set demo_cfg id s0 w"
  shows "kw_threads w t = KIdle \<Longrightarrow> cache_reaches lru_Get lru_Set demo_cfg id s0 (demo_begin t w)"
    and "kw_threads w t = KLookup k \<Longrightarrow>
      cache_reaches lru_Get lru_Set demo_cfg id s0 (Cache_lookup lru_Get t k True (KFlight k) w)"
    and "kw_threads w t = KFlight k \<Longrightarrow>
      cache_reaches lru_Get lru_Set demo_cfg id s0 (Cache_lookup lru_Get t k False (KRun k) w)"
    and "kw_threads w t = KRun k \<Longrightarrow> cache_reaches lru_Get lru_Set demo_cfg id s0 (Cache_run t k r False w)"
    and "kw_threads w t = KStore k v \<Longrightarrow>
      cache_reaches lru_Get lru_Set demo_cfg id s0 (Cache_store lru_Set 60 t k v False w)"
proof -
  have cfg: "cf_setMeta demo_cfg" "cf_ttl demo_cfg = 60" by (simp_all add: demo_cfg_def)
  note step = cache_step [OF assms]
  show "kw_threads w t = KIdle \<Longrightarrow> cache_reaches lru_Get lru_Set demo_cfg id s0 (demo_begin t w)"
    unfolding demo_begin_def by (intro step kstep.call)
  show "kw_threads w t = KLookup k \<Longrightarrow> cache_reaches lru_Get lru_Set demo_cfg id s0 (Cache_lookup lru_Get t k True (KFlight k) w)"
    using step [OF kstep.first_lookup] cfg by fastforce
  show "kw_threads w t = KFlight k \<Longrightarrow> cache_reaches lru_Get lru_Set demo_cfg id s0 (Cache_lookup lru_Get t k False (KRun k) w)"
    using step [OF kstep.lead [where shared = False]] by fastforce
  show "kw_threads w t = KRun k \<Longrightarrow> cache_reaches lru_Get lru_Set demo_cfg id s0 (Cache_run t k r False w)"
    by (intro step kstep.run)
  show "kw_threads w t = KStore k v \<Longrightarrow> cache_reaches lru_Get lru_Set demo_cfg id s0 (Cache_store lru_Set 60 t k v False w)"
    using step [OF kstep.store [where shared = False]] cfg by fastforce
qed

lemma demo_reached: "cache_reaches lru_Get lru_Set demo_cfg id demo_lru demo_hit"
  unfolding demo_hit_def demo_miss_def by (intro demo_steps cache_start) (simp_all add: demo_defs)

theorem cache_is_transparent_witness: "(''get:1'', Ret ''out'') \<in> set (kw_ran demo_hit)"
proof -
  have "kw_threads demo_hit 1 = KDone ''get:1'' (Ret ''out'') True"
    by (simp add: demo_hit_def demo_miss_def demo_defs)
  moreover have "NewLRUCache 2 = Ret demo_lru" by (simp add: NewLRUCache_def demo_lru_def)
  ultimately show ?thesis using cache_is_transparent [OF _ demo_reached, of 2 1] by simp
qed

end
