(* ===== verification/Validation.thy ===== *)
theory Validation
  imports Complex_Main Uri_Template
begin

text \<open>
  \<open>middleware/validation.go\<close>: validation of the input of a tool against its JSON Schema. A value is what
  \<open>json.Unmarshal\<close> puts into an \<open>any\<close>; its numbers, finite floating-point numbers, are rational
  numbers. What the code takes from packages \<open>fmt\<close>, \<open>encoding/json\<close> and \<open>regexp\<close> is an argument:
  the \<open>%v\<close> and \<open>%q\<close> verbs, the encoder, the decoder and the compiler of patterns; so is the result of converting a
  floating-point number outside the range of \<open>int\<close>, which the language leaves to the implementation.
\<close>

section \<open>Values and schemas\<close>

datatype gval = GNull | GBool bool | GNum rat | GStr string | GArr "gval list" | GObj "(string \<times> gval) list"

type_synonym gobj = "(string, gval) gomap"

record vlib =
  vl_fmt :: "gval \<Rightarrow> string"
  vl_quote :: "string \<Rightarrow> string"
  vl_marshal :: "gval \<Rightarrow> string"
  vl_compile :: "string \<Rightarrow> string + (string \<Rightarrow> bool)"
  vl_int :: "rat \<Rightarrow> int"

definition maxRefDepth :: nat where "maxRefDepth = 32"

text \<open>The type assertions of the code on a member of a map.\<close>

definition map_member :: "string \<Rightarrow> gobj \<Rightarrow> gobj option" where
  "map_member k s = (case mget s k of Some (GObj m) \<Rightarrow> Some m | _ \<Rightarrow> None)"

definition string_member :: "string \<Rightarrow> gobj \<Rightarrow> string" where
  "string_member k s = (case mget s k of Some (GStr x) \<Rightarrow> x | _ \<Rightarrow> [])"

definition toFloat64Value :: "gval option \<Rightarrow> rat option" where
  "toFloat64Value v = (case v of Some (GNum n) \<Rightarrow> Some n | _ \<Rightarrow> None)"

definition toFloat64 :: "gval \<Rightarrow> rat option" where
  "toFloat64 v = (case v of GNum n \<Rightarrow> Some n | _ \<Rightarrow> None)"

text \<open>\<open>math.Trunc\<close>, and the conversion \<open>int(v)\<close>, which truncates where the result has 64 bits.\<close>

definition Trunc :: "rat \<Rightarrow> rat" where
  "Trunc x = (if x \<ge> 0 then of_int \<lfloor>x\<rfloor> else of_int \<lceil>x\<rceil>)"

definition go_int :: "vlib \<Rightarrow> rat \<Rightarrow> int" where
  "go_int L x = (if - (2 ^ 63) \<le> Trunc x \<and> Trunc x < 2 ^ 63 then \<lfloor>Trunc x\<rfloor> else vl_int L x)"

definition toStringSlice :: "gval \<Rightarrow> string list" where
  "toStringSlice v = (case v of GArr xs \<Rightarrow> concat (map (\<lambda>e. case e of GStr s \<Rightarrow> [s] | _ \<Rightarrow> []) xs) | _ \<Rightarrow> [])"

fun jsonTypeName :: "gval \<Rightarrow> string" where
  "jsonTypeName GNull = ''null''"
| "jsonTypeName (GBool _) = ''boolean''"
| "jsonTypeName (GNum _) = ''number''"
| "jsonTypeName (GStr _) = ''string''"
| "jsonTypeName (GObj _) = ''object''"
| "jsonTypeName (GArr _) = ''array''"

definition qualifyField :: "string \<Rightarrow> string \<Rightarrow> string" where
  "qualifyField prefix field = (if prefix = [] then field else prefix @ ''.'' @ field)"

section \<open>References\<close>

definition extractDefs :: "gobj \<Rightarrow> gobj option" where
  "extractDefs schema = map_member ''$defs'' schema"

definition resolveRef :: "string \<Rightarrow> gobj option \<Rightarrow> gobj option" where
  "resolveRef ref defs =
     (if take 8 ref \<noteq> ''#/$defs/'' then None
      else let name = drop 8 ref
           in case defs of None \<Rightarrow> None | Some ds \<Rightarrow> if name = [] then None else map_member name ds)"

primrec resolve_loop :: "gobj option \<Rightarrow> nat \<Rightarrow> gobj \<Rightarrow> gobj" where
  "resolve_loop defs 0 schema = schema"
| "resolve_loop defs (Suc depth) schema =
     (let ref = string_member ''$ref'' schema
      in if ref = [] then schema
         else case resolveRef ref defs of None \<Rightarrow> schema | Some resolved \<Rightarrow> resolve_loop defs depth resolved)"

definition resolveSchema :: "gobj \<Rightarrow> gobj option \<Rightarrow> nat \<Rightarrow> gobj" where
  "resolveSchema schema defs depth = resolve_loop defs depth schema"

section \<open>Constraints\<close>

definition jsonEqual :: "vlib \<Rightarrow> gval \<Rightarrow> gval \<Rightarrow> bool" where
  "jsonEqual L a b =
     (case (a, b) of
        (GNum x, GNum y) \<Rightarrow> x = y
      | (GStr x, GStr y) \<Rightarrow> x = y
      | (GBool x, GBool y) \<Rightarrow> x = y
      | (GNull, _) \<Rightarrow> b = GNull
      | _ \<Rightarrow> vl_fmt L a = vl_fmt L b)"

definition join :: "string \<Rightarrow> string list \<Rightarrow> string" where
  "join sep xs = (case xs of [] \<Rightarrow> [] | y # ys \<Rightarrow> y @ concat (map (\<lambda>z. sep @ z) ys))"

definition validateEnum :: "vlib \<Rightarrow> gobj \<Rightarrow> gval \<Rightarrow> string \<Rightarrow> string list" where
  "validateEnum L schema val path =
     (case mget schema ''enum'' of
        Some (GArr allowed) \<Rightarrow>
          if list_ex (\<lambda>a. jsonEqual L a val) allowed then []
          else [path @ '': value must be one of ['' @ join '', '' (map (vl_marshal L) allowed) @ '']'']
      | _ \<Rightarrow> [])"

definition validateStringConstraints :: "vlib \<Rightarrow> gobj \<Rightarrow> string \<Rightarrow> string \<Rightarrow> string list" where
  "validateStringConstraints L schema s path =
     (let runeLen = int (length (runes s));
          e1 = (case toFloat64Value (mget schema ''minLength'') of None \<Rightarrow> []
                | Some v \<Rightarrow> if runeLen < go_int L v
                    then [path @ '': string length '' @ Itoa runeLen @ '' is less than minimum '' @ Itoa (go_int L v)] else []);
          e2 = (case toFloat64Value (mget schema ''maxLength'') of None \<Rightarrow> []
                | Some v \<Rightarrow> if runeLen > go_int L v
                    then [path @ '': string length '' @ Itoa runeLen @ '' exceeds maximum '' @ Itoa (go_int L v)] else []);
          pattern = string_member ''pattern'' schema;
          e3 = (if pattern = [] then []
                else case vl_compile L pattern of
                  Inl err \<Rightarrow> [path @ '': invalid pattern '' @ vl_quote L pattern @ '': '' @ err]
                | Inr re \<Rightarrow> if \<not> re s then [path @ '': string does not match pattern '' @ vl_quote L pattern] else [])
      in e1 @ e2 @ e3)"

definition numeric_bound :: "vlib \<Rightarrow> gobj \<Rightarrow> string \<Rightarrow> (rat \<Rightarrow> rat \<Rightarrow> bool) \<Rightarrow> string \<Rightarrow> rat \<Rightarrow> string \<Rightarrow> string list" where
  "numeric_bound L schema keyword bad msg n path =
     (case toFloat64Value (mget schema keyword) of None \<Rightarrow> []
      | Some v \<Rightarrow> if bad n v then [path @ '': value '' @ vl_fmt L (GNum n) @ msg @ vl_fmt L (GNum v)] else [])"

definition validateNumericConstraints :: "vlib \<Rightarrow> gobj \<Rightarrow> rat \<Rightarrow> string \<Rightarrow> string list" where
  "validateNumericConstraints L schema n path =
     numeric_bound L schema ''minimum'' (\<lambda>n v. n < v) '' is less than minimum '' n path
   @ numeric_bound L schema ''maximum'' (\<lambda>n v. n > v) '' exceeds maximum '' n path
   @ numeric_bound L schema ''exclusiveMinimum'' (\<lambda>n v. n \<le> v) '' must be greater than '' n path
   @ numeric_bound L schema ''exclusiveMaximum'' (\<lambda>n v. n \<ge> v) '' must be less than '' n path"

text \<open>The loop of \<open>validateUniqueItems\<close>, from index \<open>i\<close>, with the map of the keys seen.\<close>

fun unique_loop :: "vlib \<Rightarrow> string \<Rightarrow> nat \<Rightarrow> (string, nat) gomap \<Rightarrow> gval list \<Rightarrow> string list" where
  "unique_loop L path i seen [] = []"
| "unique_loop L path i seen (x # xs) =
     (let key = vl_marshal L x
      in case mget seen key of
           Some first \<Rightarrow> [path @ ''['' @ Itoa (int i) @ '']: duplicate of element at index '' @ Itoa (int first)]
         | None \<Rightarrow> unique_loop L path (Suc i) (mput key i seen) xs)"

definition validateUniqueItems :: "vlib \<Rightarrow> gval list \<Rightarrow> string \<Rightarrow> string list" where
  "validateUniqueItems L arr path = unique_loop L path 0 [] arr"

definition array_constraints :: "vlib \<Rightarrow> gobj \<Rightarrow> gval list \<Rightarrow> string \<Rightarrow> string list" where
  "array_constraints L schema arr path =
     (let arrLen = int (length arr);
          e1 = (case toFloat64Value (mget schema ''minItems'') of None \<Rightarrow> []
                | Some v \<Rightarrow> if arrLen < go_int L v
                    then [path @ '': array length '' @ Itoa arrLen @ '' is less than minItems '' @ Itoa (go_int L v)] else []);
          e2 = (case toFloat64Value (mget schema ''maxItems'') of None \<Rightarrow> []
                | Some v \<Rightarrow> if arrLen > go_int L v
                    then [path @ '': array length '' @ Itoa arrLen @ '' exceeds maxItems '' @ Itoa (go_int L v)] else []);
          e3 = (case mget schema ''uniqueItems'' of Some (GBool True) \<Rightarrow> validateUniqueItems L arr path | _ \<Rightarrow> [])
      in e1 @ e2 @ e3)"

definition missing_required :: "gobj \<Rightarrow> gobj option \<Rightarrow> string \<Rightarrow> string list" where
  "missing_required schema data prefix =
     (case mget schema ''required'' of None \<Rightarrow> []
      | Some req \<Rightarrow> concat (map (\<lambda>field.
          if (case data of None \<Rightarrow> True | Some d \<Rightarrow> mget d field = None)
          then [''missing required field: '' @ qualifyField prefix field] else []) (toStringSlice req)))"

section \<open>Objects, values and arrays\<close>

lemma size_member: "(f, v) \<in> set kvs \<Longrightarrow> size v < size (GObj kvs)"
  by (induction kvs) auto

lemma size_element: "v \<in> set xs \<Longrightarrow> size v < size (GArr xs)"
  by (induction xs) auto

lemma enumerate_mem: "(i, v) \<in> set (enumerate n xs) \<Longrightarrow> v \<in> set xs"
  by (auto simp: in_set_enumerate_eq)

function validateObject :: "vlib \<Rightarrow> gobj \<Rightarrow> gobj option \<Rightarrow> string \<Rightarrow> gobj option \<Rightarrow> nat \<Rightarrow> string list"
  and validateValue :: "vlib \<Rightarrow> gobj \<Rightarrow> gval \<Rightarrow> string \<Rightarrow> gobj option \<Rightarrow> nat \<Rightarrow> string list"
  and validateArray :: "vlib \<Rightarrow> gobj \<Rightarrow> gval list \<Rightarrow> string \<Rightarrow> gobj option \<Rightarrow> nat \<Rightarrow> string list" where
  "validateObject L schema0 data prefix defs depth =
     (let schema = resolveSchema schema0 defs depth;
          errs = missing_required schema data prefix
      in case (map_member ''properties'' schema, data) of
           (Some props, Some d) \<Rightarrow>
             let apDeny = (mget schema ''additionalProperties'' = Some (GBool False));
                 apSchema = map_option (\<lambda>s. resolveSchema s defs depth) (map_member ''additionalProperties'' schema)
             in errs @ concat (map (\<lambda>(field, val).
                  (let fieldPath = qualifyField prefix field
                   in case mget props field of
                        None \<Rightarrow> if apDeny then [fieldPath @ '': additional property not allowed'']
                                else (case apSchema of None \<Rightarrow> []
                                      | Some s \<Rightarrow> validateValue L s val fieldPath defs depth)
                      | Some (GObj ps) \<Rightarrow> validateValue L (resolveSchema ps defs depth) val fieldPath defs depth
                      | Some _ \<Rightarrow> [])) d)
         | _ \<Rightarrow> errs)"
| "validateValue L propSchema0 val path defs depth =
     (let propSchema = resolveSchema propSchema0 defs depth;
          enumErrs = validateEnum L propSchema val path;
          expectedType = string_member ''type'' propSchema;
          mismatch = [path @ '': expected '' @ expectedType @ '', got '' @ jsonTypeName val]
      in if enumErrs \<noteq> [] then enumErrs
         else if expectedType = ''string'' then
           (case val of GStr s \<Rightarrow> validateStringConstraints L propSchema s path | _ \<Rightarrow> mismatch)
         else if expectedType = ''integer'' then
           (case toFloat64 val of None \<Rightarrow> mismatch
            | Some n \<Rightarrow> if n \<noteq> Trunc n then [path @ '': expected integer, got non-whole number'']
                        else validateNumericConstraints L propSchema n path)
         else if expectedType = ''number'' then
           (case toFloat64 val of None \<Rightarrow> mismatch | Some n \<Rightarrow> validateNumericConstraints L propSchema n path)
         else if expectedType = ''boolean'' then (case val of GBool _ \<Rightarrow> [] | _ \<Rightarrow> mismatch)
         else if expectedType = ''object'' then
           (case val of GObj obj \<Rightarrow> validateObject L propSchema (Some obj) path defs depth | _ \<Rightarrow> mismatch)
         else if expectedType = ''array'' then
           (case val of GArr arr \<Rightarrow> validateArray L propSchema arr path defs depth | _ \<Rightarrow> mismatch)
         else [])"
| "validateArray L schema arr path defs depth =
     (let errs = array_constraints L schema arr path
      in case map_member ''items'' schema of
           None \<Rightarrow> errs
         | Some items0 \<Rightarrow>
             let items = resolveSchema items0 defs depth
             in errs @ concat (map (\<lambda>(i, elem). validateValue L items elem (path @ ''['' @ Itoa (int i) @ '']'') defs depth)
                  (enumerate 0 arr)))"
  by pat_completeness auto
termination
  by (relation "measure (\<lambda>x. case x of
        Inl (_, _, d, _) \<Rightarrow> (case d of None \<Rightarrow> 0 | Some kvs \<Rightarrow> 2 * size (GObj kvs))
      | Inr (Inl (_, _, v, _)) \<Rightarrow> Suc (2 * size v)
      | Inr (Inr (_, _, arr, _)) \<Rightarrow> 2 * size (GArr arr))")
    (auto simp del: gval.size dest!: size_member size_element enumerate_mem)

declare validateObject.simps [simp del] validateValue.simps [simp del] validateArray.simps [simp del]

section \<open>The middleware\<close>

text \<open>The schema of a tool: a map, raw JSON, or another value with what encoding it yields.\<close>

datatype schema_any = SchemaMap gobj | SchemaRaw bytes | SchemaOther "bytes option"

text \<open>Decoding into a map: \<open>null\<close> leaves the map nil, and other values than objects are an error.\<close>

definition unmarshal_map :: "(bytes \<Rightarrow> string + gval) \<Rightarrow> bytes \<Rightarrow> string + gobj option" where
  "unmarshal_map parse b =
     (case parse b of
        Inl e \<Rightarrow> Inl e
      | Inr (GObj m) \<Rightarrow> Inr (Some m)
      | Inr GNull \<Rightarrow> Inr None
      | Inr v \<Rightarrow> Inl (''json: cannot unmarshal '' @ jsonTypeName v @ '' into Go value of type map[string]interface {}''))"

definition normalizeSchema :: "(bytes \<Rightarrow> string + gval) \<Rightarrow> schema_any \<Rightarrow> gobj option" where
  "normalizeSchema parse v =
     (let raw = (\<lambda>b. case unmarshal_map parse b of Inl _ \<Rightarrow> None | Inr None \<Rightarrow> Some [] | Inr (Some m) \<Rightarrow> Some m)
      in case v of SchemaMap s \<Rightarrow> Some s | SchemaRaw b \<Rightarrow> raw b
         | SchemaOther None \<Rightarrow> None | SchemaOther (Some b) \<Rightarrow> raw b)"

definition Validation_call ::
  "vlib \<Rightarrow> (bytes \<Rightarrow> string + gval) \<Rightarrow> bool \<Rightarrow> schema_any option \<Rightarrow> bytes \<Rightarrow> ('s \<Rightarrow> 'a hres \<times> 's) \<Rightarrow> 's \<Rightarrow> 'a hres \<times> 's" where
  "Validation_call L parse skip schemaRaw input next s =
     (if skip then next s
      else case schemaRaw of None \<Rightarrow> next s
      | Some raw \<Rightarrow>
        (case normalizeSchema parse raw of None \<Rightarrow> next s
         | Some schema \<Rightarrow>
           (case (if input = [] then Inr None else unmarshal_map parse input) of
              Inl e \<Rightarrow> (Err (Wrapped (''invalid JSON input: '' @ e) (ErrNew e)), s)
            | Inr data \<Rightarrow>
                let errs = validateObject L schema data [] (extractDefs schema) maxRefDepth
                in if errs \<noteq> [] then (Err (ErrNew (''validation failed: '' @ join ''; '' errs)), s) else next s)))"

definition regexpCacheMax :: int where "regexpCacheMax = 256"

text \<open>The cache of compiled patterns with its counter. The validator above calls the compiler itself:
  the results are the same, see \<open>regexp_cache_transparent\<close>.\<close>

definition getRegexp ::
  "vlib \<Rightarrow> string \<Rightarrow> (string, string \<Rightarrow> bool) gomap \<times> int \<Rightarrow> (string + (string \<Rightarrow> bool)) \<times> (string, string \<Rightarrow> bool) gomap \<times> int" where
  "getRegexp L pattern st =
     (case mget (fst st) pattern of
        Some re \<Rightarrow> (Inr re, st)
      | None \<Rightarrow>
          (case vl_compile L pattern of
             Inl e \<Rightarrow> (Inl e, st)
           | Inr re \<Rightarrow>
               (case (if snd st \<ge> regexpCacheMax then ([], 0) else st) of
                  (c, n) \<Rightarrow> (Inr re, mput pattern re c, n + 1))))"

section \<open>Specification\<close>

text \<open>
  What the keywords listed in the comment of \<open>Validation\<close> mean in JSON Schema, written without the helpers of the
  code: equality of JSON values is structural, with objects as finite maps; limits of lengths are compared as numbers;
  references and extra members are read off the schema directly. A keyword that concerns one type of values says
  nothing of the others, also where \<open>type\<close> is absent.
\<close>

inductive json_same :: "gval \<Rightarrow> gval \<Rightarrow> bool" where
  same_null: "json_same GNull GNull"
| same_bool: "json_same (GBool b) (GBool b)"
| same_num: "json_same (GNum n) (GNum n)"
| same_str: "json_same (GStr x) (GStr x)"
| same_arr: "length xs = length ys \<Longrightarrow> \<forall>i < length xs. json_same (xs ! i) (ys ! i) \<Longrightarrow> json_same (GArr xs) (GArr ys)"
| same_obj: "\<forall>k. mget kvs k = None \<longleftrightarrow> mget lvs k = None \<Longrightarrow>
    \<forall>k u w. mget kvs k = Some u \<longrightarrow> mget lvs k = Some w \<longrightarrow> json_same u w \<Longrightarrow> json_same (GObj kvs) (GObj lvs)"

inductive_simps same_scalar: "json_same GNull v" "json_same (GBool b) v" "json_same (GNum n) v" "json_same (GStr x) v"

definition limit_ok :: "gobj \<Rightarrow> string \<Rightarrow> (rat \<Rightarrow> bool) \<Rightarrow> bool" where
  "limit_ok s keyword P \<longleftrightarrow> (\<forall>v. mget s keyword = Some (GNum v) \<longrightarrow> P v)"

definition enum_ok :: "gobj \<Rightarrow> gval \<Rightarrow> bool" where
  "enum_ok s v \<longleftrightarrow> (\<forall>xs. mget s ''enum'' = Some (GArr xs) \<longrightarrow> (\<exists>a \<in> set xs. json_same a v))"

fun has_type :: "string \<Rightarrow> gval \<Rightarrow> bool" where
  "has_type t GNull \<longleftrightarrow> t = ''null''"
| "has_type t (GBool _) \<longleftrightarrow> t = ''boolean''"
| "has_type t (GNum n) \<longleftrightarrow> t = ''number'' \<or> t = ''integer'' \<and> n \<in> \<int>"
| "has_type t (GStr _) \<longleftrightarrow> t = ''string''"
| "has_type t (GArr _) \<longleftrightarrow> t = ''array''"
| "has_type t (GObj _) \<longleftrightarrow> t = ''object''"

definition type_ok :: "gobj \<Rightarrow> gval \<Rightarrow> bool" where
  "type_ok s v \<longleftrightarrow> (\<forall>t. mget s ''type'' = Some (GStr t) \<longrightarrow> has_type t v)"

definition string_ok :: "vlib \<Rightarrow> gobj \<Rightarrow> string \<Rightarrow> bool" where
  "string_ok L s x \<longleftrightarrow> limit_ok s ''minLength'' (\<lambda>v. v \<le> of_nat (length (runes x)))
     \<and> limit_ok s ''maxLength'' (\<lambda>v. of_nat (length (runes x)) \<le> v)
     \<and> (\<forall>p. mget s ''pattern'' = Some (GStr p) \<and> p \<noteq> [] \<longrightarrow> (\<exists>re. vl_compile L p = Inr re \<and> re x))"

definition number_ok :: "gobj \<Rightarrow> rat \<Rightarrow> bool" where
  "number_ok s n \<longleftrightarrow> limit_ok s ''minimum'' (\<lambda>v. v \<le> n) \<and> limit_ok s ''maximum'' (\<lambda>v. n \<le> v)
     \<and> limit_ok s ''exclusiveMinimum'' (\<lambda>v. v < n) \<and> limit_ok s ''exclusiveMaximum'' (\<lambda>v. n < v)"

definition array_ok :: "gobj \<Rightarrow> gval list \<Rightarrow> bool" where
  "array_ok s xs \<longleftrightarrow> limit_ok s ''minItems'' (\<lambda>v. v \<le> of_nat (length xs))
     \<and> limit_ok s ''maxItems'' (\<lambda>v. of_nat (length xs) \<le> v)
     \<and> (mget s ''uniqueItems'' = Some (GBool True) \<longrightarrow> sorted_wrt (\<lambda>a b. \<not> json_same a b) xs)"

definition required_ok :: "gobj \<Rightarrow> gobj \<Rightarrow> bool" where
  "required_ok s d \<longleftrightarrow> (\<forall>xs field. mget s ''required'' = Some (GArr xs) \<longrightarrow> GStr field \<in> set xs \<longrightarrow> field \<in> fst ` set d)"

text \<open>What an object schema says of a member: nothing, that it must not be there, or a schema.\<close>

datatype member_demand = Anything | Forbidden | Schema gobj

definition schema_of :: "gval \<Rightarrow> member_demand" where
  "schema_of x = (case x of GObj m \<Rightarrow> Schema m | GBool False \<Rightarrow> Forbidden | _ \<Rightarrow> Anything)"

definition member_rule :: "gobj \<Rightarrow> string \<Rightarrow> member_demand" where
  "member_rule s field =
     (case mget (case mget s ''properties'' of Some (GObj props) \<Rightarrow> props | _ \<Rightarrow> []) field of
        Some x \<Rightarrow> schema_of x
      | None \<Rightarrow> (case mget s ''additionalProperties'' of Some x \<Rightarrow> schema_of x | None \<Rightarrow> Anything))"

definition item_rule :: "gobj \<Rightarrow> member_demand" where
  "item_rule s = (case mget s ''items'' of Some x \<Rightarrow> schema_of x | None \<Rightarrow> Anything)"

text \<open>A reference to a definition.\<close>

definition refers :: "gobj option \<Rightarrow> gobj \<Rightarrow> gobj \<Rightarrow> bool" where
  "refers defs s s1 \<longleftrightarrow> (\<exists>name ds. mget s ''$ref'' = Some (GStr (''#/$defs/'' @ name)) \<and> name \<noteq> [] \<and> defs = Some ds
     \<and> mget ds name = Some (GObj s1))"

definition own_ok :: "vlib \<Rightarrow> gobj \<Rightarrow> gval \<Rightarrow> bool" where
  "own_ok L s v \<longleftrightarrow> enum_ok s v \<and> type_ok s v \<and> (\<forall>x. v = GStr x \<longrightarrow> string_ok L s x) \<and> (\<forall>n. v = GNum n \<longrightarrow> number_ok s n)
     \<and> (\<forall>xs. v = GArr xs \<longrightarrow> array_ok s xs) \<and> (\<forall>kvs. v = GObj kvs \<longrightarrow> required_ok s kvs)"

inductive conforms :: "vlib \<Rightarrow> gobj option \<Rightarrow> gobj \<Rightarrow> gval \<Rightarrow> bool" for L defs where
  conf: "own_ok L s v \<Longrightarrow>
    (\<forall>xs x. v = GArr xs \<longrightarrow> x \<in> set xs \<longrightarrow> item_rule s \<noteq> Forbidden \<and> (\<forall>s1. item_rule s = Schema s1 \<longrightarrow> conforms L defs s1 x)) \<Longrightarrow>
    (\<forall>kvs f u. v = GObj kvs \<longrightarrow> (f, u) \<in> set kvs \<longrightarrow>
       member_rule s f \<noteq> Forbidden \<and> (\<forall>s1. member_rule s f = Schema s1 \<longrightarrow> conforms L defs s1 u)) \<Longrightarrow>
    (\<forall>s1. refers defs s s1 \<longrightarrow> conforms L defs s1 v) \<Longrightarrow> conforms L defs s v"

section \<open>The schemas the code supports\<close>

text \<open>The schemas that validating against a schema can lead to, and the values inside a value.\<close>

inductive subschema :: "gobj option \<Rightarrow> gobj \<Rightarrow> gobj \<Rightarrow> bool" for defs s where
  sub_self: "subschema defs s s"
| sub_prop: "subschema defs s m \<Longrightarrow> mget m ''properties'' = Some (GObj props) \<Longrightarrow> mget props f = Some (GObj p) \<Longrightarrow> subschema defs s p"
| sub_extra: "subschema defs s m \<Longrightarrow> mget m ''additionalProperties'' = Some (GObj p) \<Longrightarrow> subschema defs s p"
| sub_items: "subschema defs s m \<Longrightarrow> mget m ''items'' = Some (GObj p) \<Longrightarrow> subschema defs s p"
| sub_ref: "subschema defs s m \<Longrightarrow> refers defs m p \<Longrightarrow> subschema defs s p"

inductive subvalue :: "gval \<Rightarrow> gval \<Rightarrow> bool" where
  val_self: "subvalue v v"
| val_item: "x \<in> set xs \<Longrightarrow> subvalue x u \<Longrightarrow> subvalue (GArr xs) u"
| val_member: "(f, x) \<in> set kvs \<Longrightarrow> subvalue x u \<Longrightarrow> subvalue (GObj kvs) u"

definition known_types :: "string list" where
  "known_types = [''string'', ''integer'', ''number'', ''boolean'', ''object'', ''array'']"

definition typed_keywords :: "string list" where
  "typed_keywords = [''required'', ''properties'', ''additionalProperties'', ''items'', ''minItems'', ''maxItems'', ''uniqueItems'',
     ''minLength'', ''maxLength'', ''pattern'', ''minimum'', ''maximum'', ''exclusiveMinimum'', ''exclusiveMaximum'']"

text \<open>
  Where the code follows the specification. It knows six types and looks at the keywords of a type only when \<open>type\<close>
  names it; it reads \<open>additionalProperties\<close> only beside \<open>properties\<close>; it takes schemas to be objects; it reads limits of
  lengths as 64-bit integers; it ignores the keywords beside a reference; and it compares enumerated values by their \<open>%v\<close> text,
  which has to tell them apart from the values \<open>U\<close> that are validated.
\<close>

definition supported :: "vlib \<Rightarrow> gobj option \<Rightarrow> gval set \<Rightarrow> gobj \<Rightarrow> bool" where
  "supported L defs U m \<longleftrightarrow>
     (case mget m ''type'' of None \<Rightarrow> \<forall>k \<in> set typed_keywords. mget m k = None | Some t \<Rightarrow> t \<in> GStr ` set known_types)
     \<and> (mget m ''additionalProperties'' \<noteq> None \<longrightarrow> mget m ''properties'' \<noteq> None)
     \<and> (\<forall>x. mget m ''properties'' = Some x \<longrightarrow> (\<exists>props. x = GObj props \<and> (\<forall>(f, p) \<in> set props. \<exists>q. p = GObj q)))
     \<and> (\<forall>x. mget m ''items'' = Some x \<longrightarrow> (\<exists>q. x = GObj q))
     \<and> (\<forall>k \<in> {''minLength'', ''maxLength'', ''minItems'', ''maxItems''}. \<forall>n. mget m k = Some (GNum n) \<longrightarrow> n \<in> \<int> \<and> \<bar>n\<bar> < 2 ^ 63)
     \<and> (\<forall>xs. mget m ''enum'' = Some (GArr xs) \<longrightarrow> (\<forall>a \<in> set xs. \<forall>u \<in> U. vl_fmt L a = vl_fmt L u \<longleftrightarrow> json_same a u))
     \<and> ((\<exists>s1. refers defs m s1) \<longrightarrow> mget m ''type'' = None \<and> mget m ''enum'' = None)"

definition supported_for :: "vlib \<Rightarrow> gobj option \<Rightarrow> gobj \<Rightarrow> gval \<Rightarrow> bool" where
  "supported_for L defs s v \<longleftrightarrow>
     (\<forall>m. subschema defs s m \<longrightarrow> supported L defs {u. subvalue v u} m)
     \<and> (\<forall>a b. subvalue v a \<and> subvalue v b \<longrightarrow> (vl_marshal L a = vl_marshal L b \<longleftrightarrow> json_same a b))"

text \<open>No chain of references is longer than the budget of the code.\<close>

definition short_refs :: "gobj option \<Rightarrow> nat \<Rightarrow> bool" where
  "short_refs defs depth \<longleftrightarrow> (\<forall>s t u. (refers defs ^^ depth) s t \<longrightarrow> \<not> refers defs t u)"

section \<open>References\<close>

lemma ref_code: "(string_member ''$ref'' s \<noteq> [] \<and> resolveRef (string_member ''$ref'' s) defs = Some s1) \<longleftrightarrow> refers defs s s1"
proof
  assume a: "string_member ''$ref'' s \<noteq> [] \<and> resolveRef (string_member ''$ref'' s) defs = Some s1"
  then obtain x where x: "mget s ''$ref'' = Some (GStr x)" "string_member ''$ref'' s = x"
    by (auto simp: string_member_def split: option.splits gval.splits)
  have t: "take 8 x = ''#/$defs/''" "drop 8 x \<noteq> []"
    using a by (auto simp: x(2) resolveRef_def Let_def split: if_splits option.splits)
  then have "x = ''#/$defs/'' @ drop 8 x" by (metis append_take_drop_id)
  moreover obtain ds where "defs = Some ds" "mget ds (drop 8 x) = Some (GObj s1)"
    using a t by (auto simp: x(2) resolveRef_def map_member_def Let_def split: option.splits gval.splits)
  ultimately show "refers defs s s1" unfolding refers_def using x(1) t(2) by metis
next
  assume "refers defs s s1"
  then obtain name ds where r: "mget s ''$ref'' = Some (GStr (''#/$defs/'' @ name))" "name \<noteq> []" "defs = Some ds" "mget ds name = Some (GObj s1)"
    by (auto simp: refers_def)
  then show "string_member ''$ref'' s \<noteq> [] \<and> resolveRef (string_member ''$ref'' s) defs = Some s1"
    by (simp add: string_member_def resolveRef_def map_member_def)
qed

lemma refers_unique: "refers defs s a \<Longrightarrow> refers defs s b \<Longrightarrow> a = b"
  unfolding ref_code [symmetric] by simp

lemma resolve_hop: "refers defs s s1 \<Longrightarrow> resolve_loop defs (Suc n) s = resolve_loop defs n s1"
  unfolding ref_code [symmetric] by (simp add: Let_def)

lemma resolve_stop: "\<not> (\<exists>s1. refers defs s s1) \<Longrightarrow> resolve_loop defs n s = s"
  by (cases n) (auto simp: Let_def ref_code [symmetric] split: option.splits)

lemma resolve_loop_ends:
  assumes "\<And>t u. (refers defs ^^ n) s t \<Longrightarrow> \<not> refers defs t u"
  shows "(refers defs)\<^sup>*\<^sup>* s (resolve_loop defs n s) \<and> \<not> (\<exists>u. refers defs (resolve_loop defs n s) u)"
  using assms
proof (induction n arbitrary: s)
  case (Suc n)
  show ?case
  proof (cases "\<exists>s1. refers defs s s1")
    case True
    then obtain s1 where s1: "refers defs s s1" by blast
    then have "\<And>t u. (refers defs ^^ n) s1 t \<Longrightarrow> \<not> refers defs t u" using Suc.prems relpowp_Suc_I2 by metis
    from Suc.IH [OF this] s1 show ?thesis
      unfolding resolve_hop [OF s1] by (meson converse_rtranclp_into_rtranclp)
  qed (simp add: resolve_stop del: resolve_loop.simps)
qed auto

lemma resolveSchema_ends:
  "short_refs defs depth \<Longrightarrow> (refers defs)\<^sup>*\<^sup>* s (resolveSchema s defs depth) \<and> \<not> (\<exists>u. refers defs (resolveSchema s defs depth) u)"
  unfolding resolveSchema_def short_refs_def by (rule resolve_loop_ends) blast

lemma sub_refs: "(refers defs)\<^sup>*\<^sup>* m t \<Longrightarrow> subschema defs s m \<Longrightarrow> subschema defs s t"
  by (induction rule: rtranclp_induct) (auto intro: sub_ref)

lemma sub_trans: "subschema defs m t \<Longrightarrow> subschema defs s m \<Longrightarrow> subschema defs s t"
  by (induction rule: subschema.induct) (auto intro: subschema.intros)

text \<open>A supported reference demands what its target does.\<close>

lemma supportedD:
  assumes "supported L defs U m"
  shows "mget m ''type'' = None \<Longrightarrow> k \<in> set typed_keywords \<Longrightarrow> mget m k = None"
    and "mget m ''type'' = Some t \<Longrightarrow> t \<in> GStr ` set known_types"
    and "mget m ''additionalProperties'' = Some x \<Longrightarrow> mget m ''properties'' \<noteq> None"
    and "mget m ''properties'' = Some y \<Longrightarrow> \<exists>props. y = GObj props \<and> (\<forall>(f, p) \<in> set props. \<exists>q. p = GObj q)"
    and "mget m ''items'' = Some z \<Longrightarrow> \<exists>q. z = GObj q"
    and "l \<in> {''minLength'', ''maxLength'', ''minItems'', ''maxItems''} \<Longrightarrow> mget m l = Some (GNum n) \<Longrightarrow> n \<in> \<int> \<and> \<bar>n\<bar> < 2 ^ 63"
    and "mget m ''enum'' = Some (GArr xs) \<Longrightarrow> a \<in> set xs \<Longrightarrow> u \<in> U \<Longrightarrow> vl_fmt L a = vl_fmt L u \<longleftrightarrow> json_same a u"
    and "refers defs m s1 \<Longrightarrow> mget m ''type'' = None \<and> mget m ''enum'' = None"
proof -
  note h = assms [unfolded supported_def]
  note h2 = h [THEN conjunct2] note h3 = h2 [THEN conjunct2] note h4 = h3 [THEN conjunct2] note h5 = h4 [THEN conjunct2]
  note h6 = h5 [THEN conjunct2] note h7 = h6 [THEN conjunct2]
  show "mget m ''type'' = None \<Longrightarrow> k \<in> set typed_keywords \<Longrightarrow> mget m k = None" using h [THEN conjunct1] by simp
  show "mget m ''type'' = Some t \<Longrightarrow> t \<in> GStr ` set known_types" using h [THEN conjunct1] by simp
  show "mget m ''additionalProperties'' = Some x \<Longrightarrow> mget m ''properties'' \<noteq> None" using h2 [THEN conjunct1] by simp
  show "mget m ''properties'' = Some y \<Longrightarrow> \<exists>props. y = GObj props \<and> (\<forall>(f, p) \<in> set props. \<exists>q. p = GObj q)" by (rule h3 [THEN conjunct1, rule_format])
  show "mget m ''items'' = Some z \<Longrightarrow> \<exists>q. z = GObj q" by (rule h4 [THEN conjunct1, rule_format])
  show "l \<in> {''minLength'', ''maxLength'', ''minItems'', ''maxItems''} \<Longrightarrow> mget m l = Some (GNum n) \<Longrightarrow> n \<in> \<int> \<and> \<bar>n\<bar> < 2 ^ 63"
    by (rule h5 [THEN conjunct1, rule_format])
  show "mget m ''enum'' = Some (GArr xs) \<Longrightarrow> a \<in> set xs \<Longrightarrow> u \<in> U \<Longrightarrow> vl_fmt L a = vl_fmt L u \<longleftrightarrow> json_same a u"
    by (rule h6 [THEN conjunct1, rule_format])
  show "refers defs m s1 \<Longrightarrow> mget m ''type'' = None \<and> mget m ''enum'' = None" using h7 by (rule mp) (rule exI)
qed

lemma plain_own:
  assumes "mget s ''type'' = None" "mget s ''enum'' = None" "\<forall>k \<in> set typed_keywords. mget s k = None"
  shows "own_ok L s v" "item_rule s = Anything" "member_rule s f = Anything"
  using assms(3) by (simp_all add: own_ok_def enum_ok_def type_ok_def string_ok_def number_ok_def array_ok_def required_ok_def limit_ok_def
      item_rule_def member_rule_def assms(1,2) typed_keywords_def)

lemma conforms_ref:
  assumes "refers defs s s1" and "supported L defs U s"
  shows "conforms L defs s v \<longleftrightarrow> conforms L defs s1 v"
proof -
  have t: "mget s ''type'' = None" "mget s ''enum'' = None" using supportedD(8) [OF assms(2,1)] by auto
  have k: "\<forall>k \<in> set typed_keywords. mget s k = None" using supportedD(1) [OF assms(2) t(1)] by blast
  show ?thesis by (subst conforms.simps) (use plain_own [OF t k] assms(1) in \<open>auto dest: refers_unique\<close>)
qed

lemma conforms_refs:
  assumes "(refers defs)\<^sup>*\<^sup>* s t" and "\<And>m. subschema defs s m \<Longrightarrow> supported L defs U m"
  shows "conforms L defs s v \<longleftrightarrow> conforms L defs t v"
  using assms(1)
proof (induction rule: rtranclp_induct)
  case (step t u)
  then have "supported L defs U t" using assms(2) sub_refs [OF step.hyps(1) sub_self] by blast
  then show ?case using step.IH conforms_ref [OF step.hyps(2)] by blast
qed simp

section \<open>Exactness\<close>

lemma enum_exact:
  assumes "supported L defs U s" and "v \<in> U"
  shows "validateEnum L s v path = [] \<longleftrightarrow> enum_ok s v"
proof (cases "\<exists>xs. mget s ''enum'' = Some (GArr xs)")
  case True
  then obtain xs where xs: "mget s ''enum'' = Some (GArr xs)" by blast
  have "jsonEqual L a v \<longleftrightarrow> json_same a v" if "a \<in> set xs" for a
    using supportedD(7) [OF assms(1) xs that assms(2)] by (cases a; cases v) (auto simp: jsonEqual_def same_scalar)
  then show ?thesis by (auto simp: validateEnum_def enum_ok_def xs list_ex_iff)
qed (auto simp: validateEnum_def enum_ok_def split: option.splits gval.splits)

lemma limit_exact:
  "(case toFloat64Value (mget s kw) of None \<Rightarrow> [] | Some v \<Rightarrow> if bad v then [e v] else []) = [] \<longleftrightarrow> limit_ok s kw (\<lambda>v. \<not> bad v)"
  by (auto simp: limit_ok_def toFloat64Value_def split: option.splits gval.splits)

lemma integer_exact: "n = Trunc n \<longleftrightarrow> n \<in> \<int>"
  by (auto simp: Trunc_def Ints_def)

lemma go_int_limit:
  assumes "n \<in> \<int>" "\<bar>n\<bar> < 2 ^ 63"
  shows "of_int (go_int L n) = n"
proof -
  have t: "Trunc n = n" using integer_exact assms(1) by metis
  have "- (2 ^ 63) \<le> n \<and> n < 2 ^ 63" using assms(2) by linarith
  then show ?thesis using assms(1) by (auto simp: go_int_def t Ints_def)
qed

lemma limit_int:
  assumes "supported L defs U s" "kw \<in> {''minLength'', ''maxLength'', ''minItems'', ''maxItems''}"
  shows "limit_ok s kw (\<lambda>v. \<not> int n < go_int L v) \<longleftrightarrow> limit_ok s kw (\<lambda>v. v \<le> of_nat n)"
    and "limit_ok s kw (\<lambda>v. \<not> go_int L v < int n) \<longleftrightarrow> limit_ok s kw (\<lambda>v. of_nat n \<le> v)"
proof -
  have g: "of_int (go_int L v) = v" if "mget s kw = Some (GNum v)" for v
    using supportedD(6) [OF assms that] go_int_limit by blast
  have "(\<not> int n < go_int L v) = (v \<le> of_nat n)" "(\<not> go_int L v < int n) = (of_nat n \<le> v)" if "mget s kw = Some (GNum v)" for v
  proof -
    have "int n < go_int L v \<longleftrightarrow> (of_nat n :: rat) < v" "go_int L v < int n \<longleftrightarrow> v < (of_nat n :: rat)"
      by (metis g [OF that] of_int_less_iff of_int_of_nat_eq)+
    then show "(\<not> int n < go_int L v) = (v \<le> of_nat n)" "(\<not> go_int L v < int n) = (of_nat n \<le> v)" by auto
  qed
  then show "limit_ok s kw (\<lambda>v. \<not> int n < go_int L v) \<longleftrightarrow> limit_ok s kw (\<lambda>v. v \<le> of_nat n)"
    "limit_ok s kw (\<lambda>v. \<not> go_int L v < int n) \<longleftrightarrow> limit_ok s kw (\<lambda>v. of_nat n \<le> v)"
    unfolding limit_ok_def by blast+
qed

lemma string_exact:
  assumes "supported L defs U s"
  shows "validateStringConstraints L s x path = [] \<longleftrightarrow> string_ok L s x"
proof -
  have p: "(string_member ''pattern'' s \<noteq> [] \<longrightarrow> (\<exists>re. vl_compile L (string_member ''pattern'' s) = Inr re \<and> re x))
    \<longleftrightarrow> (\<forall>p. mget s ''pattern'' = Some (GStr p) \<and> p \<noteq> [] \<longrightarrow> (\<exists>re. vl_compile L p = Inr re \<and> re x))"
    by (auto simp: string_member_def split: option.splits gval.splits)
  show ?thesis unfolding string_ok_def p [symmetric]
    using limit_int [OF assms, of "''minLength''" "length (runes x)"] limit_int [OF assms, of "''maxLength''" "length (runes x)"]
    by (auto simp: validateStringConstraints_def Let_def limit_exact split: sum.splits if_splits)
qed

lemma numeric_exact: "validateNumericConstraints L s n path = [] \<longleftrightarrow> number_ok s n"
  by (simp add: validateNumericConstraints_def numeric_bound_def limit_exact number_ok_def not_less not_le)

lemma unique_exact:
  "unique_loop L path i seen xs = [] \<longleftrightarrow> distinct (map (vl_marshal L) xs) \<and> (\<forall>x \<in> set xs. mget seen (vl_marshal L x) = None)"
proof (induction L path i seen xs rule: unique_loop.induct)
  case (2 L path i seen x xs)
  then show ?case by (cases "mget seen (vl_marshal L x)") (auto simp: Let_def mget_mput image_iff split: if_splits)
qed simp

lemma marshal_distinct:
  assumes "\<And>a b. a \<in> set xs \<Longrightarrow> b \<in> set xs \<Longrightarrow> vl_marshal L a = vl_marshal L b \<longleftrightarrow> json_same a b"
  shows "distinct (map (vl_marshal L) xs) \<longleftrightarrow> sorted_wrt (\<lambda>a b. \<not> json_same a b) xs"
  using assms by (induction xs) auto

lemma array_exact:
  assumes "supported L defs U s" and "\<And>a b. a \<in> set xs \<Longrightarrow> b \<in> set xs \<Longrightarrow> vl_marshal L a = vl_marshal L b \<longleftrightarrow> json_same a b"
  shows "array_constraints L s xs path = [] \<longleftrightarrow> array_ok s xs"
  using limit_int [OF assms(1), of "''minItems''" "length xs"] limit_int [OF assms(1), of "''maxItems''" "length xs"]
  by (auto simp: array_constraints_def array_ok_def Let_def limit_exact validateUniqueItems_def unique_exact marshal_distinct [OF assms(2)]
      split: option.splits gval.splits bool.splits)

lemma concat_ifs: "concat (map (\<lambda>x. if P x then [f x] else []) xs) = [] \<longleftrightarrow> (\<forall>x \<in> set xs. \<not> P x)"
  by (induction xs) auto

lemma required_exact: "missing_required s (Some d) prefix = [] \<longleftrightarrow> required_ok s d"
proof (cases "mget s ''required''")
  case (Some req)
  have "field \<in> set (toStringSlice req) \<longleftrightarrow> (\<exists>xs. req = GArr xs \<and> GStr field \<in> set xs)" for field
    by (auto simp: toStringSlice_def split: gval.splits)
  then show ?thesis unfolding missing_required_def Some option.case concat_ifs
    by (auto simp: required_ok_def Some mget_None_iff)
qed (simp add: missing_required_def required_ok_def)

lemma concat_pairs: "concat (map g kvs) = [] \<longleftrightarrow> (\<forall>f v. (f, v) \<in> set kvs \<longrightarrow> g (f, v) = [])"
  by (induction kvs) auto

text \<open>The members of an object and the elements of an array, under a resolved schema.\<close>

lemma object_agrees:
  assumes "short_refs defs depth" and "supported L defs U s" and "\<not> (\<exists>u. refers defs s u)"
    and "\<And>f u p path. (f, u) \<in> set kvs \<Longrightarrow> subschema defs s p \<Longrightarrow> validateValue L p u path defs depth = [] \<longleftrightarrow> conforms L defs p u"
    and "\<And>f u p. (f, u) \<in> set kvs \<Longrightarrow> subschema defs s p \<Longrightarrow> conforms L defs (resolveSchema p defs depth) u \<longleftrightarrow> conforms L defs p u"
  shows "validateObject L s (Some kvs) prefix defs depth = [] \<longleftrightarrow> required_ok s kvs \<and>
    (\<forall>f u. (f, u) \<in> set kvs \<longrightarrow> member_rule s f \<noteq> Forbidden \<and> (\<forall>s1. member_rule s f = Schema s1 \<longrightarrow> conforms L defs s1 u))"
proof -
  have r: "resolveSchema s defs depth = s" using resolve_stop [OF assms(3)] by (simp add: resolveSchema_def)
  have res: "validateValue L (resolveSchema p defs depth) u path defs depth = [] \<longleftrightarrow> conforms L defs p u"
    if "(f, u) \<in> set kvs" "subschema defs s p" for f u p path
    using assms(4) [OF that(1) sub_refs [OF resolveSchema_ends [OF assms(1), THEN conjunct1] that(2)]] assms(5) [OF that] by blast
  show ?thesis
  proof (cases "mget s ''properties''")
    case None
    then have "mget s ''additionalProperties'' = None" using supportedD(3) [OF assms(2)] by (cases "mget s ''additionalProperties''") auto
    then have "member_rule s f = Anything" for f by (simp add: member_rule_def None)
    then show ?thesis by (simp add: validateObject.simps [of L s] r Let_def map_member_def None required_exact)
  next
    case (Some x)
    then obtain props where x: "x = GObj props" and all: "\<forall>(f, p) \<in> set props. \<exists>q. p = GObj q" using supportedD(4) [OF assms(2)] by blast
    let ?errs = "\<lambda>(f, v). case mget props f of
          None \<Rightarrow> if mget s ''additionalProperties'' = Some (GBool False) then [qualifyField prefix f @ '': additional property not allowed'']
                  else (case map_option (\<lambda>s. resolveSchema s defs depth) (map_member ''additionalProperties'' s) of None \<Rightarrow> []
                        | Some a \<Rightarrow> validateValue L a v (qualifyField prefix f) defs depth)
        | Some (GObj ps) \<Rightarrow> validateValue L (resolveSchema ps defs depth) v (qualifyField prefix f) defs depth
        | Some _ \<Rightarrow> []"
    have code: "validateObject L s (Some kvs) prefix defs depth = missing_required s (Some kvs) prefix @ concat (map ?errs kvs)"
      unfolding validateObject.simps [of L s] r Let_def by (simp add: map_member_def Some x)
    have member: "?errs (f, u) = [] \<longleftrightarrow> member_rule s f \<noteq> Forbidden \<and> (\<forall>s1. member_rule s f = Schema s1 \<longrightarrow> conforms L defs s1 u)"
      if fu: "(f, u) \<in> set kvs" for f u
    proof (cases "mget props f")
      case out: None
      note ps = Some
      show ?thesis
      proof (cases "mget s ''additionalProperties''")
        case (Some ap)
        then have rule: "member_rule s f = schema_of ap" by (simp add: member_rule_def ps x out)
        show ?thesis
        proof (cases ap)
          case (GObj p)
          then show ?thesis using res [OF fu sub_extra [OF sub_self]] Some out by (simp add: rule schema_of_def map_member_def)
        qed (use Some out in \<open>auto simp: rule schema_of_def map_member_def split: bool.splits\<close>)
      qed (simp add: member_rule_def ps x out map_member_def)
    next
      case (Some p)
      then obtain q where q: "p = GObj q" using all by (force dest: mget_SomeD)
      then have "subschema defs s q" using sub_prop [OF sub_self, of s props f q] Some \<open>mget s ''properties'' = Some x\<close> x by simp
      from res [OF fu this] Some \<open>mget s ''properties'' = Some x\<close> show ?thesis by (simp add: member_rule_def x q schema_of_def)
    qed
    have "concat (map ?errs kvs) = [] \<longleftrightarrow> (\<forall>f v. (f, v) \<in> set kvs \<longrightarrow> ?errs (f, v) = [])"
      by (rule concat_pairs)
    then show ?thesis unfolding code using member by (simp only: append_is_Nil_conv required_exact) blast
  qed
qed

lemma array_agrees:
  assumes "short_refs defs depth" and "supported L defs U s"
    and "\<And>x p path. x \<in> set xs \<Longrightarrow> subschema defs s p \<Longrightarrow> validateValue L p x path defs depth = [] \<longleftrightarrow> conforms L defs p x"
    and "\<And>x p. x \<in> set xs \<Longrightarrow> subschema defs s p \<Longrightarrow> conforms L defs (resolveSchema p defs depth) x \<longleftrightarrow> conforms L defs p x"
    and "\<And>a b. a \<in> set xs \<Longrightarrow> b \<in> set xs \<Longrightarrow> vl_marshal L a = vl_marshal L b \<longleftrightarrow> json_same a b"
  shows "validateArray L s xs path defs depth = [] \<longleftrightarrow> array_ok s xs \<and>
      (\<forall>x. x \<in> set xs \<longrightarrow> item_rule s \<noteq> Forbidden \<and> (\<forall>s1. item_rule s = Schema s1 \<longrightarrow> conforms L defs s1 x))"
proof (cases "mget s ''items''")
  case None
  then show ?thesis using array_exact [OF assms(2,5)] by (simp add: validateArray.simps map_member_def item_rule_def)
next
  case (Some z)
  then obtain q where z: "z = GObj q" using supportedD(5) [OF assms(2)] by blast
  then have sq: "subschema defs s q" using sub_items [OF sub_self] Some by blast
  have res: "validateValue L (resolveSchema q defs depth) x path defs depth = [] \<longleftrightarrow> conforms L defs q x" if "x \<in> set xs" for x path
    using assms(3) [OF that sub_refs [OF resolveSchema_ends [OF assms(1), THEN conjunct1] sq]] assms(4) [OF that sq] by blast
  have "(\<forall>p \<in> set (enumerate 0 xs). validateValue L (resolveSchema q defs depth) (snd p) (path @ ''['' @ Itoa (int (fst p)) @ '']'') defs depth = [])
    \<longleftrightarrow> (\<forall>p \<in> set (enumerate 0 xs). conforms L defs q (snd p))"
    by (intro ball_cong refl res) (auto dest: enumerate_mem)
  also have "\<dots> \<longleftrightarrow> (\<forall>x \<in> snd ` set (enumerate 0 xs). conforms L defs q x)" by simp
  also have "snd ` set (enumerate 0 xs) = set xs" by (metis list.set_map map_snd_enumerate)
  finally show ?thesis using Some z array_exact [OF assms(2,5)]
    by (auto simp: validateArray.simps map_member_def item_rule_def schema_of_def Let_def split_beta)
qed

lemma supported_sub:
  assumes "supported_for L defs s v" and "subschema defs s p" and "subvalue v u"
  shows "supported_for L defs p u"
proof -
  have sv: "subvalue v w" if "subvalue u w" for w using assms(3) that by (induction) (auto intro: subvalue.intros)
  have "supported L defs {w. subvalue u w} m" if "subschema defs p m" for m
  proof -
    have "supported L defs {w. subvalue v w} m" using assms(1) sub_trans [OF that assms(2)] by (simp add: supported_for_def)
    then show ?thesis using sv unfolding supported_def by auto
  qed
  then show ?thesis using assms(1) sv unfolding supported_for_def by blast
qed

lemma supported_resolve:
  assumes "short_refs defs depth" and "supported_for L defs s v"
  shows "conforms L defs (resolveSchema s defs depth) v \<longleftrightarrow> conforms L defs s v"
  using conforms_refs [OF resolveSchema_ends [OF assms(1), THEN conjunct1], of s L "{u. subvalue v u}" v] assms(2) by (auto simp: supported_for_def)

lemma value_agrees:
  assumes "short_refs defs depth" and "supported_for L defs s0 v"
  shows "validateValue L s0 v path defs depth = [] \<longleftrightarrow> conforms L defs s0 v"
  using assms(2)
proof (induction "size v" arbitrary: s0 v path rule: less_induct)
  case less
  let ?s = "resolveSchema s0 defs depth"
  have ends: "\<not> (\<exists>u. refers defs ?s u)" and sub: "subschema defs s0 ?s"
    using resolveSchema_ends [OF assms(1), of s0] sub_refs sub_self by blast+
  have sup: "supported L defs {u. subvalue v u} ?s" using less.prems sub by (simp add: supported_for_def)
  have below: "supported_for L defs p u" if "subvalue v u" "subschema defs ?s p" for p u
    using supported_sub [OF less.prems sub_trans [OF that(2) sub] that(1)] .
  have obj: "validateObject L ?s (Some kvs) path defs depth = [] \<longleftrightarrow> required_ok ?s kvs \<and>
      (\<forall>f u. (f, u) \<in> set kvs \<longrightarrow> member_rule ?s f \<noteq> Forbidden \<and> (\<forall>s1. member_rule ?s f = Schema s1 \<longrightarrow> conforms L defs s1 u))"
    if v: "v = GObj kvs" for kvs
  proof (rule object_agrees [OF assms(1) sup ends])
    fix f u p assume fu: "(f, u) \<in> set kvs" and p: "subschema defs ?s p"
    then have b: "supported_for L defs p u" using below v val_member [OF _ val_self] by blast
    show "validateValue L p u path defs depth = [] \<longleftrightarrow> conforms L defs p u" for path
      using less.hyps [OF _ b] size_member [OF fu] v by blast
    show "conforms L defs (resolveSchema p defs depth) u \<longleftrightarrow> conforms L defs p u" by (rule supported_resolve [OF assms(1) b])
  qed
  have arr: "validateArray L ?s xs path defs depth = [] \<longleftrightarrow> array_ok ?s xs \<and>
      (\<forall>x. x \<in> set xs \<longrightarrow> item_rule ?s \<noteq> Forbidden \<and> (\<forall>s1. item_rule ?s = Schema s1 \<longrightarrow> conforms L defs s1 x))"
    if v: "v = GArr xs" for xs
  proof (rule array_agrees [OF assms(1) sup])
    fix x p assume x: "x \<in> set xs" and p: "subschema defs ?s p"
    then have b: "supported_for L defs p x" using below v val_item [OF _ val_self] by blast
    show "validateValue L p x path defs depth = [] \<longleftrightarrow> conforms L defs p x" for path
      using less.hyps [OF _ b] size_element [OF x] v by blast
    show "conforms L defs (resolveSchema p defs depth) x \<longleftrightarrow> conforms L defs p x" by (rule supported_resolve [OF assms(1) b])
  next
    fix a b assume "a \<in> set xs" "b \<in> set xs"
    then have "subvalue v a" "subvalue v b" using v val_item [OF _ val_self] by blast+
    then show "vl_marshal L a = vl_marshal L b \<longleftrightarrow> json_same a b" using less.prems by (simp add: supported_for_def)
  qed
  have en: "validateEnum L ?s v path = [] \<longleftrightarrow> enum_ok ?s v" by (rule enum_exact [OF sup]) (simp add: val_self)
  have spec: "conforms L defs ?s v \<longleftrightarrow> own_ok L ?s v
    \<and> (\<forall>xs x. v = GArr xs \<longrightarrow> x \<in> set xs \<longrightarrow> item_rule ?s \<noteq> Forbidden \<and> (\<forall>s1. item_rule ?s = Schema s1 \<longrightarrow> conforms L defs s1 x))
    \<and> (\<forall>kvs f u. v = GObj kvs \<longrightarrow> (f, u) \<in> set kvs \<longrightarrow>
         member_rule ?s f \<noteq> Forbidden \<and> (\<forall>s1. member_rule ?s f = Schema s1 \<longrightarrow> conforms L defs s1 u))"
    using ends by (subst conforms.simps) auto
  have "validateValue L s0 v path defs depth = [] \<longleftrightarrow> conforms L defs ?s v"
  proof (cases "mget ?s ''type''")
    case None
    then have "\<forall>k \<in> set typed_keywords. mget ?s k = None" using supportedD(1) [OF sup] by blast
    then have "item_rule ?s = Anything" "member_rule ?s f = Anything" "own_ok L ?s v \<longleftrightarrow> enum_ok ?s v" for f
      by (simp_all add: own_ok_def type_ok_def string_ok_def number_ok_def array_ok_def required_ok_def limit_ok_def item_rule_def member_rule_def
          None typed_keywords_def)
    then show ?thesis unfolding spec validateValue.simps [of L s0] Let_def by (simp add: en string_member_def None)
  next
    case (Some t)
    then obtain n where t: "t = GStr n" "n \<in> set known_types" using supportedD(2) [OF sup] by blast
    have ty: "string_member ''type'' ?s = n" by (simp add: string_member_def Some t)
    have ty': "type_ok ?s v \<longleftrightarrow> has_type n v" by (simp add: type_ok_def Some t)
    have n: "n = ''string'' \<or> n = ''integer'' \<or> n = ''number'' \<or> n = ''boolean'' \<or> n = ''object'' \<or> n = ''array''"
      using t(2) by (simp add: known_types_def)
    show ?thesis
    proof (cases "enum_ok ?s v")
      case False
      then show ?thesis unfolding spec own_ok_def validateValue.simps [of L s0] Let_def using en by simp
    next
      case True
      then have code: "validateValue L s0 v path defs depth = [] \<longleftrightarrow>
          (case v of GStr x \<Rightarrow> n = ''string'' \<and> validateStringConstraints L ?s x path = []
           | GNum m \<Rightarrow> (n = ''number'' \<or> n = ''integer'' \<and> m = Trunc m) \<and> validateNumericConstraints L ?s m path = []
           | GBool _ \<Rightarrow> n = ''boolean''
           | GObj kvs \<Rightarrow> n = ''object'' \<and> validateObject L ?s (Some kvs) path defs depth = []
           | GArr xs \<Rightarrow> n = ''array'' \<and> validateArray L ?s xs path defs depth = []
           | GNull \<Rightarrow> False)"
        unfolding validateValue.simps [of L s0] Let_def ty using n en
        by (cases v) (elim disjE; simp add: toFloat64_def)+
      have "n \<noteq> ''null''" using n by auto
      then show ?thesis unfolding code spec own_ok_def ty' using True
        by (cases v) (simp_all add: string_exact [OF sup] numeric_exact obj arr integer_exact)
    qed
  qed
  then show ?case using supported_resolve [OF assms(1) less.prems] by blast
qed

section \<open>Properties\<close>

text \<open>C24: Validation is exact on the schemas that the code supports. Where no chain of references is longer than the budget of the code and
  every schema that the validation can come to is supported, a value
  passes without an error if and only if it conforms to the schema: it is one of the enumerated
  values, has the type, satisfies the bounds and patterns, its required members are there and no forbidden ones, and
  its members and elements conform in turn, references followed.\<close>

theorem validation_exact:
  assumes "short_refs defs depth" and "supported_for L defs s v"
  shows "validateValue L s v path defs depth = [] \<longleftrightarrow> conforms L defs s v"
  by (rule value_agrees [OF assms])

text \<open>References between definitions that are not references themselves are within any budget.\<close>

lemma short_refs_flat:
  assumes "\<forall>(k, v) \<in> set ds. \<forall>m. v = GObj m \<longrightarrow> mget m ''$ref'' = None"
  shows "short_refs (Some ds) (Suc n)"
  unfolding short_refs_def
proof (intro allI impI)
  fix s t u assume "(refers (Some ds) ^^ Suc n) s t"
  then obtain r where "refers (Some ds) r t" by auto
  then obtain name where "mget ds name = Some (GObj t)" by (auto simp: refers_def)
  with assms have "mget t ''$ref'' = None" by (auto dest: mget_SomeD)
  then show "\<not> refers (Some ds) t u" by (simp add: refers_def)
qed

definition demo_lib :: vlib where
  "demo_lib = \<lparr> vl_fmt = jsonTypeName, vl_quote = id, vl_marshal = jsonTypeName, vl_compile = (\<lambda>_. Inr (\<lambda>_. True)), vl_int = (\<lambda>_. 0) \<rparr>"

definition demo_defs_map :: gobj where
  "demo_defs_map = [(''pos'', GObj [(''type'', GStr ''integer''), (''minimum'', GNum 1), (''enum'', GArr [GStr ''a'', GNum 0])])]"

definition pos_schema :: gobj where
  "pos_schema = [(''type'', GStr ''integer''), (''minimum'', GNum 1), (''enum'', GArr [GStr ''a'', GNum 0])]"

lemma demo_short: "short_refs (Some demo_defs_map) (Suc n)"
  by (rule short_refs_flat) (simp add: demo_defs_map_def mget_def)

lemma demo_subschemas:
  "subschema (Some demo_defs_map) [(''$ref'', GStr ''#/$defs/pos'')] m \<Longrightarrow> m = [(''$ref'', GStr ''#/$defs/pos'')] \<or> m = pos_schema"
  by (induction rule: subschema.induct) (auto simp: mget_def refers_def demo_defs_map_def pos_schema_def split: if_splits)

lemma demo_supported: "supported_for demo_lib (Some demo_defs_map) [(''$ref'', GStr ''#/$defs/pos'')] (GNum 0)"
proof -
  have val: "{u. subvalue (GNum 0) u} = {GNum 0}" by (auto elim: subvalue.cases intro: val_self)
  have "supported demo_lib (Some demo_defs_map) {GNum 0} [(''$ref'', GStr ''#/$defs/pos'')]" "supported demo_lib (Some demo_defs_map) {GNum 0} pos_schema"
    by (simp_all add: supported_def pos_schema_def mget_def typed_keywords_def known_types_def refers_def demo_lib_def same_scalar)
  moreover have "subvalue (GNum 0) u \<longleftrightarrow> u = GNum 0" for u using val by blast
  ultimately show ?thesis using demo_subschemas by (auto simp: supported_for_def val same_scalar)
qed

text \<open>Zero is enumerated, but below the minimum.\<close>

theorem validation_exact_witness:
  "\<not> conforms demo_lib (Some demo_defs_map) [(''$ref'', GStr ''#/$defs/pos'')] (GNum 0)"
proof -
  have "validateValue demo_lib [(''$ref'', GStr ''#/$defs/pos'')] (GNum 0) [] (Some demo_defs_map) (Suc 0) \<noteq> []"
    by (simp add: validateValue.simps resolveSchema_def string_member_def map_member_def resolveRef_def demo_defs_map_def mget_def
        validateEnum_def jsonEqual_def toFloat64_def Trunc_def validateNumericConstraints_def numeric_bound_def toFloat64Value_def Let_def)
  then show ?thesis using validation_exact [OF demo_short demo_supported] by blast
qed

text \<open>The middleware is a gate. With validation on and a schema for objects, the handler is reached with an input that decodes to
  an object exactly when that object conforms; otherwise the call fails and nothing else happens.\<close>

theorem validation_gate:
  assumes "normalizeSchema parse raw = Some schema" and "short_refs (extractDefs schema) maxRefDepth"
    and "supported_for L (extractDefs schema) schema (GObj kvs)" and "mget schema ''type'' = Some (GStr ''object'')" and "mget schema ''enum'' = None"
    and "input \<noteq> []" and "unmarshal_map parse input = Inr (Some kvs)"
  shows "Validation_call L parse False (Some raw) input next s =
    (if conforms L (extractDefs schema) schema (GObj kvs) then next s
     else (Err (ErrNew (''validation failed: '' @ join ''; '' (validateObject L schema (Some kvs) [] (extractDefs schema) maxRefDepth))), s))"
proof -
  let ?defs = "extractDefs schema"
  have "supported L ?defs {u. subvalue (GObj kvs) u} schema" using assms(3) sub_self by (auto simp: supported_for_def)
  then have "\<not> (\<exists>u. refers ?defs schema u)" using supportedD(8) assms(4) by fastforce
  then have r: "resolveSchema schema ?defs maxRefDepth = schema" by (simp add: resolveSchema_def resolve_stop)
  have "validateValue L schema (GObj kvs) [] ?defs maxRefDepth = validateObject L schema (Some kvs) [] ?defs maxRefDepth"
    unfolding validateValue.simps [of L schema] r by (simp add: Let_def validateEnum_def assms(5) string_member_def assms(4))
  then have "validateObject L schema (Some kvs) [] ?defs maxRefDepth = [] \<longleftrightarrow> conforms L ?defs schema (GObj kvs)"
    using value_agrees [OF assms(2,3)] by metis
  then show ?thesis using assms(1,6,7) by (simp add: Validation_call_def Let_def)
qed

text \<open>Without \<open>properties\<close> the code returns before it looks at \<open>additionalProperties\<close>: a schema that forbids
  all members accepts every object, none of which but the empty one conforms.\<close>

lemma additional_properties_ignored:
  "validateValue L [(''type'', GStr ''object''), (''additionalProperties'', GBool False)] (GObj d) path defs depth = []
   \<and> (d \<noteq> [] \<longrightarrow> \<not> conforms L defs [(''type'', GStr ''object''), (''additionalProperties'', GBool False)] (GObj d))"
proof -
  let ?s = "[(''type'', GStr ''object''), (''additionalProperties'', GBool False)]"
  have "resolveSchema ?s defs depth = ?s"
    unfolding resolveSchema_def by (rule resolve_stop) (simp add: refers_def mget_def)
  then have 1: "validateValue L ?s (GObj d) path defs depth = []"
    by (simp add: validateValue.simps [of L ?s] validateObject.simps Let_def missing_required_def map_member_def validateEnum_def string_member_def mget_def)
  have rule: "member_rule ?s f = Forbidden" for f by (simp add: member_rule_def mget_def schema_of_def)
  have 2: "\<not> conforms L defs ?s (GObj d)" if "d \<noteq> []"
  proof
    assume c: "conforms L defs ?s (GObj d)"
    obtain f u ds where "d = (f, u) # ds" using \<open>d \<noteq> []\<close> by (cases d) auto
    with c show False by (cases rule: conforms.cases) (use rule in auto)
  qed
  from 1 2 show ?thesis by blast
qed

text \<open>The keywords of a type count only when \<open>type\<close> names it, and the type of null is not known: a minimum without a type
  accepts every number, and a schema of type null accepts every value.\<close>

lemma untyped_keywords_ignored:
  "validateValue L [(''minimum'', GNum m)] v path defs depth = []" "validateValue L [(''type'', GStr ''null'')] v path defs depth = []"
proof -
  have "resolveSchema [(''minimum'', GNum m)] defs depth = [(''minimum'', GNum m)]" "resolveSchema [(''type'', GStr ''null'')] defs depth = [(''type'', GStr ''null'')]"
    unfolding resolveSchema_def by (rule resolve_stop; simp add: refers_def mget_def)+
  then show "validateValue L [(''minimum'', GNum m)] v path defs depth = []" "validateValue L [(''type'', GStr ''null'')] v path defs depth = []"
    by (simp_all add: validateValue.simps Let_def validateEnum_def string_member_def mget_def)
qed

text \<open>Values of different types are compared by their \<open>%v\<close> text: where a number and a string have the same
  text, an enumeration of the number accepts the string.\<close>

lemma enum_ignores_type:
  "vl_fmt L (GNum n) = vl_fmt L (GStr x) \<Longrightarrow> validateValue L [(''enum'', GArr [GNum n])] (GStr x) path defs depth = []"
proof -
  assume fmt: "vl_fmt L (GNum n) = vl_fmt L (GStr x)"
  have "resolveSchema [(''enum'', GArr [GNum n])] defs depth = [(''enum'', GArr [GNum n])]"
    unfolding resolveSchema_def by (rule resolve_stop) (simp add: refers_def mget_def)
  with fmt show ?thesis by (simp add: validateValue.simps Let_def validateEnum_def mget_def jsonEqual_def string_member_def)
qed

text \<open>The cache of compiled patterns is transparent and bounded. Whatever patterns are asked for, in
  whatever order, each answer is the compiler's, and at most 256 patterns are kept.\<close>

theorem regexp_cache_transparent:
  "fst (fold (\<lambda>p (outs, st). case getRegexp L p st of (r, st') \<Rightarrow> (outs @ [r], st')) patterns ([], [], 0)) = map (vl_compile L) patterns
   \<and> length (fst (snd (fold (\<lambda>p (outs, st). case getRegexp L p st of (r, st') \<Rightarrow> (outs @ [r], st')) patterns ([], [], 0)))) \<le> 256"
proof -
  define ok where "ok = (\<lambda>st :: (string, string \<Rightarrow> bool) gomap \<times> int. (\<forall>p re. mget (fst st) p = Some re \<longrightarrow> vl_compile L p = Inr re)
    \<and> int (length (fst st)) \<le> snd st \<and> snd st \<le> 256)"
  have step: "fst (getRegexp L p st) = vl_compile L p \<and> ok (snd (getRegexp L p st))" if "ok st" for p st
    using that by (cases st)
      (auto simp: ok_def getRegexp_def regexpCacheMax_def mget_mput length_mput split: option.splits sum.splits if_splits)
  have "fst (fold (\<lambda>p (outs, st). case getRegexp L p st of (r, st') \<Rightarrow> (outs @ [r], st')) patterns (outs, st)) = outs @ map (vl_compile L) patterns
      \<and> ok (snd (fold (\<lambda>p (outs, st). case getRegexp L p st of (r, st') \<Rightarrow> (outs @ [r], st')) patterns (outs, st)))" if "ok st" for outs st
    using that
  proof (induction patterns arbitrary: outs st)
    case (Cons p ps)
    show ?case using step [OF Cons.prems, of p] Cons.IH by (simp add: split_beta)
  qed simp
  from this [of "([], 0)" "[]"] show ?thesis by (simp add: ok_def)
qed

end
