(* ===== verification/Client_Errors.thy ===== *)
theory Client_Errors
  imports Client_Breaker Json_Rpc
begin

text \<open>
  Errors of the calls of a client: an error that the server returned (\<open>ResponseError\<close> of
  \<open>client/client.go\<close>) or any other.
\<close>

definition errResponseError :: goerr where "errResponseError = Sentinel ''client: server returned error''"
definition errClientClosed :: goerr where "errClientClosed = Sentinel ''client: closed''"

datatype client_err = ResponseError int string "json option" | OtherErr goerr

text \<open>\<open>errors.Is\<close>, which looks through \<open>Unwrap\<close>.\<close>

fun client_err_is :: "client_err \<Rightarrow> goerr \<Rightarrow> bool" where
  "client_err_is (ResponseError _ _ _) t \<longleftrightarrow> t = errResponseError"
| "client_err_is (OtherErr e) t \<longleftrightarrow> errors_is e t"

fun client_err_text :: "client_err \<Rightarrow> string" where
  "client_err_text (ResponseError code msg _) = ''server error '' @ Itoa code @ '': '' @ msg"
| "client_err_text (OtherErr e) = Error e"

end
