(* ===== verification/Load_Balancer.thy ===== *)
theory Load_Balancer
  imports Client_Errors "HOL-Library.Word"
begin

text \<open>
  \<open>client/loadbalancer.go\<close>: the pool of backends with its strategies, health tracking and failover. A
  backend is known by an address, as the code knows it by its pointer; its client is an argument of
  the operations that call it. A strategy is what the interface \<open>LoadBalancerStrategy\<close> has: a
  function that chooses an index, and a reset, on a state of its own.
\<close>

section \<open>Backends and strategies\<close>

record backend =
  be_addr :: nat
  be_id :: string
  be_healthy :: bool
  be_consecutiveFailures :: int
  be_consecutiveSuccesses :: int
  be_activeConns :: int
  be_totalReqs :: nat
  be_totalErrs :: nat
  be_lastError :: "client_err option"

record 'st strategy =
  sg_Next :: "'st \<Rightarrow> backend list \<Rightarrow> int \<times> 'st"
  sg_Reset :: "'st \<Rightarrow> 'st"

definition RoundRobin_Next :: "64 word \<Rightarrow> backend list \<Rightarrow> int \<times> 64 word" where
  "RoundRobin_Next counter backends =
     (if backends = [] then (- 1, counter) else (int (unat counter mod length backends), counter + 1))"

definition RoundRobinStrategy :: "64 word strategy" where
  "RoundRobinStrategy = \<lparr> sg_Next = RoundRobin_Next, sg_Reset = (\<lambda>_. 0) \<rparr>"

text \<open>The random numbers are a sequence given in advance; the state is the sequence and the position.\<close>

definition Random_Next :: "(nat \<Rightarrow> nat) \<times> nat \<Rightarrow> backend list \<Rightarrow> int \<times> (nat \<Rightarrow> nat) \<times> nat" where
  "Random_Next st backends =
     (if backends = [] then (- 1, st) else (int (fst st (snd st) mod length backends), fst st, Suc (snd st)))"

definition RandomStrategy :: "((nat \<Rightarrow> nat) \<times> nat) strategy" where
  "RandomStrategy = \<lparr> sg_Next = Random_Next, sg_Reset = id \<rparr>"

fun least_loop :: "nat \<Rightarrow> nat \<Rightarrow> int \<Rightarrow> backend list \<Rightarrow> nat" where
  "least_loop i minIdx minConns [] = minIdx"
| "least_loop i minIdx minConns (b # bs) =
     (if be_activeConns b < minConns then least_loop (Suc i) i (be_activeConns b) bs
      else least_loop (Suc i) minIdx minConns bs)"

definition LeastConnections_Next :: "unit \<Rightarrow> backend list \<Rightarrow> int \<times> unit" where
  "LeastConnections_Next st backends =
     (case backends of [] \<Rightarrow> (- 1, st) | b # bs \<Rightarrow> (int (least_loop 1 0 (be_activeConns b) bs), st))"

definition LeastConnectionsStrategy :: "unit strategy" where
  "LeastConnectionsStrategy = \<lparr> sg_Next = LeastConnections_Next, sg_Reset = id \<rparr>"

section \<open>Configuration and construction\<close>

record HealthCheckConfig =
  hc_Interval :: int
  hc_Timeout :: int
  hc_Method :: string
  hc_UnhealthyThreshold :: int
  hc_HealthyThreshold :: int

record LoadBalancerConfig =
  lc_HealthCheck :: "HealthCheckConfig option"
  lc_MaxRetries :: int
  lc_MaxRetriesLimit :: int
  lc_RetryableErrors :: "(client_err option \<Rightarrow> bool) option"
  lc_EnableMetrics :: bool

record LoadBalancerBackend =
  ld_ID :: string
  ld_InitiallyHealthy :: bool

record 'st LoadBalancer =
  lb_config :: LoadBalancerConfig
  lb_backends :: "backend list"
  lb_strategy :: 'st
  lb_initialized :: bool
  lb_closed :: bool
  lb_TotalRequests :: nat
  lb_TotalRetries :: nat
  lb_TotalFailures :: nat
  lb_nextAddr :: nat

definition defaultRetryableErrors :: "client_err option \<Rightarrow> bool" where
  "defaultRetryableErrors err =
     (case err of None \<Rightarrow> False
      | Some e \<Rightarrow>
          if client_err_is e contextCanceled \<or> client_err_is e contextDeadlineExceeded then False
          else if client_err_is e errClientNotInitialized \<or> client_err_is e errClientAlreadyInit then False
          else (case e of ResponseError code _ _ \<Rightarrow> code \<ge> 500 \<and> code < 600 | OtherErr _ \<Rightarrow> True))"

definition retryable :: "LoadBalancerConfig \<Rightarrow> client_err option \<Rightarrow> bool" where
  "retryable cfg = (case lc_RetryableErrors cfg of None \<Rightarrow> defaultRetryableErrors | Some f \<Rightarrow> f)"

text \<open>Both values of \<open>InitiallyHealthy\<close> lead to a healthy backend. The result of \<open>New\<close>, which may fail, is
  an argument.\<close>

definition createBackend :: "LoadBalancerBackend \<Rightarrow> nat \<Rightarrow> nat \<Rightarrow> client_err option \<Rightarrow> client_err + backend" where
  "createBackend desc idx addr newErr =
     (case newErr of
        Some e \<Rightarrow> Inl e
      | None \<Rightarrow> Inr \<lparr> be_addr = addr, be_id = (if ld_ID desc = [] then ''backend-'' @ Itoa (int idx) else ld_ID desc),
          be_healthy = True, be_consecutiveFailures = 0, be_consecutiveSuccesses = 0, be_activeConns = 0,
          be_totalReqs = 0, be_totalErrs = 0, be_lastError = None \<rparr>)"

fun create_all :: "(LoadBalancerBackend \<times> client_err option) list \<Rightarrow> nat \<Rightarrow> client_err + backend list" where
  "create_all [] i = Inr []"
| "create_all ((desc, newErr) # ds) i =
     (case createBackend desc i i newErr of
        Inl e \<Rightarrow> Inl (OtherErr (Wrapped (''load balancer: backend '' @ Itoa (int i) @ '': '' @ client_err_text e) (ErrNew (client_err_text e))))
      | Inr b \<Rightarrow> (case create_all ds (Suc i) of Inl e \<Rightarrow> Inl e | Inr bs \<Rightarrow> Inr (b # bs)))"

definition health_defaults :: "HealthCheckConfig \<Rightarrow> HealthCheckConfig" where
  "health_defaults h = h \<lparr>
     hc_UnhealthyThreshold := (if hc_UnhealthyThreshold h = 0 then 3 else hc_UnhealthyThreshold h),
     hc_HealthyThreshold := (if hc_HealthyThreshold h = 0 then 2 else hc_HealthyThreshold h),
     hc_Timeout := (if hc_Timeout h = 0 then (if hc_Interval h < 0 then - (- hc_Interval h div 2) else hc_Interval h div 2) else hc_Timeout h),
     hc_Method := (if hc_Method h = [] then ''ping'' else hc_Method h) \<rparr>"

definition lb_error :: "string \<Rightarrow> client_err" where
  "lb_error m = OtherErr (ErrNew m)"

definition NewLoadBalancer ::
  "(LoadBalancerBackend \<times> client_err option) list \<Rightarrow> LoadBalancerConfig \<Rightarrow> 'st \<Rightarrow> client_err + 'st LoadBalancer" where
  "NewLoadBalancer descs config strategy =
     (if descs = [] then Inl (lb_error ''load balancer: at least one backend required'')
      else
        let c1 = config \<lparr> lc_MaxRetries := (if lc_MaxRetries config = 0 then int (length descs) else lc_MaxRetries config) \<rparr>
        in if lc_MaxRetries c1 < - 1 then Inl (lb_error ''load balancer: MaxRetries must be >= -1'')
           else
             let c2 = c1 \<lparr>
                   lc_MaxRetriesLimit := (if lc_MaxRetries c1 = - 1 \<and> lc_MaxRetriesLimit c1 = 0 then 1000 else lc_MaxRetriesLimit c1),
                   lc_RetryableErrors := Some (retryable c1),
                   lc_HealthCheck := map_option health_defaults (lc_HealthCheck c1) \<rparr>
             in case create_all descs 0 of
                  Inl e \<Rightarrow> Inl e
                | Inr bs \<Rightarrow> Inr \<lparr> lb_config = c2, lb_backends = bs, lb_strategy = strategy, lb_initialized = False, lb_closed = False,
                    lb_TotalRequests = 0, lb_TotalRetries = 0, lb_TotalFailures = 0, lb_nextAddr = length descs \<rparr>)"

section \<open>Health\<close>

definition upd_backend :: "nat \<Rightarrow> (backend \<Rightarrow> backend) \<Rightarrow> 'st LoadBalancer \<Rightarrow> 'st LoadBalancer" where
  "upd_backend a f lb = lb \<lparr> lb_backends := map (\<lambda>b. if be_addr b = a then f b else b) (lb_backends lb) \<rparr>"

definition get_backend :: "nat \<Rightarrow> 'st LoadBalancer \<Rightarrow> backend option" where
  "get_backend a lb = List.find (\<lambda>b. be_addr b = a) (lb_backends lb)"

definition reset_strategy :: "'st strategy \<Rightarrow> 'st LoadBalancer \<Rightarrow> 'st LoadBalancer" where
  "reset_strategy sg lb = lb \<lparr> lb_strategy := sg_Reset sg (lb_strategy lb) \<rparr>"

text \<open>\<open>checkBackendHealth\<close>; the result of the ping is an argument, \<open>None\<close> when the method is not \<open>ping\<close>.\<close>

definition checkBackendHealth ::
  "'st strategy \<Rightarrow> HealthCheckConfig \<Rightarrow> nat \<Rightarrow> client_err option \<Rightarrow> 'st LoadBalancer \<Rightarrow> 'st LoadBalancer" where
  "checkBackendHealth sg hc a err lb =
     (case get_backend a lb of
        None \<Rightarrow> lb
      | Some b \<Rightarrow>
          (case err of
             Some e \<Rightarrow>
               let b1 = b \<lparr> be_lastError := Some e, be_consecutiveFailures := be_consecutiveFailures b + 1, be_consecutiveSuccesses := 0 \<rparr>
               in if be_consecutiveFailures b1 \<ge> hc_UnhealthyThreshold hc \<and> be_healthy b1
                  then reset_strategy sg (upd_backend a (\<lambda>_. b1 \<lparr> be_healthy := False \<rparr>) lb)
                  else upd_backend a (\<lambda>_. b1) lb
           | None \<Rightarrow>
               let b1 = b \<lparr> be_consecutiveSuccesses := be_consecutiveSuccesses b + 1 \<rparr>
               in if \<not> be_healthy b1 \<and> be_consecutiveSuccesses b1 \<ge> hc_HealthyThreshold hc
                  then reset_strategy sg (upd_backend a (\<lambda>_. b1 \<lparr> be_healthy := True, be_consecutiveFailures := 0 \<rparr>) lb)
                  else upd_backend a (\<lambda>_. b1) lb))"

definition recordRequestError ::
  "'st strategy \<Rightarrow> nat \<Rightarrow> client_err \<Rightarrow> 'st LoadBalancer \<Rightarrow> 'st LoadBalancer" where
  "recordRequestError sg a err lb =
     (if \<not> retryable (lb_config lb) (Some err) then lb
      else case get_backend a lb of
             None \<Rightarrow> lb
           | Some b \<Rightarrow>
               let b1 = b \<lparr> be_lastError := Some err, be_consecutiveFailures := be_consecutiveFailures b + 1, be_consecutiveSuccesses := 0 \<rparr>
               in if (case lc_HealthCheck (lb_config lb) of None \<Rightarrow> False
                      | Some hc \<Rightarrow> be_consecutiveFailures b1 \<ge> hc_UnhealthyThreshold hc) \<and> be_healthy b1
                  then reset_strategy sg (upd_backend a (\<lambda>_. b1 \<lparr> be_healthy := False \<rparr>) lb)
                  else upd_backend a (\<lambda>_. b1) lb)"

definition recordRequestSuccess :: "nat \<Rightarrow> 'st LoadBalancer \<Rightarrow> 'st LoadBalancer" where
  "recordRequestSuccess a lb = upd_backend a (\<lambda>b. b \<lparr> be_consecutiveFailures := 0, be_consecutiveSuccesses := be_consecutiveSuccesses b + 1 \<rparr>) lb"

definition getHealthyBackends :: "'st LoadBalancer \<Rightarrow> backend list" where
  "getHealthyBackends lb = filter be_healthy (lb_backends lb)"

section \<open>Failover\<close>

text \<open>
  A request: \<open>fn\<close> is the call of a backend and \<open>ctxErr\<close> the error of the context, both on the state of
  the world. The loop ends after \<open>MaxRetries\<close> rounds, or after \<open>MaxRetriesLimit\<close> when \<open>MaxRetries\<close>
  is minus one; a round that picks a backend already tried counts.
\<close>

definition rounds :: "LoadBalancerConfig \<Rightarrow> nat \<Rightarrow> int" where
  "rounds cfg n = (if lc_MaxRetries cfg = 0 then int n else lc_MaxRetries cfg)"

definition all_failed :: "client_err option \<Rightarrow> 'st LoadBalancer \<Rightarrow> client_err option \<times> 'st LoadBalancer" where
  "all_failed lastErr lb =
     (let e = (case lastErr of None \<Rightarrow> ''all backends failed'' | Some e \<Rightarrow> client_err_text e)
      in (Some (OtherErr (Wrapped (''load balancer: all backends failed: '' @ e) (case lastErr of Some (OtherErr g) \<Rightarrow> g | _ \<Rightarrow> ErrNew e))),
          if lc_EnableMetrics (lb_config lb) then lb \<lparr> lb_TotalFailures := lb_TotalFailures lb + 1 \<rparr> else lb))"

definition count_request :: "int \<Rightarrow> 'st LoadBalancer \<Rightarrow> 'st LoadBalancer" where
  "count_request attempt lb =
     (if lc_EnableMetrics (lb_config lb)
      then lb \<lparr> lb_TotalRequests := lb_TotalRequests lb + 1,
                lb_TotalRetries := (if attempt > 0 then lb_TotalRetries lb + 1 else lb_TotalRetries lb) \<rparr>
      else lb)"

function failover_loop ::
  "'st strategy \<Rightarrow> (nat \<Rightarrow> 'w \<Rightarrow> client_err option \<times> 'w) \<Rightarrow> ('w \<Rightarrow> client_err option) \<Rightarrow> int \<Rightarrow> int \<Rightarrow> int \<Rightarrow> string list
   \<Rightarrow> client_err option \<Rightarrow> 'st LoadBalancer \<Rightarrow> 'w \<Rightarrow> client_err option \<times> 'st LoadBalancer \<times> 'w" where
  "failover_loop sg fn ctxErr maxRetries limit attempt tried lastErr lb w =
     (if \<not> (attempt < maxRetries \<or> maxRetries = - 1)
      then (case all_failed lastErr lb of (e, lb') \<Rightarrow> (e, lb', w))
      else if maxRetries = - 1 \<and> attempt + 1 > limit
      then (case all_failed (Some (lb_error ''retry limit exceeded'')) lb of (e, lb') \<Rightarrow> (e, lb', w))
      else case ctxErr w of Some e \<Rightarrow> (Some e, lb, w)
      | None \<Rightarrow>
        let healthyBackends = getHealthyBackends lb
        in if healthyBackends = []
           then (case all_failed (if lastErr = None then Some (lb_error ''no healthy backends available'') else lastErr) lb of (e, lb') \<Rightarrow> (e, lb', w))
           else
             case sg_Next sg (lb_strategy lb) healthyBackends of
               (idx, st) \<Rightarrow>
                 let lb0 = lb \<lparr> lb_strategy := st \<rparr>
                 in if idx < 0 \<or> idx \<ge> int (length healthyBackends)
                    then (case all_failed (Some (lb_error ''strategy returned invalid index'')) lb0 of (e, lb') \<Rightarrow> (e, lb', w))
                    else
                      let b = healthyBackends ! nat idx; a = be_addr b
                      in if be_id b \<in> set tried
                         then failover_loop sg fn ctxErr maxRetries limit (attempt + 1) tried lastErr lb0 w
                         else
                           let lb1 = upd_backend a (\<lambda>b. b \<lparr> be_activeConns := be_activeConns b + 1, be_totalReqs := be_totalReqs b + 1 \<rparr>) (count_request attempt lb0)
                           in case fn a w of (r, w') \<Rightarrow>
                                let lb2 = upd_backend a (\<lambda>b. b \<lparr> be_activeConns := be_activeConns b - 1 \<rparr>) lb1
                                in case r of
                                     None \<Rightarrow> (None, recordRequestSuccess a lb2, w')
                                   | Some e \<Rightarrow>
                                       let lb3 = upd_backend a (\<lambda>b. b \<lparr> be_totalErrs := be_totalErrs b + 1 \<rparr>) lb2
                                       in if \<not> retryable (lb_config lb3) (Some e) then (Some e, lb3, w')
                                          else failover_loop sg fn ctxErr maxRetries limit (attempt + 1) (be_id b # tried) (Some e)
                                                 (recordRequestError sg a e lb3) w')"
  by pat_completeness auto
termination
  by (relation "measure (\<lambda>(sg, fn, ctxErr, maxRetries, limit, attempt, _). nat ((if maxRetries = - 1 then limit else maxRetries) - attempt))")
    auto

declare failover_loop.simps [simp del]

definition executeWithFailover ::
  "'st strategy \<Rightarrow> (nat \<Rightarrow> 'w \<Rightarrow> client_err option \<times> 'w) \<Rightarrow> ('w \<Rightarrow> client_err option) \<Rightarrow> 'st LoadBalancer \<Rightarrow> 'w
   \<Rightarrow> client_err option \<times> 'st LoadBalancer \<times> 'w" where
  "executeWithFailover sg fn ctxErr lb w =
     (if lb_closed lb then (Some (OtherErr errClientClosed), lb, w)
      else failover_loop sg fn ctxErr (rounds (lb_config lb) (length (lb_backends lb))) (lc_MaxRetriesLimit (lb_config lb)) 0 [] None lb w)"

section \<open>Lifecycle\<close>

text \<open>The results of initializing the backends, by address, in the order in which they arrive.\<close>

definition init_failed :: "(nat \<times> (client_err + 'r)) list \<Rightarrow> 'st LoadBalancer \<Rightarrow> 'st LoadBalancer" where
  "init_failed results lb = fold (\<lambda>(a, r) lb. case r of Inr _ \<Rightarrow> lb
     | Inl e \<Rightarrow> upd_backend a (\<lambda>b. b \<lparr> be_healthy := False, be_lastError := Some e \<rparr>) lb) results lb"

definition Initialize_lb :: "(nat \<times> (client_err + 'r)) list \<Rightarrow> 'st LoadBalancer \<Rightarrow> (client_err + 'r) \<times> 'st LoadBalancer" where
  "Initialize_lb results lb =
     (if lb_initialized lb then (Inl (OtherErr errClientAlreadyInit), lb)
      else let lb1 = init_failed results lb
           in case concat (map (\<lambda>(_, r). case r of Inr x \<Rightarrow> [x] | Inl _ \<Rightarrow> []) results) of
                [] \<Rightarrow> (Inl (lb_error ''load balancer: all backends failed to initialize''), lb1)
              | x # _ \<Rightarrow> (Inr x, lb1 \<lparr> lb_initialized := True \<rparr>))"

text \<open>Adding a backend; the results of \<open>New\<close> and of initializing its client are arguments.\<close>

definition AddBackend ::
  "'st strategy \<Rightarrow> LoadBalancerBackend \<Rightarrow> client_err option \<Rightarrow> client_err option \<Rightarrow> 'st LoadBalancer \<Rightarrow> client_err option \<times> 'st LoadBalancer" where
  "AddBackend sg desc newErr initErr lb =
     (if lb_closed lb then (Some (OtherErr errClientClosed), lb)
      else case createBackend desc (length (lb_backends lb)) (lb_nextAddr lb) newErr of
             Inl e \<Rightarrow> (Some e, lb)
           | Inr b \<Rightarrow>
               let lb1 = lb \<lparr> lb_backends := lb_backends lb @ [b], lb_nextAddr := Suc (lb_nextAddr lb) \<rparr>;
                   lb2 = (case (if lb_initialized lb1 then initErr else None) of None \<Rightarrow> lb1
                          | Some e \<Rightarrow> upd_backend (be_addr b) (\<lambda>b. b \<lparr> be_healthy := False, be_lastError := Some e \<rparr>) lb1)
               in (None, reset_strategy sg lb2))"

fun remove_first :: "('a \<Rightarrow> bool) \<Rightarrow> 'a list \<Rightarrow> 'a list option" where
  "remove_first P [] = None"
| "remove_first P (x # xs) = (if P x then Some xs else map_option (\<lambda>ys. x # ys) (remove_first P xs))"

definition RemoveBackend :: "'st strategy \<Rightarrow> string \<Rightarrow> 'st LoadBalancer \<Rightarrow> client_err option \<times> 'st LoadBalancer" where
  "RemoveBackend sg i lb =
     (case remove_first (\<lambda>b. be_id b = i) (lb_backends lb) of
        Some bs \<Rightarrow> (None, reset_strategy sg (lb \<lparr> lb_backends := bs \<rparr>))
      | None \<Rightarrow> (Some (lb_error (''load balancer: backend '' @ i @ '' not found'')), lb))"

text \<open>Closing; the errors of closing the clients, by address, are an argument.\<close>

definition Close_lb :: "(nat \<Rightarrow> client_err option) \<Rightarrow> 'st LoadBalancer \<Rightarrow> client_err option \<times> 'st LoadBalancer" where
  "Close_lb closeErr lb =
     (if lb_closed lb then (None, lb)
      else (fold (\<lambda>b first. case (closeErr (be_addr b), first) of (Some e, None) \<Rightarrow> Some e | _ \<Rightarrow> first) (lb_backends lb) None,
            lb \<lparr> lb_closed := True \<rparr>))"

definition Metrics_lb :: "'st LoadBalancer \<Rightarrow> ((nat \<times> nat \<times> nat) \<times> (string, backend) gomap) option" where
  "Metrics_lb lb =
     (if \<not> lc_EnableMetrics (lb_config lb) then None
      else Some ((lb_TotalRequests lb, lb_TotalRetries lb, lb_TotalFailures lb),
                 fold (\<lambda>b m. mput (be_id b) b m) (lb_backends lb) []))"

text \<open>The requests that go to one backend, and those that ask all healthy backends and merge what they
  return, in the order in which it arrives, dropping items whose key was seen.\<close>

definition lb_forward ::
  "'st strategy \<Rightarrow> (nat \<Rightarrow> 'w \<Rightarrow> client_err option \<times> 'w) \<Rightarrow> ('w \<Rightarrow> client_err option) \<Rightarrow> 'st LoadBalancer \<Rightarrow> 'w
   \<Rightarrow> client_err option \<times> 'st LoadBalancer \<times> 'w" where
  "lb_forward sg fn ctxErr lb w =
     (if \<not> lb_initialized lb then (Some (OtherErr errClientNotInitialized), lb, w) else executeWithFailover sg fn ctxErr lb w)"

definition merge_seen :: "('i \<Rightarrow> string) \<Rightarrow> 'i list list \<Rightarrow> 'i list" where
  "merge_seen key pages = fst (fold (\<lambda>item (acc, seen).
     if key item \<in> set seen then (acc, seen) else (acc @ [item], key item # seen)) (concat pages) ([], []))"

definition lb_list :: "('i \<Rightarrow> string) \<Rightarrow> (client_err + 'i list) list \<Rightarrow> 'st LoadBalancer \<Rightarrow> client_err + 'i list" where
  "lb_list key answers lb =
     (if \<not> lb_initialized lb then Inl (OtherErr errClientNotInitialized)
      else if getHealthyBackends lb = [] then Inl (lb_error ''load balancer: no healthy backends'')
      else Inr (merge_seen key (concat (map (\<lambda>r. case r of Inr xs \<Rightarrow> [xs] | Inl _ \<Rightarrow> []) answers))))"

section \<open>What a request changes\<close>

text \<open>The state of a pool that requests do not change: which backends it has.\<close>

definition wf_lb :: "'st LoadBalancer \<Rightarrow> bool" where
  "wf_lb lb \<longleftrightarrow> distinct (map be_addr (lb_backends lb)) \<and> (\<forall>b \<in> set (lb_backends lb). be_addr b < lb_nextAddr lb)"

definition same_pool :: "'st LoadBalancer \<Rightarrow> 'st LoadBalancer \<Rightarrow> bool" where
  "same_pool lb lb' \<longleftrightarrow> lb_config lb' = lb_config lb \<and> lb_nextAddr lb' = lb_nextAddr lb
     \<and> map (\<lambda>b. (be_addr b, be_id b, be_activeConns b)) (lb_backends lb')
       = map (\<lambda>b. (be_addr b, be_id b, be_activeConns b)) (lb_backends lb)"

definition health :: "'st LoadBalancer \<Rightarrow> bool list" where
  "health lb = map be_healthy (lb_backends lb)"

lemma same_pool_refl [simp]: "same_pool lb lb"
  by (simp add: same_pool_def)

lemma same_pool_trans: "same_pool a b \<Longrightarrow> same_pool b c \<Longrightarrow> same_pool a c"
  by (simp add: same_pool_def)

lemma same_pool_addrs: "same_pool a b \<Longrightarrow> map be_addr (lb_backends b) = map be_addr (lb_backends a)"
proof -
  assume "same_pool a b"
  then have "map fst (map (\<lambda>b. (be_addr b, be_id b, be_activeConns b)) (lb_backends b))
    = map fst (map (\<lambda>b. (be_addr b, be_id b, be_activeConns b)) (lb_backends a))"
    unfolding same_pool_def by metis
  then show ?thesis by (simp add: comp_def)
qed

lemma wf_same_pool: "same_pool a b \<Longrightarrow> wf_lb a \<Longrightarrow> wf_lb b"
proof -
  assume p: "same_pool a b" and wf: "wf_lb a"
  have "set (map be_addr (lb_backends b)) = set (map be_addr (lb_backends a))" using same_pool_addrs [OF p] by simp
  then have "(\<forall>x \<in> set (lb_backends b). be_addr x < n) \<longleftrightarrow> (\<forall>x \<in> set (lb_backends a). be_addr x < n)" for n
    by (metis (no_types, lifting) image_eqI image_iff list.set_map)
  with p wf same_pool_addrs [OF p] show ?thesis by (simp add: wf_lb_def same_pool_def)
qed

lemma get_backend_upd:
  assumes "wf_lb lb" and "get_backend a lb = Some b" and "c \<in> set (lb_backends lb)" and "be_addr c = a"
  shows "c = b"
proof -
  have "b \<in> set (lb_backends lb)" "be_addr b = a" using assms(2) by (auto simp: get_backend_def find_Some_iff)
  with assms show ?thesis by (auto simp: wf_lb_def distinct_map inj_on_def)
qed

lemma upd_same_pool:
  assumes "\<And>b. be_addr b = a \<Longrightarrow> b \<in> set (lb_backends lb) \<Longrightarrow> be_addr (f b) = a \<and> be_id (f b) = be_id b \<and> be_activeConns (f b) = be_activeConns b"
  shows "same_pool lb (upd_backend a f lb)"
  using assms by (auto simp: same_pool_def upd_backend_def)

lemma upd_health:
  assumes "\<And>b. be_addr b = a \<Longrightarrow> b \<in> set (lb_backends lb) \<Longrightarrow> be_healthy (f b) = be_healthy b"
  shows "health (upd_backend a f lb) = health lb"
  using assms by (auto simp: health_def upd_backend_def)

lemma upd_fields [simp]: "lb_strategy (upd_backend a f lb) = lb_strategy lb" "lb_config (upd_backend a f lb) = lb_config lb"
  by (simp_all add: upd_backend_def)

lemma count_fields [simp]: "lb_strategy (count_request n lb) = lb_strategy lb" "lb_config (count_request n lb) = lb_config lb"
  "lb_backends (count_request n lb) = lb_backends lb" "lb_nextAddr (count_request n lb) = lb_nextAddr lb"
  by (simp_all add: count_request_def)

lemma upd_upd: "(\<And>b. be_addr b = a \<Longrightarrow> be_addr (g b) = a) \<Longrightarrow> upd_backend a f (upd_backend a g lb) = upd_backend a (f \<circ> g) lb"
  by (auto simp: upd_backend_def)

text \<open>The pool after a call of a backend that was counted, ended, and was recorded.\<close>

definition called :: "int \<Rightarrow> nat \<Rightarrow> 'st LoadBalancer \<Rightarrow> 'st LoadBalancer" where
  "called attempt a lb = upd_backend a (\<lambda>b. b \<lparr> be_activeConns := be_activeConns b - 1 \<rparr>)
     (upd_backend a (\<lambda>b. b \<lparr> be_activeConns := be_activeConns b + 1, be_totalReqs := be_totalReqs b + 1 \<rparr>) (count_request attempt lb))"

definition failed :: "int \<Rightarrow> nat \<Rightarrow> 'st LoadBalancer \<Rightarrow> 'st LoadBalancer" where
  "failed attempt a lb = upd_backend a (\<lambda>b. b \<lparr> be_totalErrs := be_totalErrs b + 1 \<rparr>) (called attempt a lb)"

lemma called_pool: "same_pool lb (called n a lb)" "health (called n a lb) = health lb" "lb_strategy (called n a lb) = lb_strategy lb"
proof -
  have c: "called n a lb = upd_backend a (\<lambda>b. b \<lparr> be_activeConns := be_activeConns b + 1 - 1, be_totalReqs := be_totalReqs b + 1 \<rparr>) (count_request n lb)"
    unfolding called_def by (subst upd_upd) (simp_all add: comp_def)
  have "same_pool lb (count_request n lb)" by (simp add: same_pool_def)
  then show "same_pool lb (called n a lb)" unfolding c by (rule same_pool_trans) (rule upd_same_pool, simp)
  show "health (called n a lb) = health lb" unfolding c by (subst upd_health) (simp_all add: health_def)
qed (simp add: called_def)

lemma failed_pool: "same_pool lb (failed n a lb)" "health (failed n a lb) = health lb" "lb_strategy (failed n a lb) = lb_strategy lb"
  unfolding failed_def
  by (rule same_pool_trans [OF called_pool(1)], rule upd_same_pool, simp)
    (simp_all add: upd_health called_pool)

lemma recordSuccess_pool: "same_pool lb (recordRequestSuccess a lb)"
  unfolding recordRequestSuccess_def by (rule upd_same_pool) simp

lemma recordError_pool:
  assumes "wf_lb lb"
  shows "same_pool lb (recordRequestError sg a e lb)"
proof (cases "get_backend a lb")
  case (Some b)
  have "be_addr b = a" using Some by (auto simp: get_backend_def find_Some_iff)
  with get_backend_upd [OF assms Some] have "same_pool lb (upd_backend a (\<lambda>_. b') lb)"
    if "be_addr b' = a" "be_id b' = be_id b" "be_activeConns b' = be_activeConns b" for b'
    using that by (intro upd_same_pool) auto
  then show ?thesis using Some \<open>be_addr b = a\<close>
    by (auto simp: recordRequestError_def reset_strategy_def same_pool_def Let_def)
qed (simp add: recordRequestError_def)

lemma recordError_health:
  assumes "wf_lb lb" and "lc_HealthCheck (lb_config lb) = None"
  shows "health (recordRequestError sg a e lb) = health lb \<and> lb_strategy (recordRequestError sg a e lb) = lb_strategy lb"
proof (cases "get_backend a lb")
  case (Some b)
  then have "health (upd_backend a (\<lambda>_. b') lb) = health lb" if "be_healthy b' = be_healthy b" for b'
    using that get_backend_upd [OF assms(1) Some] by (intro upd_health) auto
  then show ?thesis using Some assms(2) by (auto simp: recordRequestError_def Let_def)
qed (simp add: recordRequestError_def)

section \<open>Rounds of the loop\<close>

text \<open>One round that picks a backend.\<close>

definition round_with ::
  "'st strategy \<Rightarrow> (nat \<Rightarrow> 'w \<Rightarrow> client_err option \<times> 'w) \<Rightarrow> ('w \<Rightarrow> client_err option) \<Rightarrow> int \<Rightarrow> int \<Rightarrow> int \<Rightarrow> string list
   \<Rightarrow> client_err option \<Rightarrow> 'st LoadBalancer \<Rightarrow> 'w \<Rightarrow> backend \<Rightarrow> client_err option \<times> 'st LoadBalancer \<times> 'w" where
  "round_with sg fn ctxErr maxRetries limit attempt tried lastErr lb w b =
     (if be_id b \<in> set tried then failover_loop sg fn ctxErr maxRetries limit (attempt + 1) tried lastErr lb w
      else case fn (be_addr b) w of
        (None, w') \<Rightarrow> (None, recordRequestSuccess (be_addr b) (called attempt (be_addr b) lb), w')
      | (Some e, w') \<Rightarrow>
          if \<not> retryable (lb_config lb) (Some e) then (Some e, failed attempt (be_addr b) lb, w')
          else failover_loop sg fn ctxErr maxRetries limit (attempt + 1) (be_id b # tried) (Some e)
                 (recordRequestError sg (be_addr b) e (failed attempt (be_addr b) lb)) w')"

definition in_rounds :: "int \<Rightarrow> int \<Rightarrow> int \<Rightarrow> bool" where
  "in_rounds maxRetries limit attempt \<longleftrightarrow> (if maxRetries = - 1 then attempt < limit else attempt < maxRetries)"

lemma loop_pick:
  assumes "in_rounds maxRetries limit attempt" and "ctxErr w = None"
    and "sg_Next sg (lb_strategy lb) (getHealthyBackends lb) = (int i, st)" and "i < length (getHealthyBackends lb)"
  shows "failover_loop sg fn ctxErr maxRetries limit attempt tried lastErr lb w
    = round_with sg fn ctxErr maxRetries limit attempt tried lastErr (lb \<lparr> lb_strategy := st \<rparr>) w (getHealthyBackends lb ! i)"
proof -
  have "getHealthyBackends lb \<noteq> []" using assms(4) by auto
  with assms show ?thesis
    unfolding failover_loop.simps [of sg fn ctxErr maxRetries limit attempt] round_with_def
    by (auto simp: in_rounds_def Let_def called_def failed_def split: option.splits prod.splits)
qed

lemma all_failed_stops: "\<exists>e lb'. all_failed lastErr lb = (Some e, lb') \<and> same_pool lb lb'"
  by (simp add: all_failed_def same_pool_def Let_def)

lemma same_pool_strategy [simp]: "same_pool lb (lb \<lparr> lb_strategy := st \<rparr>)"
  by (simp add: same_pool_def)

text \<open>What a request returns when it stops without the answer of a backend: the error of the context; or the error
  of the last call wrapped, a generic cause when no backend was called; or, instead of it, that the limit of an
  unbounded number of rounds was reached or that the strategy gave an index out of range.\<close>

definition wrapped_failure :: "client_err \<Rightarrow> client_err" where
  "wrapped_failure e = OtherErr (Wrapped (''load balancer: all backends failed: '' @ client_err_text e)
     (case e of OtherErr g \<Rightarrow> g | _ \<Rightarrow> ErrNew (client_err_text e)))"

definition stops_with :: "'st strategy \<Rightarrow> int \<Rightarrow> client_err option \<Rightarrow> bool \<Rightarrow> client_err option \<Rightarrow> client_err option \<Rightarrow> bool" where
  "stops_with sg maxRetries ctx noneHealthy lastErr res \<longleftrightarrow>
     (\<exists>e. ctx = Some e \<and> res = Some e)
     \<or> (\<exists>cause. res = Some (wrapped_failure cause)
          \<and> (lastErr = Some cause
             \<or> lastErr = None \<and> cause = lb_error ''all backends failed''
             \<or> lastErr = None \<and> noneHealthy \<and> cause = lb_error ''no healthy backends available''
             \<or> maxRetries = - 1 \<and> cause = lb_error ''retry limit exceeded''
             \<or> (\<exists>st bs. bs \<noteq> [] \<and> \<not> (0 \<le> fst (sg_Next sg st bs) \<and> fst (sg_Next sg st bs) < int (length bs)))
               \<and> cause = lb_error ''strategy returned invalid index''))"

lemma all_failed_wraps: "fst (all_failed lastErr lb) = Some (wrapped_failure (case lastErr of None \<Rightarrow> lb_error ''all backends failed'' | Some e \<Rightarrow> e))"
  by (auto simp: all_failed_def wrapped_failure_def lb_error_def Let_def split: option.splits client_err.splits)

lemma all_failed_kept: "getHealthyBackends (snd (all_failed lastErr lb)) = getHealthyBackends lb" "same_pool lb (snd (all_failed lastErr lb))"
  by (simp_all add: all_failed_def same_pool_def getHealthyBackends_def Let_def)

lemma all_failed_eq:
  "\<exists>lb'. all_failed lastErr lb = (Some (wrapped_failure (case lastErr of None \<Rightarrow> lb_error ''all backends failed'' | Some e \<Rightarrow> e)), lb')
     \<and> same_pool lb lb' \<and> getHealthyBackends lb' = getHealthyBackends lb"
  using all_failed_wraps [of lastErr lb] all_failed_kept(1) [of lastErr lb] all_failed_kept(2) [of lb lastErr] by (cases "all_failed lastErr lb") auto

lemma loop_cases:
  obtains (stop) e lb' where "failover_loop sg fn ctxErr maxRetries limit attempt tried lastErr lb w = (Some e, lb', w)" "same_pool lb lb'"
      "stops_with sg maxRetries (ctxErr w) (getHealthyBackends lb' = []) lastErr (Some e)"
  | (pick) i st where "in_rounds maxRetries limit attempt" "ctxErr w = None"
      "sg_Next sg (lb_strategy lb) (getHealthyBackends lb) = (int i, st)" "i < length (getHealthyBackends lb)"
proof (cases "in_rounds maxRetries limit attempt \<and> ctxErr w = None \<and> getHealthyBackends lb \<noteq> []")
  case False
  let ?out = "failover_loop sg fn ctxErr maxRetries limit attempt tried lastErr lb w"
  consider "ctxErr w = None" "in_rounds maxRetries limit attempt" "getHealthyBackends lb = []"
    | "\<not> in_rounds maxRetries limit attempt" | e where "in_rounds maxRetries limit attempt" "ctxErr w = Some e" using False by (cases "ctxErr w") auto
  then show ?thesis
  proof cases
    case 1
    let ?c = "if lastErr = None then Some (lb_error ''no healthy backends available'') else lastErr"
    obtain lb' where a: "all_failed ?c lb = (Some (wrapped_failure (the ?c)), lb')" "same_pool lb lb'" "getHealthyBackends lb' = getHealthyBackends lb"
      using all_failed_eq [of ?c lb] by (auto split: option.splits if_splits)
    have "?out = (Some (wrapped_failure (the ?c)), lb', w)"
      unfolding failover_loop.simps [of sg fn ctxErr maxRetries limit attempt] using 1 a(1) by (auto simp: in_rounds_def Let_def split: if_splits)
    moreover have "stops_with sg maxRetries (ctxErr w) (getHealthyBackends lb' = []) lastErr (Some (wrapped_failure (the ?c)))"
      using 1 a(3) by (cases lastErr) (auto simp: stops_with_def)
    ultimately show ?thesis using stop a(2) by blast
  next
    case 2
    let ?c = "if maxRetries = - 1 then Some (lb_error ''retry limit exceeded'') else lastErr"
    obtain e lb' where a: "all_failed ?c lb = (Some e, lb')" "same_pool lb lb'"
      and e: "e = wrapped_failure (case ?c of None \<Rightarrow> lb_error ''all backends failed'' | Some e \<Rightarrow> e)"
      using all_failed_eq [of ?c lb] by auto
    have "?out = (Some e, lb', w)"
      unfolding failover_loop.simps [of sg fn ctxErr maxRetries limit attempt] using 2 a(1) by (auto simp: in_rounds_def split: if_splits)
    moreover have "stops_with sg maxRetries (ctxErr w) (getHealthyBackends lb' = []) lastErr (Some e)"
      unfolding e by (cases lastErr) (auto simp: stops_with_def)
    ultimately show ?thesis using stop a(2) by blast
  next
    case 3
    then have "?out = (Some e, lb, w)"
      unfolding failover_loop.simps [of sg fn ctxErr maxRetries limit attempt] by (auto simp: in_rounds_def split: if_splits)
    moreover have "stops_with sg maxRetries (ctxErr w) (getHealthyBackends lb = []) lastErr (Some e)" using 3 by (simp add: stops_with_def)
    ultimately show ?thesis using stop by (simp add: same_pool_def)
  qed
next
  case True
  obtain idx st where nx: "sg_Next sg (lb_strategy lb) (getHealthyBackends lb) = (idx, st)" by fastforce
  show ?thesis
  proof (cases "idx < 0 \<or> idx \<ge> int (length (getHealthyBackends lb))")
    case bad: True
    let ?lb = "lb \<lparr> lb_strategy := st \<rparr>" and ?c = "lb_error ''strategy returned invalid index''"
    obtain lb' where a: "all_failed (Some ?c) ?lb = (Some (wrapped_failure ?c), lb')" "same_pool ?lb lb'" using all_failed_eq [of "Some ?c" ?lb] by auto
    have "failover_loop sg fn ctxErr maxRetries limit attempt tried lastErr lb w = (Some (wrapped_failure ?c), lb', w)"
      unfolding failover_loop.simps [of sg fn ctxErr maxRetries limit attempt]
      using True nx bad a(1) by (auto simp: in_rounds_def Let_def split: if_splits)
    moreover have "stops_with sg maxRetries (ctxErr w) (getHealthyBackends lb' = []) lastErr (Some (wrapped_failure ?c))"
      unfolding stops_with_def using True nx bad
      by (intro disjI2 exI [of _ ?c] conjI exI [of _ "lb_strategy lb"] exI [of _ "getHealthyBackends lb"]) auto
    moreover have "same_pool lb lb'" using a(2) by (simp add: same_pool_def)
    ultimately show ?thesis using stop by blast
  next
    case False
    with True nx pick [of "nat idx" st] show ?thesis by auto
  qed
qed

section \<open>Each backend is called at most once\<close>

text \<open>A call that also keeps a log of the backends called and what they returned.\<close>

definition logged :: "(nat \<Rightarrow> 'w \<Rightarrow> client_err option \<times> 'w) \<Rightarrow> nat \<Rightarrow> 'w \<times> (nat \<times> client_err option) list
  \<Rightarrow> client_err option \<times> 'w \<times> (nat \<times> client_err option) list" where
  "logged f a wl = (case f a (fst wl) of (r, w') \<Rightarrow> (r, w', snd wl @ [(a, r)]))"

definition may_retry :: "LoadBalancerConfig \<Rightarrow> nat \<times> client_err option \<Rightarrow> bool" where
  "may_retry cfg x \<longleftrightarrow> snd x \<noteq> None \<and> retryable cfg (snd x)"

text \<open>What a request returns after its calls: nothing but success when the last call succeeded, the error of the last call
  itself when that may not be retried, and otherwise what it stopped with.\<close>

definition returns_after ::
  "(client_err option \<Rightarrow> client_err option \<Rightarrow> bool) \<Rightarrow> LoadBalancerConfig \<Rightarrow> client_err option \<Rightarrow> (nat \<times> client_err option) list \<Rightarrow> client_err option \<Rightarrow> bool" where
  "returns_after stops cfg lastErr calls res \<longleftrightarrow>
     (if calls = [] then stops lastErr res
      else case snd (last calls) of
             None \<Rightarrow> res = None
           | Some e \<Rightarrow> if retryable cfg (Some e) then stops (Some e) res else res = Some e)"

text \<open>What a request may log after a prefix: new addresses, all but the last of them retried, and
  the result that goes with them.\<close>

definition log_extends ::
  "(client_err option \<Rightarrow> client_err option \<Rightarrow> bool) \<Rightarrow> LoadBalancerConfig \<Rightarrow> client_err option \<Rightarrow> (nat \<times> client_err option) list
   \<Rightarrow> client_err option \<Rightarrow> (nat \<times> client_err option) list \<Rightarrow> bool" where
  "log_extends stops cfg lastErr log res log' \<longleftrightarrow> (\<exists>new. log' = log @ new \<and> distinct (map fst log') \<and> (\<forall>x \<in> set (butlast new). may_retry cfg x)
     \<and> returns_after stops cfg lastErr new res)"

definition tried_log :: "'st LoadBalancer \<Rightarrow> string list \<Rightarrow> (nat \<times> client_err option) list \<Rightarrow> bool" where
  "tried_log lb tried log \<longleftrightarrow> distinct (map fst log) \<and> (\<forall>b \<in> set (lb_backends lb). be_addr b \<in> fst ` set log \<longrightarrow> be_id b \<in> set tried)"

lemma tried_log_pool: "same_pool lb lb' \<Longrightarrow> tried_log lb tried log \<Longrightarrow> tried_log lb' tried log"
proof -
  assume p: "same_pool lb lb'" and t: "tried_log lb tried log"
  have "\<exists>c \<in> set (lb_backends lb). be_addr c = be_addr b \<and> be_id c = be_id b" if "b \<in> set (lb_backends lb')" for b
  proof -
    have "set (map (\<lambda>b. (be_addr b, be_id b, be_activeConns b)) (lb_backends lb')) = set (map (\<lambda>b. (be_addr b, be_id b, be_activeConns b)) (lb_backends lb))"
      using p unfolding same_pool_def by presburger
    moreover have "(be_addr b, be_id b, be_activeConns b) \<in> set (map (\<lambda>b. (be_addr b, be_id b, be_activeConns b)) (lb_backends lb'))"
      unfolding set_map using that by (rule imageI)
    ultimately have "(be_addr b, be_id b, be_activeConns b) \<in> set (map (\<lambda>b. (be_addr b, be_id b, be_activeConns b)) (lb_backends lb))"
      by (simp only:)
    then show ?thesis by auto
  qed
  with t show ?thesis unfolding tried_log_def by metis
qed

lemma tried_log_call:
  assumes "wf_lb lb" and "tried_log lb tried log" and "b \<in> set (lb_backends lb)" and "be_id b \<notin> set tried"
  shows "tried_log lb (be_id b # tried) (log @ [(be_addr b, r)])" "be_addr b \<notin> fst ` set log"
proof -
  show fresh: "be_addr b \<notin> fst ` set log" using assms by (auto simp: tried_log_def)
  have "be_id c = be_id b" if "c \<in> set (lb_backends lb)" "be_addr c = be_addr b" for c
    using assms(1,3) that by (auto simp: wf_lb_def distinct_map inj_on_def)
  with assms(2) fresh show "tried_log lb (be_id b # tried) (log @ [(be_addr b, r)])" by (auto simp: tried_log_def)
qed

lemma log_extends_none: "distinct (map fst log) \<Longrightarrow> stops lastErr res \<Longrightarrow> log_extends stops cfg lastErr log res log"
  by (simp add: log_extends_def returns_after_def)

lemma log_extends_one:
  "distinct (map fst (log @ [(a, r)])) \<Longrightarrow> \<not> may_retry cfg (a, r) \<Longrightarrow> log_extends stops cfg lastErr log r (log @ [(a, r)])"
  unfolding log_extends_def by (rule exI [of _ "[(a, r)]"]) (auto simp: returns_after_def may_retry_def split: option.splits)

lemma log_extends_cons:
  assumes "log_extends stops cfg (snd x) (log @ [x]) res log'" and "may_retry cfg x"
  shows "log_extends stops cfg lastErr log res log'"
proof -
  obtain new where n: "log' = (log @ [x]) @ new" "distinct (map fst log')" "\<forall>y \<in> set (butlast new). may_retry cfg y"
    "returns_after stops cfg (snd x) new res" using assms(1) unfolding log_extends_def by blast
  moreover have "returns_after stops cfg lastErr (x # new) res"
    using n(4) assms(2) by (auto simp: returns_after_def may_retry_def)
  ultimately show ?thesis using assms(2) unfolding log_extends_def by (intro exI [of _ "x # new"]) auto
qed

lemma failover_log:
  assumes "wf_lb lb" and "tried_log lb tried log" and "nat ((if maxRetries = - 1 then limit else maxRetries) - attempt) \<le> n"
  shows "case failover_loop sg (logged f) ctxErr maxRetries limit attempt tried lastErr lb (w, log) of
    (res, lb', w', log') \<Rightarrow> same_pool lb lb'
      \<and> log_extends (stops_with sg maxRetries (ctxErr (w', log')) (getHealthyBackends lb' = [])) (lb_config lb) lastErr log res log'"
  using assms
proof (induction n arbitrary: lb tried log attempt lastErr w)
  case 0
  show ?case
  proof (cases rule: loop_cases [of sg "logged f" ctxErr maxRetries limit attempt tried lastErr lb "(w, log)"])
    case (stop e lb')
    then show ?thesis using "0.prems" log_extends_none by (auto simp: tried_log_def)
  next
    case (pick i st)
    then show ?thesis using "0.prems" by (auto simp: in_rounds_def split: if_splits)
  qed
next
  case (Suc n)
  show ?case
  proof (cases rule: loop_cases [of sg "logged f" ctxErr maxRetries limit attempt tried lastErr lb "(w, log)"])
    case (stop e lb')
    then show ?thesis using Suc.prems log_extends_none by (auto simp: tried_log_def)
  next
    case (pick i st)
    let ?lb = "lb \<lparr> lb_strategy := st \<rparr>" and ?b = "getHealthyBackends lb ! i"
    let ?a = "be_addr ?b"
    have wf: "wf_lb ?lb" using Suc.prems(1) by (simp add: wf_lb_def)
    have b: "?b \<in> set (lb_backends ?lb)"
      using nth_mem [OF pick(4)] by (simp add: getHealthyBackends_def)
    have t: "tried_log ?lb tried log" using Suc.prems(2) by (simp add: tried_log_def)
    have fuel: "nat ((if maxRetries = - 1 then limit else maxRetries) - (attempt + 1)) \<le> n"
      using Suc.prems(3) by auto
    note eq = loop_pick [where fn = "logged f" and w = "(w, log)" and ctxErr = ctxErr and sg = sg and lb = lb, OF pick(1) pick(2) pick(3) pick(4)]
    show ?thesis
    proof (cases "be_id ?b \<in> set tried")
      case True
      then show ?thesis
        using Suc.IH [OF wf t fuel] eq by (auto simp: round_with_def same_pool_def)
    next
      case False
      obtain r w' where "f ?a w = (r, w')" by fastforce
      then have r: "logged f ?a (w, log) = (r, w', log @ [(?a, r)])" by (simp add: logged_def)
      have fresh: "tried_log ?lb (be_id ?b # tried) (log @ [(?a, r)])" "distinct (map fst (log @ [(?a, r)]))"
        using tried_log_call(1) [OF wf t b False, of r] by (simp_all add: tried_log_def)
      show ?thesis
      proof (cases r)
        case None
        have "same_pool lb (recordRequestSuccess ?a (called attempt ?a ?lb))"
          by (rule same_pool_trans [OF same_pool_strategy same_pool_trans [OF called_pool(1) recordSuccess_pool]])
        then show ?thesis
          using eq False r None log_extends_one [OF fresh(2)] by (simp add: round_with_def may_retry_def)
      next
        case (Some e)
        let ?lb2 = "failed attempt ?a ?lb"
        have p2: "same_pool ?lb ?lb2" by (rule failed_pool)
        show ?thesis
        proof (cases "retryable (lb_config lb) (Some e)")
          case False
          then show ?thesis
            using eq \<open>be_id ?b \<notin> set tried\<close> r Some log_extends_one [OF fresh(2)] same_pool_trans [OF same_pool_strategy p2]
            by (simp add: round_with_def may_retry_def)
        next
          case True
          let ?lb3 = "recordRequestError sg ?a e ?lb2"
          have p3: "same_pool ?lb ?lb3"
            by (rule same_pool_trans [OF p2 recordError_pool [OF wf_same_pool [OF p2 wf]]])
          have "may_retry (lb_config lb) (?a, r)" using True Some by (simp add: may_retry_def)
          moreover have "lb_config ?lb3 = lb_config lb" using p3 by (simp add: same_pool_def)
          moreover have "case failover_loop sg (logged f) ctxErr maxRetries limit (attempt + 1) (be_id ?b # tried) (Some e) ?lb3 (w', log @ [(?a, r)]) of
              (res, lb', w', log') \<Rightarrow> same_pool ?lb3 lb'
                \<and> log_extends (stops_with sg maxRetries (ctxErr (w', log')) (getHealthyBackends lb' = [])) (lb_config ?lb3) (Some e) (log @ [(?a, r)]) res log'"
            by (rule Suc.IH [OF wf_same_pool [OF p3 wf] tried_log_pool [OF p3 fresh(1)] fuel])
          moreover have "failover_loop sg (logged f) ctxErr maxRetries limit attempt tried lastErr lb (w, log)
              = failover_loop sg (logged f) ctxErr maxRetries limit (attempt + 1) (be_id ?b # tried) (Some e) ?lb3 (w', log @ [(?a, r)])"
            using eq False r Some True \<open>be_id ?b \<notin> set tried\<close> by (simp add: round_with_def)
          ultimately show ?thesis
            using same_pool_trans [OF same_pool_trans [OF same_pool_strategy p3]] log_extends_cons [where x = "(?a, r)"] Some
            by (fastforce split: prod.splits)
        qed
      qed
    qed
  qed
qed


section \<open>Strategies\<close>

definition serving :: "'st LoadBalancer \<Rightarrow> bool" where
  "serving lb \<longleftrightarrow> wf_lb lb \<and> \<not> lb_closed lb \<and> getHealthyBackends lb \<noteq> []
     \<and> in_rounds (rounds (lb_config lb) (length (lb_backends lb))) (lc_MaxRetriesLimit (lb_config lb)) 0"

definition calls_of ::
  "'st strategy \<Rightarrow> (nat \<Rightarrow> 'w \<Rightarrow> client_err option \<times> 'w) \<Rightarrow> ('w \<times> (nat \<times> client_err option) list \<Rightarrow> client_err option)
   \<Rightarrow> 'st LoadBalancer \<Rightarrow> 'w \<Rightarrow> (nat \<times> client_err option) list" where
  "calls_of sg f ctxErr lb w = snd (snd (snd (executeWithFailover sg (logged f) ctxErr lb (w, []))))"

text \<open>The contract of a strategy, and what a request gets from it: when a backend is healthy and the
  context is not done, some backend is called.\<close>

locale balancing =
  fixes sg :: "'st strategy"
  assumes next_in_range: "bs \<noteq> [] \<Longrightarrow> 0 \<le> fst (sg_Next sg st bs) \<and> fst (sg_Next sg st bs) < int (length bs)"
begin

lemma first_round_calls:
  assumes "in_rounds maxRetries limit 0" and "ctxErr (w, []) = None" and "getHealthyBackends lb \<noteq> []" and "wf_lb lb"
    and "failover_loop sg (logged f) ctxErr maxRetries limit 0 [] None lb (w, []) = (res, lb', w', log')"
  shows "log' \<noteq> []"
proof -
  obtain i st where nx: "sg_Next sg (lb_strategy lb) (getHealthyBackends lb) = (int i, st)" "i < length (getHealthyBackends lb)"
    using next_in_range [OF assms(3), of "lb_strategy lb"] by (metis nonneg_int_cases of_nat_less_iff prod.collapse)
  let ?lb = "lb \<lparr> lb_strategy := st \<rparr>" and ?b = "getHealthyBackends lb ! i"
  obtain r w1 where "f (be_addr ?b) w = (r, w1)" by fastforce
  then have r: "logged f (be_addr ?b) (w, []) = (r, w1, [(be_addr ?b, r)])" by (simp add: logged_def)
  note eq = loop_pick [where fn = "logged f" and w = "(w, [])" and ctxErr = ctxErr and sg = sg and lb = lb, OF assms(1,2) nx, of "[]" None]
  have wf: "wf_lb ?lb" using assms(4) by (simp add: wf_lb_def)
  have b: "?b \<in> set (lb_backends ?lb)" using nth_mem [OF nx(2)] by (simp add: getHealthyBackends_def)
  show ?thesis
  proof (cases "\<exists>e. r = Some e \<and> retryable (lb_config lb) (Some e)")
    case False
    then show ?thesis using eq r assms(5) by (auto simp: round_with_def split: option.splits if_splits)
  next
    case True
    then obtain e where e: "r = Some e" "retryable (lb_config lb) (Some e)" by blast
    let ?lb3 = "recordRequestError sg (be_addr ?b) e (failed 0 (be_addr ?b) ?lb)"
    have p: "same_pool ?lb ?lb3" by (rule same_pool_trans [OF failed_pool(1) recordError_pool [OF wf_same_pool [OF failed_pool(1) wf]]])
    have "tried_log ?lb [be_id ?b] ([] @ [(be_addr ?b, r)])"
      by (rule tried_log_call(1) [OF wf _ b]) (simp_all add: tried_log_def)
    then have t: "tried_log ?lb3 [be_id ?b] [(be_addr ?b, r)]" using tried_log_pool [OF p] by simp
    have "failover_loop sg (logged f) ctxErr maxRetries limit 1 [be_id ?b] (Some e) ?lb3 (w1, [(be_addr ?b, r)]) = (res, lb', w', log')"
      using eq r e assms(5) by (simp add: round_with_def)
    with failover_log [OF wf_same_pool [OF p wf] t order_refl, where f = f and ctxErr = ctxErr and sg = sg and maxRetries = maxRetries
        and limit = limit and attempt = 1 and lastErr = "Some e" and w = w1]
    show ?thesis by (auto simp: log_extends_def)
  qed
qed

lemma reaches_backend:
  assumes "serving lb" and "ctxErr (w, []) = None"
  shows "calls_of sg f ctxErr lb w \<noteq> []"
proof -
  obtain res lb' w' log where x: "executeWithFailover sg (logged f) ctxErr lb (w, []) = (res, lb', w', log)" by (metis prod.collapse)
  have s: "\<not> lb_closed lb" "wf_lb lb" "getHealthyBackends lb \<noteq> []"
    "in_rounds (rounds (lb_config lb) (length (lb_backends lb))) (lc_MaxRetriesLimit (lb_config lb)) 0"
    using assms(1) by (simp_all add: serving_def)
  have "log \<noteq> []" by (rule first_round_calls [where ctxErr = ctxErr and w = w, OF s(4) assms(2) s(3,2)])
      (use x s(1) in \<open>simp add: executeWithFailover_def\<close>)
  then show ?thesis by (simp add: calls_of_def x)
qed

end

lemma least_loop_bound: "minIdx < i \<Longrightarrow> least_loop i minIdx m bs < i + length bs"
  by (induction i minIdx m bs rule: least_loop.induct) fastforce+

interpretation rr: balancing RoundRobinStrategy
  by unfold_locales (simp add: RoundRobinStrategy_def RoundRobin_Next_def)

interpretation rnd: balancing RandomStrategy
  by unfold_locales (simp add: RandomStrategy_def Random_Next_def)

interpretation lc: balancing LeastConnectionsStrategy
proof unfold_locales
  fix bs :: "backend list" and st assume "bs \<noteq> []"
  then show "0 \<le> fst (sg_Next LeastConnectionsStrategy st bs) \<and> fst (sg_Next LeastConnectionsStrategy st bs) < int (length bs)"
    using least_loop_bound [of 0 1] by (cases bs) (auto simp: LeastConnectionsStrategy_def LeastConnections_Next_def simp flip: of_nat_Suc)
qed

text \<open>A request reaches a backend. With each of the three strategies, when some backend is healthy, a retry
  is allowed and the context is not done, a request to an open pool calls at least one backend.\<close>

theorem request_reaches_a_backend:
  assumes "serving lb1" and "serving lb2" and "serving lb3" and "ctxErr (w, []) = None"
  shows "calls_of RoundRobinStrategy f ctxErr lb1 w \<noteq> [] \<and> calls_of RandomStrategy f ctxErr lb2 w \<noteq> []
    \<and> calls_of LeastConnectionsStrategy f ctxErr lb3 w \<noteq> []"
  using rr.reaches_backend [where ctxErr = ctxErr and w = w, OF assms(1,4)] rnd.reaches_backend [where ctxErr = ctxErr and w = w, OF assms(2,4)]
    lc.reaches_backend [where ctxErr = ctxErr and w = w, OF assms(3,4)] by simp

section \<open>Round robin tries every backend\<close>

lemma filter_views: "map g ys = map g xs \<Longrightarrow> map h ys = map h xs \<Longrightarrow> map g (filter h ys) = map g (filter h xs)"
proof (induction xs arbitrary: ys)
  case (Cons x xs)
  obtain y zs where ys: "ys = y # zs" using Cons.prems(1) by (cases ys) simp_all
  have "g y = g x" "h y = h x" "map g zs = map g xs" "map h zs = map h xs" using Cons.prems unfolding ys by simp_all
  with Cons.IH [of zs] ys show ?case by simp
qed simp

definition view :: "'st LoadBalancer \<Rightarrow> (nat \<times> string \<times> int) list" where
  "view lb = map (\<lambda>b. (be_addr b, be_id b, be_activeConns b)) (getHealthyBackends lb)"

lemma view_same: "same_pool lb lb' \<Longrightarrow> health lb' = health lb \<Longrightarrow> view lb' = view lb"
  unfolding view_def getHealthyBackends_def same_pool_def health_def by (rule filter_views) auto

text \<open>A failed call when no health checks are configured.\<close>

lemma failed_call:
  assumes "wf_lb lb" and "lc_HealthCheck (lb_config lb) = None"
  shows "view (recordRequestError sg a e (failed n a lb)) = view lb" "wf_lb (recordRequestError sg a e (failed n a lb))"
    "lb_config (recordRequestError sg a e (failed n a lb)) = lb_config lb"
    "lb_strategy (recordRequestError sg a e (failed n a lb)) = lb_strategy lb"
proof -
  have p1: "same_pool lb (failed n a lb)" by (rule failed_pool)
  have wf: "wf_lb (failed n a lb)" by (rule wf_same_pool [OF p1 assms(1)])
  have cfg: "lc_HealthCheck (lb_config (failed n a lb)) = None" using p1 assms(2) by (simp add: same_pool_def)
  have p: "same_pool lb (recordRequestError sg a e (failed n a lb))"
    by (rule same_pool_trans [OF p1 recordError_pool [OF wf]])
  show "view (recordRequestError sg a e (failed n a lb)) = view lb"
    by (rule view_same [OF p]) (simp add: recordError_health [OF wf cfg] failed_pool)
  show "wf_lb (recordRequestError sg a e (failed n a lb))" by (rule wf_same_pool [OF p assms(1)])
  show "lb_config (recordRequestError sg a e (failed n a lb)) = lb_config lb" using p by (simp add: same_pool_def)
  show "lb_strategy (recordRequestError sg a e (failed n a lb)) = lb_strategy lb"
    by (simp add: recordError_health [OF wf cfg] failed_pool)
qed

lemma view_nth: "i < length (getHealthyBackends lb) \<Longrightarrow> view lb ! i =
  (be_addr (getHealthyBackends lb ! i), be_id (getHealthyBackends lb ! i), be_activeConns (getHealthyBackends lb ! i))"
  by (simp add: view_def)

lemma mod_shift_le: "i \<le> j \<Longrightarrow> (c + i) mod n = (c + j) mod n \<Longrightarrow> j < n \<Longrightarrow> i = (j :: nat)"
  using mod_eq_dvd_iff_nat [of "c + i" "c + j" n] dvd_imp_le [of n "j - i"] by (cases "i = j") auto

lemma mod_shift_inj: "(c + i) mod n = (c + j) mod n \<Longrightarrow> i < n \<Longrightarrow> j < n \<Longrightarrow> i = (j :: nat)"
  by (metis mod_shift_le nat_le_linear)

lemma mod_shift_surj: "m < n \<Longrightarrow> \<exists>k < n. (c + k) mod n = (m :: nat)"
proof -
  assume m: "m < n"
  have "(c + (m + n - c mod n) mod n) mod n = (c mod n + (m + n - c mod n)) mod n" by (simp add: mod_simps)
  also have "c mod n + (m + n - c mod n) = m + n" using m mod_less_divisor [of n c] by linarith
  finally show ?thesis using m by (intro exI [of _ "(m + n - c mod n) mod n"]) auto
qed

definition rr_tried :: "nat \<Rightarrow> 'st LoadBalancer \<Rightarrow> nat \<Rightarrow> string set" where
  "rr_tried c lb i = (\<lambda>j. fst (snd (view lb ! ((c + j) mod length (view lb))))) ` {..<i}"

lemma rr_fresh:
  assumes "distinct (map (\<lambda>v. fst (snd v)) (view lb))" and "i < length (view lb)"
  shows "fst (snd (view lb ! ((c + i) mod length (view lb)))) \<notin> rr_tried c lb i"
proof
  assume "fst (snd (view lb ! ((c + i) mod length (view lb)))) \<in> rr_tried c lb i"
  then obtain j where j: "j < i" "fst (snd (view lb ! ((c + i) mod length (view lb)))) = fst (snd (view lb ! ((c + j) mod length (view lb))))"
    by (auto simp: rr_tried_def)
  have len: "(c + i) mod length (view lb) < length (view lb)" "(c + j) mod length (view lb) < length (view lb)"
    using assms(2) by (auto intro!: mod_less_divisor)
  with assms(1) j(2) have "(c + i) mod length (view lb) = (c + j) mod length (view lb)"
    by (metis (no_types, lifting) length_map nth_eq_iff_index_eq nth_map)
  with mod_shift_inj assms(2) j(1) show False by (metis less_irrefl less_trans)
qed

lemma rr_pick:
  assumes "distinct (map (\<lambda>v. fst (snd v)) (view lb))" and "unat (lb_strategy lb) = c + i" and "i < length (view lb)"
    and "int (length (view lb)) \<le> maxRetries" and "set tried = rr_tried c lb i" and "ctxErr w = None"
  obtains b where "failover_loop RoundRobinStrategy fn ctxErr maxRetries limit (int i) tried lastErr lb w
      = round_with RoundRobinStrategy fn ctxErr maxRetries limit (int i) tried lastErr (lb \<lparr> lb_strategy := lb_strategy lb + 1 \<rparr>) w b"
    "be_addr b = fst (view lb ! ((c + i) mod length (view lb)))" "be_id b = fst (snd (view lb ! ((c + i) mod length (view lb))))"
    "be_id b \<notin> set tried"
proof -
  let ?n = "length (view lb)"
  let ?b = "getHealthyBackends lb ! ((c + i) mod ?n)"
  have n: "?n = length (getHealthyBackends lb)" by (simp add: view_def)
  have m: "(c + i) mod ?n < length (getHealthyBackends lb)" using assms(3) n by (auto intro!: mod_less_divisor)
  have "getHealthyBackends lb \<noteq> []" using m by auto
  then have "sg_Next RoundRobinStrategy (lb_strategy lb) (getHealthyBackends lb) = (int ((c + i) mod ?n), lb_strategy lb + 1)"
    using assms(2) n by (simp add: RoundRobinStrategy_def RoundRobin_Next_def)
  moreover have "in_rounds maxRetries limit (int i)" using assms(3,4) by (simp add: in_rounds_def)
  ultimately have "failover_loop RoundRobinStrategy fn ctxErr maxRetries limit (int i) tried lastErr lb w
      = round_with RoundRobinStrategy fn ctxErr maxRetries limit (int i) tried lastErr (lb \<lparr> lb_strategy := lb_strategy lb + 1 \<rparr>) w ?b"
    using m assms(6) by (intro loop_pick)
  moreover have "be_addr ?b = fst (view lb ! ((c + i) mod ?n))" "be_id ?b = fst (snd (view lb ! ((c + i) mod ?n)))"
    using view_nth [OF m] by simp_all
  ultimately show thesis using that rr_fresh [OF assms(1,3), of c] assms(5) by metis
qed

lemma rr_loop:
  assumes "wf_lb lb" and "lc_HealthCheck (lb_config lb) = None" and "distinct (map (\<lambda>v. fst (snd v)) (view lb))"
    and "unat (lb_strategy lb) = c + i" and "c + length (view lb) < 2 ^ 64" and "i \<le> k" and "k < length (view lb)"
    and "int (length (view lb)) \<le> maxRetries" and "set tried = rr_tried c lb i"
    and "\<forall>w. ctxErr w = None" and "\<forall>a w. fst (fn a w) = out a"
    and "\<forall>j. i \<le> j \<and> j < k \<longrightarrow> (\<exists>e. out (fst (view lb ! ((c + j) mod length (view lb)))) = Some e \<and> retryable (lb_config lb) (Some e))"
    and "out (fst (view lb ! ((c + k) mod length (view lb)))) = None"
  shows "fst (failover_loop RoundRobinStrategy fn ctxErr maxRetries limit (int i) tried lastErr lb w) = None"
  using assms(1-9,12,13)
proof (induction "k - i" arbitrary: i lb tried lastErr w)
  case 0
  have i: "i < length (view lb)" "i = k" using "0" by simp_all
  obtain b where b: "failover_loop RoundRobinStrategy fn ctxErr maxRetries limit (int i) tried lastErr lb w
      = round_with RoundRobinStrategy fn ctxErr maxRetries limit (int i) tried lastErr (lb \<lparr> lb_strategy := lb_strategy lb + 1 \<rparr>) w b"
    "be_addr b = fst (view lb ! ((c + i) mod length (view lb)))" "be_id b \<notin> set tried"
    using rr_pick [where ctxErr = ctxErr and w = w and fn = fn and limit = limit and lastErr = lastErr,
        OF "0.prems"(3,4) i(1) "0.prems"(8,9) assms(10) [rule_format, of w]] by metis
  obtain w' where "fn (be_addr b) w = (None, w')" using assms(11) "0.prems"(11) b(2) i(2) by (metis prod.collapse)
  with b show ?case by (simp add: round_with_def)
next
  case (Suc d)
  have i: "i < length (view lb)" "i < k" using Suc.prems Suc.hyps(2) by simp_all
  let ?lb = "lb \<lparr> lb_strategy := lb_strategy lb + 1 \<rparr>"
  obtain b where b: "failover_loop RoundRobinStrategy fn ctxErr maxRetries limit (int i) tried lastErr lb w
      = round_with RoundRobinStrategy fn ctxErr maxRetries limit (int i) tried lastErr ?lb w b"
    "be_addr b = fst (view lb ! ((c + i) mod length (view lb)))" "be_id b = fst (snd (view lb ! ((c + i) mod length (view lb))))"
    "be_id b \<notin> set tried"
    using rr_pick [where ctxErr = ctxErr and w = w and fn = fn and limit = limit and lastErr = lastErr,
        OF Suc.prems(3,4) i(1) Suc.prems(8,9) assms(10) [rule_format, of w]] by metis
  obtain e where e: "out (be_addr b) = Some e" "retryable (lb_config lb) (Some e)" using Suc.prems(10) i(2) b(2) by auto
  obtain w' where w': "fn (be_addr b) w = (Some e, w')" using assms(11) e(1) by (metis prod.collapse)
  let ?lb3 = "recordRequestError RoundRobinStrategy (be_addr b) e (failed (int i) (be_addr b) ?lb)"
  have wf: "wf_lb ?lb" "lc_HealthCheck (lb_config ?lb) = None" using Suc.prems(1,2) by (simp_all add: wf_lb_def)
  have v: "view ?lb = view lb" by (simp add: view_def getHealthyBackends_def)
  note lb3 = failed_call [OF wf, of RoundRobinStrategy "be_addr b" e "int i"]
  have "unat (lb_strategy lb + 1) = c + Suc i"
    using Suc.prems(4,5) i(1) by (simp add: unat_word_ariths)
  then have strat: "unat (lb_strategy ?lb3) = c + Suc i" using lb3(4) by simp
  have tr: "set (be_id b # tried) = rr_tried c ?lb3 (Suc i)"
    using Suc.prems(9) b(3) lb3(1) v by (simp add: rr_tried_def lessThan_Suc)
  have "fst (failover_loop RoundRobinStrategy fn ctxErr maxRetries limit (int (Suc i)) (be_id b # tried) (Some e) ?lb3 w') = None"
  proof (rule Suc.hyps(1))
    show "d = k - Suc i" using Suc.hyps(2) by simp
    show "wf_lb ?lb3" by (rule lb3)
    show "unat (lb_strategy ?lb3) = c + Suc i" by (rule strat)
    show "set (be_id b # tried) = rr_tried c ?lb3 (Suc i)" by (rule tr)
  qed (use Suc.prems i(2) in \<open>simp_all add: lb3 v\<close>)
  then show ?case using b(1,4) w' e(2) by (simp add: round_with_def add.commute)
qed

text \<open>Round robin fails over to every healthy backend. Without health checks, with distinct identifiers
  and as many retries as there are healthy backends, a request succeeds whenever some healthy
  backend would answer it and the others fail with errors that may be retried, wherever the counter
  stands.\<close>

theorem round_robin_fails_over:
  assumes "wf_lb lb" and "\<not> lb_closed lb" and "lc_HealthCheck (lb_config lb) = None"
    and "distinct (map be_id (getHealthyBackends lb))" and "int (length (getHealthyBackends lb)) \<le> lc_MaxRetries (lb_config lb)"
    and "unat (lb_strategy lb) + length (getHealthyBackends lb) < 2 ^ 64"
    and "\<forall>w. ctxErr w = None" and "\<forall>a w. fst (fn a w) = out a" and "\<forall>a e. out a = Some e \<longrightarrow> retryable (lb_config lb) (Some e)"
    and "b \<in> set (getHealthyBackends lb)" and "out (be_addr b) = None"
  shows "fst (executeWithFailover RoundRobinStrategy fn ctxErr lb w) = None"
proof -
  let ?n = "length (view lb)" and ?c = "unat (lb_strategy lb)"
  have n: "?n = length (getHealthyBackends lb)" by (simp add: view_def)
  have pos: "0 < ?n" using assms(10) n by (cases "getHealthyBackends lb") auto
  obtain m where m: "m < ?n" "getHealthyBackends lb ! m = b" using assms(10) n by (auto simp: in_set_conv_nth)
  obtain k where k: "k < ?n" "(?c + k) mod ?n = m" using mod_shift_surj [OF m(1)] by blast
  let ?P = "\<lambda>k. k < ?n \<and> out (fst (view lb ! ((?c + k) mod ?n))) = None"
  have "?P k" using k m assms(11) n by (simp add: view_nth)
  then obtain k0 where k0: "?P k0" "\<forall>j < k0. \<not> ?P j" using exists_least_iff [of ?P] by blast
  have ids: "distinct (map (\<lambda>v. fst (snd v)) (view lb))" using assms(4) by (simp add: view_def comp_def)
  have earlier: "\<exists>e. out (fst (view lb ! ((?c + j) mod ?n))) = Some e \<and> retryable (lb_config lb) (Some e)" if "j < k0" for j
  proof (cases "out (fst (view lb ! ((?c + j) mod ?n)))")
    case None
    then have "?P j" using k0(1) that by simp
    with k0(2) that show ?thesis by blast
  next
    case (Some e)
    with assms(9) show ?thesis by blast
  qed
  have "fst (failover_loop RoundRobinStrategy fn ctxErr (lc_MaxRetries (lb_config lb)) limit (int 0) [] None lb w) = None" for limit
  proof (rule rr_loop [where c = ?c and k = k0 and out = out])
    show "int ?n \<le> lc_MaxRetries (lb_config lb)" "?c + ?n < 2 ^ 64" using assms(5,6) n by simp_all
    show "set [] = rr_tried ?c lb 0" by (simp add: rr_tried_def)
    show "\<forall>j. 0 \<le> j \<and> j < k0 \<longrightarrow> (\<exists>e. out (fst (view lb ! ((?c + j) mod ?n))) = Some e \<and> retryable (lb_config lb) (Some e))"
      using earlier by blast
    show "k0 < ?n" "out (fst (view lb ! ((?c + k0) mod ?n))) = None" using k0(1) by blast+
  qed (rule assms ids | simp)+
  moreover have "rounds (lb_config lb) (length (lb_backends lb)) = lc_MaxRetries (lb_config lb)"
  proof -
    have "0 < lc_MaxRetries (lb_config lb)" using assms(5) pos n by linarith
    then show ?thesis by (simp add: rounds_def)
  qed
  ultimately show ?thesis using assms(2) by (simp add: executeWithFailover_def)
qed

section \<open>Least connections does not fail over\<close>

lemma least_first: "\<forall>b \<in> set bs. m \<le> be_activeConns b \<Longrightarrow> least_loop i minIdx m bs = minIdx"
  by (induction i minIdx m bs rule: least_loop.induct) auto

lemma least_pick:
  assumes "view lb = (a, i, c) # vs" and "\<forall>v \<in> set vs. c \<le> snd (snd v)"
  shows "sg_Next LeastConnectionsStrategy (lb_strategy lb) (getHealthyBackends lb) = (int 0, ())"
    and "0 < length (getHealthyBackends lb)"
    and "be_addr (getHealthyBackends lb ! 0) = a" and "be_id (getHealthyBackends lb ! 0) = i"
proof -
  obtain b bs where hs: "getHealthyBackends lb = b # bs" using assms(1) by (cases "getHealthyBackends lb") (auto simp: view_def)
  have "be_activeConns b = c" "vs = map (\<lambda>b. (be_addr b, be_id b, be_activeConns b)) bs" "be_addr b = a" "be_id b = i"
    using assms(1) hs by (auto simp: view_def)
  with assms(2) hs show "sg_Next LeastConnectionsStrategy (lb_strategy lb) (getHealthyBackends lb) = (int 0, ())"
    "0 < length (getHealthyBackends lb)"
    "be_addr (getHealthyBackends lb ! 0) = a" "be_id (getHealthyBackends lb ! 0) = i"
    by (auto simp: LeastConnectionsStrategy_def LeastConnections_Next_def least_first)
qed

lemma least_stuck:
  assumes "view lb = (a, i, c) # vs" and "\<forall>v \<in> set vs. c \<le> snd (snd v)" and "i \<in> set tried"
    and "nat ((if maxRetries = - 1 then limit else maxRetries) - attempt) \<le> n"
  shows "\<exists>e lb'. failover_loop LeastConnectionsStrategy fn ctxErr maxRetries limit attempt tried lastErr lb w = (Some e, lb', w)"
  using assms
proof (induction n arbitrary: attempt lb)
  case 0
  then show ?case
    by (cases rule: loop_cases [of LeastConnectionsStrategy fn ctxErr maxRetries limit attempt tried lastErr lb w])
      (auto simp: in_rounds_def split: if_splits)
next
  case (Suc n)
  note pick = least_pick [OF Suc.prems(1,2)]
  show ?case
  proof (cases rule: loop_cases [of LeastConnectionsStrategy fn ctxErr maxRetries limit attempt tried lastErr lb w])
    case (stop e lb')
    then show ?thesis by blast
  next
    case (pick j st)
    have "failover_loop LeastConnectionsStrategy fn ctxErr maxRetries limit attempt tried lastErr lb w
      = failover_loop LeastConnectionsStrategy fn ctxErr maxRetries limit (attempt + 1) tried lastErr (lb \<lparr> lb_strategy := () \<rparr>) w"
      using loop_pick [where fn = fn and ctxErr = ctxErr and w = w, OF pick(1,2) least_pick(1,2) [OF Suc.prems(1,2)]]
        least_pick(4) [OF Suc.prems(1,2)] Suc.prems(3) by (simp add: round_with_def)
    moreover have "view (lb \<lparr> lb_strategy := () \<rparr>) = (a, i, c) # vs" using Suc.prems(1) by (simp add: view_def getHealthyBackends_def)
    moreover have "nat ((if maxRetries = - 1 then limit else maxRetries) - (attempt + 1)) \<le> n" using Suc.prems(4) by auto
    ultimately show ?thesis using Suc.IH [OF _ Suc.prems(2,3)] by metis
  qed
qed

text \<open>With the strategy of least connections a request does not fail over. Where the first healthy
  backend has no more active connections than the others, its failure is followed by rounds that pick
  it again and skip it as already tried: the request fails after that one call, whatever the other
  backends would have answered.\<close>

theorem least_connections_does_not_fail_over:
  assumes "wf_lb lb" and "\<not> lb_closed lb" and "lc_HealthCheck (lb_config lb) = None"
    and "getHealthyBackends lb = b # bs" and "\<forall>x \<in> set bs. be_activeConns b \<le> be_activeConns x"
    and "fn (be_addr b) w = (Some e, w')" and "retryable (lb_config lb) (Some e)"
    and "lc_MaxRetries (lb_config lb) > 0" and "ctxErr w = None"
  shows "\<exists>e' lb'. executeWithFailover LeastConnectionsStrategy fn ctxErr lb w = (Some e', lb', w')"
proof -
  let ?m = "lc_MaxRetries (lb_config lb)" and ?l = "lc_MaxRetriesLimit (lb_config lb)"
  let ?lb = "lb \<lparr> lb_strategy := () \<rparr>"
  let ?lb3 = "recordRequestError LeastConnectionsStrategy (be_addr b) e (failed 0 (be_addr b) ?lb)"
  let ?vs = "map (\<lambda>b. (be_addr b, be_id b, be_activeConns b)) bs"
  have v: "view lb = (be_addr b, be_id b, be_activeConns b) # ?vs" using assms(4) by (simp add: view_def)
  have least: "\<forall>v \<in> set ?vs. be_activeConns b \<le> snd (snd v)" using assms(5) by simp
  have wf: "wf_lb ?lb" "lc_HealthCheck (lb_config ?lb) = None" using assms(1,3) by (simp_all add: wf_lb_def)
  have v3: "view ?lb3 = (be_addr b, be_id b, be_activeConns b) # ?vs"
    unfolding failed_call(1) [OF wf] using v by (simp add: view_def getHealthyBackends_def)
  have "in_rounds ?m ?l 0" using assms(8) by (simp add: in_rounds_def)
  note eq = loop_pick [where fn = fn and ctxErr = ctxErr and w = w, OF this assms(9) least_pick(1,2) [OF v least], of "[]" None]
  have "failover_loop LeastConnectionsStrategy fn ctxErr ?m ?l 0 [] None lb w
    = failover_loop LeastConnectionsStrategy fn ctxErr ?m ?l 1 [be_id b] (Some e) ?lb3 w'"
    using eq assms(4,6,7) by (simp add: round_with_def)
  moreover obtain e' lb' where "failover_loop LeastConnectionsStrategy fn ctxErr ?m ?l 1 [be_id b] (Some e) ?lb3 w' = (Some e', lb', w')"
    using least_stuck [where fn = fn and ctxErr = ctxErr and tried = "[be_id b]" and w = w', OF v3 least _ order_refl] by fastforce
  moreover have "rounds (lb_config lb) (length (lb_backends lb)) = ?m" using assms(8) by (simp add: rounds_def)
  ultimately show ?thesis using assms(2) by (simp add: executeWithFailover_def)
qed

section \<open>Health and identifiers\<close>

definition demo_backend :: "nat \<Rightarrow> backend" where
  "demo_backend n = \<lparr> be_addr = n, be_id = ''backend-'' @ Itoa (int n), be_healthy = True, be_consecutiveFailures = 0,
     be_consecutiveSuccesses = 0, be_activeConns = 0, be_totalReqs = 0, be_totalErrs = 0, be_lastError = None \<rparr>"

definition demo_lb :: "nat \<Rightarrow> 'st \<Rightarrow> 'st LoadBalancer" where
  "demo_lb n st = \<lparr> lb_config = \<lparr> lc_HealthCheck = None, lc_MaxRetries = int n, lc_MaxRetriesLimit = 0,
       lc_RetryableErrors = None, lc_EnableMetrics = False \<rparr>,
     lb_backends = map demo_backend [0..<n], lb_strategy = st, lb_initialized = True, lb_closed = False,
     lb_TotalRequests = 0, lb_TotalRetries = 0, lb_TotalFailures = 0, lb_nextAddr = n \<rparr>"

lemma wf_demo: "wf_lb (demo_lb n st)"
  by (auto simp: wf_lb_def demo_lb_def demo_backend_def comp_def)

definition demo_down :: client_err where "demo_down = OtherErr (ErrNew ''down'')"

lemma demo_retryable [simp]: "lc_RetryableErrors c = None \<Longrightarrow> retryable c (Some demo_down)"
  by (simp add: retryable_def defaultRetryableErrors_def demo_down_def contextCanceled_def contextDeadlineExceeded_def
      errClientNotInitialized_def errClientAlreadyInit_def)

definition demo_fn :: "nat \<Rightarrow> nat \<Rightarrow> client_err option \<times> nat" where
  "demo_fn a w = (if a = 1 then None else Some demo_down, w + 1)"

lemma Itoa_01: "Itoa 0 = ''0''" "Itoa 1 = ''1''"
  by code_simp+

lemma demo_healthy: "getHealthyBackends (demo_lb n st) = map demo_backend [0..<n]"
  by (simp add: getHealthyBackends_def demo_lb_def demo_backend_def)

theorem round_robin_fails_over_witness:
  "fst (executeWithFailover RoundRobinStrategy demo_fn (\<lambda>_. None) (demo_lb 2 0) 0) = None"
proof (rule round_robin_fails_over [where b = "demo_backend 1" and out = "\<lambda>a. if a = 1 then None else Some demo_down"])
  show "distinct (map be_id (getHealthyBackends (demo_lb 2 (0 :: 64 word))))"
    unfolding demo_healthy by (simp add: demo_backend_def upt_rec Itoa_01)
qed (auto simp: wf_demo demo_healthy demo_fn_def, simp_all add: demo_lb_def demo_backend_def)

theorem least_connections_does_not_fail_over_witness:
  "\<exists>e' lb'. executeWithFailover LeastConnectionsStrategy demo_fn (\<lambda>_. None) (demo_lb 2 ()) 0 = (Some e', lb', 1)"
proof (rule least_connections_does_not_fail_over [where b = "demo_backend 0" and bs = "[demo_backend 1]"])
  show "getHealthyBackends (demo_lb 2 ()) = demo_backend 0 # [demo_backend 1]" by (simp add: demo_healthy upt_rec)
  show "demo_fn (be_addr (demo_backend 0)) 0 = (Some demo_down, 1)" by (simp add: demo_fn_def demo_backend_def)
qed (auto simp: wf_demo, simp_all add: demo_lb_def demo_backend_def)


lemma demo_serving: "serving (demo_lb 2 st)"
  by (simp add: serving_def wf_demo demo_healthy) (simp add: demo_lb_def in_rounds_def rounds_def)

theorem request_reaches_a_backend_witness: "calls_of LeastConnectionsStrategy demo_fn (\<lambda>_. None) (demo_lb 2 ()) 0 \<noteq> []"
  using request_reaches_a_backend [OF demo_serving demo_serving demo_serving, where ctxErr = "\<lambda>_. None" and f = demo_fn and w = 0] by simp

text \<open>The counter of consecutive failures is not reset by a successful health check of a healthy backend:
  failures that alternate with successes add up, although the threshold is documented as a number of
  consecutive failures.\<close>

lemma alternating_failures_add_up:
  assumes "hc_UnhealthyThreshold hc = 3"
  shows "map be_healthy (lb_backends (fold (checkBackendHealth sg hc 0) [Some e, None, Some e, None, Some e] (demo_lb 1 st))) = [False]"
  using assms by (simp add: checkBackendHealth_def get_backend_def upd_backend_def reset_strategy_def demo_lb_def demo_backend_def upt_rec Let_def)

text \<open>Generated identifiers count the backends of the moment, so after a removal an added backend can get the
  identifier of another.\<close>

lemma generated_ids_collide:
  "\<exists>lb'. AddBackend sg \<lparr> ld_ID = [], ld_InitiallyHealthy = True \<rparr> None None (snd (RemoveBackend sg ''backend-0'' (demo_lb 2 st))) = (None, lb')
     \<and> map be_id (lb_backends lb') = [''backend-1'', ''backend-1'']"
  by (simp add: AddBackend_def RemoveBackend_def createBackend_def reset_strategy_def demo_lb_def demo_backend_def upt_rec Let_def Itoa_01)

end
