(* ===== verification/Balanced_Client.thy ===== *)
theory Balanced_Client
  imports Load_Balancer Protocol Task_Store
begin

text \<open>
  The methods of \<open>client/loadbalancer.go\<close> that have the interface of a client. Requests go to one backend
  with failover; lists are the union of what the healthy backends return. The client of a backend is
  an argument: a function of the backend's address, the parameters and the state of the world.
\<close>

section \<open>Requests to one backend\<close>

text \<open>The variable \<open>result\<close> that the function passed to \<open>executeWithFailover\<close> assigns is part of the world of the
  loop.\<close>

definition assigning :: "(nat \<Rightarrow> 'w \<Rightarrow> (client_err + 'r) \<times> 'w) \<Rightarrow> nat \<Rightarrow> 'r option \<times> 'w \<Rightarrow> client_err option \<times> 'r option \<times> 'w" where
  "assigning call a rw = (case call a (snd rw) of (Inl e, w') \<Rightarrow> (Some e, fst rw, w') | (Inr r, w') \<Rightarrow> (None, Some r, w'))"

definition lb_request ::
  "'st strategy \<Rightarrow> (nat \<Rightarrow> 'w \<Rightarrow> (client_err + 'r) \<times> 'w) \<Rightarrow> ('w \<Rightarrow> client_err option) \<Rightarrow> 'st LoadBalancer \<Rightarrow> 'w
   \<Rightarrow> ('r option \<times> client_err option) \<times> 'st LoadBalancer \<times> 'w" where
  "lb_request sg call ctxErr lb w =
     (if \<not> lb_initialized lb then ((None, Some (OtherErr errClientNotInitialized)), lb, w)
      else case executeWithFailover sg (assigning call) (\<lambda>rw. ctxErr (snd rw)) lb (None, w) of
             (err, lb', result, w') \<Rightarrow> ((result, err), lb', w'))"

definition lb_Ping :: "'st strategy \<Rightarrow> (nat \<Rightarrow> 'w \<Rightarrow> client_err option \<times> 'w) \<Rightarrow> ('w \<Rightarrow> client_err option) \<Rightarrow> 'st LoadBalancer \<Rightarrow> 'w
   \<Rightarrow> client_err option \<times> 'st LoadBalancer \<times> 'w" where
  "lb_Ping sg ping = lb_forward sg ping"

definition lb_CallTool :: "'st strategy \<Rightarrow> (nat \<Rightarrow> CallToolParams \<Rightarrow> 'w \<Rightarrow> (client_err + CallToolResult) \<times> 'w)
   \<Rightarrow> ('w \<Rightarrow> client_err option) \<Rightarrow> CallToolParams \<Rightarrow> 'st LoadBalancer \<Rightarrow> 'w
   \<Rightarrow> (CallToolResult option \<times> client_err option) \<times> 'st LoadBalancer \<times> 'w" where
  "lb_CallTool sg callTool ctxErr params = lb_request sg (\<lambda>a. callTool a params) ctxErr"

definition lb_ReadResource :: "'st strategy \<Rightarrow> (nat \<Rightarrow> string \<Rightarrow> 'w \<Rightarrow> (client_err + ReadResourceResult) \<times> 'w)
   \<Rightarrow> ('w \<Rightarrow> client_err option) \<Rightarrow> string \<Rightarrow> 'st LoadBalancer \<Rightarrow> 'w
   \<Rightarrow> (ReadResourceResult option \<times> client_err option) \<times> 'st LoadBalancer \<times> 'w" where
  "lb_ReadResource sg readResource ctxErr uri = lb_request sg (\<lambda>a. readResource a uri) ctxErr"

definition lb_SubscribeResource :: "'st strategy \<Rightarrow> (nat \<Rightarrow> string \<Rightarrow> 'w \<Rightarrow> client_err option \<times> 'w) \<Rightarrow> ('w \<Rightarrow> client_err option)
   \<Rightarrow> string \<Rightarrow> 'st LoadBalancer \<Rightarrow> 'w \<Rightarrow> client_err option \<times> 'st LoadBalancer \<times> 'w" where
  "lb_SubscribeResource sg subscribe ctxErr uri = lb_forward sg (\<lambda>a. subscribe a uri) ctxErr"

definition lb_UnsubscribeResource :: "'st strategy \<Rightarrow> (nat \<Rightarrow> string \<Rightarrow> 'w \<Rightarrow> client_err option \<times> 'w) \<Rightarrow> ('w \<Rightarrow> client_err option)
   \<Rightarrow> string \<Rightarrow> 'st LoadBalancer \<Rightarrow> 'w \<Rightarrow> client_err option \<times> 'st LoadBalancer \<times> 'w" where
  "lb_UnsubscribeResource sg unsubscribe ctxErr uri = lb_forward sg (\<lambda>a. unsubscribe a uri) ctxErr"

definition lb_GetPrompt :: "'st strategy \<Rightarrow> (nat \<Rightarrow> string \<times> (string, string) gomap \<Rightarrow> 'w \<Rightarrow> (client_err + GetPromptResult) \<times> 'w)
   \<Rightarrow> ('w \<Rightarrow> client_err option) \<Rightarrow> string \<times> (string, string) gomap \<Rightarrow> 'st LoadBalancer \<Rightarrow> 'w
   \<Rightarrow> (GetPromptResult option \<times> client_err option) \<times> 'st LoadBalancer \<times> 'w" where
  "lb_GetPrompt sg getPrompt ctxErr params = lb_request sg (\<lambda>a. getPrompt a params) ctxErr"

definition lb_Complete :: "'st strategy \<Rightarrow> (nat \<Rightarrow> CompletionRef \<times> CompletionArgument \<Rightarrow> 'w \<Rightarrow> (client_err + CompletionResult) \<times> 'w)
   \<Rightarrow> ('w \<Rightarrow> client_err option) \<Rightarrow> CompletionRef \<times> CompletionArgument \<Rightarrow> 'st LoadBalancer \<Rightarrow> 'w
   \<Rightarrow> (CompletionResult option \<times> client_err option) \<times> 'st LoadBalancer \<times> 'w" where
  "lb_Complete sg complete ctxErr params = lb_request sg (\<lambda>a. complete a params) ctxErr"

definition lb_GetTask :: "'st strategy \<Rightarrow> (nat \<Rightarrow> string \<Rightarrow> 'w \<Rightarrow> (client_err + Task) \<times> 'w)
   \<Rightarrow> ('w \<Rightarrow> client_err option) \<Rightarrow> string \<Rightarrow> 'st LoadBalancer \<Rightarrow> 'w \<Rightarrow> (Task option \<times> client_err option) \<times> 'st LoadBalancer \<times> 'w" where
  "lb_GetTask sg getTask ctxErr taskID = lb_request sg (\<lambda>a. getTask a taskID) ctxErr"

definition lb_GetTaskResult :: "'st strategy \<Rightarrow> (nat \<Rightarrow> string \<Rightarrow> 'w \<Rightarrow> (client_err + CallToolResult) \<times> 'w)
   \<Rightarrow> ('w \<Rightarrow> client_err option) \<Rightarrow> string \<Rightarrow> 'st LoadBalancer \<Rightarrow> 'w
   \<Rightarrow> (CallToolResult option \<times> client_err option) \<times> 'st LoadBalancer \<times> 'w" where
  "lb_GetTaskResult sg getResult ctxErr taskID = lb_request sg (\<lambda>a. getResult a taskID) ctxErr"

definition lb_CancelTask :: "'st strategy \<Rightarrow> (nat \<Rightarrow> string \<Rightarrow> 'w \<Rightarrow> (client_err + Task) \<times> 'w)
   \<Rightarrow> ('w \<Rightarrow> client_err option) \<Rightarrow> string \<Rightarrow> 'st LoadBalancer \<Rightarrow> 'w \<Rightarrow> (Task option \<times> client_err option) \<times> 'st LoadBalancer \<times> 'w" where
  "lb_CancelTask sg cancelTask ctxErr taskID = lb_request sg (\<lambda>a. cancelTask a taskID) ctxErr"

section \<open>Requests to all backends\<close>

record ResourceTemplateInfo =
  rtinfo_URITemplate :: string
  rtinfo_Name :: string
  rtinfo_Description :: string
  rtinfo_MimeType :: string

definition lb_ListTools :: "(client_err + ToolInfo list) list \<Rightarrow> 'st LoadBalancer \<Rightarrow> client_err + ToolInfo list" where
  "lb_ListTools = lb_list tinfo_Name"

definition lb_ListResources :: "(client_err + ResourceInfo list) list \<Rightarrow> 'st LoadBalancer \<Rightarrow> client_err + ResourceInfo list" where
  "lb_ListResources = lb_list rinfo_URI"

definition lb_ListResourceTemplates ::
  "(client_err + ResourceTemplateInfo list) list \<Rightarrow> 'st LoadBalancer \<Rightarrow> client_err + ResourceTemplateInfo list" where
  "lb_ListResourceTemplates = lb_list rtinfo_URITemplate"

definition lb_ListPrompts :: "(client_err + PromptInfo list) list \<Rightarrow> 'st LoadBalancer \<Rightarrow> client_err + PromptInfo list" where
  "lb_ListPrompts = lb_list pinfo_Name"

definition lb_ListRoots :: "(client_err + Root list) list \<Rightarrow> 'st LoadBalancer \<Rightarrow> client_err + Root list" where
  "lb_ListRoots = lb_list root_URI"

definition lb_ListTasks :: "(client_err + Task list) list \<Rightarrow> 'st LoadBalancer \<Rightarrow> client_err + Task list" where
  "lb_ListTasks = lb_list task_TaskID"

text \<open>The errors of the healthy backends, in the order in which they arrive.\<close>

definition lb_SetLogLevel :: "client_err list \<Rightarrow> 'st LoadBalancer \<Rightarrow> client_err option" where
  "lb_SetLogLevel errs lb =
     (if \<not> lb_initialized lb then Some (OtherErr errClientNotInitialized)
      else if getHealthyBackends lb = [] then Some (lb_error ''load balancer: no healthy backends'')
      else case errs of [] \<Rightarrow> None | e # _ \<Rightarrow> Some e)"

text \<open>\<open>ServerInfo\<close>, \<open>ServerCapabilities\<close>, \<open>NegotiatedVersion\<close> and \<open>Instructions\<close> ask the first healthy backend.\<close>

definition lb_first_healthy :: "(nat \<Rightarrow> 'x) \<Rightarrow> 'x \<Rightarrow> 'st LoadBalancer \<Rightarrow> 'x" where
  "lb_first_healthy ask none lb = (case getHealthyBackends lb of [] \<Rightarrow> none | b # _ \<Rightarrow> ask (be_addr b))"

section \<open>Properties\<close>

lemma merge_loop:
  "fst (fold (\<lambda>item (acc, seen). if key item \<in> set seen then (acc, seen) else (acc @ [item], key item # seen)) xs (acc, seen))
     = acc @ fst (fold (\<lambda>item (acc, seen). if key item \<in> set seen then (acc, seen) else (acc @ [item], key item # seen)) xs ([], seen))"
proof (induction xs arbitrary: acc seen)
  case (Cons x xs)
  show ?case using Cons.IH [of "acc @ [x]" "key x # seen"] Cons.IH [of "[x]" "key x # seen"] Cons.IH [of acc seen] by simp
qed simp

fun keep_first :: "('i \<Rightarrow> string) \<Rightarrow> string set \<Rightarrow> 'i list \<Rightarrow> 'i list" where
  "keep_first key seen [] = []"
| "keep_first key seen (x # xs) = (if key x \<in> seen then keep_first key seen xs else x # keep_first key (insert (key x) seen) xs)"

lemma merge_keep_first:
  "fst (fold (\<lambda>item (acc, seen). if key item \<in> set seen then (acc, seen) else (acc @ [item], key item # seen)) xs ([], seen))
     = keep_first key (set seen) xs"
  by (induction xs arbitrary: seen) (simp_all, subst merge_loop, simp)

lemma keep_first_props:
  "set (keep_first key seen xs) \<subseteq> set xs \<and> distinct (map key (keep_first key seen xs))
   \<and> key ` set (keep_first key seen xs) = key ` set xs - seen"
  by (induction key seen xs rule: keep_first.induct) (auto simp: image_iff)

lemma list_exact:
  assumes "lb_initialized lb" and "getHealthyBackends lb \<noteq> []"
  shows "\<exists>items. lb_list key answers lb = Inr items \<and> distinct (map key items)
    \<and> (\<forall>t \<in> set items. \<exists>page. Inr page \<in> set answers \<and> t \<in> set page)
    \<and> key ` set items = {key t | t page. Inr page \<in> set answers \<and> t \<in> set page}"
proof -
  define pages where "pages = concat (map (\<lambda>r. case r of Inr xs \<Rightarrow> [xs] | Inl _ \<Rightarrow> []) answers)"
  define items where "items = keep_first key {} (concat pages)"
  have l: "lb_list key answers lb = Inr items"
    using assms merge_keep_first [of key "concat pages" "[]"] by (simp add: lb_list_def merge_seen_def items_def pages_def)
  have "page \<in> set pages \<longleftrightarrow> Inr page \<in> set answers" for page
    unfolding pages_def by (induction answers) (auto split: sum.splits)
  then have mem: "t \<in> set (concat pages) \<longleftrightarrow> (\<exists>page. Inr page \<in> set answers \<and> t \<in> set page)" for t by auto
  have "set items \<subseteq> set (concat pages)" "distinct (map key items)" "key ` set items = key ` set (concat pages)"
    using keep_first_props [of key "{}" "concat pages"] by (simp_all add: items_def)
  moreover have "key ` set (concat pages) = {key t | t page. Inr page \<in> set answers \<and> t \<in> set page}" using mem by blast
  ultimately show ?thesis using l mem by blast
qed

lemma list_keys_exact:
  assumes "lb_initialized lb" and "getHealthyBackends lb \<noteq> []"
  shows "\<exists>items. lb_list key answers lb = Inr items \<and> distinct (map key items)
    \<and> key ` set items = {key t | t page. Inr page \<in> set answers \<and> t \<in> set page}"
  using list_exact [OF assms, of key answers] by (elim exE conjE) (intro exI conjI)

text \<open>The union is exact. What an initialized pool with a healthy backend lists are items that some
  backend listed, with distinct keys, and the keys are those of all items listed by the backends that
  answered: names of tools and prompts, URIs of resources and roots, templates, identifiers of tasks.\<close>

theorem union_is_exact:
  assumes "lb_initialized lb" and "getHealthyBackends lb \<noteq> []"
  shows "(\<exists>tools. lb_ListTools ts lb = Inr tools \<and> distinct (map tinfo_Name tools)
      \<and> (\<forall>t \<in> set tools. \<exists>page. Inr page \<in> set ts \<and> t \<in> set page)
      \<and> tinfo_Name ` set tools = {tinfo_Name t | t page. Inr page \<in> set ts \<and> t \<in> set page})
    \<and> (\<exists>resources. lb_ListResources rs lb = Inr resources \<and> distinct (map rinfo_URI resources)
      \<and> rinfo_URI ` set resources = {rinfo_URI r | r page. Inr page \<in> set rs \<and> r \<in> set page})
    \<and> (\<exists>templates. lb_ListResourceTemplates us lb = Inr templates \<and> distinct (map rtinfo_URITemplate templates)
      \<and> rtinfo_URITemplate ` set templates = {rtinfo_URITemplate u | u page. Inr page \<in> set us \<and> u \<in> set page})
    \<and> (\<exists>prompts. lb_ListPrompts ps lb = Inr prompts \<and> distinct (map pinfo_Name prompts)
      \<and> pinfo_Name ` set prompts = {pinfo_Name p | p page. Inr page \<in> set ps \<and> p \<in> set page})
    \<and> (\<exists>roots. lb_ListRoots os lb = Inr roots \<and> distinct (map root_URI roots)
      \<and> root_URI ` set roots = {root_URI r | r page. Inr page \<in> set os \<and> r \<in> set page})
    \<and> (\<exists>tasks. lb_ListTasks ks lb = Inr tasks \<and> distinct (map task_TaskID tasks)
      \<and> task_TaskID ` set tasks = {task_TaskID k | k page. Inr page \<in> set ks \<and> k \<in> set page})"
  unfolding lb_ListTools_def lb_ListResources_def lb_ListResourceTemplates_def lb_ListPrompts_def lb_ListRoots_def lb_ListTasks_def
  by (intro conjI list_exact [OF assms] list_keys_exact [OF assms])

theorem union_is_exact_witness:
  "\<exists>roots. lb_ListRoots [Inr [\<lparr> root_URI = ''a'', root_Name = ''x'' \<rparr>], Inr [\<lparr> root_URI = ''a'', root_Name = ''y'' \<rparr>]] (demo_lb 2 ()) = Inr roots
     \<and> distinct (map root_URI roots)"
  using union_is_exact [of "demo_lb 2 ()" "[]" "[]" "[]" "[]" "[Inr [\<lparr> root_URI = ''a'', root_Name = ''x'' \<rparr>], Inr [\<lparr> root_URI = ''a'', root_Name = ''y'' \<rparr>]]" "[]"]
  by (auto simp: demo_healthy) (auto simp: demo_lb_def)

end
