(* ===== verification/Client_Core.thy ===== *)
theory Client_Core
  imports Pending Client_Errors Correlation
begin

text \<open>
  The heart of \<open>client/client.go\<close>: the table of pending requests, the calls that wait in it
  (\<open>callDirect\<close> and \<open>executeRequest\<close>), the goroutine that reads from the transport (\<open>reconnectLoop\<close>,
  \<open>readLoopCore\<close>, \<open>handleMessage\<close>, \<open>deliverResponse\<close>), the failing of pending requests and \<open>Close\<close>. Calls,
  readers and closers are goroutines; every access to shared state is one step. A reader is started
  by every \<open>Initialize\<close> of a client that is not initialized. What the transport does and what the
  server sends is arbitrary.
\<close>

section \<open>State\<close>

text \<open>A channel of a pending request; a nil response is \<open>None\<close>.\<close>

record cchan =
  cc_id :: string
  cc_buf :: "client_response option list"
  cc_closed :: bool

datatype call_result = CGot "client_response option" | CFailed client_err

datatype call_pc =
    CIdle
  | CSend string nat
  | CWait string nat
  | CReturn string call_result
  | CDone string call_result

text \<open>
  The points of a reader: waiting for a message, before the send on a channel, before
  \<open>failPendingRequests\<close> and within it with the channels that are left, reconnecting, and ended. The flag says
  whether reconnecting is enabled.
\<close>

datatype reader_pc =
    RIdle
  | RReceive
  | RDeliver nat client_response
  | RCollect bool
  | RFail "nat list" bool
  | RReconnect
  | RStopped
  | RPanic string

datatype closer_pc = XIdle | XCancel | XWait | XDone

record Client =
  c_pending :: "(string, nat) gomap"
  c_idSeq :: "64 word"
  c_closed :: bool
  c_initialized :: bool
  c_readCancelled :: bool
  c_readStarted :: bool
  c_readDone :: bool
  c_chans :: "cchan list"
  c_calls :: "nat \<Rightarrow> call_pc"
  c_readers :: "nat \<Rightarrow> reader_pc"
  c_closers :: "nat \<Rightarrow> closer_pc"

definition New_client :: Client where
  "New_client = \<lparr> c_pending = [], c_idSeq = 0, c_closed = False, c_initialized = False, c_readCancelled = False,
     c_readStarted = False, c_readDone = False, c_chans = [], c_calls = (\<lambda>_. CIdle), c_readers = (\<lambda>_. RIdle), c_closers = (\<lambda>_. XIdle) \<rparr>"

definition call_id :: "64 word \<Rightarrow> string" where
  "call_id n = ''c-'' @ Itoa (uint n)"

definition requireInit :: "Client \<Rightarrow> client_err option" where
  "requireInit c = (if \<not> c_initialized c then Some (OtherErr errClientNotInitialized)
     else if c_closed c then Some (OtherErr errClientClosed) else None)"

section \<open>Calls\<close>

definition at_call :: "nat \<Rightarrow> call_pc \<Rightarrow> Client \<Rightarrow> Client" where
  "at_call t pc c = c \<lparr> c_calls := (c_calls c)(t := pc) \<rparr>"

definition set_chan :: "nat \<Rightarrow> (cchan \<Rightarrow> cchan) \<Rightarrow> Client \<Rightarrow> Client" where
  "set_chan ch f c = c \<lparr> c_chans := (c_chans c)[ch := f (c_chans c ! ch)] \<rparr>"

definition Call_register :: "nat \<Rightarrow> Client \<Rightarrow> Client" where
  "Call_register t c =
     (if c_closed c then at_call t (CDone [] (CFailed (OtherErr errClientClosed))) c
      else let n = c_idSeq c + 1; i = call_id n; ch = length (c_chans c)
           in at_call t (CSend i ch) (c \<lparr> c_idSeq := n, c_pending := mput i ch (c_pending c),
                c_chans := c_chans c @ [\<lparr> cc_id = i, cc_buf = [], cc_closed = False \<rparr>] \<rparr>))"

text \<open>Encoding and sending, which fail with an error or succeed.\<close>

definition Call_send :: "nat \<Rightarrow> client_err option \<Rightarrow> Client \<Rightarrow> Client" where
  "Call_send t failure c =
     (case c_calls c t of
        CSend i ch \<Rightarrow> at_call t (case failure of None \<Rightarrow> CWait i ch | Some e \<Rightarrow> CReturn i (CFailed e)) c
      | _ \<Rightarrow> c)"

definition call_can_receive :: "nat \<Rightarrow> Client \<Rightarrow> bool" where
  "call_can_receive t c = (case c_calls c t of
       CWait i ch \<Rightarrow> cc_buf (c_chans c ! ch) \<noteq> [] \<or> cc_closed (c_chans c ! ch) | _ \<Rightarrow> False)"

text \<open>Receiving from a closed channel gives nil.\<close>

definition Call_receive :: "nat \<Rightarrow> Client \<Rightarrow> Client" where
  "Call_receive t c =
     (case c_calls c t of
        CWait i ch \<Rightarrow>
          (case cc_buf (c_chans c ! ch) of
             r # rs \<Rightarrow> at_call t (CReturn i (CGot r)) (set_chan ch (\<lambda>x. x \<lparr> cc_buf := rs \<rparr>) c)
           | [] \<Rightarrow> at_call t (CReturn i (CGot None)) c)
      | _ \<Rightarrow> c)"

definition Call_cancelled :: "nat \<Rightarrow> goerr \<Rightarrow> Client \<Rightarrow> Client" where
  "Call_cancelled t err c = (case c_calls c t of CWait i ch \<Rightarrow> at_call t (CReturn i (CFailed (OtherErr err))) c | _ \<Rightarrow> c)"

definition Call_cleanup :: "nat \<Rightarrow> Client \<Rightarrow> Client" where
  "Call_cleanup t c =
     (case c_calls c t of CReturn i r \<Rightarrow> at_call t (CDone i r) (c \<lparr> c_pending := mdel i (c_pending c) \<rparr>) | _ \<Rightarrow> c)"

text \<open>What the caller sees: a nil response is a lost connection, and the result is decoded.\<close>

definition call_outcome :: "(json option \<Rightarrow> string + 'r) \<Rightarrow> call_result \<Rightarrow> client_err + 'r" where
  "call_outcome decode r =
     (case r of
        CFailed e \<Rightarrow> Inl e
      | CGot None \<Rightarrow> Inl (OtherErr errClientClosed)
      | CGot (Some resp) \<Rightarrow>
          (case resp_Error resp of
             Some e \<Rightarrow> Inl (ResponseError (err_Code e) (err_Message e) (err_Data e))
           | None \<Rightarrow> (case decode (resp_Result resp) of
                        Inl m \<Rightarrow> Inl (OtherErr (Wrapped (''client: decode result: '' @ m) (ErrNew m)))
                      | Inr v \<Rightarrow> Inr v)))"

section \<open>Readers\<close>

definition at_reader :: "nat \<Rightarrow> reader_pc \<Rightarrow> Client \<Rightarrow> Client" where
  "at_reader r pc c = c \<lparr> c_readers := (c_readers c)(r := pc) \<rparr>"

text \<open>The kinds of messages that \<open>handleMessage\<close> tells apart.\<close>

datatype inbound = InResponse | InRequest JSONRPCRequest | InNotification string "json option" | InIgnored

definition handleMessage :: "json option \<Rightarrow> inbound" where
  "handleMessage data =
     (if IsResponse data then InResponse
      else case data of
             None \<Rightarrow> InIgnored
           | Some v \<Rightarrow>
               (case UnmarshalRequest v of
                  None \<Rightarrow> InIgnored
                | Some msg \<Rightarrow>
                    if req_Method msg = [] then InResponse
                    else if req_hasID msg then InRequest msg
                    else InNotification (req_Method msg) (req_Params msg)))"

text \<open>\<open>deliverResponse\<close>: decoding and the lookup under the mutex, then the send that does not block. A message
  of another kind leaves the table alone.\<close>

definition Read_message :: "(json option \<Rightarrow> string) \<Rightarrow> nat \<Rightarrow> json option \<Rightarrow> Client \<Rightarrow> Client" where
  "Read_message fmtv r data c =
     (case handleMessage data of
        InResponse \<Rightarrow>
          (case (case data of None \<Rightarrow> None | Some v \<Rightarrow> UnmarshalResponse v) of
             None \<Rightarrow> c
           | Some resp \<Rightarrow>
               (case mget (c_pending c) (response_key fmtv resp) of
                  None \<Rightarrow> c
                | Some ch \<Rightarrow> at_reader r (RDeliver ch resp) c))
      | _ \<Rightarrow> c)"

definition Read_deliver :: "nat \<Rightarrow> Client \<Rightarrow> Client" where
  "Read_deliver r c =
     (case c_readers c r of
        RDeliver ch resp \<Rightarrow>
          if cc_closed (c_chans c ! ch) then at_reader r (RPanic ''send on closed channel'') c
          else at_reader r RReceive (if cc_buf (c_chans c ! ch) = [] then set_chan ch (\<lambda>x. x \<lparr> cc_buf := [Some resp] \<rparr>) c else c)
      | _ \<Rightarrow> c)"

text \<open>The end of a reader closes \<open>readDone\<close>.\<close>

definition Read_stop :: "nat \<Rightarrow> Client \<Rightarrow> Client" where
  "Read_stop r c =
     (if c_readDone c then at_reader r (RPanic ''close of closed channel'') c
      else at_reader r RStopped (c \<lparr> c_readDone := True \<rparr>))"

text \<open>The transport fails. \<open>readLoopCore\<close> returns nil for the end of the stream, a cancelled context and
  once the read context is done; \<open>reconnectLoop\<close> decides how to go on.\<close>

definition Read_error :: "bool \<Rightarrow> nat \<Rightarrow> goerr \<Rightarrow> Client \<Rightarrow> Client" where
  "Read_error reconnectEnabled r err c =
     (let clean = (errors_is err ioEOF \<or> errors_is err contextCanceled \<or> c_readCancelled c)
      in if clean \<and> (c_readCancelled c \<or> c_closed c) then Read_stop r c
         else if \<not> reconnectEnabled then at_reader r (RCollect False) c
         else if c_readCancelled c then Read_stop r c
         else at_reader r (RCollect True) (c \<lparr> c_initialized := False \<rparr>))"

definition Read_collect :: "nat \<Rightarrow> Client \<Rightarrow> Client" where
  "Read_collect r c =
     (case c_readers c r of
        RCollect en \<Rightarrow> at_reader r (RFail (mvals (c_pending c)) en) (c \<lparr> c_pending := [] \<rparr>)
      | _ \<Rightarrow> c)"

text \<open>The send of nil blocks as long as the channel is full.\<close>

definition can_fail :: "nat \<Rightarrow> Client \<Rightarrow> bool" where
  "can_fail r c = (case c_readers c r of RFail (ch # chs) en \<Rightarrow> cc_buf (c_chans c ! ch) = [] \<or> cc_closed (c_chans c ! ch) | _ \<Rightarrow> False)"

definition Read_fail :: "nat \<Rightarrow> Client \<Rightarrow> Client" where
  "Read_fail r c =
     (case c_readers c r of
        RFail (ch # chs) en \<Rightarrow>
          if cc_closed (c_chans c ! ch) then at_reader r (RPanic ''send on closed channel'') c
          else at_reader r (RFail chs en) (set_chan ch (\<lambda>x. x \<lparr> cc_buf := [None] \<rparr>) c)
      | _ \<Rightarrow> c)"

definition Read_failed :: "nat \<Rightarrow> Client \<Rightarrow> Client" where
  "Read_failed r c =
     (case c_readers c r of
        RFail [] en \<Rightarrow> if en then at_reader r RReconnect c else Read_stop r c
      | _ \<Rightarrow> c)"

text \<open>Reconnecting: every attempt that gets to the handshake takes an identifier; in the end the
  session is initialized again or the loop gives up.\<close>

definition Reconnect_attempt :: "Client \<Rightarrow> Client" where
  "Reconnect_attempt c = c \<lparr> c_idSeq := c_idSeq c + 1 \<rparr>"

definition Reconnected :: "nat \<Rightarrow> Client \<Rightarrow> Client" where
  "Reconnected r c = at_reader r RReceive (c \<lparr> c_initialized := True \<rparr>)"

section \<open>Starting and closing\<close>

definition Initialize_start :: "nat \<Rightarrow> Client \<Rightarrow> Client" where
  "Initialize_start r c = at_reader r RReceive (c \<lparr> c_readStarted := True \<rparr>)"

definition Initialize_end :: "Client \<Rightarrow> Client" where
  "Initialize_end c = c \<lparr> c_initialized := True \<rparr>"

text \<open>\<open>Close\<close>, under the mutex: every pending channel gets nil, or is closed where it is full.\<close>

definition notify_closed :: "cchan \<Rightarrow> cchan" where
  "notify_closed x = (if cc_buf x = [] then x \<lparr> cc_buf := [None] \<rparr> else x \<lparr> cc_closed := True \<rparr>)"

definition Close_lock :: "nat \<Rightarrow> Client \<Rightarrow> Client" where
  "Close_lock k c =
     (if c_closed c then c \<lparr> c_closers := (c_closers c)(k := XDone) \<rparr>
      else c \<lparr> c_closed := True, c_pending := [],
               c_chans := fold (\<lambda>(_, ch) cs. cs[ch := notify_closed (cs ! ch)]) (c_pending c) (c_chans c),
               c_closers := (c_closers c)(k := XCancel) \<rparr>)"

definition Close_cancel :: "nat \<Rightarrow> Client \<Rightarrow> Client" where
  "Close_cancel k c = c \<lparr> c_readCancelled := True, c_closers := (c_closers c)(k := XWait) \<rparr>"

definition Close_done :: "nat \<Rightarrow> Client \<Rightarrow> Client" where
  "Close_done k c = c \<lparr> c_closers := (c_closers c)(k := XDone) \<rparr>"

section \<open>Steps\<close>

inductive cstep :: "(json option \<Rightarrow> string) \<Rightarrow> bool \<Rightarrow> Client \<Rightarrow> Client \<Rightarrow> bool" for fmtv en where
  register: "c_calls c t = CIdle \<Longrightarrow> cstep fmtv en c (Call_register t c)"
| send: "c_calls c t = CSend i ch \<Longrightarrow> cstep fmtv en c (Call_send t failure c)"
| receive: "call_can_receive t c \<Longrightarrow> cstep fmtv en c (Call_receive t c)"
| cancelled: "c_calls c t = CWait i ch \<Longrightarrow> cstep fmtv en c (Call_cancelled t err c)"
| cleanup: "c_calls c t = CReturn i res \<Longrightarrow> cstep fmtv en c (Call_cleanup t c)"
| message: "c_readers c r = RReceive \<Longrightarrow> cstep fmtv en c (Read_message fmtv r data c)"
| deliver: "c_readers c r = RDeliver ch resp \<Longrightarrow> cstep fmtv en c (Read_deliver r c)"
| broken: "c_readers c r = RReceive \<Longrightarrow> cstep fmtv en c (Read_error en r err c)"
| collect: "c_readers c r = RCollect b \<Longrightarrow> cstep fmtv en c (Read_collect r c)"
| fail: "can_fail r c \<Longrightarrow> cstep fmtv en c (Read_fail r c)"
| failed: "c_readers c r = RFail [] b \<Longrightarrow> cstep fmtv en c (Read_failed r c)"
| attempt: "c_readers c r = RReconnect \<Longrightarrow> cstep fmtv en c (Reconnect_attempt c)"
| reconnected: "c_readers c r = RReconnect \<Longrightarrow> cstep fmtv en c (Reconnected r c)"
| gave_up: "c_readers c r = RReconnect \<Longrightarrow> cstep fmtv en c (Read_stop r c)"
| start: "c_readers c r = RIdle \<Longrightarrow> \<not> c_initialized c \<Longrightarrow> cstep fmtv en c (Initialize_start r c)"
| initialized: "c_readStarted c \<Longrightarrow> c_calls c t = CDone i (CGot (Some resp)) \<Longrightarrow> cstep fmtv en c (Initialize_end c)"
| close: "c_closers c k = XIdle \<Longrightarrow> cstep fmtv en c (Close_lock k c)"
| close_cancel: "c_closers c k = XCancel \<Longrightarrow> cstep fmtv en c (Close_cancel k c)"
| close_done: "c_closers c k = XWait \<Longrightarrow> c_readDone c \<or> \<not> c_readStarted c \<Longrightarrow> cstep fmtv en c (Close_done k c)"

inductive client_reaches :: "(json option \<Rightarrow> string) \<Rightarrow> bool \<Rightarrow> nat \<Rightarrow> Client \<Rightarrow> bool" for fmtv en where
  start [intro]: "client_reaches fmtv en 0 New_client"
| step: "client_reaches fmtv en n c \<Longrightarrow> cstep fmtv en c c' \<Longrightarrow> client_reaches fmtv en (Suc n) c'"

section \<open>Correlation\<close>

fun call_ref :: "call_pc \<Rightarrow> (string \<times> nat) option" where
  "call_ref (CSend i ch) = Some (i, ch)" | "call_ref (CWait i ch) = Some (i, ch)" | "call_ref _ = None"

fun reader_ref :: "(json option \<Rightarrow> string) \<Rightarrow> reader_pc \<Rightarrow> (string \<times> nat) option" where
  "reader_ref fmtv (RDeliver ch r) = Some (response_key fmtv r, ch)" | "reader_ref fmtv _ = None"

fun call_got :: "call_pc \<Rightarrow> (string \<times> client_response) option" where
  "call_got (CReturn i (CGot (Some r))) = Some (i, r)" | "call_got (CDone i (CGot (Some r))) = Some (i, r)" | "call_got _ = None"

definition c_owner :: "Client \<Rightarrow> nat \<Rightarrow> string option" where
  "c_owner c ch = (if ch < length (c_chans c) then Some (cc_id (c_chans c ! ch)) else None)"

definition c_held :: "Client \<Rightarrow> nat \<Rightarrow> client_response set" where
  "c_held c ch = (if ch < length (c_chans c) then {r. Some r \<in> set (cc_buf (c_chans c ! ch))} else {})"

definition c_refs :: "(json option \<Rightarrow> string) \<Rightarrow> Client \<Rightarrow> (string \<times> nat) set" where
  "c_refs fmtv c = {x. (\<exists>t. call_ref (c_calls c t) = Some x) \<or> (\<exists>r. reader_ref fmtv (c_readers c r) = Some x)}"

definition c_got :: "Client \<Rightarrow> (string \<times> client_response) set" where
  "c_got c = {x. \<exists>t. call_got (c_calls c t) = Some x}"

lemmas call_defs = Call_register_def Call_send_def Call_receive_def Call_cancelled_def Call_cleanup_def
lemmas read_defs = Read_message_def Read_deliver_def Read_error_def Read_collect_def Read_fail_def Read_failed_def Read_stop_def
  Reconnect_attempt_def Reconnected_def Initialize_start_def Initialize_end_def
lemmas close_defs = Close_lock_def Close_cancel_def Close_done_def
lemmas step_defs = call_defs read_defs close_defs at_call_def at_reader_def set_chan_def Let_def
lemmas pc_splits = call_pc.splits reader_pc.splits list.splits option.splits inbound.splits if_splits

lemma notify_fold:
  "length (fold (\<lambda>(_, ch) cs. cs[ch := notify_closed (cs ! ch)]) m cs) = length cs"
  "ch < length cs \<Longrightarrow> cc_id (fold (\<lambda>(_, ch) cs. cs[ch := notify_closed (cs ! ch)]) m cs ! ch) = cc_id (cs ! ch)
     \<and> {r. Some r \<in> set (cc_buf (fold (\<lambda>(_, ch) cs. cs[ch := notify_closed (cs ! ch)]) m cs ! ch))} = {r. Some r \<in> set (cc_buf (cs ! ch))}"
proof (induction m arbitrary: cs)
  case (Cons p m)
  { case 1 show ?case using Cons(1) by (simp add: case_prod_unfold) }
  { case 2 then show ?case using Cons(2) [of "cs[snd p := notify_closed (cs ! snd p)]"]
      by (auto simp: case_prod_unfold nth_update_any notify_closed_def) }
qed simp_all

lemma owner_keep:
  assumes "cstep fmtv en c c'" "ch < length (c_chans c)"
  shows "ch < length (c_chans c') \<and> cc_id (c_chans c' ! ch) = cc_id (c_chans c ! ch)"
  using assms
  by (induction rule: cstep.induct)
     (auto simp: step_defs nth_append nth_update_any notify_fold split: pc_splits)

lemma pend_keep:
  assumes "cstep fmtv en c c'" "mget (c_pending c') i = Some ch"
  shows "mget (c_pending c) i = Some ch \<or> ch < length (c_chans c') \<and> cc_id (c_chans c' ! ch) = i"
  using assms
  by (induction rule: cstep.induct) (auto simp: step_defs gomap_simps split: pc_splits)

lemma call_ref_keep:
  assumes "cstep fmtv en c c'" "call_ref (c_calls c' t) = Some (i, ch)"
  shows "call_ref (c_calls c t) = Some (i, ch) \<or> ch = length (c_chans c) \<and> c_calls c t = CIdle \<and> c_calls c' t = CSend i ch
     \<and> c_idSeq c' = c_idSeq c + 1 \<and> i = call_id (c_idSeq c') \<and> mget (c_pending c') i = Some ch
     \<and> ch < length (c_chans c') \<and> cc_id (c_chans c' ! ch) = i"
  using assms
  by (induction rule: cstep.induct) (auto simp: step_defs gomap_simps split: pc_splits)

lemma reader_ref_keep:
  assumes "cstep fmtv en c c'" "reader_ref fmtv (c_readers c' r) = Some (i, ch)"
  shows "reader_ref fmtv (c_readers c r) = Some (i, ch) \<or> mget (c_pending c) i = Some ch"
  using assms
  by (induction rule: cstep.induct) (auto simp: step_defs split: pc_splits)

lemma held_keep:
  assumes "cstep fmtv en c c'" "ch < length (c_chans c')" "Some x \<in> set (cc_buf (c_chans c' ! ch))"
  shows "ch < length (c_chans c) \<and> Some x \<in> set (cc_buf (c_chans c ! ch)) \<or> (\<exists>r. c_readers c r = RDeliver ch x)"
  using assms
proof (induction rule: cstep.induct)
  case (close c k)
  then show ?case using notify_fold(2) [of ch "c_chans c" "c_pending c"] by (auto simp: Close_lock_def notify_fold(1) split: if_splits)
qed (auto simp: step_defs nth_append nth_update_any split: pc_splits)

lemma call_got_iff: "call_got pc = Some (i, r) \<longleftrightarrow> pc = CReturn i (CGot (Some r)) \<or> pc = CDone i (CGot (Some r))"
  by (induction pc rule: call_got.induct) auto

lemma reader_ref_iff: "reader_ref fmtv pc = Some x \<longleftrightarrow> (\<exists>ch r. pc = RDeliver ch r \<and> x = (response_key fmtv r, ch))"
  by (cases pc) auto

lemma got_keep:
  assumes "cstep fmtv en c c'" "call_got (c_calls c' t) = Some (i, x)"
  shows "call_got (c_calls c t) = Some (i, x) \<or> (\<exists>ch. call_ref (c_calls c t) = Some (i, ch) \<and> Some x \<in> set (cc_buf (c_chans c ! ch)))"
  using assms
  by (induction rule: cstep.induct) (auto simp: step_defs call_got_iff split: pc_splits)

interpretation cc: correlation "cstep fmtv en" "\<lambda>c. mget (c_pending c)" c_owner c_held "c_refs fmtv" c_got "response_key fmtv"
proof
  fix c c' assume st: "cstep fmtv en c c'"
  show "c_owner c ch = Some i \<Longrightarrow> c_owner c' ch = Some i" for ch i
    using owner_keep [OF st, of ch] by (auto simp: c_owner_def split: if_splits)
  show "mget (c_pending c') i = Some ch \<Longrightarrow> mget (c_pending c) i = Some ch \<or> c_owner c' ch = Some i" for i ch
    using pend_keep [OF st] by (auto simp: c_owner_def)
  show "(i, ch) \<in> c_refs fmtv c' \<Longrightarrow> (i, ch) \<in> c_refs fmtv c \<or> mget (c_pending c) i = Some ch \<or> c_owner c' ch = Some i" for i ch
    using call_ref_keep [OF st, of _ i ch] reader_ref_keep [OF st, of _ i ch] by (fastforce simp: c_refs_def c_owner_def)
  show "r \<in> c_held c' ch \<Longrightarrow> r \<in> c_held c ch \<or> (response_key fmtv r, ch) \<in> c_refs fmtv c" for r ch
    using held_keep [OF st, of ch r] unfolding c_held_def c_refs_def reader_ref_iff by (auto split: if_splits)
  show "(i, r) \<in> c_got c \<or> (\<exists>ch. (i, ch) \<in> c_refs fmtv c \<and> (c_owner c ch = Some i \<longrightarrow> r \<in> c_held c ch))"
    if "(i, r) \<in> c_got c'" for i r
  proof -
    from that obtain t where "call_got (c_calls c' t) = Some (i, r)" by (auto simp: c_got_def)
    from got_keep [OF st this] show ?thesis
    proof (elim disjE exE conjE)
      fix ch assume "call_ref (c_calls c t) = Some (i, ch)" "Some r \<in> set (cc_buf (c_chans c ! ch))"
      then have "(i, ch) \<in> c_refs fmtv c \<and> (c_owner c ch = Some i \<longrightarrow> r \<in> c_held c ch)"
        unfolding c_refs_def c_owner_def c_held_def by auto
      then show ?thesis by blast
    qed (auto simp: c_got_def)
  qed
qed

lemma client_matched: "client_reaches fmtv en n c \<Longrightarrow> cc.matched fmtv c"
proof (induction rule: client_reaches.induct)
  case start
  show ?case unfolding cc.matched_def by (simp add: New_client_def c_refs_def c_held_def c_got_def)
qed (rule cc.matched_step)

text \<open>C3: A call of the client only ever returns the response that carries its own identifier, whatever the
  server sends, however calls, cancellations, lost connections, reconnections and \<open>Close\<close> interleave, and
  even after the counter has wrapped around.\<close>

theorem client_returns_own_response:
  assumes "client_reaches fmtv en n c" and "c_calls c t = CDone i (CGot (Some r))"
  shows "response_key fmtv r = i"
proof (rule cc.got_own [OF client_matched [OF assms(1)]])
  show "(i, r) \<in> c_got c" using assms(2) by (auto simp: c_got_def intro!: exI [of _ t])
qed

section \<open>No call is left behind\<close>

text \<open>A channel is woken when its caller can receive from it, or when a reader is about to send nil on it.\<close>

definition ready :: "cchan \<Rightarrow> bool" where
  "ready x \<longleftrightarrow> cc_buf x \<noteq> [] \<or> cc_closed x"

definition woken :: "Client \<Rightarrow> nat \<Rightarrow> bool" where
  "woken c ch \<longleftrightarrow> ready (c_chans c ! ch) \<or> (\<exists>r chs en. c_readers c r = RFail chs en \<and> ch \<in> set chs)"

fun call_id_of :: "call_pc \<Rightarrow> string option" where
  "call_id_of (CSend i ch) = Some i" | "call_id_of (CWait i ch) = Some i" | "call_id_of (CReturn i r) = Some i" | "call_id_of _ = None"

lemma ref_id: "call_ref pc = Some (i, ch) \<Longrightarrow> call_id_of pc = Some i"
  by (cases pc) auto

lemma call_id_inj: "call_id m = call_id n \<Longrightarrow> m = n"
proof -
  assume "call_id m = call_id n"
  then have "Itoa_nat (unat m) = Itoa_nat (unat n)" by (simp add: call_id_def Itoa_def)
  then show ?thesis using digits_val_Itoa_nat by (metis option.inject unsigned_word_eqI)
qed

lemma id_keep:
  assumes "cstep fmtv en c c'" "call_id_of (c_calls c' t) = Some i"
  shows "call_id_of (c_calls c t) = Some i \<or> c_calls c t = CIdle \<and> i = call_id (c_idSeq c + 1) \<and> c_idSeq c' = c_idSeq c + 1"
  using assms
  by (induction rule: cstep.induct) (auto simp: step_defs split: pc_splits)

lemma one_caller:
  assumes "cstep fmtv en c c'" "c_calls c' t \<noteq> c_calls c t" "c_calls c' u \<noteq> c_calls c u"
  shows "t = u"
  using assms
  by (induction rule: cstep.induct) (auto simp: step_defs split: pc_splits)

lemma seq_keep:
  assumes "cstep fmtv en c c'"
  shows "c_idSeq c' = c_idSeq c \<or> c_idSeq c' = c_idSeq c + 1"
  using assms by (induction rule: cstep.induct) (auto simp: step_defs split: pc_splits)

lemma closed_keep:
  assumes "cstep fmtv en c c'" "c_closed c \<longrightarrow> c_pending c = []"
  shows "c_closed c' \<longrightarrow> c_pending c' = []"
  using assms by (induction rule: cstep.induct) (auto simp: step_defs split: pc_splits)

lemma notify_ready:
  "ch < length cs \<Longrightarrow> ready (cs ! ch) \<or> ch \<in> snd ` set m \<Longrightarrow> ready (fold (\<lambda>(_, ch) cs. cs[ch := notify_closed (cs ! ch)]) m cs ! ch)"
proof (induction m arbitrary: cs)
  case (Cons p m)
  let ?cs = "cs[snd p := notify_closed (cs ! snd p)]"
  have n: "ready (notify_closed x)" for x by (auto simp: ready_def notify_closed_def)
  have "ready (?cs ! ch) \<or> ch \<in> snd ` set m" using Cons.prems n by (auto simp: nth_update_any)
  with Cons.IH [of ?cs] Cons.prems(1) show ?case by (simp add: case_prod_unfold)
qed simp

definition panicked :: "Client \<Rightarrow> bool" where
  "panicked c \<longleftrightarrow> (\<exists>r m. c_readers c r = RPanic m)"

lemma panicked_keep: "cstep fmtv en c c' \<Longrightarrow> panicked c \<Longrightarrow> panicked c'"
  by (induction rule: cstep.induct)
     (auto simp: panicked_def step_defs can_fail_def split: pc_splits; metis reader_pc.distinct)+

text \<open>A channel stays woken until its caller has received from it.\<close>

lemma ready_keep:
  assumes "cstep fmtv en c c'" "ch < length (c_chans c)" "ready (c_chans c ! ch)"
  shows "ready (c_chans c' ! ch) \<or> (\<exists>t i. c_calls c t = CWait i ch \<and> call_ref (c_calls c' t) = None)"
  using assms
proof (induction rule: cstep.induct)
  case (close c k)
  then show ?case using notify_ready [of ch "c_chans c" "c_pending c"] by (auto simp: Close_lock_def)
next
  case (receive t c)
  then show ?case
    by (cases "c_calls c t")
       (auto simp: ready_def call_can_receive_def Call_receive_def at_call_def set_chan_def nth_update_any split: list.splits)
qed (auto simp: ready_def step_defs nth_append nth_update_any split: pc_splits)

lemma fail_keep:
  assumes "cstep fmtv en c c'" "ch < length (c_chans c)" "c_readers c r = RFail chs b" "ch \<in> set chs" "\<not> panicked c'"
  shows "ready (c_chans c' ! ch) \<or> (\<exists>chs b. c_readers c' r = RFail chs b \<and> ch \<in> set chs)"
  using assms
proof (induction rule: cstep.induct)
  case (fail r' c)
  then show ?case
    by (cases "r' = r") (auto simp: ready_def Read_fail_def at_reader_def set_chan_def nth_update_any can_fail_def panicked_def split: pc_splits)
qed (auto simp: step_defs panicked_def split: pc_splits)

lemma woken_keep:
  assumes "cstep fmtv en c c'" "ch < length (c_chans c)" "woken c ch" "\<not> panicked c'"
  shows "woken c' ch \<or> (\<exists>t i. c_calls c t = CWait i ch \<and> call_ref (c_calls c' t) = None)"
  using assms(3) ready_keep [OF assms(1,2)] fail_keep [OF assms(1,2) _ _ assms(4)] unfolding woken_def by blast

text \<open>An entry of the table goes when its call is over, when a new call takes the identifier, or when its channel
  is woken.\<close>

lemma pend_lost:
  assumes "cstep fmtv en c c'" "mget (c_pending c) i = Some ch" "ch < length (c_chans c)"
  shows "mget (c_pending c') i = Some ch \<or> woken c' ch \<or> (\<exists>t. call_id_of (c_calls c t) = Some i \<and> call_ref (c_calls c t) = None)
    \<or> i = call_id (c_idSeq c + 1) \<and> c_idSeq c' = c_idSeq c + 1 \<and> \<not> c_closed c"
  using assms
proof (induction rule: cstep.induct)
  case (close c k)
  have "ch \<in> snd ` set (c_pending c)" using close.prems(1) by (force dest: mget_SomeD)
  then show ?case using notify_ready [of ch "c_chans c" "c_pending c"] close.prems by (auto simp: woken_def Close_lock_def)
next
  case (collect c r b)
  have "ch \<in> set (mvals (c_pending c))" using collect.prems(1) by (force simp: mvals_def dest: mget_SomeD)
  then show ?case using collect by (auto simp: woken_def Read_collect_def at_reader_def)
next
  case (cleanup c t j res)
  then have "i = j \<Longrightarrow> call_id_of (c_calls c t) = Some i \<and> call_ref (c_calls c t) = None" by simp
  moreover have "i \<noteq> j \<Longrightarrow> mget (c_pending (Call_cleanup t c)) i = Some ch"
    using cleanup by (simp add: Call_cleanup_def at_call_def gomap_simps)
  ultimately show ?case by blast
qed (auto simp: step_defs gomap_simps split: pc_splits)

text \<open>As long as the counter has not wrapped around, calls have distinct identifiers and channels, and
  every call that waits or is about to wait is in the table or its channel is woken.\<close>

definition c_issued :: "Client \<Rightarrow> string set" where
  "c_issued c = call_id ` {m. 0 < m \<and> m \<le> c_idSeq c}"

definition c_tracked :: "nat \<Rightarrow> Client \<Rightarrow> bool" where
  "c_tracked n c \<longleftrightarrow> unat (c_idSeq c) \<le> n \<and> (c_closed c \<longrightarrow> c_pending c = [])
     \<and> (\<forall>t i. call_id_of (c_calls c t) = Some i \<longrightarrow> i \<in> c_issued c)
     \<and> (\<forall>t u i. call_id_of (c_calls c t) = Some i \<and> call_id_of (c_calls c u) = Some i \<longrightarrow> t = u)
     \<and> (\<forall>t u i j ch. call_ref (c_calls c t) = Some (i, ch) \<and> call_ref (c_calls c u) = Some (j, ch) \<longrightarrow> t = u)
     \<and> (\<forall>t i ch. call_ref (c_calls c t) = Some (i, ch) \<longrightarrow> ch < length (c_chans c) \<and> (mget (c_pending c) i = Some ch \<or> woken c ch))"

lemma c_issued_next:
  assumes "Suc (unat (c_idSeq c)) < 2 ^ 64" "c_idSeq c' = c_idSeq c + 1"
  shows "c_issued c \<subseteq> c_issued c'" and "call_id (c_idSeq c + 1) \<in> c_issued c' - c_issued c" and "unat (c_idSeq c') = Suc (unat (c_idSeq c))"
proof -
  have u: "unat (c_idSeq c + 1) = Suc (unat (c_idSeq c))" using assms(1) by (simp add: unat_word_ariths)
  then show "unat (c_idSeq c') = Suc (unat (c_idSeq c))" by (simp add: assms(2))
  from u have lt: "c_idSeq c < c_idSeq c + 1" by (simp add: word_less_nat_alt)
  then show "c_issued c \<subseteq> c_issued c'" by (auto simp: c_issued_def assms(2) intro!: imageI)
  have "call_id (c_idSeq c + 1) \<notin> c_issued c" using lt by (auto simp: c_issued_def dest!: call_id_inj)
  moreover have "0 < c_idSeq c + 1" using u by (simp add: word_less_nat_alt)
  ultimately show "call_id (c_idSeq c + 1) \<in> c_issued c' - c_issued c" by (auto simp: c_issued_def assms(2) intro!: imageI)
qed

lemma c_tracked_step:
  assumes st: "cstep fmtv en c c'" and tr: "c_tracked n c" and lim: "Suc n < 2 ^ 64" and np: "\<not> panicked c'"
  shows "c_tracked (Suc n) c'"
proof -
  note inv = tr [unfolded c_tracked_def]
  have q: "Suc (unat (c_idSeq c)) < 2 ^ 64" using inv lim by auto
  have "c_issued c \<subseteq> c_issued c' \<and> unat (c_idSeq c') \<le> Suc n"
    using seq_keep [OF st]
  proof
    assume "c_idSeq c' = c_idSeq c"
    then show ?thesis using inv by (simp add: c_issued_def)
  next
    assume e: "c_idSeq c' = c_idSeq c + 1"
    show ?thesis using c_issued_next(1,3) [OF q e] inv by simp
  qed
  then have sub: "c_issued c \<subseteq> c_issued c'" and le: "unat (c_idSeq c') \<le> Suc n" by blast+
  have new: "i \<in> c_issued c' - c_issued c" if "i = call_id (c_idSeq c + 1)" "c_idSeq c' = c_idSeq c + 1" for i
    using c_issued_next(2) [OF q that(2)] that(1) by simp
  have ids: "i \<in> c_issued c'" if "call_id_of (c_calls c' t) = Some i" for t i
    using id_keep [OF st that] inv sub new by blast
  have uniq: "t = u" if "call_id_of (c_calls c' t) = Some i" "call_id_of (c_calls c' u) = Some i" for t u i
    using id_keep [OF st that(1)] id_keep [OF st that(2)] inv new one_caller [OF st, of t u] that
    by (metis DiffE call_id_of.simps(4) option.distinct(1))
  have range: "ch < length (c_chans c)" if "call_ref (c_calls c t) = Some (i, ch)" for t i ch using inv that by blast
  have chs: "t = u" if "call_ref (c_calls c' t) = Some (i, ch)" "call_ref (c_calls c' u) = Some (j, ch)" for t u i j ch
    using call_ref_keep [OF st that(1)] call_ref_keep [OF st that(2)] inv range one_caller [OF st, of t u]
    by (metis call_pc.distinct(1) nat_neq_iff)
  have waits: "ch < length (c_chans c') \<and> (mget (c_pending c') i = Some ch \<or> woken c' ch)" if r: "call_ref (c_calls c' t) = Some (i, ch)" for t i ch
    using call_ref_keep [OF st r]
  proof
    assume old: "call_ref (c_calls c t) = Some (i, ch)"
    have w: "\<not> (\<exists>u j. c_calls c u = CWait j ch \<and> call_ref (c_calls c' u) = None)"
      using inv old r by (metis call_ref.simps(2) option.distinct(1))
    have notnew: "i \<noteq> call_id (c_idSeq c + 1) \<or> c_idSeq c' \<noteq> c_idSeq c + 1" using inv ref_id [OF old] new by blast
    have mine: "\<not> (\<exists>u. call_id_of (c_calls c u) = Some i \<and> call_ref (c_calls c u) = None)"
      using inv ref_id [OF old] old by (metis option.distinct(1))
    show ?thesis
      using inv old range [OF old] owner_keep [OF st] woken_keep [OF st _ _ np] pend_lost [OF st] w notnew mine by blast
  qed blast
  have cl: "c_closed c' \<longrightarrow> c_pending c' = []" using closed_keep [OF st] inv by blast
  show ?thesis unfolding c_tracked_def
    by (intro conjI allI impI) (use le cl ids uniq chs waits in \<open>(elim conjE)?; blast\<close>)+
qed

lemma client_tracked: "client_reaches fmtv en n c \<Longrightarrow> n < 2 ^ 64 \<Longrightarrow> \<not> panicked c \<Longrightarrow> c_tracked n c"
proof (induction rule: client_reaches.induct)
  case start
  show ?case by (simp add: c_tracked_def New_client_def)
next
  case (step n c c')
  then show ?case using c_tracked_step [of fmtv en c c' n] panicked_keep by (metis Suc_lessD)
qed

text \<open>What the channels keep: a channel holds at most one response, and the channels of the table and of the
  lists of the readers are distinct and not closed, since \<open>Close\<close> closes only what it takes from the table.\<close>

definition c_opened :: "Client \<Rightarrow> bool" where
  "c_opened c \<longleftrightarrow> (\<forall>x \<in> set (c_chans c). length (cc_buf x) \<le> 1)
     \<and> distinct (mvals (c_pending c)) \<and> (\<forall>ch \<in> set (mvals (c_pending c)). ch < length (c_chans c) \<and> \<not> cc_closed (c_chans c ! ch))
     \<and> (\<forall>r chs b. c_readers c r = RFail chs b \<longrightarrow> distinct chs
          \<and> (\<forall>ch \<in> set chs. ch < length (c_chans c) \<and> \<not> cc_closed (c_chans c ! ch) \<and> ch \<notin> set (mvals (c_pending c))))"

lemma mvals_mput:
  "distinct (mvals m) \<Longrightarrow> v \<notin> set (mvals m) \<Longrightarrow> distinct (mvals (mput k v m)) \<and> set (mvals (mput k v m)) \<subseteq> insert v (set (mvals m))"
  by (induction m) (auto simp: mput_def mvals_def)

lemma mvals_mdel: "distinct (mvals m) \<Longrightarrow> distinct (mvals (mdel k m)) \<and> set (mvals (mdel k m)) \<subseteq> set (mvals m)"
  by (induction m) (auto simp: mdel_def mvals_def)

lemma notify_other:
  "ch \<notin> snd ` set m \<Longrightarrow> fold (\<lambda>(_, ch) cs. cs[ch := notify_closed (cs ! ch)]) m cs ! ch = cs ! ch"
  by (induction m arbitrary: cs) (auto simp: case_prod_unfold)

lemma notify_cap:
  "\<forall>x \<in> set cs. length (cc_buf x) \<le> 1 \<Longrightarrow> \<forall>x \<in> set (fold (\<lambda>(_, ch) cs. cs[ch := notify_closed (cs ! ch)]) m cs). length (cc_buf x) \<le> 1"
proof (induction m arbitrary: cs)
  case (Cons p m)
  have "\<forall>x \<in> set (cs[snd p := notify_closed (cs ! snd p)]). length (cc_buf x) \<le> 1"
    using Cons.prems by (cases "snd p < length cs") (auto simp: notify_closed_def list_update_beyond dest: set_update_subset_insert [THEN subsetD])
  from Cons.IH [OF this] show ?case by (simp add: case_prod_unfold)
qed simp

lemma cap_keep:
  assumes "cstep fmtv en c c'" "\<forall>x \<in> set (c_chans c). length (cc_buf x) \<le> 1"
  shows "\<forall>x \<in> set (c_chans c'). length (cc_buf x) \<le> 1"
proof -
  have u: "length (cc_buf x) \<le> Suc 0"
    if "x \<in> set (cs[ch := y])" "\<forall>x \<in> set cs. length (cc_buf x) \<le> Suc 0" "ch < length cs \<Longrightarrow> length (cc_buf y) \<le> Suc 0" for cs ch y and x :: cchan
    using that by (cases "ch < length cs") (auto simp: list_update_beyond dest!: set_update_subset_insert [THEN subsetD])
  from assms show ?thesis
  proof (induction rule: cstep.induct)
    case (close c k)
    then show ?case using notify_cap [of "c_chans c" "c_pending c"] by (simp add: Close_lock_def)
  next
    case (receive t c)
    have "length vs \<le> 1" if "cc_buf (c_chans c ! ch) = v # vs" "ch < length (c_chans c)" for ch v vs
      using receive.prems nth_mem [OF that(2)] that(1) by fastforce
    with receive show ?case
      by (auto simp: Call_receive_def at_call_def set_chan_def call_can_receive_def split: pc_splits elim!: u)
  next
    case (fail r c)
    then show ?case by (auto simp: Read_fail_def at_reader_def set_chan_def dest!: set_update_subset_insert [THEN subsetD] split: pc_splits)
  next
    case (deliver c r ch resp)
    then show ?case by (auto simp: Read_deliver_def at_reader_def set_chan_def dest!: set_update_subset_insert [THEN subsetD] split: pc_splits)
  qed (auto simp: step_defs split: pc_splits)
qed

lemma chan_closed_keep:
  assumes "cstep fmtv en c c'" "ch < length (c_chans c)" "cc_closed (c_chans c' ! ch)"
  shows "cc_closed (c_chans c ! ch) \<or> ch \<in> set (mvals (c_pending c)) \<and> c_pending c' = [] \<and> c_readers c' = c_readers c"
  using assms
proof (induction rule: cstep.induct)
  case (close c k)
  then show ?case using notify_other [of ch "c_pending c" "c_chans c"] by (auto simp: Close_lock_def mvals_def split: if_splits)
qed (auto simp: step_defs nth_append nth_update_any split: pc_splits)

lemma pend_chans_keep:
  assumes "cstep fmtv en c c'" "distinct (mvals (c_pending c))" "\<forall>ch \<in> set (mvals (c_pending c)). ch < length (c_chans c)"
  shows "distinct (mvals (c_pending c')) \<and> (\<forall>ch \<in> set (mvals (c_pending c')).
    ch \<in> set (mvals (c_pending c)) \<or> ch = length (c_chans c) \<and> ch < length (c_chans c') \<and> \<not> cc_closed (c_chans c' ! ch))"
  using assms
proof (induction rule: cstep.induct)
  case (register c t)
  have "length (c_chans c) \<notin> set (mvals (c_pending c))" using register.prems by blast
  then show ?case
    using register.prems mvals_mput [of "c_pending c" "length (c_chans c)" "call_id (c_idSeq c + 1)"]
    by (auto simp: Call_register_def Let_def at_call_def)
next
  case (cleanup c t i res)
  then show ?case using mvals_mdel [of "c_pending c" i] by (auto simp: Call_cleanup_def at_call_def)
qed (auto simp: step_defs mvals_def split: pc_splits)

lemma fail_list_keep:
  assumes "cstep fmtv en c c'" "c_readers c' r = RFail chs b"
  shows "(\<exists>chs' b. c_readers c r = RFail chs' b \<and> (distinct chs' \<longrightarrow> distinct chs) \<and> set chs \<subseteq> set chs')
    \<or> chs = mvals (c_pending c) \<and> c_pending c' = [] \<and> c_chans c' = c_chans c"
  using assms by (induction rule: cstep.induct) (auto simp: step_defs split: pc_splits)

lemma c_opened_step:
  assumes st: "cstep fmtv en c c'" and op: "c_opened c"
  shows "c_opened c'"
proof -
  note inv = op [unfolded c_opened_def]
  note cl = chan_closed_keep [OF st] and len = owner_keep [OF st]
  have pk: "distinct (mvals (c_pending c')) \<and> (\<forall>ch \<in> set (mvals (c_pending c')).
    ch \<in> set (mvals (c_pending c)) \<or> ch = length (c_chans c) \<and> ch < length (c_chans c') \<and> \<not> cc_closed (c_chans c' ! ch))"
    using pend_chans_keep [OF st] inv by blast
  have p: "ch < length (c_chans c') \<and> \<not> cc_closed (c_chans c' ! ch)" if "ch \<in> set (mvals (c_pending c'))" for ch
    using pk that cl [of ch] len [of ch] inv by (metis mvals_def list.map(1) list.set(1) empty_iff)
  have l: "distinct chs \<and> (\<forall>ch \<in> set chs. ch < length (c_chans c') \<and> \<not> cc_closed (c_chans c' ! ch) \<and> ch \<notin> set (mvals (c_pending c')))"
    if r: "c_readers c' r = RFail chs b" for r chs b
    using fail_list_keep [OF st r]
  proof (elim disjE exE conjE)
    fix chs' b' assume old: "c_readers c r = RFail chs' b'" "distinct chs' \<longrightarrow> distinct chs" "set chs \<subseteq> set chs'"
    then have o: "ch < length (c_chans c) \<and> \<not> cc_closed (c_chans c ! ch) \<and> ch \<notin> set (mvals (c_pending c))" if "ch \<in> set chs" for ch
      using inv that by blast
    then show ?thesis using old inv pk cl len by (metis nat_neq_iff)
  next
    assume "chs = mvals (c_pending c)" "c_pending c' = []" "c_chans c' = c_chans c"
    then show ?thesis using inv by (simp add: mvals_def)
  qed
  show ?thesis unfolding c_opened_def using cap_keep [OF st] inv pk p l by blast
qed

lemma client_opened: "client_reaches fmtv en n c \<Longrightarrow> c_opened c"
proof (induction rule: client_reaches.induct)
  case start
  show ?case by (simp add: c_opened_def New_client_def mvals_def)
qed (rule c_opened_step)

text \<open>The steps the client takes by itself: a reader sends nil on the next channel of its list, and a call
  receives what its channel holds. They need neither the server nor the transport nor a cancellation.\<close>

inductive wake_step :: "Client \<Rightarrow> Client \<Rightarrow> bool" where
  fail: "can_fail r c \<Longrightarrow> wake_step c (Read_fail r c)"
| receive: "call_can_receive t c \<Longrightarrow> wake_step c (Call_receive t c)"

lemma wake_cstep: "wake_step c c' \<Longrightarrow> cstep fmtv en c c'"
  by (induction rule: wake_step.induct) (auto intro: cstep.intros)

text \<open>A full channel in the list of a reader still has a call that waits on it and empties it.\<close>

definition all_waited :: "Client \<Rightarrow> nat list \<Rightarrow> bool" where
  "all_waited c chs \<longleftrightarrow> (\<forall>x \<in> set chs. cc_buf (c_chans c ! x) \<noteq> [] \<longrightarrow> (\<exists>u j. c_calls c u = CWait j x))"

lemma send_nil:
  assumes "c_opened c" "c_readers c r = RFail (x # xs) b" "cc_buf (c_chans c ! x) = []"
  shows "wake_step c (Read_fail r c) \<and> c_readers (Read_fail r c) = (c_readers c)(r := RFail xs b) \<and> c_calls (Read_fail r c) = c_calls c
    \<and> c_chans (Read_fail r c) = (c_chans c)[x := (c_chans c ! x) \<lparr> cc_buf := [None] \<rparr>] \<and> c_opened (Read_fail r c)"
proof -
  have nc: "\<not> cc_closed (c_chans c ! x)" using assms unfolding c_opened_def by (metis list.set_intros(1))
  have "can_fail r c" using assms by (simp add: can_fail_def)
  then have w: "wake_step c (Read_fail r c)" by (rule wake_step.fail)
  then have "c_opened (Read_fail r c)" using c_opened_step [OF wake_cstep] assms(1) by blast
  with w nc show ?thesis using assms(2) by (simp add: Read_fail_def at_reader_def set_chan_def)
qed

lemma empty_head:
  assumes "c_opened c" "c_calls c u = CWait j x" "cc_buf (c_chans c ! x) \<noteq> []" "x < length (c_chans c)"
  shows "wake_step c (Call_receive u c) \<and> c_readers (Call_receive u c) = c_readers c \<and> (\<forall>t. t \<noteq> u \<longrightarrow> c_calls (Call_receive u c) t = c_calls c t)
    \<and> c_chans (Call_receive u c) = (c_chans c)[x := (c_chans c ! x) \<lparr> cc_buf := [] \<rparr>] \<and> c_opened (Call_receive u c)"
proof -
  from assms(3) obtain v vs where v: "cc_buf (c_chans c ! x) = v # vs" by (cases "cc_buf (c_chans c ! x)") auto
  moreover have "length (cc_buf (c_chans c ! x)) \<le> 1" using assms(1,4) unfolding c_opened_def by (meson nth_mem)
  ultimately have vs: "vs = []" by simp
  have "call_can_receive u c" using assms(2,3) by (simp add: call_can_receive_def)
  then have w: "wake_step c (Call_receive u c)" by (rule wake_step.receive)
  then have "c_opened (Call_receive u c)" using c_opened_step [OF wake_cstep] assms(1) by blast
  with w v vs show ?thesis using assms(2) by (simp add: Call_receive_def at_call_def set_chan_def)
qed

lemma failing_reader_wakes:
  assumes "c_opened c" "c_readers c r = RFail chs b" "ch \<in> set chs" "c_calls c t = CWait i ch" "all_waited c chs" "\<not> panicked c"
  shows "\<exists>c'. wake_step\<^sup>*\<^sup>* c c' \<and> call_can_receive t c' \<and> \<not> panicked c'"
  using assms
proof (induction chs arbitrary: c)
  case (Cons x xs)
  have dx: "x \<notin> set xs" "distinct xs" and lx: "x < length (c_chans c)"
    using Cons.prems(1,2) unfolding c_opened_def by (metis distinct.simps(2) list.set_intros(1))+
  have go: "\<exists>c'. wake_step\<^sup>*\<^sup>* d c' \<and> call_can_receive t c' \<and> \<not> panicked c'"
    if d: "c_opened d" "c_readers d = c_readers c" "c_calls d t = CWait i ch" "all_waited d xs" "cc_buf (c_chans d ! x) = []" "x < length (c_chans d)" for d
  proof -
    let ?d = "Read_fail r d"
    have s: "wake_step d ?d" "c_readers ?d = (c_readers c)(r := RFail xs b)" "c_calls ?d = c_calls d" "c_opened ?d"
      "c_chans ?d = (c_chans d)[x := (c_chans d ! x) \<lparr> cc_buf := [None] \<rparr>]"
      using send_nil [of d r x xs b] d Cons.prems(2) by auto
    have np: "\<not> panicked ?d" using Cons.prems(6) s(2) by (auto simp: panicked_def)
    show ?thesis
    proof (cases "ch = x")
      case True
      then have "call_can_receive t ?d" using s d by (simp add: call_can_receive_def)
      then show ?thesis using s(1) np by blast
    next
      case False
      then have "ch \<in> set xs" using Cons.prems(3) by simp
      moreover have "all_waited ?d xs" using d(4) dx s(3,5) by (auto simp: all_waited_def nth_update_any)
      ultimately have "\<exists>c'. wake_step\<^sup>*\<^sup>* ?d c' \<and> call_can_receive t c' \<and> \<not> panicked c'"
        using Cons.IH [of ?d] s d(3) np by simp
      then show ?thesis using s(1) by (meson converse_rtranclp_into_rtranclp)
    qed
  qed
  show ?case
  proof (cases "cc_buf (c_chans c ! x) = []")
    case True
    then show ?thesis using go [of c] Cons.prems lx by (simp add: all_waited_def)
  next
    case False
    then obtain u j where u: "c_calls c u = CWait j x" using Cons.prems(5) by (auto simp: all_waited_def)
    show ?thesis
    proof (cases "u = t")
      case True
      then have "call_can_receive t c" using u False by (simp add: call_can_receive_def)
      then show ?thesis using Cons.prems(6) by blast
    next
      case False
      let ?d = "Call_receive u c"
      note e = empty_head [OF Cons.prems(1) u \<open>cc_buf (c_chans c ! x) \<noteq> []\<close> lx]
      have "all_waited ?d xs" unfolding all_waited_def
      proof (intro ballI impI)
        fix y assume y: "y \<in> set xs" "cc_buf (c_chans ?d ! y) \<noteq> []"
        then have "y \<noteq> x" "cc_buf (c_chans c ! y) \<noteq> []" using dx e lx by (auto simp: nth_update_any split: if_splits)
        then obtain v k where v: "c_calls c v = CWait k y" using Cons.prems(5) y(1) unfolding all_waited_def by (meson list.set_intros(2))
        then have "v \<noteq> u" using u \<open>y \<noteq> x\<close> by auto
        then show "\<exists>v k. c_calls ?d v = CWait k y" using e v by metis
      qed
      then have "\<exists>c'. wake_step\<^sup>*\<^sup>* ?d c' \<and> call_can_receive t c' \<and> \<not> panicked c'"
        using go [of ?d] e False Cons.prems(4) lx by simp
      then show ?thesis using e by (meson converse_rtranclp_into_rtranclp)
    qed
  qed
qed simp

text \<open>C4: \<open>Close\<close> leaves no call behind, except behind a reader that is stuck. Let a client that has been closed be in
  any state reached in fewer than \<open>2\<^sup>64\<close> steps without a panic, and let no reader have in its list a full channel on
  which no call waits any more. Then every call that waits can be brought to receive by steps that the client takes by itself
  and without a panic: readers send the nil of their lists and calls receive what their channels hold. No answer of
  the server and no cancellation is needed.\<close>

theorem close_wakes_calls:
  assumes "client_reaches fmtv en n c" and "n < 2 ^ 64" and "\<not> panicked c" and "c_closed c" and "c_calls c t = CWait i ch"
    and "\<And>r chs b. c_readers c r = RFail chs b \<Longrightarrow> all_waited c chs"
  shows "\<exists>c'. wake_step\<^sup>*\<^sup>* c c' \<and> call_can_receive t c' \<and> \<not> panicked c'"
proof -
  have tr: "c_tracked n c" by (rule client_tracked [OF assms(1-3)])
  then have "c_pending c = []" using assms(4) by (simp add: c_tracked_def)
  moreover have "call_ref (c_calls c t) = Some (i, ch)" using assms(5) by simp
  ultimately have "woken c ch" using tr unfolding c_tracked_def by (metis mget_Nil option.distinct(1))
  then consider "call_can_receive t c" | r chs b where "c_readers c r = RFail chs b" "ch \<in> set chs"
    using assms(5) by (auto simp: woken_def ready_def call_can_receive_def)
  then show ?thesis
  proof cases
    case 1
    then show ?thesis using assms(3) by blast
  next
    case 2
    then show ?thesis using failing_reader_wakes [OF client_opened [OF assms(1)] 2 assms(5) assms(6) [OF 2(1)] assms(3)] by blast
  qed
qed

section \<open>A reader that blocks for ever\<close>

text \<open>The reader is about to send nil on a channel that is full and that no call will ever read.\<close>

definition blocked :: "Client \<Rightarrow> nat \<Rightarrow> nat \<Rightarrow> bool" where
  "blocked c r ch \<longleftrightarrow> (\<exists>rest b. c_readers c r = RFail (ch # rest) b) \<and> ch < length (c_chans c)
     \<and> cc_buf (c_chans c ! ch) \<noteq> [] \<and> \<not> cc_closed (c_chans c ! ch)
     \<and> (\<forall>t i. call_ref (c_calls c t) \<noteq> Some (i, ch)) \<and> ch \<notin> snd ` set (c_pending c)"

lemma unread_keep:
  assumes "cstep fmtv en c c'" "ch < length (c_chans c)" "cc_buf (c_chans c ! ch) \<noteq> []" "\<not> cc_closed (c_chans c ! ch)"
    and "\<forall>t i. call_ref (c_calls c t) \<noteq> Some (i, ch)" "ch \<notin> snd ` set (c_pending c)"
  shows "cc_buf (c_chans c' ! ch) \<noteq> [] \<and> \<not> cc_closed (c_chans c' ! ch)"
  using assms
proof (induction rule: cstep.induct)
  case (receive t c)
  then show ?case
    by (cases "c_calls c t") (auto simp: call_can_receive_def Call_receive_def at_call_def set_chan_def nth_update_any split: list.splits; metis call_ref.simps(2))+
qed (auto simp: step_defs nth_append nth_update_any notify_other split: pc_splits)

lemma unpended_keep:
  assumes "cstep fmtv en c c'" "ch < length (c_chans c)" "ch \<notin> snd ` set (c_pending c)"
  shows "ch \<notin> snd ` set (c_pending c')"
  using assms
  by (induction rule: cstep.induct) (force simp: step_defs set_mdel dest: set_mputD split: pc_splits)+

lemma blocked_reader_keep:
  assumes "cstep fmtv en c c'" "c_readers c r = RFail (ch # rest) b" "cc_buf (c_chans c ! ch) \<noteq> []" "\<not> cc_closed (c_chans c ! ch)"
  shows "c_readers c' r = RFail (ch # rest) b"
  using assms
  by (induction rule: cstep.induct) (auto simp: step_defs can_fail_def split: pc_splits)

lemma blocked_keep:
  assumes st: "cstep fmtv en c c'" and b: "blocked c r ch"
  shows "blocked c' r ch"
proof -
  note inv = b [unfolded blocked_def]
  have "call_ref (c_calls c' t) \<noteq> Some (i, ch)" for t i using call_ref_keep [OF st, of t i ch] inv by auto
  moreover have "ch < length (c_chans c')" using owner_keep [OF st] inv by blast
  moreover have "\<exists>rest b. c_readers c' r = RFail (ch # rest) b" using blocked_reader_keep [OF st] inv by blast
  moreover have "cc_buf (c_chans c' ! ch) \<noteq> [] \<and> \<not> cc_closed (c_chans c' ! ch)" using unread_keep [OF st] inv by blast
  moreover have "ch \<notin> snd ` set (c_pending c')" using unpended_keep [OF st] inv by blast
  ultimately show ?thesis unfolding blocked_def by blast
qed

lemma blocked_for_ever: "(cstep fmtv en)\<^sup>*\<^sup>* c c' \<Longrightarrow> blocked c r ch \<Longrightarrow> blocked c' r ch"
  by (induction rule: rtranclp_induct) (auto intro: blocked_keep)

definition c_reply :: client_response where
  "c_reply = \<lparr> resp_JSONRPC = ''2.0'', resp_ID = Some (JStr ''c-1''), resp_Result = Some (JObj []), resp_Error = None \<rparr>"

definition c_data :: json where
  "c_data = JObj [(''jsonrpc'', JStr ''2.0''), (''id'', JStr ''c-1''), (''result'', JObj [])]"

lemma foldName_method: "foldName ''method'' = ''METHOD''"
  by (subst foldName_ascii; simp add: fold_eval)

lemma foldName_params: "foldName ''params'' = ''PARAMS''"
  by (subst foldName_ascii; simp add: fold_eval)

lemma c_data_eval: "handleMessage (Some c_data) = InResponse" "UnmarshalResponse c_data = Some c_reply" "response_key fmtv c_reply = ''c-1''"
  by (simp_all add: handleMessage_def IsResponse_def UnmarshalResponse_def response_key_def c_reply_def c_data_def as_object_def field_def members_def
      d_any_def d_raw_def foldName_response foldName_method del: foldName.simps)

lemma call_id_1: "call_id 1 = ''c-1''"
  by code_simp

text \<open>One call waits; its response is delivered; the call is cancelled instead of receiving it; the connection
  is lost before the call has left the table.\<close>

definition c_waiting :: Client where
  "c_waiting = Call_send 0 None (Call_register 0 (Initialize_start 0 New_client))"

definition c_delivered :: "(json option \<Rightarrow> string) \<Rightarrow> Client" where
  "c_delivered fmtv = Read_deliver 0 (Read_message fmtv 0 (Some c_data) c_waiting)"

definition c_blocked :: "(json option \<Rightarrow> string) \<Rightarrow> Client" where
  "c_blocked fmtv = Read_collect 0 (Read_error False 0 ioEOF (Call_cancelled 0 contextCanceled (c_delivered fmtv)))"

lemmas demo_steps = step_defs c_waiting_def c_delivered_def c_blocked_def New_client_def call_id_1 mput_def mget_def mvals_def c_data_eval
  ioEOF_def contextCanceled_def

lemma c_waiting_reaches: "client_reaches fmtv en 3 c_waiting"
proof -
  have 1: "cstep fmtv en New_client (Initialize_start 0 New_client)" by (rule cstep.start) (simp_all add: New_client_def)
  have 2: "cstep fmtv en (Initialize_start 0 New_client) (Call_register 0 (Initialize_start 0 New_client))"
    by (rule cstep.register) (simp add: demo_steps)
  have 3: "cstep fmtv en (Call_register 0 (Initialize_start 0 New_client)) c_waiting"
    unfolding c_waiting_def by (rule cstep.send [of _ _ "''c-1''" 0]) (simp add: demo_steps)
  show ?thesis using client_reaches.step [OF client_reaches.step [OF client_reaches.step [OF client_reaches.start 1] 2] 3]
    by (simp add: numeral_eq_Suc)
qed

lemma c_delivered_reaches: "client_reaches fmtv en 5 (c_delivered fmtv)"
proof -
  have 1: "cstep fmtv en c_waiting (Read_message fmtv 0 (Some c_data) c_waiting)" by (rule cstep.message) (simp add: demo_steps)
  have 2: "cstep fmtv en (Read_message fmtv 0 (Some c_data) c_waiting) (c_delivered fmtv)"
    unfolding c_delivered_def by (rule cstep.deliver [of _ _ 0 c_reply]) (simp add: demo_steps)
  show ?thesis using client_reaches.step [OF client_reaches.step [OF c_waiting_reaches 1] 2] by (simp add: numeral_eq_Suc)
qed

lemma c_blocked_reaches: "client_reaches fmtv False 8 (c_blocked fmtv)"
proof -
  let ?c1 = "Call_cancelled 0 contextCanceled (c_delivered fmtv)"
  let ?c2 = "Read_error False 0 ioEOF ?c1"
  have 1: "cstep fmtv False (c_delivered fmtv) ?c1" by (rule cstep.cancelled [of _ _ "''c-1''" 0]) (simp add: demo_steps)
  have 2: "cstep fmtv False ?c1 ?c2" by (rule cstep.broken) (simp add: demo_steps)
  have 3: "cstep fmtv False ?c2 (c_blocked fmtv)"
    unfolding c_blocked_def by (rule cstep.collect [of _ _ False]) (simp add: demo_steps)
  show ?thesis using client_reaches.step [OF client_reaches.step [OF client_reaches.step [OF c_delivered_reaches 1] 2] 3] by (simp add: numeral_eq_Suc)
qed

lemma c_blocked_blocked: "blocked (c_blocked fmtv) 0 0"
  by (auto simp: blocked_def demo_steps split: if_splits)

text \<open>The reader can block for ever. There is an execution after which the reader is in the middle of
  failing the pending requests and stays there whatever happens afterwards: a response had been put
  into the channel of a call, the call was cancelled instead of receiving it, and the connection was
  lost before the call had removed itself from the table; the send of nil then waits on a full channel
  that nobody reads. The goroutine never ends, and \<open>Close\<close> waits for it.\<close>

theorem reader_blocks_for_ever:
  "\<exists>n c r ch. client_reaches fmtv False n c \<and> (\<forall>c'. (cstep fmtv False)\<^sup>*\<^sup>* c c' \<longrightarrow> (\<exists>rest b. c_readers c' r = RFail (ch # rest) b))"
  using c_blocked_reaches blocked_for_ever [OF _ c_blocked_blocked] unfolding blocked_def by meson

theorem reader_blocks_for_ever_witness:
  "\<exists>n c r ch rest b. client_reaches (\<lambda>_. ''?'') False n c \<and> c_readers c r = RFail (ch # rest) b"
  using reader_blocks_for_ever [of "\<lambda>_. ''?''"] by blast

theorem client_returns_own_response_witness: "response_key (\<lambda>_. ''?'') c_reply = ''c-1''"
proof -
  let ?c = "Call_receive 0 (c_delivered (\<lambda>_. ''?''))"
  have 1: "cstep (\<lambda>_. ''?'') True (c_delivered (\<lambda>_. ''?'')) ?c" by (rule cstep.receive) (simp add: demo_steps call_can_receive_def)
  have 2: "cstep (\<lambda>_. ''?'') True ?c (Call_cleanup 0 ?c)"
    by (rule cstep.cleanup [of _ _ "''c-1''" "CGot (Some c_reply)"]) (simp add: demo_steps)
  have "c_calls (Call_cleanup 0 ?c) 0 = CDone ''c-1'' (CGot (Some c_reply))" by (simp add: demo_steps)
  from client_returns_own_response [OF client_reaches.step [OF client_reaches.step [OF c_delivered_reaches 1] 2] this] show ?thesis .
qed

text \<open>A call waits, the connection is lost and the client is closed while the reader is about to send nil.\<close>

definition c_closing :: Client where
  "c_closing = Close_lock 0 (Read_collect 0 (Read_error False 0 ioEOF c_waiting))"

lemma c_closing_reaches: "client_reaches fmtv False 6 c_closing"
proof -
  let ?c1 = "Read_error False 0 ioEOF c_waiting"
  have 1: "cstep fmtv False c_waiting ?c1" by (rule cstep.broken) (simp add: demo_steps)
  have 2: "cstep fmtv False ?c1 (Read_collect 0 ?c1)" by (rule cstep.collect [of _ _ False]) (simp add: demo_steps)
  have 3: "cstep fmtv False (Read_collect 0 ?c1) c_closing" unfolding c_closing_def by (rule cstep.close) (simp add: demo_steps)
  show ?thesis using client_reaches.step [OF client_reaches.step [OF client_reaches.step [OF c_waiting_reaches 1] 2] 3] by (simp add: numeral_eq_Suc)
qed

theorem close_wakes_calls_witness:
  "c_closed c_closing \<and> \<not> call_can_receive 0 c_closing
    \<and> (\<exists>c'. wake_step\<^sup>*\<^sup>* c_closing c' \<and> call_can_receive 0 c' \<and> \<not> panicked c')"
proof -
  have r: "c_readers c_closing r = (if r = 0 then RFail [0] False else RIdle)" for r by (simp add: c_closing_def demo_steps)
  have f: "c_closed c_closing" "c_calls c_closing 0 = CWait ''c-1'' 0" "cc_buf (c_chans c_closing ! 0) = []" "\<not> cc_closed (c_chans c_closing ! 0)"
    by (simp_all add: c_closing_def demo_steps)
  have "\<not> panicked c_closing" using r by (simp add: panicked_def)
  moreover have "all_waited c_closing chs" if "c_readers c_closing q = RFail chs b" for q chs b
    using that r f by (auto simp: all_waited_def split: if_splits)
  ultimately show ?thesis
    using close_wakes_calls [of "\<lambda>_. ''?''" False 6 c_closing 0 "''c-1''" 0] c_closing_reaches f by (simp add: call_can_receive_def)
qed

text \<open>Initializing a client a second time, after a first attempt that failed and closed the transport, starts a
  second reader; when that ends, it closes a channel that is closed already.\<close>

lemma second_initialize_panics: "\<exists>n c. client_reaches fmtv True n c \<and> c_readers c 1 = RPanic ''close of closed channel''"
proof -
  define c1 where "c1 = Initialize_start 0 New_client"
  define c2 where "c2 = Read_failed 0 (Read_collect 0 (Read_error True 0 ioEOF c1))"
  define c3 where "c3 = Read_stop 0 c2"
  define c4 where "c4 = Initialize_start 1 c3"
  define c5 where "c5 = Read_failed 1 (Read_collect 1 (Read_error True 1 ioEOF c4))"
  note ev = c1_def c2_def c3_def c4_def c5_def demo_steps
  have "client_reaches fmtv True 1 c1"
    using client_reaches.step [OF client_reaches.start cstep.start [of New_client 0]] by (simp add: New_client_def c1_def)
  moreover have "cstep fmtv True c1 (Read_error True 0 ioEOF c1)" by (rule cstep.broken) (simp add: ev)
  moreover have "cstep fmtv True (Read_error True 0 ioEOF c1) (Read_collect 0 (Read_error True 0 ioEOF c1))"
    by (rule cstep.collect [of _ _ True]) (simp add: ev)
  moreover have "cstep fmtv True (Read_collect 0 (Read_error True 0 ioEOF c1)) c2"
    unfolding c2_def by (rule cstep.failed [of _ _ True]) (simp add: ev)
  moreover have "cstep fmtv True c2 c3" unfolding c3_def by (rule cstep.gave_up) (simp add: ev)
  moreover have "cstep fmtv True c3 c4" unfolding c4_def by (rule cstep.start) (simp_all add: ev)
  moreover have "cstep fmtv True c4 (Read_error True 1 ioEOF c4)" by (rule cstep.broken) (simp add: ev)
  moreover have "cstep fmtv True (Read_error True 1 ioEOF c4) (Read_collect 1 (Read_error True 1 ioEOF c4))"
    by (rule cstep.collect [of _ _ True]) (simp add: ev)
  moreover have "cstep fmtv True (Read_collect 1 (Read_error True 1 ioEOF c4)) c5"
    unfolding c5_def by (rule cstep.failed [of _ _ True]) (simp add: ev)
  moreover have "cstep fmtv True c5 (Read_stop 1 c5)" by (rule cstep.gave_up) (simp add: ev)
  ultimately have "\<exists>n. client_reaches fmtv True n (Read_stop 1 c5)" by (meson client_reaches.step)
  moreover have "c_readers (Read_stop 1 c5) 1 = RPanic ''close of closed channel''" by (simp add: ev)
  ultimately show ?thesis by blast
qed

end
