(* ===== verification/Content_Codec.thy ===== *)
theory Content_Codec
  imports Mcp_Types Uri_Template
begin

text \<open>
  The wire format of contents (\<open>content.go\<close>), of tool results (\<open>result.go\<close>), of resource contents
  (\<open>resource.go\<close>) and of prompt and sampling messages (\<open>prompt.go\<close>, \<open>sampling.go\<close>): encoding to and decoding
  from JSON trees. The length of the text of a tree, which the decoders limit, is the argument
  \<open>len\<close>. Of the standard library the section models the base64 alphabet with padding and the rule of
  \<open>encoding/json\<close> that bytes that are not UTF-8 become the replacement character.
\<close>

section \<open>Base64\<close>

definition b64_alphabet :: string where
  "b64_alphabet = ''ABCDEFGHIJKLMNOPQRSTUVWXYZabcdefghijklmnopqrstuvwxyz0123456789+/''"

definition b64_char :: "nat \<Rightarrow> char" where
  "b64_char n = b64_alphabet ! n"

definition b64_val :: "char \<Rightarrow> nat option" where
  "b64_val c = map_of (zip b64_alphabet [0..<64]) c"

fun b64_encode :: "bytes \<Rightarrow> string" where
  "b64_encode [] = []"
| "b64_encode [a] =
     (let x = of_char a in [b64_char (x div 4), b64_char (x mod 4 * 16), CHR ''='', CHR ''=''])"
| "b64_encode [a, b] =
     (let x = of_char a; y = of_char b
      in [b64_char (x div 4), b64_char (x mod 4 * 16 + y div 16), b64_char (y mod 16 * 4), CHR ''=''])"
| "b64_encode (a # b # c # bs) =
     (let x = of_char a; y = of_char b; z = of_char c
      in b64_char (x div 4) # b64_char (x mod 4 * 16 + y div 16) # b64_char (y mod 16 * 4 + z div 64) # b64_char (z mod 64) # b64_encode bs)"

text \<open>Decoding skips line breaks, wants padding, and ignores the unused bits of the last character.\<close>

fun b64_groups :: "string \<Rightarrow> bytes option" where
  "b64_groups [] = Some []"
| "b64_groups (a # b # c # d # s) =
     (case (b64_val a, b64_val b) of
        (Some w, Some x) \<Rightarrow>
          if c = CHR ''='' then (if d = CHR ''='' \<and> s = [] then Some [char_of (w * 4 + x div 16)] else None)
          else (case b64_val c of
                  None \<Rightarrow> None
                | Some y \<Rightarrow>
                    if d = CHR ''='' then (if s = [] then Some [char_of (w * 4 + x div 16), char_of (x mod 16 * 16 + y div 4)] else None)
                    else (case b64_val d of
                            None \<Rightarrow> None
                          | Some z \<Rightarrow> map_option (\<lambda>bs. char_of (w * 4 + x div 16) # char_of (x mod 16 * 16 + y div 4) # char_of (y mod 4 * 64 + z) # bs) (b64_groups s)))
      | _ \<Rightarrow> None)"
| "b64_groups _ = None"

definition b64_decode :: "string \<Rightarrow> bytes option" where
  "b64_decode s = b64_groups (filter (\<lambda>c. c \<noteq> CHR 0x0A \<and> c \<noteq> CHR 0x0D) s)"

section \<open>Text of JSON strings\<close>

text \<open>What a Go string is after encoding and decoding: every byte that is not part of a rune is replaced.\<close>

function json_bytes :: "nat list \<Rightarrow> nat list" where
  "json_bytes [] = []"
| "json_bytes (b # bs) =
     (case decode_rune (b # bs) of
        (r, n) \<Rightarrow> (if r = runeError \<and> n = 1 then [239, 191, 189] else take n (b # bs)) @ json_bytes (drop (n - 1) bs))"
  by pat_completeness auto
termination by (relation "measure length") (auto simp: less_Suc_eq_le)

definition json_text :: "string \<Rightarrow> string" where
  "json_text s = map char_of (json_bytes (map of_char s))"

definition valid_utf8 :: "string \<Rightarrow> bool" where
  "valid_utf8 s \<longleftrightarrow> json_text s = s"

section \<open>Encoding\<close>

definition omit_empty :: "string \<Rightarrow> string \<Rightarrow> (string \<times> json) list" where
  "omit_empty name s = (if s = [] then [] else [(name, JStr (json_text s))])"

definition omit_nil :: "string \<Rightarrow> string option \<Rightarrow> (string \<times> json) list" where
  "omit_nil name s = (case s of None \<Rightarrow> [] | Some t \<Rightarrow> [(name, JStr (json_text t))])"

definition marshal_ResourceContent :: "ResourceContent \<Rightarrow> goerr + json" where
  "marshal_ResourceContent c =
     (case ValidateResourceContent c of
        Some e \<Rightarrow> Inl e
      | None \<Rightarrow> Inr (JObj ((''uri'', JStr (json_text (rc_URI c))) # omit_empty ''mimeType'' (rc_MimeType c)
                          @ omit_nil ''text'' (rc_Text c) @ omit_nil ''blob'' (rc_Blob c))))"

fun marshal_content :: "Content \<Rightarrow> goerr + json" where
  "marshal_content (TextContent t) = Inr (JObj [(''type'', JStr ''text''), (''text'', JStr (json_text t))])"
| "marshal_content (ImageContent d m) =
     Inr (JObj [(''type'', JStr ''image''), (''data'', JStr (b64_encode d)), (''mimeType'', JStr (json_text m))])"
| "marshal_content (AudioContent d m) =
     Inr (JObj [(''type'', JStr ''audio''), (''data'', JStr (b64_encode d)), (''mimeType'', JStr (json_text m))])"
| "marshal_content (EmbeddedResource r) =
     (case marshal_ResourceContent r of
        Inl e \<Rightarrow> Inl e
      | Inr j \<Rightarrow> Inr (JObj [(''type'', JStr ''resource''), (''resource'', j)]))"

fun marshal_all :: "('a \<Rightarrow> goerr + json) \<Rightarrow> 'a list \<Rightarrow> goerr + json list" where
  "marshal_all f [] = Inr []"
| "marshal_all f (x # xs) =
     (case f x of Inl e \<Rightarrow> Inl e
      | Inr j \<Rightarrow> (case marshal_all f xs of Inl e \<Rightarrow> Inl e | Inr js \<Rightarrow> Inr (j # js)))"

definition marshal_CallToolResult :: "CallToolResult \<Rightarrow> goerr + json" where
  "marshal_CallToolResult r =
     (case marshal_all marshal_content (ctr_Content r) of
        Inl e \<Rightarrow> Inl e
      | Inr js \<Rightarrow> Inr (JObj ((''content'', JArr js) # (if ctr_IsError r then [(''isError'', JBool True)] else [])
          @ (case ctr_StructuredContent r of None \<Rightarrow> [] | Some v \<Rightarrow> [(''structuredContent'', v)])
          @ (case ctr_Meta r of Some (p # m) \<Rightarrow> [(''_meta'', JObj (p # m))] | _ \<Rightarrow> []))))"

definition marshal_message :: "PromptMessage \<Rightarrow> goerr + json" where
  "marshal_message m =
     (case marshal_content (pm_Content m) of
        Inl e \<Rightarrow> Inl e
      | Inr j \<Rightarrow> Inr (JObj [(''role'', JStr (json_text (pm_Role m))), (''content'', j)]))"

section \<open>Decoding\<close>

definition maxContentItemSize :: nat where "maxContentItemSize = 10 * 1024 * 1024"
definition maxResultPayloadSize :: nat where "maxResultPayloadSize = 50 * 1024 * 1024"
definition maxContentItems :: nat where "maxContentItems = 1000"
definition maxPromptMessageSize :: nat where "maxPromptMessageSize = 10 * 1024 * 1024"

text \<open>A pointer to a string.\<close>

fun d_string_ptr :: "string option \<Rightarrow> json \<Rightarrow> string option option" where
  "d_string_ptr a (JStr s) = Some (Some s)"
| "d_string_ptr a JNull = Some None"
| "d_string_ptr a _ = None"

definition unmarshal_ResourceContent :: "json \<Rightarrow> ResourceContent option" where
  "unmarshal_ResourceContent j =
     (case as_object j of None \<Rightarrow> None
      | Some obj \<Rightarrow>
        (case (field d_string [] ''uri'' obj, field d_string [] ''mimeType'' obj, field d_string_ptr None ''text'' obj, field d_string_ptr None ''blob'' obj) of
           (Some u, Some m, Some t, Some b) \<Rightarrow> Some \<lparr> rc_URI = u, rc_MimeType = m, rc_Text = t, rc_Blob = b \<rparr>
         | _ \<Rightarrow> None))"

text \<open>A map of raw messages: names are matched exactly and the last member of a name counts.\<close>

definition raw_fields :: "json \<Rightarrow> meta option" where
  "raw_fields j = (case j of JObj kvs \<Rightarrow> merge_members Some [] kvs | JNull \<Rightarrow> Some [] | _ \<Rightarrow> None)"

definition optional_text :: "meta \<Rightarrow> string \<Rightarrow> string option" where
  "optional_text fs name = (case mget fs name of None \<Rightarrow> Some [] | Some v \<Rightarrow> d_string [] v)"

definition decode_media :: "(bytes \<Rightarrow> string \<Rightarrow> Content) \<Rightarrow> string \<Rightarrow> string \<Rightarrow> meta \<Rightarrow> string + Content" where
  "decode_media mk invalid encoding fs =
     (case mget fs ''data'' of
        None \<Rightarrow> Inl invalid
      | Some v \<Rightarrow>
          (case (d_string [] v, optional_text fs ''mimeType'') of
             (Some dataStr, Some mimeType) \<Rightarrow>
               (case b64_decode dataStr of None \<Rightarrow> Inl encoding | Some data \<Rightarrow> Inr (mk data mimeType))
           | _ \<Rightarrow> Inl invalid))"

definition decode_resource :: "meta \<Rightarrow> string + Content" where
  "decode_resource fs =
     (case mget fs ''resource'' of
        None \<Rightarrow> Inl ''invalid resource content''
      | Some v \<Rightarrow>
          (case unmarshal_ResourceContent v of
             None \<Rightarrow> Inl ''invalid resource content''
           | Some rc \<Rightarrow> if ValidateResourceContent rc \<noteq> None then Inl ''invalid resource content'' else Inr (EmbeddedResource rc)))"

definition DecodeContent :: "(json \<Rightarrow> nat) \<Rightarrow> json option \<Rightarrow> string + Content" where
  "DecodeContent len raw =
     (case raw of
        None \<Rightarrow> Inl ''content must not be null or empty''
      | Some j \<Rightarrow>
          if j = JNull then Inl ''content must not be null or empty''
          else if len j > maxContentItemSize then Inl ''content exceeds maximum allowed len''
          else case raw_fields j of
                 None \<Rightarrow> Inl ''invalid content structure''
               | Some fs \<Rightarrow>
                   (case mget fs ''type'' of
                      None \<Rightarrow> Inl ''invalid content structure''
                    | Some v \<Rightarrow>
                        (case d_string [] v of
                           None \<Rightarrow> Inl ''invalid content structure''
                         | Some ty \<Rightarrow>
                             if ty = ''text'' then
                               (case optional_text fs ''text'' of None \<Rightarrow> Inl ''invalid text content'' | Some text \<Rightarrow> Inr (TextContent text))
                             else if ty = ''image'' then decode_media ImageContent ''invalid image content'' ''invalid image data encoding'' fs
                             else if ty = ''audio'' then decode_media AudioContent ''invalid audio content'' ''invalid audio data encoding'' fs
                             else if ty = ''resource'' then decode_resource fs
                             else Inl ''unknown content type'')))"

fun decode_all :: "(json \<Rightarrow> nat) \<Rightarrow> json list \<Rightarrow> Content list option" where
  "decode_all len [] = Some []"
| "decode_all len (j # js) =
     (case DecodeContent len (Some j) of Inl _ \<Rightarrow> None | Inr c \<Rightarrow> map_option ((#) c) (decode_all len js))"

text \<open>A slice of raw messages; \<open>null\<close> is the nil slice.\<close>

fun d_raw_list :: "json list \<Rightarrow> json \<Rightarrow> json list option" where
  "d_raw_list a (JArr js) = Some js"
| "d_raw_list a JNull = Some []"
| "d_raw_list a _ = None"

text \<open>
  Decoding into \<open>any\<close>: a number becomes a \<open>float64\<close>, an object a map, in which the last member of a name
  counts. The conversion of a literal is the argument \<open>flt\<close>: the text in which the nearest \<open>float64\<close> is
  written again, or nothing when the literal is out of range, which is an error. A value of type \<open>any\<close> is
  represented by the tree that it is encoded to.
\<close>

fun to_any :: "(string \<Rightarrow> string option) \<Rightarrow> json \<Rightarrow> json option"
  and to_any_list :: "(string \<Rightarrow> string option) \<Rightarrow> json list \<Rightarrow> json list option"
  and to_any_map :: "(string \<Rightarrow> string option) \<Rightarrow> meta \<Rightarrow> (string \<times> json) list \<Rightarrow> meta option" where
  "to_any flt (JNum l) = map_option JNum (flt l)"
| "to_any flt (JArr js) = map_option JArr (to_any_list flt js)"
| "to_any flt (JObj kvs) = map_option JObj (to_any_map flt [] kvs)"
| "to_any flt v = Some v"
| "to_any_list flt [] = Some []"
| "to_any_list flt (j # js) =
     (case (to_any flt j, to_any_list flt js) of (Some x, Some xs) \<Rightarrow> Some (x # xs) | _ \<Rightarrow> None)"
| "to_any_map flt m [] = Some m"
| "to_any_map flt m ((k, v) # kvs) =
     (case to_any flt v of None \<Rightarrow> None | Some x \<Rightarrow> to_any_map flt (mput k x m) kvs)"

definition d_float_any :: "(string \<Rightarrow> string option) \<Rightarrow> json option \<Rightarrow> json \<Rightarrow> json option option" where
  "d_float_any flt a v = (if v = JNull then Some None else map_option Some (to_any flt v))"

fun d_float_map :: "(string \<Rightarrow> string option) \<Rightarrow> meta option \<Rightarrow> json \<Rightarrow> meta option option" where
  "d_float_map flt a (JObj kvs) = map_option Some (to_any_map flt (case a of None \<Rightarrow> [] | Some m \<Rightarrow> m) kvs)"
| "d_float_map flt a JNull = Some None"
| "d_float_map flt a _ = None"

definition unmarshal_CallToolResult :: "(string \<Rightarrow> string option) \<Rightarrow> (json \<Rightarrow> nat) \<Rightarrow> json \<Rightarrow> string + CallToolResult" where
  "unmarshal_CallToolResult flt len j =
     (if len j > maxResultPayloadSize then Inl ''invalid tool result''
      else case as_object j of
             None \<Rightarrow> Inl ''invalid tool result''
           | Some obj \<Rightarrow>
               (case (field d_raw_list [] ''content'' obj, field d_bool False ''isError'' obj,
                      field (d_float_any flt) None ''structuredContent'' obj, field (d_float_map flt) None ''_meta'' obj) of
                  (Some content, Some isError, Some structured, Some meta) \<Rightarrow>
                    if length content > maxContentItems then Inl (''tool result exceeds maximum content items ('' @ Itoa (int maxContentItems) @ '')'')
                    else (case decode_all len content of
                            None \<Rightarrow> Inl ''invalid tool result content''
                          | Some cs \<Rightarrow> Inr \<lparr> ctr_Content = cs, ctr_IsError = isError, ctr_StructuredContent = structured, ctr_Meta = meta \<rparr>)
                | _ \<Rightarrow> Inl ''invalid tool result''))"

definition unmarshal_message :: "(json \<Rightarrow> nat) \<Rightarrow> json \<Rightarrow> string + PromptMessage" where
  "unmarshal_message len j =
     (if len j > maxPromptMessageSize then Inl ''invalid message''
      else case as_object j of
             None \<Rightarrow> Inl ''invalid message''
           | Some obj \<Rightarrow>
               (case (field d_string [] ''role'' obj, field d_raw None ''content'' obj) of
                  (Some role, Some raw) \<Rightarrow>
                    (case DecodeContent len raw of Inl _ \<Rightarrow> Inl ''invalid message'' | Inr c \<Rightarrow> Inr \<lparr> pm_Role = role, pm_Content = c \<rparr>)
                | _ \<Rightarrow> Inl ''invalid message''))"

section \<open>Base64 round trip\<close>

lemma b64_val_char: "n < 64 \<Longrightarrow> b64_val (b64_char n) = Some n"
proof -
  assume n: "n < 64"
  have d: "distinct b64_alphabet" by (simp add: b64_alphabet_def)
  have l: "length b64_alphabet = 64" by (simp add: b64_alphabet_def)
  have "map_of (zip b64_alphabet [0..<64]) (b64_alphabet ! n) = Some ([0..<64] ! n)"
    by (rule map_of_zip_nth) (use d l n in auto)
  then show ?thesis using n by (simp add: b64_val_def b64_char_def)
qed

lemma b64_char_set: "n < 64 \<Longrightarrow> b64_char n \<in> set b64_alphabet"
  unfolding b64_char_def by (rule nth_mem) (simp add: b64_alphabet_def)

lemma b64_alphabet_plain: "\<forall>c \<in> set b64_alphabet. c \<noteq> CHR ''='' \<and> c \<noteq> CHR 0x0A \<and> c \<noteq> CHR 0x0D \<and> (of_char c :: nat) < 128"
  by (simp add: b64_alphabet_def)

lemma b64_not_special: "n < 64 \<Longrightarrow> b64_char n \<noteq> CHR ''='' \<and> b64_char n \<noteq> CHR 0x0A \<and> b64_char n \<noteq> CHR 0x0D"
  using b64_char_set b64_alphabet_plain by blast

lemma of_char_256: "(of_char c :: nat) < 256"
  by simp

lemma byte_split:
  fixes x y :: nat assumes "x < 256" "y < 256"
  shows "x div 4 < 64" "x mod 4 * 16 < 64" "x mod 4 * 16 + y div 16 < 64"
    "x mod 16 * 4 + y div 64 < 64" "x mod 16 * 4 < 64" "x mod 64 < 64"
proof -
  have "y div 16 < 16" "y div 64 < 4" "x mod 4 < 4" "x mod 16 < 16" using assms(2) by (simp_all add: div_less_iff_less_mult)
  then show "x mod 4 * 16 + y div 16 < 64" "x mod 16 * 4 + y div 64 < 64" "x mod 4 * 16 < 64" "x mod 16 * 4 < 64" by linarith+
  show "x div 4 < 64" using assms(1) by (simp add: div_less_iff_less_mult)
qed simp

lemma byte_parts:
  "(of_char c :: nat) div 16 div 16 = 0" "(of_char c :: nat) div 16 mod 16 = of_char c div 16"
  "(of_char c :: nat) div 64 div 4 = 0" "(of_char c :: nat) div 64 mod 4 = of_char c div 64"
  using of_char_256 [of c] by (simp_all add: div_less_iff_less_mult)

lemmas b64_bounds = byte_split [OF of_char_256 of_char_256]

lemma b64_groups_encode: "b64_groups (b64_encode bs) = Some bs"
  by (induction bs rule: b64_encode.induct)
     (simp_all add: Let_def b64_val_char b64_bounds b64_not_special byte_parts)

lemma b64_encode_set: "set (b64_encode bs) \<subseteq> insert (CHR ''='') (set b64_alphabet)"
  by (induction bs rule: b64_encode.induct) (simp_all add: Let_def b64_char_set b64_bounds)

lemma b64_round_trip: "b64_decode (b64_encode bs) = Some bs"
proof -
  have "\<forall>c \<in> set (b64_encode bs). c \<noteq> CHR 0x0A \<and> c \<noteq> CHR 0x0D"
    using b64_encode_set [of bs] b64_alphabet_plain by auto
  then have "filter (\<lambda>c. c \<noteq> CHR 0x0A \<and> c \<noteq> CHR 0x0D) (b64_encode bs) = b64_encode bs"
    by (simp add: filter_id_conv)
  then show ?thesis by (simp add: b64_decode_def b64_groups_encode)
qed

section \<open>Well-formed contents\<close>

lemma json_bytes_ascii: "\<forall>b \<in> set bs. b < 128 \<Longrightarrow> json_bytes bs = bs"
  by (induction bs rule: json_bytes.induct) (simp_all add: runeError_def)

lemma valid_utf8_ascii: "\<forall>c \<in> set s. (of_char c :: nat) < 128 \<Longrightarrow> valid_utf8 s"
  unfolding valid_utf8_def json_text_def by (subst json_bytes_ascii) (auto simp: comp_def)

fun wf_content :: "Content \<Rightarrow> bool" where
  "wf_content (TextContent t) \<longleftrightarrow> valid_utf8 t"
| "wf_content (ImageContent _ m) \<longleftrightarrow> valid_utf8 m"
| "wf_content (AudioContent _ m) \<longleftrightarrow> valid_utf8 m"
| "wf_content (EmbeddedResource r) \<longleftrightarrow> ValidateResourceContent r = None \<and> valid_utf8 (rc_URI r) \<and> valid_utf8 (rc_MimeType r)
     \<and> (\<forall>t. rc_Text r = Some t \<or> rc_Blob r = Some t \<longrightarrow> valid_utf8 t)"

text \<open>Trees whose numbers a \<open>float64\<close> holds as they are written, and whose objects have distinct names.\<close>

fun exact :: "(string \<Rightarrow> string option) \<Rightarrow> json \<Rightarrow> bool" where
  "exact flt (JNum l) \<longleftrightarrow> flt l = Some l"
| "exact flt (JArr js) \<longleftrightarrow> (\<forall>j \<in> set js. exact flt j)"
| "exact flt (JObj kvs) \<longleftrightarrow> wf_map kvs \<and> (\<forall>p \<in> set kvs. exact flt (snd p))"
| "exact flt v \<longleftrightarrow> True"

definition wf_result :: "(string \<Rightarrow> string option) \<Rightarrow> CallToolResult \<Rightarrow> bool" where
  "wf_result flt r \<longleftrightarrow> (\<forall>c \<in> set (ctr_Content r). wf_content c) \<and> length (ctr_Content r) \<le> maxContentItems
     \<and> (\<forall>v. ctr_StructuredContent r = Some v \<longrightarrow> v \<noteq> JNull \<and> exact flt v)
     \<and> (\<forall>m. ctr_Meta r = Some m \<longrightarrow> m \<noteq> [] \<and> exact flt (JObj m))"

lemma foldName_content:
  "foldName ''uri'' = ''URI''" "foldName ''mimeType'' = ''MIMETYPE''" "foldName ''text'' = ''TEXT''" "foldName ''blob'' = ''BLOB''"
  "foldName ''content'' = ''CONTENT''" "foldName ''isError'' = ''ISERROR''" "foldName ''structuredContent'' = ''STRUCTUREDCONTENT''"
  "foldName ''_meta'' = ''_META''" "foldName ''role'' = ''ROLE''"
  by (subst foldName_ascii; simp add: fold_eval)+

lemmas field_eval = field_def members_def foldName_content

lemma resource_round_trip:
  assumes "wf_content (EmbeddedResource r)"
  shows "\<exists>j. marshal_ResourceContent r = Inr j \<and> unmarshal_ResourceContent j = Some r"
proof -
  have v: "ValidateResourceContent r = None" "json_text (rc_URI r) = rc_URI r" "json_text (rc_MimeType r) = rc_MimeType r"
    "\<And>t. rc_Text r = Some t \<Longrightarrow> json_text t = t" "\<And>t. rc_Blob r = Some t \<Longrightarrow> json_text t = t"
    using assms by (auto simp: valid_utf8_def)
  then show ?thesis
    by (cases "rc_Text r"; cases "rc_Blob r"; cases "rc_MimeType r = []")
       (auto simp: marshal_ResourceContent_def unmarshal_ResourceContent_def as_object_def omit_empty_def omit_nil_def field_eval
         simp del: foldName.simps intro!: ResourceContent.equality)
qed

lemma raw_fields_get: "raw_fields (JObj [(a, x), (b, y)]) = Some fs \<Longrightarrow> a \<noteq> b \<Longrightarrow> mget fs a = Some x \<and> mget fs b = Some y"
  by (auto simp: raw_fields_def gomap_simps)

lemma content_round_trip:
  assumes "wf_content c"
  shows "\<exists>j. marshal_content c = Inr j \<and> (len j \<le> maxContentItemSize \<longrightarrow> DecodeContent len (Some j) = Inr c)"
proof (cases c)
  case (EmbeddedResource r)
  with assms obtain j where "marshal_ResourceContent r = Inr j" "unmarshal_ResourceContent j = Some r" using resource_round_trip by blast
  then show ?thesis using assms EmbeddedResource
    by (auto simp: DecodeContent_def raw_fields_def gomap_simps decode_resource_def)
qed (use assms in \<open>auto simp: DecodeContent_def raw_fields_def gomap_simps optional_text_def decode_media_def b64_round_trip valid_utf8_def\<close>)

lemma contents_round_trip:
  assumes "\<forall>c \<in> set cs. wf_content c"
  shows "\<exists>js. marshal_all marshal_content cs = Inr js \<and> length js = length cs
    \<and> ((\<forall>j \<in> set js. len j \<le> maxContentItemSize) \<longrightarrow> decode_all len js = Some cs)"
  using assms
proof (induction cs)
  case (Cons c cs)
  then obtain js where "marshal_all marshal_content cs = Inr js" "length js = length cs"
    "(\<forall>j \<in> set js. len j \<le> maxContentItemSize) \<longrightarrow> decode_all len js = Some cs" by auto
  moreover obtain j where "marshal_content c = Inr j" "len j \<le> maxContentItemSize \<longrightarrow> DecodeContent len (Some j) = Inr c"
    using content_round_trip Cons.prems by (metis list.set_intros(1))
  ultimately show ?case by auto
qed simp

lemma to_any_exact:
  "exact flt v \<Longrightarrow> to_any flt v = Some v"
  "\<forall>j \<in> set js. exact flt j \<Longrightarrow> to_any_list flt js = Some js"
  "wf_map (m @ kvs) \<Longrightarrow> \<forall>p \<in> set kvs. exact flt (snd p) \<Longrightarrow> to_any_map flt m kvs = Some (m @ kvs)"
proof (induction flt v and flt js and flt m kvs rule: to_any_to_any_list_to_any_map.induct)
  case (8 flt m k v kvs)
  then have "mget m k = None" by (auto simp: wf_map_def mget_None_iff)
  with 8 show ?case by (simp add: mput_fresh)
qed auto

definition fits :: "(json \<Rightarrow> nat) \<Rightarrow> json \<Rightarrow> bool" where
  "fits len j \<longleftrightarrow> len j \<le> maxResultPayloadSize \<and> (\<forall>kvs js. j = JObj kvs \<longrightarrow> (''content'', JArr js) \<in> set kvs \<longrightarrow> (\<forall>x \<in> set js. len x \<le> maxContentItemSize))"

text \<open>C29: Tool results survive the wire. A result whose contents are well formed, with at most a thousand
  items, encodes; and when the text is within the limits of size, decoding it gives the same result, as far as
  \<open>float64\<close> holds the numbers in its structured content and metadata, which the decoder reads as such.\<close>

theorem tool_result_round_trip:
  assumes "wf_result flt r"
  shows "\<exists>j. marshal_CallToolResult r = Inr j \<and> (fits len j \<longrightarrow> unmarshal_CallToolResult flt len j = Inr r)"
proof -
  obtain js where js: "marshal_all marshal_content (ctr_Content r) = Inr js" "length js = length (ctr_Content r)"
      "(\<forall>j \<in> set js. len j \<le> maxContentItemSize) \<longrightarrow> decode_all len js = Some (ctr_Content r)"
    using contents_round_trip assms unfolding wf_result_def by blast
  have n: "\<not> length js > maxContentItems" using assms js(2) by (simp add: wf_result_def)
  define j where "j = JObj ((''content'', JArr js) # (if ctr_IsError r then [(''isError'', JBool True)] else [])
          @ (case ctr_StructuredContent r of None \<Rightarrow> [] | Some v \<Rightarrow> [(''structuredContent'', v)])
          @ (case ctr_Meta r of Some (p # m) \<Rightarrow> [(''_meta'', JObj (p # m))] | _ \<Rightarrow> []))"
  have m: "to_any_map flt [] m = Some m" if "ctr_Meta r = Some m" for m
    using assms that to_any_exact(3) [of "[]" m flt] by (simp add: wf_result_def)
  have v: "v \<noteq> JNull \<and> to_any flt v = Some v" if "ctr_StructuredContent r = Some v" for v
    using assms that to_any_exact(1) [of flt v] by (simp add: wf_result_def)
  have enc: "marshal_CallToolResult r = Inr j" by (simp add: marshal_CallToolResult_def js j_def)
  have "unmarshal_CallToolResult flt len j = Inr r" if f: "fits len j"
  proof -
    have ok: "decode_all len js = Some (ctr_Content r)" using js(3) f by (simp add: fits_def j_def)
    have "field d_raw_list [] ''content'' obj = Some js" "field d_bool False ''isError'' obj = Some (ctr_IsError r)"
        "field (d_float_any flt) None ''structuredContent'' obj = Some (ctr_StructuredContent r)"
        "field (d_float_map flt) None ''_meta'' obj = Some (ctr_Meta r)" if "j = JObj obj" for obj
      using that assms m v unfolding j_def
      by (auto simp: field_eval d_float_any_def wf_result_def simp del: foldName.simps to_any_map.simps exact.simps
          split: option.splits list.splits if_splits)
    then show ?thesis using f ok n by (simp add: unmarshal_CallToolResult_def as_object_def fits_def j_def)
  qed
  with enc show ?thesis by blast
qed

definition demo_result :: CallToolResult where
  "demo_result = \<lparr> ctr_Content = [TextContent ''hi'', ImageContent ''PNG!'' ''image/png''], ctr_IsError = False,
     ctr_StructuredContent = Some (JObj [(''n'', JNum ''7''), (''xs'', JArr [JBool True, JNull])]), ctr_Meta = Some [(''a'', JNum ''1'')] \<rparr>"

text \<open>Numbers of one digit, which \<open>float64\<close> holds, and the first integer that it rounds.\<close>

definition demo_float :: "string \<Rightarrow> string option" where
  "demo_float l = (if length l = 1 then Some l else if l = ''9007199254740993'' then Some ''9007199254740992'' else None)"

theorem tool_result_round_trip_witness:
  "\<exists>j. marshal_CallToolResult demo_result = Inr j \<and> unmarshal_CallToolResult demo_float (\<lambda>_. 0) j = Inr demo_result"
proof -
  have "valid_utf8 ''hi''" "valid_utf8 ''image/png''" by (rule valid_utf8_ascii; simp)+
  then have "wf_result demo_float demo_result"
    by (simp add: wf_result_def demo_result_def maxContentItems_def demo_float_def wf_map_def)
  from tool_result_round_trip [OF this, of "\<lambda>_. 0"] show ?thesis by (simp add: fits_def)
qed

text \<open>An integer beyond \<open>2\<^sup>53\<close> arrives as another one.\<close>

lemma large_integers_are_rounded:
  assumes "flt ''9007199254740993'' = Some ''9007199254740992''"
  shows "\<exists>j. marshal_CallToolResult \<lparr> ctr_Content = [], ctr_IsError = False, ctr_StructuredContent = Some (JNum ''9007199254740993''), ctr_Meta = None \<rparr> = Inr j
    \<and> unmarshal_CallToolResult flt (\<lambda>_. 0) j
      = Inr \<lparr> ctr_Content = [], ctr_IsError = False, ctr_StructuredContent = Some (JNum ''9007199254740992''), ctr_Meta = None \<rparr>"
  using assms by (simp add: marshal_CallToolResult_def unmarshal_CallToolResult_def as_object_def field_eval d_float_any_def
      maxContentItems_def del: foldName.simps)

lemma message_round_trip:
  assumes "wf_content (pm_Content m)" "valid_utf8 (pm_Role m)"
  shows "\<exists>j. marshal_message m = Inr j \<and> ((\<forall>x. len x \<le> maxContentItemSize) \<longrightarrow> unmarshal_message len j = Inr m)"
proof -
  obtain c where c: "marshal_content (pm_Content m) = Inr c" "len c \<le> maxContentItemSize \<longrightarrow> DecodeContent len (Some c) = Inr (pm_Content m)"
    using content_round_trip [OF assms(1)] by blast
  have lim: "maxPromptMessageSize = maxContentItemSize" by (simp add: maxPromptMessageSize_def maxContentItemSize_def)
  define j where "j = JObj [(''role'', JStr (pm_Role m)), (''content'', c)]"
  have "marshal_message m = Inr j" using c(1) assms(2) by (simp add: marshal_message_def valid_utf8_def j_def)
  moreover have "unmarshal_message len j = Inr m" if "\<forall>x. len x \<le> maxContentItemSize"
    using c(2) that by (simp add: unmarshal_message_def as_object_def field_eval d_raw_def lim not_less j_def del: foldName.simps)
  ultimately show ?thesis by blast
qed

section \<open>What the decoder accepts\<close>

lemma decode_media_ok:
  assumes "decode_media mk e1 e2 fs = Inr c"
  shows "\<exists>d m s. c = mk d m \<and> mget fs ''data'' = Some s \<and> b64_decode (the (d_string [] s)) = Some d"
  using assms by (auto simp: decode_media_def split: option.splits)

lemma decode_resource_ok:
  assumes "decode_resource fs = Inr c"
  shows "\<exists>r. c = EmbeddedResource r \<and> ValidateResourceContent r = None"
  using assms by (auto simp: decode_resource_def split: option.splits if_splits)

text \<open>C30: The decoder is typed by the discriminator. Whatever bytes arrive, a content that the decoder accepts
  is within the limit of size, has the kind its \<open>type\<close> member names, and an embedded resource has a
  URI and exactly one of text and blob, so that it can be encoded again.\<close>

theorem decoded_content_is_typed:
  assumes "DecodeContent len (Some j) = Inr c"
  shows "len j \<le> maxContentItemSize \<and> (\<exists>fs. raw_fields j = Some fs \<and> mget fs ''type'' = Some (JStr (contentType c)))
    \<and> (\<exists>j'. marshal_content c = Inr j')"
proof -
  obtain fs v ty where fs: "raw_fields j = Some fs" "mget fs ''type'' = Some v" "d_string [] v = Some ty" "len j \<le> maxContentItemSize"
    using assms by (auto simp: DecodeContent_def not_less split: option.splits if_splits)
  have body: "(if ty = ''text'' then (case optional_text fs ''text'' of None \<Rightarrow> Inl ''invalid text content'' | Some text \<Rightarrow> Inr (TextContent text))
      else if ty = ''image'' then decode_media ImageContent ''invalid image content'' ''invalid image data encoding'' fs
      else if ty = ''audio'' then decode_media AudioContent ''invalid audio content'' ''invalid audio data encoding'' fs
      else if ty = ''resource'' then decode_resource fs
      else Inl ''unknown content type'') = Inr c"
    using assms fs by (simp add: DecodeContent_def split: if_splits)
  then have "ty = contentType c \<and> ty \<noteq> [] \<and> (\<exists>j'. marshal_content c = Inr j')"
    by (auto simp: marshal_ResourceContent_def split: if_splits option.splits dest!: decode_media_ok decode_resource_ok)
  moreover from this fs(3) have "v = JStr ty" by (cases v) auto
  ultimately show ?thesis using fs by auto
qed

theorem decoded_content_is_typed_witness:
  "\<exists>j'. marshal_content (TextContent ''a'') = Inr j'"
  using decoded_content_is_typed [of "\<lambda>_. 0" "JObj [(''type'', JStr ''text''), (''text'', JStr ''a'')]" "TextContent ''a''"]
  by (simp add: DecodeContent_def raw_fields_def gomap_simps optional_text_def)

text \<open>The documentation of the decoder asks for data that is not empty; the decoder accepts empty data.\<close>

lemma empty_data_is_accepted:
  "DecodeContent (\<lambda>_. 0) (Some (JObj [(''type'', JStr ''image''), (''data'', JStr [])])) = Inr (ImageContent [] [])"
  by (simp add: DecodeContent_def raw_fields_def gomap_simps optional_text_def decode_media_def b64_decode_def)

end
