(* ===== verification/Client_Inbound.thy ===== *)
theory Client_Inbound
  imports Client_Core Content_Codec Dispatch "HOL-Library.Multiset"
begin

text \<open>
  What the client does with the notifications and requests of the server (\<open>handleNotification\<close>,
  \<open>handleServerRequest\<close>, \<open>sendServerResponse\<close> of \<open>client/client.go\<close>), and how it fits what the server sends.
  Callbacks are events. The text of values that are neither strings nor absent (\<open>fmtv\<close>), whether a
  number literal is a float (\<open>isFloat\<close>) and the text of a number after decoding to a \<open>float64\<close> and encoding
  (\<open>renum\<close>, nothing where the literal is out of range) are arguments.
\<close>

section \<open>Notifications\<close>

record client_callbacks =
  on_Progress :: bool
  on_LogMessage :: bool
  on_ToolsListChanged :: bool
  on_ResourcesListChanged :: bool
  on_PromptsListChanged :: bool
  on_RootsListChanged :: bool
  on_ResourceUpdated :: bool
  on_Notification :: bool

record progress_in =
  pi_Token :: "json option"
  pi_Progress :: string
  pi_Total :: string
  pi_Content :: "json list"

record log_in =
  li_Level :: string
  li_Logger :: string
  li_Data :: "json option"

datatype client_event =
    EProgress progress_in
  | EStream string Content
  | ELogMessage log_in
  | EToolsListChanged
  | EResourcesListChanged
  | EPromptsListChanged
  | ERootsListChanged
  | EResourceUpdated string
  | ENotification string "json option"

definition d_float :: "(string \<Rightarrow> bool) \<Rightarrow> string \<Rightarrow> json \<Rightarrow> string option" where
  "d_float isFloat a v = (case v of JNum l \<Rightarrow> if isFloat l then Some l else None | JNull \<Rightarrow> Some a | _ \<Rightarrow> None)"

text \<open>\<open>json.Unmarshal\<close> of the raw parameters; absent parameters are not JSON.\<close>

definition decode_progress :: "(string \<Rightarrow> bool) \<Rightarrow> json option \<Rightarrow> progress_in option" where
  "decode_progress isFloat params =
     (case params of None \<Rightarrow> None
      | Some v \<Rightarrow> (case as_object v of None \<Rightarrow> None
         | Some obj \<Rightarrow>
             (case (field d_any None ''progressToken'' obj, field (d_float isFloat) ''0'' ''progress'' obj,
                    field (d_float isFloat) ''0'' ''total'' obj, field d_raw_list [] ''content'' obj) of
                (Some t, Some p, Some n, Some c) \<Rightarrow> Some \<lparr> pi_Token = t, pi_Progress = p, pi_Total = n, pi_Content = c \<rparr>
              | _ \<Rightarrow> None)))"

definition decode_log :: "json option \<Rightarrow> log_in option" where
  "decode_log params =
     (case params of None \<Rightarrow> None
      | Some v \<Rightarrow> (case as_object v of None \<Rightarrow> None
         | Some obj \<Rightarrow>
             (case (field d_string [] ''level'' obj, field d_string [] ''logger'' obj, field d_any None ''data'' obj) of
                (Some l, Some g, Some d) \<Rightarrow> Some \<lparr> li_Level = l, li_Logger = g, li_Data = d \<rparr>
              | _ \<Rightarrow> None)))"

definition decode_uri :: "json option \<Rightarrow> string option" where
  "decode_uri params =
     (case params of None \<Rightarrow> None
      | Some v \<Rightarrow> (case as_object v of None \<Rightarrow> None | Some obj \<Rightarrow> field d_string [] ''uri'' obj))"

text \<open>The blocks of a progress notification, for a call that has subscribed to the token.\<close>

definition stream_blocks :: "(json \<Rightarrow> nat) \<Rightarrow> (json option \<Rightarrow> string) \<Rightarrow> string list \<Rightarrow> progress_in \<Rightarrow> client_event list" where
  "stream_blocks len fmtv subs p =
     (let token = (case pi_Token p of Some (JStr s) \<Rightarrow> s | v \<Rightarrow> fmtv v)
      in if pi_Content p \<noteq> [] \<and> token \<in> set subs
         then concat (map (\<lambda>raw. case DecodeContent len (Some raw) of Inr block \<Rightarrow> [EStream token block] | Inl _ \<Rightarrow> []) (pi_Content p))
         else [])"

definition handleNotification_client ::
  "(json \<Rightarrow> nat) \<Rightarrow> (json option \<Rightarrow> string) \<Rightarrow> (string \<Rightarrow> bool) \<Rightarrow> client_callbacks \<Rightarrow> string list \<Rightarrow> string \<Rightarrow> json option \<Rightarrow> client_event list" where
  "handleNotification_client len fmtv isFloat cb subs method params =
     (if method = ''notifications/progress'' then
        (case decode_progress isFloat params of None \<Rightarrow> []
         | Some p \<Rightarrow> (if on_Progress cb then [EProgress p] else []) @ stream_blocks len fmtv subs p)
      else if method = ''notifications/message'' then
        (if on_LogMessage cb then (case decode_log params of None \<Rightarrow> [] | Some p \<Rightarrow> [ELogMessage p]) else [])
      else if method = methodToolsListChanged then (if on_ToolsListChanged cb then [EToolsListChanged] else [])
      else if method = methodResourcesListChanged then (if on_ResourcesListChanged cb then [EResourcesListChanged] else [])
      else if method = methodPromptsListChanged then (if on_PromptsListChanged cb then [EPromptsListChanged] else [])
      else if method = methodRootsListChanged then (if on_RootsListChanged cb then [ERootsListChanged] else [])
      else if method = ''notifications/resources/updated'' then
        (if on_ResourceUpdated cb then (case decode_uri params of None \<Rightarrow> [] | Some uri \<Rightarrow> [EResourceUpdated uri]) else [])
      else if on_Notification cb then [ENotification method params] else [])"

section \<open>Requests of the server\<close>

text \<open>A handler decodes its parameters (\<open>None\<close> where they do not decode) and returns a result that encodes or
  not (\<open>Ret None\<close>), fails, or panics.\<close>

type_synonym inbound_handler = "json option \<Rightarrow> json option hres option"

text \<open>
  The identifier of an answer: the one of the request decoded into \<open>any\<close> and encoded again. The error of the
  decoder is ignored, and it leaves nil where a number is out of range.
\<close>

fun echo_any :: "(string \<Rightarrow> string option) \<Rightarrow> json \<Rightarrow> json" where
  "echo_any renum (JNum l) = (case renum l of None \<Rightarrow> JNull | Some t \<Rightarrow> JNum t)"
| "echo_any renum (JArr js) = JArr (map (echo_any renum) js)"
| "echo_any renum (JObj kvs) = JObj (fold (\<lambda>p. mput (fst p) (snd p)) (map (\<lambda>p. (fst p, echo_any renum (snd p))) kvs) [])"
| "echo_any renum v = v"

definition echo_id :: "(string \<Rightarrow> string option) \<Rightarrow> json option \<Rightarrow> json option" where
  "echo_id renum i =
     (case i of None \<Rightarrow> None | Some raw \<Rightarrow> let v = echo_any renum raw in if v = JNull then None else Some v)"

definition sendServerResponse :: "(string \<Rightarrow> string option) \<Rightarrow> json option \<Rightarrow> (int \<times> string) + json option \<Rightarrow> json JSONRPCResponse" where
  "sendServerResponse renum i r =
     (case r of
        Inl (code, msg) \<Rightarrow> NewErrorResponse (echo_id renum i) code msg
      | Inr (Some v) \<Rightarrow> NewResponse (echo_id renum i) v
      | Inr None \<Rightarrow> NewErrorResponse (echo_id renum i) ErrCodeInternalError ''internal error'')"

definition sendServerError :: "(string \<Rightarrow> string option) \<Rightarrow> json option \<Rightarrow> int \<Rightarrow> string \<Rightarrow> json JSONRPCResponse" where
  "sendServerError renum i code msg = sendServerResponse renum i (Inl (code, msg))"

definition run_handler :: "string \<Rightarrow> inbound_handler option \<Rightarrow> json option \<Rightarrow> ((int \<times> string) + json option) hres" where
  "run_handler name h params =
     (case h of
        None \<Rightarrow> Ret (Inl (ErrCodeMethodNotFound, name @ '' not supported''))
      | Some f \<Rightarrow>
          (case f params of
             None \<Rightarrow> Ret (Inl (ErrCodeInvalidParams, ''invalid '' @ name @ '' params''))
           | Some (Ret r) \<Rightarrow> Ret (Inr r)
           | Some (Err _) \<Rightarrow> Ret (Inl (ErrCodeInternalError, name @ '' handler failed''))
           | Some (Panic m) \<Rightarrow> Panic m))"

definition handleServerRequest ::
  "(string \<Rightarrow> string option) \<Rightarrow> inbound_handler option \<Rightarrow> inbound_handler option \<Rightarrow> JSONRPCRequest \<Rightarrow> json JSONRPCResponse hres" where
  "handleServerRequest renum sampling elicitation req =
     (case (if req_Method req = ''sampling/createMessage'' then run_handler ''sampling'' sampling (req_Params req)
            else if req_Method req = ''elicitation/create'' then run_handler ''elicitation'' elicitation (req_Params req)
            else if req_Method req = ''ping'' then Ret (Inr (Some (JObj [])))
            else Ret (Inl (ErrCodeMethodNotFound, ''unknown method''))) of
        Ret r \<Rightarrow> Ret (sendServerResponse renum (req_ID req) r)
      | Err e \<Rightarrow> Err e
      | Panic m \<Rightarrow> Panic m)"

text \<open>
  The limit on requests that are handled at the same time (\<open>serverReqSem\<close>). A goroutine answers first and
  gives its slot back afterwards; \<open>sv_leaving\<close> counts those in between. \<open>sv_answers\<close> are the messages given to
  the transport, whose error on sending is ignored by the code.
\<close>

record serving =
  sv_limit :: nat
  sv_running :: "JSONRPCRequest list"
  sv_leaving :: nat
  sv_received :: "json option list"
  sv_answers :: "json JSONRPCResponse list"

definition maxConcurrent :: "int \<Rightarrow> nat" where
  "maxConcurrent n = (if n \<le> 0 then 10 else nat n)"

definition New_serving :: "int \<Rightarrow> serving" where
  "New_serving n = \<lparr> sv_limit = maxConcurrent n, sv_running = [], sv_leaving = 0, sv_received = [], sv_answers = [] \<rparr>"

definition accept_request :: "(string \<Rightarrow> string option) \<Rightarrow> JSONRPCRequest \<Rightarrow> serving \<Rightarrow> serving" where
  "accept_request renum req s =
     (let s1 = s \<lparr> sv_received := echo_id renum (req_ID req) # sv_received s \<rparr>
      in if length (sv_running s) + sv_leaving s < sv_limit s then s1 \<lparr> sv_running := req # sv_running s \<rparr>
         else s1 \<lparr> sv_answers := sendServerError renum (req_ID req) ErrCodeInternalError ''too many concurrent requests'' # sv_answers s \<rparr>)"

inductive serve_step :: "(string \<Rightarrow> string option) \<Rightarrow> serving \<Rightarrow> serving \<Rightarrow> bool" for renum where
  arrives: "handleMessage data = InRequest req \<Longrightarrow> serve_step renum s (accept_request renum req s)"
| finishes: "sv_running s = xs @ req # ys \<Longrightarrow> handleServerRequest renum sampling elicitation req = Ret resp \<Longrightarrow>
    serve_step renum s (s \<lparr> sv_running := xs @ ys, sv_leaving := Suc (sv_leaving s), sv_answers := resp # sv_answers s \<rparr>)"
| releases: "sv_leaving s = Suc k \<Longrightarrow> serve_step renum s (s \<lparr> sv_leaving := k \<rparr>)"

lemma handled_ok:
  "handleServerRequest renum sh eh req = Ret resp \<Longrightarrow> wf_response resp \<and> resp_ID resp = echo_id renum (req_ID req)"
  by (auto simp: handleServerRequest_def sendServerResponse_def split: hres.splits if_splits sum.splits option.splits)

definition serving_ok :: "(string \<Rightarrow> string option) \<Rightarrow> serving \<Rightarrow> bool" where
  "serving_ok renum s \<longleftrightarrow> length (sv_running s) + sv_leaving s \<le> sv_limit s \<and> (\<forall>r \<in> set (sv_answers s). wf_response r)
     \<and> mset (sv_received s) = mset (map (\<lambda>q. echo_id renum (req_ID q)) (sv_running s)) + mset (map resp_ID (sv_answers s))"

lemma serve_step_ok:
  assumes "serve_step renum s s'" "serving_ok renum s"
  shows "serving_ok renum s'"
  using assms
proof (induction rule: serve_step.induct)
  case (arrives data req s)
  then show ?case by (auto simp: serving_ok_def accept_request_def Let_def sendServerError_def sendServerResponse_def)
next
  case (finishes s xs req ys sh eh resp)
  then show ?case using handled_ok [OF finishes(2)] by (auto simp: serving_ok_def)
next
  case (releases s k)
  then show ?case by (simp add: serving_ok_def)
qed

text \<open>C28: The client answers every request of the server exactly once. Whatever arrives and in whatever order
  handlers finish, the identifiers of the requests received are those of the requests that are being
  handled together with those of the answers sent; at most the configured number holds a slot at a time,
  from its arrival until after its answer is sent; the rest is answered with an error at once; and every answer is well formed.\<close>

theorem server_requests_answered_once:
  assumes "(serve_step renum)\<^sup>*\<^sup>* (New_serving n) s"
  shows "length (sv_running s) + sv_leaving s \<le> maxConcurrent n \<and> (\<forall>r \<in> set (sv_answers s). wf_response r)
    \<and> mset (sv_received s) = mset (map (\<lambda>q. echo_id renum (req_ID q)) (sv_running s)) + mset (map resp_ID (sv_answers s))"
proof -
  have "serving_ok renum s \<and> sv_limit s = maxConcurrent n"
    using assms
  proof (induction rule: rtranclp_induct)
    case base
    show ?case by (simp add: serving_ok_def New_serving_def)
  next
    case (step s s')
    have "sv_limit s' = sv_limit s" using step(2) by (induction rule: serve_step.induct) (auto simp: accept_request_def Let_def)
    then show ?case using step serve_step_ok by metis
  qed
  then show ?thesis by (simp add: serving_ok_def)
qed

definition ping_data :: json where
  "ping_data = JObj [(''jsonrpc'', JStr ''2.0''), (''id'', JStr ''srv-1''), (''method'', JStr ''ping'')]"

definition ping_request :: JSONRPCRequest where
  "ping_request = \<lparr> req_JSONRPC = ''2.0'', req_ID = Some (JStr ''srv-1''), req_Method = ''ping'', req_Params = None, req_hasID = True \<rparr>"

lemma ping_arrives: "handleMessage (Some ping_data) = InRequest ping_request"
  by (simp add: handleMessage_def IsResponse_def UnmarshalRequest_def ping_data_def ping_request_def as_object_def field_def members_def
      d_raw_def foldName_response foldName_method foldName_params del: foldName.simps)

theorem server_requests_answered_once_witness:
  "\<exists>resp. (serve_step Some)\<^sup>*\<^sup>* (New_serving 1) \<lparr> sv_limit = 1, sv_running = [], sv_leaving = 1,
        sv_received = [Some (JStr ''srv-1'')], sv_answers = [resp] \<rparr>
     \<and> wf_response resp \<and> {# Some (JStr ''srv-1'') #} = {# resp_ID resp #}"
proof -
  let ?s1 = "accept_request Some ping_request (New_serving 1)"
  obtain resp where h: "handleServerRequest Some None None ping_request = Ret resp"
    by (simp add: handleServerRequest_def ping_request_def)
  define s2 where "s2 = ?s1 \<lparr> sv_running := [] @ [], sv_leaving := Suc (sv_leaving ?s1), sv_answers := resp # sv_answers ?s1 \<rparr>"
  have s2: "s2 = \<lparr> sv_limit = 1, sv_running = [], sv_leaving = 1, sv_received = [Some (JStr ''srv-1'')], sv_answers = [resp] \<rparr>"
    by (simp add: s2_def accept_request_def New_serving_def maxConcurrent_def echo_id_def ping_request_def)
  have "serve_step Some (New_serving 1) ?s1" by (rule serve_step.arrives [OF ping_arrives])
  moreover have "serve_step Some ?s1 s2" unfolding s2_def
    by (rule serve_step.finishes [OF _ h]) (simp add: accept_request_def New_serving_def maxConcurrent_def)
  ultimately have "(serve_step Some)\<^sup>*\<^sup>* (New_serving 1) s2" by (meson rtranclp.rtrancl_into_rtrancl r_into_rtranclp)
  from this server_requests_answered_once [OF this] show ?thesis by (intro exI [of _ resp]) (simp add: s2)
qed

section \<open>What the server sends\<close>

text \<open>The parameters of a notification of the server on the wire.\<close>

definition marshal_any :: "json option \<Rightarrow> json" where
  "marshal_any v = (case v of None \<Rightarrow> JNull | Some j \<Rightarrow> j)"

fun marshal_notif_params :: "notif_params \<Rightarrow> json option" where
  "marshal_notif_params NoParams = None"
| "marshal_notif_params (ResourceUpdatedParams uri) = Some (JObj [(''uri'', JStr (json_text uri))])"
| "marshal_notif_params (LogMessageParams level logger data) =
     Some (JObj ((''level'', JStr (json_text level)) # omit_empty ''logger'' logger @ [(''data'', data)]))"
| "marshal_notif_params (ProgressParams token progress tot) =
     Some (JObj ((''progressToken'', marshal_any token) # (''progress'', progress) # (if tot = JNum ''0'' then [] else [(''total'', tot)])))"
| "marshal_notif_params (StreamProgressParams token seq chunk) =
     Some (JObj [(''progressToken'', marshal_any token), (''progress'', JNum (Itoa (int seq))),
       (''data'', JObj [(''content'', chunk), (''sequence'', JNum (Itoa (int seq)))])])"

definition client_sees ::
  "(json \<Rightarrow> nat) \<Rightarrow> (json option \<Rightarrow> string) \<Rightarrow> (string \<Rightarrow> bool) \<Rightarrow> client_callbacks \<Rightarrow> string list \<Rightarrow> JSONRPCNotification \<Rightarrow> client_event list" where
  "client_sees len fmtv isFloat cb subs n = handleNotification_client len fmtv isFloat cb subs (ntf_Method n) (marshal_notif_params (ntf_Params n))"

lemma foldName_notif:
  "foldName ''progressToken'' = ''PROGRESSTOKEN''" "foldName ''progress'' = ''PROGRESS''" "foldName ''total'' = ''TOTAL''"
  "foldName ''data'' = ''DATA''" "foldName ''level'' = ''LEVEL''" "foldName ''logger'' = ''LOGGER''"
  by (subst foldName_ascii; simp add: fold_eval)+

lemmas notif_eval = client_sees_def handleNotification_client_def methodToolsListChanged_def methodResourcesListChanged_def
  methodPromptsListChanged_def methodRootsListChanged_def field_eval foldName_notif as_object_def

text \<open>C31: Streaming of the two sides does not fit together. The server puts the chunk of a streaming tool into
  the member \<open>data\<close> of a progress notification, the client looks for blocks in the member \<open>content\<close>: no
  chunk that the server streams reaches the channel of a streaming call, whatever the token and the
  subscriptions; the callback for progress is all that is called.\<close>

theorem streamed_chunks_never_arrive:
  "set (client_sees len fmtv isFloat cb subs (stream_chunk token seq chunk)) \<subseteq> range EProgress"
proof -
  have "field d_raw_list [] ''content'' [(''progressToken'', marshal_any token), (''progress'', JNum (Itoa (int seq))),
       (''data'', JObj [(''content'', chunk), (''sequence'', JNum (Itoa (int seq)))])] = Some []"
    by (simp add: field_eval foldName_notif del: foldName.simps)
  then have "pi_Content p = []" if "decode_progress isFloat (marshal_notif_params (StreamProgressParams token seq chunk)) = Some p" for p
    using that by (auto simp: decode_progress_def as_object_def split: option.splits)
  then show ?thesis
    by (auto simp: client_sees_def handleNotification_client_def stream_chunk_def stream_blocks_def simp del: marshal_notif_params.simps split: option.splits)
qed

text \<open>The other notifications of the server arrive. With the callbacks registered, the client reports
  exactly the change of a list, the update of a resource and the log message that the server sent.\<close>

theorem notifications_arrive:
  assumes "on_ToolsListChanged cb" "on_ResourcesListChanged cb" "on_PromptsListChanged cb" "on_RootsListChanged cb"
    and "on_ResourceUpdated cb" "on_LogMessage cb" and "valid_utf8 uri" "valid_utf8 level" "valid_utf8 logger"
  shows "client_sees len fmtv isFloat cb subs (list_changed methodToolsListChanged) = [EToolsListChanged]
    \<and> client_sees len fmtv isFloat cb subs (list_changed methodResourcesListChanged) = [EResourcesListChanged]
    \<and> client_sees len fmtv isFloat cb subs (list_changed methodPromptsListChanged) = [EPromptsListChanged]
    \<and> client_sees len fmtv isFloat cb subs (list_changed methodRootsListChanged) = [ERootsListChanged]
    \<and> client_sees len fmtv isFloat cb subs (resource_updated uri) = [EResourceUpdated uri]
    \<and> client_sees len fmtv isFloat cb subs \<lparr> ntf_JSONRPC = jsonrpcVersion, ntf_Method = ''notifications/message'', ntf_Params = LogMessageParams level logger data \<rparr>
        = [ELogMessage \<lparr> li_Level = level, li_Logger = logger, li_Data = (if data = JNull then None else Some data) \<rparr>]"
proof -
  have t: "json_text uri = uri" "json_text level = level" "json_text logger = logger" using assms by (simp_all add: valid_utf8_def)
  have "decode_uri (marshal_notif_params (ResourceUpdatedParams uri)) = Some uri"
    using t by (simp add: decode_uri_def as_object_def field_eval del: foldName.simps)
  moreover have "decode_log (marshal_notif_params (LogMessageParams level logger data))
      = Some \<lparr> li_Level = level, li_Logger = logger, li_Data = (if data = JNull then None else Some data) \<rparr>"
    using t by (auto simp: decode_log_def as_object_def omit_empty_def field_eval foldName_notif d_any_def simp del: foldName.simps)
  ultimately show ?thesis using assms
    by (simp add: notif_eval list_changed_def resource_updated_def del: marshal_notif_params.simps foldName.simps)
qed

definition all_callbacks :: client_callbacks where
  "all_callbacks = \<lparr> on_Progress = True, on_LogMessage = True, on_ToolsListChanged = True, on_ResourcesListChanged = True,
     on_PromptsListChanged = True, on_RootsListChanged = True, on_ResourceUpdated = True, on_Notification = True \<rparr>"

theorem notifications_arrive_witness:
  "client_sees (\<lambda>_. 0) (\<lambda>_. []) (\<lambda>_. True) all_callbacks [] (resource_updated ''a'') = [EResourceUpdated ''a'']"
proof -
  have "valid_utf8 ''a''" by (rule valid_utf8_ascii) simp
  then show ?thesis
    using notifications_arrive [of all_callbacks "''a''" "''a''" "''a''" "\<lambda>_. 0" "\<lambda>_. []" "\<lambda>_. True" "[]" JNull] by (simp add: all_callbacks_def)
qed

end
