(* ===== verification/Retry.thy ===== *)
theory Retry
  imports Client_Errors Complex_Main "HOL-Library.Word"
begin

text \<open>
  Retrying: the middleware of \<open>middleware/retry.go\<close>, the retrier of \<open>client/retry.go\<close> and the backoff
  strategies of \<open>client/reconnect.go\<close>. Both loops are shown to run a common abstract loop. Durations are
  64-bit integers in the strategies; the delays that the code computes in floating point are rational
  numbers here.
\<close>

section \<open>Backoff strategies\<close>

record exponentialBackoff =
  eb_initial :: "64 word"
  eb_max :: "64 word"

definition second :: "64 word" where "second = 1000000000"

definition ExponentialBackoff :: "64 word \<Rightarrow> 64 word \<Rightarrow> exponentialBackoff" where
  "ExponentialBackoff initial mx = \<lparr> eb_initial = (if sint initial \<le> 0 then second else initial),
     eb_max = (if sint mx \<le> 0 then 60 * second else mx) \<rparr>"

definition NextBackoff :: "exponentialBackoff \<Rightarrow> int \<Rightarrow> 64 word" where
  "NextBackoff b attempt0 =
     (let attempt = (if attempt0 < 0 then 0 else attempt0)
      in if attempt > 62 then eb_max b
         else let multiplier = push_bit (nat attempt) (1 :: 64 word);
                  backoff = multiplier * eb_initial b
              in if sint backoff < 0 \<or> sint backoff > sint (eb_max b) then eb_max b else backoff)"

definition LinearBackoff_Next :: "64 word \<Rightarrow> int \<Rightarrow> 64 word" where
  "LinearBackoff_Next interval attempt = (if sint interval \<le> 0 then 5 * second else interval)"

definition NoBackoff_Next :: "int \<Rightarrow> 64 word" where
  "NoBackoff_Next attempt = 0"

lemma sint_60: "sint (60 * second) = 60 * 10 ^ 9" "sint second = 10 ^ 9"
  by (simp_all add: second_def)

lemma NextBackoff_bounds:
  "0 \<le> sint (NextBackoff (ExponentialBackoff initial mx) attempt)
   \<and> sint (NextBackoff (ExponentialBackoff initial mx) attempt) \<le> sint (eb_max (ExponentialBackoff initial mx))"
proof -
  have "0 \<le> sint (eb_max (ExponentialBackoff initial mx))" by (simp add: ExponentialBackoff_def sint_60)
  then show ?thesis by (auto simp: NextBackoff_def Let_def)
qed

lemma sint_product:
  fixes w :: "64 word"
  assumes "0 < sint w" and "sint w * 2 ^ n < 2 ^ 63"
  shows "sint (push_bit n 1 * w) = sint w * 2 ^ n"
proof -
  have "push_bit n 1 * w = word_of_int (2 ^ n) * word_of_int (sint w)" by (simp add: push_bit_eq_mult)
  then have "push_bit n 1 * w = (word_of_int (sint w * 2 ^ n) :: 64 word)" by (simp add: mult.commute flip: wi_hom_mult)
  moreover have "0 \<le> sint w * 2 ^ n" using assms(1) by simp
  moreover have "signed_take_bit 63 (sint w * 2 ^ n) = sint w * 2 ^ n"
    by (rule signed_take_bit_int_eq_self) (use assms(2) \<open>0 \<le> sint w * 2 ^ n\<close> in simp_all)
  ultimately show ?thesis by (simp only: sint_sbintrunc') simp
qed

text \<open>Exponential backoff is exact where it does not overflow. The delay is never negative and never above
  the maximum; it is the initial delay doubled once per attempt, up to the maximum, as long as that
  product fits 63 bits, and the maximum from the 63rd retry on.\<close>

theorem backoff_exact:
  "0 \<le> sint (NextBackoff (ExponentialBackoff initial mx) attempt)
   \<and> sint (NextBackoff (ExponentialBackoff initial mx) attempt) \<le> sint (eb_max (ExponentialBackoff initial mx))
   \<and> (0 \<le> attempt \<longrightarrow> sint (eb_initial (ExponentialBackoff initial mx)) * 2 ^ nat attempt < 2 ^ 63 \<longrightarrow>
        sint (NextBackoff (ExponentialBackoff initial mx) attempt)
        = min (sint (eb_initial (ExponentialBackoff initial mx)) * 2 ^ nat attempt) (sint (eb_max (ExponentialBackoff initial mx))))
   \<and> (attempt > 62 \<longrightarrow> NextBackoff (ExponentialBackoff initial mx) attempt = eb_max (ExponentialBackoff initial mx))"
proof (intro conjI impI)
  let ?b = "ExponentialBackoff initial mx"
  show "0 \<le> sint (NextBackoff ?b attempt)" "sint (NextBackoff ?b attempt) \<le> sint (eb_max ?b)"
    using NextBackoff_bounds by blast+
  show "attempt > 62 \<Longrightarrow> NextBackoff ?b attempt = eb_max ?b" by (simp add: NextBackoff_def)
  assume fits: "0 \<le> attempt" "sint (eb_initial ?b) * 2 ^ nat attempt < 2 ^ 63"
  have pos: "0 < sint (eb_initial ?b)" by (simp add: ExponentialBackoff_def sint_60)
  have "2 ^ nat attempt \<le> sint (eb_initial ?b) * 2 ^ nat attempt" using pos by simp
  then have "(2 :: int) ^ nat attempt < 2 ^ 63" using fits(2) by linarith
  then have "nat attempt < 63" by (rule power_less_imp_less_exp [rotated]) simp
  then have small: "\<not> attempt > 62" by simp
  show "sint (NextBackoff ?b attempt) = min (sint (eb_initial ?b) * 2 ^ nat attempt) (sint (eb_max ?b))"
  proof -
    define p where "p = sint (eb_initial ?b) * 2 ^ nat attempt"
    have "sint (push_bit (nat attempt) 1 * eb_initial ?b) = p" "0 \<le> p"
      using sint_product [OF pos fits(2)] pos by (simp_all add: p_def)
    with fits(1) small show ?thesis unfolding p_def [symmetric] by (simp add: NextBackoff_def Let_def min_def del: push_bit_of_1)
  qed
qed

text \<open>The guard against overflow looks for a negative product only. With the default initial delay of one
  second the product is a multiple of \<open>2\<^sup>6\<^sup>4\<close> from the 55th retry to the 62nd: the delay is zero.\<close>

lemma backoff_wraps_to_zero: "NextBackoff (ExponentialBackoff 0 0) (55 + int (k :: nat)) = (if k < 8 then 0 else 60 * second)"
proof -
  have e: "ExponentialBackoff 0 0 = \<lparr> eb_initial = second, eb_max = 60 * second \<rparr>" by (simp add: ExponentialBackoff_def)
  have "push_bit (nat (55 + int k)) (1 :: 64 word) * second = push_bit k (push_bit 55 1 * second)"
    by (simp add: push_bit_eq_mult nat_add_distrib power_add mult_ac)
  also have "push_bit 55 1 * second = (0 :: 64 word)" by (simp add: second_def push_bit_eq_mult)
  finally have "push_bit (nat (55 + int k)) (1 :: 64 word) * second = 0" by simp
  then show ?thesis unfolding e by (auto simp: NextBackoff_def Let_def sint_60)
qed

theorem backoff_exact_witness: "sint (NextBackoff (ExponentialBackoff 0 0) 3) = 8 * 10 ^ 9"
  using backoff_exact [of 0 0 3] by (simp add: ExponentialBackoff_def sint_60)

section \<open>The abstract loop\<close>

text \<open>
  Attempts with pauses: an attempt gives a result; a result that is not to be repeated ends the loop, as
  does the last attempt; before every further attempt there is a pause, which may be the end too. The
  loop returns the results of its attempts and why it ended.
\<close>

datatype ending = Final | Exhausted | Interrupted

fun attempts ::
  "('s \<Rightarrow> 'r \<times> 's) \<Rightarrow> ('r \<Rightarrow> bool) \<Rightarrow> (nat \<Rightarrow> 'r \<Rightarrow> 's \<Rightarrow> bool \<times> 's) \<Rightarrow> nat \<Rightarrow> nat \<Rightarrow> 's \<Rightarrow> 'r list \<times> ending \<times> 's" where
  "attempts run again pause 0 i s = ([], Exhausted, s)"
| "attempts run again pause (Suc n) i s =
     (case run s of (r, s1) \<Rightarrow>
        if \<not> again r then ([r], Final, s1)
        else if n = 0 then ([r], Exhausted, s1)
        else case pause (Suc i) r s1 of (go, s2) \<Rightarrow>
          if \<not> go then ([r], Interrupted, s2)
          else case attempts run again pause n (Suc i) s2 of (rs, e, s3) \<Rightarrow> (r # rs, e, s3))"

lemma attempts_shape:
  assumes "attempts run again pause (Suc n) i s = (rs, e, s')"
  shows "rs \<noteq> [] \<and> length rs \<le> Suc n \<and> (\<forall>r \<in> set (butlast rs). again r)
    \<and> (e = Final \<longleftrightarrow> \<not> again (last rs)) \<and> (e = Exhausted \<longrightarrow> length rs = Suc n)"
  using assms
proof (induction n arbitrary: i s rs e s')
  case 0
  then show ?case by (auto split: prod.splits if_splits)
next
  case (Suc n)
  obtain r s1 where r: "run s = (r, s1)" by fastforce
  obtain go s2 where p: "pause (Suc i) r s1 = (go, s2)" by fastforce
  obtain rs1 e1 s3 where t: "attempts run again pause (Suc n) (Suc i) s2 = (rs1, e1, s3)" by (metis prod.collapse)
  show ?case
  proof (cases "again r \<and> go")
    case True
    with Suc.prems r p t have "rs = r # rs1" "e = e1" by (simp_all del: attempts.simps(2) add: attempts.simps(2) [of run again pause "Suc n" i])
    with Suc.IH [OF t] True show ?thesis by auto
  next
    case False
    with Suc.prems r p show ?thesis by (auto split: if_splits)
  qed
qed

section \<open>The middleware\<close>

record retryConfig =
  rc_maxAttempts :: int
  rc_baseDelay :: int
  rc_maxDelay :: int
  rc_multiplier :: rat
  rc_jitterFrac :: rat

definition WithMaxAttempts :: "int \<Rightarrow> retryConfig \<Rightarrow> retryConfig" where
  "WithMaxAttempts n c = (if n \<ge> 1 then c \<lparr> rc_maxAttempts := n \<rparr> else c)"

definition WithBaseDelay :: "int \<Rightarrow> retryConfig \<Rightarrow> retryConfig" where
  "WithBaseDelay d c = (if d > 0 then c \<lparr> rc_baseDelay := d \<rparr> else c)"

definition WithMaxDelay :: "int \<Rightarrow> retryConfig \<Rightarrow> retryConfig" where
  "WithMaxDelay d c = (if d > 0 then c \<lparr> rc_maxDelay := d \<rparr> else c)"

definition WithMultiplier :: "rat \<Rightarrow> retryConfig \<Rightarrow> retryConfig" where
  "WithMultiplier m c = (if m \<ge> 1 then c \<lparr> rc_multiplier := m \<rparr> else c)"

definition WithJitter :: "rat \<Rightarrow> retryConfig \<Rightarrow> retryConfig" where
  "WithJitter f c = (if f \<ge> 0 \<and> f \<le> 1 then c \<lparr> rc_jitterFrac := f \<rparr> else c)"

definition Retry_config :: "(retryConfig \<Rightarrow> retryConfig) list \<Rightarrow> retryConfig" where
  "Retry_config opts =
     (let c = fold (\<lambda>opt c. opt c) opts
            \<lparr> rc_maxAttempts = 3, rc_baseDelay = 100 * 10 ^ 6, rc_maxDelay = 10 * 10 ^ 9, rc_multiplier = 2, rc_jitterFrac = 1 / 10 \<rparr>
      in c \<lparr> rc_maxAttempts := (if rc_maxAttempts c < 1 then 1 else rc_maxAttempts c),
             rc_multiplier := (if rc_multiplier c < 1 then 1 else rc_multiplier c) \<rparr>)"

text \<open>\<open>rnd\<close> is what \<open>rand.Float64\<close> returns. Rational numbers have no infinity, which the code replaces by
  the maximum, as the first cap does here.\<close>

definition computeDelay :: "int \<Rightarrow> int \<Rightarrow> rat \<Rightarrow> rat \<Rightarrow> nat \<Rightarrow> rat \<Rightarrow> int" where
  "computeDelay base mx multiplier jitterFrac iteration rnd =
     (let d0 = of_int base * multiplier ^ iteration;
          d1 = (if d0 > of_int mx then of_int mx else d0);
          d2 = (if d1 < 0 then of_int mx else d1);
          d3 = (if jitterFrac > 0 then d2 + d2 * jitterFrac * rnd else d2);
          d4 = (if d3 > of_int mx then of_int mx else d3);
          d = (if d4 \<ge> 0 then \<lfloor>d4\<rfloor> else \<lceil>d4\<rceil>)
      in if d < 0 then mx else d)"

text \<open>An attempt: the handler returns output and error, or panics. The environment has the handler, the
  context, the sleep, the callback and the random numbers, all on one state; a classifier that panics
  counts as one that says no.\<close>

datatype attempt_res = AOk bytes | AErr bytes goerr | APanic string

record 's retry_env =
  re_next :: "'s \<Rightarrow> attempt_res \<times> 's"
  re_ctxErr :: "'s \<Rightarrow> bool"
  re_sleep :: "int \<Rightarrow> 's \<Rightarrow> 's"
  re_onRetry :: "int \<Rightarrow> goerr \<Rightarrow> int \<Rightarrow> 's \<Rightarrow> 's"
  re_rand :: "'s \<Rightarrow> rat \<times> 's"
  re_isRetryable :: "(goerr \<Rightarrow> bool hres) option"

definition safeIsRetryable :: "(goerr \<Rightarrow> bool hres) \<Rightarrow> goerr \<Rightarrow> bool" where
  "safeIsRetryable fn err = (case fn err of Ret b \<Rightarrow> b | _ \<Rightarrow> False)"

text \<open>The loop from an attempt on; \<open>n\<close> attempts are left.\<close>

fun retry_loop :: "retryConfig \<Rightarrow> 's retry_env \<Rightarrow> nat \<Rightarrow> nat \<Rightarrow> bytes \<Rightarrow> goerr option \<Rightarrow> 's \<Rightarrow> attempt_res \<times> 's" where
  "retry_loop cfg env 0 attempt lastOut lastErr s = (case lastErr of None \<Rightarrow> AOk lastOut | Some e \<Rightarrow> AErr lastOut e, s)"
| "retry_loop cfg env (Suc n) attempt lastOut lastErr s =
     (case (case (attempt > 0, lastErr) of
              (True, Some e) \<Rightarrow>
                (case re_rand env s of (rnd, s1) \<Rightarrow>
                   let delay = computeDelay (rc_baseDelay cfg) (rc_maxDelay cfg) (rc_multiplier cfg) (rc_jitterFrac cfg) (attempt - 1) rnd;
                       s2 = re_onRetry env (int attempt) e delay s1
                   in if re_ctxErr env s2 then (True, s2)
                      else let s3 = re_sleep env delay s2 in (re_ctxErr env s3, s3))
            | _ \<Rightarrow> (False, s)) of
        (True, s1) \<Rightarrow> (case lastErr of None \<Rightarrow> AOk lastOut | Some e \<Rightarrow> AErr lastOut e, s1)
      | (False, s1) \<Rightarrow>
          (case re_next env s1 of
             (AOk out, s2) \<Rightarrow> (AOk out, s2)
           | (APanic m, s2) \<Rightarrow> (APanic m, s2)
           | (AErr out err, s2) \<Rightarrow>
               if (case re_isRetryable env of Some f \<Rightarrow> \<not> safeIsRetryable f err | None \<Rightarrow> False) then (AErr out err, s2)
               else retry_loop cfg env n (Suc attempt) out (Some err) s2))"

definition Retry_call :: "retryConfig \<Rightarrow> 's retry_env \<Rightarrow> 's \<Rightarrow> attempt_res \<times> 's" where
  "Retry_call cfg env s = retry_loop cfg env (nat (rc_maxAttempts cfg)) 0 [] None s"

text \<open>The loop as an instance of the abstract one.\<close>

definition mw_again :: "'s retry_env \<Rightarrow> attempt_res \<Rightarrow> bool" where
  "mw_again env r = (case r of AErr _ err \<Rightarrow> (case re_isRetryable env of None \<Rightarrow> True | Some f \<Rightarrow> safeIsRetryable f err) | _ \<Rightarrow> False)"

definition mw_pause :: "retryConfig \<Rightarrow> 's retry_env \<Rightarrow> nat \<Rightarrow> attempt_res \<Rightarrow> 's \<Rightarrow> bool \<times> 's" where
  "mw_pause cfg env i r s = (case re_rand env s of (rnd, s1) \<Rightarrow>
     let delay = computeDelay (rc_baseDelay cfg) (rc_maxDelay cfg) (rc_multiplier cfg) (rc_jitterFrac cfg) (i - 1) rnd;
         s2 = re_onRetry env (int i) (case r of AErr _ e \<Rightarrow> e | _ \<Rightarrow> ErrNew []) delay s1
     in if re_ctxErr env s2 then (False, s2) else let s3 = re_sleep env delay s2 in (\<not> re_ctxErr env s3, s3))"

definition after_next :: "retryConfig \<Rightarrow> 's retry_env \<Rightarrow> nat \<Rightarrow> nat \<Rightarrow> attempt_res \<times> 's \<Rightarrow> attempt_res \<times> 's" where
  "after_next cfg env n i x = (case x of
      (AErr out err, s2) \<Rightarrow> if mw_again env (AErr out err) then retry_loop cfg env n (Suc i) out (Some err) s2 else (AErr out err, s2)
    | (r, s2) \<Rightarrow> (r, s2))"

lemma retry_loop_pause:
  "retry_loop cfg env (Suc n) (Suc i) out (Some err) s =
     (case mw_pause cfg env (Suc i) (AErr out err) s of
        (False, s1) \<Rightarrow> (AErr out err, s1)
      | (True, s1) \<Rightarrow> after_next cfg env n (Suc i) (re_next env s1))"
proof -
  obtain rnd s1 where rnd: "re_rand env s = (rnd, s1)" by fastforce
  define delay where "delay = computeDelay (rc_baseDelay cfg) (rc_maxDelay cfg) (rc_multiplier cfg) (rc_jitterFrac cfg) i rnd"
  define s2 where "s2 = re_onRetry env (1 + int i) err delay s1"
  define s3 where "s3 = re_sleep env delay s2"
  have next_part: "(case re_next env s3 of (AOk out, s2) \<Rightarrow> (AOk out, s2) | (APanic m, s2) \<Rightarrow> (APanic m, s2)
       | (AErr out err, s2) \<Rightarrow> if (case re_isRetryable env of Some f \<Rightarrow> \<not> safeIsRetryable f err | None \<Rightarrow> False) then (AErr out err, s2)
            else retry_loop cfg env n (Suc (Suc i)) out (Some err) s2) = after_next cfg env n (Suc i) (re_next env s3)"
    by (auto simp: after_next_def mw_again_def split: prod.splits attempt_res.splits option.splits)
  show ?thesis
    by (cases "re_ctxErr env s2"; cases "re_ctxErr env s3")
      (simp_all add: rnd mw_pause_def Let_def next_part flip: delay_def s2_def s3_def)
qed

lemma retry_loop_attempts:
  "attempts (re_next env) (mw_again env) (mw_pause cfg env) (Suc n) i s = (rs, e, s') \<Longrightarrow>
   after_next cfg env n i (re_next env s) = (last rs, s')"
proof (induction n arbitrary: i s rs e s')
  case 0
  then show ?case by (auto simp: after_next_def mw_again_def split: prod.splits if_splits attempt_res.splits)
next
  case (Suc n)
  obtain r s1 where r: "re_next env s = (r, s1)" by fastforce
  show ?case
  proof (cases "mw_again env r")
    case False
    with Suc.prems r show ?thesis by (auto simp: after_next_def split: attempt_res.splits)
  next
    case True
    then obtain out err where o: "r = AErr out err" by (auto simp: mw_again_def split: attempt_res.splits)
    obtain go s2 where p: "mw_pause cfg env (Suc i) r s1 = (go, s2)" by fastforce
    have code: "after_next cfg env (Suc n) i (re_next env s) = retry_loop cfg env (Suc n) (Suc i) out (Some err) s1"
      using r o True by (simp add: after_next_def)
    show ?thesis
    proof (cases go)
      case False
      with Suc.prems r True p have "rs = [r]" "s' = s2" by auto
      with code p o False show ?thesis unfolding code retry_loop_pause by simp
    next
      case go: True
      obtain rs1 e1 s3 where t: "attempts (re_next env) (mw_again env) (mw_pause cfg env) (Suc n) (Suc i) s2 = (rs1, e1, s3)"
        by (metis prod.collapse)
      with Suc.prems r True p go have "rs = r # rs1" "s' = s3"
        by (simp_all del: attempts.simps(2) add: attempts.simps(2) [of _ _ _ "Suc n" i])
      moreover have "rs1 \<noteq> []" using attempts_shape [OF t] by blast
      ultimately show ?thesis using Suc.IH [OF t] p o go unfolding code retry_loop_pause by simp
    qed
  qed
qed

lemma Retry_attempts:
  assumes "rc_maxAttempts cfg \<ge> 1"
    and "attempts (re_next env) (mw_again env) (mw_pause cfg env) (nat (rc_maxAttempts cfg)) 0 s = (rs, e, s')"
  shows "Retry_call cfg env s = (last rs, s')"
proof -
  obtain n where n: "nat (rc_maxAttempts cfg) = Suc n" using assms(1) by (cases "nat (rc_maxAttempts cfg)") auto
  have "Retry_call cfg env s = after_next cfg env n 0 (re_next env s)"
    unfolding Retry_call_def n by (auto simp: after_next_def mw_again_def split: prod.splits attempt_res.splits option.splits)
  also have "\<dots> = (last rs, s')" using retry_loop_attempts assms(2) n by metis
  finally show ?thesis .
qed

lemma Retry_config_ok: "rc_maxAttempts (Retry_config opts) \<ge> 1"
  by (simp add: Retry_config_def Let_def)

text \<open>The retry middleware calls the handler at least once and at most the configured number of times,
  again only after errors that may be retried, and returns exactly what the last call returned: a
  success, an error that is not to be retried, or the last error when the attempts are used up or the
  context is done.\<close>

theorem retry_returns_last_attempt:
  "\<exists>rs e s'. attempts (re_next env) (mw_again env) (mw_pause (Retry_config opts) env) (nat (rc_maxAttempts (Retry_config opts))) 0 s = (rs, e, s')
     \<and> Retry_call (Retry_config opts) env s = (last rs, s') \<and> rs \<noteq> [] \<and> int (length rs) \<le> rc_maxAttempts (Retry_config opts)
     \<and> (\<forall>r \<in> set (butlast rs). mw_again env r) \<and> (e = Final \<longleftrightarrow> \<not> mw_again env (last rs))
     \<and> (e = Exhausted \<longrightarrow> int (length rs) = rc_maxAttempts (Retry_config opts))"
proof -
  obtain rs e s' where a: "attempts (re_next env) (mw_again env) (mw_pause (Retry_config opts) env) (nat (rc_maxAttempts (Retry_config opts))) 0 s = (rs, e, s')"
    by (metis prod.collapse)
  obtain n where n: "nat (rc_maxAttempts (Retry_config opts)) = Suc n"
    using Retry_config_ok [of opts] by (cases "nat (rc_maxAttempts (Retry_config opts))") auto
  have i: "int (Suc n) = rc_maxAttempts (Retry_config opts)" using n Retry_config_ok [of opts] by linarith
  show ?thesis
    using a Retry_attempts [OF Retry_config_ok a] attempts_shape [of "re_next env" "mw_again env" _ n 0 s rs e s'] n i
    by (metis of_nat_le_iff)
qed

definition flaky_env :: "nat retry_env" where
  "flaky_env = \<lparr> re_next = (\<lambda>k. (if k < 1 then AErr [] (ErrNew ''busy'') else AOk [], Suc k)), re_ctxErr = (\<lambda>_. False), re_sleep = (\<lambda>_ k. k),
     re_onRetry = (\<lambda>_ _ _ k. k), re_rand = (\<lambda>k. (0, k)), re_isRetryable = None \<rparr>"

theorem retry_returns_last_attempt_witness:
  "\<exists>rs s'. Retry_call (Retry_config []) flaky_env 0 = (last rs, s') \<and> int (length rs) \<le> rc_maxAttempts (Retry_config [])
     \<and> (\<forall>r \<in> set (butlast rs). \<exists>out err. r = AErr out err)"
proof -
  obtain rs e s' where *: "Retry_call (Retry_config []) flaky_env 0 = (last rs, s')" "int (length rs) \<le> rc_maxAttempts (Retry_config [])"
      "\<forall>r \<in> set (butlast rs). mw_again flaky_env r"
    using retry_returns_last_attempt [of flaky_env "[]" 0] by blast
  have "\<exists>out err. r = AErr out err" if "r \<in> set (butlast rs)" for r
    using bspec [OF *(3) that] by (cases r) (simp_all add: mw_again_def)
  then show ?thesis using *(1,2) by blast
qed

text \<open>The delays of the middleware stay within their limits. With a positive base delay not above the
  maximum and any random number of the unit interval, every delay is at least the base delay and at
  most the maximum.\<close>

theorem retry_delay_bounds:
  assumes "0 < base" and "base \<le> mx" and "1 \<le> multiplier" and "0 \<le> jitterFrac" and "0 \<le> rnd"
  shows "base \<le> computeDelay base mx multiplier jitterFrac iteration rnd
    \<and> computeDelay base mx multiplier jitterFrac iteration rnd \<le> mx"
proof -
  define d0 where "d0 = of_int base * multiplier ^ iteration"
  have pow: "1 \<le> multiplier ^ iteration" using assms(3) by (rule one_le_power)
  have "of_int base * 1 \<le> d0" unfolding d0_def using pow assms(1) by (intro mult_left_mono) simp_all
  then have d0: "of_int base \<le> d0" by simp
  define d1 where "d1 = (if d0 > of_int mx then of_int mx else d0)"
  have d1: "of_int base \<le> d1" "d1 \<le> of_int mx" "0 \<le> d1" using d0 assms(1,2) by (auto simp: d1_def)
  define d3 where "d3 = (if jitterFrac > 0 then d1 + d1 * jitterFrac * rnd else d1)"
  have "0 \<le> d1 * jitterFrac * rnd" using d1(3) assms(4,5) by simp
  then have d3: "of_int base \<le> d3" using d1 by (auto simp: d3_def)
  define d4 where "d4 = (if d3 > of_int mx then of_int mx else d3)"
  have d4: "of_int base \<le> d4" "d4 \<le> of_int mx" using d3 assms(2) by (auto simp: d4_def)
  have "0 \<le> d4" using d4(1) assms(1) by (meson less_le_trans of_int_0_less_iff order.strict_implies_order)
  moreover have keep: "(if d1 < 0 then of_int mx else d1) = d1" using d1(3) by simp
  ultimately have c: "computeDelay base mx multiplier jitterFrac iteration rnd = (if \<lfloor>d4\<rfloor> < 0 then mx else \<lfloor>d4\<rfloor>)"
    unfolding computeDelay_def Let_def d0_def [symmetric] d1_def [symmetric] keep d3_def [symmetric] d4_def [symmetric] by simp
  have "base \<le> \<lfloor>d4\<rfloor>" using d4(1) by (simp add: le_floor_iff)
  moreover have "\<lfloor>d4\<rfloor> \<le> mx" using d4(2) by (simp add: floor_le_iff)
  ultimately show ?thesis using c assms(1) by auto
qed

theorem retry_delay_bounds_witness: "computeDelay (100 * 10 ^ 6) (10 * 10 ^ 9) 2 (1 / 10) 20 (1 / 2) \<le> 10 * 10 ^ 9"
  using retry_delay_bounds [of "100 * 10 ^ 6" "10 * 10 ^ 9" 2 "1 / 10" "1 / 2" 20] by simp

end
