(* ===== verification/Client_Retry.thy ===== *)
theory Client_Retry
  imports Retry Validation
begin

text \<open>
  \<open>client/retry.go\<close>: the retrier of the client, its delays, and the idempotency key that every attempt of
  a request carries.
\<close>

section \<open>Model\<close>

definition errMaxRetriesExceeded :: goerr where "errMaxRetriesExceeded = Sentinel ''client: max retries exceeded''"

definition DefaultRetryableErrors :: "int list" where
  "DefaultRetryableErrors = [408, 429, 500, 502, 503, 504]"

record retrier =
  rt_maxRetries :: int
  rt_retryableCodes :: "int list"
  rt_baseDelay :: int
  rt_maxDelay :: int

definition newRetrier :: "int \<Rightarrow> int list \<Rightarrow> retrier" where
  "newRetrier maxRetries codes = \<lparr> rt_maxRetries = maxRetries, rt_retryableCodes = codes,
     rt_baseDelay = 100 * 10 ^ 6, rt_maxDelay = 30 * 10 ^ 9 \<rparr>"

definition isRetryable :: "retrier \<Rightarrow> client_err \<Rightarrow> bool" where
  "isRetryable r err = (case err of ResponseError code _ _ \<Rightarrow> code \<in> set (rt_retryableCodes r) | OtherErr e \<Rightarrow> errors_is e errClientClosed)"

text \<open>The conversion of a floating-point number to a 64-bit integer truncates in range. Out of range the
  language leaves the result to the implementation: \<open>oor\<close>. \<open>Int63n\<close> panics unless its argument is
  positive; \<open>rnd\<close> is what it draws from.\<close>

definition float_to_int64 :: "int \<Rightarrow> rat \<Rightarrow> int" where
  "float_to_int64 oor x = (let t = (if x \<ge> 0 then \<lfloor>x\<rfloor> else \<lceil>x\<rceil>) in if min_int \<le> t \<and> t \<le> max_int then t else oor)"

definition sleepDuration :: "int \<Rightarrow> nat \<Rightarrow> retrier \<Rightarrow> nat \<Rightarrow> int hres" where
  "sleepDuration oor rnd r attempt =
     (let cap0 = float_to_int64 oor (of_int (rt_baseDelay r) * 2 ^ attempt);
          cap = (if cap0 > rt_maxDelay r then rt_maxDelay r else cap0)
      in if cap + 1 \<le> 0 then Panic ''invalid argument to Int63n'' else Ret (int rnd mod (cap + 1)))"

text \<open>The outcome of a call and its environment: one attempt, the random draw, and the wait, which ends with
  an error when the context is done first.\<close>

datatype client_outcome = CNil | CErr client_err | CPanic string

record 's call_env =
  ce_call :: "'s \<Rightarrow> client_err option \<times> 's"
  ce_rand :: "'s \<Rightarrow> nat"
  ce_wait :: "int \<Rightarrow> 's \<Rightarrow> client_err option \<times> 's"

definition max_retries_error :: "retrier \<Rightarrow> client_err option \<Rightarrow> client_err" where
  "max_retries_error r lastErr = OtherErr (Wrapped (Error errMaxRetriesExceeded @ '' after '' @ Itoa (rt_maxRetries r + 1) @ '' attempt(s): ''
     @ (case lastErr of None \<Rightarrow> [] | Some e \<Rightarrow> client_err_text e)) errMaxRetriesExceeded)"

fun call_loop :: "int \<Rightarrow> retrier \<Rightarrow> 's call_env \<Rightarrow> nat \<Rightarrow> nat \<Rightarrow> client_err option \<Rightarrow> 's \<Rightarrow> client_outcome \<times> 's" where
  "call_loop oor r env 0 attempt lastErr s = (CErr (max_retries_error r lastErr), s)"
| "call_loop oor r env (Suc n) attempt lastErr s =
     (case (if attempt = 0 then (None, s)
            else case sleepDuration oor (ce_rand env s) r (attempt - 1) of
                   Ret d \<Rightarrow> (case ce_wait env d s of (None, s1) \<Rightarrow> (None, s1) | (Some e, s1) \<Rightarrow> (Some (CErr e), s1))
                 | Panic m \<Rightarrow> (Some (CPanic m), s)
                 | Err e \<Rightarrow> (Some (CErr (OtherErr e)), s)) of
        (Some out, s1) \<Rightarrow> (out, s1)
      | (None, s1) \<Rightarrow>
          (case ce_call env s1 of
             (None, s2) \<Rightarrow> (CNil, s2)
           | (Some e, s2) \<Rightarrow> if \<not> isRetryable r e then (CErr e, s2) else call_loop oor r env n (Suc attempt) (Some e) s2))"

definition inject_meta :: "string \<Rightarrow> gobj \<Rightarrow> gobj" where
  "inject_meta key m = mput ''_meta'' (GObj (mput ''idempotencyKey'' (GStr key) (case map_member ''_meta'' m of Some meta \<Rightarrow> meta | None \<Rightarrow> []))) m"

text \<open>The parameters are what encoding them and decoding the text yields; encoding may fail.\<close>

definition injectIdempotencyKey :: "(string + gval) \<Rightarrow> string \<Rightarrow> string + gval" where
  "injectIdempotencyKey params key =
     (case params of
        Inl e \<Rightarrow> Inl (''retry: marshal params: '' @ e)
      | Inr GNull \<Rightarrow> Inr (GObj (inject_meta key []))
      | Inr (GObj m) \<Rightarrow> Inr (GObj (inject_meta key m))
      | Inr v \<Rightarrow> Inr v)"

definition callWithRetry ::
  "int \<Rightarrow> retrier \<Rightarrow> bool \<Rightarrow> goerr + string \<Rightarrow> (string + gval) \<Rightarrow> (string + gval \<Rightarrow> 's call_env) \<Rightarrow> 's \<Rightarrow> client_outcome \<times> 's" where
  "callWithRetry oor r enableIdempotency newKey params env s =
     (let run = (\<lambda>p. call_loop oor r (env p) (nat (rt_maxRetries r + 1)) 0 None s)
      in if \<not> enableIdempotency then run params
         else case newKey of
                Inl e \<Rightarrow> (CErr (OtherErr (Wrapped (''client: generate idempotency key: '' @ Error e) e)), s)
              | Inr key \<Rightarrow>
                  (case injectIdempotencyKey params key of
                     Inl e \<Rightarrow> (CErr (OtherErr (Wrapped (''client: inject idempotency key: '' @ e) (ErrNew e))), s)
                   | Inr v \<Rightarrow> run (Inr v)))"

section \<open>Idempotency keys\<close>

text \<open>The idempotency key is added and nothing is lost. In parameters that are an object, \<open>_meta\<close> has the
  key afterwards, every other member of \<open>_meta\<close> and of the parameters is as before, and parameters
  that are no object are sent unchanged.\<close>

theorem idempotency_key_injected:
  "injectIdempotencyKey (Inr (GObj m)) key = Inr (GObj (inject_meta key m))
   \<and> (\<exists>meta. map_member ''_meta'' (inject_meta key m) = Some meta \<and> mget meta ''idempotencyKey'' = Some (GStr key)
       \<and> (\<forall>k old. k \<noteq> ''idempotencyKey'' \<longrightarrow> map_member ''_meta'' m = Some old \<longrightarrow> mget meta k = mget old k))
   \<and> (\<forall>k. k \<noteq> ''_meta'' \<longrightarrow> mget (inject_meta key m) k = mget m k)
   \<and> (\<forall>xs. injectIdempotencyKey (Inr (GArr xs)) key = Inr (GArr xs))"
  by (auto simp: injectIdempotencyKey_def inject_meta_def map_member_def mget_mput split: option.splits gval.splits)

theorem idempotency_key_injected_witness: "mget (inject_meta ''k'' [(''name'', GStr ''x'')]) ''name'' = Some (GStr ''x'')"
  using idempotency_key_injected [of "[(''name'', GStr ''x'')]" "''k''"] by (simp add: mget_def)

section \<open>The loop\<close>

definition client_again :: "retrier \<Rightarrow> client_err option \<Rightarrow> bool" where
  "client_again r x = (case x of None \<Rightarrow> False | Some e \<Rightarrow> isRetryable r e)"

text \<open>The outcome from the results of the attempts; an interrupted loop has its own.\<close>

definition client_pause :: "int \<Rightarrow> retrier \<Rightarrow> 's call_env \<Rightarrow> nat \<Rightarrow> client_err option \<Rightarrow> 's \<times> client_outcome option
   \<Rightarrow> bool \<times> 's \<times> client_outcome option" where
  "client_pause oor r env i x so =
     (case sleepDuration oor (ce_rand env (fst so)) r (i - 1) of
        Ret d \<Rightarrow> (case ce_wait env d (fst so) of (None, s1) \<Rightarrow> (True, s1, snd so) | (Some e, s1) \<Rightarrow> (False, s1, Some (CErr e)))
      | Panic m \<Rightarrow> (False, fst so, Some (CPanic m))
      | Err e \<Rightarrow> (False, fst so, Some (CErr (OtherErr e))))"

definition client_run :: "'s call_env \<Rightarrow> 's \<times> client_outcome option \<Rightarrow> client_err option \<times> 's \<times> client_outcome option" where
  "client_run env so = (case ce_call env (fst so) of (x, s1) \<Rightarrow> (x, s1, snd so))"

definition client_result :: "retrier \<Rightarrow> client_err option list \<Rightarrow> ending \<Rightarrow> client_outcome option \<Rightarrow> client_outcome" where
  "client_result r rs e stopped =
     (case e of Final \<Rightarrow> (case last rs of None \<Rightarrow> CNil | Some x \<Rightarrow> CErr x)
      | Exhausted \<Rightarrow> CErr (max_retries_error r (last rs))
      | Interrupted \<Rightarrow> (case stopped of Some out \<Rightarrow> out | None \<Rightarrow> CNil))"

definition after_call :: "int \<Rightarrow> retrier \<Rightarrow> 's call_env \<Rightarrow> nat \<Rightarrow> nat \<Rightarrow> client_err option \<times> 's \<Rightarrow> client_outcome \<times> 's" where
  "after_call oor r env n i x = (case x of (None, s) \<Rightarrow> (CNil, s)
     | (Some e, s) \<Rightarrow> if client_again r (Some e) then call_loop oor r env n (Suc i) (Some e) s else (CErr e, s))"

lemma call_loop_pause:
  "call_loop oor r env (Suc n) (Suc i) lastErr s =
     (case client_pause oor r env (Suc i) x (s, None) of
        (True, s1, _) \<Rightarrow> after_call oor r env n (Suc i) (ce_call env s1)
      | (False, s1, stopped) \<Rightarrow> (case stopped of Some out \<Rightarrow> out | None \<Rightarrow> CNil, s1))"
  by (auto simp: client_pause_def after_call_def client_again_def split: hres.splits prod.splits option.splits)

lemma call_loop_attempts:
  "attempts (client_run env) (client_again r) (client_pause oor r env) (Suc n) i (s, None) = (rs, e, s', stopped) \<Longrightarrow>
   after_call oor r env n i (ce_call env s) = (client_result r rs e stopped, s')"
proof (induction n arbitrary: i s rs e s' stopped)
  case 0
  obtain x s1 where x: "ce_call env s = (x, s1)" by fastforce
  with "0" show ?case
    by (cases x) (auto simp: after_call_def client_run_def client_again_def client_result_def split: if_splits)
next
  case (Suc n)
  obtain x s1 where x: "ce_call env s = (x, s1)" by fastforce
  then have run: "client_run env (s, None) = (x, s1, None)" by (simp add: client_run_def)
  show ?case
  proof (cases "client_again r x")
    case False
    with Suc.prems run x show ?thesis
      by (cases x) (auto simp: after_call_def client_result_def client_again_def)
  next
    case True
    then obtain y where y: "x = Some y" by (auto simp: client_again_def split: option.splits)
    obtain go s2 st where p: "client_pause oor r env (Suc i) x (s1, None) = (go, s2, st)" by (metis prod.collapse)
    have code: "after_call oor r env (Suc n) i (ce_call env s) = call_loop oor r env (Suc n) (Suc i) (Some y) s1"
      using x y True by (simp add: after_call_def)
    show ?thesis
    proof (cases go)
      case False
      with Suc.prems run True p have "rs = [x]" "e = Interrupted" "s' = s2" "stopped = st" by auto
      with p False show ?thesis unfolding code call_loop_pause [where x = x] by (simp add: client_result_def)
    next
      case go: True
      then have "st = None" using p by (auto simp: client_pause_def split: hres.splits prod.splits option.splits)
      obtain rs1 e1 s3 st3 where t: "attempts (client_run env) (client_again r) (client_pause oor r env) (Suc n) (Suc i) (s2, None) = (rs1, e1, s3, st3)"
        by (metis prod.collapse)
      with Suc.prems run True p go \<open>st = None\<close> have "rs = x # rs1" "e = e1" "s' = s3" "stopped = st3"
        by (simp_all del: attempts.simps(2) add: attempts.simps(2) [of _ _ _ "Suc n" i])
      moreover have "rs1 \<noteq> []" using attempts_shape [OF t] by blast
      ultimately have "client_result r rs e stopped = client_result r rs1 e1 st3" "s' = s3"
        by (simp_all add: client_result_def split: ending.splits)
      then show ?thesis using Suc.IH [OF t] p go unfolding code call_loop_pause [where x = x] by simp
    qed
  qed
qed

text \<open>The client's retrier makes at least one attempt and at most one more than \<open>MaxRetries\<close>, repeats only
  errors that may be retried, and returns nil or the error of the last attempt when that ended the
  loop, \<open>ErrMaxRetriesExceeded\<close> when the attempts were used up, and what interrupted a pause
  otherwise.\<close>

theorem client_retry_outcome:
  assumes "rt_maxRetries r \<ge> 0"
  shows "\<exists>rs e s' stopped.
    attempts (client_run env) (client_again r) (client_pause oor r env) (nat (rt_maxRetries r + 1)) 0 (s, None) = (rs, e, s', stopped)
    \<and> call_loop oor r env (nat (rt_maxRetries r + 1)) 0 None s = (client_result r rs e stopped, s')
    \<and> rs \<noteq> [] \<and> int (length rs) \<le> rt_maxRetries r + 1 \<and> (\<forall>x \<in> set (butlast rs). client_again r x)
    \<and> (e = Final \<longleftrightarrow> \<not> client_again r (last rs)) \<and> (e = Exhausted \<longrightarrow> int (length rs) = rt_maxRetries r + 1)"
proof -
  obtain n where n: "nat (rt_maxRetries r + 1) = Suc n" "rt_maxRetries r + 1 = int (Suc n)" using assms
    by (metis Suc_nat_eq_nat_zadd1 add.commute int_nat_eq of_nat_Suc)
  obtain rs e s' stopped where a: "attempts (client_run env) (client_again r) (client_pause oor r env) (Suc n) 0 (s, None) = (rs, e, s', stopped)"
    by (metis prod.collapse)
  have "call_loop oor r env (Suc n) 0 None s = after_call oor r env n 0 (ce_call env s)"
    by (auto simp: after_call_def client_again_def split: prod.splits option.splits)
  also have "\<dots> = (client_result r rs e stopped, s')" by (rule call_loop_attempts [OF a])
  finally have "call_loop oor r env (Suc n) 0 None s = (client_result r rs e stopped, s')" .
  moreover have "int (length rs) \<le> rt_maxRetries r + 1" "e = Exhausted \<Longrightarrow> int (length rs) = rt_maxRetries r + 1"
    using attempts_shape [OF a] n(2) by auto
  ultimately show ?thesis using a attempts_shape [OF a] unfolding n(1) by blast
qed

definition demo_call_env :: "nat call_env" where
  "demo_call_env = \<lparr> ce_call = (\<lambda>s. (if s = 0 then Some (ResponseError 503 ''busy'' None) else None, s + 1)), ce_rand = (\<lambda>_. 0),
     ce_wait = (\<lambda>_ s. (None, s)) \<rparr>"

theorem client_retry_outcome_witness:
  "\<exists>rs e stopped s'. call_loop 0 (newRetrier 2 DefaultRetryableErrors) demo_call_env 3 0 None 0
       = (client_result (newRetrier 2 DefaultRetryableErrors) rs e stopped, s') \<and> rs \<noteq> [] \<and> length rs \<le> 3"
proof -
  have m: "rt_maxRetries (newRetrier 2 DefaultRetryableErrors) = 2" by (simp add: newRetrier_def)
  show ?thesis using client_retry_outcome [of "newRetrier 2 DefaultRetryableErrors" demo_call_env 0 0] unfolding m by fastforce
qed

section \<open>Delays\<close>

lemma sleep_bounds:
  assumes "attempt < 37"
  shows "\<exists>d. sleepDuration oor rnd (newRetrier m codes) attempt = Ret d \<and> 0 \<le> d \<and> d \<le> 30 * 10 ^ 9"
proof -
  have "(2 :: int) ^ attempt \<le> 2 ^ 36" using assms by (intro power_increasing) auto
  then have c: "100000000 * 2 ^ attempt \<le> max_int" "0 \<le> 100000000 * (2 :: int) ^ attempt" by (simp_all add: max_int_def)
  define k :: int where "k = 100000000 * 2 ^ attempt"
  have "(100000000 :: rat) * 2 ^ attempt = of_int k" by (simp add: k_def)
  moreover have "min_int \<le> k" "k \<le> max_int" using c unfolding k_def [symmetric] by (simp_all add: min_int_def)
  ultimately have "float_to_int64 oor (100000000 * 2 ^ attempt) = k" by (simp add: float_to_int64_def)
  then have s: "sleepDuration oor rnd (newRetrier m codes) attempt = Ret (int rnd mod ((if k > 30000000000 then 30000000000 else k) + 1))"
    using c(2) unfolding k_def [symmetric] by (simp add: sleepDuration_def newRetrier_def Let_def)
  have "0 \<le> int rnd mod (c + 1) \<and> int rnd mod (c + 1) \<le> 30000000000" if "0 \<le> c" "c \<le> 30000000000" for c
    using that pos_mod_bound [of "c + 1" "int rnd"] pos_mod_sign [of "c + 1" "int rnd"] by linarith
  then show ?thesis unfolding s using c(2) unfolding k_def [symmetric] by auto
qed

text \<open>From the 38th retry on the exponential cap no longer fits 64 bits. Where the conversion then yields a
  negative number, as it does on amd64 (the least integer), \<open>Int63n\<close> panics.\<close>

lemma client_backoff_panics:
  assumes "attempt \<ge> 37" and "oor < 0"
  shows "sleepDuration oor rnd (newRetrier m codes) attempt = Panic ''invalid argument to Int63n''"
proof -
  have "(2 :: int) ^ 37 \<le> 2 ^ attempt" using assms(1) by (intro power_increasing) auto
  then have c: "100000000 * 2 ^ attempt > max_int" "0 \<le> 100000000 * (2 :: int) ^ attempt" by (simp_all add: max_int_def)
  have "(100000000 :: rat) * 2 ^ attempt = of_int (100000000 * 2 ^ attempt)" by simp
  then have "float_to_int64 oor (100000000 * 2 ^ attempt) = oor"
    unfolding float_to_int64_def using c by (simp only: floor_of_int ceiling_of_int Let_def) simp
  then show ?thesis using assms(2) by (simp add: sleepDuration_def newRetrier_def Let_def)
qed

end
