(* ===== verification/Client_Session.thy ===== *)
theory Client_Session
  imports Client_Core Client_Retry Content_Codec
begin

text \<open>
  The session of a client: construction, the layers of a call, the typed methods, the handshake and
  reconnecting (\<open>client/client.go\<close>). The transport, the encoding of parameters and the decoding of results
  act on the state of a world of type \<open>'w\<close>; tracing and metrics are not modelled.
\<close>

section \<open>Options\<close>

text \<open>
  The options that the construction, the handshake and the layers of a call read. The callbacks and the limit
  on requests of the server are in \<open>Client_Inbound\<close>, the settings for reconnecting are \<open>reconnect_config\<close> below, the
  wait for the window of the coalescer is a step of \<open>Coalescing\<close>, and idempotency keys are in \<open>Client_Retry\<close>;
  credentials, logging and meters are left out.
\<close>

record client_options =
  co_Name :: string
  co_Version :: string
  co_ProtocolVersion :: string
  co_CapSampling :: bool
  co_CapElicitation :: bool
  co_SamplingHandler :: bool
  co_ElicitationHandler :: bool
  co_TracerProvider :: bool
  co_PropagateTraceContext :: "bool option"
  co_RequestCoalescing :: bool
  co_MaxRetries :: int
  co_RetryableErrors :: "int list"

definition latestProtocolVersion :: string where "latestProtocolVersion = ''2025-11-25''"

text \<open>The options after \<open>New\<close> and the retrier; a missing transport is an error.\<close>

definition New_options :: "bool \<Rightarrow> client_options \<Rightarrow> goerr + client_options \<times> retrier option" where
  "New_options hasTransport opts =
     (if \<not> hasTransport then Inl (ErrNew ''client: transport must not be nil'')
      else let o1 = opts \<lparr> co_Name := (if co_Name opts = [] then ''finemcp-client'' else co_Name opts),
                           co_Version := (if co_Version opts = [] then ''0.0.0'' else co_Version opts),
                           co_ProtocolVersion := (if co_ProtocolVersion opts = [] then latestProtocolVersion else co_ProtocolVersion opts),
                           co_CapSampling := co_CapSampling opts \<or> co_SamplingHandler opts,
                           co_CapElicitation := co_CapElicitation opts \<or> co_ElicitationHandler opts \<rparr>;
               codes = (if co_RetryableErrors opts = [] then DefaultRetryableErrors else co_RetryableErrors opts)
           in Inr (o1, if co_MaxRetries opts > 0 then Some (newRetrier (co_MaxRetries opts) codes) else None))"

definition shouldPropagateTrace :: "client_options \<Rightarrow> bool" where
  "shouldPropagateTrace opts =
     (if \<not> co_TracerProvider opts then False else case co_PropagateTraceContext opts of None \<Rightarrow> True | Some b \<Rightarrow> b)"

section \<open>Calls\<close>

definition canCoalesceMethod :: "string \<Rightarrow> bool" where
  "canCoalesceMethod method \<longleftrightarrow> method \<in> {''ping'', ''tools/list'', ''resources/list'', ''resources/read'', ''resources/templates/list'',
     ''prompts/list'', ''prompts/get'', ''roots/list'', ''tasks/get'', ''tasks/result'', ''tasks/list''}"

text \<open>The three ways a request can take: through the coalescer and through the retrier, where they are
  enabled, or directly.\<close>

type_synonym ('r, 'w) requester = "string \<Rightarrow> json option \<Rightarrow> 'w \<Rightarrow> (client_err + 'r) \<times> 'w"

record ('r, 'w) layers =
  ly_coalesced :: "('r, 'w) requester option"
  ly_retried :: "('r, 'w) requester option"
  ly_direct :: "('r, 'w) requester"

definition call :: "('r, 'w) layers \<Rightarrow> ('r, 'w) requester" where
  "call ly method params w =
     (case ly_coalesced ly of
        Some f \<Rightarrow> if canCoalesceMethod method then f method params w
                   else (case ly_retried ly of Some g \<Rightarrow> g method params w | None \<Rightarrow> ly_direct ly method params w)
      | None \<Rightarrow> (case ly_retried ly of Some g \<Rightarrow> g method params w | None \<Rightarrow> ly_direct ly method params w))"

text \<open>A typed method: the test for an initialized and open client, the call and its error.\<close>

definition typed :: "('r, 'w) layers \<Rightarrow> string \<Rightarrow> json option \<Rightarrow> Client \<Rightarrow> 'w \<Rightarrow> (client_err + 'r) \<times> 'w" where
  "typed ly method params c w = (case requireInit c of Some e \<Rightarrow> (Inl e, w) | None \<Rightarrow> call ly method params w)"

definition task_params :: "string \<Rightarrow> json" where
  "task_params taskID = JObj [(''taskId'', JStr (json_text taskID))]"

definition level_params :: "string \<Rightarrow> json" where
  "level_params level = JObj [(''level'', JStr (json_text level))]"

definition Client_Ping :: "(unit, 'w) layers \<Rightarrow> Client \<Rightarrow> 'w \<Rightarrow> (client_err + unit) \<times> 'w" where
  "Client_Ping ly = typed ly ''ping'' None"

definition Client_ListTools :: "('r, 'w) layers \<Rightarrow> json \<Rightarrow> Client \<Rightarrow> 'w \<Rightarrow> (client_err + 'r) \<times> 'w" where
  "Client_ListTools ly params = typed ly ''tools/list'' (Some params)"

definition Client_CallTool :: "(CallToolResult, 'w) layers \<Rightarrow> json \<Rightarrow> Client \<Rightarrow> 'w \<Rightarrow> (client_err + CallToolResult) \<times> 'w" where
  "Client_CallTool ly params = typed ly ''tools/call'' (Some params)"

definition Client_ListResources :: "('r, 'w) layers \<Rightarrow> json \<Rightarrow> Client \<Rightarrow> 'w \<Rightarrow> (client_err + 'r) \<times> 'w" where
  "Client_ListResources ly params = typed ly ''resources/list'' (Some params)"

definition Client_ReadResource :: "('r, 'w) layers \<Rightarrow> json \<Rightarrow> Client \<Rightarrow> 'w \<Rightarrow> (client_err + 'r) \<times> 'w" where
  "Client_ReadResource ly params = typed ly ''resources/read'' (Some params)"

definition Client_ListResourceTemplates :: "('r, 'w) layers \<Rightarrow> json \<Rightarrow> Client \<Rightarrow> 'w \<Rightarrow> (client_err + 'r) \<times> 'w" where
  "Client_ListResourceTemplates ly params = typed ly ''resources/templates/list'' (Some params)"

definition Client_SubscribeResource :: "(unit, 'w) layers \<Rightarrow> json \<Rightarrow> Client \<Rightarrow> 'w \<Rightarrow> (client_err + unit) \<times> 'w" where
  "Client_SubscribeResource ly params = typed ly ''resources/subscribe'' (Some params)"

definition Client_UnsubscribeResource :: "(unit, 'w) layers \<Rightarrow> json \<Rightarrow> Client \<Rightarrow> 'w \<Rightarrow> (client_err + unit) \<times> 'w" where
  "Client_UnsubscribeResource ly params = typed ly ''resources/unsubscribe'' (Some params)"

definition Client_ListPrompts :: "('r, 'w) layers \<Rightarrow> json \<Rightarrow> Client \<Rightarrow> 'w \<Rightarrow> (client_err + 'r) \<times> 'w" where
  "Client_ListPrompts ly params = typed ly ''prompts/list'' (Some params)"

definition Client_GetPrompt :: "('r, 'w) layers \<Rightarrow> json \<Rightarrow> Client \<Rightarrow> 'w \<Rightarrow> (client_err + 'r) \<times> 'w" where
  "Client_GetPrompt ly params = typed ly ''prompts/get'' (Some params)"

definition Client_ListRoots :: "('r, 'w) layers \<Rightarrow> json \<Rightarrow> Client \<Rightarrow> 'w \<Rightarrow> (client_err + 'r) \<times> 'w" where
  "Client_ListRoots ly params = typed ly ''roots/list'' (Some params)"

definition Client_Complete :: "('r, 'w) layers \<Rightarrow> json \<Rightarrow> Client \<Rightarrow> 'w \<Rightarrow> (client_err + 'r) \<times> 'w" where
  "Client_Complete ly params = typed ly ''completion/complete'' (Some params)"

definition Client_SetLogLevel :: "(unit, 'w) layers \<Rightarrow> string \<Rightarrow> Client \<Rightarrow> 'w \<Rightarrow> (client_err + unit) \<times> 'w" where
  "Client_SetLogLevel ly level = typed ly ''logging/setLevel'' (Some (level_params level))"

definition Client_GetTask :: "('r, 'w) layers \<Rightarrow> string \<Rightarrow> Client \<Rightarrow> 'w \<Rightarrow> (client_err + 'r) \<times> 'w" where
  "Client_GetTask ly taskID = typed ly ''tasks/get'' (Some (task_params taskID))"

definition Client_GetTaskResult :: "('r, 'w) layers \<Rightarrow> string \<Rightarrow> Client \<Rightarrow> 'w \<Rightarrow> (client_err + 'r) \<times> 'w" where
  "Client_GetTaskResult ly taskID = typed ly ''tasks/result'' (Some (task_params taskID))"

definition Client_CancelTask :: "('r, 'w) layers \<Rightarrow> string \<Rightarrow> Client \<Rightarrow> 'w \<Rightarrow> (client_err + 'r) \<times> 'w" where
  "Client_CancelTask ly taskID = typed ly ''tasks/cancel'' (Some (task_params taskID))"

definition Client_ListTasks :: "('r, 'w) layers \<Rightarrow> json \<Rightarrow> Client \<Rightarrow> 'w \<Rightarrow> (client_err + 'r) \<times> 'w" where
  "Client_ListTasks ly params = typed ly ''tasks/list'' (Some params)"

text \<open>The message of a request and of a notification; nil parameters are omitted.\<close>

definition request_message :: "string \<Rightarrow> string \<Rightarrow> json option \<Rightarrow> json" where
  "request_message i method params =
     JObj ([(''jsonrpc'', JStr ''2.0''), (''id'', JStr i), (''method'', JStr method)] @ (case params of None \<Rightarrow> [] | Some p \<Rightarrow> [(''params'', p)]))"

definition notify_message :: "string \<Rightarrow> json option \<Rightarrow> json" where
  "notify_message method params =
     JObj ([(''jsonrpc'', JStr ''2.0''), (''method'', JStr method)] @ (case params of None \<Rightarrow> [] | Some p \<Rightarrow> [(''params'', p)]))"

section \<open>The session\<close>

record session =
  ss_initialized :: bool
  ss_ServerInfo :: "json option"
  ss_Capabilities :: "json option"
  ss_ProtocolVersion :: string
  ss_Instructions :: string

definition no_session :: session where
  "no_session = \<lparr> ss_initialized = False, ss_ServerInfo = None, ss_Capabilities = None, ss_ProtocolVersion = [], ss_Instructions = [] \<rparr>"

text \<open>Decoding the result of the handshake; the information about the server and its capabilities stay trees.\<close>

definition decode_session :: "json option \<Rightarrow> session option" where
  "decode_session result =
     (case result of
        None \<Rightarrow> Some (no_session \<lparr> ss_initialized := True \<rparr>)
      | Some v \<Rightarrow>
          (case as_object v of None \<Rightarrow> None
           | Some obj \<Rightarrow>
               (case (field d_string [] ''protocolVersion'' obj, field d_any None ''capabilities'' obj, field d_any None ''serverInfo'' obj, field d_string [] ''instructions'' obj) of
                  (Some ver, Some caps, Some info, Some instr) \<Rightarrow>
                    Some \<lparr> ss_initialized = True, ss_ServerInfo = info, ss_Capabilities = caps, ss_ProtocolVersion = ver, ss_Instructions = instr \<rparr>
                | _ \<Rightarrow> None)))"

section \<open>Reconnecting\<close>

text \<open>The outside of a reconnection: waiting (which the read context may interrupt), closing and starting the transport,
  sending a message and receiving one.\<close>

record 'w wire =
  wi_wait :: "64 word \<Rightarrow> 'w \<Rightarrow> goerr option \<times> 'w"
  wi_start :: "'w \<Rightarrow> goerr option \<times> 'w"
  wi_send :: "json \<Rightarrow> 'w \<Rightarrow> goerr option \<times> 'w"
  wi_receive :: "'w \<Rightarrow> (goerr + json option) \<times> 'w"

record reconnect_config =
  rf_MaxRetries :: int
  rf_Strategy :: "(int \<Rightarrow> 64 word) option"

definition getBackoffDuration :: "reconnect_config option \<Rightarrow> int \<Rightarrow> 64 word" where
  "getBackoffDuration cfg attempt =
     (case cfg of
        Some c \<Rightarrow> (case rf_Strategy c of Some f \<Rightarrow> f attempt | None \<Rightarrow> NextBackoff (ExponentialBackoff (1 * second) (60 * second)) attempt)
      | None \<Rightarrow> NextBackoff (ExponentialBackoff (1 * second) (60 * second)) attempt)"

definition reconnectTransport :: "'w wire \<Rightarrow> 'w \<Rightarrow> goerr option \<times> 'w" where
  "reconnectTransport wi w = (case wi_start wi w of (None, w1) \<Rightarrow> (None, w1) | (Some e, w1) \<Rightarrow> (Some (Wrapped (''transport start failed: '' @ Error e) e), w1))"

definition decode_reply :: "json option \<Rightarrow> goerr + session" where
  "decode_reply data =
     (case (case data of None \<Rightarrow> None | Some v \<Rightarrow> UnmarshalResponse v) of
        None \<Rightarrow> Inl (ErrNew ''unmarshal initialize response'')
      | Some resp \<Rightarrow>
          (case resp_Error resp of
             Some e \<Rightarrow> Inl (ErrNew (''initialize error: code='' @ Itoa (err_Code e) @ '', message='' @ err_Message e))
           | None \<Rightarrow> (case decode_session (resp_Result resp) of None \<Rightarrow> Inl (ErrNew ''unmarshal result'') | Some s \<Rightarrow> Inr s)))"

definition reinitializeSession :: "'w wire \<Rightarrow> string \<Rightarrow> json \<Rightarrow> 'w \<Rightarrow> (goerr + session) \<times> 'w" where
  "reinitializeSession wi i params w =
     (case wi_send wi (request_message i ''initialize'' (Some params)) w of
        (Some e, w1) \<Rightarrow> (Inl (Wrapped (''send initialize request: '' @ Error e) e), w1)
      | (None, w1) \<Rightarrow>
          (case wi_receive wi w1 of
             (Inl e, w2) \<Rightarrow> (Inl (Wrapped (''receive initialize response: '' @ Error e) e), w2)
           | (Inr data, w2) \<Rightarrow>
               (case decode_reply data of
                  Inl e \<Rightarrow> (Inl e, w2)
                | Inr s \<Rightarrow> (Inr s, snd (wi_send wi (notify_message ''notifications/initialized'' None) w2)))))"

definition exhausted :: "reconnect_config option \<Rightarrow> int \<Rightarrow> bool" where
  "exhausted cfg attempt \<longleftrightarrow> (case cfg of None \<Rightarrow> False | Some c \<Rightarrow> rf_MaxRetries c > 0 \<and> attempt \<ge> rf_MaxRetries c)"

text \<open>One round of the loop: the end of the loop with an error or a session, or another attempt.\<close>

datatype round_end = Ends "goerr + session" | Again

definition reconnect_round :: "'w wire \<Rightarrow> reconnect_config option \<Rightarrow> (int \<Rightarrow> string) \<Rightarrow> json \<Rightarrow> int \<Rightarrow> 'w \<Rightarrow> round_end \<times> 'w" where
  "reconnect_round wi cfg ids params attempt w =
     (let backoff = getBackoffDuration cfg attempt
      in case (if 0 <s backoff then wi_wait wi backoff w else (None, w)) of
           (Some e, w1) \<Rightarrow> (Ends (Inl e), w1)
         | (None, w1) \<Rightarrow>
             (case reconnectTransport wi w1 of
                (Some e, w2) \<Rightarrow> (Again, w2)
              | (None, w2) \<Rightarrow>
                  (case reinitializeSession wi (ids attempt) params w2 of
                     (Inl e, w3) \<Rightarrow> (Again, w3)
                   | (Inr s, w3) \<Rightarrow> (Ends (Inr s), w3))))"

text \<open>Without a limit the loop may run for ever; then it is \<open>None\<close>.\<close>

partial_function (option) attemptReconnection ::
  "'w wire \<Rightarrow> reconnect_config option \<Rightarrow> (int \<Rightarrow> string) \<Rightarrow> json \<Rightarrow> int \<Rightarrow> 'w \<Rightarrow> ((goerr + session) \<times> 'w) option" where
  "attemptReconnection wi cfg ids params attempt w =
     (if exhausted cfg attempt
      then Some (Inl (ErrNew (''max reconnection attempts ('' @ Itoa (case cfg of None \<Rightarrow> 0 | Some c \<Rightarrow> rf_MaxRetries c) @ '') exhausted'')), w)
      else case reconnect_round wi cfg ids params attempt w of
             (Ends r, w1) \<Rightarrow> Some (r, w1)
           | (Again, w1) \<Rightarrow> attemptReconnection wi cfg ids params (attempt + 1) w1)"

section \<open>Properties\<close>

primrec again_world :: "'w wire \<Rightarrow> reconnect_config option \<Rightarrow> (int \<Rightarrow> string) \<Rightarrow> json \<Rightarrow> int \<Rightarrow> nat \<Rightarrow> 'w \<Rightarrow> 'w option" where
  "again_world wi cfg ids params attempt 0 w = Some w"
| "again_world wi cfg ids params attempt (Suc k) w =
     (case reconnect_round wi cfg ids params attempt w of
        (Again, w1) \<Rightarrow> again_world wi cfg ids params (attempt + 1) k w1
      | _ \<Rightarrow> None)"

lemma reconnection_rounds:
  assumes "cfg = Some c" "rf_MaxRetries c > 0" "attempt + int n = rf_MaxRetries c" "attempt \<ge> 0"
  shows "\<exists>k w1. k \<le> n \<and> again_world wi cfg ids params attempt k w = Some w1
    \<and> (k = n \<and> attemptReconnection wi cfg ids params attempt w
          = Some (Inl (ErrNew (''max reconnection attempts ('' @ Itoa (rf_MaxRetries c) @ '') exhausted'')), w1)
      \<or> k < n \<and> (\<exists>r w2. reconnect_round wi cfg ids params (attempt + int k) w1 = (Ends r, w2)
          \<and> attemptReconnection wi cfg ids params attempt w = Some (r, w2)))"
  using assms(3,4)
proof (induction n arbitrary: attempt w)
  case 0
  then have "exhausted cfg attempt" using assms by (simp add: exhausted_def)
  then show ?case using assms(1) by (subst attemptReconnection.simps) auto
next
  case (Suc n)
  have ne: "\<not> exhausted cfg attempt" using Suc.prems assms by (simp add: exhausted_def)
  show ?case
  proof (cases "reconnect_round wi cfg ids params attempt w")
    case (Pair e w1)
    show ?thesis
    proof (cases e)
      case (Ends r)
      then show ?thesis using Pair ne by (intro exI [of _ 0] exI [of _ w]) (simp add: attemptReconnection.simps [of wi cfg ids params attempt w])
    next
      case Again
      have step: "attemptReconnection wi cfg ids params attempt w = attemptReconnection wi cfg ids params (attempt + 1) w1"
        using Pair ne Again by (simp add: attemptReconnection.simps [of wi cfg ids params attempt w])
      obtain k w2 where "k \<le> n" "again_world wi cfg ids params (attempt + 1) k w1 = Some w2"
        "k = n \<and> attemptReconnection wi cfg ids params (attempt + 1) w1
          = Some (Inl (ErrNew (''max reconnection attempts ('' @ Itoa (rf_MaxRetries c) @ '') exhausted'')), w2)
         \<or> k < n \<and> (\<exists>r w3. reconnect_round wi cfg ids params (attempt + 1 + int k) w2 = (Ends r, w3)
          \<and> attemptReconnection wi cfg ids params (attempt + 1) w1 = Some (r, w3))"
        using Suc.IH [of "attempt + 1" w1] Suc.prems by auto
      then show ?thesis using Pair Again step
        by (intro exI [of _ "Suc k"] exI [of _ w2]) (auto simp: algebra_simps)
    qed
  qed
qed

text \<open>C32: Reconnecting ends. With a limit on the attempts, the loop returns after at most that many rounds: with
  the error of the round that was interrupted or the session of the round that succeeded, or, when
  all rounds have failed, with the error that the attempts are exhausted.\<close>

theorem reconnection_ends:
  assumes "cfg = Some c" and "rf_MaxRetries c > 0"
  shows "\<exists>k w1. int k \<le> rf_MaxRetries c \<and> again_world wi cfg ids params 0 k w = Some w1
    \<and> (int k = rf_MaxRetries c \<and> attemptReconnection wi cfg ids params 0 w
          = Some (Inl (ErrNew (''max reconnection attempts ('' @ Itoa (rf_MaxRetries c) @ '') exhausted'')), w1)
      \<or> int k < rf_MaxRetries c \<and> (\<exists>r w2. reconnect_round wi cfg ids params (int k) w1 = (Ends r, w2)
          \<and> attemptReconnection wi cfg ids params 0 w = Some (r, w2)))"
proof -
  obtain n where n: "rf_MaxRetries c = int n" using assms(2) by (metis nonneg_int_cases order.strict_implies_order)
  then show ?thesis using reconnection_rounds [OF assms, of 0 n wi ids params w] by auto
qed

definition dead_wire :: "nat wire" where
  "dead_wire = \<lparr> wi_wait = (\<lambda>_ k. (None, k)), wi_start = (\<lambda>k. (Some (ErrNew ''down''), Suc k)), wi_send = (\<lambda>_ k. (None, k)),
     wi_receive = (\<lambda>k. (Inl (ErrNew ''down''), k)) \<rparr>"

theorem reconnection_ends_witness:
  "\<exists>r. attemptReconnection dead_wire (Some \<lparr> rf_MaxRetries = 3, rf_Strategy = None \<rparr>) (\<lambda>_. ''c-1'') JNull 0 0 = Some r"
  using reconnection_ends [of "Some \<lparr> rf_MaxRetries = 3, rf_Strategy = None \<rparr>" _ dead_wire "\<lambda>_. ''c-1''" JNull 0] by auto

text \<open>While reconnecting, any message passes for the answer to the handshake. The client takes the first
  message it receives and looks neither at its identifier nor for a result: a notification that
  arrives first, whatever its method and parameters, yields a session that counts as initialized
  and has no protocol version, no server and no capabilities.\<close>

theorem any_message_initializes:
  "decode_reply (Some (notify_message method params)) = Inr (no_session \<lparr> ss_initialized := True \<rparr>)"
proof -
  have "UnmarshalResponse (notify_message method params)
      = Some \<lparr> resp_JSONRPC = ''2.0'', resp_ID = None, resp_Result = None, resp_Error = None \<rparr>"
    by (cases params)
       (simp_all add: UnmarshalResponse_def notify_message_def as_object_def field_def members_def foldName_response foldName_method foldName_params
         del: foldName.simps)
  then show ?thesis by (simp add: decode_reply_def decode_session_def)
qed

text \<open>Methods that change something are never coalesced.\<close>

lemma changes_not_coalesced:
  "\<forall>method \<in> {''tools/call'', ''resources/subscribe'', ''resources/unsubscribe'', ''logging/setLevel'', ''tasks/cancel'', ''completion/complete'', ''initialize''}.
     call ly method params w = call (ly \<lparr> ly_coalesced := None \<rparr>) method params w"
  by (simp add: call_def canCoalesceMethod_def split: option.splits)

text \<open>No typed method reaches the transport before the handshake or after \<open>Close\<close>.\<close>

lemma typed_gate:
  assumes "\<not> c_initialized c \<or> c_closed c"
  shows "\<exists>e. typed ly method params c w = (Inl e, w)"
  using assms by (auto simp: typed_def requireInit_def)

end
