(* ===== verification/Coalescing.thy ===== *)
theory Coalescing
  imports Client_Errors "HOL-Library.Word"
begin

text \<open>
  \<open>client/coalescing.go\<close>: identical requests that run at the same time share one flight. Callers of
  \<open>Do\<close> and the goroutine of each flight are threads; every access to shared state is one step. The
  digest of long keys and the outcome of the request are arbitrary. Flights are kept in a list, so
  that a flight is a position.
\<close>

section \<open>Keys\<close>

definition maxParamsSize :: nat where "maxParamsSize = 2 ^ 20"

text \<open>The parameters arrive as the outcome of encoding them.\<close>

definition newRequestKey :: "string \<Rightarrow> goerr + string \<Rightarrow> goerr + string \<times> string" where
  "newRequestKey method params =
     (case params of
        Inl e \<Rightarrow> Inl (Wrapped (''marshal params: '' @ Error e) e)
      | Inr data \<Rightarrow>
          if length data > maxParamsSize
          then Inl (ErrNew (''params too large: '' @ Itoa (int (length data)) @ '' bytes exceeds '' @ Itoa (int maxParamsSize) @ '' byte limit''))
          else Inr (method, data))"

definition requestKey_String :: "(string \<Rightarrow> string) \<Rightarrow> string \<times> string \<Rightarrow> string" where
  "requestKey_String digest k =
     (let fullKey = fst k @ '':'' @ snd k
      in if length fullKey > 256 then fst k @ '':hash:'' @ digest fullKey else fullKey)"

section \<open>State\<close>

datatype flight_out = FOk bytes | FErr client_err

record flight =
  fl_key :: string
  fl_callers :: int
  fl_out :: "flight_out option"
  fl_cancelled :: bool

text \<open>A caller: waiting, about to leave with its outcome, about to test whether the request is still pending
  after it left as the last one, and returned. The flag tells a caller whose own context ended. \<open>co_asked\<close>
  is the key a caller passed to \<open>Do\<close>, \<open>co_runs\<close> the requests that ran.\<close>

datatype caller_pc =
    WIdle
  | WWait nat
  | WLeave nat bool flight_out
  | WLast nat bool flight_out
  | WDone nat bool flight_out
  | WRefused string

datatype exec_pc = XWindow | XRun | XCleanup | XDone

record coalescer =
  co_max :: nat
  co_inflight :: "(string, nat) gomap"
  co_flights :: "flight list"
  co_callers :: "nat \<Rightarrow> caller_pc"
  co_asked :: "nat \<Rightarrow> string"
  co_exec :: "nat \<Rightarrow> exec_pc"
  co_runs :: "(nat \<times> flight_out) list"

definition newCoalescer :: coalescer where
  "newCoalescer = \<lparr> co_max = 1000, co_inflight = [], co_flights = [], co_callers = (\<lambda>_. WIdle), co_asked = (\<lambda>_. ''''), co_exec = (\<lambda>_. XWindow), co_runs = [] \<rparr>"

definition upd_flight :: "nat \<Rightarrow> (flight \<Rightarrow> flight) \<Rightarrow> coalescer \<Rightarrow> coalescer" where
  "upd_flight f g c = c \<lparr> co_flights := (co_flights c)[f := g (co_flights c ! f)] \<rparr>"

definition at_caller :: "nat \<Rightarrow> caller_pc \<Rightarrow> coalescer \<Rightarrow> coalescer" where
  "at_caller t pc c = c \<lparr> co_callers := (co_callers c)(t := pc) \<rparr>"

section \<open>Callers\<close>

definition createFlight :: "nat \<Rightarrow> string \<Rightarrow> coalescer \<Rightarrow> coalescer" where
  "createFlight t key c =
     (let f = length (co_flights c)
      in at_caller t (WWait f) (c \<lparr> co_flights := co_flights c @ [\<lparr> fl_key = key, fl_callers = 1, fl_out = None, fl_cancelled = False \<rparr>],
           co_inflight := mput key f (co_inflight c) \<rparr>))"

definition too_many :: "nat \<Rightarrow> nat \<Rightarrow> string" where
  "too_many n limit = ''client: too many concurrent requests ('' @ Itoa (int n) @ ''), limit is '' @ Itoa (int limit)"

definition Do_enter :: "nat \<Rightarrow> string \<Rightarrow> coalescer \<Rightarrow> coalescer" where
  "Do_enter t key c =
     (let c = c \<lparr> co_asked := (co_asked c)(t := key) \<rparr>
      in case mget (co_inflight c) key of
        None \<Rightarrow>
          if co_max c > 0 \<and> length (co_inflight c) \<ge> co_max c
          then at_caller t (WRefused (too_many (length (co_inflight c)) (co_max c))) c
          else createFlight t key c
      | Some f \<Rightarrow> at_caller t (WWait f) (upd_flight f (\<lambda>x. x \<lparr> fl_callers := fl_callers x + 1 \<rparr>) c))"

text \<open>\<open>waitForFlight\<close>: the two branches of the select and the deferred function.\<close>

definition Wait_done :: "nat \<Rightarrow> coalescer \<Rightarrow> coalescer" where
  "Wait_done t c =
     (case co_callers c t of
        WWait f \<Rightarrow> (case fl_out (co_flights c ! f) of Some r \<Rightarrow> at_caller t (WLeave f False r) c | None \<Rightarrow> c)
      | _ \<Rightarrow> c)"

definition Wait_cancelled :: "nat \<Rightarrow> goerr \<Rightarrow> coalescer \<Rightarrow> coalescer" where
  "Wait_cancelled t err c = (case co_callers c t of WWait f \<Rightarrow> at_caller t (WLeave f True (FErr (OtherErr err))) c | _ \<Rightarrow> c)"

definition Wait_leave :: "nat \<Rightarrow> coalescer \<Rightarrow> coalescer" where
  "Wait_leave t c =
     (case co_callers c t of
        WLeave f own r \<Rightarrow>
          at_caller t (if fl_callers (co_flights c ! f) = 1 then WLast f own r else WDone f own r)
            (upd_flight f (\<lambda>x. x \<lparr> fl_callers := fl_callers x - 1 \<rparr>) c)
      | _ \<Rightarrow> c)"

definition Wait_last :: "nat \<Rightarrow> coalescer \<Rightarrow> coalescer" where
  "Wait_last t c =
     (case co_callers c t of
        WLast f own r \<Rightarrow>
          at_caller t (WDone f own r) (if fl_out (co_flights c ! f) = None then upd_flight f (\<lambda>x. x \<lparr> fl_cancelled := True \<rparr>) c else c)
      | _ \<Rightarrow> c)"

section \<open>The goroutine of a flight\<close>

definition at_exec :: "nat \<Rightarrow> exec_pc \<Rightarrow> coalescer \<Rightarrow> coalescer" where
  "at_exec f pc c = c \<lparr> co_exec := (co_exec c)(f := pc) \<rparr>"

definition Exec_window :: "nat \<Rightarrow> coalescer \<Rightarrow> coalescer" where
  "Exec_window f c = at_exec f XRun c"

definition Exec_abort :: "nat \<Rightarrow> coalescer \<Rightarrow> coalescer" where
  "Exec_abort f c = at_exec f XCleanup (upd_flight f (\<lambda>x. x \<lparr> fl_out := Some (FErr (OtherErr contextCanceled)) \<rparr>) c)"

text \<open>The request itself, which returns or panics.\<close>

definition coalescing_panic :: client_err where
  "coalescing_panic = OtherErr (ErrNew ''client: request coalescing internal error'')"

definition Exec_run :: "nat \<Rightarrow> flight_out option \<Rightarrow> coalescer \<Rightarrow> coalescer" where
  "Exec_run f outcome c =
     (let r = (case outcome of Some r \<Rightarrow> r | None \<Rightarrow> FErr coalescing_panic)
      in at_exec f XCleanup (upd_flight f (\<lambda>x. x \<lparr> fl_out := Some r \<rparr>) (c \<lparr> co_runs := (f, r) # co_runs c \<rparr>)))"

definition Exec_cleanup :: "nat \<Rightarrow> coalescer \<Rightarrow> coalescer" where
  "Exec_cleanup f c =
     at_exec f XDone (upd_flight f (\<lambda>x. x \<lparr> fl_cancelled := True \<rparr>) (c \<lparr> co_inflight := mdel (fl_key (co_flights c ! f)) (co_inflight c) \<rparr>))"

inductive ostep :: "coalescer \<Rightarrow> coalescer \<Rightarrow> bool" where
  enter: "co_callers c t = WIdle \<Longrightarrow> ostep c (Do_enter t key c)"
| shared: "co_callers c t = WWait f \<Longrightarrow> ostep c (Wait_done t c)"
| own: "co_callers c t = WWait f \<Longrightarrow> ostep c (Wait_cancelled t err c)"
| leave: "co_callers c t = WLeave f own r \<Longrightarrow> ostep c (Wait_leave t c)"
| last: "co_callers c t = WLast f own r \<Longrightarrow> ostep c (Wait_last t c)"
| window: "f < length (co_flights c) \<Longrightarrow> co_exec c f = XWindow \<Longrightarrow> ostep c (Exec_window f c)"
| abort: "f < length (co_flights c) \<Longrightarrow> co_exec c f = XWindow \<Longrightarrow> fl_cancelled (co_flights c ! f) \<Longrightarrow> ostep c (Exec_abort f c)"
| run: "f < length (co_flights c) \<Longrightarrow> co_exec c f = XRun \<Longrightarrow> ostep c (Exec_run f outcome c)"
| cleanup: "f < length (co_flights c) \<Longrightarrow> co_exec c f = XCleanup \<Longrightarrow> ostep c (Exec_cleanup f c)"

section \<open>One flight per key\<close>

lemmas caller_defs = Do_enter_def createFlight_def Wait_done_def Wait_cancelled_def Wait_leave_def Wait_last_def
lemmas exec_defs = Exec_window_def Exec_abort_def Exec_run_def Exec_cleanup_def
lemmas ostep_defs = caller_defs exec_defs at_caller_def at_exec_def upd_flight_def Let_def
lemmas ostep_splits = caller_pc.splits option.splits if_splits

lemma flight_keep:
  assumes "ostep c c'" "f < length (co_flights c)"
  shows "f < length (co_flights c') \<and> fl_key (co_flights c' ! f) = fl_key (co_flights c ! f)
     \<and> (fl_out (co_flights c' ! f) = fl_out (co_flights c ! f) \<or> co_exec c f \<in> {XWindow, XRun})"
  using assms
  by (induction rule: ostep.induct) (auto simp: ostep_defs nth_append nth_update_any split: ostep_splits)

lemma exec_keep:
  assumes "ostep c c'"
  shows "co_exec c' f = co_exec c f
    \<or> f < length (co_flights c) \<and> (co_exec c f, co_exec c' f) \<in> {(XWindow, XRun), (XWindow, XCleanup), (XRun, XCleanup), (XCleanup, XDone)}"
  using assms
  by (induction rule: ostep.induct) (auto simp: ostep_defs split: ostep_splits)

lemma flight_new:
  assumes "ostep c c'" "length (co_flights c) \<le> f" "f < length (co_flights c')"
  shows "f = length (co_flights c) \<and> fl_out (co_flights c' ! f) = None \<and> mget (co_inflight c') (fl_key (co_flights c' ! f)) = Some f"
  using assms
proof (induction rule: ostep.induct)
  case (enter c t key)
  then show ?case
    by (cases "f = length (co_flights c)") (auto simp: ostep_defs mget_mput split: option.splits if_splits)
qed (auto simp: ostep_defs split: ostep_splits)

lemma table_keep:
  assumes "ostep c c'"
  shows "mget (co_inflight c') k = mget (co_inflight c) k
    \<or> mget (co_inflight c) k = None \<and> mget (co_inflight c') k = Some (length (co_flights c)) \<and> length (co_flights c) < length (co_flights c')
         \<and> fl_key (co_flights c' ! length (co_flights c)) = k
    \<or> mget (co_inflight c') k = None \<and> (\<exists>f < length (co_flights c). fl_key (co_flights c ! f) = k \<and> co_exec c f = XCleanup \<and> co_exec c' f = XDone)"
  using assms
  by (induction rule: ostep.induct) (auto simp: ostep_defs gomap_simps split: ostep_splits)

lemma table_bound:
  assumes "ostep c c'" "wf_map (co_inflight c)" "length (co_inflight c) \<le> co_max c" "0 < co_max c"
  shows "wf_map (co_inflight c') \<and> length (co_inflight c') \<le> co_max c' \<and> co_max c' = co_max c"
  using assms
proof (induction rule: ostep.induct)
  case (cleanup f c)
  then show ?case using length_mdel_le [of "fl_key (co_flights c ! f)" "co_inflight c"] by (simp add: ostep_defs wf_map_mdel)
qed (auto simp: ostep_defs length_mput wf_map_mput split: ostep_splits)

text \<open>A flight is live until its goroutine has removed it from the table; the live flights are those of
  the table.\<close>

definition tabled :: "coalescer \<Rightarrow> bool" where
  "tabled c \<longleftrightarrow> wf_map (co_inflight c) \<and> length (co_inflight c) \<le> co_max c \<and> co_max c = 1000
     \<and> (\<forall>f. f < length (co_flights c) \<and> co_exec c f \<noteq> XDone \<longrightarrow> mget (co_inflight c) (fl_key (co_flights c ! f)) = Some f)
     \<and> (\<forall>k f. mget (co_inflight c) k = Some f \<longrightarrow> f < length (co_flights c) \<and> fl_key (co_flights c ! f) = k)
     \<and> (\<forall>f. f \<ge> length (co_flights c) \<longrightarrow> co_exec c f = XWindow)"

lemma live_in_table:
  assumes st: "ostep c c'" and t: "tabled c" and f: "f < length (co_flights c')" and live: "co_exec c' f \<noteq> XDone"
  shows "mget (co_inflight c') (fl_key (co_flights c' ! f)) = Some f"
proof (cases "f < length (co_flights c)")
  case True
  with exec_keep [OF st, of f] live have "co_exec c f \<noteq> XDone" by auto
  with t True have *: "mget (co_inflight c) (fl_key (co_flights c ! f)) = Some f" by (auto simp: tabled_def)
  moreover have "\<not> (\<exists>g < length (co_flights c). fl_key (co_flights c ! g) = fl_key (co_flights c ! f) \<and> co_exec c g = XCleanup \<and> co_exec c' g = XDone)"
    using t * live unfolding tabled_def by (metis exec_pc.distinct(11) option.inject)
  ultimately show ?thesis
    using table_keep [OF st, of "fl_key (co_flights c ! f)"] flight_keep [OF st True] by auto
next
  case False
  then show ?thesis using flight_new [OF st _ f] by (metis not_less)
qed

lemma tabled_step:
  assumes st: "ostep c c'" and t: "tabled c"
  shows "tabled c'"
proof -
  have b: "wf_map (co_inflight c') \<and> length (co_inflight c') \<le> co_max c' \<and> co_max c' = 1000"
    using table_bound [OF st] t by (simp add: tabled_def)
  have k: "f < length (co_flights c') \<and> fl_key (co_flights c' ! f) = k" if "mget (co_inflight c') k = Some f" for k f
    using table_keep [OF st, of k] t that flight_keep [OF st, of f] by (auto simp: tabled_def)
  have e: "co_exec c' f = XWindow" if "f \<ge> length (co_flights c')" for f
  proof -
    have "f \<ge> length (co_flights c)" using flight_keep [OF st, of f] that by linarith
    with t exec_keep [OF st, of f] show ?thesis by (auto simp: tabled_def)
  qed
  show ?thesis unfolding tabled_def using b k e live_in_table [OF st t] by blast
qed

text \<open>A flight runs its request at most once, and its outcome is what the request gave, or the
  cancellation of the flight.\<close>

definition ran :: "coalescer \<Rightarrow> bool" where
  "ran c \<longleftrightarrow> distinct (map fst (co_runs c))
     \<and> (\<forall>f r. (f, r) \<in> set (co_runs c) \<longrightarrow> f < length (co_flights c) \<and> co_exec c f \<notin> {XWindow, XRun})
     \<and> (\<forall>f r. f < length (co_flights c) \<and> fl_out (co_flights c ! f) = Some r \<longrightarrow>
            co_exec c f \<notin> {XWindow, XRun} \<and> ((f, r) \<in> set (co_runs c) \<or> r = FErr (OtherErr contextCanceled)))"

lemma runs_keep:
  assumes "ostep c c'"
  shows "co_runs c' = co_runs c
    \<or> (\<exists>f r. f < length (co_flights c) \<and> co_exec c f = XRun \<and> co_exec c' f = XCleanup \<and> co_runs c' = (f, r) # co_runs c)"
  using assms
  by (induction rule: ostep.induct) (auto simp: ostep_defs split: ostep_splits)

lemma out_keep:
  assumes "ostep c c'" "f < length (co_flights c)" "fl_out (co_flights c' ! f) = Some r"
  shows "fl_out (co_flights c ! f) = Some r
    \<or> co_exec c' f = XCleanup \<and> ((f, r) \<in> set (co_runs c') \<or> r = FErr (OtherErr contextCanceled))"
  using assms
  by (induction rule: ostep.induct) (auto simp: ostep_defs nth_append nth_update_any split: ostep_splits)

lemma ran_step:
  assumes st: "ostep c c'" and r: "ran c"
  shows "ran c'"
proof -
  have d: "distinct (map fst (co_runs c'))"
    using runs_keep [OF st] r by (force simp: ran_def)
  have s: "f < length (co_flights c') \<and> co_exec c' f \<notin> {XWindow, XRun}" if "(f, x) \<in> set (co_runs c')" for f x
  proof -
    have "f < length (co_flights c) \<and> (co_exec c f \<notin> {XWindow, XRun} \<or> co_exec c' f = XCleanup)"
      using runs_keep [OF st] r that unfolding ran_def by (metis (no_types, lifting) insertE list.set(2) prod.inject)
    then show ?thesis using exec_keep [OF st, of f] flight_keep [OF st, of f] by auto
  qed
  have q: "co_exec c' f \<notin> {XWindow, XRun} \<and> ((f, x) \<in> set (co_runs c') \<or> x = FErr (OtherErr contextCanceled))"
    if f: "f < length (co_flights c')" and x: "fl_out (co_flights c' ! f) = Some x" for f x
  proof -
    have f': "f < length (co_flights c)" using flight_new [OF st _ f] x by force
    from out_keep [OF st f' x] show ?thesis
    proof
      assume "fl_out (co_flights c ! f) = Some x"
      with r f' have "co_exec c f \<notin> {XWindow, XRun} \<and> ((f, x) \<in> set (co_runs c) \<or> x = FErr (OtherErr contextCanceled))"
        by (auto simp: ran_def)
      then show ?thesis using exec_keep [OF st, of f] runs_keep [OF st] by auto
    qed auto
  qed
  from d s q show ?thesis unfolding ran_def by blast
qed

section \<open>What a caller gets\<close>

text \<open>A caller that waits refers to a flight of its key; one that leaves or has left without its own context
  having ended holds the outcome of that flight.\<close>

fun caller_flight :: "caller_pc \<Rightarrow> nat option" where
  "caller_flight (WWait f) = Some f"
| "caller_flight (WLeave f own r) = Some f"
| "caller_flight (WLast f own r) = Some f"
| "caller_flight (WDone f own r) = Some f"
| "caller_flight _ = None"

fun caller_out :: "caller_pc \<Rightarrow> (nat \<times> flight_out) option" where
  "caller_out (WLeave f False r) = Some (f, r)"
| "caller_out (WLast f False r) = Some (f, r)"
| "caller_out (WDone f False r) = Some (f, r)"
| "caller_out _ = None"

definition served :: "coalescer \<Rightarrow> bool" where
  "served c \<longleftrightarrow> (\<forall>t f. caller_flight (co_callers c t) = Some f \<longrightarrow> f < length (co_flights c) \<and> fl_key (co_flights c ! f) = co_asked c t)
     \<and> (\<forall>t f r. caller_out (co_callers c t) = Some (f, r) \<longrightarrow> fl_out (co_flights c ! f) = Some r)"

lemma caller_out_flight: "caller_out pc = Some (f, r) \<Longrightarrow> caller_flight pc = Some f"
  by (induction pc rule: caller_out.induct) auto

lemma caller_keep:
  assumes "ostep c c'"
  shows "caller_flight (co_callers c' t) = caller_flight (co_callers c t) \<and> co_asked c' t = co_asked c t
    \<or> co_callers c t = WIdle \<and> (case caller_flight (co_callers c' t) of
          None \<Rightarrow> True
        | Some f \<Rightarrow> mget (co_inflight c') (co_asked c' t) = Some f)"
  using assms
  by (induction rule: ostep.induct) (auto simp: ostep_defs mget_mput split: ostep_splits)

lemma caller_out_keep:
  assumes "ostep c c'" "caller_out (co_callers c' t) = Some (f, r)"
  shows "caller_out (co_callers c t) = Some (f, r) \<or> co_callers c t = WWait f \<and> fl_out (co_flights c' ! f) = Some r"
  using assms
proof (induction rule: ostep.induct)
  case (leave c t' f' own r')
  then show ?case by (cases own) (auto simp: ostep_defs split: if_splits)
next
  case (last c t' f' own r')
  then show ?case by (cases own) (auto simp: ostep_defs split: if_splits)
qed (auto simp: ostep_defs split: ostep_splits)

lemma served_step:
  assumes st: "ostep c c'" and t: "tabled c" and r: "ran c" and s: "served c"
  shows "served c'"
proof -
  have f: "f < length (co_flights c') \<and> fl_key (co_flights c' ! f) = co_asked c' w" if "caller_flight (co_callers c' w) = Some f" for w f
    using caller_keep [OF st, of w] that s flight_keep [OF st, of f] tabled_step [OF st t] by (auto simp: served_def tabled_def)
  have q: "fl_out (co_flights c' ! f) = Some x" if co: "caller_out (co_callers c' w) = Some (f, x)" for w f x
    using caller_out_keep [OF st co]
  proof
    assume "caller_out (co_callers c w) = Some (f, x)"
    with s have "f < length (co_flights c)" "fl_out (co_flights c ! f) = Some x"
      by (auto simp: served_def dest: caller_out_flight)
    with r flight_keep [OF st, of f] show ?thesis by (auto simp: ran_def)
  qed simp
  from f q show ?thesis unfolding served_def by blast
qed

inductive coalescer_reaches :: "coalescer \<Rightarrow> bool" where
  start: "coalescer_reaches newCoalescer"
| step: "coalescer_reaches c \<Longrightarrow> ostep c c' \<Longrightarrow> coalescer_reaches c'"

lemma coalescer_ok:
  assumes "coalescer_reaches c"
  shows "tabled c \<and> ran c \<and> served c"
  using assms
proof (induction rule: coalescer_reaches.induct)
  case start
  then show ?case by (simp add: newCoalescer_def tabled_def ran_def served_def)
qed (blast intro: tabled_step ran_step served_step)

text \<open>C33: However callers, cancellations and flights interleave: at most one flight of a key is live, a flight
  runs its request at most once, at most 1000 flights are in the table, and a caller whose own context did not
  end returns what one run of a flight of its own key gave, or the cancellation of that flight.\<close>

theorem coalesced_requests_share_one_run:
  assumes "coalescer_reaches c"
  shows "(\<forall>f g. f < length (co_flights c) \<and> g < length (co_flights c) \<and> fl_key (co_flights c ! f) = fl_key (co_flights c ! g)
           \<and> co_exec c f \<noteq> XDone \<and> co_exec c g \<noteq> XDone \<longrightarrow> f = g)
    \<and> distinct (map fst (co_runs c)) \<and> length (co_inflight c) \<le> 1000
    \<and> (\<forall>t f r. co_callers c t = WDone f False r \<longrightarrow>
           fl_key (co_flights c ! f) = co_asked c t \<and> ((f, r) \<in> set (co_runs c) \<or> r = FErr (OtherErr contextCanceled)))"
proof (intro conjI)
  from coalescer_ok [OF assms] have t: "tabled c" and r: "ran c" and s: "served c" by auto
  show "\<forall>f g. f < length (co_flights c) \<and> g < length (co_flights c) \<and> fl_key (co_flights c ! f) = fl_key (co_flights c ! g)
           \<and> co_exec c f \<noteq> XDone \<and> co_exec c g \<noteq> XDone \<longrightarrow> f = g"
    using t unfolding tabled_def by (metis option.inject)
  show "distinct (map fst (co_runs c))" "length (co_inflight c) \<le> 1000"
    using t r by (auto simp: tabled_def ran_def)
  show "\<forall>t f r. co_callers c t = WDone f False r \<longrightarrow>
           fl_key (co_flights c ! f) = co_asked c t \<and> ((f, r) \<in> set (co_runs c) \<or> r = FErr (OtherErr contextCanceled))"
  proof (intro allI impI)
    fix w f x assume "co_callers c w = WDone f False x"
    then have "caller_flight (co_callers c w) = Some f" "caller_out (co_callers c w) = Some (f, x)" by simp_all
    with s have "f < length (co_flights c) \<and> fl_key (co_flights c ! f) = co_asked c w \<and> fl_out (co_flights c ! f) = Some x"
      unfolding served_def by blast
    with r show "fl_key (co_flights c ! f) = co_asked c w \<and> ((f, x) \<in> set (co_runs c) \<or> x = FErr (OtherErr contextCanceled))"
      by (auto simp: ran_def)
  qed
qed

section \<open>A live caller that is cancelled\<close>

text \<open>Caller 0 starts a flight and gives up; caller 1 asks for the same key before the goroutine of the
  flight has seen the cancellation, joins it, and returns \<open>context.Canceled\<close> although its own
  context never ended.\<close>

definition joined :: coalescer where
  "joined = Do_enter 1 ''k'' (Wait_last 0 (Wait_leave 0 (Wait_cancelled 0 contextCanceled (Do_enter 0 ''k'' newCoalescer))))"

definition cancelled_by_another :: coalescer where
  "cancelled_by_another = Wait_last 1 (Wait_leave 1 (Wait_done 1 (Exec_cleanup 0 (Exec_abort 0 joined))))"

lemmas joined_eval = ostep_defs newCoalescer_def mget_def mput_def mdel_def

lemma joined_reaches: "coalescer_reaches joined"
  unfolding joined_def
  apply (rule coalescer_reaches.step [OF _ ostep.enter])
   apply (rule coalescer_reaches.step [OF _ ostep.last])
    apply (rule coalescer_reaches.step [OF _ ostep.leave])
     apply (rule coalescer_reaches.step [OF _ ostep.own])
      apply (rule coalescer_reaches.step [OF _ ostep.enter])
       apply (rule coalescer_reaches.start)
  by (simp_all add: joined_eval)

lemma joined_reaches_end: "coalescer_reaches cancelled_by_another"
proof -
  have 1: "coalescer_reaches (Exec_abort 0 joined)"
    by (rule coalescer_reaches.step [OF joined_reaches ostep.abort]) (simp_all add: joined_def joined_eval)
  have 2: "coalescer_reaches (Exec_cleanup 0 (Exec_abort 0 joined))"
    by (rule coalescer_reaches.step [OF 1 ostep.cleanup]) (simp_all add: joined_def joined_eval)
  have 3: "coalescer_reaches (Wait_done 1 (Exec_cleanup 0 (Exec_abort 0 joined)))"
    by (rule coalescer_reaches.step [OF 2 ostep.shared [where f = 0]]) (simp add: joined_def joined_eval)
  have 4: "coalescer_reaches (Wait_leave 1 (Wait_done 1 (Exec_cleanup 0 (Exec_abort 0 joined))))"
    by (rule coalescer_reaches.step [OF 3 ostep.leave [where f = 0 and own = False and r = "FErr (OtherErr contextCanceled)"]]) (simp add: joined_def joined_eval)
  show ?thesis
    unfolding cancelled_by_another_def
    by (rule coalescer_reaches.step [OF 4 ostep.last [where f = 0 and own = False and r = "FErr (OtherErr contextCanceled)"]]) (simp add: joined_def joined_eval)
qed

lemma live_caller_is_cancelled:
  "coalescer_reaches cancelled_by_another \<and> co_callers cancelled_by_another 1 = WDone 0 False (FErr (OtherErr contextCanceled))
     \<and> co_runs cancelled_by_another = []"
  using joined_reaches_end by (simp add: cancelled_by_another_def joined_def joined_eval)

theorem coalesced_requests_share_one_run_witness:
  "coalescer_reaches cancelled_by_another \<and> length (co_inflight cancelled_by_another) \<le> 1000
     \<and> fl_key (co_flights cancelled_by_another ! 0) = co_asked cancelled_by_another 1"
proof -
  have "co_callers cancelled_by_another 1 = WDone 0 False (FErr (OtherErr contextCanceled))"
    by (simp add: cancelled_by_another_def joined_def joined_eval)
  then show ?thesis
    using joined_reaches_end coalesced_requests_share_one_run [OF joined_reaches_end] by blast
qed

section \<open>Keys tell requests apart\<close>

text \<open>With a digest without collisions, two requests have the same table key only when they have the same
  method and the same encoded parameters, for methods without a colon and parameters that are not
  a text beginning with \<open>hash:\<close> (no JSON text does).\<close>

lemma colon_split:
  assumes "m @ '':'' @ a = n @ '':'' @ b" "CHR '':'' \<notin> set m" "CHR '':'' \<notin> set n"
  shows "m = n \<and> a = b"
  using assms
proof (induction m arbitrary: n)
  case Nil then show ?case by (cases n) auto
next
  case (Cons x m) then show ?case by (cases n) auto
qed

lemma requestKey_String_inj:
  assumes "inj digest" "CHR '':'' \<notin> set (fst k)" "CHR '':'' \<notin> set (fst k')"
    and "take 5 (snd k) \<noteq> ''hash:''" "take 5 (snd k') \<noteq> ''hash:''"
    and "requestKey_String digest k = requestKey_String digest k'"
  shows "k = k'"
proof -
  define tail where "tail = (\<lambda>k::string \<times> string. if length (fst k @ '':'' @ snd k) > 256 then ''hash:'' @ digest (fst k @ '':'' @ snd k) else snd k)"
  have shape: "requestKey_String digest k = fst k @ '':'' @ tail k" for k
    by (simp add: requestKey_String_def tail_def Let_def)
  from assms(6) have eq: "fst k = fst k' \<and> tail k = tail k'"
    unfolding shape by (rule colon_split) (use assms in simp_all)
  have long: "length (fst k @ '':'' @ snd k) > 256 \<longleftrightarrow> take 5 (tail k) = ''hash:''" if "take 5 (snd k) \<noteq> ''hash:''" for k
    using that by (simp add: tail_def)
  have "length (fst k @ '':'' @ snd k) > 256 \<longleftrightarrow> length (fst k' @ '':'' @ snd k') > 256"
    using long [OF assms(4)] long [OF assms(5)] eq by metis
  then show ?thesis
    using assms(1) eq by (cases "length (fst k @ '':'' @ snd k) > 256") (auto simp: tail_def prod_eq_iff inj_eq)
qed

end
