(* ===== verification/Access.thy ===== *)
theory Access
  imports Server
begin

text \<open>
  Who may do what: the verifiers and checkers of \<open>middleware/auth.go\<close>, the HTTP layer of
  \<open>middleware/httpauth.go\<close>, role-based access of \<open>middleware/rbac.go\<close> and the tenant resolver of
  \<open>middleware/multitenant.go\<close>. Verifiers, extractors, stores and denial handlers are user code: they
  run on the world of the server and may panic. An HTTP request is what \<open>net/http\<close> has parsed:
  header values by canonical name and query values by name. \<open>quote\<close> formats with \<open>%q\<close>.
\<close>

section \<open>Verifiers\<close>

type_synonym AuthScheme = string

definition SchemeBearerToken :: AuthScheme where "SchemeBearerToken = ''Bearer''"
definition SchemeAPIKey :: AuthScheme where "SchemeAPIKey = ''APIKey''"

definition ErrInvalidCredentials :: goerr where "ErrInvalidCredentials = Sentinel ''invalid credentials''"
definition ErrMissingCredentials :: goerr where "ErrMissingCredentials = Sentinel ''missing credentials''"
definition ErrAuthenticationFailed :: goerr where "ErrAuthenticationFailed = Sentinel ''authentication failed''"

type_synonym 'w TokenVerifier = "'w ctx \<Rightarrow> AuthScheme \<Rightarrow> string \<Rightarrow> 'w \<Rightarrow> AuthInfo hres \<times> 'w"

record staticVerifier =
  sv_scheme :: AuthScheme
  sv_keys :: "string list"
  sv_infos :: "AuthInfo list"

text \<open>The parallel lists follow the order in which the map is ranged over.\<close>

definition newStaticVerifier :: "AuthScheme \<Rightarrow> (string, AuthInfo) gomap \<Rightarrow> staticVerifier" where
  "newStaticVerifier scheme m = \<lparr> sv_scheme = scheme, sv_keys = map fst m, sv_infos = map snd m \<rparr>"

fun last_match :: "string \<Rightarrow> string list \<Rightarrow> nat \<Rightarrow> nat option \<Rightarrow> nat option" where
  "last_match token [] i matchIdx = matchIdx"
| "last_match token (key # keys) i matchIdx = last_match token keys (i + 1) (if token = key then Some i else matchIdx)"

definition static_Verify :: "(string \<Rightarrow> string) \<Rightarrow> staticVerifier \<Rightarrow> 'w TokenVerifier" where
  "static_Verify quote v c scheme token w =
     (if scheme \<noteq> sv_scheme v
      then (Err (Wrapped (Error ErrInvalidCredentials @ '': unsupported scheme '' @ quote scheme) ErrInvalidCredentials), w)
      else (case last_match token (sv_keys v) 0 None of
              Some i \<Rightarrow> (Ret (sv_infos v ! i), w)
            | None \<Rightarrow> (Err ErrInvalidCredentials, w)))"

definition StaticAPIKeyVerifier :: "(string \<Rightarrow> string) \<Rightarrow> (string, AuthInfo) gomap \<Rightarrow> 'w TokenVerifier" where
  "StaticAPIKeyVerifier quote keys = static_Verify quote (newStaticVerifier SchemeAPIKey keys)"

definition StaticBearerTokenVerifier :: "(string \<Rightarrow> string) \<Rightarrow> (string, AuthInfo) gomap \<Rightarrow> 'w TokenVerifier" where
  "StaticBearerTokenVerifier quote tokens = static_Verify quote (newStaticVerifier SchemeBearerToken tokens)"

fun chain_Verify :: "'w TokenVerifier list \<Rightarrow> goerr \<Rightarrow> 'w TokenVerifier" where
  "chain_Verify [] lastErr c scheme token w = (Err lastErr, w)"
| "chain_Verify (v # vs) lastErr c scheme token w =
     (case v c scheme token w of
        (Ret info, w1) \<Rightarrow> (Ret info, w1)
      | (Err e, w1) \<Rightarrow> chain_Verify vs e c scheme token w1
      | (Panic m, w1) \<Rightarrow> (Panic m, w1))"

text \<open>With at least two verifiers the initial error is never returned.\<close>

definition ChainVerifiers :: "'w TokenVerifier list \<Rightarrow> 'w TokenVerifier hres" where
  "ChainVerifiers vs =
     (case vs of
        [] \<Rightarrow> Panic ''middleware: ChainVerifiers requires at least one verifier''
      | [v] \<Rightarrow> Ret v
      | v # v' # rest \<Rightarrow> Ret (chain_Verify vs ErrInvalidCredentials))"

section \<open>Checkers of the dispatch layer\<close>

definition empty_subject :: goerr where "empty_subject = ErrNew ''invalid authentication: empty subject''"

definition RequireAuth :: "'w AuthChecker" where
  "RequireAuth c w =
     (case cx_AuthInfo c of
        None \<Rightarrow> (Err ErrMissingCredentials, w)
      | Some info \<Rightarrow> if ai_Subject info = [] then (Err empty_subject, w) else (Ret (), w))"

definition roles_of :: "AuthInfo \<Rightarrow> string list" where
  "roles_of info = (case ai_Roles info of None \<Rightarrow> [] | Some rs \<Rightarrow> rs)"

text \<open>The two nested loops over roles, with the outer loop over the first list.\<close>

fun role_in :: "string \<Rightarrow> string list \<Rightarrow> bool" where
  "role_in c [] = False"
| "role_in c (r # rs) = (if c = r then True else role_in c rs)"

fun hasAnyRole :: "string list \<Rightarrow> string list \<Rightarrow> bool" where
  "hasAnyRole [] required = False"
| "hasAnyRole (c # caller) required = (if role_in c required then True else hasAnyRole caller required)"

definition RequireAuthWithRoles :: "string list \<Rightarrow> 'w AuthChecker" where
  "RequireAuthWithRoles required c w =
     (case cx_AuthInfo c of
        None \<Rightarrow> (Err ErrMissingCredentials, w)
      | Some info \<Rightarrow>
          if ai_Subject info = [] then (Err empty_subject, w)
          else if required = [] then (Ret (), w)
          else if hasAnyRole required (roles_of info) then (Ret (), w)
          else (Err (ErrNew ''forbidden: insufficient roles''), w))"

section \<open>The HTTP layer\<close>

record http_request =
  hr_Headers :: "(string, string list) gomap"
  hr_Query :: "(string, string list) gomap"

definition first_value :: "(string, string list) gomap \<Rightarrow> string \<Rightarrow> string" where
  "first_value m k = (case mget m k of Some (v # vs) \<Rightarrow> v | _ \<Rightarrow> [])"

record http_reply =
  hp_Status :: int
  hp_Header :: "(string, string) gomap"
  hp_Body :: json

record httpAuthConfig =
  ha_apiKeyHeader :: string
  ha_apiKeyQuery :: string
  ha_allowAnon :: bool
  ha_anonIdentity :: AuthInfo
  ha_errorHandler :: "(http_request \<Rightarrow> goerr \<Rightarrow> http_reply) option"

text \<open>\<open>http.CanonicalHeaderKey\<close>: the first letter and every letter after a hyphen in upper case, the others in
  lower case; a name with a byte that no token has stays as it is.\<close>

definition token_byte :: "char \<Rightarrow> bool" where
  "token_byte ch \<longleftrightarrow> ch \<in> set ''!#$%&*+-.^_`|~0123456789abcdefghijklmnopqrstuvwxyzABCDEFGHIJKLMNOPQRSTUVWXYZ'' \<or> ch = CHR 0x27"

definition ascii_lower :: "char \<Rightarrow> char" where
  "ascii_lower c = (let n = (of_char c :: nat) in if 65 \<le> n \<and> n \<le> 90 then char_of (n + 32) else c)"

fun canonical :: "bool \<Rightarrow> string \<Rightarrow> string" where
  "canonical upper [] = []"
| "canonical upper (c # cs) = (if upper then ascii_upper c else ascii_lower c) # canonical (c = CHR ''-'') cs"

definition CanonicalHeaderKey :: "string \<Rightarrow> string" where
  "CanonicalHeaderKey name = (if list_all token_byte name then canonical True name else name)"

definition WithAnonymousIdentity :: "AuthInfo \<Rightarrow> (httpAuthConfig \<Rightarrow> httpAuthConfig) hres" where
  "WithAnonymousIdentity identity =
     (if ai_Subject identity = [] then Panic ''middleware: WithAnonymousIdentity requires a non-empty Subject''
      else Ret (\<lambda>c. c \<lparr> ha_allowAnon := True, ha_anonIdentity := identity \<rparr>))"

definition WithAPIKeyHeader :: "string \<Rightarrow> httpAuthConfig \<Rightarrow> httpAuthConfig" where
  "WithAPIKeyHeader name c = c \<lparr> ha_apiKeyHeader := CanonicalHeaderKey name \<rparr>"

definition WithAPIKeyQuery :: "string \<Rightarrow> httpAuthConfig \<Rightarrow> httpAuthConfig" where
  "WithAPIKeyQuery param c = c \<lparr> ha_apiKeyQuery := param \<rparr>"

definition WithAuthErrorHandler :: "(http_request \<Rightarrow> goerr \<Rightarrow> http_reply) \<Rightarrow> httpAuthConfig \<Rightarrow> httpAuthConfig" where
  "WithAuthErrorHandler fn c = c \<lparr> ha_errorHandler := Some fn \<rparr>"

definition HTTPAuth_config :: "(httpAuthConfig \<Rightarrow> httpAuthConfig) list \<Rightarrow> httpAuthConfig" where
  "HTTPAuth_config opts = fold (\<lambda>opt c. opt c) opts
     \<lparr> ha_apiKeyHeader = ''X-Api-Key'', ha_apiKeyQuery = [], ha_allowAnon = False,
       ha_anonIdentity = \<lparr> ai_Subject = [], ai_Roles = None, ai_Meta = None \<rparr>, ha_errorHandler = None \<rparr>"

text \<open>\<open>strings.TrimSpace\<close>: white space runes are removed at the left, then at the right. The last rune of a byte
  sequence starts at the last byte, among the last four, that is no continuation byte.\<close>

function trim_left :: "nat list \<Rightarrow> nat list" where
  "trim_left [] = []"
| "trim_left (b # bs) = (case decode_rune (b # bs) of (r, n) \<Rightarrow> if IsSpace r then trim_left (drop (n - 1) bs) else b # bs)"
  by pat_completeness auto
termination by (relation "measure length") (auto simp: less_Suc_eq_le)

fun rune_start :: "nat \<Rightarrow> nat list \<Rightarrow> nat \<Rightarrow> nat" where
  "rune_start 0 s i = i"
| "rune_start (Suc k) s i = (if \<not> cont (s ! i) \<or> i = 0 then i else rune_start k s (i - 1))"

definition last_rune :: "nat list \<Rightarrow> nat \<times> nat" where
  "last_rune s =
     (if s = [] then (runeError, 0)
      else if last s < 128 then (last s, 1)
      else let i = rune_start 3 s (length s - 1); (r, n) = decode_rune (drop i s)
           in if i + n \<noteq> length s then (runeError, 1) else (r, n))"

function trim_right :: "nat list \<Rightarrow> nat list" where
  "trim_right s = (case last_rune s of (r, n) \<Rightarrow> if s \<noteq> [] \<and> 0 < n \<and> IsSpace r then trim_right (take (length s - n) s) else s)"
  by pat_completeness auto
termination by (relation "measure length") auto
declare trim_right.simps [simp del]

definition TrimSpace :: "string \<Rightarrow> string" where
  "TrimSpace s = map char_of (trim_right (trim_left (map of_char s)))"

text \<open>\<open>strings.EqualFold\<close> with the prefix \<open>Bearer \<close>: none of its letters folds with a letter outside of ASCII.\<close>

definition extractCredentials :: "http_request \<Rightarrow> httpAuthConfig \<Rightarrow> AuthScheme \<times> string" where
  "extractCredentials r cfg =
     (let auth = first_value (hr_Headers r) ''Authorization'';
          token = TrimSpace (drop 7 auth);
          key = first_value (hr_Headers r) (CanonicalHeaderKey (ha_apiKeyHeader cfg));
          qkey = first_value (hr_Query r) (ha_apiKeyQuery cfg)
      in if length auth > 7 \<and> map ascii_lower (take 7 auth) = ''bearer '' \<and> token \<noteq> [] then (SchemeBearerToken, token)
         else if ha_apiKeyHeader cfg \<noteq> [] \<and> key \<noteq> [] then (SchemeAPIKey, key)
         else if ha_apiKeyQuery cfg \<noteq> [] \<and> qkey \<noteq> [] then (SchemeAPIKey, qkey)
         else ([], []))"

definition safeVerify :: "'w TokenVerifier \<Rightarrow> 'w ctx \<Rightarrow> AuthScheme \<Rightarrow> string \<Rightarrow> 'w \<Rightarrow> (goerr + AuthInfo) \<times> 'w" where
  "safeVerify v c scheme token w =
     (case v c scheme token w of
        (Ret info, w1) \<Rightarrow> (Inr info, w1)
      | (Err e, w1) \<Rightarrow> (Inl e, w1)
      | (Panic m, w1) \<Rightarrow> (Inl ErrAuthenticationFailed, w1))"

definition scrubbed :: "goerr \<Rightarrow> string" where
  "scrubbed err = (if errors_is err ErrMissingCredentials then ''missing credentials''
     else if errors_is err ErrInvalidCredentials then ''invalid credentials'' else ''authentication failed'')"

definition writeAuthError :: "http_request \<Rightarrow> (http_request \<Rightarrow> goerr \<Rightarrow> http_reply) option \<Rightarrow> goerr \<Rightarrow> http_reply" where
  "writeAuthError r handler err =
     (case handler of
        Some h \<Rightarrow> h r err
      | None \<Rightarrow> \<lparr> hp_Status = 401,
          hp_Header = [(''WWW-Authenticate'', ''Bearer realm=\"mcp\"''), (''Content-Type'', ''application/json'')],
          hp_Body = JObj [(''jsonrpc'', JStr ''2.0''), (''id'', JNull),
            (''error'', JObj [(''code'', JNum (Itoa ErrCodeUnauthorized)), (''message'', JStr (scrubbed err))])] \<rparr>)"

text \<open>The request is answered here, or goes on to the next handler with a context.\<close>

definition HTTPAuth :: "'w TokenVerifier \<Rightarrow> httpAuthConfig \<Rightarrow> http_request \<Rightarrow> 'w ctx \<Rightarrow> 'w \<Rightarrow> (http_reply + 'w ctx) \<times> 'w" where
  "HTTPAuth verifier cfg r c w =
     (case extractCredentials r cfg of (scheme, token) \<Rightarrow>
        if token = []
        then if ha_allowAnon cfg then (Inr (WithAuthInfo (ha_anonIdentity cfg) c), w)
             else (Inl (writeAuthError r (ha_errorHandler cfg) ErrMissingCredentials), w)
        else if length (case mget (hr_Headers r) ''Authorization'' of None \<Rightarrow> [] | Some vs \<Rightarrow> vs) > 1
        then (Inl (writeAuthError r (ha_errorHandler cfg) ErrInvalidCredentials), w)
        else (case safeVerify verifier c scheme token w of
                (Inl err, w1) \<Rightarrow> (Inl (writeAuthError r (ha_errorHandler cfg) err), w1)
              | (Inr info, w1) \<Rightarrow> (Inr (WithAuthInfo info c), w1)))"

section \<open>Roles of tools\<close>

definition RolesFromCtx :: "'w ctx \<Rightarrow> string list" where
  "RolesFromCtx c = (case cx_Roles c of None \<Rightarrow> [] | Some rs \<Rightarrow> rs)"

definition ToolRolesFromCtx :: "'w ctx \<Rightarrow> string list" where
  "ToolRolesFromCtx c = (case cx_ToolRoles c of None \<Rightarrow> [] | Some rs \<Rightarrow> rs)"

text \<open>\<open>%v\<close> of a slice of strings.\<close>

fun spaced :: "string list \<Rightarrow> string" where
  "spaced [] = []"
| "spaced [x] = x"
| "spaced (x # xs) = x @ '' '' @ spaced xs"

definition forbidden_text :: "(string \<Rightarrow> string) \<Rightarrow> string \<Rightarrow> string list \<Rightarrow> string" where
  "forbidden_text quote toolName required = ''forbidden: tool '' @ quote toolName @ '' requires one of ['' @ spaced required @ '']''"

type_synonym 'w DeniedHandler = "'w ctx \<Rightarrow> string list \<Rightarrow> string list \<Rightarrow> ('w, string) usercode"

definition RBACWithDenied :: "(string \<Rightarrow> string) \<Rightarrow> 'w DeniedHandler option \<Rightarrow> 'w Middleware" where
  "RBACWithDenied quote handler next_h c input st =
     (let required = ToolRolesFromCtx c; callerRoles = RolesFromCtx c
      in if required = [] then next_h c input st
         else if hasAnyRole callerRoles required then next_h c input st
         else (case handler of
                 None \<Rightarrow> (Err (ErrNew (forbidden_text quote (cx_ToolName c) required)), st)
               | Some h \<Rightarrow>
                   (case h c required callerRoles st of
                      (Ret msg, st1) \<Rightarrow> (Err (ErrNew msg), st1)
                    | (Err e, st1) \<Rightarrow> (Err e, st1)
                    | (Panic m, st1) \<Rightarrow> (Panic m, st1))))"

definition RBAC :: "(string \<Rightarrow> string) \<Rightarrow> 'w Middleware" where
  "RBAC quote = RBACWithDenied quote None"

section \<open>Tenants\<close>

definition ErrTenantNotFound :: goerr where "ErrTenantNotFound = Sentinel ''tenant not found''"
definition ErrTenantRequired :: goerr where "ErrTenantRequired = Sentinel ''tenant identification required''"
definition maxTenantIDLength :: nat where "maxTenantIDLength = 256"

type_synonym 'w TenantExtractor = "'w ctx \<Rightarrow> 'w \<Rightarrow> string hres \<times> 'w"

definition TenantFromAuthSubject :: "'w TenantExtractor" where
  "TenantFromAuthSubject c w = (Ret (case cx_AuthInfo c of None \<Rightarrow> [] | Some info \<Rightarrow> ai_Subject info), w)"

definition TenantFromAuthMeta :: "string \<Rightarrow> 'w TenantExtractor hres" where
  "TenantFromAuthMeta key =
     (if key = [] then Panic ''middleware: TenantFromAuthMeta requires a non-empty key''
      else Ret (\<lambda>c w. (Ret (case cx_AuthInfo c of
                None \<Rightarrow> []
              | Some info \<Rightarrow> (case ai_Meta info of
                    None \<Rightarrow> []
                  | Some m \<Rightarrow> (case mget m key of Some (JStr v) \<Rightarrow> v | _ \<Rightarrow> []))), w)))"

record 'w TenantConfig =
  tc_ToolFilter :: "('w Tool \<Rightarrow> bool option) option"
  tc_ResourceFilter :: "('w Resource \<Rightarrow> bool option) option"
  tc_ResourceTemplateFilter :: "('w ResourceTemplate \<Rightarrow> bool option) option"
  tc_PromptFilter :: "('w Prompt \<Rightarrow> bool option) option"
  tc_Metadata :: "meta option"

definition toItemFilter :: "'w TenantConfig option \<Rightarrow> 'w ItemFilter option" where
  "toItemFilter tc = map_option (\<lambda>tc. \<lparr> if_TenantID = [], if_Tool = tc_ToolFilter tc, if_Resource = tc_ResourceFilter tc,
     if_ResourceTemplate = tc_ResourceTemplateFilter tc, if_Prompt = tc_PromptFilter tc \<rparr>) tc"

type_synonym 'w TenantStore = "'w ctx \<Rightarrow> string \<Rightarrow> 'w \<Rightarrow> 'w TenantConfig option hres \<times> 'w"

text \<open>The copies that \<open>NewStaticTenantStore\<close> makes are the values themselves. A configuration may be nil.\<close>

definition NewStaticTenantStore :: "(string, 'w TenantConfig option) gomap option \<Rightarrow> (string, 'w TenantConfig option) gomap hres" where
  "NewStaticTenantStore configs =
     (case configs of
        None \<Rightarrow> Panic ''middleware: NewStaticTenantStore requires a non-nil configs map''
      | Some m \<Rightarrow> Ret m)"

definition Static_Lookup :: "(string, 'w TenantConfig option) gomap \<Rightarrow> 'w TenantStore" where
  "Static_Lookup configs c tenantID w =
     (case mget configs tenantID of None \<Rightarrow> (Err ErrTenantNotFound, w) | Some cfg \<Rightarrow> (Ret cfg, w))"

definition WithFallbackTenant :: "string \<Rightarrow> string \<Rightarrow> string" where
  "WithFallbackTenant i fallbackTenant = i"

definition NewTenantResolver ::
  "'w TenantExtractor \<Rightarrow> 'w TenantStore \<Rightarrow> (string \<Rightarrow> string) list \<Rightarrow> 'w TenantResolver" where
  "NewTenantResolver extractor store opts c w =
     (let fallbackTenant = fold (\<lambda>opt f. opt f) opts []
      in case extractor c w of
           (Panic m, w1) \<Rightarrow> (Panic m, w1)
         | (Err e, w1) \<Rightarrow> (Err e, w1)
         | (Ret t, w1) \<Rightarrow>
             let tenantID = (if t = [] then fallbackTenant else t)
             in if tenantID = [] then (Err ErrTenantRequired, w1)
                else if length tenantID > maxTenantIDLength then (Err ErrTenantRequired, w1)
                else (case store c tenantID w1 of
                        (Panic m, w2) \<Rightarrow> (Panic m, w2)
                      | (Err e, w2) \<Rightarrow> (Err (Wrapped (''tenant lookup: '' @ Error e) e), w2)
                      | (Ret tc, w2) \<Rightarrow>
                          let filter = (case toItemFilter tc of None \<Rightarrow> \<lparr> if_TenantID = [], if_Tool = None, if_Resource = None,
                                           if_ResourceTemplate = None, if_Prompt = None \<rparr> | Some f \<Rightarrow> f)
                          in (Ret (Some (filter \<lparr> if_TenantID := tenantID \<rparr>)), w2)))"

section \<open>Verified identities\<close>

lemma role_in_iff: "role_in c rs \<longleftrightarrow> c \<in> set rs"
  by (induction rs) auto

lemma hasAnyRole_iff: "hasAnyRole xs ys \<longleftrightarrow> set xs \<inter> set ys \<noteq> {}"
  by (induction xs) (auto simp: role_in_iff)

lemma last_match_bound: "last_match t ks i m = Some j \<Longrightarrow> m = Some j \<or> i \<le> j \<and> j < i + length ks \<and> ks ! (j - i) = t"
proof (induction ks arbitrary: i m)
  case (Cons k ks)
  then show ?case by (fastforce simp: nth_Cons' split: if_splits)
qed simp

lemma last_match_none: "last_match t ks i m = None \<longleftrightarrow> m = None \<and> t \<notin> set ks"
  by (induction ks arbitrary: i m) auto

text \<open>A static verifier accepts exactly the credentials of its scheme that are keys of its map, and yields the
  identity of the key.\<close>

lemma static_Verify_exact:
  assumes "wf_map m"
  shows "static_Verify quote (newStaticVerifier scheme m) c sch token w
    = (if sch = scheme then (case mget m token of Some info \<Rightarrow> (Ret info, w) | None \<Rightarrow> (Err ErrInvalidCredentials, w))
       else (Err (Wrapped (Error ErrInvalidCredentials @ '': unsupported scheme '' @ quote sch) ErrInvalidCredentials), w))"
proof (cases "last_match token (map fst m) 0 None")
  case None
  then have "mget m token = None" by (simp add: last_match_none mget_None_iff)
  with None show ?thesis by (simp add: static_Verify_def newStaticVerifier_def)
next
  case (Some j)
  from last_match_bound [OF this] have j: "j < length m" "fst (m ! j) = token" by auto
  then have "(token, snd (m ! j)) \<in> set m" by (metis nth_mem prod.collapse)
  with assms have "mget m token = Some (snd (m ! j))" by (simp add: mget_Some_iff)
  with Some j show ?thesis by (simp add: static_Verify_def newStaticVerifier_def)
qed

lemma HTTPAuth_forwards:
  assumes "HTTPAuth v cfg r c w = (Inr c', w')"
  shows "\<exists>info. c' = WithAuthInfo info c
     \<and> (snd (extractCredentials r cfg) = [] \<and> ha_allowAnon cfg \<and> info = ha_anonIdentity cfg
        \<or> snd (extractCredentials r cfg) \<noteq> [] \<and> v c (fst (extractCredentials r cfg)) (snd (extractCredentials r cfg)) w = (Ret info, w'))"
  using assms by (auto simp: HTTPAuth_def safeVerify_def split: prod.splits if_splits sum.splits hres.splits)

lemma CallTool_rbac:
  assumes mw: "s_middleware s = RBAC quote # ms" and t: "visible_tool s (cx_SubscriberID c) name = Some t" "AllowTool f t"
    and roles: "tool_Roles t \<noteq> []"
  shows "CallTool c f name input s st =
    (if set (RolesFromCtx c) \<inter> set (tool_Roles t) \<noteq> {} then CallTool c f name input (s \<lparr> s_middleware := ms \<rparr>) st
     else (Ret (NewErrorResult (forbidden_text quote (cx_ToolName c) (tool_Roles t))), st))"
proof -
  have ctx: "ToolRolesFromCtx (tool_ctx t c) = tool_Roles t" "RolesFromCtx (tool_ctx t c) = RolesFromCtx c"
    "cx_ToolName (tool_ctx t c) = cx_ToolName c"
    using roles by (simp_all add: tool_ctx_def ToolRolesFromCtx_def RolesFromCtx_def Let_def split: option.splits)
  have chain: "buildChain s h = RBAC quote (buildChain (s \<lparr> s_middleware := ms \<rparr>) h)" for h
    by (simp add: buildChain_def mw)
  have same: "visible_tool (s \<lparr> s_middleware := ms \<rparr>) (cx_SubscriberID c) name = Some t"
    using t(1) by (simp add: visible_tool_def split: option.splits)
  show ?thesis
    using roles t by (simp add: CallTool_def same chain RBAC_def RBACWithDenied_def ctx hasAnyRole_iff Let_def)
qed

text \<open>C12: Roles are those of a verified identity. When the HTTP layer lets a request pass without anonymous access,
  its bearer token is one of the configured tokens and the identity in the context is that of the
  token; and a server whose first middleware is \<open>RBAC\<close> then runs a tool with required roles exactly when
  that identity has one of them, and otherwise returns the denial without running anything.\<close>

theorem roles_of_verified_identity:
  assumes "wf_map tokens" and "\<not> ha_allowAnon cfg"
    and "HTTPAuth (StaticBearerTokenVerifier quote tokens) cfg r c w = (Inr c', w')"
    and "s_middleware s = RBAC quote # ms" and "cx_Roles c'' = cx_Roles c'"
    and "visible_tool s (cx_SubscriberID c'') name = Some t" and "AllowTool f t" and "tool_Roles t \<noteq> []"
  shows "\<exists>info. mget tokens (snd (extractCredentials r cfg)) = Some info \<and> cx_AuthInfo c' = Some info
     \<and> CallTool c'' f name input s st =
         (if set (roles_of info) \<inter> set (tool_Roles t) \<noteq> {} then CallTool c'' f name input (s \<lparr> s_middleware := ms \<rparr>) st
          else (Ret (NewErrorResult (forbidden_text quote (cx_ToolName c'') (tool_Roles t))), st))"
proof -
  from HTTPAuth_forwards [OF assms(3)] assms(2) obtain info where c': "c' = WithAuthInfo info c"
    and v: "StaticBearerTokenVerifier quote tokens c (fst (extractCredentials r cfg)) (snd (extractCredentials r cfg)) w = (Ret info, w')"
    by blast
  from v have i: "mget tokens (snd (extractCredentials r cfg)) = Some info"
    unfolding StaticBearerTokenVerifier_def static_Verify_exact [OF assms(1)] by (auto split: if_splits option.splits)
  have "RolesFromCtx c'' = roles_of info"
    using assms(5) by (simp add: c' RolesFromCtx_def roles_of_def WithAuthInfo_def)
  with CallTool_rbac [OF assms(4,6,7,8), of input st] i show ?thesis
    by (auto simp: c' WithAuthInfo_def)
qed

definition gated_tool :: "unit Tool" where
  "gated_tool = \<lparr> tool_Name = ''t'', tool_Description = [], tool_Handler = Some (\<lambda>c i st. (Ret i, st)), tool_Simulator = None,
     tool_Roles = [''admin''], tool_InputSchema = None, tool_Annotations = None, tool_SkipValidation = False \<rparr>"

definition gated_server :: "unit Server" where
  "gated_server = (NewServer ''s'' ''1'' []) \<lparr> s_tools := [(''t'', gated_tool)], s_middleware := [RBAC id] \<rparr>"

definition plain_ctx :: "unit ctx" where
  "plain_ctx = base_ctx.extend Background \<lparr> cx_ToolSimulator = None \<rparr>"

definition some_tokens :: "(string, AuthInfo) gomap" where
  "some_tokens = [(''k1'', \<lparr> ai_Subject = ''u'', ai_Roles = Some [''reader''], ai_Meta = None \<rparr>)]"

definition bearer_request :: http_request where
  "bearer_request = \<lparr> hr_Headers = [(''Authorization'', [''bearer k1''])], hr_Query = [] \<rparr>"

lemma trim_k1: "TrimSpace ''k1'' = ''k1''"
  by (simp add: TrimSpace_def trim_right.simps [of "[107, 49]"] last_rune_def IsSpace_def char_of_def bit_iff_odd)

lemma bearer_credentials: "extractCredentials bearer_request (HTTPAuth_config []) = (''Bearer'', ''k1'')"
  by (simp add: extractCredentials_def bearer_request_def first_value_def mget_def trim_k1 ascii_lower_def SchemeBearerToken_def Let_def char_of_def bit_iff_odd)

theorem roles_of_verified_identity_witness:
  "CallTool (WithAuthInfo (snd (hd some_tokens)) plain_ctx) None ''t'' ''in'' gated_server \<lparr> hs_holder = None, hs_stream = None, hs_world = () \<rparr>
   = (Ret (NewErrorResult (forbidden_text id [] [''admin''])), \<lparr> hs_holder = None, hs_stream = None, hs_world = () \<rparr>)"
proof -
  let ?c = "WithAuthInfo (snd (hd some_tokens)) plain_ctx"
  let ?st = "\<lparr> hs_holder = None, hs_stream = None, hs_world = () \<rparr>"
  have "HTTPAuth (StaticBearerTokenVerifier id some_tokens) (HTTPAuth_config []) bearer_request plain_ctx () = (Inr ?c, ())"
    unfolding HTTPAuth_def bearer_credentials
    by (simp add: safeVerify_def StaticBearerTokenVerifier_def SchemeBearerToken_def
        static_Verify_def newStaticVerifier_def some_tokens_def bearer_request_def mget_def)
  moreover have "wf_map some_tokens" "\<not> ha_allowAnon (HTTPAuth_config [])"
    by (simp_all add: some_tokens_def wf_map_def HTTPAuth_config_def)
  moreover have "s_middleware gated_server = RBAC id # []" "visible_tool gated_server (cx_SubscriberID ?c) ''t'' = Some gated_tool"
    by (simp_all add: gated_server_def NewServer_def visible_tool_def newSessionToolRegistry_def lookup_def mget_def
        WithAuthInfo_def plain_ctx_def Background_def base_ctx.defs)
  moreover have "AllowTool None gated_tool" "tool_Roles gated_tool \<noteq> []" by (simp_all add: AllowTool_def gated_tool_def)
  ultimately have "\<exists>info. mget some_tokens (snd (extractCredentials bearer_request (HTTPAuth_config []))) = Some info \<and> cx_AuthInfo ?c = Some info
     \<and> CallTool ?c None ''t'' ''in'' gated_server ?st =
         (if set (roles_of info) \<inter> set (tool_Roles gated_tool) \<noteq> {} then CallTool ?c None ''t'' ''in'' (gated_server \<lparr> s_middleware := [] \<rparr>) ?st
          else (Ret (NewErrorResult (forbidden_text id (cx_ToolName ?c) (tool_Roles gated_tool))), ?st))"
    by (intro roles_of_verified_identity) simp_all
  then show ?thesis
    unfolding bearer_credentials
    by (auto simp: some_tokens_def roles_of_def gated_tool_def WithAuthInfo_def plain_ctx_def Background_def base_ctx.defs)
qed

text \<open>The resolver admits a request only under the filters of the tenant that the extractor or the fallback
  names, as the store has them, with a name that is not empty and at most 256 bytes long.\<close>

lemma tenant_resolved:
  assumes "NewTenantResolver extractor store opts c w = (Ret f, w')"
  shows "\<exists>t w1 tid tc. extractor c w = (Ret t, w1) \<and> tid = (if t = [] then fold (\<lambda>opt f. opt f) opts [] else t)
     \<and> tid \<noteq> [] \<and> length tid \<le> maxTenantIDLength \<and> store c tid w1 = (Ret tc, w')
     \<and> (\<exists>g. f = Some g \<and> if_TenantID g = tid
          \<and> (\<forall>x. allow (if_Tool g) x \<longleftrightarrow> (case tc of None \<Rightarrow> True | Some cfg \<Rightarrow> allow (tc_ToolFilter cfg) x))
          \<and> (\<forall>x. allow (if_Prompt g) x \<longleftrightarrow> (case tc of None \<Rightarrow> True | Some cfg \<Rightarrow> allow (tc_PromptFilter cfg) x))
          \<and> (\<forall>x. allow (if_Resource g) x \<longleftrightarrow> (case tc of None \<Rightarrow> True | Some cfg \<Rightarrow> allow (tc_ResourceFilter cfg) x)))"
proof -
  obtain r w1 where ex: "extractor c w = (r, w1)" by force
  with assms obtain t where r: "r = Ret t" by (cases r) (simp_all add: NewTenantResolver_def Let_def)
  let ?tid = "if t = [] then fold (\<lambda>opt f. opt f) opts [] else t"
  obtain x w2 where st: "store c ?tid w1 = (x, w2)" by force
  have ok: "?tid \<noteq> []" "length ?tid \<le> maxTenantIDLength"
    using assms by (auto simp: NewTenantResolver_def Let_def ex r not_less split: if_splits)
  with assms st obtain tc where x: "x = Ret tc" by (cases x) (simp_all add: NewTenantResolver_def Let_def ex r)
  have f: "f = Some ((case toItemFilter tc of None \<Rightarrow> \<lparr> if_TenantID = [], if_Tool = None, if_Resource = None,
      if_ResourceTemplate = None, if_Prompt = None \<rparr> | Some f \<Rightarrow> f) \<lparr> if_TenantID := ?tid \<rparr>)" "w' = w2"
    using assms st ok by (simp_all add: NewTenantResolver_def Let_def ex r x)
  then show ?thesis
    using ex r st x ok by (intro exI [of _ t] exI [of _ w1] exI [of _ ?tid] exI [of _ tc]) (simp add: toItemFilter_def allow_def split: option.split)
qed

text \<open>With the static store an unknown tenant is refused.\<close>

lemma unknown_tenant_refused:
  assumes "extractor c w = (Ret t, w1)" "t \<noteq> []" "mget configs t = None"
  shows "\<exists>e. NewTenantResolver extractor (Static_Lookup configs) opts c w = (Err e, w1)"
  using assms by (simp add: NewTenantResolver_def Static_Lookup_def Let_def)

section \<open>Nested calls\<close>

text \<open>
  A handler that calls another tool through \<open>Server.CallTool\<close> passes its own context. The context of the inner
  call keeps the name of the outer tool, its flag to skip validation, and, where the inner tool has
  none of its own, its required roles, its schema and its simulator.
\<close>

lemma nested_call_keeps_context:
  "cx_ToolName (tool_ctx t (tool_ctx t0 c)) = cx_ToolName c"
  "tool_SkipValidation t0 \<Longrightarrow> cx_SkipValidation (tool_ctx t (tool_ctx t0 c))"
  "tool_Roles t = [] \<Longrightarrow> tool_Roles t0 \<noteq> [] \<Longrightarrow> cx_ToolRoles (tool_ctx t (tool_ctx t0 c)) = Some (tool_Roles t0)"
  "tool_InputSchema t = None \<Longrightarrow> tool_InputSchema t0 = Some sch \<Longrightarrow> cx_ToolSchema (tool_ctx t (tool_ctx t0 c)) = Some sch"
  "tool_Simulator t = None \<Longrightarrow> tool_Simulator t0 = Some sim \<Longrightarrow> cx_ToolSimulator (tool_ctx t (tool_ctx t0 c)) = Some sim"
  by (simp_all add: tool_ctx_def Let_def split: option.splits)

end
