(* ===== verification/Tool_Middleware.thy ===== *)
theory Tool_Middleware
  imports Access Job_Store Complex_Main "HOL-Library.Word"
begin

text \<open>
  The smaller middleware around tool calls: recovery from panics (\<open>recovery.go\<close>), time and size limits
  (\<open>sandbox.go\<close>), dry runs (\<open>simulation.go\<close>), background jobs (\<open>async.go\<close>) and the recording
  middleware (\<open>auditlog.go\<close>, \<open>costtracking.go\<close>, \<open>logging.go\<close>), all of package \<open>middleware\<close>. Clock readings
  are arguments; \<open>quote\<close> formats with \<open>%q\<close>, \<open>marshal\<close> encodes JSON and \<open>digest\<close> is the hexadecimal SHA-256.
\<close>

section \<open>Recovery\<close>

type_synonym 'w PanicHandler = "'w ctx \<Rightarrow> string \<Rightarrow> ('w, string) usercode"

definition RecoveryWithHandler :: "'w PanicHandler option \<Rightarrow> 'w Middleware" where
  "RecoveryWithHandler handler next_h c input st =
     (case next_h c input st of
        (Panic r, st1) \<Rightarrow>
          (case handler of
             None \<Rightarrow> (Err (ErrNew (''internal error: panic: '' @ r)), st1)
           | Some h \<Rightarrow> (case h c r st1 of
                 (Ret msg, st2) \<Rightarrow> (Err (ErrNew msg), st2)
               | (Err e, st2) \<Rightarrow> (Err e, st2)
               | (Panic m, st2) \<Rightarrow> (Panic m, st2)))
      | (Err e, st1) \<Rightarrow> (Err e, st1)
      | (Ret out, st1) \<Rightarrow> (Ret out, st1))"

definition Recovery :: "'w Middleware" where
  "Recovery = RecoveryWithHandler None"

section \<open>Sandbox\<close>

definition ErrSandboxTimeout :: goerr where "ErrSandboxTimeout = Sentinel ''sandbox: execution timeout''"

record sandboxConfig =
  sb_timeout :: int
  sb_maxOutputSize :: int

definition WithTimeout :: "int \<Rightarrow> (sandboxConfig \<Rightarrow> sandboxConfig) hres" where
  "WithTimeout d = (if d < 0 then Panic ''middleware.WithTimeout: timeout must be >= 0'' else Ret (\<lambda>c. c \<lparr> sb_timeout := d \<rparr>))"

definition WithMaxOutputSize :: "int \<Rightarrow> (sandboxConfig \<Rightarrow> sandboxConfig) hres" where
  "WithMaxOutputSize n =
     (if n < 0 then Panic ''middleware.WithMaxOutputSize: size must be >= 0'' else Ret (\<lambda>c. c \<lparr> sb_maxOutputSize := n \<rparr>))"

definition sandbox_config :: "(sandboxConfig \<Rightarrow> sandboxConfig) list \<Rightarrow> sandboxConfig" where
  "sandbox_config opts = fold (\<lambda>opt c. opt c) opts \<lparr> sb_timeout = 0, sb_maxOutputSize = 0 \<rparr>"

text \<open>
  With a timeout the handler runs on a goroutine of its own. Which branch of the select is taken, and the
  error of the context there, is what the clock and the scheduler give. A panic on that goroutine ends
  the process: no deferred function of the calling goroutine sees it. The state is the one after the
  handler, which keeps running after the deadline.
\<close>

datatype 'a run = Goes "'a hres" | Crash string

datatype sandbox_event = HandlerFirst "goerr option" | DoneFirst goerr

definition timed_out_ctx :: "goerr option \<Rightarrow> bool" where
  "timed_out_ctx e = (case e of None \<Rightarrow> False | Some e \<Rightarrow> errors_is e contextDeadlineExceeded)"

definition sandbox_execute :: "int \<Rightarrow> sandbox_event \<Rightarrow> 'w ToolHandler \<Rightarrow> 'w ctx \<Rightarrow> bytes \<Rightarrow> 'w hstate \<Rightarrow> bytes run \<times> 'w hstate" where
  "sandbox_execute timeout ev h c input st =
     (case h c input st of (r, st1) \<Rightarrow>
        if timeout \<le> 0 then (Goes r, st1)
        else (case r of
                Panic m \<Rightarrow> (Crash m, st1)
              | _ \<Rightarrow>
                (case ev of
                   HandlerFirst ctxErr \<Rightarrow>
                     if timed_out_ctx ctxErr
                     then (case r of
                             Err e \<Rightarrow> (Goes (Err (Wrapped (Error ErrSandboxTimeout @ '': '' @ Error e) ErrSandboxTimeout)), st1)
                           | _ \<Rightarrow> (Goes (Err ErrSandboxTimeout), st1))
                     else (Goes r, st1)
                 | DoneFirst e \<Rightarrow>
                     (Goes (Err (if errors_is e contextDeadlineExceeded then ErrSandboxTimeout else e)), st1))))"

definition truncated_marker :: bytes where "truncated_marker = ''[truncated]''"

definition truncate_out :: "bytes \<Rightarrow> int \<Rightarrow> bytes" where
  "truncate_out d maxSize =
     (if maxSize \<le> 0 \<or> int (length d) \<le> maxSize then d
      else if maxSize \<le> int (length truncated_marker) then take (nat maxSize) truncated_marker
      else take (nat (maxSize - int (length truncated_marker))) d @ truncated_marker)"

definition Sandbox :: "sandboxConfig \<Rightarrow> sandbox_event \<Rightarrow> 'w ToolHandler \<Rightarrow> 'w ctx \<Rightarrow> bytes \<Rightarrow> 'w hstate \<Rightarrow> bytes run \<times> 'w hstate" where
  "Sandbox cfg ev next_h c input st =
     (case sandbox_execute (sb_timeout cfg) ev next_h c input st of
        (Goes (Ret out), st1) \<Rightarrow> (Goes (Ret (truncate_out out (sb_maxOutputSize cfg))), st1)
      | (r, st1) \<Rightarrow> (r, st1))"

section \<open>Simulation\<close>

definition ErrSimulationDepthExceeded :: goerr where "ErrSimulationDepthExceeded = Sentinel ''simulation depth exceeded''"
definition defaultMaxSimulationDepth :: int where "defaultMaxSimulationDepth = 3"
definition maxAllowedSimulationDepth :: int where "maxAllowedSimulationDepth = 10"

definition WithMaxDepth :: "int \<Rightarrow> (int \<Rightarrow> int) hres" where
  "WithMaxDepth depth =
     (if depth < 1 \<or> depth > maxAllowedSimulationDepth
      then Panic (''middleware.WithMaxDepth: depth must be 1-'' @ Itoa maxAllowedSimulationDepth @ '', got '' @ Itoa depth)
      else Ret (\<lambda>maxDepth. depth))"

definition simulation_depth :: "(int \<Rightarrow> int) list \<Rightarrow> int" where
  "simulation_depth opts = (let d = fold (\<lambda>opt c. opt c) opts 0 in if d = 0 then defaultMaxSimulationDepth else d)"

definition isDryRun :: "'w ctx \<Rightarrow> bool" where
  "isDryRun c = (case cx_Meta c of None \<Rightarrow> False | Some m \<Rightarrow> mget m ''dryRun'' = Some (JBool True))"

definition toolNameOrUnknown :: "'w ctx \<Rightarrow> string" where
  "toolNameOrUnknown c = (if cx_ToolName c \<noteq> [] then cx_ToolName c else ''<unknown>'')"

definition Simulation :: "(string \<Rightarrow> string) \<Rightarrow> int \<Rightarrow> 'w Middleware" where
  "Simulation quote maxDepth next_h c input st =
     (if \<not> isDryRun c then next_h c input st
      else let depth = cx_SimDepth c
           in if depth \<ge> maxDepth
              then (Err (Wrapped (Error ErrSimulationDepthExceeded @ '': depth '' @ Itoa depth @ '' exceeds limit '' @ Itoa maxDepth)
                       ErrSimulationDepthExceeded), st)
              else let c1 = c \<lparr> cx_SimDepth := depth + 1, cx_Simulated := True \<rparr>;
                       st1 = SetResponseMeta ''simulated'' (JBool True) st
                   in (case cx_ToolSimulator c1 of
                         None \<Rightarrow> (Ret (''Tool '' @ quote (toolNameOrUnknown c1) @ '' execution skipped (dry-run mode)''), st1)
                       | Some simulator \<Rightarrow>
                           (case simulator (base_ctx.truncate c1) input st1 of
                              (Ret out, st2) \<Rightarrow> (Ret out, st2)
                            | (Err e, st2) \<Rightarrow>
                                (Err (Wrapped (''simulation of '' @ quote (toolNameOrUnknown c1) @ '' failed: '' @ Error e) e),
                                 SetResponseMeta ''simulationError'' (JBool True) st2)
                            | (Panic m, st2) \<Rightarrow> (Panic m, st2))))"

section \<open>Background jobs\<close>

text \<open>The default generator counts at the width of the code.\<close>

definition defaultIDGen :: "64 word \<Rightarrow> string \<times> 64 word" where
  "defaultIDGen counter = (''job-'' @ Itoa (sint (counter + 1)), counter + 1)"

definition Async_call ::
  "(json \<Rightarrow> bytes) \<Rightarrow> int \<Rightarrow> string \<Rightarrow> string \<Rightarrow> JobStore \<Rightarrow> bytes hres \<times> JobStore" where
  "Async_call marshal now jobID toolName js =
     (case JobSubmit now jobID toolName js of
        (Inl e, js1) \<Rightarrow> (Err (Wrapped (''async: submit job: '' @ Error e) e), js1)
      | (Inr _, js1) \<Rightarrow>
          (Ret (marshal (JObj [(''jobId'', JStr jobID), (''status'', JStr (job_status_text JobStatusPending))])), js1))"

text \<open>The end of the goroutine: the error of the store is dropped.\<close>

definition Async_end :: "int \<Rightarrow> string \<Rightarrow> bytes hres \<Rightarrow> JobStore \<Rightarrow> JobStore" where
  "Async_end now jobID r js =
     (case r of
        Ret out \<Rightarrow> snd (JobComplete now jobID (Some (NewTextResult out)) js)
      | Err e \<Rightarrow> snd (JobFail now jobID (Error e) js)
      | Panic m \<Rightarrow> snd (JobFail now jobID (''panic: '' @ m) js))"

text \<open>The goroutine, with the operations that others run on the store while the handler runs.\<close>

definition Async_goroutine ::
  "int \<Rightarrow> string \<Rightarrow> 'w ToolHandler \<Rightarrow> 'w ctx \<Rightarrow> bytes \<Rightarrow> job_op list \<Rightarrow> JobStore \<Rightarrow> 'w hstate \<Rightarrow> JobStore \<times> 'w hstate" where
  "Async_goroutine now jobID next_h c input others js st =
     (case MarkRunning jobID js of
        (Some e, js1) \<Rightarrow> (fold job_exec others js1, st)
      | (None, js1) \<Rightarrow>
          (case next_h (c \<lparr> cx_Done := None \<rparr>) input st of
             (r, st1) \<Rightarrow> (Async_end now jobID r (fold job_exec others js1), st1)))"

section \<open>Recording\<close>

text \<open>Sets of names are lists. A sink is user code that returns or panics with a value.\<close>

definition shouldProcess :: "string \<Rightarrow> string list \<Rightarrow> string list \<Rightarrow> bool" where
  "shouldProcess toolName incl excl =
     (if incl \<noteq> [] then toolName \<in> set incl
      else if excl \<noteq> [] then toolName \<notin> set excl
      else True)"

datatype panic_value = PString string | PError goerr | POther

fun formatPanicValue :: "panic_value \<Rightarrow> string" where
  "formatPanicValue (PString s) = s"
| "formatPanicValue (PError e) = Error e"
| "formatPanicValue POther = ''unknown panic''"

type_synonym ('a, 'w) sink = "'a \<Rightarrow> 'w hstate \<Rightarrow> panic_value option \<times> 'w hstate"
type_synonym 'w on_error = "goerr \<Rightarrow> 'w hstate \<Rightarrow> unit hres \<times> 'w hstate"

text \<open>The deferred function after a panic of a sink: the callback runs outside of any recover, so its own panic
  goes on.\<close>

definition after_panic :: "string \<Rightarrow> 'w on_error option \<Rightarrow> panic_value \<Rightarrow> 'w hstate \<Rightarrow> unit hres \<times> 'w hstate" where
  "after_panic prefix onError v st =
     (case onError of
        None \<Rightarrow> (Ret (), st)
      | Some f \<Rightarrow> f (case v of PError e \<Rightarrow> e | _ \<Rightarrow> ErrNew (prefix @ formatPanicValue v)) st)"

definition safeSinkLog :: "('a, 'w) sink \<Rightarrow> 'w on_error option \<Rightarrow> 'a \<Rightarrow> 'w hstate \<Rightarrow> unit hres \<times> 'w hstate" where
  "safeSinkLog sink onError entry st =
     (case sink entry st of
        (None, st1) \<Rightarrow> (Ret (), st1)
      | (Some v, st1) \<Rightarrow> after_panic ''audit sink panic: '' onError v st1)"

definition safeCollect :: "('a, 'w) sink \<Rightarrow> 'w on_error option \<Rightarrow> 'a \<Rightarrow> 'w hstate \<Rightarrow> unit hres \<times> 'w hstate" where
  "safeCollect collector onError rec st =
     (case collector rec st of
        (None, st1) \<Rightarrow> (Ret (), st1)
      | (Some v, st1) \<Rightarrow> after_panic ''cost collector panic: '' onError v st1)"

record AuditEntry =
  ae_Timestamp :: int
  ae_ToolName :: string
  ae_RequestID :: "json option"
  ae_InputHash :: string
  ae_InputSize :: nat
  ae_OutputSize :: nat
  ae_Duration :: int
  ae_Success :: bool
  ae_ErrorMessage :: string

record 'w auditLogConfig =
  au_sink :: "(AuditEntry, 'w) sink option"
  au_includeTools :: "string list"
  au_excludeTools :: "string list"
  au_hashInput :: bool
  au_onError :: "'w on_error option"

definition audit_config :: "('w auditLogConfig \<Rightarrow> 'w auditLogConfig) list \<Rightarrow> 'w auditLogConfig" where
  "audit_config opts = fold (\<lambda>opt c. opt c) opts
     \<lparr> au_sink = None, au_includeTools = [], au_excludeTools = [], au_hashInput = True, au_onError = None \<rparr>"

definition WithAuditSink :: "(AuditEntry, 'w) sink option \<Rightarrow> 'w auditLogConfig \<Rightarrow> 'w auditLogConfig" where
  "WithAuditSink s c = (case s of None \<Rightarrow> c | Some _ \<Rightarrow> c \<lparr> au_sink := s \<rparr>)"

definition WithAuditIncludeTools :: "string list \<Rightarrow> 'w auditLogConfig \<Rightarrow> 'w auditLogConfig" where
  "WithAuditIncludeTools names c = c \<lparr> au_includeTools := names \<rparr>"

definition WithAuditExcludeTools :: "string list \<Rightarrow> 'w auditLogConfig \<Rightarrow> 'w auditLogConfig" where
  "WithAuditExcludeTools names c = c \<lparr> au_excludeTools := names \<rparr>"

definition WithAuditHashInput :: "bool \<Rightarrow> 'w auditLogConfig \<Rightarrow> 'w auditLogConfig" where
  "WithAuditHashInput hash c = c \<lparr> au_hashInput := hash \<rparr>"

definition WithAuditOnError :: "'w on_error \<Rightarrow> 'w auditLogConfig \<Rightarrow> 'w auditLogConfig" where
  "WithAuditOnError fn c = c \<lparr> au_onError := Some fn \<rparr>"

definition out_size :: "bytes hres \<Rightarrow> nat" where
  "out_size r = (case r of Ret out \<Rightarrow> length out | _ \<Rightarrow> 0)"

definition audit_entry :: "(bytes \<Rightarrow> string) \<Rightarrow> bool \<Rightarrow> int \<Rightarrow> int \<Rightarrow> 'w ctx \<Rightarrow> bytes \<Rightarrow> bytes hres \<Rightarrow> AuditEntry" where
  "audit_entry digest hashInput t0 t1 c input r =
     \<lparr> ae_Timestamp = t0, ae_ToolName = cx_ToolName c, ae_RequestID = cx_RequestID c,
       ae_InputHash = (if hashInput \<and> input \<noteq> [] then digest input else []), ae_InputSize = length input,
       ae_OutputSize = out_size r, ae_Duration = t1 - t0,
       ae_Success = (case r of Ret _ \<Rightarrow> True | _ \<Rightarrow> False),
       ae_ErrorMessage = (case r of Err e \<Rightarrow> Error e | _ \<Rightarrow> []) \<rparr>"

text \<open>The record is written after the handler has returned, not by a deferred function: a panic of the handler
  passes without one.\<close>

definition AuditLog :: "(bytes \<Rightarrow> string) \<Rightarrow> 'w auditLogConfig \<Rightarrow> int \<Rightarrow> int \<Rightarrow> 'w Middleware" where
  "AuditLog digest cfg t0 t1 next_h c input st =
     (case au_sink cfg of
        None \<Rightarrow> next_h c input st
      | Some sink \<Rightarrow>
          if \<not> shouldProcess (cx_ToolName c) (au_includeTools cfg) (au_excludeTools cfg) then next_h c input st
          else (case next_h c input st of
                  (Panic m, st1) \<Rightarrow> (Panic m, st1)
                | (r, st1) \<Rightarrow>
                    (case safeSinkLog sink (au_onError cfg) (audit_entry digest (au_hashInput cfg) t0 t1 c input r) st1 of
                       (Panic m, st2) \<Rightarrow> (Panic m, st2)
                     | (_, st2) \<Rightarrow> (r, st2))))"

record CostRecord =
  cr_Timestamp :: int
  cr_ToolName :: string
  cr_RequestID :: "json option"
  cr_InputSize :: nat
  cr_OutputSize :: nat
  cr_Duration :: int
  cr_Success :: bool
  cr_Cost :: rat
  cr_CostUnit :: string
  cr_Metadata :: "meta option"

type_synonym CostFunc = "CostRecord \<Rightarrow> panic_value + CostRecord"

record 'w costTrackingConfig =
  ct_collector :: "(CostRecord, 'w) sink option"
  ct_defaultCostFn :: "CostFunc option"
  ct_perToolCostFn :: "(string, CostFunc option) gomap"
  ct_includeTools :: "string list"
  ct_excludeTools :: "string list"
  ct_onError :: "'w on_error option"

definition WithToolCostFunc :: "string \<Rightarrow> CostFunc option \<Rightarrow> 'w costTrackingConfig \<Rightarrow> 'w costTrackingConfig" where
  "WithToolCostFunc toolName fn c = c \<lparr> ct_perToolCostFn := mput toolName fn (ct_perToolCostFn c) \<rparr>"

definition WithCostCollector :: "(CostRecord, 'w) sink option \<Rightarrow> 'w costTrackingConfig \<Rightarrow> 'w costTrackingConfig" where
  "WithCostCollector col c = (case col of None \<Rightarrow> c | Some _ \<Rightarrow> c \<lparr> ct_collector := col \<rparr>)"

definition WithDefaultCostFunc :: "CostFunc option \<Rightarrow> 'w costTrackingConfig \<Rightarrow> 'w costTrackingConfig" where
  "WithDefaultCostFunc fn c = c \<lparr> ct_defaultCostFn := fn \<rparr>"

definition WithCostIncludeTools :: "string list \<Rightarrow> 'w costTrackingConfig \<Rightarrow> 'w costTrackingConfig" where
  "WithCostIncludeTools names c = c \<lparr> ct_includeTools := names \<rparr>"

definition WithCostExcludeTools :: "string list \<Rightarrow> 'w costTrackingConfig \<Rightarrow> 'w costTrackingConfig" where
  "WithCostExcludeTools names c = c \<lparr> ct_excludeTools := names \<rparr>"

definition WithCostOnError :: "'w on_error \<Rightarrow> 'w costTrackingConfig \<Rightarrow> 'w costTrackingConfig" where
  "WithCostOnError fn c = c \<lparr> ct_onError := Some fn \<rparr>"

definition safeCostFunc ::
  "(string, CostFunc option) gomap \<Rightarrow> CostFunc option \<Rightarrow> string \<Rightarrow> CostRecord \<Rightarrow> 'w on_error option \<Rightarrow> 'w hstate
   \<Rightarrow> CostRecord hres \<times> 'w hstate" where
  "safeCostFunc perTool defaultFn toolName rec onError st =
     (case (case mget perTool toolName of Some (Some fn) \<Rightarrow> Some fn | _ \<Rightarrow> defaultFn) of
        None \<Rightarrow> (Ret rec, st)
      | Some fn \<Rightarrow>
          (case fn rec of
             Inr rec' \<Rightarrow> (Ret rec', st)
           | Inl v \<Rightarrow> (case after_panic ''cost collector panic: '' onError v st of
                 (Panic m, st1) \<Rightarrow> (Panic m, st1)
               | (_, st1) \<Rightarrow> (Ret rec, st1))))"

definition cost_record :: "int \<Rightarrow> int \<Rightarrow> 'w ctx \<Rightarrow> bytes \<Rightarrow> bytes hres \<Rightarrow> CostRecord" where
  "cost_record t0 t1 c input r =
     \<lparr> cr_Timestamp = t0, cr_ToolName = cx_ToolName c, cr_RequestID = cx_RequestID c, cr_InputSize = length input,
       cr_OutputSize = out_size r, cr_Duration = t1 - t0, cr_Success = (case r of Ret _ \<Rightarrow> True | _ \<Rightarrow> False),
       cr_Cost = 0, cr_CostUnit = [], cr_Metadata = None \<rparr>"

definition CostTracking :: "'w costTrackingConfig \<Rightarrow> int \<Rightarrow> int \<Rightarrow> 'w Middleware" where
  "CostTracking cfg t0 t1 next_h c input st =
     (case ct_collector cfg of
        None \<Rightarrow> next_h c input st
      | Some collector \<Rightarrow>
          if \<not> shouldProcess (cx_ToolName c) (ct_includeTools cfg) (ct_excludeTools cfg) then next_h c input st
          else (case next_h c input st of
                  (Panic m, st1) \<Rightarrow> (Panic m, st1)
                | (r, st1) \<Rightarrow>
                    (case safeCostFunc (ct_perToolCostFn cfg) (ct_defaultCostFn cfg) (cx_ToolName c) (cost_record t0 t1 c input r) (ct_onError cfg) st1 of
                       (Panic m, st2) \<Rightarrow> (Panic m, st2)
                     | (Err e, st2) \<Rightarrow> (r, st2)
                     | (Ret rec, st2) \<Rightarrow>
                         (case safeCollect collector (ct_onError cfg) rec st2 of
                            (Panic m, st3) \<Rightarrow> (Panic m, st3)
                          | (_, st3) \<Rightarrow> (r, st3)))))"

text \<open>The collector for tests, and the sum of what it has collected.\<close>

definition InMemory_Collect :: "CostRecord \<Rightarrow> CostRecord list \<Rightarrow> CostRecord list" where
  "InMemory_Collect rec records = records @ [rec]"

definition TotalCost :: "CostRecord list \<Rightarrow> rat" where
  "TotalCost records = fold (\<lambda>r total. total + cr_Cost r) records 0"

text \<open>A logger gets the message and the fields.\<close>

datatype log_field = LText string | LJson json

definition Logging ::
  "(bool \<Rightarrow> string \<Rightarrow> (string \<times> log_field) list \<Rightarrow> 'w hstate \<Rightarrow> unit hres \<times> 'w hstate) \<Rightarrow> string \<Rightarrow> 'w Middleware" where
  "Logging logger duration next_h c input st =
     (case next_h c input st of
        (Panic m, st1) \<Rightarrow> (Panic m, st1)
      | (r, st1) \<Rightarrow>
          let fields0 = [(''tool'', LText (cx_ToolName c)), (''duration'', LText duration)]
                @ (case cx_RequestID c of None \<Rightarrow> [] | Some i \<Rightarrow> [(''requestID'', LJson i)])
          in (case (case r of
                 Err e \<Rightarrow> logger True ''tool call failed'' (fields0 @ [(''error'', LText (Error e))]) st1
               | _ \<Rightarrow> logger False ''tool call completed'' fields0 st1) of
                (Panic m, st2) \<Rightarrow> (Panic m, st2)
              | (_, st2) \<Rightarrow> (r, st2)))"

section \<open>What the limits give\<close>

lemma Recovery_no_panic: "fst (Recovery next_h c input st) \<noteq> Panic m"
  by (auto simp: Recovery_def RecoveryWithHandler_def split: prod.splits hres.splits)

lemma Recovery_transparent:
  "(\<nexists>m. fst (next_h c input st) = Panic m) \<Longrightarrow> RecoveryWithHandler h next_h c input st = next_h c input st"
  by (auto simp: RecoveryWithHandler_def split: prod.splits hres.splits)

lemma truncate_out_length: "0 < n \<Longrightarrow> int (length (truncate_out d n)) \<le> n"
  by (simp add: truncate_out_def truncated_marker_def)

lemma truncate_out_prefix: "\<exists>k. truncate_out d n = d \<or> truncate_out d n = take k d @ truncated_marker \<or> truncate_out d n = take k truncated_marker"
  by (auto simp: truncate_out_def)

text \<open>The sandbox keeps its limits: an output is at most as long as configured, and when the deadline has passed
  where the result is read the call returns the timeout, whatever the handler returned.\<close>

theorem sandbox_keeps_limits:
  "(0 < sb_maxOutputSize cfg \<longrightarrow> (\<forall>out st1. Sandbox cfg ev h c input st = (Goes (Ret out), st1) \<longrightarrow> int (length out) \<le> sb_maxOutputSize cfg))
   \<and> (0 < sb_timeout cfg \<and> (ev = DoneFirst contextDeadlineExceeded \<or> ev = HandlerFirst (Some contextDeadlineExceeded)) \<longrightarrow>
        (\<exists>e. fst (Sandbox cfg ev h c input st) = Goes (Err e) \<and> errors_is e ErrSandboxTimeout) \<or> (\<exists>m. fst (h c input st) = Panic m))"
proof (intro conjI impI allI)
  fix out st1 assume "0 < sb_maxOutputSize cfg" "Sandbox cfg ev h c input st = (Goes (Ret out), st1)"
  then show "int (length out) \<le> sb_maxOutputSize cfg"
    by (auto simp: Sandbox_def truncate_out_length split: prod.splits run.splits hres.splits)
next
  assume a: "0 < sb_timeout cfg \<and> (ev = DoneFirst contextDeadlineExceeded \<or> ev = HandlerFirst (Some contextDeadlineExceeded))"
  obtain r st1 where h: "h c input st = (r, st1)" by force
  have d: "errors_is contextDeadlineExceeded contextDeadlineExceeded" by (simp add: contextDeadlineExceeded_def)
  have e: "errors_is ErrSandboxTimeout ErrSandboxTimeout" by (simp add: ErrSandboxTimeout_def)
  show "(\<exists>e. fst (Sandbox cfg ev h c input st) = Goes (Err e) \<and> errors_is e ErrSandboxTimeout) \<or> (\<exists>m. fst (h c input st) = Panic m)"
    using a h d e by (cases r) (auto simp: Sandbox_def sandbox_execute_def timed_out_ctx_def)
qed

theorem sandbox_keeps_limits_witness:
  "fst (Sandbox (sandbox_config [\<lambda>c. c \<lparr> sb_maxOutputSize := 12 \<rparr>]) (HandlerFirst None) (\<lambda>c i st. (Ret ''a long long output'', st)) c input st)
     = Goes (Ret ''a[truncated]'')
   \<and> int (length ''a[truncated]'') \<le> 12"
proof -
  let ?cfg = "sandbox_config [\<lambda>c. c \<lparr> sb_maxOutputSize := 12 \<rparr>]"
  have r: "Sandbox ?cfg (HandlerFirst None) (\<lambda>c i st. (Ret ''a long long output'', st)) c input st = (Goes (Ret ''a[truncated]''), st)"
    by (simp add: Sandbox_def sandbox_execute_def sandbox_config_def truncate_out_def truncated_marker_def)
  then show ?thesis
    using sandbox_keeps_limits [of ?cfg "HandlerFirst None" "\<lambda>c i st. (Ret ''a long long output'', st)" c input st]
    by (simp add: sandbox_config_def)
qed

text \<open>A panic of a handler under a timeout ends the process; with \<open>Recovery\<close> inside the sandbox it does not.\<close>

lemma sandbox_panic_crashes:
  "0 < sb_timeout cfg \<Longrightarrow> fst (h c input st) = Panic m \<Longrightarrow> fst (Sandbox cfg ev h c input st) = Crash m"
  by (auto simp: Sandbox_def sandbox_execute_def split: prod.splits)

lemma sandbox_of_recovery_runs: "fst (Sandbox cfg ev (Recovery h) c input st) \<noteq> Crash m"
  using Recovery_no_panic [of h c input st m]
  by (auto simp: Sandbox_def sandbox_execute_def split: prod.splits run.splits hres.splits sandbox_event.splits if_splits)

section \<open>Dry runs\<close>

lemma simulation_ignores_handler: "isDryRun c \<Longrightarrow> Simulation quote d h c input st = Simulation quote d h' c input st"
  by (simp add: Simulation_def)

lemma simulation_off: "\<not> isDryRun c \<Longrightarrow> Simulation quote d h c input st = h c input st"
  by (simp add: Simulation_def)

lemma simulation_depth_bounds:
  "list_all (\<lambda>opt. \<exists>n. WithMaxDepth n = Ret opt) opts \<Longrightarrow> 1 \<le> simulation_depth opts \<and> simulation_depth opts \<le> 10"
proof (induction opts rule: rev_induct)
  case (snoc x xs)
  then obtain n where "WithMaxDepth n = Ret x" by auto
  then have "x = (\<lambda>_. n)" "1 \<le> n" "n \<le> 10" by (auto simp: WithMaxDepth_def maxAllowedSimulationDepth_def split: if_splits)
  then show ?case by (simp add: simulation_depth_def)
qed (simp add: simulation_depth_def defaultMaxSimulationDepth_def)

text \<open>C13: A dry run is dry. On a server whose first two middleware are \<open>RBAC\<close> and \<open>Simulation\<close>, the outcome and the
  effects of a dry run do not depend on the handler of the tool nor on the rest of the chain, and a caller
  without one of the required roles gets the denial, without the simulator having run. That the rest of the
  chain has no part in a dry run is how the code behaves; the documentation of \<open>Simulation\<close> says that the
  full chain applies and recommends \<open>Validation\<close> behind it.\<close>

theorem dry_run_is_dry:
  assumes "isDryRun c" and "s_middleware s = RBAC quote # Simulation quote d # ms" and "s_middleware s' = RBAC quote # Simulation quote d # ms'"
    and "visible_tool s (cx_SubscriberID c) name = Some t" and "visible_tool s' (cx_SubscriberID c) name = Some (t \<lparr> tool_Handler := h \<rparr>)"
    and "AllowTool f t" and "AllowTool f (t \<lparr> tool_Handler := h \<rparr>)"
  shows "CallTool c f name input s st = CallTool c f name input s' st
    \<and> (tool_Roles t \<noteq> [] \<and> set (RolesFromCtx c) \<inter> set (tool_Roles t) = {} \<longrightarrow>
      CallTool c f name input s st = (Ret (NewErrorResult (forbidden_text quote (cx_ToolName c) (tool_Roles t))), st))"
proof -
  have d: "isDryRun (tool_ctx t c)" "tool_ctx (t \<lparr> tool_Handler := h \<rparr>) c = tool_ctx t c"
    using assms(1) by (simp_all add: isDryRun_def tool_ctx_def Let_def split: option.splits)
  have chain: "buildChain s (the_handler t) (tool_ctx t c) = buildChain s' (the_handler (t \<lparr> tool_Handler := h \<rparr>)) (tool_ctx t c)"
  proof (intro ext)
    fix i st
    have "Simulation quote d (fold (\<lambda>m. m) (rev ms) (the_handler t)) (tool_ctx t c) i st = Simulation quote d (fold (\<lambda>m. m) (rev ms') (the_handler (t \<lparr> tool_Handler := h \<rparr>))) (tool_ctx t c) i st"
      by (rule simulation_ignores_handler [OF d(1)])
    then show "buildChain s (the_handler t) (tool_ctx t c) i st = buildChain s' (the_handler (t \<lparr> tool_Handler := h \<rparr>)) (tool_ctx t c) i st"
      by (simp add: buildChain_def assms(2,3) RBAC_def RBACWithDenied_def Let_def)
  qed
  then have "CallTool c f name input s st = CallTool c f name input s' st"
    unfolding CallTool_def assms(4,5) by (simp add: assms(6,7) d(2))
  moreover have "tool_Roles t \<noteq> [] \<and> set (RolesFromCtx c) \<inter> set (tool_Roles t) = {} \<longrightarrow>
      CallTool c f name input s st = (Ret (NewErrorResult (forbidden_text quote (cx_ToolName c) (tool_Roles t))), st)"
    using CallTool_rbac [OF assms(2,4,6)] by simp
  ultimately show ?thesis by (rule conjI)
qed

definition dry_server :: "unit ToolHandler \<Rightarrow> unit Server" where
  "dry_server h = (NewServer ''s'' ''1'' []) \<lparr> s_tools := [(''t'', gated_tool \<lparr> tool_Handler := Some h \<rparr>)], s_middleware := [RBAC id, Simulation id 3] \<rparr>"

definition dry_ctx :: "unit ctx" where
  "dry_ctx = plain_ctx \<lparr> cx_Meta := Some [(''dryRun'', JBool True)], cx_Roles := Some [''admin''] \<rparr>"

theorem dry_run_is_dry_witness:
  "CallTool dry_ctx None ''t'' ''in'' (dry_server (\<lambda>c i st. (Ret i, st))) \<lparr> hs_holder = None, hs_stream = None, hs_world = () \<rparr>
   = CallTool dry_ctx None ''t'' ''in'' (dry_server (\<lambda>c i st. (Panic ''boom'', st))) \<lparr> hs_holder = None, hs_stream = None, hs_world = () \<rparr>"
proof (rule dry_run_is_dry [where quote = id and d = 3 and ms = "[]" and ms' = "[]" and t = "gated_tool \<lparr> tool_Handler := Some (\<lambda>c i st. (Ret i, st)) \<rparr>"
      and h = "Some (\<lambda>c i st. (Panic ''boom'', st))", THEN conjunct1])
  show "isDryRun dry_ctx" by (simp add: isDryRun_def dry_ctx_def mget_def)
qed (simp_all add: dry_server_def visible_tool_def NewServer_def newSessionToolRegistry_def lookup_def mget_def dry_ctx_def plain_ctx_def
    Background_def base_ctx.defs AllowTool_def)

section \<open>The end of a background job\<close>

fun op_target :: "job_op \<Rightarrow> string" where
  "op_target (JSubmit now j t) = j"
| "op_target (JRun j) = j"
| "op_target (JComplete now j r) = j"
| "op_target (JFail now j m) = j"
| "op_target (JCancel now j) = j"
| "op_target (JDelete j) = j"

definition leaves_job :: "string \<Rightarrow> job_op \<Rightarrow> bool" where
  "leaves_job jid a \<longleftrightarrow> op_target a \<noteq> jid"

lemma job_frame: "op_target a \<noteq> jid \<Longrightarrow> mget (job_exec a js) jid = mget js jid"
  by (cases a) (auto simp: job_ops mget_mput mget_mdel Let_def split: option.splits)

lemma job_frame_trace: "list_all (leaves_job jid) ops \<Longrightarrow> mget (fold job_exec ops js) jid = mget js jid"
  by (induction ops arbitrary: js) (auto simp: leaves_job_def job_frame)

lemma ended_stays: "mget js jid = Some j \<Longrightarrow> job_ended j \<Longrightarrow> list_all (\<lambda>a. a \<noteq> JDelete jid) ops \<Longrightarrow> mget (fold job_exec ops js) jid = Some j"
  using jl.final_trace [of js jid j ops] by (simp add: job_removes_def)

text \<open>C34: An accepted call is carried out: while others leave the job alone, it ends as complete with the text that the
  handler returned, or as failed with its error or the text of its panic.\<close>

theorem async_job_ends:
  assumes "fst (Async_call marshal t0 jid tool js) = Ret answer"
    and "list_all (leaves_job jid) before" and "list_all (leaves_job jid) meanwhile" and "list_all (leaves_job jid) after"
  shows "\<exists>j. mget (fold job_exec after (fst (Async_goroutine t1 jid h c input meanwhile (fold job_exec before (snd (Async_call marshal t0 jid tool js))) st))) jid = Some j
     \<and> snd (Async_goroutine t1 jid h c input meanwhile (fold job_exec before (snd (Async_call marshal t0 jid tool js))) st)
        = snd (h (c \<lparr> cx_Done := None \<rparr>) input st)
     \<and> (case fst (h (c \<lparr> cx_Done := None \<rparr>) input st) of
          Ret out \<Rightarrow> job_Status j = JobStatusComplete \<and> job_Result j = Some (NewTextResult out)
        | Err e \<Rightarrow> job_Status j = JobStatusFailed \<and> job_Error j = Error e
        | Panic m \<Rightarrow> job_Status j = JobStatusFailed \<and> job_Error j = ''panic: '' @ m)"
proof -
  let ?js1 = "snd (Async_call marshal t0 jid tool js)"
  obtain j0 where j0: "mget ?js1 jid = Some j0" "job_Status j0 = JobStatusPending"
    using assms(1) by (auto simp: Async_call_def JobSubmit_def Let_def mget_mput split: sum.splits if_splits)
  let ?js2 = "fold job_exec before ?js1"
  have j2: "mget ?js2 jid = Some j0" using job_frame_trace [OF assms(2)] j0(1) by simp
  then have run: "MarkRunning jid ?js2 = (None, mput jid (j0 \<lparr> job_Status := JobStatusRunning \<rparr>) ?js2)"
    by (simp add: MarkRunning_def j0(2))
  let ?js3 = "fold job_exec meanwhile (mput jid (j0 \<lparr> job_Status := JobStatusRunning \<rparr>) ?js2)"
  have j3: "mget ?js3 jid = Some (j0 \<lparr> job_Status := JobStatusRunning \<rparr>)"
    using job_frame_trace [OF assms(3)] by (simp add: mget_mput)
  obtain r st1 where h: "h (c \<lparr> cx_Done := None \<rparr>) input st = (r, st1)" by force
  have g: "Async_goroutine t1 jid h c input meanwhile ?js2 st = (Async_end t1 jid r ?js3, st1)"
    by (simp add: Async_goroutine_def run h)
  have "mget (fold job_exec after (Async_end t1 jid r ?js3)) jid = mget (Async_end t1 jid r ?js3) jid"
    by (rule job_frame_trace [OF assms(4)])
  then show ?thesis
    unfolding g h fst_conv snd_conv
    by (cases r) (simp_all add: Async_end_def JobComplete_def JobFail_def j3 mget_mput)
qed

text \<open>A job that is cancelled before its goroutine has marked it as running never runs its handler.\<close>

lemma cancelled_job_does_not_run:
  assumes "mget js jid = Some j" "job_Status j = JobStatusCancelled" "list_all (\<lambda>a. a \<noteq> JDelete jid) meanwhile"
  shows "\<exists>js'. Async_goroutine t1 jid h c input meanwhile js st = (js', st) \<and> mget js' jid = Some j"
  using assms ended_stays [of js jid j meanwhile] by (simp add: Async_goroutine_def MarkRunning_def job_ended_def)

theorem async_job_ends_witness:
  "\<exists>j. mget (fst (Async_goroutine 2 ''job-1'' (\<lambda>c i st. (Ret i, st)) plain_ctx ''in'' [JRun ''other''] (snd (Async_call (\<lambda>_. []) 1 ''job-1'' ''t'' []))
      \<lparr> hs_holder = None, hs_stream = None, hs_world = () \<rparr>)) ''job-1'' = Some j
     \<and> job_Status j = JobStatusComplete \<and> job_Result j = Some (NewTextResult ''in'')"
  using async_job_ends [of "\<lambda>_. []" 1 "''job-1''" "''t''" "[]" "[]" "[]" "[JRun ''other'']" "[]" 2 "\<lambda>c i st. (Ret i, st)" plain_ctx "''in''"
      "\<lparr> hs_holder = None, hs_stream = None, hs_world = () \<rparr>"]
  by (auto simp: leaves_job_def Async_call_def JobSubmit_def Let_def)

section \<open>Recording changes nothing\<close>

text \<open>With sinks that keep to the world of their own, recording returns what the handler returned; the record of a
  call that panics is missing.\<close>

definition quiet :: "'w on_error option \<Rightarrow> bool" where
  "quiet onError \<longleftrightarrow> (\<forall>f. onError = Some f \<longrightarrow> (\<forall>e st m. fst (f e st) \<noteq> Panic m))"

lemma after_panic_quiet: "quiet onError \<Longrightarrow> fst (after_panic p onError v st) \<noteq> Panic m"
  by (auto simp: after_panic_def quiet_def split: option.splits)

lemma safe_log_quiet: "quiet onError \<Longrightarrow> fst (safeSinkLog sink onError e st) \<noteq> Panic m" "quiet onError \<Longrightarrow> fst (safeCollect sink' onError e' st) \<noteq> Panic m"
  by (auto simp: safeSinkLog_def safeCollect_def after_panic_quiet split: prod.splits option.splits)

lemma audit_transparent:
  assumes "quiet (au_onError cfg)"
  shows "fst (AuditLog digest cfg t0 t1 h c input st) = fst (h c input st)"
proof -
  obtain r st1 where h: "h c input st = (r, st1)" by force
  have log: "fst (case safeSinkLog sink (au_onError cfg) e st1 of (Panic m, st2) \<Rightarrow> (Panic m, st2) | (_, st2) \<Rightarrow> (x, st2)) = x" for sink e and x :: "bytes hres"
    using safe_log_quiet(1) [OF assms, of sink e st1] by (cases "safeSinkLog sink (au_onError cfg) e st1"; cases "fst (safeSinkLog sink (au_onError cfg) e st1)") auto
  show ?thesis
    by (cases "au_sink cfg"; cases r) (simp_all add: AuditLog_def h log)
qed

lemma audit_misses_panics: "fst (h c input st) = Panic m \<Longrightarrow> AuditLog digest cfg t0 t1 h c input st = h c input st"
  by (auto simp: AuditLog_def split: option.splits prod.splits hres.splits)

lemma TotalCost_append: "TotalCost (InMemory_Collect r rs) = TotalCost rs + cr_Cost r"
  by (simp add: TotalCost_def InMemory_Collect_def)

end
