(* ===== verification/Compose.thy ===== *)
theory Compose
  imports Access
begin

text \<open>
  Composition of tool handlers (\<open>compose.go\<close>): pipelines, parallel branches and fan-out with a merge
  function. The branches of a parallel composition run on goroutines; their order is an argument, a
  permutation of their positions. A handler runs as a whole. \<open>ctxErr i\<close> is the error of the context before
  the handler at position \<open>i\<close>, \<open>parse\<close> reads JSON and \<open>marshal\<close> writes it.
\<close>

section \<open>Pipelines\<close>

fun pipeline_loop :: "(nat \<Rightarrow> goerr option) \<Rightarrow> nat \<Rightarrow> 'w ToolHandler list \<Rightarrow> 'w ToolHandler" where
  "pipeline_loop ctxErr i [] c d st = (Ret d, st)"
| "pipeline_loop ctxErr i (h # hs) c d st =
     (case ctxErr i of
        Some e \<Rightarrow> (Err e, st)
      | None \<Rightarrow>
          (case h c d st of
             (Ret out, st1) \<Rightarrow> pipeline_loop ctxErr (i + 1) hs c out st1
           | (Err e, st1) \<Rightarrow> (Err e, st1)
           | (Panic m, st1) \<Rightarrow> (Panic m, st1)))"

definition nil_index :: "'a option list \<Rightarrow> nat option" where
  "nil_index hs = (case filter (\<lambda>i. hs ! i = None) [0..<length hs] of [] \<Rightarrow> None | i # _ \<Rightarrow> Some i)"

definition Pipeline :: "(nat \<Rightarrow> goerr option) \<Rightarrow> 'w ToolHandler option list \<Rightarrow> 'w ToolHandler hres" where
  "Pipeline ctxErr handlers =
     (case nil_index handlers of
        Some i \<Rightarrow> Panic (''finemcp.Pipeline: handler at index '' @ Itoa (int i) @ '' is nil'')
      | None \<Rightarrow> Ret (\<lambda>c input st.
          (case pipeline_loop ctxErr 0 (map the handlers) c input st of
             (Panic r, st1) \<Rightarrow> (Err (ErrNew (''panic in pipeline handler: '' @ r)), st1)
           | res \<Rightarrow> res)))"

section \<open>Parallel branches\<close>

definition toJSONValue :: "(bytes \<Rightarrow> json option) \<Rightarrow> bytes \<Rightarrow> json" where
  "toJSONValue parse raw = (case parse raw of Some v \<Rightarrow> v | None \<Rightarrow> JStr raw)"

record ParallelResult =
  pr_Output :: "json option"
  pr_Error :: string

type_synonym 'w NamedHandler = "string \<times> 'w ToolHandler option"

fun validateNamedHandlers :: "(string \<Rightarrow> string) \<Rightarrow> string \<Rightarrow> nat \<Rightarrow> string list \<Rightarrow> 'w NamedHandler list \<Rightarrow> string option" where
  "validateNamedHandlers quote caller i seen [] = None"
| "validateNamedHandlers quote caller i seen ((name, h) # hs) =
     (if h = None then Some (''finemcp.'' @ caller @ '': handler '' @ quote name @ '' at index '' @ Itoa (int i) @ '' is nil'')
      else if name = [] then Some (''finemcp.'' @ caller @ '': handler at index '' @ Itoa (int i) @ '' has empty name'')
      else if name \<in> set seen then Some (''finemcp.'' @ caller @ '': duplicate handler name '' @ quote name)
      else validateNamedHandlers quote caller (i + 1) (name # seen) hs)"

text \<open>A goroutine stores the outcome of its branch at its position; the zero value holds the place until then.\<close>

definition run_branch :: "(string \<Rightarrow> string) \<Rightarrow> 'w NamedHandler \<Rightarrow> 'w ctx \<Rightarrow> bytes \<Rightarrow> 'w hstate \<Rightarrow> (goerr + bytes) \<times> 'w hstate" where
  "run_branch quote nh c input st =
     (case the (snd nh) c input st of
        (Ret out, st1) \<Rightarrow> (Inr out, st1)
      | (Err e, st1) \<Rightarrow> (Inl e, st1)
      | (Panic r, st1) \<Rightarrow> (Inl (ErrNew (''panic in handler '' @ quote (fst nh) @ '': '' @ r)), st1))"

fun run_branches ::
  "(string \<Rightarrow> string) \<Rightarrow> 'w NamedHandler list \<Rightarrow> 'w ctx \<Rightarrow> bytes \<Rightarrow> nat list \<Rightarrow> (goerr + bytes) list \<Rightarrow> 'w hstate \<Rightarrow> (goerr + bytes) list \<times> 'w hstate" where
  "run_branches quote hs c input [] results st = (results, st)"
| "run_branches quote hs c input (i # order) results st =
     (case run_branch quote (hs ! i) c input st of (r, st1) \<Rightarrow> run_branches quote hs c input order (results[i := r]) st1)"

definition branch_result :: "(bytes \<Rightarrow> json option) \<Rightarrow> goerr + bytes \<Rightarrow> ParallelResult" where
  "branch_result parse r = (case r of
       Inl e \<Rightarrow> \<lparr> pr_Output = None, pr_Error = Error e \<rparr>
     | Inr out \<Rightarrow> \<lparr> pr_Output = Some (toJSONValue parse out), pr_Error = [] \<rparr>)"

definition keyed_results :: "(bytes \<Rightarrow> json option) \<Rightarrow> 'w NamedHandler list \<Rightarrow> (goerr + bytes) list \<Rightarrow> (string, ParallelResult) gomap" where
  "keyed_results parse hs results = fold (\<lambda>(nh, r) m. mput (fst nh) (branch_result parse r) m) (zip hs results) []"

definition marshal_branch :: "ParallelResult \<Rightarrow> json" where
  "marshal_branch p = JObj ((case pr_Output p of None \<Rightarrow> [] | Some v \<Rightarrow> [(''output'', v)])
     @ (if pr_Error p = [] then [] else [(''error'', JStr (pr_Error p))]))"

text \<open>Encoding a map sorts its keys.\<close>

definition marshal_results :: "(string, ParallelResult) gomap \<Rightarrow> json" where
  "marshal_results m = JObj (map (\<lambda>k. (k, marshal_branch (the (mget m k)))) (sort (map fst m)))"

definition is_Inl :: "'a + 'b \<Rightarrow> bool" where
  "is_Inl x = (case x of Inl _ \<Rightarrow> True | Inr _ \<Rightarrow> False)"

definition Parallel ::
  "(string \<Rightarrow> string) \<Rightarrow> (bytes \<Rightarrow> json option) \<Rightarrow> (json \<Rightarrow> bytes) \<Rightarrow> nat list \<Rightarrow> 'w NamedHandler list \<Rightarrow> 'w ToolHandler hres" where
  "Parallel quote parse marshal order hs =
     (if hs = [] then Panic ''finemcp.Parallel: at least one handler is required''
      else case validateNamedHandlers quote ''Parallel'' 0 [] hs of
        Some m \<Rightarrow> Panic m
      | None \<Rightarrow> Ret (\<lambda>c input st.
          (case run_branches quote hs c input order (replicate (length hs) (Inr [])) st of (results, st1) \<Rightarrow>
             if length (filter is_Inl results) = length hs then (Err (ErrNew ''all parallel branches failed''), st1)
             else (Ret (marshal (marshal_results (keyed_results parse hs results))), st1))))"

type_synonym 'w MergeFunc = "'w ctx \<Rightarrow> (string, ParallelResult) gomap \<Rightarrow> ('w, bytes) usercode"

definition FanOutFanIn ::
  "(string \<Rightarrow> string) \<Rightarrow> (bytes \<Rightarrow> json option) \<Rightarrow> nat list \<Rightarrow> 'w MergeFunc option \<Rightarrow> 'w NamedHandler list \<Rightarrow> 'w ToolHandler hres" where
  "FanOutFanIn quote parse order merge_fn hs =
     (case merge_fn of
        None \<Rightarrow> Panic ''finemcp.FanOutFanIn: merge function must not be nil''
      | Some mf \<Rightarrow>
        if hs = [] then Panic ''finemcp.FanOutFanIn: at least one handler is required''
        else case validateNamedHandlers quote ''FanOutFanIn'' 0 [] hs of
          Some m \<Rightarrow> Panic m
        | None \<Rightarrow> Ret (\<lambda>c input st.
            (case run_branches quote hs c input order (replicate (length hs) (Inr [])) st of (results, st1) \<Rightarrow>
               (case mf c (keyed_results parse hs results) st1 of
                  (Panic r, st2) \<Rightarrow> (Err (ErrNew (''panic in merge function: '' @ r)), st2)
                | res \<Rightarrow> res))))"

section \<open>Pipelines compose\<close>

text \<open>A pipeline of two parts is the first part followed by the second; an error stops it.\<close>

lemma pipeline_append:
  "pipeline_loop ctxErr i (hs @ hs') c d st =
     (case pipeline_loop ctxErr i hs c d st of
        (Ret out, st1) \<Rightarrow> pipeline_loop ctxErr (i + length hs) hs' c out st1
      | res \<Rightarrow> res)"
  by (induction hs arbitrary: i d st) (auto split: option.splits prod.splits hres.splits)

lemma pipeline_never_panics: "Pipeline ctxErr hs = Ret p \<Longrightarrow> fst (p c input st) \<noteq> Panic m"
  by (auto simp: Pipeline_def split: option.splits prod.splits hres.splits)

section \<open>Every branch reports\<close>

lemma validate_ok:
  "validateNamedHandlers quote caller i seen hs = None \<longleftrightarrow>
     (\<forall>nh \<in> set hs. snd nh \<noteq> None \<and> fst nh \<noteq> []) \<and> distinct (map fst hs) \<and> set (map fst hs) \<inter> set seen = {}"
  by (induction quote caller i seen hs rule: validateNamedHandlers.induct) auto

lemma run_branches_length: "length (fst (run_branches quote hs c input order results st)) = length results"
  by (induction order arbitrary: results st) (auto split: prod.splits)

lemma fold_keyed:
  assumes "distinct (map fst hs)" "length results = length hs" "set (map fst hs) \<inter> fst ` set m0 = {}" "wf_map m0"
  shows "wf_map (fold (\<lambda>(nh, r) m. mput (fst nh) (branch_result parse r) m) (zip hs results) m0)
    \<and> (\<forall>k. mget (fold (\<lambda>(nh, r) m. mput (fst nh) (branch_result parse r) m) (zip hs results) m0) k
         = (case map_of (zip (map fst hs) results) k of Some r \<Rightarrow> Some (branch_result parse r) | None \<Rightarrow> mget m0 k))"
  using assms
proof (induction hs results arbitrary: m0 rule: list_induct2')
  case (4 nh hs r rs)
  have d: "set (map fst hs) \<inter> fst ` set (mput (fst nh) (branch_result parse r) m0) = {}" using 4 by auto
  have n: "map_of (zip (map fst hs) rs) (fst nh) = None"
    using 4 by (simp add: map_of_zip_is_None)
  from 4 d have "wf_map (mput (fst nh) (branch_result parse r) m0)" by (simp add: wf_map_mput)
  then have IH: "wf_map (fold (\<lambda>(nh, r) m. mput (fst nh) (branch_result parse r) m) (zip hs rs) (mput (fst nh) (branch_result parse r) m0))"
    "mget (fold (\<lambda>(nh, r) m. mput (fst nh) (branch_result parse r) m) (zip hs rs) (mput (fst nh) (branch_result parse r) m0)) k
      = (case map_of (zip (map fst hs) rs) k of Some r \<Rightarrow> Some (branch_result parse r) | None \<Rightarrow> mget (mput (fst nh) (branch_result parse r) m0) k)" for k
    using 4(1) [OF _ _ d] 4(2-) by simp_all
  show ?case
  proof (intro conjI allI)
    show "mget (fold (\<lambda>(nh, r) m. mput (fst nh) (branch_result parse r) m) (zip (nh # hs) (r # rs)) m0) k
      = (case map_of (zip (map fst (nh # hs)) (r # rs)) k of Some r \<Rightarrow> Some (branch_result parse r) | None \<Rightarrow> mget m0 k)" for k
      using n by (cases "k = fst nh") (simp_all add: IH(2) mget_mput cong: option.case_cong)
  qed (use IH(1) in simp)
qed auto

lemma keyed_results_get:
  assumes "distinct (map fst hs)" "length results = length hs" "i < length hs"
  shows "mget (keyed_results parse hs results) (fst (hs ! i)) = Some (branch_result parse (results ! i))"
proof -
  have "map_of (zip (map fst hs) results) (map fst hs ! i) = Some (results ! i)"
    using assms by (intro map_of_zip_nth) auto
  then show ?thesis
    using fold_keyed [of hs results "[]" parse] assms by (simp add: keyed_results_def)
qed

lemma keyed_results_keys:
  assumes "distinct (map fst hs)" "length results = length hs"
  shows "fst ` set (keyed_results parse hs results) = set (map fst hs)" "wf_map (keyed_results parse hs results)"
proof -
  have "mget (keyed_results parse hs results) k = None \<longleftrightarrow> k \<notin> set (map fst hs)" for k
  proof -
    have "mget (keyed_results parse hs results) k = None \<longleftrightarrow> map_of (zip (map fst hs) results) k = None"
      using fold_keyed [of hs results "[]" parse] assms unfolding keyed_results_def
      by (cases "map_of (zip (map fst hs) results) k") (simp_all del: map_of_zip_is_None map_of_eq_None_iff)
    then show ?thesis using assms by (simp add: map_of_zip_is_None)
  qed
  then show "fst ` set (keyed_results parse hs results) = set (map fst hs)" by (auto simp: mget_None_iff)
  show "wf_map (keyed_results parse hs results)"
    using fold_keyed [of hs results "[]" parse] assms by (simp add: keyed_results_def)
qed

text \<open>Branches that leave the shared state alone: what each stores does not depend on when it runs.\<close>

lemma run_branches_stateless:
  assumes "\<And>i st. i < length hs \<Longrightarrow> run_branch quote (hs ! i) c input st = (g i, st)"
    and "set order \<subseteq> {..<length hs}" and "length results = length hs"
  shows "run_branches quote hs c input order results st = (map (\<lambda>i. if i \<in> set order then g i else results ! i) [0..<length hs], st)"
  using assms(2,3)
proof (induction order arbitrary: results)
  case Nil
  have "results = map (\<lambda>i. if i \<in> set [] then g i else results ! i) [0..<length hs]"
    by (rule nth_equalityI) (use Nil in simp_all)
  then show ?case by simp
next
  case (Cons i order)
  then show ?case by (auto simp: assms(1) nth_list_update)
qed

text \<open>For handlers that do not touch the state, a parallel composition gives the same answer in whatever order
  its branches run: it fails exactly when all of them fail, and otherwise the answer has exactly the names
  of the branches as its keys, in order, each with the output or the error of its own branch.\<close>

theorem parallel_answer:
  assumes "Parallel quote parse marshal order hs = Ret p" and "set order = {..<length hs}"
    and "\<forall>i < length hs. \<forall>st. run_branch quote (hs ! i) c input st = (g i, st)"
  shows "p c input st =
      (if \<forall>i < length hs. is_Inl (g i) then (Err (ErrNew ''all parallel branches failed''), st)
       else (Ret (marshal (JObj (map (\<lambda>k. (k, marshal_branch (the (mget (keyed_results parse hs (map g [0..<length hs])) k)))) (sort (map fst hs))))), st))
    \<and> (\<forall>i < length hs. mget (keyed_results parse hs (map g [0..<length hs])) (fst (hs ! i)) = Some (branch_result parse (g i)))"
proof -
  have v: "validateNamedHandlers quote ''Parallel'' 0 [] hs = None" and ne: "hs \<noteq> []"
    and p: "p = (\<lambda>c input st. (case run_branches quote hs c input order (replicate (length hs) (Inr [])) st of (results, st1) \<Rightarrow>
             if length (filter is_Inl results) = length hs then (Err (ErrNew ''all parallel branches failed''), st1)
             else (Ret (marshal (marshal_results (keyed_results parse hs results))), st1)))"
    using assms(1) by (auto simp: Parallel_def split: if_splits option.splits)
  from v have d: "distinct (map fst hs)" by (simp add: validate_ok)
  have r: "run_branches quote hs c input order (replicate (length hs) (Inr [])) st = (map g [0..<length hs], st)"
    using run_branches_stateless [of hs quote c input g order] assms(2,3) by simp
  have l: "length (filter is_Inl (map g [0..<length hs])) = length hs \<longleftrightarrow> (\<forall>i < length hs. is_Inl (g i))"
    using length_filter_less [of _ "map g [0..<length hs]" is_Inl] filter_True [of "map g [0..<length hs]" is_Inl]
    by (force simp: in_set_conv_nth)
  have k: "sort (map fst (keyed_results parse hs (map g [0..<length hs]))) = sort (map fst hs)"
  proof (rule sorted_distinct_set_unique)
    show "distinct (sort (map fst (keyed_results parse hs (map g [0..<length hs]))))"
      using keyed_results_keys(2) [OF d, of "map g [0..<length hs]"] by (simp add: wf_map_def)
    show "set (sort (map fst (keyed_results parse hs (map g [0..<length hs])))) = set (sort (map fst hs))"
      using keyed_results_keys(1) [OF d, of "map g [0..<length hs]"] by simp
  qed (use d in simp_all)
  have "p c input st =
      (if \<forall>i < length hs. is_Inl (g i) then (Err (ErrNew ''all parallel branches failed''), st)
       else (Ret (marshal (JObj (map (\<lambda>k. (k, marshal_branch (the (mget (keyed_results parse hs (map g [0..<length hs])) k)))) (sort (map fst hs))))), st))"
    unfolding p r using l k by (simp add: marshal_results_def)
  moreover have "\<forall>i < length hs. mget (keyed_results parse hs (map g [0..<length hs])) (fst (hs ! i)) = Some (branch_result parse (g i))"
    using keyed_results_get [OF d, of "map g [0..<length hs]"] by simp
  ultimately show ?thesis by (rule conjI)
qed

definition two_branches :: "unit NamedHandler list" where
  "two_branches = [(''b'', Some (\<lambda>c i st. (Ret i, st))), (''a'', Some (\<lambda>c i st. (Panic ''boom'', st)))]"

theorem parallel_answer_witness:
  "\<exists>p. Parallel id (\<lambda>_. None) (\<lambda>v. if v = JObj [(''a'', JObj [(''error'', JStr ''panic in handler a: boom'')]), (''b'', JObj [(''output'', JStr ''x'')])] then ''yes'' else ''no'') [1, 0] two_branches = Ret p
     \<and> fst (p plain_ctx ''x'' \<lparr> hs_holder = None, hs_stream = None, hs_world = () \<rparr>) = Ret ''yes''"
proof -
  let ?m = "\<lambda>v. if v = JObj [(''a'', JObj [(''error'', JStr ''panic in handler a: boom'')]), (''b'', JObj [(''output'', JStr ''x'')])] then ''yes'' else ''no''"
  let ?g = "\<lambda>i::nat. if i = 0 then Inr ''x'' else Inl (ErrNew ''panic in handler a: boom'')"
  have l: "length two_branches = 2" by (simp add: two_branches_def)
  have "validateNamedHandlers id ''Parallel'' 0 [] two_branches = None" by (simp add: two_branches_def)
  then obtain p where p: "Parallel id (\<lambda>_. None) ?m [1, 0] two_branches = Ret p"
    by (simp add: Parallel_def two_branches_def)
  have s: "set [1, 0] = {..<length two_branches}" unfolding l by (auto simp: numeral_2_eq_2)
  have g: "\<forall>i < length two_branches. \<forall>st. run_branch id (two_branches ! i) plain_ctx ''x'' st = (?g i, st)"
    unfolding l by (auto simp: two_branches_def run_branch_def less_Suc_eq numeral_2_eq_2)
  have u: "[0..<length two_branches] = [0, 1]" unfolding l by (simp add: upt_rec)
  have sorted: "sort (map fst two_branches) = [''a'', ''b'']" unfolding two_branches_def by code_simp
  have k: "mget (keyed_results (\<lambda>_. None) two_branches (map ?g [0..<length two_branches])) ''a'' = Some (branch_result (\<lambda>_. None) (?g 1))"
    "mget (keyed_results (\<lambda>_. None) two_branches (map ?g [0..<length two_branches])) ''b'' = Some (branch_result (\<lambda>_. None) (?g 0))"
    unfolding u by (simp_all add: keyed_results_def two_branches_def mget_mput)
  have "\<not> (\<forall>i < length two_branches. is_Inl (?g i))" unfolding l by (auto simp: is_Inl_def)
  with parallel_answer [OF p s g, THEN conjunct1] have "fst (p plain_ctx ''x'' \<lparr> hs_holder = None, hs_stream = None, hs_world = () \<rparr>)
    = Ret (?m (JObj (map (\<lambda>k. (k, marshal_branch (the (mget (keyed_results (\<lambda>_. None) two_branches (map ?g [0..<length two_branches])) k)))) (sort (map fst two_branches)))))"
    by (simp only: if_False fst_conv)
  then show ?thesis
    using p unfolding sorted by (simp add: k marshal_branch_def branch_result_def toJSONValue_def)
qed

end
