(* ===== verification/Aggregator.thy ===== *)
theory Aggregator
  imports Client_Errors Protocol "HOL-Library.Multiset"
begin

text \<open>
  \<open>client/aggregator.go\<close>: one client in front of several servers, which are addressed by qualified names. A
  server is called through its own client, whose answers are arguments, as are clock readings. Maps
  are ranged over in an arbitrary order, and the goroutines of the list operations end in an arbitrary
  one: \<open>shuffle\<close>, an argument of these operations, arranges the healthy servers, and the theorems assume of it only that it
  permutes. \<open>quote\<close> formats with \<open>%q\<close>.
\<close>

section \<open>State\<close>

definition ErrServerNotFound :: goerr where "ErrServerNotFound = Sentinel ''aggregator: server not found''"
definition ErrServerExists :: goerr where "ErrServerExists = Sentinel ''aggregator: server already registered''"
definition ErrToolNotFound :: goerr where "ErrToolNotFound = Sentinel ''aggregator: tool not found on any server''"
definition ErrToolAmbiguous :: goerr where
  "ErrToolAmbiguous = Sentinel (''aggregator: tool name matches multiple servers; use qualified 'serverID.toolName'' @ [CHR 0x27])"
definition ErrPromptNotFound :: goerr where "ErrPromptNotFound = Sentinel ''aggregator: prompt not found on any server''"
definition ErrPromptAmbiguous :: goerr where
  "ErrPromptAmbiguous = Sentinel (''aggregator: prompt name matches multiple servers; use qualified 'serverID.promptName'' @ [CHR 0x27])"
definition ErrNoHealthyServers :: goerr where "ErrNoHealthyServers = Sentinel ''aggregator: no healthy servers available''"

text \<open>An error of the package, an error of a server's client under a prefix, or several of them.\<close>

datatype agg_err = AErr goerr | AServer string client_err | AJoined "agg_err list"

definition defaultCacheTTL :: int where "defaultCacheTTL = 30 * 10 ^ 9"

record AggregatorOptions =
  ao_ToolCacheTTL :: int
  ao_ResourceCacheTTL :: int
  ao_PromptCacheTTL :: int

definition toolCacheTTL :: "AggregatorOptions \<Rightarrow> int" where
  "toolCacheTTL opts = (if ao_ToolCacheTTL opts > 0 then ao_ToolCacheTTL opts else defaultCacheTTL)"

definition resourceCacheTTL :: "AggregatorOptions \<Rightarrow> int" where
  "resourceCacheTTL opts = (if ao_ResourceCacheTTL opts > 0 then ao_ResourceCacheTTL opts else defaultCacheTTL)"

definition promptCacheTTL :: "AggregatorOptions \<Rightarrow> int" where
  "promptCacheTTL opts = (if ao_PromptCacheTTL opts > 0 then ao_PromptCacheTTL opts else defaultCacheTTL)"

text \<open>A cached list, nil before the first fetch, with the time it was stored.\<close>

type_synonym 'a cached = "'a list option \<times> int"

record aggServer =
  ag_id :: string
  ag_healthy :: bool
  ag_tools :: "ToolInfo cached"
  ag_resources :: "ResourceInfo cached"
  ag_prompts :: "PromptInfo cached"

record Aggregator =
  agg_opts :: AggregatorOptions
  agg_servers :: "(string, aggServer) gomap"

definition NewAggregator :: "AggregatorOptions \<Rightarrow> Aggregator" where
  "NewAggregator opts = \<lparr> agg_opts = opts, agg_servers = [] \<rparr>"

section \<open>Cached lists\<close>

text \<open>The part that the three methods share: the answer of the server is used when there is no list or it is stale. The
  request has no cursor. \<open>t0\<close> is read before and \<open>t1\<close> after the request.\<close>

definition get_cached :: "int \<Rightarrow> int \<Rightarrow> int \<Rightarrow> client_err + 'a list option \<Rightarrow> 'a cached \<Rightarrow> (client_err + 'a list option) \<times> 'a cached" where
  "get_cached ttl t0 t1 answer cache =
     (if fst cache \<noteq> None \<and> t0 - snd cache < ttl then (Inr (fst cache), cache)
      else case answer of Inl e \<Rightarrow> (Inl e, cache) | Inr xs \<Rightarrow> (Inr xs, (xs, t1)))"

definition unhealthy :: "'x + 'y \<Rightarrow> aggServer \<Rightarrow> aggServer" where
  "unhealthy r s = (case r of Inl _ \<Rightarrow> s \<lparr> ag_healthy := False \<rparr> | Inr _ \<Rightarrow> s)"

definition getTools :: "int \<Rightarrow> int \<Rightarrow> int \<Rightarrow> client_err + ToolInfo list option \<Rightarrow> aggServer \<Rightarrow> (client_err + ToolInfo list option) \<times> aggServer" where
  "getTools ttl t0 t1 answer s =
     (case get_cached ttl t0 t1 answer (ag_tools s) of (r, c) \<Rightarrow> (r, unhealthy r (s \<lparr> ag_tools := c \<rparr>)))"

definition invalidateTools :: "aggServer \<Rightarrow> aggServer" where
  "invalidateTools s = s \<lparr> ag_tools := (None, snd (ag_tools s)) \<rparr>"

definition getResources :: "int \<Rightarrow> int \<Rightarrow> int \<Rightarrow> client_err + ResourceInfo list option \<Rightarrow> aggServer \<Rightarrow> (client_err + ResourceInfo list option) \<times> aggServer" where
  "getResources ttl t0 t1 answer s =
     (case get_cached ttl t0 t1 answer (ag_resources s) of (r, c) \<Rightarrow> (r, unhealthy r (s \<lparr> ag_resources := c \<rparr>)))"

definition getPrompts :: "int \<Rightarrow> int \<Rightarrow> int \<Rightarrow> client_err + PromptInfo list option \<Rightarrow> aggServer \<Rightarrow> (client_err + PromptInfo list option) \<times> aggServer" where
  "getPrompts ttl t0 t1 answer s =
     (case get_cached ttl t0 t1 answer (ag_prompts s) of (r, c) \<Rightarrow> (r, unhealthy r (s \<lparr> ag_prompts := c \<rparr>)))"

section \<open>Servers\<close>

text \<open>\<open>AddServer\<close> looks at the table twice, before and after the client is made and initialized: \<open>a0\<close> is the
  aggregator at the first look. The second component tells whether the new client is closed again.\<close>

definition AddServer ::
  "(string \<Rightarrow> string) \<Rightarrow> string \<Rightarrow> goerr option \<Rightarrow> client_err option \<Rightarrow> Aggregator \<Rightarrow> Aggregator \<Rightarrow> agg_err option \<times> bool \<times> Aggregator" where
  "AddServer quote i newErr initErr a0 a =
     (if i = [] then (Some (AErr (ErrNew ''aggregator: server id must not be empty'')), False, a)
      else if CHR ''.'' \<in> set i then (Some (AErr (ErrNew (''aggregator: server id '' @ quote i @ '' must not contain '.'' @ [CHR 0x27]))), False, a)
      else if mget (agg_servers a0) i \<noteq> None then (Some (AErr (Wrapped (Error ErrServerExists @ '': '' @ i) ErrServerExists)), False, a)
      else case newErr of
        Some e \<Rightarrow> (Some (AErr (Wrapped (''aggregator: create client for '' @ quote i @ '': '' @ Error e) e)), False, a)
      | None \<Rightarrow>
          (case initErr of
             Some e \<Rightarrow> (Some (AServer (''aggregator: initialize '' @ quote i @ '': '') e), True, a)
           | None \<Rightarrow>
               if mget (agg_servers a) i \<noteq> None then (Some (AErr (Wrapped (Error ErrServerExists @ '': '' @ i) ErrServerExists)), True, a)
               else (None, False, a \<lparr> agg_servers := mput i \<lparr> ag_id = i, ag_healthy = True, ag_tools = (None, 0),
                       ag_resources = (None, 0), ag_prompts = (None, 0) \<rparr> (agg_servers a) \<rparr>)))"

definition RemoveServer :: "string \<Rightarrow> client_err option \<Rightarrow> Aggregator \<Rightarrow> agg_err option \<times> Aggregator" where
  "RemoveServer i closeErr a =
     (if mget (agg_servers a) i = None then (Some (AErr (Wrapped (Error ErrServerNotFound @ '': '' @ i) ErrServerNotFound)), a)
      else (map_option (AServer []) closeErr, a \<lparr> agg_servers := mdel i (agg_servers a) \<rparr>))"

definition Agg_Close :: "(string \<Rightarrow> string) \<Rightarrow> (string \<Rightarrow> client_err option) \<Rightarrow> Aggregator \<Rightarrow> agg_err option \<times> Aggregator" where
  "Agg_Close quote closeErr a =
     (let errs = concat (map (\<lambda>i. case closeErr i of None \<Rightarrow> [] | Some e \<Rightarrow> [AServer (''aggregator: close '' @ quote i @ '': '') e]) (map fst (agg_servers a)))
      in (if errs = [] then None else Some (AJoined errs), a \<lparr> agg_servers := [] \<rparr>))"

text \<open>The pings of \<open>HealthCheck\<close> change one server each.\<close>

definition HealthCheck :: "(string \<Rightarrow> client_err option) \<Rightarrow> Aggregator \<Rightarrow> agg_err option \<times> Aggregator" where
  "HealthCheck ping a =
     (let servers = map (\<lambda>(i, s). (i, s \<lparr> ag_healthy := ping i = None \<rparr>)) (agg_servers a)
      in if agg_servers a = [] then (Some (AErr ErrNoHealthyServers), a)
         else (if list_all (\<lambda>(i, s). \<not> ag_healthy s) servers then Some (AErr ErrNoHealthyServers) else None, a \<lparr> agg_servers := servers \<rparr>))"

definition ServerIDs :: "Aggregator \<Rightarrow> string list" where
  "ServerIDs a = map fst (agg_servers a)"

definition IsHealthy :: "string \<Rightarrow> Aggregator \<Rightarrow> bool" where
  "IsHealthy i a = (case mget (agg_servers a) i of None \<Rightarrow> False | Some s \<Rightarrow> ag_healthy s)"

definition healthy_ids :: "Aggregator \<Rightarrow> string list" where
  "healthy_ids a = map fst (filter (\<lambda>(i, s). ag_healthy s) (agg_servers a))"

section \<open>Lists\<close>

text \<open>Asking the servers in some order; each call changes the server it asks.\<close>

fun visit :: "(string \<Rightarrow> aggServer \<Rightarrow> 'r \<times> aggServer) \<Rightarrow> string list \<Rightarrow> Aggregator \<Rightarrow> (string \<times> 'r) list \<times> Aggregator" where
  "visit f [] a = ([], a)"
| "visit f (i # is) a =
     (case mget (agg_servers a) i of
        None \<Rightarrow> visit f is a
      | Some s \<Rightarrow>
          (case f i s of (r, s') \<Rightarrow>
             (case visit f is (a \<lparr> agg_servers := mput i s' (agg_servers a) \<rparr>) of (rs, a') \<Rightarrow> ((i, r) # rs, a'))))"

definition items :: "'e + 'a list option \<Rightarrow> 'a list" where
  "items r = (case r of Inr (Some xs) \<Rightarrow> xs | _ \<Rightarrow> [])"

definition qualifyTool :: "string \<Rightarrow> ToolInfo \<Rightarrow> ToolInfo" where
  "qualifyTool i t = t \<lparr> tinfo_Name := i @ ''.'' @ tinfo_Name t \<rparr>"

definition Agg_ListTools ::
  "(string \<Rightarrow> string) \<Rightarrow> int \<Rightarrow> int \<Rightarrow> (string \<Rightarrow> client_err + ToolInfo list option) \<Rightarrow> (string list \<Rightarrow> string list) \<Rightarrow> Aggregator \<Rightarrow> (agg_err + ToolInfo list) \<times> Aggregator" where
  "Agg_ListTools quote t0 t1 answer shuffle a =
     (if healthy_ids a = [] then (Inl (AErr ErrNoHealthyServers), a)
      else case visit (\<lambda>i. getTools (toolCacheTTL (agg_opts a)) t0 t1 (answer i)) (shuffle (healthy_ids a)) a of (rs, a') \<Rightarrow>
        let tools = concat (map (\<lambda>(i, r). map (qualifyTool i) (items r)) rs);
            werrs = concat (map (\<lambda>(i, r). case r of Inl e \<Rightarrow> [AServer (''server '' @ quote i @ '': '') e] | Inr _ \<Rightarrow> []) rs)
        in (if tools = [] \<and> werrs \<noteq> [] then Inl (AJoined werrs) else Inr tools, a'))"

definition Agg_ListResources ::
  "int \<Rightarrow> int \<Rightarrow> (string \<Rightarrow> client_err + ResourceInfo list option) \<Rightarrow> (string list \<Rightarrow> string list) \<Rightarrow> Aggregator \<Rightarrow> (agg_err + ResourceInfo list) \<times> Aggregator" where
  "Agg_ListResources t0 t1 answer shuffle a =
     (if healthy_ids a = [] then (Inl (AErr ErrNoHealthyServers), a)
      else case visit (\<lambda>i. getResources (resourceCacheTTL (agg_opts a)) t0 t1 (answer i)) (shuffle (healthy_ids a)) a of (rs, a') \<Rightarrow>
        (Inr (concat (map (\<lambda>(i, r). items r) rs)), a'))"

definition qualifyPrompt :: "string \<Rightarrow> PromptInfo \<Rightarrow> PromptInfo" where
  "qualifyPrompt i p = p \<lparr> pinfo_Name := i @ ''.'' @ pinfo_Name p \<rparr>"

definition Agg_ListPrompts ::
  "int \<Rightarrow> int \<Rightarrow> (string \<Rightarrow> client_err + PromptInfo list option) \<Rightarrow> (string list \<Rightarrow> string list) \<Rightarrow> Aggregator \<Rightarrow> (agg_err + PromptInfo list) \<times> Aggregator" where
  "Agg_ListPrompts t0 t1 answer shuffle a =
     (if healthy_ids a = [] then (Inl (AErr ErrNoHealthyServers), a)
      else case visit (\<lambda>i. getPrompts (promptCacheTTL (agg_opts a)) t0 t1 (answer i)) (shuffle (healthy_ids a)) a of (rs, a') \<Rightarrow>
        (Inr (concat (map (\<lambda>(i, r). map (qualifyPrompt i) (items r)) rs)), a'))"

definition InvalidateToolCache :: "string \<Rightarrow> Aggregator \<Rightarrow> Aggregator" where
  "InvalidateToolCache i a =
     a \<lparr> agg_servers := (if i = [] then map (\<lambda>(k, s). (k, invalidateTools s)) (agg_servers a)
         else case mget (agg_servers a) i of None \<Rightarrow> agg_servers a | Some s \<Rightarrow> mput i (invalidateTools s) (agg_servers a)) \<rparr>"

section \<open>Paths\<close>

definition split_path :: "string \<Rightarrow> string \<times> string" where
  "split_path path = (let i = takeWhile (\<lambda>ch. ch \<noteq> CHR ''.'') path in (i, drop (length i + 1) path))"

fun comma_joined :: "string list \<Rightarrow> string" where
  "comma_joined [] = []"
| "comma_joined [x] = x"
| "comma_joined (x # xs) = x @ '', '' @ comma_joined xs"

text \<open>The end of both methods: the servers that have the item, in the order in which they were asked.\<close>

definition pick :: "goerr \<Rightarrow> goerr \<Rightarrow> string \<Rightarrow> string list \<Rightarrow> agg_err + string \<times> string" where
  "pick notFound ambiguous path hits =
     (case hits of
        [] \<Rightarrow> Inl (AErr (Wrapped (Error notFound @ '': '' @ path) notFound))
      | [i] \<Rightarrow> Inr (i, path)
      | _ \<Rightarrow> Inl (AErr (Wrapped (Error ambiguous @ '': '' @ path @ '' (found on: '' @ comma_joined hits @ '')'') ambiguous)))"

definition resolveToolPath ::
  "(string \<Rightarrow> string) \<Rightarrow> int \<Rightarrow> int \<Rightarrow> (string \<Rightarrow> client_err + ToolInfo list option) \<Rightarrow> (string list \<Rightarrow> string list) \<Rightarrow> string \<Rightarrow> Aggregator
   \<Rightarrow> (agg_err + string \<times> string) \<times> Aggregator" where
  "resolveToolPath quote t0 t1 answer shuffle toolPath a =
     (if CHR ''.'' \<in> set toolPath
      then (case split_path toolPath of (serverID, toolName) \<Rightarrow>
              (if serverID = [] \<or> toolName = [] then Inl (AErr (ErrNew (''aggregator: malformed tool path '' @ quote toolPath)))
               else Inr (serverID, toolName), a))
      else (case visit (\<lambda>i. getTools (toolCacheTTL (agg_opts a)) t0 t1 (answer i)) (shuffle (healthy_ids a)) a of (rs, a') \<Rightarrow>
              (pick ErrToolNotFound ErrToolAmbiguous toolPath
                 (map fst (filter (\<lambda>(i, r). \<exists>t \<in> set (items r). tinfo_Name t = toolPath) rs)), a')))"

definition resolvePromptPath ::
  "(string \<Rightarrow> string) \<Rightarrow> int \<Rightarrow> int \<Rightarrow> (string \<Rightarrow> client_err + PromptInfo list option) \<Rightarrow> (string list \<Rightarrow> string list) \<Rightarrow> string \<Rightarrow> Aggregator
   \<Rightarrow> (agg_err + string \<times> string) \<times> Aggregator" where
  "resolvePromptPath quote t0 t1 answer shuffle promptPath a =
     (if CHR ''.'' \<in> set promptPath
      then (case split_path promptPath of (serverID, promptName) \<Rightarrow>
              (if serverID = [] \<or> promptName = [] then Inl (AErr (ErrNew (''aggregator: malformed prompt path '' @ quote promptPath)))
               else Inr (serverID, promptName), a))
      else (case visit (\<lambda>i. getPrompts (promptCacheTTL (agg_opts a)) t0 t1 (answer i)) (shuffle (healthy_ids a)) a of (rs, a') \<Rightarrow>
              (pick ErrPromptNotFound ErrPromptAmbiguous promptPath
                 (map fst (filter (\<lambda>(i, r). \<exists>p \<in> set (items r). pinfo_Name p = promptPath) rs)), a')))"

section \<open>Requests to one server\<close>

text \<open>What the three methods share after the server is known: any error of its client, also one that the server
  returned, marks it as not healthy.\<close>

definition ask_server ::
  "(string \<Rightarrow> string) \<Rightarrow> (string \<Rightarrow> client_err + 'r) \<Rightarrow> string \<Rightarrow> Aggregator \<Rightarrow> (agg_err + 'r) \<times> Aggregator" where
  "ask_server quote request serverID a =
     (case mget (agg_servers a) serverID of
        None \<Rightarrow> (Inl (AErr (Wrapped (Error ErrServerNotFound @ '': '' @ serverID) ErrServerNotFound)), a)
      | Some s \<Rightarrow>
          if \<not> ag_healthy s then (Inl (AErr (ErrNew (''aggregator: server '' @ quote serverID @ '' is not healthy''))), a)
          else (case request serverID of
                  Inl e \<Rightarrow> (Inl (AServer (''aggregator: server '' @ quote serverID @ '': '') e),
                     a \<lparr> agg_servers := mput serverID (s \<lparr> ag_healthy := False \<rparr>) (agg_servers a) \<rparr>)
                | Inr r \<Rightarrow> (Inr r, a)))"

definition Agg_CallTool ::
  "(string \<Rightarrow> string) \<Rightarrow> int \<Rightarrow> int \<Rightarrow> (string \<Rightarrow> client_err + ToolInfo list option) \<Rightarrow> (string list \<Rightarrow> string list)
   \<Rightarrow> (string \<Rightarrow> CallToolParams \<Rightarrow> client_err + CallToolResult) \<Rightarrow> string \<Rightarrow> CallToolParams \<Rightarrow> Aggregator \<Rightarrow> (agg_err + CallToolResult) \<times> Aggregator" where
  "Agg_CallTool quote t0 t1 answer shuffle callTool toolPath params a =
     (case resolveToolPath quote t0 t1 answer shuffle toolPath a of
        (Inl e, a1) \<Rightarrow> (Inl e, a1)
      | (Inr (serverID, toolName), a1) \<Rightarrow>
          ask_server quote (\<lambda>i. callTool i (params \<lparr> ctp_Name := toolName \<rparr>)) serverID a1)"

definition Agg_ReadResource ::
  "(string \<Rightarrow> string) \<Rightarrow> (string \<Rightarrow> string \<Rightarrow> client_err + ReadResourceResult) \<Rightarrow> string \<Rightarrow> string \<Rightarrow> Aggregator \<Rightarrow> (agg_err + ReadResourceResult) \<times> Aggregator" where
  "Agg_ReadResource quote readResource serverID uri a = ask_server quote (\<lambda>i. readResource i uri) serverID a"

definition Agg_GetPrompt ::
  "(string \<Rightarrow> string) \<Rightarrow> int \<Rightarrow> int \<Rightarrow> (string \<Rightarrow> client_err + PromptInfo list option) \<Rightarrow> (string list \<Rightarrow> string list)
   \<Rightarrow> (string \<Rightarrow> string \<times> (string, string) gomap \<Rightarrow> client_err + GetPromptResult) \<Rightarrow> string \<Rightarrow> string \<times> (string, string) gomap \<Rightarrow> Aggregator
   \<Rightarrow> (agg_err + GetPromptResult) \<times> Aggregator" where
  "Agg_GetPrompt quote t0 t1 answer shuffle getPrompt promptPath params a =
     (case resolvePromptPath quote t0 t1 answer shuffle promptPath a of
        (Inl e, a1) \<Rightarrow> (Inl e, a1)
      | (Inr (serverID, promptName), a1) \<Rightarrow> ask_server quote (\<lambda>i. getPrompt i (promptName, snd params)) serverID a1)"

section \<open>Well-formed aggregators\<close>

definition wf_agg :: "Aggregator \<Rightarrow> bool" where
  "wf_agg a \<longleftrightarrow> wf_map (agg_servers a) \<and> (\<forall>(i, s) \<in> set (agg_servers a). ag_id s = i \<and> i \<noteq> [] \<and> CHR ''.'' \<notin> set i)"

lemma wf_agg_put: "wf_agg a \<Longrightarrow> i \<noteq> [] \<Longrightarrow> CHR ''.'' \<notin> set i \<Longrightarrow> ag_id s = i \<Longrightarrow> wf_agg (a \<lparr> agg_servers := mput i s (agg_servers a) \<rparr>)"
  by (auto simp: wf_agg_def wf_map_mput dest: set_mputD)

lemma wf_agg_get: "wf_agg a \<Longrightarrow> mget (agg_servers a) i = Some s \<Longrightarrow> ag_id s = i \<and> i \<noteq> [] \<and> CHR ''.'' \<notin> set i"
  by (auto simp: wf_agg_def dest!: mget_SomeD)

lemma wf_visit:
  assumes "\<And>i s. ag_id (snd (f i s)) = ag_id s" "wf_agg a"
  shows "wf_agg (snd (visit f order a)) \<and> (\<forall>(i, r) \<in> set (fst (visit f order a)). i \<noteq> [] \<and> CHR ''.'' \<notin> set i)"
  using assms(2)
proof (induction order arbitrary: a)
  case (Cons i order)
  show ?case
  proof (cases "mget (agg_servers a) i")
    case None
    with Cons show ?thesis by simp
  next
    case (Some s)
    obtain r s' where f: "f i s = (r, s')" by force
    from wf_agg_get [OF Cons.prems Some] assms(1) [of i s] f have "wf_agg (a \<lparr> agg_servers := mput i s' (agg_servers a) \<rparr>)"
      by (intro wf_agg_put [OF Cons.prems]) auto
    from Cons.IH [OF this] Some f wf_agg_get [OF Cons.prems Some] show ?thesis by (auto split: prod.splits)
  qed
qed simp

lemma get_ids:
  "ag_id (snd (getTools ttl t0 t1 x s)) = ag_id s" "ag_id (snd (getResources ttl t0 t1 y s)) = ag_id s"
  "ag_id (snd (getPrompts ttl t0 t1 z s)) = ag_id s"
  by (auto simp: getTools_def getResources_def getPrompts_def unhealthy_def split: prod.splits sum.splits)

lemma wf_agg_ops:
  assumes "wf_agg a"
  shows "wf_agg (snd (snd (AddServer quote i newErr initErr a0 a)))" "wf_agg (snd (RemoveServer i closeErr a))"
    "wf_agg (snd (Agg_Close quote cl a))" "wf_agg (snd (HealthCheck ping a))" "wf_agg (InvalidateToolCache i a)"
    "wf_agg (snd (ask_server quote request i a))"
proof -
  show "wf_agg (snd (snd (AddServer quote i newErr initErr a0 a)))"
    using assms by (auto simp: AddServer_def intro!: wf_agg_put split: option.splits)
  show "wf_agg (snd (RemoveServer i closeErr a))" "wf_agg (snd (Agg_Close quote cl a))"
    using assms by (auto simp: RemoveServer_def Agg_Close_def wf_agg_def wf_map_mdel set_mdel Let_def)
  show "wf_agg (snd (HealthCheck ping a))"
    using assms by (auto simp: HealthCheck_def wf_agg_def wf_map_def Let_def comp_def case_prod_unfold)
  have "wf_agg (a \<lparr> agg_servers := map (\<lambda>(k, s). (k, invalidateTools s)) (agg_servers a) \<rparr>)"
    using assms by (auto simp: wf_agg_def wf_map_def comp_def case_prod_unfold invalidateTools_def)
  then show "wf_agg (InvalidateToolCache i a)"
    using assms wf_agg_get [OF assms, of i] by (auto simp: InvalidateToolCache_def invalidateTools_def intro!: wf_agg_put split: option.splits)
  show "wf_agg (snd (ask_server quote request i a))"
    using assms wf_agg_get [OF assms, of i] by (auto simp: ask_server_def intro!: wf_agg_put split: option.splits sum.splits)
qed

section \<open>Names lead back to their servers\<close>

lemma visit_distinct:
  "distinct order \<Longrightarrow>
   fst (visit f order a) = map (\<lambda>i. (i, fst (f i (the (mget (agg_servers a) i))))) (filter (\<lambda>i. mget (agg_servers a) i \<noteq> None) order)"
proof (induction order arbitrary: a)
  case (Cons i order)
  show ?case
  proof (cases "mget (agg_servers a) i")
    case (Some s)
    obtain r s' where f: "f i s = (r, s')" by force
    let ?a = "a \<lparr> agg_servers := mput i s' (agg_servers a) \<rparr>"
    have same: "mget (agg_servers ?a) j = mget (agg_servers a) j" if "j \<in> set order" for j
      using Cons.prems that by (auto simp: mget_mput)
    have "fst (visit f order ?a) = map (\<lambda>i. (i, fst (f i (the (mget (agg_servers a) i))))) (filter (\<lambda>i. mget (agg_servers a) i \<noteq> None) order)"
      unfolding Cons.IH [OF distinct_tl [OF Cons.prems, simplified]] using same
      by (intro map_cong filter_cong) auto
    with Some f show ?thesis by (simp add: case_prod_unfold)
  qed (use Cons in simp)
qed simp

text \<open>The list that a server contributes.\<close>

definition tools_of :: "int \<Rightarrow> int \<Rightarrow> (string \<Rightarrow> client_err + ToolInfo list option) \<Rightarrow> Aggregator \<Rightarrow> string \<Rightarrow> ToolInfo list" where
  "tools_of t0 t1 answer a i =
     (case mget (agg_servers a) i of None \<Rightarrow> []
      | Some s \<Rightarrow> items (fst (getTools (toolCacheTTL (agg_opts a)) t0 t1 (answer i) s)))"

lemma split_qualified: "CHR ''.'' \<notin> set i \<Longrightarrow> split_path (i @ ''.'' @ n) = (i, n)"
proof -
  assume "CHR ''.'' \<notin> set i"
  then have "takeWhile (\<lambda>ch. ch \<noteq> CHR ''.'') (i @ ''.'' @ n) = i" by (subst takeWhile_append2) auto
  then show ?thesis by (simp add: split_path_def Let_def)
qed

lemma resolve_qualified:
  "i \<noteq> [] \<Longrightarrow> CHR ''.'' \<notin> set i \<Longrightarrow> n \<noteq> [] \<Longrightarrow> resolveToolPath quote t0 t1 answer shuffle (i @ ''.'' @ n) a = (Inr (i, n), a)"
  unfolding resolveToolPath_def split_qualified by simp

lemma visited_tools:
  assumes "distinct order"
  shows "concat (map (\<lambda>(i, r). map (qualifyTool i) (items r)) (fst (visit (\<lambda>i. getTools (toolCacheTTL (agg_opts a)) t0 t1 (answer i)) order a)))
    = concat (map (\<lambda>i. map (qualifyTool i) (tools_of t0 t1 answer a i)) order)"
  unfolding visit_distinct [OF assms] by (induction order) (auto simp: tools_of_def)

text \<open>The servers that the list operations ask.\<close>

lemma healthy_set: "wf_agg a \<Longrightarrow> set (healthy_ids a) = {i. IsHealthy i a}"
proof -
  assume "wf_agg a"
  then have m: "mget (agg_servers a) i = Some s \<longleftrightarrow> (i, s) \<in> set (agg_servers a)" for i s
    by (simp add: wf_agg_def mget_Some_iff)
  have "i \<in> set (healthy_ids a) \<longleftrightarrow> (\<exists>s. mget (agg_servers a) i = Some s \<and> ag_healthy s)" for i
    unfolding m by (auto simp: healthy_ids_def image_iff)
  then show ?thesis by (auto simp: IsHealthy_def split: option.splits)
qed

lemma healthy_distinct: "wf_agg a \<Longrightarrow> distinct (healthy_ids a)"
  by (auto simp: healthy_ids_def wf_agg_def wf_map_def distinct_map intro: distinct_filter inj_on_subset)

lemma shuffled:
  assumes "\<forall>xs. mset (shuffle xs) = mset xs" "wf_agg a"
  shows "distinct (shuffle (healthy_ids a))" "set (shuffle (healthy_ids a)) = {i. IsHealthy i a}"
  using assms healthy_distinct healthy_set by (metis mset_eq_imp_distinct_iff, metis mset_eq_setD)

lemma mset_concat_distinct: "distinct xs \<Longrightarrow> mset (concat (map f xs)) = (\<Sum>x \<in> set xs. mset (f x))"
  by (induction xs) auto

text \<open>C35: The merged list consists, in some order, of the lists of exactly the servers that are healthy, each tool once and
  under its qualified name; and calling a tool by the name that the
  list shows sends the call to the server that has the tool, with the tool's own name, also when that
  name contains a dot.\<close>

theorem listed_tools_route_back:
  assumes "wf_agg a" and "\<forall>xs. mset (shuffle xs) = mset xs" and "Agg_ListTools quote t0 t1 answer shuffle a = (Inr tools, a')"
  shows "mset tools = (\<Sum>i \<in> {i. IsHealthy i a}. mset (map (qualifyTool i) (tools_of t0 t1 answer a i)))
    \<and> (\<forall>i x. x \<in> set (tools_of t0 t1 answer a i) \<and> tinfo_Name x \<noteq> [] \<longrightarrow>
      Agg_CallTool quote t2 t3 answer' shuffle' callTool (tinfo_Name (qualifyTool i x)) params b
        = ask_server quote (\<lambda>j. callTool j (params \<lparr> ctp_Name := tinfo_Name x \<rparr>)) i b)"
proof (rule conjI)
  note sh = shuffled [OF assms(2,1)]
  have "tools = concat (map (\<lambda>i. map (qualifyTool i) (tools_of t0 t1 answer a i)) (shuffle (healthy_ids a)))"
    using assms(3) visited_tools [OF sh(1), of a t0 t1 answer]
    by (auto simp: Agg_ListTools_def Let_def split: prod.splits if_splits)
  then show "mset tools = (\<Sum>i \<in> {i. IsHealthy i a}. mset (map (qualifyTool i) (tools_of t0 t1 answer a i)))"
    by (simp only: mset_concat_distinct [OF sh(1)] sh(2))
  show "\<forall>i x. x \<in> set (tools_of t0 t1 answer a i) \<and> tinfo_Name x \<noteq> [] \<longrightarrow>
      Agg_CallTool quote t2 t3 answer' shuffle' callTool (tinfo_Name (qualifyTool i x)) params b
        = ask_server quote (\<lambda>j. callTool j (params \<lparr> ctp_Name := tinfo_Name x \<rparr>)) i b"
  proof (intro allI impI, elim conjE)
    fix i x assume x: "x \<in> set (tools_of t0 t1 answer a i)" "tinfo_Name x \<noteq> []"
    then obtain s where "mget (agg_servers a) i = Some s" by (cases "mget (agg_servers a) i") (auto simp: tools_of_def)
    with wf_agg_get [OF assms(1)] have "i \<noteq> []" "CHR ''.'' \<notin> set i" by auto
    from resolve_qualified [OF this x(2)] show "Agg_CallTool quote t2 t3 answer' shuffle' callTool (tinfo_Name (qualifyTool i x)) params b
        = ask_server quote (\<lambda>j. callTool j (params \<lparr> ctp_Name := tinfo_Name x \<rparr>)) i b"
      by (simp add: Agg_CallTool_def qualifyTool_def)
  qed
qed

lemma distinct_singleton: "distinct xs \<Longrightarrow> xs = [x] \<longleftrightarrow> set xs = {x}"
  by (cases xs; cases "tl xs") auto

lemma hits_of:
  "map fst (filter (\<lambda>(i, r). \<exists>t \<in> set (items r). tinfo_Name t = path)
     (map (\<lambda>i. (i, fst (getTools (toolCacheTTL (agg_opts a)) t0 t1 (answer i) (the (mget (agg_servers a) i)))))
       (filter (\<lambda>i. mget (agg_servers a) i \<noteq> None) order)))
   = filter (\<lambda>j. \<exists>t \<in> set (tools_of t0 t1 answer a j). tinfo_Name t = path) order"
  by (induction order) (auto simp: tools_of_def)

text \<open>A name without a dot is resolved exactly when one healthy server alone has a tool of that name.\<close>

theorem bare_name_resolves:
  assumes "\<forall>xs. mset (shuffle xs) = mset xs" and "wf_agg a" and "CHR ''.'' \<notin> set path"
  shows "fst (resolveToolPath quote t0 t1 answer shuffle path a) = Inr (i, n) \<longleftrightarrow>
    n = path \<and> {j. IsHealthy j a \<and> (\<exists>t \<in> set (tools_of t0 t1 answer a j). tinfo_Name t = path)} = {i}"
proof -
  let ?f = "\<lambda>i. getTools (toolCacheTTL (agg_opts a)) t0 t1 (answer i)" and ?order = "shuffle (healthy_ids a)"
  let ?hits = "map fst (filter (\<lambda>(i, r). \<exists>t \<in> set (items r). tinfo_Name t = path) (fst (visit ?f ?order a)))"
  note sh = shuffled [OF assms(1,2)]
  have h: "?hits = filter (\<lambda>j. \<exists>t \<in> set (tools_of t0 t1 answer a j). tinfo_Name t = path) ?order"
    unfolding visit_distinct [OF sh(1)] using hits_of by blast
  have "fst (resolveToolPath quote t0 t1 answer shuffle path a) = pick ErrToolNotFound ErrToolAmbiguous path ?hits"
    using assms(3) by (simp add: resolveToolPath_def case_prod_unfold)
  also have "\<dots> = Inr (i, n) \<longleftrightarrow> n = path \<and> ?hits = [i]" by (auto simp: pick_def split: list.splits)
  also have "?hits = [i] \<longleftrightarrow> {j. IsHealthy j a \<and> (\<exists>t \<in> set (tools_of t0 t1 answer a j). tinfo_Name t = path)} = {i}"
    unfolding h using sh by (simp add: distinct_singleton)
  finally show ?thesis .
qed

section \<open>Health\<close>

text \<open>Any error that a server returns, for instance for wrong arguments of one caller, makes the aggregator refuse
  every further request to that server without sending it, until a health check.\<close>

lemma error_disables_server:
  assumes "IsHealthy i a" "request i = Inl e"
  shows "\<exists>a'. ask_server quote request i a = (Inl (AServer (''aggregator: server '' @ quote i @ '': '') e), a')
    \<and> \<not> IsHealthy i a' \<and> (\<forall>request'. ask_server quote request' i a' = (Inl (AErr (ErrNew (''aggregator: server '' @ quote i @ '' is not healthy''))), a'))"
  using assms by (auto simp: ask_server_def IsHealthy_def mget_mput split: option.splits)

lemma health_check_decides:
  assumes "mget (agg_servers a) i \<noteq> None"
  shows "IsHealthy i (snd (HealthCheck ping a)) \<longleftrightarrow> ping i = None"
proof -
  have upd: "mget (map (\<lambda>(i, s). (i, s \<lparr> ag_healthy := ping i = None \<rparr>)) m) i = map_option (\<lambda>s. s \<lparr> ag_healthy := ping i = None \<rparr>) (mget m i)" for m
    by (induction m) (auto simp: mget_def)
  from assms obtain s where s: "mget (agg_servers a) i = Some s" by auto
  then have ne: "agg_servers a \<noteq> []" by auto
  have "snd (HealthCheck ping a) = a \<lparr> agg_servers := map (\<lambda>(i, s). (i, s \<lparr> ag_healthy := ping i = None \<rparr>)) (agg_servers a) \<rparr>"
    using ne by (simp add: HealthCheck_def Let_def)
  then show ?thesis by (simp add: IsHealthy_def upd s)
qed

text \<open>A list that the cache serves was stored less than its lifetime ago.\<close>

lemma cached_list_is_fresh:
  "fst (get_cached ttl t0 t1 answer cache) = Inr xs \<Longrightarrow> answer = Inr xs \<or> xs = fst cache \<and> t0 - snd cache < ttl"
  by (auto simp: get_cached_def split: if_splits sum.splits)

text \<open>Resources are listed under the identifiers that their servers give them.\<close>

lemma resources_are_not_qualified:
  "fst (Agg_ListResources t0 t1 answer shuffle a) = Inr rs \<Longrightarrow>
   rs = concat (map (\<lambda>(i, r). items r) (fst (visit (\<lambda>i. getResources (resourceCacheTTL (agg_opts a)) t0 t1 (answer i)) (shuffle (healthy_ids a)) a)))"
  by (auto simp: Agg_ListResources_def case_prod_unfold split: if_splits)

section \<open>Two servers\<close>

definition agg_tool :: "string \<Rightarrow> ToolInfo" where
  "agg_tool n = \<lparr> tinfo_Name = n, tinfo_Description = [], tinfo_InputSchema = JNull, tinfo_Annotations = None \<rparr>"

definition two_servers :: Aggregator where
  "two_servers = snd (snd (AddServer id ''b'' None None (NewAggregator \<lparr> ao_ToolCacheTTL = 0, ao_ResourceCacheTTL = 0, ao_PromptCacheTTL = 0 \<rparr>)
     (snd (snd (AddServer id ''a'' None None (NewAggregator \<lparr> ao_ToolCacheTTL = 0, ao_ResourceCacheTTL = 0, ao_PromptCacheTTL = 0 \<rparr>)
       (NewAggregator \<lparr> ao_ToolCacheTTL = 0, ao_ResourceCacheTTL = 0, ao_PromptCacheTTL = 0 \<rparr>))))))"

definition agg_answer :: "string \<Rightarrow> client_err + ToolInfo list option" where
  "agg_answer i = (if i = ''a'' then Inr (Some [agg_tool ''x.y'']) else Inr (Some [agg_tool ''z'']))"

lemma two_servers_wf: "wf_agg two_servers"
  unfolding two_servers_def by (intro wf_agg_ops) (simp add: wf_agg_def NewAggregator_def)

lemmas agg_eval = two_servers_def AddServer_def NewAggregator_def mget_def mput_def healthy_ids_def tools_of_def getTools_def get_cached_def
  unhealthy_def items_def agg_answer_def agg_tool_def qualifyTool_def

definition no_params :: CallToolParams where
  "no_params = \<lparr> ctp_Name = [], ctp_Arguments = None, ctp_Task = None \<rparr>"

text \<open>The list comes in the reverse order of the map.\<close>

theorem listed_tools_route_back_witness:
  "\<exists>tools a'. Agg_ListTools id 0 0 agg_answer rev two_servers = (Inr tools, a') \<and> map tinfo_Name tools = [''b.z'', ''a.x.y'']
     \<and> mset tools = (\<Sum>i \<in> {''a'', ''b''}. mset (map (qualifyTool i) (tools_of 0 0 agg_answer two_servers i)))
     \<and> Agg_CallTool id 0 0 agg_answer id (\<lambda>i p. Inl (OtherErr (ErrNew (i @ ''/'' @ ctp_Name p)))) ''a.x.y'' no_params two_servers
       = ask_server id (\<lambda>i. Inl (OtherErr (ErrNew (i @ ''/'' @ ''x.y'')))) ''a'' two_servers"
proof -
  have e: "\<exists>tools a'. Agg_ListTools id 0 0 agg_answer rev two_servers = (Inr tools, a') \<and> map tinfo_Name tools = [''b.z'', ''a.x.y'']"
    by (simp add: Agg_ListTools_def agg_eval)
  then obtain tools a' where l: "Agg_ListTools id 0 0 agg_answer rev two_servers = (Inr tools, a')" and n: "map tinfo_Name tools = [''b.z'', ''a.x.y'']"
    by (elim exE conjE)
  have "\<forall>xs :: string list. mset (rev xs) = mset xs" by simp
  note r = listed_tools_route_back [OF two_servers_wf this l]
  have h: "{i. IsHealthy i two_servers} = {''a'', ''b''}" by (auto simp: IsHealthy_def agg_eval split: if_splits)
  have "agg_tool ''x.y'' \<in> set (tools_of 0 0 agg_answer two_servers ''a'')" by (simp add: agg_eval)
  moreover have "tinfo_Name (qualifyTool ''a'' (agg_tool ''x.y'')) = ''a.x.y''" "tinfo_Name (agg_tool ''x.y'') = ''x.y''"
    by (simp_all add: qualifyTool_def agg_tool_def)
  ultimately have "Agg_CallTool id 0 0 agg_answer id (\<lambda>i p. Inl (OtherErr (ErrNew (i @ ''/'' @ ctp_Name p)))) ''a.x.y'' no_params two_servers
       = ask_server id (\<lambda>i. Inl (OtherErr (ErrNew (i @ ''/'' @ ''x.y'')))) ''a'' two_servers"
    using r [THEN conjunct2, of 0 0 agg_answer id "\<lambda>i p. Inl (OtherErr (ErrNew (i @ ''/'' @ ctp_Name p)))" no_params two_servers] by force
  with l n r h show ?thesis by (intro exI [of _ tools] exI [of _ a']) simp
qed

theorem bare_name_resolves_witness:
  "fst (resolveToolPath id 0 0 agg_answer rev ''z'' two_servers) = Inr (''b'', ''z'')"
proof -
  have "{j. IsHealthy j two_servers \<and> (\<exists>t \<in> set (tools_of 0 0 agg_answer two_servers j). tinfo_Name t = ''z'')} = {''b''}"
    by (auto simp: IsHealthy_def agg_eval split: if_splits)
  then show ?thesis
    using bare_name_resolves [of rev two_servers "''z''" id 0 0 agg_answer "''b''" "''z''"] by (simp add: two_servers_wf)
qed

end
