(* ===== verification/Client_Cache.thy ===== *)
theory Client_Cache
  imports Json_Rpc
begin

text \<open>
  The caching transport of \<open>client/cache.go\<close>. Callers of \<open>Send\<close>, the goroutine \<open>receiveLoop\<close> and the callers of
  \<open>Receive\<close> are threads; every access to shared state is one step. Messages are JSON trees; \<open>enc\<close> is the
  text of one, which is the part of a key. What the inner transport does is an argument of the steps. The
  log fields record what happened and are read by no operation: the requests handed to the inner transport, the results
  received, the entries stored, and the requests answered from the cache.
\<close>

section \<open>Messages and keys\<close>

definition DefaultCacheMethods :: "string list" where
  "DefaultCacheMethods = [''tools/list'', ''resources/list'', ''prompts/list'']"

record rpcEnvelope =
  env_ID :: "json option"
  env_Method :: string
  env_Params :: "json option"
  env_Result :: "json option"
  env_Error :: "json option"

definition unmarshal_envelope :: "json \<Rightarrow> rpcEnvelope option" where
  "unmarshal_envelope v =
     (case as_object v of None \<Rightarrow> None
      | Some kvs \<Rightarrow>
        (case field d_string [] ''method'' kvs of None \<Rightarrow> None
         | Some m \<Rightarrow> Some \<lparr> env_ID = the (field d_raw None ''id'' kvs), env_Method = m, env_Params = the (field d_raw None ''params'' kvs),
               env_Result = the (field d_raw None ''result'' kvs), env_Error = the (field d_raw None ''error'' kvs) \<rparr>))"

definition makeCacheKey :: "(json \<Rightarrow> string) \<Rightarrow> string \<Rightarrow> json option \<Rightarrow> string" where
  "makeCacheKey enc method params = (case params of None \<Rightarrow> method | Some p \<Rightarrow> method @ '':'' @ enc p)"

definition buildSyntheticResponse :: "json \<Rightarrow> json \<Rightarrow> json" where
  "buildSyntheticResponse rawID cachedResult =
     JObj [(''jsonrpc'', JStr ''2.0''), (''id'', rawID), (''result'', cachedResult)]"

section \<open>State\<close>

record CacheConfig =
  tc_Size :: int
  tc_TTL :: int
  tc_Methods :: "string list"

record cacheEntry =
  ce_result :: json
  ce_expiresAt :: int

datatype transport_pc =
    TIdle
  | THit json
  | TRegister json string json
  | TInner json json
  | TPass json
  | TDone "goerr option"

datatype loop_pc = LOff | LRecv | LStore string json json | LPush "goerr + json" | LDone

record cachedTransport =
  ct_cfg :: CacheConfig
  ct_entries :: "(string, cacheEntry) gomap"
  ct_inFlight :: "(json, string) gomap"
  ct_synthCh :: "json list"
  ct_innerCh :: "(goerr + json) list"
  ct_stopped :: bool
  ct_started :: bool
  ct_sends :: "nat \<Rightarrow> transport_pc"
  ct_loop :: loop_pc
  ct_sent :: "json set"
  ct_answers :: "(json \<times> json) set"
  ct_stored :: "(string \<times> json \<times> int) set"
  ct_hits :: "(json \<times> json \<times> int) set"

definition synthCap :: nat where "synthCap = 256"
definition innerCap :: nat where "innerCap = 16"

definition WithCaching :: "CacheConfig \<Rightarrow> cachedTransport" where
  "WithCaching cfg =
     (let cfg1 = (if tc_Size cfg \<le> 0 then cfg \<lparr> tc_Size := 128 \<rparr> else cfg);
          cfg2 = (if tc_Methods cfg1 = [] then cfg1 \<lparr> tc_Methods := DefaultCacheMethods \<rparr> else cfg1)
      in \<lparr> ct_cfg = cfg2, ct_entries = [], ct_inFlight = [], ct_synthCh = [], ct_innerCh = [], ct_stopped = False, ct_started = False,
           ct_sends = (\<lambda>_. TIdle), ct_loop = LOff, ct_sent = {}, ct_answers = {}, ct_stored = {}, ct_hits = {} \<rparr>)"

definition at_send :: "nat \<Rightarrow> transport_pc \<Rightarrow> cachedTransport \<Rightarrow> cachedTransport" where
  "at_send t pc c = c \<lparr> ct_sends := (ct_sends c)(t := pc) \<rparr>"

section \<open>Storing\<close>

text \<open>The loop over the entries, in the order of the map.\<close>

fun oldest_entry :: "(string, cacheEntry) gomap \<Rightarrow> string \<Rightarrow> int \<Rightarrow> string" where
  "oldest_entry [] oldest oldestExp = oldest"
| "oldest_entry ((k, e) # es) oldest oldestExp =
     (if oldest = [] \<or> ce_expiresAt e < oldestExp then oldest_entry es k (ce_expiresAt e) else oldest_entry es oldest oldestExp)"

definition storeEntry :: "int \<Rightarrow> string \<Rightarrow> json \<Rightarrow> cachedTransport \<Rightarrow> cachedTransport" where
  "storeEntry now key result c =
     (let full = (mget (ct_entries c) key = None \<and> int (length (ct_entries c)) \<ge> tc_Size (ct_cfg c));
          oldest = oldest_entry (ct_entries c) [] 0;
          es = (if full \<and> oldest \<noteq> [] then mdel oldest (ct_entries c) else ct_entries c)
      in c \<lparr> ct_entries := mput key \<lparr> ce_result = result, ce_expiresAt = now + tc_TTL (ct_cfg c) \<rparr> es,
             ct_stored := insert (key, result, now) (ct_stored c) \<rparr>)"

section \<open>Sending\<close>

definition CSend_lookup :: "(json \<Rightarrow> string) \<Rightarrow> int \<Rightarrow> nat \<Rightarrow> json \<Rightarrow> cachedTransport \<Rightarrow> cachedTransport" where
  "CSend_lookup enc now t data c =
     (if tc_TTL (ct_cfg c) \<le> 0 then at_send t (TPass data) c
      else case unmarshal_envelope data of
        None \<Rightarrow> at_send t (TPass data) c
      | Some env \<Rightarrow>
          (case env_ID env of
             None \<Rightarrow> at_send t (TPass data) c
           | Some i \<Rightarrow>
               if env_Method env \<notin> set (tc_Methods (ct_cfg c)) then at_send t (TPass data) c
               else let key = makeCacheKey enc (env_Method env) (env_Params env)
                    in (case mget (ct_entries c) key of
                          Some entry \<Rightarrow>
                            if now > ce_expiresAt entry then at_send t (TRegister i key data) c
                            else at_send t (THit (buildSyntheticResponse i (ce_result entry)))
                                   (c \<lparr> ct_hits := insert (data, ce_result entry, now) (ct_hits c) \<rparr>)
                        | None \<Rightarrow> at_send t (TRegister i key data) c)))"

definition CSend_queue :: "nat \<Rightarrow> cachedTransport \<Rightarrow> cachedTransport" where
  "CSend_queue t c =
     (case ct_sends c t of
        THit m \<Rightarrow> if length (ct_synthCh c) < synthCap then at_send t (TDone None) (c \<lparr> ct_synthCh := ct_synthCh c @ [m] \<rparr>) else c
      | _ \<Rightarrow> c)"

definition CSend_cancelled :: "nat \<Rightarrow> goerr \<Rightarrow> cachedTransport \<Rightarrow> cachedTransport" where
  "CSend_cancelled t e c = (case ct_sends c t of THit m \<Rightarrow> at_send t (TDone (Some e)) c | _ \<Rightarrow> c)"

definition CSend_register :: "nat \<Rightarrow> cachedTransport \<Rightarrow> cachedTransport" where
  "CSend_register t c =
     (case ct_sends c t of
        TRegister i key data \<Rightarrow>
          at_send t (TInner i data) (c \<lparr> ct_inFlight := mput i key (ct_inFlight c), ct_sent := insert data (ct_sent c) \<rparr>)
      | _ \<Rightarrow> c)"

definition CSend_inner :: "nat \<Rightarrow> goerr option \<Rightarrow> cachedTransport \<Rightarrow> cachedTransport" where
  "CSend_inner t err c =
     (case ct_sends c t of
        TInner i data \<Rightarrow> at_send t (TDone err) (if err = None then c else c \<lparr> ct_inFlight := mdel i (ct_inFlight c) \<rparr>)
      | TPass data \<Rightarrow> at_send t (TDone err) c
      | _ \<Rightarrow> c)"

section \<open>Receiving\<close>

text \<open>\<open>maybeCacheResponse\<close> up to the store.\<close>

definition maybeCacheResponse :: "json \<Rightarrow> cachedTransport \<Rightarrow> cachedTransport" where
  "maybeCacheResponse data c =
     (case unmarshal_envelope data of
        None \<Rightarrow> c \<lparr> ct_loop := LPush (Inr data) \<rparr>
      | Some env \<Rightarrow>
          (case (env_Error env, env_Result env, env_ID env) of
             (None, Some result, Some i) \<Rightarrow>
               let c1 = c \<lparr> ct_answers := insert (i, result) (ct_answers c) \<rparr>
               in (case mget (ct_inFlight c1) i of
                     None \<Rightarrow> c1 \<lparr> ct_loop := LPush (Inr data) \<rparr>
                   | Some key \<Rightarrow> c1 \<lparr> ct_inFlight := mdel i (ct_inFlight c1), ct_loop := LStore key result data \<rparr>)
           | _ \<Rightarrow> c \<lparr> ct_loop := LPush (Inr data) \<rparr>))"

definition Loop_receive :: "goerr + json \<Rightarrow> cachedTransport \<Rightarrow> cachedTransport" where
  "Loop_receive res c = (case res of Inl e \<Rightarrow> c \<lparr> ct_loop := LPush (Inl e) \<rparr> | Inr data \<Rightarrow> maybeCacheResponse data c)"

definition Loop_store :: "int \<Rightarrow> cachedTransport \<Rightarrow> cachedTransport" where
  "Loop_store now c =
     (case ct_loop c of LStore key result data \<Rightarrow> (storeEntry now key result c) \<lparr> ct_loop := LPush (Inr data) \<rparr> | _ \<Rightarrow> c)"

definition Loop_push :: "cachedTransport \<Rightarrow> cachedTransport" where
  "Loop_push c =
     (case ct_loop c of
        LPush res \<Rightarrow>
          if length (ct_innerCh c) < innerCap
          then c \<lparr> ct_innerCh := ct_innerCh c @ [res], ct_loop := (case res of Inl _ \<Rightarrow> LDone | Inr _ \<Rightarrow> LRecv) \<rparr>
          else c
      | _ \<Rightarrow> c)"

definition Loop_stop :: "cachedTransport \<Rightarrow> cachedTransport" where
  "Loop_stop c = (if ct_stopped c then c \<lparr> ct_loop := LDone \<rparr> else c)"

definition Receive_synth :: "cachedTransport \<Rightarrow> cachedTransport" where
  "Receive_synth c = c \<lparr> ct_synthCh := tl (ct_synthCh c) \<rparr>"

definition Receive_inner :: "cachedTransport \<Rightarrow> cachedTransport" where
  "Receive_inner c = c \<lparr> ct_innerCh := tl (ct_innerCh c) \<rparr>"

section \<open>Starting and closing\<close>

text \<open>A start of the inner transport that fails changes nothing.\<close>

definition Cache_Start :: "goerr option \<Rightarrow> cachedTransport \<Rightarrow> cachedTransport" where
  "Cache_Start err c = (if err \<noteq> None \<or> ct_started c then c else c \<lparr> ct_started := True, ct_loop := LRecv \<rparr>)"

definition Cache_Close :: "cachedTransport \<Rightarrow> cachedTransport" where
  "Cache_Close c = c \<lparr> ct_stopped := True \<rparr>"

inductive tstep :: "(json \<Rightarrow> string) \<Rightarrow> cachedTransport \<Rightarrow> cachedTransport \<Rightarrow> bool" for enc where
  lookup: "ct_sends c t = TIdle \<Longrightarrow> tstep enc c (CSend_lookup enc now t data c)"
| queue: "tstep enc c (CSend_queue t c)"
| cancelled: "tstep enc c (CSend_cancelled t e c)"
| register: "tstep enc c (CSend_register t c)"
| inner: "tstep enc c (CSend_inner t err c)"
| receive: "ct_loop c = LRecv \<Longrightarrow> tstep enc c (Loop_receive res c)"
| store: "tstep enc c (Loop_store now c)"
| push: "tstep enc c (Loop_push c)"
| stop: "ct_loop c = LPush res \<Longrightarrow> tstep enc c (Loop_stop c)"
| synth: "ct_synthCh c \<noteq> [] \<Longrightarrow> tstep enc c (Receive_synth c)"
| deliver: "ct_innerCh c \<noteq> [] \<Longrightarrow> tstep enc c (Receive_inner c)"
| start: "tstep enc c (Cache_Start err c)"
| close: "tstep enc c (Cache_Close c)"

section \<open>Cached answers are the server's\<close>

lemmas csend_defs = CSend_lookup_def CSend_queue_def CSend_cancelled_def CSend_register_def CSend_inner_def at_send_def
lemmas recv_defs = Loop_receive_def maybeCacheResponse_def Loop_store_def storeEntry_def Loop_push_def Loop_stop_def Receive_synth_def Receive_inner_def
lemmas tstep_defs = csend_defs recv_defs Cache_Start_def Cache_Close_def Let_def
lemmas tstep_splits = option.splits sum.splits transport_pc.splits loop_pc.splits if_splits

lemma logs_grow:
  "tstep enc c c' \<Longrightarrow> ct_sent c \<subseteq> ct_sent c' \<and> ct_answers c \<subseteq> ct_answers c' \<and> ct_stored c \<subseteq> ct_stored c' \<and> ct_hits c \<subseteq> ct_hits c' \<and> ct_cfg c' = ct_cfg c"
  by (induction rule: tstep.induct) (auto simp: tstep_defs split: tstep_splits)

text \<open>The key under which the cache looks a request up, with its identifier.\<close>

definition asks :: "(json \<Rightarrow> string) \<Rightarrow> CacheConfig \<Rightarrow> json \<Rightarrow> string \<Rightarrow> json \<Rightarrow> bool" where
  "asks enc cfg i k req \<longleftrightarrow> (\<exists>env. unmarshal_envelope req = Some env \<and> env_ID env = Some i \<and> env_Method env \<in> set (tc_Methods cfg)
     \<and> k = makeCacheKey enc (env_Method env) (env_Params env))"

lemma asks_unique: "asks enc cfg i k req \<Longrightarrow> asks enc cfg j l req \<Longrightarrow> j = i \<and> l = k"
  by (auto simp: asks_def)

lemma inFlight_keep:
  "tstep enc c c' \<Longrightarrow> mget (ct_inFlight c') i = Some k \<Longrightarrow>
   mget (ct_inFlight c) i = Some k \<or> (\<exists>t d. ct_sends c t = TRegister i k d \<and> d \<in> ct_sent c')"
  by (induction rule: tstep.induct) (auto simp: tstep_defs mget_mput mget_mdel split: tstep_splits)

lemma register_keep:
  "tstep enc c c' \<Longrightarrow> ct_sends c' t = TRegister i k d \<Longrightarrow> ct_sends c t = TRegister i k d \<or> asks enc (ct_cfg c) i k d"
  by (induction rule: tstep.induct) (auto simp: tstep_defs asks_def split: tstep_splits)

lemma store_keep:
  "tstep enc c c' \<Longrightarrow> ct_loop c' = LStore k r d \<Longrightarrow> ct_loop c = LStore k r d \<or> (\<exists>i. mget (ct_inFlight c) i = Some k \<and> (i, r) \<in> ct_answers c')"
  by (induction rule: tstep.induct) (auto simp: tstep_defs split: tstep_splits)

lemma entry_keep:
  "tstep enc c c' \<Longrightarrow> mget (ct_entries c') k = Some e \<Longrightarrow>
   mget (ct_entries c) k = Some e \<or> (\<exists>t. (k, ce_result e, t) \<in> ct_stored c' \<and> ce_expiresAt e = t + tc_TTL (ct_cfg c))"
  by (induction rule: tstep.induct) (auto simp: tstep_defs mget_mput mget_mdel split: tstep_splits)

lemma stored_keep:
  "tstep enc c c' \<Longrightarrow> x \<in> ct_stored c' \<Longrightarrow> x \<in> ct_stored c \<or> (\<exists>k r d t. x = (k, r, t) \<and> ct_loop c = LStore k r d)"
  by (induction rule: tstep.induct) (auto simp: tstep_defs split: tstep_splits)

lemma hits_keep:
  "tstep enc c c' \<Longrightarrow> (req, r, now) \<in> ct_hits c' \<Longrightarrow>
   (req, r, now) \<in> ct_hits c
     \<or> (\<exists>i k e. asks enc (ct_cfg c) i k req \<and> mget (ct_entries c) k = Some e \<and> ce_result e = r \<and> now \<le> ce_expiresAt e)"
  by (induction rule: tstep.induct) (auto simp: tstep_defs asks_def split: tstep_splits)

definition genuine :: "(json \<Rightarrow> string) \<Rightarrow> cachedTransport \<Rightarrow> json \<Rightarrow> bool" where
  "genuine enc c m \<longleftrightarrow> (\<exists>i k req r now. (req, r, now) \<in> ct_hits c \<and> asks enc (ct_cfg c) i k req \<and> m = buildSyntheticResponse i r)"

lemma synthetic_keep:
  "tstep enc c c' \<Longrightarrow> (\<exists>t. ct_sends c' t = THit m) \<or> m \<in> set (ct_synthCh c') \<Longrightarrow>
   (\<exists>t. ct_sends c t = THit m) \<or> m \<in> set (ct_synthCh c) \<or> genuine enc c' m"
proof (induction rule: tstep.induct)
  case (lookup c t now data)
  then show ?case by (auto simp: tstep_defs genuine_def asks_def split: tstep_splits) blast+
next
  case (synth c)
  then show ?case by (auto simp: tstep_defs dest: list.set_sel(2))
qed (auto simp: tstep_defs split: tstep_splits)

text \<open>A request with this identifier and key has been sent to the server, and the server has answered the identifier with the result.\<close>

definition answered :: "(json \<Rightarrow> string) \<Rightarrow> cachedTransport \<Rightarrow> string \<Rightarrow> json \<Rightarrow> bool" where
  "answered enc c k r \<longleftrightarrow> (\<exists>i. \<exists>req \<in> ct_sent c. asks enc (ct_cfg c) i k req \<and> (i, r) \<in> ct_answers c)"

definition honest :: "(json \<Rightarrow> string) \<Rightarrow> cachedTransport \<Rightarrow> bool" where
  "honest enc c \<longleftrightarrow> (\<forall>t i k d. ct_sends c t = TRegister i k d \<longrightarrow> asks enc (ct_cfg c) i k d)
     \<and> (\<forall>i k. mget (ct_inFlight c) i = Some k \<longrightarrow> (\<exists>req \<in> ct_sent c. asks enc (ct_cfg c) i k req))
     \<and> (\<forall>k r d. ct_loop c = LStore k r d \<longrightarrow> answered enc c k r)
     \<and> (\<forall>k e. mget (ct_entries c) k = Some e \<longrightarrow> (\<exists>t. (k, ce_result e, t) \<in> ct_stored c \<and> ce_expiresAt e = t + tc_TTL (ct_cfg c)))
     \<and> (\<forall>k r t. (k, r, t) \<in> ct_stored c \<longrightarrow> answered enc c k r)
     \<and> (\<forall>i k req r now. (req, r, now) \<in> ct_hits c \<and> asks enc (ct_cfg c) i k req \<longrightarrow> (\<exists>t. (k, r, t) \<in> ct_stored c \<and> now \<le> t + tc_TTL (ct_cfg c)))
     \<and> (\<forall>m. (\<exists>t. ct_sends c t = THit m) \<or> m \<in> set (ct_synthCh c) \<longrightarrow> genuine enc c m)"

lemma honestD:
  assumes "honest enc c"
  shows "ct_sends c t = TRegister i k d \<Longrightarrow> asks enc (ct_cfg c) i k d"
    and "mget (ct_inFlight c) i = Some k \<Longrightarrow> \<exists>req \<in> ct_sent c. asks enc (ct_cfg c) i k req"
    and "ct_loop c = LStore k r d \<Longrightarrow> answered enc c k r"
    and "mget (ct_entries c) k = Some e \<Longrightarrow> \<exists>t. (k, ce_result e, t) \<in> ct_stored c \<and> ce_expiresAt e = t + tc_TTL (ct_cfg c)"
    and "(k, r, x) \<in> ct_stored c \<Longrightarrow> answered enc c k r"
    and "(req, r, now) \<in> ct_hits c \<Longrightarrow> asks enc (ct_cfg c) i k req \<Longrightarrow> \<exists>t. (k, r, t) \<in> ct_stored c \<and> now \<le> t + tc_TTL (ct_cfg c)"
    and "(\<exists>t. ct_sends c t = THit m) \<or> m \<in> set (ct_synthCh c) \<Longrightarrow> genuine enc c m"
  using assms unfolding honest_def by metis+

lemma honest_step:
  assumes st: "tstep enc c c'" and h: "honest enc c"
  shows "honest enc c'"
proof -
  note g = logs_grow [OF st] and h = honestD [OF h]
  have cfg: "ct_cfg c' = ct_cfg c" using g by blast
  have ans: "answered enc c' k r" if "answered enc c k r" for k r
    using that g unfolding answered_def cfg by blast
  have 0: "asks enc (ct_cfg c') i k d" if "ct_sends c' t = TRegister i k d" for t i k d
    using register_keep [OF st that] h(1) cfg by auto
  have 1: "\<exists>req \<in> ct_sent c'. asks enc (ct_cfg c') i k req" if "mget (ct_inFlight c') i = Some k" for i k
    using inFlight_keep [OF st that] h(1,2) g unfolding cfg by blast
  have 2: "answered enc c' k r" if "ct_loop c' = LStore k r d" for k r d
    using store_keep [OF st that]
  proof
    assume "\<exists>i. mget (ct_inFlight c) i = Some k \<and> (i, r) \<in> ct_answers c'"
    then show ?thesis using h(2) g unfolding answered_def cfg by blast
  qed (use h(3) ans in blast)
  have 3: "\<exists>t. (k, ce_result e, t) \<in> ct_stored c' \<and> ce_expiresAt e = t + tc_TTL (ct_cfg c')" if "mget (ct_entries c') k = Some e" for k e
    using entry_keep [OF st that] h(4) g by (metis subsetD)
  have 4: "answered enc c' k r" if "(k, r, t) \<in> ct_stored c'" for k r t
    using stored_keep [OF st that] h(3,5) ans by blast
  have 5: "\<exists>t. (k, r, t) \<in> ct_stored c' \<and> now \<le> t + tc_TTL (ct_cfg c')" if x: "(req, r, now) \<in> ct_hits c'" "asks enc (ct_cfg c') i k req" for i k req r now
    using hits_keep [OF st x(1)]
  proof
    assume "(req, r, now) \<in> ct_hits c"
    then show ?thesis using h(6) x(2) g unfolding cfg by blast
  next
    assume "\<exists>i k e. asks enc (ct_cfg c) i k req \<and> mget (ct_entries c) k = Some e \<and> ce_result e = r \<and> now \<le> ce_expiresAt e"
    then obtain e where "mget (ct_entries c) k = Some e" "ce_result e = r" "now \<le> ce_expiresAt e" using x(2) asks_unique unfolding cfg by metis
    then show ?thesis using h(4) g cfg by (metis subsetD)
  qed
  have 6: "genuine enc c' m" if "(\<exists>t. ct_sends c' t = THit m) \<or> m \<in> set (ct_synthCh c')" for m
    using synthetic_keep [OF st that] h(7) [of m] g unfolding genuine_def cfg by blast
  show ?thesis unfolding honest_def using 0 1 2 3 4 5 6 by blast
qed

definition cache_run :: "(json \<Rightarrow> string) \<Rightarrow> CacheConfig \<Rightarrow> cachedTransport \<Rightarrow> bool" where
  "cache_run enc cfg c \<longleftrightarrow> (tstep enc)\<^sup>*\<^sup>* (WithCaching cfg) c"

lemma honest_run: "cache_run enc cfg c \<Longrightarrow> honest enc c \<and> ct_cfg c = ct_cfg (WithCaching cfg)"
  unfolding cache_run_def
proof (induction rule: rtranclp_induct)
  case base
  show ?case by (simp add: honest_def WithCaching_def Let_def)
next
  case (step y z)
  then show ?case using honest_step [OF step.hyps(2)] logs_grow [OF step.hyps(2)] by simp
qed

text \<open>A key determines the method and the parameters, provided that the text of a JSON value determines the value and no
  cached method has a colon in its name.\<close>

lemma key_inj:
  assumes "inj enc" "CHR '':'' \<notin> set m" "CHR '':'' \<notin> set m'" "makeCacheKey enc m p = makeCacheKey enc m' p'"
  shows "m = m' \<and> p = p'"
proof -
  have tw: "takeWhile (\<lambda>ch. ch \<noteq> CHR '':'') (makeCacheKey enc n q) = n" if "CHR '':'' \<notin> set n" for n q
    using that by (induction n) (auto simp: makeCacheKey_def split: option.splits)
  have "m = m'" using tw [OF assms(2), of p] tw [OF assms(3), of p'] assms(4) by simp
  then show ?thesis using assms(1,4) by (auto simp: makeCacheKey_def inj_eq split: option.splits)
qed

text \<open>C36: Under any interleaving, every answer that the cache makes up answers a request that was given to it and carries the
  result that the server gave to a request with the same method and the same parameters, stored no longer ago
  than the lifetime of entries. The text of a JSON value is assumed to determine the value, and the names of the cached methods
  to have no colon, which separates method and parameters in a key.\<close>

theorem cached_answers_are_the_servers:
  assumes "cache_run enc cfg c" and "m \<in> set (ct_synthCh c)" and "inj enc" and "\<forall>x \<in> set (tc_Methods cfg). CHR '':'' \<notin> set x"
  shows "\<exists>req env i r now. (req, r, now) \<in> ct_hits c \<and> unmarshal_envelope req = Some env \<and> env_ID env = Some i \<and> m = buildSyntheticResponse i r
     \<and> (\<exists>req' env' j. req' \<in> ct_sent c \<and> unmarshal_envelope req' = Some env' \<and> env_ID env' = Some j \<and> (j, r) \<in> ct_answers c
          \<and> env_Method env' = env_Method env \<and> env_Params env' = env_Params env)
     \<and> (\<exists>t. (makeCacheKey enc (env_Method env) (env_Params env), r, t) \<in> ct_stored c \<and> now \<le> t + tc_TTL cfg)"
proof -
  have run: "honest enc c" "ct_cfg c = ct_cfg (WithCaching cfg)" using honest_run [OF assms(1)] by auto
  note h = honestD [OF run(1)]
  have meths: "CHR '':'' \<notin> set x" if "x \<in> set (tc_Methods (ct_cfg c))" for x
    using assms(4) that by (auto simp: run(2) WithCaching_def DefaultCacheMethods_def Let_def split: if_splits)
  have ttl: "tc_TTL (ct_cfg c) = tc_TTL cfg" by (simp add: run(2) WithCaching_def Let_def)
  from h(7) [of m] assms(2) obtain i k req r now where m: "(req, r, now) \<in> ct_hits c" "asks enc (ct_cfg c) i k req" "m = buildSyntheticResponse i r"
    unfolding genuine_def by blast
  from h(6) [OF m(1,2)] obtain t where t: "(k, r, t) \<in> ct_stored c" "now \<le> t + tc_TTL cfg" unfolding ttl by blast
  from h(5) [OF t(1)] obtain j req' where q: "req' \<in> ct_sent c" "asks enc (ct_cfg c) j k req'" "(j, r) \<in> ct_answers c"
    unfolding answered_def by blast
  from m(2) obtain env where e: "unmarshal_envelope req = Some env" "env_ID env = Some i" "env_Method env \<in> set (tc_Methods (ct_cfg c))"
    "k = makeCacheKey enc (env_Method env) (env_Params env)" by (auto simp: asks_def)
  from q(2) obtain env' where e': "unmarshal_envelope req' = Some env'" "env_ID env' = Some j" "env_Method env' \<in> set (tc_Methods (ct_cfg c))"
    "k = makeCacheKey enc (env_Method env') (env_Params env')" by (auto simp: asks_def)
  have same: "env_Method env' = env_Method env \<and> env_Params env' = env_Params env"
    by (rule key_inj [OF assms(3) meths [OF e'(3)] meths [OF e(3)]]) (use e(4) e'(4) in simp)
  have "\<exists>req' env' j. req' \<in> ct_sent c \<and> unmarshal_envelope req' = Some env' \<and> env_ID env' = Some j \<and> (j, r) \<in> ct_answers c
      \<and> env_Method env' = env_Method env \<and> env_Params env' = env_Params env"
    using q(1,3) e'(1,2) same by blast
  moreover have "\<exists>t. (makeCacheKey enc (env_Method env) (env_Params env), r, t) \<in> ct_stored c \<and> now \<le> t + tc_TTL cfg"
    using t e(4) by blast
  ultimately show ?thesis using m(1,3) e(1,2) by blast
qed

section \<open>The cache is bounded\<close>

lemma oldest_entry_in:
  assumes "\<forall>(k, e) \<in> set es. k \<noteq> []" "es \<noteq> [] \<or> oldest \<noteq> []"
  shows "oldest_entry es oldest x \<noteq> [] \<and> (oldest_entry es oldest x = oldest \<or> oldest_entry es oldest x \<in> fst ` set es)"
  using assms
proof (induction es oldest x rule: oldest_entry.induct)
  case (2 k e es oldest x)
  then show ?case by (cases "oldest = [] \<or> ce_expiresAt e < x") auto
qed auto

definition bounded :: "cachedTransport \<Rightarrow> bool" where
  "bounded c \<longleftrightarrow> wf_map (ct_entries c) \<and> int (length (ct_entries c)) \<le> tc_Size (ct_cfg c) \<and> 0 < tc_Size (ct_cfg c)
     \<and> (\<forall>(k, e) \<in> set (ct_entries c). k \<noteq> []) \<and> [] \<notin> set (tc_Methods (ct_cfg c))
     \<and> (\<forall>(i, k) \<in> set (ct_inFlight c). k \<noteq> [])
     \<and> (\<forall>t i k d. ct_sends c t = TRegister i k d \<longrightarrow> k \<noteq> []) \<and> (\<forall>k r d. ct_loop c = LStore k r d \<longrightarrow> k \<noteq> [])"

lemma bounded_store:
  assumes "bounded c" "key \<noteq> []"
  shows "bounded (storeEntry now key r c)"
proof -
  let ?es = "ct_entries c"
  let ?full = "mget ?es key = None \<and> int (length ?es) \<ge> tc_Size (ct_cfg c)"
  let ?o = "oldest_entry ?es [] 0"
  let ?es' = "if ?full \<and> ?o \<noteq> [] then mdel ?o ?es else ?es"
  have b: "wf_map ?es" "int (length ?es) \<le> tc_Size (ct_cfg c)" "0 < tc_Size (ct_cfg c)" "\<forall>(k, e) \<in> set ?es. k \<noteq> []"
    using assms(1) by (auto simp: bounded_def)
  have w: "wf_map ?es'" "\<forall>(k, e) \<in> set ?es'. k \<noteq> []" using b(1,4) by (auto simp: wf_map_mdel set_mdel)
  have l: "int (length (mput key x ?es')) \<le> tc_Size (ct_cfg c)" for x
  proof (cases ?full)
    case True
    then have "?es \<noteq> []" using b(3) by auto
    with oldest_entry_in [of ?es "[]" 0] b(4) have o: "?o \<noteq> []" "mget ?es ?o \<noteq> None" by (auto simp: mget_None_iff)
    have "length (mdel ?o ?es) = length ?es - 1" by (rule length_mdel [OF b(1) o(2)])
    moreover have "mget (mdel ?o ?es) key = None" using True by (simp add: mget_mdel)
    ultimately show ?thesis using True o(1) b(2) \<open>?es \<noteq> []\<close> by (simp add: length_mput)
  next
    case False
    then show ?thesis using b(2) by (auto simp: length_mput)
  qed
  have "\<forall>(k, e) \<in> set (mput key x ?es'). k \<noteq> []" for x
    using w(2) assms(2) by (auto dest!: set_mputD)
  then show ?thesis
    using assms(1) w(1) l unfolding bounded_def storeEntry_def Let_def by (simp add: wf_map_mput)
qed

lemma key_nonempty: "makeCacheKey enc m p = [] \<longleftrightarrow> m = [] \<and> p = None"
  by (simp add: makeCacheKey_def split: option.splits)

lemma bounded_step:
  assumes "tstep enc c c'" "bounded c"
  shows "bounded c'"
  using assms
proof (induction rule: tstep.induct)
  case (store c now)
  show ?case
  proof (cases "ct_loop c")
    case (LStore k r d)
    with store have "k \<noteq> []" by (simp add: bounded_def)
    from bounded_store [OF store this] LStore show ?thesis by (simp add: Loop_store_def bounded_def)
  qed (use store in \<open>simp_all add: Loop_store_def\<close>)
next
  case (lookup c t now data)
  then show ?case by (auto simp: bounded_def csend_defs Let_def key_nonempty split: option.splits if_splits)
next
  case (register c t)
  have "k \<noteq> []" if "ct_sends c t = TRegister i k d" for i k d
    using register that unfolding bounded_def by blast
  with register show ?case by (auto simp: bounded_def csend_defs dest!: set_mputD split: transport_pc.splits)
next
  case (receive c res)
  then show ?case by (auto simp: bounded_def recv_defs Let_def set_mdel dest!: mget_SomeD split: option.splits sum.splits)
next
  case (inner c t err)
  then show ?case by (auto simp: bounded_def csend_defs set_mdel split: transport_pc.splits if_splits)
qed (auto simp: bounded_def tstep_defs split: tstep_splits)

lemma bounded_run:
  assumes "cache_run enc cfg c" and "[] \<notin> set (tc_Methods cfg)"
  shows "int (length (ct_entries c)) \<le> (if tc_Size cfg \<le> 0 then 128 else tc_Size cfg)"
proof -
  have "bounded c \<and> ct_cfg c = ct_cfg (WithCaching cfg)"
    using assms(1) unfolding cache_run_def
  proof (induction rule: rtranclp_induct)
    case base
    show ?case using assms(2) by (auto simp: bounded_def WithCaching_def DefaultCacheMethods_def Let_def)
  next
    case (step y z)
    then show ?case using bounded_step [OF step.hyps(2)] logs_grow [OF step.hyps(2)] by simp
  qed
  then show ?thesis by (auto simp: bounded_def WithCaching_def Let_def split: if_splits)
qed

text \<open>The table of requests in flight is not bounded: an error, or an answer without a result, leaves the entry
  of its request in it.\<close>

lemma error_answer_leaks:
  assumes "unmarshal_envelope data = Some env" "env_Error env \<noteq> None \<or> env_Result env = None"
  shows "ct_inFlight (maybeCacheResponse data c) = ct_inFlight c"
  using assms by (auto simp: maybeCacheResponse_def split: option.splits)

section \<open>Reconnecting\<close>

text \<open>The goroutine that forwards what the inner transport receives ends with the first error and is never
  started again: from then on, however often the transport is closed and started, the queue of
  messages from the server only shrinks.\<close>

lemma deaf_step: "tstep enc c c' \<Longrightarrow> ct_started c \<and> ct_loop c = LDone \<Longrightarrow> ct_started c' \<and> ct_loop c' = LDone \<and> (\<exists>n. ct_innerCh c' = drop n (ct_innerCh c))"
proof (induction rule: tstep.induct)
  case (deliver c)
  then have "ct_innerCh (Receive_inner c) = drop 1 (ct_innerCh c)" by (simp add: Receive_inner_def drop_Suc)
  with deliver show ?case by (auto simp: Receive_inner_def)
qed (auto simp: tstep_defs split: tstep_splits intro: exI [of _ 0])

theorem deaf_after_reconnecting:
  assumes "(tstep enc)\<^sup>*\<^sup>* c c'" and "ct_started c \<and> ct_loop c = LDone"
  shows "ct_loop c' = LDone \<and> (\<exists>n. ct_innerCh c' = drop n (ct_innerCh c))"
proof -
  have "ct_started c' \<and> ct_loop c' = LDone \<and> (\<exists>n. ct_innerCh c' = drop n (ct_innerCh c))"
    using assms
  proof (induction rule: rtranclp_induct)
    case base
    then show ?case by (auto intro: exI [of _ 0])
  next
    case (step y z)
    then obtain n where "ct_started y \<and> ct_loop y = LDone" "ct_innerCh y = drop n (ct_innerCh c)" by blast
    with deaf_step [OF step.hyps(2)] show ?case by auto
  qed
  then show ?thesis by blast
qed

definition dead_cache :: cachedTransport where
  "dead_cache = Loop_push (Loop_receive (Inl ioEOF) (Cache_Start None (WithCaching \<lparr> tc_Size = 0, tc_TTL = 5, tc_Methods = [] \<rparr>)))"

lemma dead_cache_run: "cache_run enc \<lparr> tc_Size = 0, tc_TTL = 5, tc_Methods = [] \<rparr> dead_cache"
proof -
  let ?c0 = "WithCaching \<lparr> tc_Size = 0, tc_TTL = 5, tc_Methods = [] \<rparr>"
  have 1: "tstep enc ?c0 (Cache_Start None ?c0)" by (rule tstep.start)
  have 2: "tstep enc (Cache_Start None ?c0) (Loop_receive (Inl ioEOF) (Cache_Start None ?c0))"
    by (rule tstep.receive) (simp add: Cache_Start_def WithCaching_def Let_def)
  have 3: "tstep enc (Loop_receive (Inl ioEOF) (Cache_Start None ?c0)) dead_cache"
    unfolding dead_cache_def by (rule tstep.push)
  from 1 2 3 show ?thesis unfolding cache_run_def by (meson converse_rtranclp_into_rtranclp rtranclp.rtrancl_refl)
qed

theorem deaf_after_reconnecting_witness:
  "cache_run (\<lambda>_. []) \<lparr> tc_Size = 0, tc_TTL = 5, tc_Methods = [] \<rparr> dead_cache \<and> ct_innerCh dead_cache = [Inl ioEOF]
     \<and> ct_loop (Cache_Start None (Cache_Close dead_cache)) = LDone"
proof -
  have d: "ct_started dead_cache \<and> ct_loop dead_cache = LDone" "ct_innerCh dead_cache = [Inl ioEOF]"
    by (simp_all add: dead_cache_def tstep_defs WithCaching_def innerCap_def)
  have "(tstep (\<lambda>_. []))\<^sup>*\<^sup>* dead_cache (Cache_Start None (Cache_Close dead_cache))"
    by (meson converse_rtranclp_into_rtranclp rtranclp.rtrancl_refl tstep.close tstep.start)
  from deaf_after_reconnecting [OF this d(1)] d(2) dead_cache_run show ?thesis by blast
qed

section \<open>A hit\<close>

text \<open>A text from which a JSON value can be read back: every character and every element is announced, and every
  sequence has an end.\<close>

fun chars_text :: "string \<Rightarrow> string" where
  "chars_text [] = ''e''" | "chars_text (x # xs) = CHR ''c'' # x # chars_text xs"

fun plain_text :: "json \<Rightarrow> string" and items_text :: "json list \<Rightarrow> string" and fields_text :: "(string \<times> json) list \<Rightarrow> string" where
  "plain_text JNull = ''n''"
| "plain_text (JBool b) = (if b then ''t'' else ''f'')"
| "plain_text (JNum x) = CHR ''d'' # chars_text x"
| "plain_text (JStr x) = CHR ''s'' # chars_text x"
| "plain_text (JArr xs) = CHR ''a'' # items_text xs"
| "plain_text (JObj kvs) = CHR ''o'' # fields_text kvs"
| "items_text [] = ''e''"
| "items_text (x # xs) = CHR ''i'' # plain_text x @ items_text xs"
| "fields_text [] = ''e''"
| "fields_text ((k, x) # kvs) = CHR ''k'' # chars_text k @ plain_text x @ fields_text kvs"

lemma chars_text_prefix: "chars_text x @ r = chars_text y @ r' \<Longrightarrow> x = y \<and> r = r'"
proof (induction x arbitrary: y)
  case (Cons a x)
  then show ?case by (cases y) auto
next
  case Nil
  then show ?case by (cases y) auto
qed

lemma plain_text_prefix:
  "plain_text v @ r = plain_text v' @ r' \<Longrightarrow> v = v' \<and> r = r'"
  "items_text vs @ r = items_text vs' @ r' \<Longrightarrow> vs = vs' \<and> r = r'"
  "fields_text kvs @ r = fields_text kvs' @ r' \<Longrightarrow> kvs = kvs' \<and> r = r'"
proof (induction v and vs and kvs arbitrary: v' r r' and vs' r r' and kvs' r r' rule: plain_text_items_text_fields_text.induct)
  case 1 then show ?case by (cases v') (auto split: if_splits)
next
  case (2 b) then show ?case by (cases v') (auto split: if_splits)
next
  case (3 x) then show ?case by (cases v') (auto dest: chars_text_prefix split: if_splits)
next
  case (4 x) then show ?case by (cases v') (auto dest: chars_text_prefix split: if_splits)
next
  case (5 xs)
  from "5.prems" obtain ys where "v' = JArr ys" "items_text xs @ r = items_text ys @ r'" by (cases v') (auto split: if_splits)
  with "5.IH" show ?case by blast
next
  case (6 kvs)
  from "6.prems" obtain ls where "v' = JObj ls" "fields_text kvs @ r = fields_text ls @ r'" by (cases v') (auto split: if_splits)
  with "6.IH" show ?case by blast
next
  case 7 then show ?case by (cases vs') auto
next
  case (8 x xs)
  from "8.prems" obtain y ys where vs: "vs' = y # ys" and "plain_text x @ items_text xs @ r = plain_text y @ items_text ys @ r'"
    by (cases vs') auto
  from "8.IH"(1) [OF this(2)] have "x = y" "items_text xs @ r = items_text ys @ r'" by auto
  with "8.IH"(2) vs show ?case by blast
next
  case 9 then show ?case by (cases kvs') auto
next
  case (10 k x kvs)
  from "10.prems" obtain l y ls where kvs: "kvs' = (l, y) # ls"
    and e: "chars_text k @ plain_text x @ fields_text kvs @ r = chars_text l @ plain_text y @ fields_text ls @ r'"
    by (cases kvs') auto
  from chars_text_prefix [OF e] have "k = l" "plain_text x @ fields_text kvs @ r = plain_text y @ fields_text ls @ r'" by auto
  from "10.IH"(1) [OF this(2)] this(1) have "k = l" "x = y" "fields_text kvs @ r = fields_text ls @ r'" by auto
  with "10.IH"(2) kvs show ?case by blast
qed

lemma inj_plain_text: "inj plain_text"
proof (rule injI)
  fix v v' assume "plain_text v = plain_text v'"
  then show "v = v'" using plain_text_prefix(1) [of v "[]" v' "[]"] by simp
qed

text \<open>Two requests for the second page of the tools.\<close>

definition page :: json where
  "page = JObj [(''cursor'', JStr ''2'')]"

definition list_request :: "string \<Rightarrow> json" where
  "list_request i = JObj [(''id'', JStr i), (''method'', JStr ''tools/list''), (''params'', page)]"

definition list_answer :: "string \<Rightarrow> json" where
  "list_answer i = JObj [(''id'', JStr i), (''result'', JStr ''r'')]"

lemma envelope_eval:
  "unmarshal_envelope (list_request i) = Some \<lparr> env_ID = Some (JStr i), env_Method = ''tools/list'', env_Params = Some page, env_Result = None, env_Error = None \<rparr>"
  "unmarshal_envelope (list_answer i) = Some \<lparr> env_ID = Some (JStr i), env_Method = [], env_Params = None, env_Result = Some (JStr ''r''), env_Error = None \<rparr>"
proof -
  have f: "foldName ''id'' = ''ID''" "foldName ''method'' = ''METHOD''" "foldName ''params'' = ''PARAMS''" "foldName ''result'' = ''RESULT''" "foldName ''error'' = ''ERROR''"
    by (subst foldName_ascii; simp add: fold_eval)+
  show "unmarshal_envelope (list_request i) = Some \<lparr> env_ID = Some (JStr i), env_Method = ''tools/list'', env_Params = Some page, env_Result = None, env_Error = None \<rparr>"
    "unmarshal_envelope (list_answer i) = Some \<lparr> env_ID = Some (JStr i), env_Method = [], env_Params = None, env_Result = Some (JStr ''r''), env_Error = None \<rparr>"
    by (simp_all add: unmarshal_envelope_def list_request_def list_answer_def as_object_def field_def members_def f d_raw_def del: foldName.simps)
qed

definition page_key :: string where
  "page_key = makeCacheKey plain_text ''tools/list'' (Some page)"

definition mid_cache :: cachedTransport where
  "mid_cache = CSend_inner 0 None (CSend_register 0 (CSend_lookup plain_text 1 0 (list_request ''c-1'')
     (Cache_Start None (WithCaching \<lparr> tc_Size = 0, tc_TTL = 5, tc_Methods = [] \<rparr>))))"

definition filled_cache :: cachedTransport where
  "filled_cache = Loop_push (Loop_store 2 (Loop_receive (Inr (list_answer ''c-1'')) mid_cache))"

definition hit_cache :: cachedTransport where
  "hit_cache = CSend_queue 1 (CSend_lookup plain_text 7 1 (list_request ''c-2'') filled_cache)"

lemma mid_cache_state:
  "mid_cache = \<lparr> ct_cfg = \<lparr> tc_Size = 128, tc_TTL = 5, tc_Methods = DefaultCacheMethods \<rparr>, ct_entries = [], ct_inFlight = [(JStr ''c-1'', page_key)],
     ct_synthCh = [], ct_innerCh = [], ct_stopped = False, ct_started = True, ct_sends = (\<lambda>_. TIdle)(0 := TDone None), ct_loop = LRecv,
     ct_sent = {list_request ''c-1''}, ct_answers = {}, ct_stored = {}, ct_hits = {} \<rparr>"
proof -
  let ?s = "Cache_Start None (WithCaching \<lparr> tc_Size = 0, tc_TTL = 5, tc_Methods = [] \<rparr>)"
  have s: "?s = \<lparr> ct_cfg = \<lparr> tc_Size = 128, tc_TTL = 5, tc_Methods = DefaultCacheMethods \<rparr>, ct_entries = [], ct_inFlight = [],
     ct_synthCh = [], ct_innerCh = [], ct_stopped = False, ct_started = True, ct_sends = (\<lambda>_. TIdle), ct_loop = LRecv,
     ct_sent = {}, ct_answers = {}, ct_stored = {}, ct_hits = {} \<rparr>"
    by (simp add: Cache_Start_def WithCaching_def Let_def)
  have m: "''tools/list'' \<in> set DefaultCacheMethods" by (simp add: DefaultCacheMethods_def)
  have "CSend_lookup plain_text 1 0 (list_request ''c-1'') ?s = at_send 0 (TRegister (JStr ''c-1'') page_key (list_request ''c-1'')) ?s"
    unfolding s by (simp add: CSend_lookup_def envelope_eval m page_key_def [symmetric] Let_def)
  then show ?thesis
    unfolding mid_cache_def s by (simp add: CSend_register_def CSend_inner_def at_send_def mput_def)
qed

lemma filled_cache_state:
  "filled_cache = \<lparr> ct_cfg = \<lparr> tc_Size = 128, tc_TTL = 5, tc_Methods = DefaultCacheMethods \<rparr>,
     ct_entries = [(page_key, \<lparr> ce_result = JStr ''r'', ce_expiresAt = 7 \<rparr>)], ct_inFlight = [],
     ct_synthCh = [], ct_innerCh = [Inr (list_answer ''c-1'')], ct_stopped = False, ct_started = True, ct_sends = (\<lambda>_. TIdle)(0 := TDone None), ct_loop = LRecv,
     ct_sent = {list_request ''c-1''}, ct_answers = {(JStr ''c-1'', JStr ''r'')}, ct_stored = {(page_key, JStr ''r'', 2)}, ct_hits = {} \<rparr>"
  unfolding filled_cache_def mid_cache_state
  by (simp add: Loop_receive_def maybeCacheResponse_def envelope_eval mget_def mdel_def Loop_store_def storeEntry_def mput_def Loop_push_def innerCap_def Let_def)

lemma hit_cache_synth: "ct_synthCh hit_cache = [buildSyntheticResponse (JStr ''c-2'') (JStr ''r'')]"
proof -
  have m: "''tools/list'' \<in> set DefaultCacheMethods" by (simp add: DefaultCacheMethods_def)
  show ?thesis
    unfolding hit_cache_def filled_cache_state
    by (simp add: CSend_lookup_def envelope_eval m page_key_def [symmetric] mget_def at_send_def CSend_queue_def synthCap_def Let_def)
qed

lemma hit_cache_run: "cache_run plain_text \<lparr> tc_Size = 0, tc_TTL = 5, tc_Methods = [] \<rparr> hit_cache"
proof -
  let ?E = plain_text
  let ?c0 = "WithCaching \<lparr> tc_Size = 0, tc_TTL = 5, tc_Methods = [] \<rparr>"
  let ?a = "Cache_Start None ?c0"
  let ?b = "CSend_lookup ?E 1 0 (list_request ''c-1'') ?a"
  let ?e = "Loop_receive (Inr (list_answer ''c-1'')) mid_cache"
  let ?g = "CSend_lookup ?E 7 1 (list_request ''c-2'') filled_cache"
  have 1: "tstep ?E ?c0 ?a" by (rule tstep.start)
  have 2: "tstep ?E ?a ?b" by (rule tstep.lookup) (simp add: Cache_Start_def WithCaching_def Let_def)
  have 3: "tstep ?E ?b (CSend_register 0 ?b)" by (rule tstep.register)
  have 4: "tstep ?E (CSend_register 0 ?b) mid_cache" unfolding mid_cache_def by (rule tstep.inner)
  have 5: "tstep ?E mid_cache ?e" by (rule tstep.receive) (simp add: mid_cache_state)
  have 6: "tstep ?E ?e (Loop_store 2 ?e)" by (rule tstep.store)
  have 7: "tstep ?E (Loop_store 2 ?e) filled_cache" unfolding filled_cache_def by (rule tstep.push)
  have 8: "tstep ?E filled_cache ?g" by (rule tstep.lookup) (simp add: filled_cache_state)
  have 9: "tstep ?E ?g hit_cache" unfolding hit_cache_def by (rule tstep.queue)
  note r = converse_rtranclp_into_rtranclp [where r = "tstep ?E"]
  show ?thesis unfolding cache_run_def
    by (rule r [OF 1 r [OF 2 r [OF 3 r [OF 4 r [OF 5 r [OF 6 r [OF 7 r [OF 8 r [OF 9 rtranclp.rtrancl_refl]]]]]]]]])
qed

theorem cached_answers_are_the_servers_witness:
  "\<exists>req env i r now. (req, r, now) \<in> ct_hits hit_cache \<and> unmarshal_envelope req = Some env \<and> env_ID env = Some i
     \<and> buildSyntheticResponse (JStr ''c-2'') (JStr ''r'') = buildSyntheticResponse i r
     \<and> (\<exists>req' env' j. req' \<in> ct_sent hit_cache \<and> unmarshal_envelope req' = Some env' \<and> env_ID env' = Some j \<and> (j, r) \<in> ct_answers hit_cache
          \<and> env_Method env' = env_Method env \<and> env_Params env' = env_Params env)
     \<and> (\<exists>t. (makeCacheKey plain_text (env_Method env) (env_Params env), r, t) \<in> ct_stored hit_cache \<and> now \<le> t + 5)"
  using cached_answers_are_the_servers [OF hit_cache_run _ inj_plain_text] hit_cache_synth by simp

end
