(* ===== verification/Connections.thy ===== *)
theory Connections
  imports Dispatch_Props
begin

text \<open>
  What the server keeps for a connection: its sender, its subscriptions and its tools. Every transport
  adds a sender when a connection opens, hands messages to the server under the identifier of the
  connection, and removes all three when it closes. The contract of these operations is a locale; it gives
  that, while requests do not overlap with the closing, nothing is kept for a connection that is gone.
\<close>

section \<open>The contract\<close>

locale connection_owner =
  fixes owners :: "'s \<Rightarrow> string set"
    and opens :: "string \<Rightarrow> 's \<Rightarrow> 's"
    and serves :: "'m \<Rightarrow> string \<Rightarrow> 's \<Rightarrow> 's"
    and closes :: "string \<Rightarrow> 's \<Rightarrow> 's"
  assumes opens_owner: "owners (opens i s) \<subseteq> insert i (owners s)"
    and serves_owner: "owners (serves m i s) \<subseteq> insert i (owners s)"
    and closes_owner: "i \<noteq> [] \<Longrightarrow> owners (closes i s) \<subseteq> owners s - {i}"
begin

lemma serves_live: "owners s \<subseteq> live \<Longrightarrow> i \<in> live \<Longrightarrow> owners (serves m i s) \<subseteq> live"
  using serves_owner [of m i s] by blast

lemma opens_live: "owners s \<subseteq> live \<Longrightarrow> owners (opens i s) \<subseteq> insert i live"
  using opens_owner [of i s] by blast

lemma closes_live: "owners s \<subseteq> live \<Longrightarrow> i \<noteq> [] \<Longrightarrow> owners (closes i s) \<subseteq> live - {i}"
  using closes_owner [of i s] by blast

lemma whole_connection:
  assumes "owners s \<subseteq> live" and "i \<noteq> []"
  shows "owners (closes i (fold (\<lambda>m. serves m i) ms (opens i s))) \<subseteq> live - {i}"
proof -
  have "owners (fold (\<lambda>m. serves m i) ms s') \<subseteq> insert i live" if "owners s' \<subseteq> insert i live" for s'
    using that by (induction ms arbitrary: s') (simp_all add: serves_live)
  from this [OF opens_live [OF assms(1)]] show ?thesis using closes_live assms(2) by blast
qed

end

section \<open>The server meets it\<close>

definition sub_owners :: "'w Server \<Rightarrow> string set" where
  "sub_owners s = fst ` fst ` set (s_subscriptions s)"

definition owners :: "'w Server \<Rightarrow> string set" where
  "owners s = fst ` set (s_senders s) \<union> sub_owners s \<union> fst ` set (sr_sessions (s_sessionTools s))"

text \<open>The clean-up that all transports share.\<close>

definition disconnect :: "string \<Rightarrow> 'w Server \<Rightarrow> 'w Server" where
  "disconnect i s = RemoveSessionTools i (UnsubscribeAll i (RemoveSender i s))"

definition for_owner :: "string \<Rightarrow> 'w Server \<Rightarrow> 'w Server \<Rightarrow> bool" where
  "for_owner i s s' \<longleftrightarrow> s_senders s' = s_senders s
     \<and> sub_owners s' \<subseteq> insert i (sub_owners s)
     \<and> fst ` set (sr_sessions (s_sessionTools s')) = fst ` set (sr_sessions (s_sessionTools s))"

named_theorems owner_intros \<open>operations that change what is kept for one connection only\<close>

lemma owner_refl [owner_intros]: "for_owner i s s"
  by (auto simp: for_owner_def)

lemma owner_trans: "for_owner i s s1 \<Longrightarrow> for_owner i s1 s2 \<Longrightarrow> for_owner i s s2"
  by (auto simp: for_owner_def)

lemma owner_other [owner_intros]:
  "for_owner i s (s \<lparr> s_taskStore := ts \<rparr>)" "for_owner i s (s \<lparr> s_requests := q \<rparr>)"
  by (auto simp: for_owner_def sub_owners_def)

lemma get_senders [simp]:
  "s_senders (snd (getSortedTools s)) = s_senders s" "s_senders (snd (getSortedResources s)) = s_senders s"
  "s_senders (snd (getSortedTemplates s)) = s_senders s" "s_senders (snd (getSortedPrompts s)) = s_senders s"
  by (simp_all add: get_defs Let_def split: option.splits)

lemma owner_get [owner_intros]:
  "for_owner i s (snd (getSortedTools s))" "for_owner i s (snd (getSortedResources s))"
  "for_owner i s (snd (getSortedTemplates s))" "for_owner i s (snd (getSortedPrompts s))"
  by (auto simp: for_owner_def sub_owners_def)

lemma owner_find [owner_intros]: "for_owner i s (snd (findTemplateForURI uri s))"
  using owner_get(3) [of i s] by (cases "getSortedTemplates s") (simp add: findTemplateForURI_def)

lemma sorted_keys: "fst ` set (sr_sessions (snd (sortedTools sid r))) = fst ` set (sr_sessions r)"
  by (auto simp: sortedTools_def Let_def dest!: mget_SomeD split: option.splits) force

lemma owner_tools_list [owner_intros]: "for_owner i s (snd (handleToolsList c f req s))"
proof -
  obtain ts s1 where g: "getSortedTools s = (ts, s1)" by fastforce
  then have k: "for_owner i s s1" using owner_get(1) [of i s] by simp
  obtain x r where r: "sortedTools (cx_SubscriberID c) (s_sessionTools s1) = (x, r)" by fastforce
  have "snd (handleToolsList c f req s) = s1 \<lparr> s_sessionTools := r \<rparr>" by (simp add: handleToolsList_def g r Let_def)
  moreover have "for_owner i s1 (s1 \<lparr> s_sessionTools := r \<rparr>)"
    using sorted_keys [of "cx_SubscriberID c" "s_sessionTools s1"] r by (auto simp: for_owner_def sub_owners_def)
  ultimately show ?thesis using owner_trans [OF k] by simp
qed

lemma owner_lists [owner_intros]:
  "for_owner i s (snd (handleResourcesList f req s))" "for_owner i s (snd (handleResourcesTemplatesList f req s))"
  "for_owner i s (snd (handlePromptsList f req s))"
  using owner_get [of i s]
  by (auto simp: handleResourcesList_def handleResourcesTemplatesList_def handlePromptsList_def Let_def split: prod.splits)

lemma owner_initialize [owner_intros]: "for_owner i s (snd (handleInitialize c req s))"
  by (auto simp: handleInitialize_def for_owner_def sub_owners_def Let_def split: option.splits prod.splits)

lemma owner_hidden: "for_owner i s (snd (subscription_hidden f uri s))"
  using owner_find [of i s uri] by (auto simp: subscription_hidden_def owner_refl split: option.splits prod.splits)

lemma owner_Subscribe: "for_owner i s (snd (Subscribe i uri sender s))"
  by (auto simp: Subscribe_def for_owner_def sub_owners_def dest: set_mputD split: option.splits)

lemma owner_subscribe [owner_intros]: "for_owner (cx_SubscriberID c) s (snd (handleResourcesSubscribe c f req s))"
proof -
  have "for_owner (cx_SubscriberID c) s (snd (Subscribe (cx_SubscriberID c) uri (cx_Sender c) (snd (subscription_hidden f uri s))))" for uri
    using owner_trans [OF owner_hidden owner_Subscribe] .
  then show ?thesis using owner_hidden [of "cx_SubscriberID c" s f]
    by (auto simp: handleResourcesSubscribe_def owner_refl Let_def split: option.splits prod.splits) (metis snd_conv)+
qed

lemma owner_unsubscribe [owner_intros]: "for_owner i s (snd (handleResourcesUnsubscribe c req s))"
  by (auto simp: handleResourcesUnsubscribe_def Unsubscribe_def for_owner_def sub_owners_def set_mdel split: option.splits)

lemma owner_ReadResource: "for_owner i s (fst (snd (ReadResource c f uri s st)))"
  using owner_find [of i s uri] by (auto simp: ReadResource_def owner_refl split: option.splits prod.splits)

lemma owner_read [owner_intros]: "for_owner i s (server_of (handleResourcesRead c f req s w))"
  using owner_ReadResource [of i s c f _ "with_holder w"]
  by (auto simp: handleResourcesRead_def owner_refl split: option.splits prod.splits hres.splits) (metis fst_conv snd_conv)+

lemma owner_tasks [owner_intros]:
  "for_owner i s (server_of (handleTasksCancel env c req s w))"
  "for_owner i s (server_of (handleTaskAugmentedCall env c f req p s w))"
  by (auto simp: handleTasksCancel_def handleTaskAugmentedCall_def Let_def intro!: owner_intros split: sum.splits prod.splits option.splits hres.splits)

lemma owner_tools_call [owner_intros]: "for_owner i s (server_of (handleToolsCall env c f req s w))"
  by (auto simp: handleToolsCall_def Let_def intro!: owner_intros split: option.splits prod.splits hres.splits)

lemma owner_route: "for_owner (cx_SubscriberID c) s (server_of (route env c f req s w))"
  by (simp add: route_def Let_def owner_intros)

lemma owner_tenant: "for_owner (cx_SubscriberID c) s (server_of (with_tenant env c req s w))"
  using owner_route [of "c \<lparr> cx_TenantID := _ \<rparr>" s env]
  by (auto simp: with_tenant_def owner_route owner_refl split: option.splits prod.splits hres.splits)

lemma owner_auth: "for_owner (cx_SubscriberID c) s (server_of (authenticated env c req s w))"
  by (auto simp: authenticated_def owner_tenant owner_refl split: option.splits prod.splits hres.splits)

lemma owner_body: "for_owner (cx_SubscriberID c) s (server_of (request_body env c req s w))"
  by (simp add: request_body_def owner_auth owner_intros)

lemma owner_track [owner_intros]:
  "for_owner i s (trackRequest j k s)" "for_owner i s (untrackRequest j s)" "for_owner i s (snd (cancelRequest j s))"
  by (auto simp: trackRequest_def untrackRequest_def cancelRequest_def owner_intros split: option.splits)

lemma owner_request: "for_owner (cx_SubscriberID c) s (server_of (handleRequest env c req s w))"
proof -
  let ?s1 = "if req_ID req = None then s else trackRequest (req_ID req) (e_request env) s"
  obtain r2 s2 w2 effs2 where b: "request_body env (request_ctx req c) req ?s1 w = (r2, s2, w2, effs2)" by (metis prod_cases4)
  have "for_owner (cx_SubscriberID c) ?s1 s2" using owner_body [of "request_ctx req c" ?s1 env req w] unfolding b
    by (simp add: request_ctx_def Let_def split: if_splits)
  then have "for_owner (cx_SubscriberID c) s s2" using owner_trans owner_track(1) owner_refl by (metis (full_types))
  then show ?thesis using owner_trans [OF _ owner_track(2), of "cx_SubscriberID c" s s2 "req_ID req"] b by (simp add: handleRequest_def Let_def)
qed

lemma owner_message: "for_owner (cx_SubscriberID c) s (fst (snd (HandleMessage env c data s w)))"
proof -
  have n: "for_owner (cx_SubscriberID c) s (fst (handleNotification c req s w))" for req
    using owner_track(3) [of "cx_SubscriberID c" s]
    by (auto simp: handleNotification_def Let_def owner_refl split: option.splits prod.splits) (metis snd_conv)+
  show ?thesis using owner_request [of c s env _ w] n
    by (auto simp: HandleMessage_def owner_refl server_of_def split: option.splits prod.splits hres.splits) (metis fst_conv snd_conv)+
qed

text \<open>The application may give tools to a session and take them away again.\<close>

lemma add_keys: "fst ` set (sr_sessions (snd (add sid t r))) \<subseteq> insert sid (fst ` set (sr_sessions r))"
  by (auto simp: add_def add_to_session_def Let_def dest: set_mputD split: option.splits if_splits)

lemma remove_keys: "fst ` set (sr_sessions (snd (remove sid n r))) \<subseteq> fst ` set (sr_sessions r)"
  by (auto simp: remove_def set_mdel Let_def dest: set_mputD mget_SomeD split: option.splits if_splits) (force dest!: set_mputD mget_SomeD)+

lemma AddSessionTool_server:
  "fst (snd (AddSessionTool c f sid tool s w)) = s
   \<or> fst (snd (AddSessionTool c f sid tool s w)) = s \<lparr> s_sessionTools := snd (add sid tool (s_sessionTools s)) \<rparr>"
proof (cases tool)
  case (Some t)
  obtain allowed w1 where t: "tenant_allows c f t s w = (allowed, w1)" by fastforce
  obtain e r where a: "add sid (Some t) (s_sessionTools s) = (e, r)" by fastforce
  show ?thesis unfolding Some AddSessionTool_def
    by (cases "validateToolName (tool_Name t)"; cases "cx_Done c"; cases allowed; cases e) (simp_all add: t a Let_def split: bool.split)
qed (simp add: AddSessionTool_def)

lemma RemoveSessionTool_server:
  "fst (snd (RemoveSessionTool sid n s w)) = s \<lparr> s_sessionTools := snd (remove sid n (s_sessionTools s)) \<rparr>"
  by (cases "remove sid n (s_sessionTools s)") (simp add: RemoveSessionTool_def Let_def split: option.split)

lemma session_tools_owner: "owners (s \<lparr> s_sessionTools := r \<rparr>) = fst ` set (s_senders s) \<union> sub_owners s \<union> fst ` set (sr_sessions r)"
  by (simp add: owners_def sub_owners_def)

lemma tools_owner:
  "s_senders (fst (snd (AddSessionTool c f sid tool s w))) = s_senders s"
  "owners (fst (snd (AddSessionTool c f sid tool s w))) \<subseteq> insert sid (owners s)"
proof -
  show "s_senders (fst (snd (AddSessionTool c f sid tool s w))) = s_senders s"
    by (rule disjE [OF AddSessionTool_server [of c f sid tool s w]]) simp_all
  have "owners (s \<lparr> s_sessionTools := snd (add sid tool (s_sessionTools s)) \<rparr>) \<subseteq> insert sid (owners s)"
    unfolding session_tools_owner unfolding owners_def using add_keys [of sid tool "s_sessionTools s"] by blast
  moreover have "owners s \<subseteq> insert sid (owners s)" by blast
  ultimately show "owners (fst (snd (AddSessionTool c f sid tool s w))) \<subseteq> insert sid (owners s)"
    using AddSessionTool_server [of c f sid tool s w] by (elim disjE) (simp_all only:)
qed

lemma untools_owner:
  "s_senders (fst (snd (RemoveSessionTool sid n s w))) = s_senders s" "owners (fst (snd (RemoveSessionTool sid n s w))) \<subseteq> owners s"
proof -
  show "s_senders (fst (snd (RemoveSessionTool sid n s w))) = s_senders s" by (simp add: RemoveSessionTool_server)
  show "owners (fst (snd (RemoveSessionTool sid n s w))) \<subseteq> owners s"
    unfolding RemoveSessionTool_server session_tools_owner unfolding owners_def using remove_keys [of sid n "s_sessionTools s"] by blast
qed

text \<open>The operations of a transport on the server. The context is that of the connection.\<close>

definition open_connection :: "'w NotificationSender \<Rightarrow> string \<Rightarrow> 'w Server \<Rightarrow> 'w Server" where
  "open_connection sender i s = snd (AddSender i (Some sender) s)"

definition serve_message ::
  "env \<times> 'w ctx \<times> json option \<times> 'w \<Rightarrow> string \<Rightarrow> 'w Server \<Rightarrow> 'w Server" where
  "serve_message m i s = (case m of (env, c, data, w) \<Rightarrow> fst (snd (HandleMessage env (c \<lparr> cx_SubscriberID := i \<rparr>) data s w)))"

lemma disconnect_owners: "i \<noteq> [] \<Longrightarrow> owners (disconnect i s) \<subseteq> owners s - {i}"
  by (auto simp: disconnect_def owners_def sub_owners_def RemoveSender_def UnsubscribeAll_def RemoveSessionTools_def
      removeAll_def mark_closed_def Let_def set_mdel split: if_splits)

interpretation server_connections: connection_owner owners "open_connection sender" serve_message disconnect for sender
proof
  fix i s and m :: "env \<times> 'a ctx \<times> json option \<times> 'a"
  show "owners (open_connection sender i s) \<subseteq> insert i (owners s)"
    by (auto simp: open_connection_def AddSender_def owners_def sub_owners_def split: if_splits)
  obtain env c data w where m: "m = (env, c, data, w)" by (metis prod_cases4)
  show "owners (serve_message m i s) \<subseteq> insert i (owners s)"
    using owner_message [of "c \<lparr> cx_SubscriberID := i \<rparr>" s env data w] by (auto simp: m serve_message_def for_owner_def owners_def)
qed (rule disconnect_owners)

end
