(* ===== verification/Http_Routing.thy ===== *)
theory Http_Routing
  imports Access Cache Content_Codec
begin

text \<open>
  The parts of \<open>transport/\<close> that decide before a message is read: the router by host name
  (\<open>hostrouter.go\<close>) and the headers for requests from other origins (\<open>cors.go\<close>). A response writer is a
  state with headers, the status once it is written, and the body; a handler of \<open>net/http\<close> maps the
  request, the writer and a state of its own. The router refines a finite map from patterns to handlers.
\<close>

section \<open>Requests, writers and strings\<close>

record routed_request = http_request +
  rq_Method :: string
  rq_Host :: string
  rq_Path :: string

record ResponseWriter =
  wr_Header :: "(string, string) gomap"
  wr_Status :: "int option"
  wr_Body :: string

type_synonym 'w http_handler = "routed_request \<Rightarrow> ResponseWriter \<Rightarrow> 'w \<Rightarrow> ResponseWriter \<times> 'w"

text \<open>The first status counts, and writing a body without one sends 200.\<close>

definition WriteHeader :: "int \<Rightarrow> ResponseWriter \<Rightarrow> ResponseWriter" where
  "WriteHeader code w = (case wr_Status w of None \<Rightarrow> w \<lparr> wr_Status := Some code \<rparr> | Some c \<Rightarrow> w)"

definition SetHeader :: "string \<Rightarrow> string \<Rightarrow> ResponseWriter \<Rightarrow> ResponseWriter" where
  "SetHeader k v w = w \<lparr> wr_Header := mput k v (wr_Header w) \<rparr>"

definition WriteBody :: "string \<Rightarrow> ResponseWriter \<Rightarrow> ResponseWriter" where
  "WriteBody data w = (WriteHeader 200 w) \<lparr> wr_Body := wr_Body w @ data \<rparr>"

text \<open>\<open>http.Error\<close>\<close>

definition http_Error :: "string \<Rightarrow> int \<Rightarrow> ResponseWriter \<Rightarrow> ResponseWriter" where
  "http_Error msg code w =
     WriteBody (msg @ [CHR 0x0A]) (WriteHeader code (SetHeader ''X-Content-Type-Options'' ''nosniff''
       (SetHeader ''Content-Type'' ''text/plain; charset=utf-8'' (w \<lparr> wr_Header := mdel ''Content-Length'' (wr_Header w) \<rparr>))))"

definition new_writer :: ResponseWriter where
  "new_writer = \<lparr> wr_Header = [], wr_Status = None, wr_Body = [] \<rparr>"

text \<open>\<open>strings.ToLower\<close> works on bytes if all are ASCII; the mapping of other texts is the argument \<open>uni\<close>.\<close>

definition ToLower :: "(string \<Rightarrow> string) \<Rightarrow> string \<Rightarrow> string" where
  "ToLower uni s = (if list_all (\<lambda>c. (of_char c :: nat) < 128) s then map ascii_lower s else uni s)"

definition HasSuffix :: "string \<Rightarrow> string \<Rightarrow> bool" where
  "HasSuffix s t \<longleftrightarrow> length t \<le> length s \<and> drop (length s - length t) s = t"

text \<open>\<open>strings.Index\<close>\<close>

fun str_index :: "string \<Rightarrow> string \<Rightarrow> nat option" where
  "str_index [] t = (if t = [] then Some 0 else None)"
| "str_index (c # s) t = (if HasPrefix (c # s) t then Some 0 else map_option Suc (str_index s t))"

section \<open>The router\<close>

record 'w HostRouter =
  ho_exact :: "(string, 'w http_handler) gomap"
  ho_wildcards :: "(string \<times> 'w http_handler) list"
  ho_fallback :: "'w http_handler option"
  ho_maxHosts :: int
  ho_notFoundCode :: int

definition defaultMaxHosts :: int where "defaultMaxHosts = 1000"
definition defaultNotFoundCode :: int where "defaultNotFoundCode = 421"

definition NewHostRouter :: "'w HostRouter" where
  "NewHostRouter = \<lparr> ho_exact = [], ho_wildcards = [], ho_fallback = None, ho_maxHosts = 0, ho_notFoundCode = 0 \<rparr>"

definition WithFallback :: "'w http_handler option \<Rightarrow> 'w HostRouter \<Rightarrow> 'w HostRouter" where
  "WithFallback h r = r \<lparr> ho_fallback := h \<rparr>"

definition WithMaxHosts :: "int \<Rightarrow> ('w HostRouter \<Rightarrow> 'w HostRouter) hres" where
  "WithMaxHosts n = (if n \<le> 0 then Panic ''transport: WithMaxHosts requires a positive value''
     else Ret (\<lambda>r. r \<lparr> ho_maxHosts := n \<rparr>))"

definition WithNotFoundStatus :: "int \<Rightarrow> 'w HostRouter \<Rightarrow> 'w HostRouter" where
  "WithNotFoundStatus code r = r \<lparr> ho_notFoundCode := code \<rparr>"

definition NewHostRouterWithOptions :: "('w HostRouter \<Rightarrow> 'w HostRouter) list \<Rightarrow> 'w HostRouter" where
  "NewHostRouterWithOptions opts = fold (\<lambda>opt r. opt r) opts NewHostRouter"

definition HostRouter_Handle ::
  "(string \<Rightarrow> string) \<Rightarrow> string \<Rightarrow> 'w http_handler option \<Rightarrow> 'w HostRouter \<Rightarrow> 'w HostRouter hres" where
  "HostRouter_Handle uni host handler r =
     (if host = [] then Panic ''transport: HostRouter.Handle requires a non-empty host''
      else case handler of None \<Rightarrow> Panic ''transport: HostRouter.Handle requires a non-nil handler''
      | Some h \<Rightarrow>
        let maxHosts = (if ho_maxHosts r = 0 then defaultMaxHosts else ho_maxHosts r);
            totalHosts = int (length (ho_exact r) + length (ho_wildcards r));
            normalized = ToLower uni host
        in if totalHosts \<ge> maxHosts then Panic ''transport: HostRouter host limit exceeded''
           else if HasPrefix normalized ''*.''
           then let suffix = tl normalized
                in if CHR ''.'' \<notin> set (tl suffix)
                   then Panic ''transport: HostRouter.Handle: wildcard host must have a domain (e.g. *.example.com)''
                   else if suffix \<in> fst ` set (ho_wildcards r)
                   then Panic (''transport: HostRouter.Handle: duplicate wildcard host: '' @ host)
                   else Ret (r \<lparr> ho_wildcards := ho_wildcards r @ [(suffix, h)] \<rparr>)
           else if mget (ho_exact r) normalized \<noteq> None
           then Panic (''transport: HostRouter.Handle: duplicate host: '' @ host)
           else Ret (r \<lparr> ho_exact := mput normalized h (ho_exact r) \<rparr>))"

fun remove_wildcard :: "string \<Rightarrow> (string \<times> 'h) list \<Rightarrow> (string \<times> 'h) list" where
  "remove_wildcard suffix [] = []"
| "remove_wildcard suffix (e # ws) = (if fst e = suffix then ws else e # remove_wildcard suffix ws)"

definition HostRouter_Remove :: "(string \<Rightarrow> string) \<Rightarrow> string \<Rightarrow> 'w HostRouter \<Rightarrow> bool \<times> 'w HostRouter" where
  "HostRouter_Remove uni host r =
     (let normalized = ToLower uni host
      in if HasPrefix normalized ''*.''
         then let suffix = tl normalized
              in if suffix \<in> fst ` set (ho_wildcards r)
                 then (True, r \<lparr> ho_wildcards := remove_wildcard suffix (ho_wildcards r) \<rparr>) else (False, r)
         else if mget (ho_exact r) normalized \<noteq> None
              then (True, r \<lparr> ho_exact := mdel normalized (ho_exact r) \<rparr>) else (False, r))"

fun matchWildcard :: "string \<Rightarrow> (string \<times> 'h) list \<Rightarrow> 'h option" where
  "matchWildcard host [] = None"
| "matchWildcard host ((suffix, h) # ws) =
     (let prefix = take (length host - length suffix) host
      in if HasSuffix host suffix \<and> prefix \<noteq> [] \<and> CHR ''.'' \<notin> set prefix then Some h else matchWildcard host ws)"

definition stripPort :: "string \<Rightarrow> string" where
  "stripPort host =
     (if HasPrefix host ''['' then (case str_index host '']:'' of Some i \<Rightarrow> take (Suc i) host | None \<Rightarrow> host)
      else if count_list host (CHR '':'') = 1 then takeWhile (\<lambda>c. c \<noteq> CHR '':'') host
      else host)"

text \<open>The handler that the router picks, apart from the fallback.\<close>

definition find_route :: "(string \<Rightarrow> string) \<Rightarrow> string \<Rightarrow> 'w HostRouter \<Rightarrow> 'w http_handler option" where
  "find_route uni reqHost r =
     (let host = stripPort (ToLower uni reqHost)
      in case mget (ho_exact r) host of Some h \<Rightarrow> Some h | None \<Rightarrow> matchWildcard host (ho_wildcards r))"

definition HostRouter_ServeHTTP :: "(string \<Rightarrow> string) \<Rightarrow> 'w HostRouter \<Rightarrow> 'w http_handler" where
  "HostRouter_ServeHTTP uni r req w st =
     (case find_route uni (rq_Host req) r of
        Some h \<Rightarrow> h req w st
      | None \<Rightarrow>
        (case ho_fallback r of
           Some h \<Rightarrow> h req w st
         | None \<Rightarrow> (http_Error ''no handler for host'' (if ho_notFoundCode r = 0 then defaultNotFoundCode else ho_notFoundCode r) w, st)))"

section \<open>The router refines a map of patterns\<close>

text \<open>The specification: a finite map from patterns in lower case to handlers. A host has the handler of
  its own name, or else that of the pattern in which its first label is a star.\<close>

type_synonym 'h rules = "string \<rightharpoonup> 'h"

definition star_of :: "string \<Rightarrow> string" where
  "star_of host = CHR ''*'' # dropWhile (\<lambda>c. c \<noteq> CHR ''.'') host"

definition spec_route :: "string \<Rightarrow> 'h rules \<Rightarrow> 'h option" where
  "spec_route host m =
     (case m host of Some h \<Rightarrow> Some h
      | None \<Rightarrow> if host = [] \<or> hd host = CHR ''.'' \<or> CHR ''.'' \<notin> set host then None else m (star_of host))"

definition bad_wildcard :: "string \<Rightarrow> bool" where
  "bad_wildcard p \<longleftrightarrow> HasPrefix p ''*.'' \<and> CHR ''.'' \<notin> set (drop 2 p)"

definition spec_handle :: "int \<Rightarrow> string \<Rightarrow> 'h \<Rightarrow> 'h rules \<Rightarrow> 'h rules" where
  "spec_handle limit p h m =
     (if int (card (dom m)) \<ge> limit \<or> bad_wildcard p \<or> m p \<noteq> None then m else m(p \<mapsto> h))"

definition rules_of :: "'w HostRouter \<Rightarrow> 'w http_handler rules" where
  "rules_of r = (\<lambda>p. if HasPrefix p ''*.'' then map_of (ho_wildcards r) (tl p) else mget (ho_exact r) p)"

definition wf_router :: "'w HostRouter \<Rightarrow> bool" where
  "wf_router r \<longleftrightarrow> wf_map (ho_exact r) \<and> distinct (map fst (ho_wildcards r))
     \<and> (\<forall>k \<in> fst ` set (ho_wildcards r). HasPrefix k ''.'') \<and> (\<forall>k \<in> fst ` set (ho_exact r). \<not> HasPrefix k ''*.'')"

datatype 'w router_op = RHandle string "'w http_handler option" | RRemove string

text \<open>A panic of \<open>Handle\<close> leaves the router as it was.\<close>

fun router_exec :: "(string \<Rightarrow> string) \<Rightarrow> 'w router_op \<Rightarrow> 'w HostRouter \<Rightarrow> 'w HostRouter" where
  "router_exec uni (RHandle host h) r = (case HostRouter_Handle uni host h r of Ret r' \<Rightarrow> r' | _ \<Rightarrow> r)"
| "router_exec uni (RRemove host) r = snd (HostRouter_Remove uni host r)"

fun rules_exec :: "(string \<Rightarrow> string) \<Rightarrow> int \<Rightarrow> 'w router_op \<Rightarrow> 'w http_handler rules \<Rightarrow> 'w http_handler rules" where
  "rules_exec uni limit (RHandle host h) m =
     (case h of None \<Rightarrow> m | Some h \<Rightarrow> if host = [] then m else spec_handle limit (ToLower uni host) h m)"
| "rules_exec uni limit (RRemove host) m = m(ToLower uni host := None)"

lemma suffix_append: "HasSuffix s t \<longleftrightarrow> (\<exists>p. s = p @ t)"
proof
  assume "HasSuffix s t"
  then have "s = take (length s - length t) s @ t" unfolding HasSuffix_def by (metis append_take_drop_id)
  then show "\<exists>p. s = p @ t" by blast
qed (auto simp: HasSuffix_def)

lemma one_label_match:
  assumes "HasPrefix k ''.''"
  shows "(HasSuffix host k \<and> take (length host - length k) host \<noteq> [] \<and> CHR ''.'' \<notin> set (take (length host - length k) host))
    \<longleftrightarrow> host \<noteq> [] \<and> hd host \<noteq> CHR ''.'' \<and> CHR ''.'' \<in> set host \<and> k = dropWhile (\<lambda>c. c \<noteq> CHR ''.'') host" (is "?l \<longleftrightarrow> ?r")
proof
  obtain k' where k: "k = CHR ''.'' # k'" using assms by (cases k) (auto simp: HasPrefix_def)
  assume l: ?l
  then obtain p where p: "host = p @ k" by (auto simp: suffix_append)
  with l have "p \<noteq> []" "CHR ''.'' \<notin> set p" by auto
  then show ?r using p k by (cases p) (auto simp: dropWhile_append3 dropWhile_append1)
next
  assume r: ?r
  define p where "p = takeWhile (\<lambda>c. c \<noteq> CHR ''.'') host"
  have h: "host = p @ k" using r by (simp add: p_def)
  moreover have "p \<noteq> []" using r by (cases host) (auto simp: p_def)
  moreover have "CHR ''.'' \<notin> set p" by (auto simp: p_def dest: set_takeWhileD)
  ultimately show ?l by (auto simp: suffix_append)
qed

lemma matchWildcard_lookup:
  assumes "\<forall>k \<in> fst ` set ws. HasPrefix k ''.''"
  shows "matchWildcard host ws = (if host = [] \<or> hd host = CHR ''.'' \<or> CHR ''.'' \<notin> set host then None
           else map_of ws (dropWhile (\<lambda>c. c \<noteq> CHR ''.'') host))"
  using assms
proof (induction ws)
  case (Cons e ws)
  obtain k h where e: "e = (k, h)" by (cases e)
  have "HasPrefix k ''.''" using Cons.prems e by simp
  from one_label_match [OF this, of host] Cons show ?case by (auto simp: e Let_def)
qed simp

lemma star_prefix: "CHR ''.'' \<in> set host \<Longrightarrow> HasPrefix (star_of host) ''*.''"
  by (induction host) (auto simp: star_of_def HasPrefix_def)

lemma wildcard_self:
  assumes "HasPrefix p ''*.''"
  shows "p \<noteq> []" "hd p \<noteq> CHR ''.''" "CHR ''.'' \<in> set p" "star_of p = p"
proof -
  obtain q where q: "p = CHR ''*'' # CHR ''.'' # q" using assms unfolding HasPrefix_append by auto
  show "p \<noteq> []" "hd p \<noteq> CHR ''.''" "CHR ''.'' \<in> set p" "star_of p = p" by (simp_all add: q star_of_def)
qed

lemma route_refines:
  assumes "wf_router r"
  shows "find_route uni reqHost r = spec_route (stripPort (ToLower uni reqHost)) (rules_of r)"
proof -
  let ?h = "stripPort (ToLower uni reqHost)"
  have m: "matchWildcard ?h (ho_wildcards r) = (if ?h = [] \<or> hd ?h = CHR ''.'' \<or> CHR ''.'' \<notin> set ?h then None
      else rules_of r (star_of ?h))"
    using matchWildcard_lookup [of "ho_wildcards r" ?h] assms star_prefix [of ?h] by (auto simp: wf_router_def rules_of_def star_of_def)
  show ?thesis
  proof (cases "HasPrefix ?h ''*.''")
    case True
    then have "mget (ho_exact r) ?h = None" using assms by (auto simp: wf_router_def gomap_simps)
    then show ?thesis using m wildcard_self [OF True] by (auto simp: find_route_def spec_route_def Let_def split: option.splits)
  next
    case False
    then have "rules_of r ?h = mget (ho_exact r) ?h" by (simp add: rules_of_def)
    then show ?thesis using m by (cases "mget (ho_exact r) ?h") (simp_all add: find_route_def spec_route_def Let_def)
  qed
qed

lemma card_rules:
  assumes "wf_router r"
  shows "finite (dom (rules_of r))" "card (dom (rules_of r)) = length (ho_exact r) + length (ho_wildcards r)"
proof -
  let ?w = "(#) (CHR ''*'') ` fst ` set (ho_wildcards r)"
  let ?e = "fst ` set (ho_exact r)"
  have w: "HasPrefix p ''*.'' \<Longrightarrow> p \<in> ?w \<longleftrightarrow> tl p \<in> fst ` set (ho_wildcards r)" for p
    unfolding HasPrefix_append by force
  have wp: "p \<in> ?w \<Longrightarrow> HasPrefix p ''*.''" for p using assms by (auto simp: wf_router_def HasPrefix_def)
  have d: "dom (rules_of r) = ?e \<union> ?w"
  proof (rule set_eqI)
    fix p
    show "p \<in> dom (rules_of r) \<longleftrightarrow> p \<in> ?e \<union> ?w"
    proof (cases "HasPrefix p ''*.''")
      case True
      then have "p \<notin> ?e" using assms by (auto simp: wf_router_def)
      then show ?thesis using True w [OF True] by (simp add: rules_of_def domIff map_of_eq_None_iff)
    next
      case False
      then have "p \<notin> ?w" using wp by blast
      then show ?thesis using False by (simp add: rules_of_def domIff gomap_simps)
    qed
  qed
  have disj: "?e \<inter> ?w = {}" using wp assms by (auto simp: wf_router_def)
  have "card ?e = length (ho_exact r)" using assms distinct_card [of "map fst (ho_exact r)"] by (simp add: wf_router_def wf_map_def)
  moreover have "card ?w = length (ho_wildcards r)"
    using assms distinct_card [of "map fst (ho_wildcards r)"] by (simp add: wf_router_def card_image)
  ultimately show "finite (dom (rules_of r))" "card (dom (rules_of r)) = length (ho_exact r) + length (ho_wildcards r)"
    using disj by (simp_all add: d card_Un_disjoint)
qed

lemma remove_wildcard_set: "distinct (map fst ws) \<Longrightarrow> set (remove_wildcard k ws) = {e \<in> set ws. fst e \<noteq> k}"
  by (induction ws) (auto simp: rev_image_eqI)

lemma remove_wildcard_distinct: "distinct (map fst ws) \<Longrightarrow> distinct (map fst (remove_wildcard k ws))"
  by (induction ws) (auto simp: remove_wildcard_set)

lemma remove_wildcard_get: "distinct (map fst ws) \<Longrightarrow> map_of (remove_wildcard k ws) = (map_of ws)(k := None)"
  by (induction ws) (auto simp: map_of_eq_None_iff fun_eq_iff)

lemma lower_prefix: "HasPrefix p ''*.'' \<Longrightarrow> tl p = CHR ''.'' # drop 2 p \<and> p = CHR ''*'' # tl p"
  unfolding HasPrefix_append by auto

definition router_limit :: "'w HostRouter \<Rightarrow> int" where
  "router_limit r = (if ho_maxHosts r = 0 then defaultMaxHosts else ho_maxHosts r)"

lemma rules_add_wildcard:
  assumes "HasPrefix p ''*.''" and "map_of (ho_wildcards r) (tl p) = None"
  shows "rules_of (r \<lparr> ho_wildcards := ho_wildcards r @ [(tl p, h)] \<rparr>) = (rules_of r)(p \<mapsto> h)"
proof
  fix q
  have "HasPrefix q ''*.'' \<Longrightarrow> tl q = tl p \<longleftrightarrow> q = p" using lower_prefix [of q] lower_prefix [OF assms(1)] by metis
  then show "rules_of (r \<lparr> ho_wildcards := ho_wildcards r @ [(tl p, h)] \<rparr>) q = ((rules_of r)(p \<mapsto> h)) q"
    using assms by (auto simp: rules_of_def map_add_def split: option.splits)
qed

lemma rules_add_exact:
  "\<not> HasPrefix p ''*.'' \<Longrightarrow> rules_of (r \<lparr> ho_exact := mput p h (ho_exact r) \<rparr>) = (rules_of r)(p \<mapsto> h)"
  by (auto simp: rules_of_def mget_mput fun_eq_iff)

lemma handle_refines:
  assumes "wf_router r" and "HostRouter_Handle uni host (Some h) r = x" and "host \<noteq> []"
  shows "wf_router (case x of Ret r' \<Rightarrow> r' | _ \<Rightarrow> r) \<and> rules_of (case x of Ret r' \<Rightarrow> r' | _ \<Rightarrow> r) = spec_handle (router_limit r) (ToLower uni host) h (rules_of r)
    \<and> ho_maxHosts (case x of Ret r' \<Rightarrow> r' | _ \<Rightarrow> r) = ho_maxHosts r \<and> ho_fallback (case x of Ret r' \<Rightarrow> r' | _ \<Rightarrow> r) = ho_fallback r"
proof -
  let ?n = "ToLower uni host"
  have c: "int (card (dom (rules_of r))) = int (length (ho_exact r) + length (ho_wildcards r))" using card_rules [OF assms(1)] by simp
  show ?thesis
  proof (cases "int (length (ho_exact r) + length (ho_wildcards r)) \<ge> router_limit r")
    case True
    then have "x = Panic ''transport: HostRouter host limit exceeded''"
      using assms(2,3) by (simp add: HostRouter_Handle_def router_limit_def Let_def)
    then show ?thesis using True c assms(1) by (simp add: spec_handle_def)
  next
    case lim: False
    show ?thesis
    proof (cases "HasPrefix ?n ''*.''")
      case True
      note n = lower_prefix [OF True]
      have x: "x = (if CHR ''.'' \<notin> set (drop 2 ?n) then Panic ''transport: HostRouter.Handle: wildcard host must have a domain (e.g. *.example.com)''
          else if tl ?n \<in> fst ` set (ho_wildcards r) then Panic (''transport: HostRouter.Handle: duplicate wildcard host: '' @ host)
          else Ret (r \<lparr> ho_wildcards := ho_wildcards r @ [(tl ?n, h)] \<rparr>))"
        using assms(2,3) lim True by (simp add: HostRouter_Handle_def router_limit_def Let_def drop_Suc numeral_2_eq_2)
      have g: "rules_of r ?n = map_of (ho_wildcards r) (tl ?n)" using True by (simp add: rules_of_def)
      show ?thesis
      proof (cases "CHR ''.'' \<notin> set (drop 2 ?n) \<or> tl ?n \<in> fst ` set (ho_wildcards r)")
        case bad: True
        then have "spec_handle (router_limit r) ?n h (rules_of r) = rules_of r"
          using g True by (auto simp: spec_handle_def bad_wildcard_def map_of_eq_None_iff)
        then show ?thesis using x bad assms(1) by auto
      next
        case ok: False
        then have xr: "x = Ret (r \<lparr> ho_wildcards := ho_wildcards r @ [(tl ?n, h)] \<rparr>)" using x by simp
        have "map_of (ho_wildcards r) (tl ?n) = None" using ok by (simp add: map_of_eq_None_iff)
        note rules_add_wildcard [OF True this, of h]
        then have "rules_of (r \<lparr> ho_wildcards := ho_wildcards r @ [(tl ?n, h)] \<rparr>) = spec_handle (router_limit r) ?n h (rules_of r)"
          using \<open>map_of (ho_wildcards r) (tl ?n) = None\<close> lim c g ok by (simp add: spec_handle_def bad_wildcard_def)
        moreover have "wf_router (r \<lparr> ho_wildcards := ho_wildcards r @ [(tl ?n, h)] \<rparr>)"
          using assms(1) ok n by (auto simp: wf_router_def HasPrefix_def)
        ultimately show ?thesis by (simp add: xr)
      qed
    next
      case False
      have x: "x = (if mget (ho_exact r) ?n \<noteq> None then Panic (''transport: HostRouter.Handle: duplicate host: '' @ host)
          else Ret (r \<lparr> ho_exact := mput ?n h (ho_exact r) \<rparr>))"
        using assms(2,3) lim False by (auto simp: HostRouter_Handle_def router_limit_def Let_def)
      have "wf_router (r \<lparr> ho_exact := mput ?n h (ho_exact r) \<rparr>)"
        using assms(1) False by (auto simp: wf_router_def wf_map_mput)
      moreover note rules_add_exact [OF False, where r = r and h = h]
      moreover have "rules_of r ?n = mget (ho_exact r) ?n" using False by (simp add: rules_of_def)
      ultimately show ?thesis using x lim c assms(1) False by (auto simp: spec_handle_def bad_wildcard_def)
    qed
  qed
qed

lemma remove_refines:
  assumes "wf_router r"
  shows "wf_router (snd (HostRouter_Remove uni host r)) \<and> rules_of (snd (HostRouter_Remove uni host r)) = (rules_of r)(ToLower uni host := None)
    \<and> ho_maxHosts (snd (HostRouter_Remove uni host r)) = ho_maxHosts r \<and> ho_fallback (snd (HostRouter_Remove uni host r)) = ho_fallback r
    \<and> (fst (HostRouter_Remove uni host r) \<longleftrightarrow> rules_of r (ToLower uni host) \<noteq> None)"
proof (cases "HasPrefix (ToLower uni host) ''*.''")
  case True
  have "tl p = tl (ToLower uni host) \<longleftrightarrow> p = ToLower uni host" if "HasPrefix p ''*.''" for p
    using lower_prefix [OF that] lower_prefix [OF True] by metis
  then show ?thesis using True assms
    by (auto simp: HostRouter_Remove_def Let_def wf_router_def rules_of_def fun_eq_iff remove_wildcard_get remove_wildcard_distinct
        remove_wildcard_set map_of_eq_None_iff)
next
  case False
  then show ?thesis using assms
    by (auto simp: HostRouter_Remove_def Let_def wf_router_def rules_of_def fun_eq_iff mget_mdel wf_map_mdel set_mdel)
qed

lemma router_run_refines:
  assumes "wf_router r"
  shows "wf_router (fold (router_exec uni) ops r) \<and> rules_of (fold (router_exec uni) ops r) = fold (rules_exec uni (router_limit r)) ops (rules_of r)
    \<and> router_limit (fold (router_exec uni) ops r) = router_limit r \<and> ho_fallback (fold (router_exec uni) ops r) = ho_fallback r"
  using assms
proof (induction ops arbitrary: r)
  case (Cons a ops)
  have "wf_router (router_exec uni a r) \<and> rules_of (router_exec uni a r) = rules_exec uni (router_limit r) a (rules_of r)
      \<and> router_limit (router_exec uni a r) = router_limit r \<and> ho_fallback (router_exec uni a r) = ho_fallback r"
  proof (cases a)
    case (RHandle host h)
    show ?thesis
    proof (cases "h = None \<or> host = []")
      case True
      then show ?thesis using Cons.prems by (auto simp: RHandle HostRouter_Handle_def split: option.splits)
    next
      case False
      then obtain h' where h: "h = Some h'" "host \<noteq> []" by auto
      show ?thesis using handle_refines [OF Cons.prems refl h(2), of uni h'] by (simp add: RHandle h router_limit_def)
    qed
  next
    case (RRemove host)
    then show ?thesis using remove_refines [OF Cons.prems, of uni host] by (simp add: router_limit_def)
  qed
  then show ?case using Cons.IH [of "router_exec uni a r"] by simp
qed simp

lemma spec_bounded:
  assumes "finite (dom m)" "int (card (dom m)) \<le> limit"
  shows "finite (dom (fold (rules_exec uni limit) ops m)) \<and> int (card (dom (fold (rules_exec uni limit) ops m))) \<le> limit"
  using assms
proof (induction ops arbitrary: m)
  case (Cons a ops)
  have "finite (dom (rules_exec uni limit a m)) \<and> int (card (dom (rules_exec uni limit a m))) \<le> limit"
  proof (cases a)
    case (RHandle host h)
    then show ?thesis using Cons.prems by (auto simp: spec_handle_def domIff card_insert_if split: option.splits)
  next
    case (RRemove host)
    then show ?thesis using Cons.prems using card_Diff1_le [of "dom m" "ToLower uni host"] by simp
  qed
  then show ?case using Cons.IH by simp
qed simp

text \<open>C37: Whatever hosts are registered and removed, a request goes where the rules in force send it: to the rule for
  its own host name (in lower case and without the port), or else to the rule in which its first label, and
  only that, is a star, or else to the fallback; without one the answer is 421 and no handler runs. The order
  of registration does not matter, and there are never more rules than the limit.\<close>

theorem hosts_are_routed_by_the_rules:
  "let r = fold (router_exec uni) ops (WithFallback fallback NewHostRouter);
       rules = fold (rules_exec uni 1000) ops Map.empty
   in int (card (dom rules)) \<le> 1000
    \<and> HostRouter_ServeHTTP uni r req w st =
        (case spec_route (stripPort (ToLower uni (rq_Host req))) rules of
           Some h \<Rightarrow> h req w st
         | None \<Rightarrow> (case fallback of Some h \<Rightarrow> h req w st | None \<Rightarrow> (http_Error ''no handler for host'' 421 w, st)))"
proof -
  let ?r = "WithFallback fallback (NewHostRouter :: 'a HostRouter)"
  have code: "ho_notFoundCode (fold (router_exec uni) ops r) = ho_notFoundCode r" for r :: "'a HostRouter"
  proof (induction ops arbitrary: r)
    case (Cons a ops)
    have "ho_notFoundCode (router_exec uni a r) = ho_notFoundCode r"
      by (cases a) (auto simp: HostRouter_Handle_def HostRouter_Remove_def Let_def split: option.splits hres.splits)
    then show ?case using Cons by simp
  qed simp
  have "wf_router ?r" "rules_of ?r = Map.empty" "router_limit ?r = 1000" "ho_fallback ?r = fallback" "ho_notFoundCode ?r = 0"
    by (auto simp: wf_router_def rules_of_def WithFallback_def NewHostRouter_def router_limit_def defaultMaxHosts_def)
  with router_run_refines [OF this(1), of uni ops] code [of ?r] spec_bounded [of Map.empty 1000 uni ops] show ?thesis
    by (simp add: Let_def HostRouter_ServeHTTP_def route_refines defaultNotFoundCode_def split: option.split)
qed

text \<open>A rule with a port matches no request, because the port of the request is removed and that of the rule is not.\<close>

lemma strip_no_port: "stripPort x \<noteq> p" if "count_list p (CHR '':'') = 1" "\<not> HasPrefix p ''[''"
proof
  assume e: "stripPort x = p"
  show False
  proof (cases "HasPrefix x ''[''")
    case True
    then have "HasPrefix p ''[''" using e by (auto simp: stripPort_def HasPrefix_def split: option.splits)
    then show False using that by blast
  next
    case False
    show False
    proof (cases "count_list x (CHR '':'') = 1")
      case True
      then have "p = takeWhile (\<lambda>c. c \<noteq> CHR '':'') x" using e False by (simp add: stripPort_def)
      then have "CHR '':'' \<notin> set p" by (auto dest: set_takeWhileD)
      then show False using that(1) by (simp add: count_list_0_iff)
    next
      case c: False
      then show False using e False that(1) by (simp add: stripPort_def)
    qed
  qed
qed

definition port_rule :: "string" where "port_rule = ''api.example.com:8080''"

theorem rule_with_port_is_dead:
  "HostRouter_Handle uni port_rule (Some h) NewHostRouter = Ret (NewHostRouter \<lparr> ho_exact := [(port_rule, h)] \<rparr>)
   \<and> find_route uni reqHost (NewHostRouter \<lparr> ho_exact := [(port_rule, h)] \<rparr>) = None"
proof
  have l: "ToLower uni port_rule = port_rule"
    by (simp add: port_rule_def ToLower_def ascii_lower_def)
  have "\<not> HasPrefix port_rule ''*.''" by (simp add: port_rule_def HasPrefix_def)
  then show "HostRouter_Handle uni port_rule (Some h) NewHostRouter = Ret (NewHostRouter \<lparr> ho_exact := [(port_rule, h)] \<rparr>)"
    by (simp add: HostRouter_Handle_def l NewHostRouter_def defaultMaxHosts_def Let_def mput_def) (simp add: port_rule_def)
  have "stripPort (ToLower uni reqHost) \<noteq> port_rule" by (rule strip_no_port) (simp_all add: port_rule_def HasPrefix_def)
  then show "find_route uni reqHost (NewHostRouter \<lparr> ho_exact := [(port_rule, h)] \<rparr>) = None"
    by (simp add: find_route_def NewHostRouter_def Let_def mget_def)
qed

section \<open>Requests from other origins\<close>

record CORSOptions =
  co_AllowedOrigins :: "string list"
  co_AllowedMethods :: "string list"
  co_AllowedHeaders :: "string list"
  co_ExposedHeaders :: "string list"
  co_MaxAge :: int
  co_AllowCredentials :: bool

definition defaultAllowedMethods :: "string list" where
  "defaultAllowedMethods = [''POST'', ''GET'', ''DELETE'', ''OPTIONS'']"

definition defaultAllowedHeaders :: "string list" where
  "defaultAllowedHeaders = [''Content-Type'', ''Accept'', ''Mcp-Session-Id'', ''Last-Event-ID'', ''Mcp-Protocol-Version'']"

definition defaultExposedHeaders :: "string list" where
  "defaultExposedHeaders = [''Mcp-Session-Id'']"

definition defaultMaxAge :: int where "defaultMaxAge = 86400"

definition isValidOrigin :: "string \<Rightarrow> bool" where
  "isValidOrigin origin \<longleftrightarrow> origin \<noteq> [] \<and> list_all (\<lambda>c. 32 \<le> (of_char c :: nat) \<and> of_char c \<noteq> (127 :: nat)) origin
     \<and> valid_utf8 origin"

fun str_join :: "string \<Rightarrow> string list \<Rightarrow> string" where
  "str_join sep [] = []"
| "str_join sep [s] = s"
| "str_join sep (s # t # ss) = s @ sep @ str_join sep (t # ss)"

definition header_value :: "routed_request \<Rightarrow> string \<Rightarrow> string" where
  "header_value r k = first_value (hr_Headers r) k"

definition allowWildcard :: "CORSOptions \<Rightarrow> bool" where
  "allowWildcard opts \<longleftrightarrow> co_AllowedOrigins opts = [''*'']"

text \<open>The headers for a request of an allowed origin.\<close>

definition cors_headers :: "CORSOptions \<Rightarrow> string \<Rightarrow> ResponseWriter \<Rightarrow> ResponseWriter" where
  "cors_headers opts origin w =
     (let exposed = (if co_ExposedHeaders opts = [] then defaultExposedHeaders else co_ExposedHeaders opts);
          exposedStr = str_join '', '' exposed;
          w1 = (if allowWildcard opts \<and> \<not> co_AllowCredentials opts
                then SetHeader ''Access-Control-Allow-Origin'' ''*'' w
                else SetHeader ''Vary'' ''Origin'' (SetHeader ''Access-Control-Allow-Origin'' origin w));
          w2 = (if co_AllowCredentials opts then SetHeader ''Access-Control-Allow-Credentials'' ''true'' w1 else w1)
      in if exposedStr \<noteq> [] then SetHeader ''Access-Control-Expose-Headers'' exposedStr w2 else w2)"

definition cors_preflight :: "CORSOptions \<Rightarrow> ResponseWriter \<Rightarrow> ResponseWriter" where
  "cors_preflight opts w =
     (let methods = (if co_AllowedMethods opts = [] then defaultAllowedMethods else co_AllowedMethods opts);
          headers = (if co_AllowedHeaders opts = [] then defaultAllowedHeaders else co_AllowedHeaders opts);
          maxAge = (if co_MaxAge opts \<le> 0 then defaultMaxAge else co_MaxAge opts)
      in WriteHeader 204 (SetHeader ''Access-Control-Max-Age'' (Itoa maxAge)
           (SetHeader ''Access-Control-Allow-Headers'' (str_join '', '' headers)
             (SetHeader ''Access-Control-Allow-Methods'' (str_join '', '' methods) w))))"

definition CORS :: "'w http_handler \<Rightarrow> CORSOptions \<Rightarrow> 'w http_handler hres" where
  "CORS handler opts =
     (if co_AllowedOrigins opts = [] then Panic ''transport: CORSOptions.AllowedOrigins must not be empty''
      else if allowWildcard opts \<and> co_AllowCredentials opts
      then Panic ''transport: CORSOptions.AllowCredentials must not be true when AllowedOrigins is wildcard (\"*\")''
      else Ret (\<lambda>r w st.
        let origin = header_value r ''Origin''
        in if origin = [] then handler r w st
           else if \<not> isValidOrigin origin then (http_Error ''invalid origin'' 400 w, st)
           else if \<not> (allowWildcard opts \<or> origin \<in> set (co_AllowedOrigins opts)) then handler r w st
           else let w1 = cors_headers opts origin w
                in if rq_Method r = ''OPTIONS'' then (cors_preflight opts w1, st) else handler r w1 st))"

definition allow_origin :: "ResponseWriter \<Rightarrow> string option" where
  "allow_origin w = mget (wr_Header w) ''Access-Control-Allow-Origin''"

definition allow_credentials :: "ResponseWriter \<Rightarrow> string option" where
  "allow_credentials w = mget (wr_Header w) ''Access-Control-Allow-Credentials''"

text \<open>A handler that leaves the two headers alone.\<close>

definition keeps_cors :: "'w http_handler \<Rightarrow> bool" where
  "keeps_cors h \<longleftrightarrow> (\<forall>r w st. allow_origin (fst (h r w st)) = allow_origin w \<and> allow_credentials (fst (h r w st)) = allow_credentials w)"

lemma allow_SetHeader [simp]:
  "allow_origin (SetHeader k v w) = (if k = ''Access-Control-Allow-Origin'' then Some v else allow_origin w)"
  "allow_credentials (SetHeader k v w) = (if k = ''Access-Control-Allow-Credentials'' then Some v else allow_credentials w)"
  by (simp_all add: allow_origin_def allow_credentials_def SetHeader_def mget_mput)

lemma allow_write [simp]:
  "allow_origin (WriteHeader c w) = allow_origin w" "allow_credentials (WriteHeader c w) = allow_credentials w"
  "allow_origin (WriteBody d w) = allow_origin w" "allow_credentials (WriteBody d w) = allow_credentials w"
  by (simp_all add: allow_origin_def allow_credentials_def WriteBody_def WriteHeader_def split: option.splits)

lemma allow_Error [simp]:
  "allow_origin (http_Error m c w) = allow_origin w" "allow_credentials (http_Error m c w) = allow_credentials w"
  by (simp_all add: http_Error_def) (simp_all add: allow_origin_def allow_credentials_def mget_mdel)

lemma allow_cors:
  "allow_origin (cors_headers opts o1 w) = Some (if allowWildcard opts \<and> \<not> co_AllowCredentials opts then ''*'' else o1)"
  "allow_credentials (cors_headers opts o1 w) = (if co_AllowCredentials opts then Some ''true'' else allow_credentials w)"
  "allow_origin (cors_preflight opts w) = allow_origin w" "allow_credentials (cors_preflight opts w) = allow_credentials w"
  by (simp_all add: cors_headers_def cors_preflight_def Let_def)

text \<open>C38: A browser is told that an origin may read an answer only when the options list that origin, or allow every
  origin without credentials. An answer with credentials names exactly the origin of the request, which the
  options list.\<close>

theorem only_listed_origins_may_read:
  assumes "CORS h opts = Ret g" and "keeps_cors h"
    and "allow_origin (fst (g r new_writer st)) = Some v"
  shows "header_value r ''Origin'' \<noteq> []
    \<and> (if allow_credentials (fst (g r new_writer st)) = None then v = ''*'' \<and> co_AllowedOrigins opts = [''*'']
         \<or> v = header_value r ''Origin'' \<and> v \<in> set (co_AllowedOrigins opts)
       else v = header_value r ''Origin'' \<and> v \<in> set (co_AllowedOrigins opts) \<and> co_AllowCredentials opts)"
proof -
  let ?o = "header_value r ''Origin''"
  have k: "allow_origin (fst (h r w st)) = allow_origin w" "allow_credentials (fst (h r w st)) = allow_credentials w" for w
    using assms(2) by (auto simp: keeps_cors_def)
  have n: "allow_origin new_writer = None" "allow_credentials new_writer = None"
    by (simp_all add: new_writer_def allow_origin_def allow_credentials_def)
  have c: "\<not> (allowWildcard opts \<and> co_AllowCredentials opts)" using assms(1) by (auto simp: CORS_def split: if_splits)
  have g: "g r new_writer st = (if ?o = [] then h r new_writer st
      else if \<not> isValidOrigin ?o then (http_Error ''invalid origin'' 400 new_writer, st)
      else if \<not> (allowWildcard opts \<or> ?o \<in> set (co_AllowedOrigins opts)) then h r new_writer st
      else let w1 = cors_headers opts ?o new_writer in if rq_Method r = ''OPTIONS'' then (cors_preflight opts w1, st) else h r w1 st)"
    using assms(1) by (auto simp: CORS_def Let_def split: if_splits)
  have ok: "?o \<noteq> [] \<and> (allowWildcard opts \<or> ?o \<in> set (co_AllowedOrigins opts))"
    using assms(3) k n unfolding g by (auto split: if_splits)
  have "allow_origin (fst (g r new_writer st)) = Some (if allowWildcard opts \<and> \<not> co_AllowCredentials opts then ''*'' else ?o)
      \<and> allow_credentials (fst (g r new_writer st)) = (if co_AllowCredentials opts then Some ''true'' else None)"
    using assms(3) ok k n unfolding g by (auto simp: Let_def allow_cors split: if_splits)
  then show ?thesis using assms(3) ok c by (auto simp: allowWildcard_def split: if_splits)
qed

definition demo_cors :: CORSOptions where
  "demo_cors = \<lparr> co_AllowedOrigins = [''a'', ''b''], co_AllowedMethods = [], co_AllowedHeaders = [], co_ExposedHeaders = [],
     co_MaxAge = 0, co_AllowCredentials = True \<rparr>"

definition origin_request :: "string \<Rightarrow> string \<Rightarrow> routed_request" where
  "origin_request method origin = \<lparr> hr_Headers = [(''Origin'', [origin])], hr_Query = [], rq_Method = method, rq_Host = ''h'', rq_Path = ''/'' \<rparr>"

theorem only_listed_origins_may_read_witness:
  "\<exists>g. CORS (\<lambda>r w st. (WriteBody ''ok'' w, st)) demo_cors = Ret g
     \<and> allow_origin (fst (g (origin_request ''POST'' ''b'') new_writer ())) = Some ''b''
     \<and> ''b'' \<in> set (co_AllowedOrigins demo_cors)"
proof -
  let ?h = "\<lambda>r w st. (WriteBody ''ok'' w, st) :: ResponseWriter \<times> unit"
  obtain g where g: "CORS ?h demo_cors = Ret g" by (simp add: CORS_def demo_cors_def allowWildcard_def)
  have v: "valid_utf8 ''b''" by (rule valid_utf8_ascii) simp
  have a: "allow_origin (fst (g (origin_request ''POST'' ''b'') new_writer ())) = Some ''b''"
    using g v by (auto simp: CORS_def demo_cors_def allowWildcard_def origin_request_def header_value_def first_value_def mget_def
        isValidOrigin_def Let_def allow_cors)
  have "keeps_cors ?h" by (simp add: keeps_cors_def)
  from only_listed_origins_may_read [OF g this a] show ?thesis using g a by (auto simp: demo_cors_def)
qed

end
