(* ===== verification/Streamable.thy ===== *)
theory Streamable
  imports Connections Http_Routing Pending
begin

text \<open>
  The Streamable HTTP transport (\<open>transport/streamable.go\<close>) on the model of the server, with the plain
  handler of \<open>http.go\<close>. A session is an object on a heap, reached from the table of the handler and from
  the sender that the server keeps; its identifier, which never changes, is kept with the reference. Its
  streams are the open GET requests. A request is one step, except
  for POST, which is cut where it leaves the table: before it, the request is admitted, after it, the
  message is handled. A body is a JSON tree, if it is JSON at all, with its length; encoding is an argument.
\<close>

section \<open>Requests, sessions, handler\<close>

record http_message = routed_request +
  rq_bodyLen :: int
  rq_bodyErr :: bool
  rq_Body :: "json option"
  rq_Flusher :: bool
  rq_ProtoMajor :: int

text \<open>What the transport takes from its surroundings: the externals of the server, \<open>unicode\<close> and \<open>mime\<close> for
  texts that are not plain, the encoders, the clock, and the choice of a \<open>select\<close> with two ready cases.\<close>

record transport_env =
  te_env :: env
  te_uni :: "string \<Rightarrow> string"
  te_dupParam :: "string \<Rightarrow> bool"
  te_notif :: "JSONRPCNotification \<Rightarrow> string option"
  te_resp :: "response \<Rightarrow> string option"
  te_fmtv :: "json option \<Rightarrow> string"
  te_now :: int
  te_pick :: "nat \<Rightarrow> bool"

record getStream =
  gs_addr :: nat
  gs_events :: "string list"
  gs_cap :: nat
  gs_done :: bool

text \<open>The idle timer: nil, stopped, or armed for a time.\<close>

record streamableSession =
  ss_done :: bool
  ss_getStreams :: "getStream list"
  ss_idleTimer :: "int option option"
  ss_pending :: PendingRequests

record 'u transport_world =
  tw_heap :: "nat \<Rightarrow> streamableSession"
  tw_next :: nat
  tw_nextStream :: nat
  tw_user :: 'u

record 'u streamableHandler =
  sh_server :: "'u transport_world Server"
  sh_keepAlive :: int
  sh_maxBodySize :: int
  sh_sessionTimeout :: int
  sh_getBufferSize :: nat
  sh_originValidator :: "(string \<Rightarrow> bool) option"
  sh_corsOpts :: "CORSOptions option"
  sh_sessions :: "(string, nat \<times> string) gomap"

definition WithStreamableKeepAlive :: "int \<Rightarrow> 'u streamableHandler \<Rightarrow> 'u streamableHandler" where
  "WithStreamableKeepAlive d h = h \<lparr> sh_keepAlive := d \<rparr>"

definition WithStreamableMaxBody :: "int \<Rightarrow> 'u streamableHandler \<Rightarrow> 'u streamableHandler" where
  "WithStreamableMaxBody n h = h \<lparr> sh_maxBodySize := n \<rparr>"

definition WithStreamableSessionTimeout :: "int \<Rightarrow> 'u streamableHandler \<Rightarrow> 'u streamableHandler" where
  "WithStreamableSessionTimeout d h = h \<lparr> sh_sessionTimeout := d \<rparr>"

definition WithStreamableGETBufferSize :: "int \<Rightarrow> 'u streamableHandler \<Rightarrow> 'u streamableHandler" where
  "WithStreamableGETBufferSize n h = (if n > 0 then h \<lparr> sh_getBufferSize := nat n \<rparr> else h)"

definition WithStreamableOriginValidator :: "(string \<Rightarrow> bool) option \<Rightarrow> 'u streamableHandler \<Rightarrow> 'u streamableHandler" where
  "WithStreamableOriginValidator fn h = h \<lparr> sh_originValidator := fn \<rparr>"

definition WithStreamableCORS :: "CORSOptions \<Rightarrow> 'u streamableHandler \<Rightarrow> 'u streamableHandler" where
  "WithStreamableCORS opts h = h \<lparr> sh_corsOpts := Some opts \<rparr>"

text \<open>Durations are in seconds.\<close>

definition StreamableHandler ::
  "'u transport_world Server \<Rightarrow> ('u streamableHandler \<Rightarrow> 'u streamableHandler) list \<Rightarrow> 'u streamableHandler" where
  "StreamableHandler s opts = fold (\<lambda>opt h. opt h) opts
     \<lparr> sh_server = s, sh_keepAlive = 30, sh_maxBodySize = 0, sh_sessionTimeout = 600, sh_getBufferSize = 64,
       sh_originValidator = None, sh_corsOpts = None, sh_sessions = [] \<rparr>"

section \<open>Streams of a session\<close>

definition streamableSession_close :: "streamableSession \<Rightarrow> streamableSession" where
  "streamableSession_close s =
     (if ss_done s then s
      else s \<lparr> ss_idleTimer := map_option (\<lambda>_. None) (ss_idleTimer s), ss_pending := CloseAll (ss_pending s),
               ss_done := True, ss_getStreams := map (\<lambda>g. g \<lparr> gs_done := True \<rparr>) (ss_getStreams s) \<rparr>)"

definition addGetStream :: "nat \<Rightarrow> nat \<Rightarrow> streamableSession \<Rightarrow> streamableSession" where
  "addGetStream a bufSize s =
     s \<lparr> ss_getStreams := ss_getStreams s @ [\<lparr> gs_addr = a, gs_events = [], gs_cap = bufSize, gs_done = False \<rparr>] \<rparr>"

text \<open>The last stream takes the place of the one that is removed.\<close>

fun stream_index :: "nat \<Rightarrow> getStream list \<Rightarrow> nat option" where
  "stream_index a [] = None"
| "stream_index a (g # gs) = (if gs_addr g = a then Some 0 else map_option Suc (stream_index a gs))"

definition removeGetStream :: "nat \<Rightarrow> streamableSession \<Rightarrow> streamableSession" where
  "removeGetStream a s =
     (case stream_index a (ss_getStreams s) of None \<Rightarrow> s
      | Some i \<Rightarrow> s \<lparr> ss_getStreams := butlast ((ss_getStreams s)[i := last (ss_getStreams s)]) \<rparr>)"

text \<open>A stream takes the message when its buffer has room; if it is also done, either case of the \<open>select\<close> may run.\<close>

fun send_to_one :: "(nat \<Rightarrow> bool) \<Rightarrow> string \<Rightarrow> getStream list \<Rightarrow> bool \<times> getStream list" where
  "send_to_one pick data [] = (False, [])"
| "send_to_one pick data (g # gs) =
     (if length (gs_events g) < gs_cap g \<and> (\<not> gs_done g \<or> pick (gs_addr g))
      then (True, g \<lparr> gs_events := gs_events g @ [data] \<rparr> # gs)
      else (case send_to_one pick data gs of (ok, gs') \<Rightarrow> (ok, g # gs')))"

definition sendToOneGetStream :: "(nat \<Rightarrow> bool) \<Rightarrow> string \<Rightarrow> streamableSession \<Rightarrow> bool \<times> streamableSession" where
  "sendToOneGetStream pick data s =
     (case send_to_one pick data (ss_getStreams s) of (ok, gs) \<Rightarrow> (ok, s \<lparr> ss_getStreams := gs \<rparr>))"

definition upd_session :: "nat \<Rightarrow> (streamableSession \<Rightarrow> streamableSession) \<Rightarrow> 'u transport_world \<Rightarrow> 'u transport_world" where
  "upd_session a f w = w \<lparr> tw_heap := (tw_heap w)(a := f (tw_heap w a)) \<rparr>"

definition sendNotification :: "transport_env \<Rightarrow> nat \<Rightarrow> 'u transport_world NotificationSender" where
  "sendNotification E a n w =
     (case te_notif E n of None \<Rightarrow> w
      | Some data \<Rightarrow> upd_session a (\<lambda>s. snd (sendToOneGetStream (te_pick E) data s)) w)"

section \<open>Opening and closing sessions\<close>

definition hex_digit :: "nat \<Rightarrow> char" where "hex_digit n = ''0123456789abcdef'' ! n"

definition EncodeToString :: "string \<Rightarrow> string" where
  "EncodeToString b = concat (map (\<lambda>c. [hex_digit ((of_char c :: nat) div 16), hex_digit (of_char c mod 16)]) b)"

text \<open>\<open>generateSessionID\<close> on the outcomes of the reads from \<open>crypto/rand\<close>, 16 bytes each.\<close>

fun generate_retry :: "nat \<Rightarrow> string option list \<Rightarrow> goerr + string" where
  "generate_retry (Suc n) (Some b # reads) = Inr (EncodeToString b)"
| "generate_retry (Suc n) (None # reads) = generate_retry n reads"
| "generate_retry n reads = Inl (ErrNew (''crypto/rand unavailable after '' @ Itoa 3 @ '' retries''))"

definition generateSessionID :: "string option list \<Rightarrow> goerr + string" where
  "generateSessionID reads = generate_retry 3 reads"

definition createSession ::
  "transport_env \<Rightarrow> string option list \<Rightarrow> 'u streamableHandler \<Rightarrow> 'u transport_world
   \<Rightarrow> (goerr + nat \<times> string) \<times> 'u streamableHandler \<times> 'u transport_world" where
  "createSession E reads h w =
     (case generateSessionID reads of
        Inl e \<Rightarrow> (Inl (Wrapped (''generate session ID: '' @ Error e) e), h, w)
      | Inr i \<Rightarrow>
        let a = tw_next w;
            session = \<lparr> ss_done = False, ss_getStreams = [], ss_idleTimer = None, ss_pending = NewPendingRequests \<rparr>;
            w1 = w \<lparr> tw_heap := (tw_heap w)(a := session), tw_next := Suc a \<rparr>
        in (case AddSender i (Some (sendNotification E a)) (sh_server h) of
              (Some e, s1) \<Rightarrow> (Inl (Wrapped (''register sender: '' @ Error e) e), h \<lparr> sh_server := s1 \<rparr>, upd_session a streamableSession_close w1)
            | (None, s1) \<Rightarrow>
                (Inr (a, i), h \<lparr> sh_server := s1, sh_sessions := mput i (a, i) (sh_sessions h) \<rparr>,
                 if sh_sessionTimeout h > 0
                 then upd_session a (\<lambda>s. s \<lparr> ss_idleTimer := Some (Some (te_now E + sh_sessionTimeout h)) \<rparr>) w1 else w1)))"

text \<open>The callback of the timer.\<close>

definition idle_timeout :: "string \<Rightarrow> nat \<Rightarrow> 'u streamableHandler \<Rightarrow> 'u transport_world \<Rightarrow> 'u streamableHandler \<times> 'u transport_world" where
  "idle_timeout i a h w =
     (if mget (sh_sessions h) i = None then (h, w)
      else (h \<lparr> sh_sessions := mdel i (sh_sessions h),
                sh_server := RemoveSessionTools i (UnsubscribeAll i (RemoveSender i (sh_server h))) \<rparr>,
            upd_session a streamableSession_close w))"

definition resetSessionTimer :: "transport_env \<Rightarrow> nat \<Rightarrow> 'u streamableHandler \<Rightarrow> 'u transport_world \<Rightarrow> 'u transport_world" where
  "resetSessionTimer E a h w =
     (if sh_sessionTimeout h \<le> 0 \<or> ss_idleTimer (tw_heap w a) = None \<or> ss_done (tw_heap w a) then w
      else upd_session a (\<lambda>s. s \<lparr> ss_idleTimer := Some (Some (te_now E + sh_sessionTimeout h)) \<rparr>) w)"

section \<open>POST\<close>

definition headerSessionID :: string where "headerSessionID = ''Mcp-Session-Id''"

definition defaultMaxBodySize :: int where "defaultMaxBodySize = 4 * 1048576"

text \<open>The media type of a header, which is compared with one valid type only: the text before the parameters in lower
  case. \<open>mime.ParseMediaType\<close> returns none when a parameter is given twice with different values.\<close>

definition mediaType :: "transport_env \<Rightarrow> string \<Rightarrow> string" where
  "mediaType E v = (if te_dupParam E v then [] else TrimSpace (ToLower (te_uni E) (takeWhile (\<lambda>c. c \<noteq> CHR '';'') v)))"

definition str_contains :: "string \<Rightarrow> string \<Rightarrow> bool" where
  "str_contains s t \<longleftrightarrow> str_index s t \<noteq> None"

text \<open>\<open>peek.ID\<close> is a pointer: it is nil without the field and for null.\<close>

definition isInitializeRequest :: "json option \<Rightarrow> bool" where
  "isInitializeRequest body =
     (case body of None \<Rightarrow> False
      | Some v \<Rightarrow>
        (case as_object v of None \<Rightarrow> False
         | Some obj \<Rightarrow>
           (case (field d_string [] ''method'' obj, field d_any None ''id'' obj) of
              (Some m, Some i) \<Rightarrow> m = ''initialize'' \<and> i \<noteq> None
            | _ \<Rightarrow> False)))"

text \<open>What is refused before the session is looked at.\<close>

definition post_refusal :: "transport_env \<Rightarrow> http_message \<Rightarrow> 'u streamableHandler \<Rightarrow> (string \<times> int) option" where
  "post_refusal E r h =
     (let accept = ToLower (te_uni E) (first_value (hr_Headers r) ''Accept'');
          maxSize = (if sh_maxBodySize h \<le> 0 then defaultMaxBodySize else sh_maxBodySize h)
      in if mediaType E (first_value (hr_Headers r) ''Content-Type'') \<noteq> ''application/json'' then Some (''unsupported content type'', 415)
         else if accept \<noteq> [] \<and> \<not> str_contains accept ''application/json'' \<and> \<not> str_contains accept ''text/event-stream''
              \<and> \<not> str_contains accept ''*/*'' then Some (''not acceptable'', 406)
         else if rq_bodyErr r \<or> rq_bodyLen r > maxSize then Some (''request body too large'', 413)
         else if rq_bodyLen r = 0 then Some (''empty request body'', 400)
         else None)"

text \<open>From the session on to the message, or to the answer if the message is a response of the client.\<close>

definition post_session ::
  "transport_env \<Rightarrow> http_message \<Rightarrow> ResponseWriter \<Rightarrow> bool \<Rightarrow> nat \<times> string \<Rightarrow> 'u streamableHandler \<Rightarrow> 'u transport_world
   \<Rightarrow> (ResponseWriter + bool \<times> nat \<times> string) \<times> 'u streamableHandler \<times> 'u transport_world" where
  "post_session E r rw isInit session h w =
     (let a = fst session in
      if ss_done (tw_heap w a) then (Inl (http_Error ''session terminated'' 404 rw), h, w)
      else let w1 = resetSessionTimer E a h w
           in if IsResponse (rq_Body r)
              then (Inl (WriteHeader 202 rw), h,
                    upd_session a (\<lambda>s. s \<lparr> ss_pending := Deliver_send 0 (Deliver_lookup (te_fmtv E) 0 (rq_Body r) (ss_pending s)) \<rparr>) w1)
              else (Inr (isInit, session), h, w1))"

definition post_admit ::
  "transport_env \<Rightarrow> string option list \<Rightarrow> http_message \<Rightarrow> ResponseWriter \<Rightarrow> 'u streamableHandler \<Rightarrow> 'u transport_world
   \<Rightarrow> (ResponseWriter + bool \<times> nat \<times> string) \<times> 'u streamableHandler \<times> 'u transport_world" where
  "post_admit E reads r rw h w =
     (case post_refusal E r h of
        Some (m, code) \<Rightarrow> (Inl (http_Error m code rw), h, w)
      | None \<Rightarrow>
        let sessionID = first_value (hr_Headers r) headerSessionID
        in if isInitializeRequest (rq_Body r)
           then (case createSession E reads h w of
                   (Inl e, h1, w1) \<Rightarrow> (Inl (http_Error ''failed to create session'' 500 rw), h1, w1)
                 | (Inr session, h1, w1) \<Rightarrow> post_session E r rw True session h1 w1)
           else if sessionID = [] then (Inl (http_Error ''missing Mcp-Session-Id header'' 400 rw), h, w)
           else (case mget (sh_sessions h) sessionID of
                   None \<Rightarrow> (Inl (http_Error ''unknown or expired session'' 404 rw), h, w)
                 | Some session \<Rightarrow> post_session E r rw False session h w))"

definition post_ctx :: "transport_env \<Rightarrow> nat \<Rightarrow> string \<Rightarrow> 'u transport_world ctx \<Rightarrow> 'u transport_world ctx" where
  "post_ctx E a i c = c \<lparr> cx_Sender := Some (sendNotification E a), cx_SubscriberID := i \<rparr>"

text \<open>The removal of the session of an initialize request that got no answer.\<close>

definition drop_session :: "nat \<Rightarrow> string \<Rightarrow> 'u streamableHandler \<Rightarrow> 'u transport_world \<Rightarrow> 'u streamableHandler \<times> 'u transport_world" where
  "drop_session a i h w =
     (h \<lparr> sh_sessions := mdel i (sh_sessions h), sh_server := RemoveSender i (sh_server h) \<rparr>, upd_session a streamableSession_close w)"

definition post_serve ::
  "transport_env \<Rightarrow> 'u transport_world ctx \<Rightarrow> http_message \<Rightarrow> ResponseWriter \<Rightarrow> bool \<Rightarrow> nat \<times> string \<Rightarrow> 'u streamableHandler \<Rightarrow> 'u transport_world
   \<Rightarrow> ResponseWriter hres \<times> 'u streamableHandler \<times> 'u transport_world" where
  "post_serve E c r rw isInit session h w =
     (let (a, i) = session
      in case HandleMessage (te_env E) (post_ctx E a i c) (rq_Body r) (sh_server h) w of
        (out, s1, w1, effs) \<Rightarrow>
          let h1 = h \<lparr> sh_server := s1 \<rparr>
          in (case out of
                Panic m \<Rightarrow> (Panic m, h1, w1)
              | Err e \<Rightarrow> (case (if isInit then drop_session a i h1 w1 else (h1, w1)) of
                    (h2, w2) \<Rightarrow> (Ret (http_Error ''internal error'' 500 rw), h2, w2))
              | Ret None \<Rightarrow> (case (if isInit then drop_session a i h1 w1 else (h1, w1)) of
                    (h2, w2) \<Rightarrow> (Ret (WriteHeader 202 rw), h2, w2))
              | Ret (Some resp) \<Rightarrow>
                  (case te_resp E resp of
                     None \<Rightarrow> (Ret (http_Error ''failed to encode response'' 500 rw), h1, w1)
                   | Some data \<Rightarrow>
                       (Ret (WriteBody data (SetHeader ''Content-Type'' ''application/json''
                          (if isInit then SetHeader headerSessionID i rw else rw))), h1, w1))))"

definition handlePost ::
  "transport_env \<Rightarrow> 'u transport_world ctx \<Rightarrow> string option list \<Rightarrow> http_message \<Rightarrow> ResponseWriter \<Rightarrow> 'u streamableHandler \<Rightarrow> 'u transport_world
   \<Rightarrow> ResponseWriter hres \<times> 'u streamableHandler \<times> 'u transport_world" where
  "handlePost E c reads r rw h w =
     (case post_admit E reads r rw h w of
        (Inl rw1, h1, w1) \<Rightarrow> (Ret rw1, h1, w1)
      | (Inr (isInit, session), h1, w1) \<Rightarrow> post_serve E c r rw isInit session h1 w1)"

section \<open>GET and DELETE\<close>

text \<open>\<open>handleGet\<close> up to its loop: the answer, and the stream it opened.\<close>

definition handleGet ::
  "transport_env \<Rightarrow> http_message \<Rightarrow> ResponseWriter \<Rightarrow> 'u streamableHandler \<Rightarrow> 'u transport_world
   \<Rightarrow> ResponseWriter \<times> (nat \<times> nat) option \<times> 'u transport_world" where
  "handleGet E r rw h w =
     (let accept = ToLower (te_uni E) (first_value (hr_Headers r) ''Accept'');
          sessionID = first_value (hr_Headers r) headerSessionID
      in if \<not> rq_Flusher r then (http_Error ''streaming not supported'' 500 rw, None, w)
         else if accept \<noteq> [] \<and> \<not> str_contains accept ''text/event-stream'' \<and> \<not> str_contains accept ''*/*''
         then (http_Error ''not acceptable'' 406 rw, None, w)
         else if sessionID = [] then (http_Error ''missing Mcp-Session-Id header'' 400 rw, None, w)
         else (case mget (sh_sessions h) sessionID of
            None \<Rightarrow> (http_Error ''unknown or expired session'' 404 rw, None, w)
          | Some (a, i) \<Rightarrow>
            if ss_done (tw_heap w a) then (http_Error ''session terminated'' 404 rw, None, w)
            else let w1 = resetSessionTimer E a h w;
                     g = tw_nextStream w1;
                     w2 = (upd_session a (addGetStream g (sh_getBufferSize h)) w1) \<lparr> tw_nextStream := Suc g \<rparr>;
                     rw1 = SetHeader ''Cache-Control'' ''no-cache'' (SetHeader ''Content-Type'' ''text/event-stream'' rw);
                     rw2 = (if rq_ProtoMajor r = 1 then SetHeader ''Connection'' ''keep-alive'' rw1 else rw1)
                 in (WriteHeader 200 rw2, Some (a, g), w2)))"

definition newline :: char where "newline = CHR 0x0A"

text \<open>The cases of the loop: an event, a tick, and the return, which removes the stream.\<close>

definition get_event :: "nat \<Rightarrow> nat \<Rightarrow> ResponseWriter \<Rightarrow> 'u transport_world \<Rightarrow> ResponseWriter \<times> 'u transport_world" where
  "get_event a g rw w =
     (case find (\<lambda>x. gs_addr x = g) (ss_getStreams (tw_heap w a)) of
        Some x \<Rightarrow>
          (case gs_events x of [] \<Rightarrow> (rw, w)
           | data # rest \<Rightarrow>
             (WriteBody (''event: message'' @ [newline] @ ''data: '' @ data @ [newline, newline]) rw,
              upd_session a (\<lambda>s. s \<lparr> ss_getStreams :=
                map (\<lambda>y. if gs_addr y = g then y \<lparr> gs_events := rest \<rparr> else y) (ss_getStreams s) \<rparr>) w))
      | None \<Rightarrow> (rw, w))"

definition get_tick :: "ResponseWriter \<Rightarrow> ResponseWriter" where
  "get_tick rw = WriteBody ('': keepalive'' @ [newline, newline]) rw"

definition get_return :: "nat \<Rightarrow> nat \<Rightarrow> 'u transport_world \<Rightarrow> 'u transport_world" where
  "get_return a g w = upd_session a (removeGetStream g) w"

definition handleDelete ::
  "http_message \<Rightarrow> ResponseWriter \<Rightarrow> 'u streamableHandler \<Rightarrow> 'u transport_world \<Rightarrow> ResponseWriter \<times> 'u streamableHandler \<times> 'u transport_world" where
  "handleDelete r rw h w =
     (let sessionID = first_value (hr_Headers r) headerSessionID
      in if sessionID = [] then (http_Error ''missing Mcp-Session-Id header'' 400 rw, h, w)
         else (case mget (sh_sessions h) sessionID of
            None \<Rightarrow> (http_Error ''unknown or expired session'' 404 rw, h, w)
          | Some (a, i) \<Rightarrow>
            (WriteHeader 200 rw,
             h \<lparr> sh_sessions := mdel sessionID (sh_sessions h),
                 sh_server := RemoveSessionTools sessionID (UnsubscribeAll sessionID (RemoveSender sessionID (sh_server h))) \<rparr>,
             upd_session a streamableSession_close w)))"

definition origin_refused :: "http_message \<Rightarrow> 'u streamableHandler \<Rightarrow> bool" where
  "origin_refused r h =
     (case sh_originValidator h of None \<Rightarrow> False
      | Some validate \<Rightarrow> let origin = first_value (hr_Headers r) ''Origin'' in origin \<noteq> [] \<and> \<not> validate origin)"

text \<open>\<open>ServeHTTP\<close>; of a GET only the opening of the stream.\<close>

definition streamable_ServeHTTP ::
  "transport_env \<Rightarrow> 'u transport_world ctx \<Rightarrow> string option list \<Rightarrow> http_message \<Rightarrow> ResponseWriter \<Rightarrow> 'u streamableHandler \<Rightarrow> 'u transport_world
   \<Rightarrow> ResponseWriter hres \<times> 'u streamableHandler \<times> 'u transport_world" where
  "streamable_ServeHTTP E c reads r rw h w =
     (if origin_refused r h then (Ret (http_Error ''origin not allowed'' 403 rw), h, w)
      else if rq_Method r = ''POST'' then handlePost E c reads r rw h w
      else if rq_Method r = ''GET'' then (case handleGet E r rw h w of (rw1, _, w1) \<Rightarrow> (Ret rw1, h, w1))
      else if rq_Method r = ''DELETE'' then (case handleDelete r rw h w of (rw1, h1, w1) \<Rightarrow> (Ret rw1, h1, w1))
      else (Ret (http_Error ''method not allowed'' 405 rw), h, w))"

section \<open>The plain handler\<close>

text \<open>\<open>Handler\<close> of \<open>http.go\<close>: one message per request, without sessions.\<close>

definition defaultHTTPMaxBodySize :: int where "defaultHTTPMaxBodySize = 4 * 1048576"

definition http_Handler ::
  "transport_env \<Rightarrow> int list \<Rightarrow> 'w ctx \<Rightarrow> http_message \<Rightarrow> ResponseWriter \<Rightarrow> 'w Server \<Rightarrow> 'w \<Rightarrow> ResponseWriter hres \<times> 'w Server \<times> 'w" where
  "http_Handler E maxBodySize c r rw s w =
     (let limit = (case maxBodySize of n # _ \<Rightarrow> if n > 0 then n else defaultHTTPMaxBodySize | [] \<Rightarrow> defaultHTTPMaxBodySize)
      in if rq_Method r \<noteq> ''POST'' then (Ret (http_Error ''method not allowed'' 405 rw), s, w)
         else if rq_bodyErr r \<or> rq_bodyLen r > limit then (Ret (http_Error ''request body too large'' 413 rw), s, w)
         else if rq_bodyLen r = 0 then (Ret (http_Error ''empty request body'' 400 rw), s, w)
         else (case HandleMessage (te_env E) c (rq_Body r) s w of
            (Panic m, s1, w1, _) \<Rightarrow> (Panic m, s1, w1)
          | (Err e, s1, w1, _) \<Rightarrow> (Ret (http_Error ''internal error'' 500 rw), s1, w1)
          | (Ret None, s1, w1, _) \<Rightarrow> (Ret (WriteHeader 204 rw), s1, w1)
          | (Ret (Some resp), s1, w1, _) \<Rightarrow>
              (case te_resp E resp of
                 None \<Rightarrow> (Ret (http_Error ''failed to encode response'' 500 (SetHeader ''Content-Type'' ''application/json'' rw)), s1, w1)
               | Some data \<Rightarrow> (Ret (WriteBody data (SetHeader ''Content-Type'' ''application/json'' rw)), s1, w1))))"

section \<open>Sequences of requests\<close>

text \<open>Everything that happens to a handler, one after the other: requests, the reading and the end of GET streams, timers,
  and the tools that the application gives to a session or takes from it.\<close>

datatype 'u transport_op =
    Request transport_env "'u transport_world ctx" "string option list" http_message
  | StreamEvent nat nat | StreamReturn nat nat | TimerFires string nat
  | AddTool "'u transport_world ctx" "'u transport_world ItemFilter option" string "'u transport_world Tool option" | RemoveTool string string

text \<open>The part of an operation of the server that the handler keeps.\<close>

definition on_server :: "'u streamableHandler \<Rightarrow> 'x \<times> 'u transport_world Server \<times> 'u transport_world \<Rightarrow> 'u streamableHandler \<times> 'u transport_world" where
  "on_server h out = (case out of (_, s', w') \<Rightarrow> (h \<lparr> sh_server := s' \<rparr>, w'))"

fun transport_exec :: "'u transport_op \<Rightarrow> 'u streamableHandler \<times> 'u transport_world \<Rightarrow> 'u streamableHandler \<times> 'u transport_world" where
  "transport_exec (Request E c reads r) (h, w) = snd (streamable_ServeHTTP E c reads r new_writer h w)"
| "transport_exec (StreamEvent a g) (h, w) = (h, snd (get_event a g new_writer w))"
| "transport_exec (StreamReturn a g) (h, w) = (h, get_return a g w)"
| "transport_exec (TimerFires i a) (h, w) = idle_timeout i a h w"
| "transport_exec (AddTool c f i tool) (h, w) = on_server h (AddSessionTool c f i tool (sh_server h) w)"
| "transport_exec (RemoveTool i n) (h, w) = on_server h (RemoveSessionTool i n (sh_server h) w)"

definition live :: "'u streamableHandler \<Rightarrow> string set" where
  "live h = fst ` set (sh_sessions h)"

definition tidy :: "'u streamableHandler \<Rightarrow> bool" where
  "tidy h \<longleftrightarrow> fst ` set (s_senders (sh_server h)) = live h \<and> owners (sh_server h) \<subseteq> live h \<and> [] \<notin> live h
     \<and> wf_map (sh_sessions h) \<and> (\<forall>(k, session) \<in> set (sh_sessions h). snd session = k)"

section \<open>One stream per message\<close>

text \<open>A message goes to at most one stream of a session, at the end of its buffer; it is dropped only when no stream
  has room.\<close>

theorem message_goes_to_one_stream:
  assumes "sendToOneGetStream pick data s = (ok, s')"
  shows "if ok then \<exists>pre g post. ss_getStreams s = pre @ g # post \<and> length (gs_events g) < gs_cap g
           \<and> ss_getStreams s' = pre @ g \<lparr> gs_events := gs_events g @ [data] \<rparr> # post
         else s' = s \<and> (\<forall>g \<in> set (ss_getStreams s). length (gs_events g) \<ge> gs_cap g \<or> gs_done g)"
proof -
  have one: "if fst (send_to_one pick data gs) then \<exists>pre g post. gs = pre @ g # post \<and> length (gs_events g) < gs_cap g
        \<and> snd (send_to_one pick data gs) = pre @ g \<lparr> gs_events := gs_events g @ [data] \<rparr> # post
      else snd (send_to_one pick data gs) = gs \<and> (\<forall>g \<in> set gs. length (gs_events g) \<ge> gs_cap g \<or> gs_done g)" for gs
  proof (induction gs)
    case (Cons g gs)
    show ?case
    proof (cases "length (gs_events g) < gs_cap g \<and> (\<not> gs_done g \<or> pick (gs_addr g))")
      case True
      then show ?thesis by (auto intro: exI [of _ "[]"])
    next
      case False
      show ?thesis
      proof (cases "fst (send_to_one pick data gs)")
        case True
        then obtain pre x post where "gs = pre @ x # post" "length (gs_events x) < gs_cap x"
          "snd (send_to_one pick data gs) = pre @ x \<lparr> gs_events := gs_events x @ [data] \<rparr> # post" using Cons by auto
        then show ?thesis using False True by (auto split: prod.splits intro!: exI [of _ "g # pre"])
      qed (use Cons False in \<open>auto split: prod.splits\<close>)
    qed
  qed simp
  obtain b gs where p: "send_to_one pick data (ss_getStreams s) = (b, gs)" by fastforce
  then have "b = ok" "s' = s \<lparr> ss_getStreams := gs \<rparr>" using assms by (simp_all add: sendToOneGetStream_def)
  then show ?thesis using one [of "ss_getStreams s"] p by (cases ok) simp_all
qed

section \<open>Sessions that are gone leave nothing behind\<close>

lemma init_is_no_notification:
  assumes "isInitializeRequest (Some v)" and "UnmarshalRequest v = Some req"
  shows "\<not> IsNotification req"
proof -
  obtain obj m i where o1: "as_object v = Some obj" "field d_any None ''id'' obj = Some (Some i)"
    using assms(1) by (auto simp: isInitializeRequest_def split: option.splits)
  then have "members ''id'' obj \<noteq> []" by (auto simp: field_def)
  then have "field d_raw None ''id'' obj \<noteq> Some None" by (simp add: field_raw_None)
  then show ?thesis using assms(2) o1 by (auto simp: UnmarshalRequest_def IsNotification_def split: option.splits)
qed

lemma init_is_answered:
  assumes "isInitializeRequest body" and "HandleMessage env c body s w = (out, s1, w1, effs)"
  shows "out \<noteq> Ret None \<and> (\<forall>e. out \<noteq> Err e)"
proof -
  obtain v where v: "body = Some v" using assms(1) by (cases body) (auto simp: isInitializeRequest_def)
  have "handleRequest env c req s w \<noteq> (Err e, x)" for req e x
    using handled_request [of req env c s w] by (auto simp: handled_ok_def)
  then show ?thesis using assms init_is_no_notification [of v]
    by (auto simp: v HandleMessage_def split: option.splits if_splits prod.splits hres.splits)
qed

lemma message_not_err: "fst (HandleMessage env c data s w) \<noteq> Err e"
proof -
  have "handleRequest env c req s w \<noteq> (Err e, x)" for req e x
    using handled_request [of req env c s w] by (auto simp: handled_ok_def)
  then show ?thesis by (auto simp: HandleMessage_def split: option.splits prod.splits hres.splits)
qed

lemma create_session:
  assumes "createSession E reads h w = (out, h1, w1)"
  shows "(\<exists>e. out = Inl e \<and> h1 = h) \<or> (\<exists>a i. out = Inr (a, i) \<and> i \<noteq> [] \<and> generateSessionID reads = Inr i \<and> mget (s_senders (sh_server h)) i = None
      \<and> h1 = h \<lparr> sh_server := open_connection (sendNotification E a) i (sh_server h), sh_sessions := mput i (a, i) (sh_sessions h) \<rparr>
      \<and> s_senders (sh_server h1) = mput i (sendNotification E a) (s_senders (sh_server h)) \<and> \<not> ss_done (tw_heap w1 a))"
proof (cases "generateSessionID reads")
  case (Inl e)
  then show ?thesis using assms by (auto simp: createSession_def)
next
  case (Inr i)
  show ?thesis
  proof (cases "i = [] \<or> mget (s_senders (sh_server h)) i \<noteq> None")
    case True
    then obtain e where "AddSender i (Some (sendNotification E (tw_next w))) (sh_server h) = (Some e, sh_server h)"
      by (cases "i = []") (auto simp: AddSender_def)
    then show ?thesis using assms Inr by (auto simp: createSession_def Let_def)
  next
    case False
    then show ?thesis using assms Inr
      by (intro disjI2 exI [of _ "tw_next w"] exI [of _ i])
         (auto simp: createSession_def AddSender_def open_connection_def upd_session_def Let_def split: if_splits)
  qed
qed

lemma create_tidy:
  assumes "tidy h" and "createSession E reads h w = (Inr session, h1, w1)"
  shows "tidy h1 \<and> snd session \<in> live h1"
proof -
  obtain a i where s: "session = (a, i)" "i \<noteq> []"
    and h1: "h1 = h \<lparr> sh_server := open_connection (sendNotification E a) i (sh_server h), sh_sessions := mput i (a, i) (sh_sessions h) \<rparr>"
    and snd: "s_senders (sh_server h1) = mput i (sendNotification E a) (s_senders (sh_server h))"
    using create_session [OF assms(2)] by auto
  have "owners (sh_server h1) \<subseteq> insert i (live h)"
    using server_connections.opens_live [of "sh_server h" "live h" "sendNotification E a" i] assms(1) by (simp add: h1 tidy_def)
  then show ?thesis using assms(1) s snd by (auto simp: h1 tidy_def live_def wf_map_mput dest: set_mputD)
qed

lemma serve_tidy:
  assumes "tidy h" and "snd session \<in> live h" and "isInit \<Longrightarrow> isInitializeRequest (rq_Body r)"
    and "post_serve E c r rw isInit session h w = (out, h1, w1)"
  shows "tidy h1 \<and> sh_sessions h1 = sh_sessions h"
proof -
  obtain a i where s: "session = (a, i)" by (cases session)
  obtain o1 s1 w2 effs where m: "HandleMessage (te_env E) (post_ctx E a i c) (rq_Body r) (sh_server h) w = (o1, s1, w2, effs)"
    by (metis prod_cases4)
  have ne: "\<And>e. o1 \<noteq> Err e" using message_not_err [of "te_env E" "post_ctx E a i c" "rq_Body r" "sh_server h" w] m by simp
  have nn: "isInit \<Longrightarrow> o1 \<noteq> Ret None" using init_is_answered [OF assms(3) m] by simp
  have h1: "h1 = h \<lparr> sh_server := s1 \<rparr>"
    using assms(4) m ne nn by (auto simp: post_serve_def s Let_def split: hres.splits option.splits if_splits)
  have f: "for_owner i (sh_server h) s1"
    using owner_message [of "post_ctx E a i c" "sh_server h" "te_env E" "rq_Body r" w] m by (simp add: post_ctx_def)
  have "owners s1 \<subseteq> live h" using f assms(1,2) s by (auto simp: for_owner_def owners_def tidy_def)
  moreover have "s_senders s1 = s_senders (sh_server h)" using f by (simp add: for_owner_def)
  ultimately show ?thesis using assms(1) by (simp add: h1 tidy_def live_def)
qed

lemma close_tidy:
  assumes "tidy h" and "i \<noteq> []"
  shows "tidy (h \<lparr> sh_sessions := mdel i (sh_sessions h),
    sh_server := RemoveSessionTools i (UnsubscribeAll i (RemoveSender i (sh_server h))) \<rparr>)"
proof -
  have "owners (disconnect i (sh_server h)) \<subseteq> live h - {i}"
    using server_connections.closes_live [of "sh_server h" "live h" i] assms by (simp add: tidy_def)
  moreover have "fst ` set (s_senders (disconnect i (sh_server h))) = fst ` set (s_senders (sh_server h)) - {i}"
    using assms(2) by (simp add: disconnect_def RemoveSender_def UnsubscribeAll_def RemoveSessionTools_def)
  ultimately show ?thesis using assms(1) by (auto simp: tidy_def live_def disconnect_def wf_map_mdel set_mdel)
qed

lemma session_admits:
  assumes "post_session E r rw b session h w = (out, h1, w1)"
  shows "h1 = h \<and> (\<forall>b' s'. out = Inr (b', s') \<longrightarrow> b' = b \<and> s' = session)"
  using assms by (auto simp: post_session_def Let_def split: if_splits)

lemma session_of_live:
  assumes "tidy h" and "mget (sh_sessions h) k = Some session"
  shows "snd session = k \<and> k \<in> live h"
proof -
  have m: "(k, session) \<in> set (sh_sessions h)" using assms(2) by (rule mget_SomeD)
  then have "k \<in> live h" unfolding live_def by (metis fst_conv imageI)
  moreover have "snd session = k" using assms(1) m by (auto simp: tidy_def)
  ultimately show ?thesis by simp
qed

lemma admit_tidy:
  assumes "tidy h" and "post_admit E reads r rw h w = (out, h1, w1)"
  shows "tidy h1 \<and> (\<forall>b session. out = Inr (b, session) \<longrightarrow> snd session \<in> live h1 \<and> (b \<longrightarrow> isInitializeRequest (rq_Body r)))"
proof (cases "post_refusal E r h")
  case None
  note ref = this
  show ?thesis
  proof (cases "isInitializeRequest (rq_Body r)")
    case True
    obtain x h2 w2 where c: "createSession E reads h w = (x, h2, w2)" by (metis prod_cases3)
    show ?thesis
    proof (cases x)
      case (Inl e)
      then show ?thesis using assms c create_session [OF c] True ref by (auto simp: post_admit_def)
    next
      case (Inr session)
      then have p: "post_session E r rw True session h2 w2 = (out, h1, w1)" using assms(2) c True ref by (simp add: post_admit_def)
      show ?thesis using session_admits [OF p] create_tidy [OF assms(1)] c Inr True by auto
    qed
  next
    case False
    show ?thesis
    proof (cases "mget (sh_sessions h) (first_value (hr_Headers r) headerSessionID)")
      case (Some session)
      then have l: "snd session \<in> live h" using session_of_live [OF assms(1) Some] by simp
      show ?thesis
      proof (cases "first_value (hr_Headers r) headerSessionID = []")
        case e: False
        then have p: "post_session E r rw False session h w = (out, h1, w1)"
          using assms(2) ref False Some by (simp add: post_admit_def)
        show ?thesis using session_admits [OF p] l assms(1) by auto
      qed (use assms ref False in \<open>auto simp: post_admit_def\<close>)
    qed (use assms ref False in \<open>auto simp: post_admit_def Let_def split: if_splits\<close>)
  qed
next
  case (Some p)
  then show ?thesis using assms by (cases p) (auto simp: post_admit_def)
qed

lemma post_tidy:
  assumes "tidy h"
  shows "tidy (fst (snd (handlePost E c reads r rw h w)))"
proof -
  obtain x h1 w1 where a: "post_admit E reads r rw h w = (x, h1, w1)" by (metis prod_cases3)
  note t = admit_tidy [OF assms a]
  show ?thesis
  proof (cases x)
    case (Inl rw1)
    then show ?thesis using t a by (simp add: handlePost_def)
  next
    case (Inr p)
    obtain b session where p: "p = (b, session)" by (cases p)
    obtain out h2 w2 where s: "post_serve E c r rw b session h1 w1 = (out, h2, w2)" by (metis prod_cases3)
    have "tidy h2" using serve_tidy [OF _ _ _ s] t Inr p by simp
    then show ?thesis using a s Inr p by (simp add: handlePost_def)
  qed
qed

text \<open>The application gives tools only to sessions that are open.\<close>

fun adds_to_open :: "'u transport_op list \<Rightarrow> 'u streamableHandler \<times> 'u transport_world \<Rightarrow> bool" where
  "adds_to_open [] st \<longleftrightarrow> True"
| "adds_to_open (op # ops) st \<longleftrightarrow>
     (case op of AddTool c f i tool \<Rightarrow> i \<in> live (fst st) | _ \<Rightarrow> True) \<and> adds_to_open ops (transport_exec op st)"

lemma server_tidy:
  assumes "tidy h" and "s_senders s' = s_senders (sh_server h)" and "owners s' \<subseteq> live h"
  shows "tidy (h \<lparr> sh_server := s' \<rparr>)"
  using assms by (auto simp: tidy_def live_def)

lemma tools_tidy:
  "tidy h \<Longrightarrow> i \<in> live h \<Longrightarrow> tidy (fst (on_server h (AddSessionTool c f i tool (sh_server h) w)))"
  "tidy h \<Longrightarrow> tidy (fst (on_server h (RemoveSessionTool i n (sh_server h) w)))"
proof -
  assume t: "tidy h"
  then have o: "owners (sh_server h) \<subseteq> live h" by (simp add: tidy_def)
  show "i \<in> live h \<Longrightarrow> tidy (fst (on_server h (AddSessionTool c f i tool (sh_server h) w)))"
    using server_tidy [OF t tools_owner(1) [of c f i tool "sh_server h" w]] tools_owner(2) [of c f i tool "sh_server h" w] o
    by (simp add: on_server_def case_prod_unfold) blast
  show "tidy (fst (on_server h (RemoveSessionTool i n (sh_server h) w)))"
    using server_tidy [OF t untools_owner(1) [of i n "sh_server h" w]] untools_owner(2) [of i n "sh_server h" w] o
    by (simp add: on_server_def case_prod_unfold)
qed

lemma request_tidy:
  assumes "tidy h"
  shows "tidy (fst (snd (streamable_ServeHTTP E c reads r new_writer h w)))"
proof -
  have "tidy (fst (snd (handleDelete r new_writer h w)))"
    using assms close_tidy [of h] by (auto simp: handleDelete_def Let_def split: option.splits prod.splits)
  then show ?thesis using assms post_tidy [of h E c reads r new_writer w]
    by (auto simp: streamable_ServeHTTP_def split: prod.splits)
qed

lemma timeout_tidy: "tidy h \<Longrightarrow> tidy (fst (idle_timeout i a h w))"
proof (cases "mget (sh_sessions h) i")
  case (Some s)
  assume t: "tidy h"
  then have "i \<noteq> []" using session_of_live [of h i s] Some by (auto simp: tidy_def)
  then show ?thesis using t close_tidy [of h i] Some by (simp add: idle_timeout_def)
qed (simp add: idle_timeout_def)

lemma exec_tidy:
  assumes "tidy (fst st)" and "case op of AddTool c f i tool \<Rightarrow> i \<in> live (fst st) | _ \<Rightarrow> True"
  shows "tidy (fst (transport_exec op st))"
  using assms by (cases st; cases op) (simp_all add: request_tidy timeout_tidy tools_tidy)

lemma run_tidy: "tidy (fst st) \<Longrightarrow> adds_to_open ops st \<Longrightarrow> tidy (fst (fold transport_exec ops st))"
  by (induction ops arbitrary: st) (simp_all add: exec_tidy)

text \<open>The options of a handler leave its server and its sessions alone.\<close>

definition is_option :: "('u streamableHandler \<Rightarrow> 'u streamableHandler) \<Rightarrow> bool" where
  "is_option opt \<longleftrightarrow> (\<exists>d n t b v co. opt \<in> {WithStreamableKeepAlive d, WithStreamableMaxBody n, WithStreamableSessionTimeout t,
     WithStreamableGETBufferSize b, WithStreamableOriginValidator v, WithStreamableCORS co})"

lemma options_keep:
  assumes "\<forall>opt \<in> set opts. is_option opt"
  shows "sh_server (StreamableHandler s opts) = s \<and> sh_sessions (StreamableHandler s opts) = []"
proof -
  have "sh_server (fold (\<lambda>opt h. opt h) opts h) = sh_server h \<and> sh_sessions (fold (\<lambda>opt h. opt h) opts h) = sh_sessions h" for h
    using assms
  proof (induction opts arbitrary: h)
    case (Cons opt opts)
    have "sh_server (opt h) = sh_server h \<and> sh_sessions (opt h) = sh_sessions h"
      using Cons.prems by (auto simp: is_option_def WithStreamableKeepAlive_def WithStreamableMaxBody_def WithStreamableSessionTimeout_def
          WithStreamableGETBufferSize_def WithStreamableOriginValidator_def WithStreamableCORS_def)
    then show ?case using Cons by simp
  qed simp
  then show ?thesis by (simp add: StreamableHandler_def)
qed

text \<open>C7: While requests do not overlap, the server keeps something for a connection only as long as its session is open:
  whatever the options of the handler, after any sequence of requests, stream events, timers and changes of the tools
  of open sessions, the senders are exactly those of the open sessions, and
  every subscription and every set of session tools belongs to an open session.\<close>

theorem closed_sessions_leave_nothing:
  fixes s :: "'u transport_world Server"
  assumes "owners s = {}" and "\<forall>opt \<in> set opts. is_option opt" and "adds_to_open ops (StreamableHandler s opts, w)"
  shows "let h = fst (fold transport_exec ops (StreamableHandler s opts, w))
         in fst ` set (s_senders (sh_server h)) = live h \<and> sub_owners (sh_server h) \<subseteq> live h
            \<and> fst ` set (sr_sessions (s_sessionTools (sh_server h))) \<subseteq> live h"
proof -
  have "tidy (StreamableHandler s opts)"
    using assms(1) options_keep [OF assms(2), of s] by (simp add: tidy_def live_def owners_def)
  then show ?thesis using run_tidy [OF _ assms(3)] by (simp add: tidy_def owners_def Let_def)
qed

lemma init_method:
  assumes "isInitializeRequest (Some v)" and "UnmarshalRequest v = Some req"
  shows "req_Method req = ''initialize''" and "\<not> IsResponse (Some v)"
proof -
  obtain obj where "as_object v = Some obj" "field d_string [] ''method'' obj = Some ''initialize''"
    using assms(1) by (auto simp: isInitializeRequest_def split: option.splits)
  then show "req_Method req = ''initialize''" "\<not> IsResponse (Some v)"
    using assms(2) by (auto simp: UnmarshalRequest_def IsResponse_def split: option.splits)
qed

lemma initialize_opens:
  assumes "post_refusal E r h = None" and "isInitializeRequest (rq_Body r)" and "\<not> IsResponse (rq_Body r)"
    and "generateSessionID reads = Inr i" and "i \<noteq> []" and "mget (s_senders (sh_server h)) i = None"
  shows "\<exists>h1 w1. post_admit E reads r rw h w = (Inr (True, tw_next w, i), h1, w1) \<and> live h1 = insert i (live h)
    \<and> sh_server h1 = open_connection (sendNotification E (tw_next w)) i (sh_server h)"
  using assms by (auto simp: post_admit_def createSession_def AddSender_def post_session_def resetSessionTimer_def upd_session_def
      open_connection_def live_def Let_def)

lemma open_fields [simp]: "s_initialized (open_connection f i s) = s_initialized s" "s_requests (open_connection f i s) = s_requests s"
  by (simp_all add: open_connection_def AddSender_def)

lemma second_initialize:
  assumes "s_initialized s" and "UnmarshalRequest v = Some req" and "req_JSONRPC req = jsonrpcVersion" and "req_Method req = ''initialize''"
    and "\<not> IsNotification req"
  shows "fst (HandleMessage env c (Some v) s w) = Ret (Some (NewErrorResponse (req_ID req) ErrCodeInvalidRequest (Error errAlreadyInitialized)))"
  using assms by (simp add: HandleMessage_def handleRequest_def request_body_def handleInitialize_def lift_def reply_def trackRequest_def Let_def
      split: option.splits prod.splits)

text \<open>A server takes part in one handshake only. A second client that posts \<open>initialize\<close> gets the error of a server that is
  already initialized, and with it a session: the answer has status 200 and a session identifier, and the session is
  open. The clean-up of the source is for an error of \<open>HandleMessage\<close>, which never returns one.\<close>

theorem refused_initialize_opens_a_session:
  assumes "s_initialized (sh_server h)" and "post_refusal E r h = None" and "rq_Body r = Some v" and "isInitializeRequest (Some v)"
    and "UnmarshalRequest v = Some req" and "req_JSONRPC req = jsonrpcVersion"
    and "generateSessionID reads = Inr i" and "i \<noteq> []" and "mget (s_senders (sh_server h)) i = None"
    and "te_resp E (NewErrorResponse (req_ID req) ErrCodeInvalidRequest (Error errAlreadyInitialized)) = Some data"
  shows "\<exists>rw h1 w1. handlePost E c reads r new_writer h w = (Ret rw, h1, w1) \<and> wr_Body rw = data \<and> wr_Status rw = Some 200
    \<and> mget (wr_Header rw) headerSessionID = Some i \<and> i \<in> live h1"
proof -
  note m = init_method [OF assms(4,5)] init_is_no_notification [OF assms(4,5)]
  obtain h1 w1 where a: "post_admit E reads r new_writer h w = (Inr (True, tw_next w, i), h1, w1)" "live h1 = insert i (live h)"
    "sh_server h1 = open_connection (sendNotification E (tw_next w)) i (sh_server h)"
    using initialize_opens [of E r h reads i new_writer w] assms m by auto
  have "fst (HandleMessage (te_env E) (post_ctx E (tw_next w) i c) (Some v) (sh_server h1) w1)
      = Ret (Some (NewErrorResponse (req_ID req) ErrCodeInvalidRequest (Error errAlreadyInitialized)))"
    using second_initialize [of "sh_server h1" v req] assms m a(3) by simp
  then obtain s2 w2 effs where h: "HandleMessage (te_env E) (post_ctx E (tw_next w) i c) (Some v) (sh_server h1) w1
      = (Ret (Some (NewErrorResponse (req_ID req) ErrCodeInvalidRequest (Error errAlreadyInitialized))), s2, w2, effs)"
    by (metis prod_cases4 fst_conv)
  then show ?thesis using a assms(3,10)
    by (auto simp: handlePost_def post_serve_def Let_def WriteBody_def WriteHeader_def SetHeader_def new_writer_def mget_mput
        headerSessionID_def live_def)
qed

text \<open>C8: A POST that is no \<open>initialize\<close> request reaches the server only through an open session: without the identifier of
  one, the answer is an error of the client (400 to 499) and neither the server nor the sessions change.\<close>

theorem messages_need_a_session:
  assumes "\<not> isInitializeRequest (rq_Body r)" and "first_value (hr_Headers r) headerSessionID \<notin> live h"
  shows "\<exists>rw code. handlePost E c reads r new_writer h w = (Ret rw, h, w) \<and> wr_Status rw = Some code \<and> 400 \<le> code \<and> code < 500"
proof -
  have "mget (sh_sessions h) (first_value (hr_Headers r) headerSessionID) = None"
    using assms(2) by (simp add: live_def gomap_simps)
  then show ?thesis using assms(1)
    by (auto simp: handlePost_def post_admit_def Let_def post_refusal_def http_Error_def WriteBody_def WriteHeader_def SetHeader_def new_writer_def
        split: option.splits)
qed

section \<open>A request that overlaps with the end of its session\<close>

definition subscribe_body :: "string \<Rightarrow> json" where
  "subscribe_body uri = JObj [(''jsonrpc'', JStr ''2.0''), (''id'', JNum ''7''), (''method'', JStr ''resources/subscribe''),
     (''params'', JObj [(''uri'', JStr uri)])]"

lemma foldName_uri: "foldName ''uri'' = ''URI''" "foldName ''_meta'' = ''_META''"
  by (subst foldName_ascii; simp add: fold_eval)+

lemma subscribe_decodes:
  "UnmarshalRequest (subscribe_body uri) = Some \<lparr> req_JSONRPC = ''2.0'', req_ID = Some (JNum ''7''), req_Method = ''resources/subscribe'',
     req_Params = Some (JObj [(''uri'', JStr uri)]), req_hasID = True \<rparr>"
  "decode_string_param ''uri'' (JObj [(''uri'', JStr uri)]) = Some uri"
  by (simp_all add: subscribe_body_def unmarshal_eval decode_string_param_def dmeta_def foldName_uri del: foldName.simps)

lemma subscribe_message:
  assumes "s_initialized s" "s_enableSubs s" "s_authChecker s = None" "s_tenantResolver s = None"
    and "cx_SubscriberID c \<noteq> []" "cx_Sender c = Some f" "uri \<noteq> []"
  shows "mget (s_subscriptions (fst (snd (HandleMessage env c (Some (subscribe_body uri)) s w)))) (cx_SubscriberID c, uri) = Some f"
  using assms
  by (simp add: HandleMessage_def subscribe_decodes jsonrpcVersion_def IsNotification_def handleRequest_def request_body_def authenticated_def
      with_tenant_def route_def lift_def reply_def handleResourcesSubscribe_def subscription_hidden_def Subscribe_def request_ctx_def trackRequest_def
      untrackRequest_def mget_mput normalizeRequestID_def Let_def split: option.splits prod.splits)

lemma disconnect_fields [simp]:
  "s_initialized (disconnect i s) = s_initialized s" "s_enableSubs (disconnect i s) = s_enableSubs s"
  "s_authChecker (disconnect i s) = s_authChecker s" "s_tenantResolver (disconnect i s) = s_tenantResolver s"
  by (simp_all add: disconnect_def RemoveSender_def UnsubscribeAll_def RemoveSessionTools_def)

lemma serve_sessions: "\<not> isInit \<Longrightarrow> sh_sessions (fst (snd (post_serve E c r rw isInit session h w))) = sh_sessions h"
  by (auto simp: post_serve_def Let_def split: prod.splits hres.splits option.splits)

lemma serve_server:
  assumes "\<not> isInit"
  shows "sh_server (fst (snd (post_serve E c r rw isInit (a, i) h w)))
    = fst (snd (HandleMessage (te_env E) (post_ctx E a i c) (rq_Body r) (sh_server h) w))"
  using assms by (auto simp: post_serve_def Let_def split: prod.splits hres.splits option.splits)

text \<open>C40: A subscription can outlive its session. When a session is deleted (or times out) after a POST was admitted and before
  its message is handled, the subscription in that message is stored although the session is gone, and no request or
  timer of that session can remove it any more: the table no longer has the session.\<close>

theorem late_subscription_outlives_its_session:
  assumes "mget (sh_sessions h) i = Some (a, i)" and "i \<noteq> []" and "uri \<noteq> []"
    and "s_initialized (sh_server h)" "s_enableSubs (sh_server h)" "s_authChecker (sh_server h) = None" "s_tenantResolver (sh_server h) = None"
    and "post_admit E reads r new_writer h w = (Inr (False, a, i), h1, w1)" and "rq_Body r = Some (subscribe_body uri)"
    and "first_value (hr_Headers d) headerSessionID = i"
    and "handleDelete d new_writer h1 w1 = (rw2, h2, w2)"
    and "post_serve E c r new_writer False (a, i) h2 w2 = (out, h3, w3)"
  shows "i \<notin> live h3 \<and> mget (s_subscriptions (sh_server h3)) (i, uri) \<noteq> None
    \<and> (\<forall>w. idle_timeout i a h3 w = (h3, w)) \<and> (\<forall>w. \<exists>rw. handleDelete d new_writer h3 w = (rw, h3, w))"
proof -
  have h1: "h1 = h"
  proof (cases "isInitializeRequest (rq_Body r)")
    case True
    then show ?thesis using assms(8)
      by (auto simp: post_admit_def Let_def dest!: session_admits split: option.splits sum.splits prod.splits)
  next
    case False
    then show ?thesis using assms(8)
      by (auto simp: post_admit_def Let_def dest!: session_admits split: option.splits if_splits)
  qed
  have h2: "h2 = h \<lparr> sh_sessions := mdel i (sh_sessions h), sh_server := disconnect i (sh_server h) \<rparr>"
    using assms(1,2,10,11) by (auto simp: handleDelete_def h1 disconnect_def Let_def)
  have "sh_sessions h3 = mdel i (sh_sessions h)" using serve_sessions [of False E c r new_writer "(a, i)" h2 w2] assms(12) by (simp add: h2)
  then have gone: "mget (sh_sessions h3) i = None" by (simp add: mget_mdel)
  have "sh_server h3 = fst (snd (HandleMessage (te_env E) (post_ctx E a i c) (Some (subscribe_body uri)) (disconnect i (sh_server h)) w2))"
    using serve_server [of False E c r new_writer a i h2 w2] assms(9,12) by (simp add: h2)
  then have "mget (s_subscriptions (sh_server h3)) (i, uri) = Some (sendNotification E a)"
    using subscribe_message [of "disconnect i (sh_server h)" "post_ctx E a i c" "sendNotification E a" uri] assms(2-7) by (simp add: post_ctx_def)
  moreover have "i \<notin> live h3" using gone by (simp add: live_def mget_None_iff)
  ultimately show ?thesis using gone assms(2,10) by (simp add: idle_timeout_def handleDelete_def Let_def)
qed

section \<open>Examples\<close>

definition demo_transport :: transport_env where
  "demo_transport = \<lparr> te_env = demo_env, te_uni = id, te_dupParam = (\<lambda>_. False), te_notif = (\<lambda>_. Some ''n''), te_resp = (\<lambda>_. Some ''r''),
     te_fmtv = (\<lambda>_. []), te_now = 0, te_pick = (\<lambda>_. False) \<rparr>"

definition demo_tctx :: "unit transport_world ctx" where
  "demo_tctx = base_ctx.extend Background (ctx.fields None)"

definition demo_tserver :: "unit transport_world Server" where
  "demo_tserver = (NewServer ''demo'' ''1'' [WithResourceSubscriptions]) \<lparr> s_initialized := True \<rparr>"

definition demo_world :: "unit transport_world" where
  "demo_world = \<lparr> tw_heap = (\<lambda>_. \<lparr> ss_done = False, ss_getStreams = [], ss_idleTimer = None, ss_pending = NewPendingRequests \<rparr>),
     tw_next = 1, tw_nextStream = 0, tw_user = () \<rparr>"

definition demo_post :: "string \<Rightarrow> json \<Rightarrow> http_message" where
  "demo_post i v = \<lparr> hr_Headers = [(''Content-Type'', [''application/json'']), (''Mcp-Session-Id'', [i])], hr_Query = [],
     rq_Method = ''POST'', rq_Host = ''h'', rq_Path = ''/mcp'', rq_bodyLen = 10, rq_bodyErr = False, rq_Body = Some v,
     rq_Flusher = True, rq_ProtoMajor = 1 \<rparr>"

definition init_body :: json where
  "init_body = JObj [(''jsonrpc'', JStr ''2.0''), (''id'', JNum ''1''), (''method'', JStr ''initialize'')]"

definition demo_handler :: "unit streamableHandler" where
  "demo_handler = (StreamableHandler demo_tserver []) \<lparr> sh_sessions := [(''s'', 0, ''s'')] \<rparr>"

lemma TrimSpace_solid:
  assumes "s \<noteq> []" and "(of_char (hd s) :: nat) < 128" "\<not> IsSpace (of_char (hd s))" "(of_char (last s) :: nat) < 128" "\<not> IsSpace (of_char (last s))"
  shows "TrimSpace s = s"
proof -
  obtain c cs where s: "s = c # cs" using assms(1) by (cases s) auto
  have "decode_rune (of_char c # bs) = (of_char c, 1)" for bs using assms(2) s by (simp add: decode_rune_ascii)
  then have l: "trim_left (map of_char s) = map of_char s" using assms(3) by (simp add: s)
  have "last_rune (map of_char s) = (of_char (last s), 1)" using assms(1,4) by (simp add: last_rune_def last_map)
  then have "trim_right (map of_char s) = map of_char s" using assms(5) by (simp add: trim_right.simps)
  then show ?thesis by (simp add: TrimSpace_def l comp_def)
qed

lemma application_json: "mediaType demo_transport ''application/json'' = ''application/json''"
proof -
  have "ToLower id ''application/json'' = ''application/json''" by (simp add: ToLower_def ascii_lower_def)
  moreover have "TrimSpace ''application/json'' = ''application/json''" by (rule TrimSpace_solid) (simp_all add: IsSpace_def)
  ultimately show ?thesis by (simp add: mediaType_def demo_transport_def)
qed

lemma demo_headers:
  "first_value (hr_Headers (demo_post i v)) ''Content-Type'' = ''application/json''"
  "first_value (hr_Headers (demo_post i v)) ''Accept'' = []"
  "first_value (hr_Headers (demo_post i v)) headerSessionID = i"
  by (simp_all add: demo_post_def first_value_def mget_def headerSessionID_def)

lemma demo_not_refused:
  assumes "sh_maxBodySize h = 0"
  shows "post_refusal demo_transport (demo_post i v) h = None"
proof -
  have "ToLower (te_uni demo_transport) [] = []" by (simp add: ToLower_def)
  moreover have "rq_bodyLen (demo_post i v) = 10" "\<not> rq_bodyErr (demo_post i v)" by (simp_all add: demo_post_def)
  ultimately show ?thesis using assms
    by (simp add: post_refusal_def demo_headers application_json defaultMaxBodySize_def)
qed

lemma hex_ab: "generateSessionID [Some ''ab''] = Inr ''6162''"
proof -
  have "generateSessionID [Some ''ab''] = Inr (EncodeToString ''ab'')" by (simp add: generateSessionID_def numeral_3_eq_3)
  moreover have "(of_char (CHR ''a'') :: nat) = 97" "(of_char (CHR ''b'') :: nat) = 98" by simp_all
  ultimately show ?thesis by (simp add: EncodeToString_def hex_digit_def del: of_char_Char)
qed

lemma init_decodes:
  "UnmarshalRequest init_body = Some \<lparr> req_JSONRPC = ''2.0'', req_ID = Some (JNum ''1''), req_Method = ''initialize'', req_Params = None, req_hasID = True \<rparr>"
  "isInitializeRequest (Some init_body)"
  by (simp_all add: init_body_def unmarshal_eval isInitializeRequest_def d_any_def del: foldName.simps)

lemma subscribe_is_plain: "\<not> isInitializeRequest (Some (subscribe_body uri))" "\<not> IsResponse (Some (subscribe_body uri))"
  by (simp_all add: subscribe_body_def unmarshal_eval isInitializeRequest_def IsResponse_def d_any_def del: foldName.simps)

lemma demo_fields:
  "s_initialized demo_tserver" "s_enableSubs demo_tserver" "s_authChecker demo_tserver = None" "s_tenantResolver demo_tserver = None"
  "s_senders demo_tserver = []" "owners demo_tserver = {}"
  by (simp_all add: demo_tserver_def NewServer_def WithResourceSubscriptions_def owners_def sub_owners_def newSessionToolRegistry_def)

lemma demo_body [simp]: "rq_Body (demo_post i v) = Some v" "rq_Method (demo_post i v) = ''POST''"
  by (simp_all add: demo_post_def)

lemma demo_handler_fields [simp]:
  "sh_server demo_handler = demo_tserver" "sh_sessions demo_handler = [(''s'', 0, ''s'')]" "sh_maxBodySize demo_handler = 0"
  "sh_server (StreamableHandler s []) = s" "sh_sessions (StreamableHandler s []) = []" "sh_maxBodySize (StreamableHandler s []) = 0"
  by (simp_all add: demo_handler_def StreamableHandler_def)

theorem refused_initialize_opens_a_session_witness:
  "\<exists>rw h1 w1. handlePost demo_transport demo_tctx [Some ''ab''] (demo_post [] init_body) new_writer demo_handler demo_world = (Ret rw, h1, w1)
     \<and> wr_Body rw = ''r'' \<and> wr_Status rw = Some 200 \<and> mget (wr_Header rw) headerSessionID = Some ''6162'' \<and> ''6162'' \<in> live h1"
  by (rule refused_initialize_opens_a_session [OF _ demo_not_refused _ init_decodes(2) init_decodes(1) _ hex_ab])
    (simp_all add: demo_fields jsonrpcVersion_def demo_transport_def)

theorem messages_need_a_session_witness:
  "\<exists>rw code. handlePost demo_transport demo_tctx [] (demo_post ''x'' (subscribe_body ''u'')) new_writer demo_handler demo_world
     = (Ret rw, demo_handler, demo_world) \<and> wr_Status rw = Some code \<and> 400 \<le> code \<and> code < 500"
  by (rule messages_need_a_session) (simp_all add: subscribe_is_plain demo_headers live_def)

theorem late_subscription_outlives_its_session_witness:
  "\<exists>h2 w2 h3. handleDelete (demo_post ''s'' JNull) new_writer demo_handler demo_world = (WriteHeader 200 new_writer, h2, w2)
     \<and> fst (snd (post_serve demo_transport demo_tctx (demo_post ''s'' (subscribe_body ''u'')) new_writer False (0, ''s'') h2 w2)) = h3
     \<and> ''s'' \<notin> live h3 \<and> mget (s_subscriptions (sh_server h3)) (''s'', ''u'') \<noteq> None"
proof -
  have a: "post_admit demo_transport [] (demo_post ''s'' (subscribe_body ''u'')) new_writer demo_handler demo_world
      = (Inr (False, 0, ''s''), demo_handler, demo_world)"
    by (simp add: post_admit_def demo_not_refused subscribe_is_plain demo_headers mget_def post_session_def demo_world_def resetSessionTimer_def Let_def)
  obtain h2 w2 where d: "handleDelete (demo_post ''s'' JNull) new_writer demo_handler demo_world = (WriteHeader 200 new_writer, h2, w2)"
    by (simp add: handleDelete_def demo_headers mget_def Let_def)
  obtain out h3 w3 where s: "post_serve demo_transport demo_tctx (demo_post ''s'' (subscribe_body ''u'')) new_writer False (0, ''s'') h2 w2 = (out, h3, w3)"
    by (metis prod_cases3)
  have "mget (sh_sessions demo_handler) ''s'' = Some (0, ''s'')" by (simp add: mget_def)
  from late_subscription_outlives_its_session [OF this _ _ _ _ _ _ a _ _ d s, of "''u''"] d s
  show ?thesis by (simp add: demo_fields demo_headers)
qed

text \<open>A session is opened and gets a tool; then it is deleted.\<close>

theorem closed_sessions_leave_nothing_witness:
  "let ops = [Request demo_transport demo_tctx [Some ''ab''] (demo_post [] init_body),
              AddTool demo_tctx None ''6162'' (Some (echo_tool ''t'')),
              Request demo_transport demo_tctx [] ((demo_post ''6162'' JNull) \<lparr> rq_Method := ''DELETE'' \<rparr>)];
       h = fst (fold transport_exec ops (StreamableHandler demo_tserver [WithStreamableKeepAlive 5, WithStreamableMaxBody 0], demo_world))
   in fst ` set (s_senders (sh_server h)) = live h \<and> sub_owners (sh_server h) \<subseteq> live h
      \<and> fst ` set (sr_sessions (s_sessionTools (sh_server h))) \<subseteq> live h"
proof -
  let ?opts = "[WithStreamableKeepAlive 5, WithStreamableMaxBody 0] :: (unit streamableHandler \<Rightarrow> unit streamableHandler) list"
  let ?h = "StreamableHandler demo_tserver ?opts"
  let ?open = "Request demo_transport demo_tctx [Some ''ab''] (demo_post [] init_body)"
  have f: "sh_server ?h = demo_tserver" "sh_sessions ?h = []" "sh_maxBodySize ?h = 0" "sh_originValidator ?h = None" "sh_corsOpts ?h = None"
    by (simp_all add: StreamableHandler_def WithStreamableKeepAlive_def WithStreamableMaxBody_def)
  have "\<exists>rw h1 w1. handlePost demo_transport demo_tctx [Some ''ab''] (demo_post [] init_body) new_writer ?h demo_world = (Ret rw, h1, w1)
     \<and> wr_Body rw = ''r'' \<and> wr_Status rw = Some 200 \<and> mget (wr_Header rw) headerSessionID = Some ''6162'' \<and> ''6162'' \<in> live h1"
    by (rule refused_initialize_opens_a_session [OF _ demo_not_refused _ init_decodes(2) init_decodes(1) _ hex_ab])
      (simp_all add: f demo_fields jsonrpcVersion_def demo_transport_def)
  then have "''6162'' \<in> live (fst (transport_exec ?open (?h, demo_world)))"
    by (auto simp: streamable_ServeHTTP_def origin_refused_def f split: prod.splits)
  then have "adds_to_open [?open, AddTool demo_tctx None ''6162'' (Some (echo_tool ''t'')),
      Request demo_transport demo_tctx [] ((demo_post ''6162'' JNull) \<lparr> rq_Method := ''DELETE'' \<rparr>)] (?h, demo_world)"
    by simp
  moreover have "is_option (WithStreamableKeepAlive 5 :: unit streamableHandler \<Rightarrow> _)" "is_option (WithStreamableMaxBody 0 :: unit streamableHandler \<Rightarrow> _)"
    unfolding is_option_def by blast+
  then have "\<forall>opt \<in> set ?opts. is_option opt" by simp
  ultimately show ?thesis using closed_sessions_leave_nothing [OF demo_fields(6), of ?opts _ demo_world] unfolding Let_def by blast
qed

end
