(* ===== verification/Server_Requests.thy ===== *)
theory Server_Requests
  imports Streamable
begin

text \<open>
  Requests of the server to the client: sampling (\<open>sampling.go\<close>) and elicitation (\<open>elicitation.go\<close>), the start and the end
  of a server (\<open>serve.go\<close>), and the transports that read and handle messages in one loop, standard input and output
  (\<open>transport/stdio.go\<close>, and in the same way \<open>transport/websocket.go\<close>). The sender of the transport is an argument.
\<close>

section \<open>Sampling and elicitation\<close>

record SamplingMessage =
  sm_Role :: string
  sm_Content :: Content

record CreateMessageParams =
  cm_Messages :: "SamplingMessage list"
  cm_ModelPreferences :: "json option"
  cm_SystemPrompt :: string
  cm_IncludeContext :: string
  cm_Temperature :: "json option"
  cm_MaxTokens :: int
  cm_StopSequences :: "string list"
  cm_Metadata :: "meta option"
  cm_Meta :: "meta option"

record CreateMessageResult =
  cr_Role :: string
  cr_Content :: "json option"
  cr_Model :: string
  cr_StopReason :: string

record ElicitationParams =
  el_Prompt :: string
  el_Type :: string
  el_Default :: string
  el_Meta :: "meta option"

record ElicitationResult =
  er_Value :: string
  er_Cancelled :: bool

text \<open>A sender of a transport: method and parameters, and a response or an error. Marshalling the parameters is part of it.\<close>

type_synonym ('p, 'w) RequestSender = "string \<Rightarrow> 'p \<Rightarrow> 'w \<Rightarrow> (goerr + client_response) \<times> 'w"

definition errSamplingNotSupported :: goerr where "errSamplingNotSupported = Sentinel ''client does not support sampling''"
definition errElicitationNotSupported :: goerr where "errElicitationNotSupported = Sentinel ''client does not support elicitation''"
definition errNoRequestSender :: goerr where
  "errNoRequestSender = Sentinel ''transport does not support server-to-client requests''"
definition errNotInitializedYet :: goerr where "errNotInitializedYet = Sentinel ''server not initialized''"

definition maxSamplingMessages :: nat where "maxSamplingMessages = 1000"

definition valid_include :: "string \<Rightarrow> bool" where
  "valid_include c \<longleftrightarrow> c = [] \<or> c = ''none'' \<or> c = ''thisServer'' \<or> c = ''allServers''"

text \<open>The checks of the parameters, with the text of \<open>%q\<close> as an argument.\<close>

definition sampling_invalid :: "(string \<Rightarrow> string) \<Rightarrow> CreateMessageParams \<Rightarrow> goerr option" where
  "sampling_invalid quote p =
     (if cm_Messages p = [] then Some (ErrNew ''messages must not be empty'')
      else if length (cm_Messages p) > maxSamplingMessages then Some (ErrNew (''too many messages (max '' @ Itoa (int maxSamplingMessages) @ '')''))
      else if cm_MaxTokens p \<le> 0 then Some (ErrNew ''maxTokens must be positive'')
      else if \<not> valid_include (cm_IncludeContext p)
      then Some (ErrNew (''invalid includeContext '' @ quote (cm_IncludeContext p) @ '': must be none, thisServer, or allServers''))
      else None)"

definition result_text :: "json option \<Rightarrow> json" where
  "result_text r = (case r of None \<Rightarrow> JNull | Some v \<Rightarrow> v)"

text \<open>\<open>json.Unmarshal\<close> of the result; a nil result is the text null, which leaves the struct as it is.\<close>

definition decode_sampling :: "json option \<Rightarrow> CreateMessageResult option" where
  "decode_sampling r =
     (case as_object (result_text r) of None \<Rightarrow> None
      | Some obj \<Rightarrow>
        (case (field d_string [] ''role'' obj, field d_raw None ''content'' obj, field d_string [] ''model'' obj, field d_string [] ''stopReason'' obj) of
           (Some role, Some content, Some model, Some stop) \<Rightarrow> Some \<lparr> cr_Role = role, cr_Content = content, cr_Model = model, cr_StopReason = stop \<rparr>
         | _ \<Rightarrow> None))"

definition decode_elicitation :: "json option \<Rightarrow> ElicitationResult option" where
  "decode_elicitation r =
     (case as_object (result_text r) of None \<Rightarrow> None
      | Some obj \<Rightarrow>
        (case (field d_string [] ''value'' obj, field d_bool False ''cancelled'' obj) of
           (Some v, Some c) \<Rightarrow> Some \<lparr> er_Value = v, er_Cancelled = c \<rparr>
         | _ \<Rightarrow> None))"

definition client_error :: "JSONRPCError \<Rightarrow> goerr" where
  "client_error e = ErrNew (''client returned error: '' @ err_Message e @ '' (code '' @ Itoa (err_Code e) @ '')'')"

text \<open>How both methods go on from the response; \<open>what\<close> names the request in errors, and \<open>why\<close> is the error of the decoder.\<close>

definition finish_request :: "string \<Rightarrow> string \<Rightarrow> (json option \<Rightarrow> 'r option) \<Rightarrow> goerr + client_response \<Rightarrow> 'r hres" where
  "finish_request what why decode resp =
     (case resp of
        Inl e \<Rightarrow> Err (Wrapped (what @ '' request failed: '' @ Error e) e)
      | Inr r \<Rightarrow>
        (case resp_Error r of
           Some e \<Rightarrow> Err (client_error e)
         | None \<Rightarrow>
           (case decode (resp_Result r) of
              None \<Rightarrow> Err (Wrapped (''failed to decode '' @ what @ '' result: '' @ why) (ErrNew why))
            | Some x \<Rightarrow> Ret x)))"

definition CreateMessage ::
  "(string \<Rightarrow> string) \<Rightarrow> string \<Rightarrow> (CreateMessageParams, 'w) RequestSender option \<Rightarrow> CreateMessageParams \<Rightarrow> 'v Server \<Rightarrow> 'w
   \<Rightarrow> CreateMessageResult hres \<times> 'w" where
  "CreateMessage quote why sender p s w =
     (if \<not> s_initialized s then (Err errNotInitializedYet, w)
      else if \<not> cc_Sampling (s_clientCaps s) then (Err errSamplingNotSupported, w)
      else case sender of None \<Rightarrow> (Err errNoRequestSender, w)
      | Some send \<Rightarrow>
        (case sampling_invalid quote p of
           Some e \<Rightarrow> (Err e, w)
         | None \<Rightarrow> (case send ''sampling/createMessage'' p w of
             (resp, w1) \<Rightarrow> (finish_request ''sampling'' why decode_sampling resp, w1))))"

definition ElicitUser ::
  "string \<Rightarrow> (ElicitationParams, 'w) RequestSender option \<Rightarrow> ElicitationParams \<Rightarrow> 'v Server \<Rightarrow> 'w \<Rightarrow> ElicitationResult hres \<times> 'w" where
  "ElicitUser why sender p s w =
     (if \<not> s_initialized s then (Err errNotInitializedYet, w)
      else if \<not> cc_Elicitation (s_clientCaps s) then (Err errElicitationNotSupported, w)
      else case sender of None \<Rightarrow> (Err errNoRequestSender, w)
      | Some send \<Rightarrow>
        if el_Prompt p = [] then (Err (ErrNew ''prompt must not be empty''), w)
        else (case send ''elicitation/create'' p w of
             (resp, w1) \<Rightarrow> (finish_request ''elicitation'' why decode_elicitation resp, w1)))"

section \<open>Starting and shutting down\<close>

text \<open>\<open>Start\<close>: the hook yields a context, a clean-up and an error; the clean-up is deferred, so it also runs when the
  transport panics.\<close>

definition Start ::
  "('c \<Rightarrow> 'w \<Rightarrow> ('c option \<times> ('w \<Rightarrow> 'w) option) hres \<times> 'w) option \<Rightarrow> 'c option \<Rightarrow> ('c \<Rightarrow> 'w \<Rightarrow> unit hres \<times> 'w) \<Rightarrow> 'w \<Rightarrow> unit hres \<times> 'w" where
  "Start lifespan c runFn w =
     (case c of None \<Rightarrow> (Err (ErrNew ''finemcp: Server.Start requires a non-nil context''), w)
      | Some c \<Rightarrow>
        (case lifespan of None \<Rightarrow> runFn c w
         | Some hook \<Rightarrow>
           (case hook c w of
              (Err e, w1) \<Rightarrow> (Err e, w1)
            | (Panic m, w1) \<Rightarrow> (Panic m, w1)
            | (Ret (enriched, cleanup), w1) \<Rightarrow>
                (case runFn (case enriched of Some c' \<Rightarrow> c' | None \<Rightarrow> c) w1 of
                   (out, w2) \<Rightarrow> (out, case cleanup of Some f \<Rightarrow> f w2 | None \<Rightarrow> w2)))))"

text \<open>\<open>Shutdown\<close> returns when the last request in flight is done or with the error of its context; if both
  are so, either may be chosen.\<close>

inductive Shutdown :: "nat \<Rightarrow> goerr option \<Rightarrow> goerr option \<Rightarrow> bool" where
  drained: "Shutdown 0 ctxErr None"
| expired: "Shutdown inflight (Some e) (Some e)"

section \<open>One loop that reads and handles\<close>

text \<open>
  The loop of \<open>StdioTransport.Run\<close> in steps: it takes the next line of the input, delivers it if it is a response, and
  otherwise runs the handler of the message before it looks at the input again. A handler may send a request to the
  client with \<open>Send\<close> of \<open>pending.go\<close>, in the thread of the loop (\<open>LHandle t\<close>) or in another goroutine. Contexts
  are not cancelled.
\<close>

datatype serial_pc = LScan | LHandle nat

record serial_loop =
  sl_pending :: PendingRequests
  sl_pc :: serial_pc
  sl_in :: "json option list"

definition serial_start :: "json option list \<Rightarrow> serial_loop" where
  "serial_start input = \<lparr> sl_pending = NewPendingRequests, sl_pc = LScan, sl_in = input \<rparr>"

inductive serial_step :: "(json option \<Rightarrow> string) \<Rightarrow> serial_loop \<Rightarrow> serial_loop \<Rightarrow> bool" for fmtv where
  response: "sl_pc s = LScan \<Longrightarrow> sl_in s = l # ls \<Longrightarrow> IsResponse l \<Longrightarrow>
    serial_step fmtv s (s \<lparr> sl_in := ls, sl_pending := Deliver_send 0 (Deliver_lookup fmtv 0 l (sl_pending s)) \<rparr>)"
| request: "sl_pc s = LScan \<Longrightarrow> sl_in s = l # ls \<Longrightarrow> \<not> IsResponse l \<Longrightarrow> p_send (sl_pending s) t = SIdle \<Longrightarrow>
    serial_step fmtv s (s \<lparr> sl_in := ls, sl_pc := LHandle t \<rparr>)"
| returns: "sl_pc s = LHandle t \<Longrightarrow> p_send (sl_pending s) t = SIdle \<or> p_send (sl_pending s) t = SDone i r \<Longrightarrow>
    serial_step fmtv s (s \<lparr> sl_pc := LScan \<rparr>)"
| register: "p_send (sl_pending s) t = SIdle \<Longrightarrow> serial_step fmtv s (s \<lparr> sl_pending := Send_register t (sl_pending s) \<rparr>)"
| wrote: "p_send (sl_pending s) t = SWrite i ch \<Longrightarrow> serial_step fmtv s (s \<lparr> sl_pending := Send_write t failure (sl_pending s) \<rparr>)"
| receive: "can_receive t (sl_pending s) \<Longrightarrow> serial_step fmtv s (s \<lparr> sl_pending := Send_receive t (sl_pending s) \<rparr>)"
| cleanup: "p_send (sl_pending s) t = SReturn i r \<Longrightarrow> serial_step fmtv s (s \<lparr> sl_pending := Send_cleanup t (sl_pending s) \<rparr>)"
| arrives: "serial_step fmtv s (s \<lparr> sl_in := sl_in s @ [l] \<rparr>)"

definition waits_on :: "nat \<Rightarrow> string \<Rightarrow> nat \<Rightarrow> serial_loop \<Rightarrow> bool" where
  "waits_on t i ch s \<longleftrightarrow> sl_pc s = LHandle t \<and> p_send (sl_pending s) t = SWait i ch \<and> ch < length (p_chans (sl_pending s))
     \<and> pc_buf (p_chans (sl_pending s) ! ch) = [] \<and> \<not> pc_closed (p_chans (sl_pending s) ! ch)"

lemma still_waits:
  assumes "serial_step fmtv s s'" and "waits_on t i ch s"
  shows "waits_on t i ch s' \<and> (\<exists>more. sl_in s' = sl_in s @ more)"
  using assms
proof cases
  case (receive u)
  then have u: "u \<noteq> t" using assms(2) by (auto simp: can_receive_def waits_on_def)
  obtain j c where p: "p_send (sl_pending s) u = SWait j c" using receive by (auto simp: can_receive_def split: send_pc.splits)
  show ?thesis
  proof (cases "pc_buf (p_chans (sl_pending s) ! c)")
    case Nil
    then show ?thesis using receive assms(2) u p by (auto simp: waits_on_def Send_receive_def)
  next
    case (Cons r rs)
    then have "c \<noteq> ch" using assms(2) by (auto simp: waits_on_def)
    then show ?thesis using receive assms(2) u p Cons by (auto simp: waits_on_def Send_receive_def)
  qed
next
  case (register u)
  then show ?thesis using assms(2) by (auto simp: waits_on_def Send_register_def Let_def nth_append)
next
  case (wrote u j c failure)
  then show ?thesis using assms(2) by (auto simp: waits_on_def Send_write_def)
next
  case (cleanup u j r)
  then show ?thesis using assms(2) by (auto simp: waits_on_def Send_cleanup_def)
qed (auto simp: waits_on_def)

text \<open>C39: A tool that asks the client something over standard input and output never gets an answer. The loop that would deliver it
  is running the tool: whatever answers the client has sent, and whatever happens later short of cancelling the context,
  the tool is still waiting and the answers are still in the input.\<close>

theorem asking_the_client_blocks_the_loop:
  assumes "\<not> IsResponse q"
  shows "\<exists>s. (serial_step fmtv)\<^sup>*\<^sup>* (serial_start (q # sent)) s \<and> p_send (sl_pending s) 0 = SWait ''srv-1'' 0
    \<and> (\<forall>s'. (serial_step fmtv)\<^sup>*\<^sup>* s s' \<longrightarrow> p_send (sl_pending s') 0 = SWait ''srv-1'' 0 \<and> (\<exists>more. sl_in s' = sent @ more))"
proof -
  let ?s1 = "(serial_start (q # sent)) \<lparr> sl_in := sent, sl_pc := LHandle 0 \<rparr>"
  let ?s2 = "?s1 \<lparr> sl_pending := Send_register 0 (sl_pending ?s1) \<rparr>"
  let ?s3 = "?s2 \<lparr> sl_pending := Send_write 0 None (sl_pending ?s2) \<rparr>"
  note i = id_demo
  have 1: "serial_step fmtv (serial_start (q # sent)) ?s1"
    by (rule request) (use assms in \<open>simp_all add: serial_start_def NewPendingRequests_def\<close>)
  have 2: "serial_step fmtv ?s1 ?s2" by (rule register) (simp add: serial_start_def NewPendingRequests_def)
  have 3: "serial_step fmtv ?s2 ?s3"
    by (rule wrote [of _ _ "''srv-1''" 0]) (simp add: serial_start_def NewPendingRequests_def Send_register_def i Let_def)
  have w: "waits_on 0 ''srv-1'' 0 ?s3"
    by (simp add: waits_on_def serial_start_def NewPendingRequests_def Send_register_def Send_write_def i Let_def)
  have keep: "waits_on 0 ''srv-1'' 0 s' \<and> (\<exists>more. sl_in s' = sent @ more)" if "(serial_step fmtv)\<^sup>*\<^sup>* ?s3 s'" for s'
    using that
  proof (induction rule: rtranclp_induct)
    case base
    show ?case using w by (simp add: serial_start_def)
  next
    case (step y z)
    then show ?case using still_waits [of fmtv y z] by (metis append.assoc)
  qed
  have "(serial_step fmtv)\<^sup>*\<^sup>* (serial_start (q # sent)) ?s3"
    using 1 2 3 by (meson rtranclp.rtrancl_into_rtrancl rtranclp.rtrancl_refl)
  then show ?thesis using keep w by (intro exI [of _ ?s3]) (auto simp: waits_on_def)
qed

theorem asking_the_client_blocks_the_loop_witness:
  "\<exists>s. (serial_step (\<lambda>_. []))\<^sup>*\<^sup>* (serial_start [Some (subscribe_body ''u''), Some demo_data]) s
     \<and> p_send (sl_pending s) 0 = SWait ''srv-1'' 0 \<and> response_key (\<lambda>_. []) demo_reply = ''srv-1''"
  using asking_the_client_blocks_the_loop [OF subscribe_is_plain(2) [of "''u''"], of "\<lambda>_. []" "[Some demo_data]"] key_demo by blast

section \<open>The loop on the server\<close>

text \<open>\<open>Run\<close> for handlers that do not ask the client: the lines of the input with the error of the context at that time, the
  error of the scanner at the end. The world is what was written and the state of the handlers; a write may fail.\<close>

record 'u stdio_world =
  io_out :: "string list"
  io_user :: 'u

record stdio_env = transport_env +
  sd_writeErr :: "string list \<Rightarrow> string \<Rightarrow> goerr option"
  sd_marshalErr :: goerr

definition stdio_write :: "stdio_env \<Rightarrow> string \<Rightarrow> 'u stdio_world \<Rightarrow> goerr option \<times> 'u stdio_world" where
  "stdio_write E data w =
     (let line = data @ [newline]
      in case sd_writeErr E (io_out w) line of
           Some e \<Rightarrow> (Some e, w)
         | None \<Rightarrow> (None, w \<lparr> io_out := io_out w @ [line] \<rparr>))"

definition writeNotification :: "stdio_env \<Rightarrow> 'u stdio_world NotificationSender" where
  "writeNotification E n w = (case te_notif (transport_env.truncate E) n of None \<Rightarrow> w | Some data \<Rightarrow> snd (stdio_write E data w))"

definition writeResponse :: "stdio_env \<Rightarrow> response \<Rightarrow> 'u stdio_world \<Rightarrow> goerr option \<times> 'u stdio_world" where
  "writeResponse E resp w =
     (case te_resp (transport_env.truncate E) resp of
        None \<Rightarrow> (Some (Wrapped (''marshal response: '' @ Error (sd_marshalErr E)) (sd_marshalErr E)), w)
      | Some data \<Rightarrow> stdio_write E data w)"

fun stdio_lines ::
  "stdio_env \<Rightarrow> 'u stdio_world ctx \<Rightarrow> string \<Rightarrow> goerr option \<Rightarrow> (goerr option \<times> int \<times> json option) list \<Rightarrow> PendingRequests
   \<Rightarrow> 'u stdio_world Server \<Rightarrow> 'u stdio_world \<Rightarrow> unit hres \<times> 'u stdio_world Server \<times> 'u stdio_world" where
  "stdio_lines E c i scanErr [] pr s w =
     (case scanErr of Some e \<Rightarrow> (Err (Wrapped (''read: '' @ Error e) e), s, w) | None \<Rightarrow> (Ret (), s, w))"
| "stdio_lines E c i scanErr ((ctxErr, len, line) # ls) pr s w =
     (case ctxErr of Some e \<Rightarrow> (Err e, s, w)
      | None \<Rightarrow>
        if len = 0 then stdio_lines E c i scanErr ls pr s w
        else if IsResponse line
        then stdio_lines E c i scanErr ls (Deliver_send 0 (Deliver_lookup (te_fmtv (transport_env.truncate E)) 0 line pr)) s w
        else (case HandleMessage (te_env (transport_env.truncate E)) (c \<lparr> cx_Sender := Some (writeNotification E), cx_SubscriberID := i \<rparr>) line s w of
            (Panic m, s1, w1, _) \<Rightarrow> (Panic m, s1, w1)
          | (Err e, s1, w1, _) \<Rightarrow> (Err (Wrapped (''handle message: '' @ Error e) e), s1, w1)
          | (Ret None, s1, w1, _) \<Rightarrow> stdio_lines E c i scanErr ls pr s1 w1
          | (Ret (Some resp), s1, w1, _) \<Rightarrow>
              (case writeResponse E resp w1 of
                 (Some e, w2) \<Rightarrow> (Err (Wrapped (''write response: '' @ Error e) e), s1, w2)
               | (None, w2) \<Rightarrow> stdio_lines E c i scanErr ls pr s1 w2)))"

text \<open>The deferred calls run on every way out, also on a panic.\<close>

definition stdio_Run ::
  "stdio_env \<Rightarrow> 'u stdio_world ctx \<Rightarrow> string option list \<Rightarrow> goerr option \<Rightarrow> (goerr option \<times> int \<times> json option) list
   \<Rightarrow> 'u stdio_world Server \<Rightarrow> 'u stdio_world \<Rightarrow> unit hres \<times> 'u stdio_world Server \<times> 'u stdio_world" where
  "stdio_Run E c reads scanErr ls s w =
     (case generateSessionID reads of
        Inl e \<Rightarrow> (Err (Wrapped (''generate stdio client ID: '' @ Error e) e), s, w)
      | Inr clientID \<Rightarrow>
        (case AddSender clientID (Some (writeNotification E)) s of
           (Some e, s1) \<Rightarrow> (Err (Wrapped (''register stdio sender: '' @ Error e) e), s1, w)
         | (None, s1) \<Rightarrow>
           (case stdio_lines E c clientID scanErr ls NewPendingRequests s1 w of
              (out, s2, w2) \<Rightarrow> (out, RemoveSessionTools clientID (UnsubscribeAll clientID (RemoveSender clientID s2)), w2))))"

lemma lines_owner: "for_owner i s (fst (snd (stdio_lines E c i scanErr ls pr s w)))"
proof (induction ls arbitrary: pr s w)
  case (Cons l ls)
  obtain ctxErr len line where l: "l = (ctxErr, len, line)" by (cases l)
  let ?c = "c \<lparr> cx_Sender := Some (writeNotification E), cx_SubscriberID := i \<rparr>"
  obtain out s1 w1 effs where h: "HandleMessage (te_env (transport_env.truncate E)) ?c line s w = (out, s1, w1, effs)" by (metis prod_cases4)
  have o1: "for_owner i s s1" using owner_message [of ?c s "te_env (transport_env.truncate E)" line w] h by simp
  have "for_owner i s (fst (snd (stdio_lines E c i scanErr ls pr' s1 w')))" for pr' w' using owner_trans [OF o1 Cons.IH] .
  then show ?case using Cons.IH o1 h
    by (auto simp: l owner_refl split: option.splits hres.splits prod.splits)
qed (simp add: owner_refl split: option.splits)

text \<open>A run over standard input leaves nothing of its connection in the server, however it ends.\<close>

theorem run_leaves_nothing:
  assumes "stdio_Run E c reads scanErr ls s w = (out, s', w')"
  shows "owners s' \<subseteq> owners s"
proof (cases "generateSessionID reads")
  case (Inr i)
  show ?thesis
  proof (cases "fst (AddSender i (Some (writeNotification E)) s)")
    case None
    have i: "i \<noteq> []" using None by (auto simp: AddSender_def)
    obtain o2 s2 w2 where r: "stdio_lines E c i scanErr ls NewPendingRequests (open_connection (writeNotification E) i s) w = (o2, s2, w2)"
      by (metis prod_cases3)
    have "owners s2 \<subseteq> insert i (owners s)"
      using lines_owner [of i "open_connection (writeNotification E) i s" E c scanErr ls NewPendingRequests w] r
        server_connections.opens_owner [of "writeNotification E" i s] by (auto simp: for_owner_def owners_def)
    moreover have "s' = disconnect i s2"
      using assms Inr None r by (auto simp: stdio_Run_def open_connection_def disconnect_def split: prod.splits)
    ultimately show ?thesis using disconnect_owners [OF i, of s2] by blast
  next
    case (Some e)
    then have "snd (AddSender i (Some (writeNotification E)) s) = s" by (auto simp: AddSender_def split: if_splits)
    then show ?thesis using assms Inr Some by (auto simp: stdio_Run_def split: prod.splits)
  qed
qed (use assms in \<open>simp add: stdio_Run_def\<close>)

section \<open>Only clients that can answer are asked\<close>

text \<open>The client is asked to sample only after the handshake, only if it declared that it can, and only with parameters that
  are valid; every other call fails before anything is sent. What the caller gets is the decoded result of the client's
  response or an error.\<close>

theorem only_capable_clients_are_asked:
  assumes "snd (CreateMessage quote why sender p s w) \<noteq> w \<or> (\<exists>x. fst (CreateMessage quote why sender p s w) = Ret x)"
  shows "s_initialized s \<and> cc_Sampling (s_clientCaps s) \<and> sender \<noteq> None
    \<and> cm_Messages p \<noteq> [] \<and> length (cm_Messages p) \<le> 1000 \<and> 0 < cm_MaxTokens p \<and> valid_include (cm_IncludeContext p)"
  using assms
  by (auto simp: CreateMessage_def sampling_invalid_def maxSamplingMessages_def split: if_splits option.splits)

end
