(* ===== verification/Sse_Transport.thy ===== *)
theory Sse_Transport
  imports Streamable
begin

text \<open>
  The SSE transport (\<open>transport/sse.go\<close>) on the model of the server: one GET opens a session with one stream of events,
  messages come as POST requests, and responses go out on the stream. A session that cannot keep up is closed. It
  meets the contract of connections like the Streamable HTTP transport does.
\<close>

section \<open>Sessions\<close>

record sseSession =
  es_events :: "string list"
  es_done :: bool
  es_pending :: PendingRequests

record 'u sse_world =
  ew_heap :: "nat \<Rightarrow> sseSession"
  ew_next :: nat
  ew_user :: 'u

record 'u sseHandler =
  eh_server :: "'u sse_world Server"
  eh_ssePath :: string
  eh_messagePath :: string
  eh_keepAlive :: int
  eh_maxBodySize :: int
  eh_sessions :: "(string, nat) gomap"

definition WithSSEPath :: "string \<Rightarrow> 'u sseHandler \<Rightarrow> 'u sseHandler" where
  "WithSSEPath path h = h \<lparr> eh_ssePath := path \<rparr>"

definition WithMessagePath :: "string \<Rightarrow> 'u sseHandler \<Rightarrow> 'u sseHandler" where
  "WithMessagePath path h = h \<lparr> eh_messagePath := path \<rparr>"

definition WithKeepAlive :: "int \<Rightarrow> 'u sseHandler \<Rightarrow> 'u sseHandler" where
  "WithKeepAlive d h = h \<lparr> eh_keepAlive := d \<rparr>"

definition WithMaxBodySize :: "int \<Rightarrow> 'u sseHandler \<Rightarrow> 'u sseHandler" where
  "WithMaxBodySize n h = h \<lparr> eh_maxBodySize := n \<rparr>"

definition SSEHandler :: "'u sse_world Server \<Rightarrow> ('u sseHandler \<Rightarrow> 'u sseHandler) list \<Rightarrow> 'u sseHandler" where
  "SSEHandler s opts = fold (\<lambda>opt h. opt h) opts
     \<lparr> eh_server = s, eh_ssePath = ''/sse'', eh_messagePath = ''/message'', eh_keepAlive = 30, eh_maxBodySize = 0, eh_sessions = [] \<rparr>"

definition sse_capacity :: nat where "sse_capacity = 64"

definition sse_upd :: "nat \<Rightarrow> (sseSession \<Rightarrow> sseSession) \<Rightarrow> 'u sse_world \<Rightarrow> 'u sse_world" where
  "sse_upd a f w = w \<lparr> ew_heap := (ew_heap w)(a := f (ew_heap w a)) \<rparr>"

text \<open>A sender puts the notification into the buffer; if that is full, it ends the session. When the session is done and
  the buffer has room, either case of the \<open>select\<close> may run.\<close>

definition sse_push :: "bool \<Rightarrow> string \<Rightarrow> sseSession \<Rightarrow> sseSession" where
  "sse_push pick data s =
     (if length (es_events s) < sse_capacity \<and> (\<not> es_done s \<or> pick) then s \<lparr> es_events := es_events s @ [data] \<rparr>
      else s \<lparr> es_done := True \<rparr>)"

definition sse_sender :: "transport_env \<Rightarrow> nat \<Rightarrow> 'u sse_world NotificationSender" where
  "sse_sender E a n w = (case te_notif E n of None \<Rightarrow> w | Some data \<Rightarrow> sse_upd a (sse_push (te_pick E a) data) w)"

section \<open>Opening, streaming and closing\<close>

text \<open>\<open>handleSSE\<close> up to its loop: the answer, and the session if there is one.\<close>

definition handleSSE ::
  "transport_env \<Rightarrow> string option list \<Rightarrow> http_message \<Rightarrow> ResponseWriter \<Rightarrow> 'u sseHandler \<Rightarrow> 'u sse_world
   \<Rightarrow> ResponseWriter \<times> (nat \<times> string) option \<times> 'u sseHandler \<times> 'u sse_world" where
  "handleSSE E reads r rw h w =
     (if \<not> rq_Flusher r then (http_Error ''streaming not supported'' 500 rw, None, h, w)
      else case generateSessionID reads of
        Inl e \<Rightarrow> (http_Error ''failed to generate session ID'' 500 rw, None, h, w)
      | Inr i \<Rightarrow>
        let a = ew_next w;
            w1 = w \<lparr> ew_heap := (ew_heap w)(a := \<lparr> es_events = [], es_done = False, es_pending = NewPendingRequests \<rparr>), ew_next := Suc a \<rparr>;
            h1 = h \<lparr> eh_sessions := mput i a (eh_sessions h) \<rparr>
        in (case AddSender i (Some (sse_sender E a)) (eh_server h1) of
              (Some e, s1) \<Rightarrow>
                (http_Error ''failed to register session sender'' 500 rw, None,
                 h1 \<lparr> eh_sessions := mdel i (eh_sessions h1), eh_server := s1 \<rparr>, sse_upd a (\<lambda>s. s \<lparr> es_done := True \<rparr>) w1)
            | (None, s1) \<Rightarrow>
                let rw1 = SetHeader ''Cache-Control'' ''no-cache'' (SetHeader ''Content-Type'' ''text/event-stream'' rw);
                    rw2 = (if rq_ProtoMajor r = 1 then SetHeader ''Connection'' ''keep-alive'' rw1 else rw1)
                in (WriteBody (''event: endpoint'' @ [newline] @ ''data: '' @ eh_messagePath h @ ''?sessionId='' @ i @ [newline, newline]) rw2,
                    Some (a, i), h1 \<lparr> eh_server := s1 \<rparr>, w1)))"

definition sse_event :: "nat \<Rightarrow> ResponseWriter \<Rightarrow> 'u sse_world \<Rightarrow> ResponseWriter \<times> 'u sse_world" where
  "sse_event a rw w =
     (case es_events (ew_heap w a) of [] \<Rightarrow> (rw, w)
      | data # rest \<Rightarrow>
          (WriteBody (''event: message'' @ [newline] @ ''data: '' @ data @ [newline, newline]) rw, sse_upd a (\<lambda>s. s \<lparr> es_events := rest \<rparr>) w))"

text \<open>The deferred clean-up when the loop returns.\<close>

definition sse_return :: "nat \<Rightarrow> string \<Rightarrow> 'u sseHandler \<Rightarrow> 'u sse_world \<Rightarrow> 'u sseHandler \<times> 'u sse_world" where
  "sse_return a i h w =
     (h \<lparr> eh_sessions := mdel i (eh_sessions h),
          eh_server := RemoveSessionTools i (UnsubscribeAll i (RemoveSender i (eh_server h))) \<rparr>,
      sse_upd a (\<lambda>s. s \<lparr> es_done := True, es_pending := CloseAll (es_pending s) \<rparr>) w)"

section \<open>Messages\<close>

text \<open>The response goes to the stream: enqueued, or the session is done, the request cancelled, or the buffer full. With
  several cases ready, the choice is an argument (\<open>0\<close> for the buffer, \<open>1\<close> for the session, otherwise the context).\<close>

definition sse_respond :: "nat \<Rightarrow> goerr option \<Rightarrow> string \<Rightarrow> ResponseWriter \<Rightarrow> sseSession \<Rightarrow> ResponseWriter \<times> sseSession" where
  "sse_respond choice ctxErr data rw s =
     (let room = length (es_events s) < sse_capacity; dead = es_done s; cancelled = (ctxErr \<noteq> None)
      in if room \<and> (choice = 0 \<or> \<not> dead \<and> \<not> cancelled) then (WriteHeader 202 rw, s \<lparr> es_events := es_events s @ [data] \<rparr>)
         else if dead \<and> (choice = 1 \<or> \<not> cancelled) then (http_Error ''session closed'' 410 rw, s)
         else if cancelled then (http_Error ''request canceled'' 408 rw, s)
         else (http_Error ''session is not ready to receive events'' 503 rw, s))"

definition handleMessage_sse ::
  "transport_env \<Rightarrow> nat \<Rightarrow> 'u sse_world ctx \<Rightarrow> http_message \<Rightarrow> ResponseWriter \<Rightarrow> 'u sseHandler \<Rightarrow> 'u sse_world
   \<Rightarrow> ResponseWriter hres \<times> 'u sseHandler \<times> 'u sse_world" where
  "handleMessage_sse E choice c r rw h w =
     (let sessionID = first_value (hr_Query r) ''sessionId'';
          maxSize = (if eh_maxBodySize h \<le> 0 then defaultMaxBodySize else eh_maxBodySize h)
      in if sessionID = [] then (Ret (http_Error ''missing sessionId query parameter'' 400 rw), h, w)
         else case mget (eh_sessions h) sessionID of
           None \<Rightarrow> (Ret (http_Error ''unknown session'' 404 rw), h, w)
         | Some a \<Rightarrow>
           if rq_bodyErr r \<or> rq_bodyLen r > maxSize then (Ret (http_Error ''request body too large'' 413 rw), h, w)
           else if rq_bodyLen r = 0 then (Ret (http_Error ''empty request body'' 400 rw), h, w)
           else if IsResponse (rq_Body r)
           then (Ret (WriteHeader 202 rw), h,
                 sse_upd a (\<lambda>s. s \<lparr> es_pending := Deliver_send 0 (Deliver_lookup (te_fmtv E) 0 (rq_Body r) (es_pending s)) \<rparr>) w)
           else (case HandleMessage (te_env E) (c \<lparr> cx_Sender := Some (sse_sender E a), cx_SubscriberID := sessionID \<rparr>) (rq_Body r) (eh_server h) w of
               (Panic m, s1, w1, _) \<Rightarrow> (Panic m, h \<lparr> eh_server := s1 \<rparr>, w1)
             | (Err e, s1, w1, _) \<Rightarrow> (Ret (http_Error ''internal error'' 500 rw), h \<lparr> eh_server := s1 \<rparr>, w1)
             | (Ret None, s1, w1, _) \<Rightarrow> (Ret (WriteHeader 202 rw), h \<lparr> eh_server := s1 \<rparr>, w1)
             | (Ret (Some resp), s1, w1, _) \<Rightarrow>
                 (case te_resp E resp of
                    None \<Rightarrow> (Ret (http_Error ''failed to encode response'' 500 rw), h \<lparr> eh_server := s1 \<rparr>, w1)
                  | Some data \<Rightarrow>
                      (case sse_respond choice (cx_Done c) data rw (ew_heap w1 a) of
                         (rw1, s2) \<Rightarrow> (Ret rw1, h \<lparr> eh_server := s1 \<rparr>, sse_upd a (\<lambda>_. s2) w1)))))"

text \<open>\<open>ServeHTTP\<close>; of a GET only the opening of the stream.\<close>

definition sse_ServeHTTP ::
  "transport_env \<Rightarrow> nat \<Rightarrow> string option list \<Rightarrow> 'u sse_world ctx \<Rightarrow> http_message \<Rightarrow> ResponseWriter \<Rightarrow> 'u sseHandler \<Rightarrow> 'u sse_world
   \<Rightarrow> ResponseWriter hres \<times> 'u sseHandler \<times> 'u sse_world" where
  "sse_ServeHTTP E choice reads c r rw h w =
     (if rq_Path r = eh_ssePath h
      then if rq_Method r \<noteq> ''GET'' then (Ret (http_Error ''method not allowed'' 405 rw), h, w)
           else (case handleSSE E reads r rw h w of (rw1, _, h1, w1) \<Rightarrow> (Ret rw1, h1, w1))
      else if rq_Path r = eh_messagePath h
      then if rq_Method r \<noteq> ''POST'' then (Ret (http_Error ''method not allowed'' 405 rw), h, w)
           else handleMessage_sse E choice c r rw h w
      else (Ret (http_Error ''404 page not found'' 404 rw), h, w))"

section \<open>Streams that ended leave nothing behind\<close>

datatype 'u sse_op =
    SseRequest transport_env nat "string option list" "'u sse_world ctx" http_message
  | SseEvent nat | SseReturn nat string

text \<open>The loop that returns is that of an open session.\<close>

fun sse_exec :: "'u sse_op \<Rightarrow> 'u sseHandler \<times> 'u sse_world \<Rightarrow> 'u sseHandler \<times> 'u sse_world" where
  "sse_exec (SseRequest E choice reads c r) (h, w) = snd (sse_ServeHTTP E choice reads c r new_writer h w)"
| "sse_exec (SseEvent a) (h, w) = (h, snd (sse_event a new_writer w))"
| "sse_exec (SseReturn a i) (h, w) = (if mget (eh_sessions h) i = Some a then sse_return a i h w else (h, w))"

definition sse_live :: "'u sseHandler \<Rightarrow> string set" where
  "sse_live h = fst ` set (eh_sessions h)"

definition sse_tidy :: "'u sseHandler \<Rightarrow> bool" where
  "sse_tidy h \<longleftrightarrow> fst ` set (s_senders (eh_server h)) = sse_live h \<and> owners (eh_server h) \<subseteq> sse_live h \<and> [] \<notin> sse_live h"

lemma sse_open_tidy:
  assumes "sse_tidy h" and "\<forall>i. generateSessionID reads = Inr i \<longrightarrow> i \<notin> sse_live h"
  shows "sse_tidy (fst (snd (snd (handleSSE E reads r rw h w))))"
proof (cases "generateSessionID reads")
  case (Inr i)
  then have new: "i \<notin> sse_live h" using assms(2) by simp
  show ?thesis
  proof (cases "rq_Flusher r \<and> i \<noteq> []")
    case True
    have "mget (s_senders (eh_server h)) i = None" using new assms(1) by (simp add: sse_tidy_def mget_None_iff)
    moreover have "owners (open_connection (sse_sender E (ew_next w)) i (eh_server h)) \<subseteq> insert i (sse_live h)"
      using server_connections.opens_live [of "eh_server h" "sse_live h"] assms(1) by (simp add: sse_tidy_def)
    ultimately show ?thesis using assms(1) True Inr
      by (auto simp: handleSSE_def AddSender_def open_connection_def sse_tidy_def sse_live_def Let_def)
  next
    case False
    have "fst ` set (mdel i (mput i (ew_next w) (eh_sessions h))) = fst ` set (eh_sessions h)" using new by (auto simp: sse_live_def)
    then show ?thesis using assms(1) False Inr
      by (auto simp: handleSSE_def AddSender_def sse_tidy_def sse_live_def Let_def)
  qed
qed (use assms in \<open>simp add: handleSSE_def\<close>)

lemma sse_message_tidy:
  assumes "sse_tidy h"
  shows "sse_tidy (fst (snd (handleMessage_sse E choice c r rw h w)))"
proof (cases "mget (eh_sessions h) (first_value (hr_Query r) ''sessionId'')")
  case (Some a)
  let ?i = "first_value (hr_Query r) ''sessionId''"
  let ?c = "c \<lparr> cx_Sender := Some (sse_sender E a), cx_SubscriberID := ?i \<rparr>"
  obtain out s1 w1 effs where m: "HandleMessage (te_env E) ?c (rq_Body r) (eh_server h) w = (out, s1, w1, effs)" by (metis prod_cases4)
  have "?i \<in> sse_live h" using mget_SomeD [OF Some] unfolding sse_live_def by (metis fst_conv imageI)
  moreover have "for_owner ?i (eh_server h) s1" using owner_message [of ?c "eh_server h" "te_env E" "rq_Body r" w] m by simp
  ultimately have t: "sse_tidy (h \<lparr> eh_server := s1 \<rparr>)" using assms by (auto simp: sse_tidy_def sse_live_def for_owner_def owners_def)
  have "fst (snd (handleMessage_sse E choice c r rw h w)) \<in> {h, h \<lparr> eh_server := s1 \<rparr>}"
  proof (cases out)
    case (Ret x)
    then show ?thesis using m by (cases x) (simp_all add: handleMessage_sse_def Some Let_def split: option.split prod.split)
  qed (use m in \<open>simp_all add: handleMessage_sse_def Some Let_def\<close>)
  then show ?thesis using assms t by auto
qed (use assms in \<open>auto simp: handleMessage_sse_def Let_def\<close>)

lemma sse_return_tidy:
  assumes "sse_tidy h" and "mget (eh_sessions h) i = Some a"
  shows "sse_tidy (fst (sse_return a i h w))"
proof -
  have "i \<noteq> []" using assms mget_SomeD [OF assms(2)] by (force simp: sse_tidy_def sse_live_def)
  then have "owners (disconnect i (eh_server h)) \<subseteq> sse_live h - {i}"
    and "fst ` set (s_senders (disconnect i (eh_server h))) = fst ` set (s_senders (eh_server h)) - {i}"
    using server_connections.closes_live [of "eh_server h" "sse_live h" i] assms(1)
    by (simp_all add: sse_tidy_def disconnect_def RemoveSender_def UnsubscribeAll_def RemoveSessionTools_def)
  then show ?thesis using assms(1) by (auto simp: sse_return_def sse_tidy_def sse_live_def disconnect_def)
qed

text \<open>Identifiers are not given twice: what \<open>crypto/rand\<close> yields for a new session is not the identifier of an open one.\<close>

fun ids_are_new :: "'u sse_op list \<Rightarrow> 'u sseHandler \<times> 'u sse_world \<Rightarrow> bool" where
  "ids_are_new [] st = True"
| "ids_are_new (p # ps) st =
     ((case p of SseRequest E choice reads c r \<Rightarrow> (case generateSessionID reads of Inr i \<Rightarrow> i \<notin> sse_live (fst st) | Inl e \<Rightarrow> True) | _ \<Rightarrow> True)
      \<and> ids_are_new ps (sse_exec p st))"

theorem ended_streams_leave_nothing:
  fixes s :: "'u sse_world Server"
  assumes "owners s = {}" and "ids_are_new ops (SSEHandler s [], w)"
  shows "let h = fst (fold sse_exec ops (SSEHandler s [], w))
         in fst ` set (s_senders (eh_server h)) = sse_live h \<and> owners (eh_server h) \<subseteq> sse_live h"
proof -
  have step: "sse_tidy (fst (sse_exec p st))" if "sse_tidy (fst st)" "ids_are_new [p] st" for p and st :: "'u sseHandler \<times> 'u sse_world"
  proof (cases st)
    case (Pair h w)
    show ?thesis
    proof (cases p)
      case (SseRequest E choice reads c r)
      have "sse_tidy (fst (snd (snd (handleSSE E reads r new_writer h w))))"
        by (rule sse_open_tidy) (use that in \<open>auto simp: Pair SseRequest\<close>)
      then show ?thesis using that(1) sse_message_tidy [of h E choice c r new_writer w]
        by (auto simp: Pair SseRequest sse_ServeHTTP_def split: prod.splits)
    next
      case (SseReturn a i)
      then show ?thesis using that(1) sse_return_tidy [of h i a w] by (simp add: Pair)
    qed (use that in \<open>simp add: Pair\<close>)
  qed
  have run: "sse_tidy (fst (fold sse_exec ops st))" if "sse_tidy (fst st)" "ids_are_new ops st" for st :: "'u sseHandler \<times> 'u sse_world"
    using that
  proof (induction ops arbitrary: st)
    case (Cons p ops)
    then show ?case using step [of st p] by simp
  qed simp
  have "sse_tidy (SSEHandler s [])" using assms(1) by (simp add: sse_tidy_def sse_live_def SSEHandler_def owners_def)
  then show ?thesis using run [of "(SSEHandler s [], w)"] assms(2) by (simp add: sse_tidy_def Let_def)
qed

text \<open>A collision of identifiers would take the open session out of the table: it is replaced before the sender is
  registered, and removed when that fails.\<close>

theorem colliding_id_drops_the_open_session:
  assumes "mget (eh_sessions h) i = Some a" and "mget (s_senders (eh_server h)) i \<noteq> None" and "generateSessionID reads = Inr i" and "i \<noteq> []"
    and "rq_Flusher r"
  shows "mget (eh_sessions (fst (snd (snd (handleSSE E reads r rw h w))))) i = None"
  using assms by (auto simp: handleSSE_def AddSender_def Let_def mget_mdel)

end
