(* ===== verification/Server_Options.thy ===== *)
theory Server_Options
  imports Dispatch_Props Http_Routing
begin

text \<open>
  The options of \<open>NewServer\<close> (\<open>server.go\<close>) that check their argument or set a field that only describes the
  server. An option that does not panic gives a well-formed server, so that the invariant of the dispatch layer holds
  from the start. The size of stream buffers and the icons are kept beside the record of the server.
\<close>

record Icon =
  ic_Src :: string
  ic_MimeType :: string
  ic_Sizes :: "string list"

record server_extras =
  sx_streamBufSize :: int
  sx_icons :: "Icon list"

type_synonym 'w ServerOption = "'w Server \<times> server_extras \<Rightarrow> 'w Server \<times> server_extras"

section \<open>Limits\<close>

definition positive :: "string \<Rightarrow> int \<Rightarrow> 'o \<Rightarrow> 'o hres" where
  "positive name n opt = (if n \<le> 0 then Panic (''finemcp: '' @ name @ '' requires a positive value'') else Ret opt)"

definition WithMaxSessionTools :: "int \<Rightarrow> 'w ServerOption hres" where
  "WithMaxSessionTools n = positive ''WithMaxSessionTools'' n
     (\<lambda>(s, x). (s \<lparr> s_sessionTools := (s_sessionTools s) \<lparr> sr_maxToolsPerSess := n \<rparr> \<rparr>, x))"

definition WithMaxSessions :: "int \<Rightarrow> 'w ServerOption hres" where
  "WithMaxSessions n = positive ''WithMaxSessions'' n
     (\<lambda>(s, x). (s \<lparr> s_sessionTools := (s_sessionTools s) \<lparr> sr_maxSessions := n \<rparr> \<rparr>, x))"

definition WithStreamBufferSize :: "int \<Rightarrow> 'w ServerOption hres" where
  "WithStreamBufferSize n = positive ''WithStreamBufferSize'' n (\<lambda>(s, x). (s, x \<lparr> sx_streamBufSize := n \<rparr>))"

definition WithMaxNotificationMethods :: "int \<Rightarrow> 'w ServerOption hres" where
  "WithMaxNotificationMethods n = positive ''WithMaxNotificationMethods'' n (\<lambda>(s, x). (s \<lparr> s_maxNotifMethods := n \<rparr>, x))"

definition WithMaxHandlersPerNotification :: "int \<Rightarrow> 'w ServerOption hres" where
  "WithMaxHandlersPerNotification n = positive ''WithMaxHandlersPerNotification'' n (\<lambda>(s, x). (s \<lparr> s_maxHandlersPerMethod := n \<rparr>, x))"

definition WithNotificationPanicHandler :: "(string \<Rightarrow> string \<Rightarrow> 'w \<Rightarrow> 'w) option \<Rightarrow> 'w ServerOption hres" where
  "WithNotificationPanicHandler h =
     (if h = None then Panic ''finemcp: WithNotificationPanicHandler requires a non-nil handler''
      else Ret (\<lambda>(s, x). (s \<lparr> s_notifPanicHandler := h \<rparr>, x)))"

section \<open>Description\<close>

definition set_info :: "(ServerInfo \<Rightarrow> ServerInfo) \<Rightarrow> 'w ServerOption" where
  "set_info f = (\<lambda>(s, x). (s \<lparr> s_info := f (s_info s) \<rparr>, x))"

definition WithServerTitle :: "string \<Rightarrow> 'w ServerOption" where
  "WithServerTitle title = set_info (\<lambda>i. i \<lparr> si_Title := title \<rparr>)"

definition WithServerDescription :: "string \<Rightarrow> 'w ServerOption" where
  "WithServerDescription desc = set_info (\<lambda>i. i \<lparr> si_Description := desc \<rparr>)"

definition WithWebsiteURL :: "string \<Rightarrow> 'w ServerOption" where
  "WithWebsiteURL url = set_info (\<lambda>i. i \<lparr> si_WebsiteURL := url \<rparr>)"

definition maxInstructionsLength :: nat where "maxInstructionsLength = 100 * 1024"

definition WithInstructions :: "string \<Rightarrow> 'w ServerOption hres" where
  "WithInstructions text =
     (if length text > maxInstructionsLength
      then Panic (''finemcp: WithInstructions: length '' @ Itoa (int (length text)) @ '' exceeds maximum '' @ Itoa (int maxInstructionsLength))
      else Ret (set_info (\<lambda>i. i \<lparr> si_Instructions := text \<rparr>)))"

section \<open>Icons\<close>

text \<open>The scheme of a URL as \<open>net/url\<close> finds it: a letter, then letters, digits and the signs plus, minus and dot up to a
  colon. A text that starts with a colon is not a URL (\<open>None\<close>); a text without a scheme has the empty one. Other
  reasons for which \<open>url.Parse\<close> fails are an argument.\<close>

definition scheme_letter :: "char \<Rightarrow> bool" where
  "scheme_letter c \<longleftrightarrow> (let n = (of_char c :: nat) in 65 \<le> n \<and> n \<le> 90 \<or> 97 \<le> n \<and> n \<le> 122)"

definition scheme_other :: "char \<Rightarrow> bool" where
  "scheme_other c \<longleftrightarrow> 48 \<le> (of_char c :: nat) \<and> (of_char c :: nat) \<le> 57 \<or> c \<in> set ''+-.''"

fun get_scheme :: "string \<Rightarrow> string \<Rightarrow> string option" where
  "get_scheme acc [] = Some []"
| "get_scheme acc (c # cs) =
     (if scheme_letter c then get_scheme (acc @ [c]) cs
      else if scheme_other c then (if acc = [] then Some [] else get_scheme (acc @ [c]) cs)
      else if c = CHR '':'' then (if acc = [] then None else Some acc)
      else Some [])"

definition url_scheme :: "(string \<Rightarrow> bool) \<Rightarrow> string \<Rightarrow> string option" where
  "url_scheme bad src = (if bad src then None else get_scheme [] src)"

definition allowedIconSchemes :: "string list" where
  "allowedIconSchemes = [''http'', ''https'', ''data'']"

text \<open>\<open>validateDataURLMIME\<close>: the message of its panic, if any.\<close>

definition validateDataURLMIME :: "(string \<Rightarrow> string) \<Rightarrow> string \<Rightarrow> string option" where
  "validateDataURLMIME uni src =
     (let rest = drop 5 src
      in case str_index rest '','' of
           None \<Rightarrow> Some (''finemcp: WithIcons: data URL missing comma separator: '' @ src)
         | Some i \<Rightarrow>
             let t = TrimSpace (ToLower uni (takeWhile (\<lambda>c. c \<noteq> CHR '';'') (take i rest)));
                 mediaType = (if t = [] then ''text/plain'' else t)
             in if \<not> HasPrefix mediaType ''image/''
                then Some (''finemcp: WithIcons: data URL must use image/* MIME type, got '' @ mediaType @ '' in '' @ src) else None)"

definition icon_refused :: "(string \<Rightarrow> string) \<Rightarrow> (string \<Rightarrow> bool) \<Rightarrow> Icon \<Rightarrow> string option" where
  "icon_refused uni bad icon =
     (let src = ic_Src icon
      in if src = [] then None
         else case url_scheme bad src of
           None \<Rightarrow> Some (''finemcp: WithIcons: invalid icon URL: '' @ src)
         | Some sch \<Rightarrow>
             let scheme = ToLower uni sch
             in if scheme = [] then Some (''finemcp: WithIcons: icon URL must have an explicit scheme (http, https, or data): '' @ src)
                else if scheme \<notin> set allowedIconSchemes then Some (''finemcp: WithIcons: disallowed icon URL scheme '' @ scheme @ '' in '' @ src)
                else if scheme = ''data'' then validateDataURLMIME uni src
                else None)"

fun first_refused :: "('a \<Rightarrow> string option) \<Rightarrow> 'a list \<Rightarrow> string option" where
  "first_refused f [] = None"
| "first_refused f (x # xs) = (case f x of Some m \<Rightarrow> Some m | None \<Rightarrow> first_refused f xs)"

definition WithIcons :: "(string \<Rightarrow> string) \<Rightarrow> (string \<Rightarrow> bool) \<Rightarrow> Icon list \<Rightarrow> 'w ServerOption hres" where
  "WithIcons uni bad icons =
     (case first_refused (icon_refused uni bad) icons of
        Some m \<Rightarrow> Panic m
      | None \<Rightarrow> Ret (\<lambda>(s, x). (s, x \<lparr> sx_icons := icons \<rparr>)))"

text \<open>Icons that pass never have a scheme that runs code.\<close>

lemma icons_have_safe_schemes:
  assumes "WithIcons uni bad icons = Ret opt" and "icon \<in> set icons" and "ic_Src icon \<noteq> []"
  shows "\<exists>sch. url_scheme bad (ic_Src icon) = Some sch \<and> ToLower uni sch \<in> {''http'', ''https'', ''data''}"
proof -
  have "first_refused f xs = None \<Longrightarrow> x \<in> set xs \<Longrightarrow> f x = None" for f :: "Icon \<Rightarrow> string option" and x xs
    by (induction xs) (auto split: option.splits)
  then have "icon_refused uni bad icon = None" using assms(1,2) by (auto simp: WithIcons_def split: option.splits)
  then show ?thesis using assms(3)
    by (auto simp: icon_refused_def allowedIconSchemes_def Let_def split: option.splits if_splits)
qed

section \<open>A configured server is well formed\<close>

datatype 'w server_option =
    OptSubscriptions | OptTaskStore TaskStore | OptVersions "string list" | OptMaxSessionTools int | OptMaxSessions int
  | OptStreamBuffer int | OptNotifMethods int | OptNotifHandlers int | OptPanicHandler "(string \<Rightarrow> string \<Rightarrow> 'w \<Rightarrow> 'w) option"
  | OptTitle string | OptDescription string | OptWebsite string | OptIcons "Icon list" | OptInstructions string

definition on_server :: "('w Server \<Rightarrow> 'w Server) \<Rightarrow> 'w ServerOption" where
  "on_server f = (\<lambda>(s, x). (f s, x))"

fun option_of :: "(string \<Rightarrow> string) \<Rightarrow> (string \<Rightarrow> bool) \<Rightarrow> 'w server_option \<Rightarrow> 'w ServerOption hres" where
  "option_of uni bad OptSubscriptions = Ret (on_server WithResourceSubscriptions)"
| "option_of uni bad (OptTaskStore ts) = Ret (on_server (WithTaskStore ts))"
| "option_of uni bad (OptVersions vs) = (case WithSupportedVersions vs of Ret f \<Rightarrow> Ret (on_server f) | Err e \<Rightarrow> Err e | Panic m \<Rightarrow> Panic m)"
| "option_of uni bad (OptMaxSessionTools n) = WithMaxSessionTools n"
| "option_of uni bad (OptMaxSessions n) = WithMaxSessions n"
| "option_of uni bad (OptStreamBuffer n) = WithStreamBufferSize n"
| "option_of uni bad (OptNotifMethods n) = WithMaxNotificationMethods n"
| "option_of uni bad (OptNotifHandlers n) = WithMaxHandlersPerNotification n"
| "option_of uni bad (OptPanicHandler h) = WithNotificationPanicHandler h"
| "option_of uni bad (OptTitle t) = Ret (WithServerTitle t)"
| "option_of uni bad (OptDescription t) = Ret (WithServerDescription t)"
| "option_of uni bad (OptWebsite t) = Ret (WithWebsiteURL t)"
| "option_of uni bad (OptIcons is) = WithIcons uni bad is"
| "option_of uni bad (OptInstructions t) = WithInstructions t"

fun configure :: "(string \<Rightarrow> string) \<Rightarrow> (string \<Rightarrow> bool) \<Rightarrow> 'w server_option list \<Rightarrow> 'w Server \<times> server_extras \<Rightarrow> ('w Server \<times> server_extras) hres" where
  "configure uni bad [] st = Ret st"
| "configure uni bad (p # ps) st =
     (case option_of uni bad p of Ret f \<Rightarrow> configure uni bad ps (f st) | Err e \<Rightarrow> Err e | Panic m \<Rightarrow> Panic m)"

text \<open>A fresh server has no session, so that its limits may change.\<close>

definition fresh :: "'w Server \<Rightarrow> bool" where
  "fresh s \<longleftrightarrow> wf_server s \<and> sr_sessions (s_sessionTools s) = [] \<and> s_supportedVersions s \<noteq> []"

lemma wf_limits:
  "sr_sessions r = [] \<Longrightarrow> wf_sessions r \<Longrightarrow> wf_sessions (r \<lparr> sr_maxToolsPerSess := n \<rparr>)"
  "sr_sessions r = [] \<Longrightarrow> wf_sessions r \<Longrightarrow> wf_sessions (r \<lparr> sr_maxSessions := n \<rparr>)"
  using limit_pos(1) [of "r \<lparr> sr_maxSessions := n \<rparr>"] limit_pos(1) [of "r \<lparr> sr_maxToolsPerSess := n \<rparr>"]
  by (auto simp: wf_sessions_def wf_ring_def closed_queue_def ring_order_def split: option.splits)

lemma wf_other_fields [simp]:
  "wf_registries (s \<lparr> s_enableSubs := b \<rparr>) = wf_registries s" "wf_registries (s \<lparr> s_supportedVersions := vs \<rparr>) = wf_registries s"
  "wf_registries (s \<lparr> s_maxNotifMethods := n \<rparr>) = wf_registries s" "wf_registries (s \<lparr> s_maxHandlersPerMethod := n \<rparr>) = wf_registries s"
  "wf_registries (s \<lparr> s_notifPanicHandler := h \<rparr>) = wf_registries s" "wf_registries (s \<lparr> s_info := i \<rparr>) = wf_registries s"
  by (simp_all add: wf_registries_def coherent_defs)

lemma option_fresh:
  assumes "fresh (fst st)" and "option_of uni bad p = Ret f" and "\<forall>ts. p = OptTaskStore ts \<longrightarrow> wf_tasks ts"
  shows "fresh (fst (f st))"
  using assms
  by (cases p; cases st)
     (auto simp: fresh_def wf_server_def wf_limits on_server_def WithResourceSubscriptions_def WithTaskStore_def WithSupportedVersions_def
       WithMaxSessionTools_def WithMaxSessions_def WithStreamBufferSize_def WithMaxNotificationMethods_def WithMaxHandlersPerNotification_def
       WithNotificationPanicHandler_def WithServerTitle_def WithServerDescription_def WithWebsiteURL_def WithIcons_def WithInstructions_def
       set_info_def positive_def split: if_splits hres.splits option.splits)

theorem configured_server_is_well_formed:
  assumes "configure uni bad ps (NewServer name version [], x) = Ret (s, y)" and "\<forall>ts. OptTaskStore ts \<in> set ps \<longrightarrow> wf_tasks ts"
  shows "wf_server s \<and> s_supportedVersions s \<noteq> []"
proof -
  have run: "fresh (fst st')" if "configure uni bad ps st = Ret st'" "fresh (fst st)" "\<forall>ts. OptTaskStore ts \<in> set ps \<longrightarrow> wf_tasks ts"
    for ps and st st' :: "'a Server \<times> server_extras"
    using that
  proof (induction ps arbitrary: st)
    case (Cons p ps)
    then obtain f where f: "option_of uni bad p = Ret f" "configure uni bad ps (f st) = Ret st'" by (auto split: hres.splits)
    show ?case using Cons.IH [OF f(2) option_fresh [OF Cons.prems(2) f(1)]] Cons.prems(3) by auto
  qed simp
  have "fresh (NewServer name version [] :: 'a Server)"
    by (simp add: fresh_def wf_server_def wf_registries_def coherent_defs NewServer_def keyed_def wf_map_def wf_sessions_def newSessionToolRegistry_def
        wf_ring_def session_limit_def DefaultMaxSessions_def defaultSupportedVersions_def)
  then show ?thesis using run [OF assms(1)] assms(2) by (simp add: fresh_def)
qed

end
