(* ===== verification/Client_Stream.thy ===== *)
theory Client_Stream
  imports Client_Inbound
begin

text \<open>
  A streaming tool call of the client (\<open>callToolStreamingInternal\<close> of \<open>client/client.go\<close>) with its goroutines: the reader
  that hands on the blocks of progress notifications (\<open>handleNotification\<close>), the goroutine of the request, the worker,
  and the caller. Each access to a channel or to the table of subscribers is one step. Blocks come to the caller in the
  order in which they were sent; the reader can send on a closed channel; and after an error the channel of the result is
  never closed.
\<close>

section \<open>State and steps\<close>

datatype 'b notif_pc = NIdle | NSend "'b list" | NPanic
datatype 'b rpc_pc = GCall | GFlush "'b list" | GDeregister | GClose | GEnd
datatype 'b worker_pc = WTake | WPut 'b | WDrain | WEnd

text \<open>The buffers of the channels, whether they are closed, the points of the goroutines, the error of the context, what the
  caller took, and what was ever put into the internal channel.\<close>

record 'b streaming_call =
  sc_sub :: bool
  sc_internal :: "'b list"
  sc_internalClosed :: bool
  sc_content :: "'b list"
  sc_contentClosed :: bool
  sc_result :: "'b list option"
  sc_resultClosed :: bool
  sc_err :: "goerr list"
  sc_errClosed :: bool
  sc_reader :: "'b notif_pc"
  sc_rpc :: "'b rpc_pc"
  sc_worker :: "'b worker_pc"
  sc_ctx :: "goerr option"
  sc_final :: "'b list"
  sc_taken :: "'b list"
  sc_sent :: "'b list"

definition internal_cap :: nat where "internal_cap = 256"
definition content_cap :: nat where "content_cap = 16"

definition streaming_start :: "'b streaming_call" where
  "streaming_start = \<lparr> sc_sub = True, sc_internal = [], sc_internalClosed = False, sc_content = [], sc_contentClosed = False, sc_result = None,
     sc_resultClosed = False, sc_err = [], sc_errClosed = False, sc_reader = NIdle, sc_rpc = GCall, sc_worker = WTake, sc_ctx = None,
     sc_final = [], sc_taken = [], sc_sent = [] \<rparr>"

text \<open>A call before the handshake gets an error and three closed channels.\<close>

definition streaming_refused :: "goerr \<Rightarrow> 'b streaming_call" where
  "streaming_refused e = streaming_start \<lparr> sc_sub := False, sc_err := [e], sc_errClosed := True, sc_contentClosed := True, sc_resultClosed := True,
     sc_rpc := GEnd, sc_worker := WEnd \<rparr>"

definition callToolStreamingInternal :: "goerr option \<Rightarrow> 'b streaming_call" where
  "callToolStreamingInternal initErr = (case initErr of Some e \<Rightarrow> streaming_refused e | None \<Rightarrow> streaming_start)"

definition put_internal :: "'b \<Rightarrow> 'b streaming_call \<Rightarrow> 'b streaming_call" where
  "put_internal b s = s \<lparr> sc_internal := sc_internal s @ [b], sc_sent := sc_sent s @ [b] \<rparr>"

text \<open>The reader: the lookup under the lock, then one block after the other without it. A full channel drops the block.\<close>

definition reader_lookup :: "'b list \<Rightarrow> 'b streaming_call \<Rightarrow> 'b streaming_call" where
  "reader_lookup bs s = (if sc_sub s then s \<lparr> sc_reader := NSend bs \<rparr> else s)"

definition reader_send :: "'b \<Rightarrow> 'b list \<Rightarrow> 'b streaming_call \<Rightarrow> 'b streaming_call" where
  "reader_send b bs s =
     (if sc_internalClosed s then s \<lparr> sc_reader := NPanic \<rparr>
      else let s1 = (if length (sc_internal s) < internal_cap then put_internal b s else s)
           in s1 \<lparr> sc_reader := NSend bs \<rparr>)"

inductive stream_step :: "'b streaming_call \<Rightarrow> 'b streaming_call \<Rightarrow> bool" where
  lookup: "sc_reader s = NIdle \<Longrightarrow> stream_step s (reader_lookup bs s)"
| sends: "sc_reader s = NSend (b # bs) \<Longrightarrow> stream_step s (reader_send b bs s)"
| sent_all: "sc_reader s = NSend [] \<Longrightarrow> stream_step s (s \<lparr> sc_reader := NIdle \<rparr>)"
| answered: "sc_rpc s = GCall \<Longrightarrow> stream_step s (s \<lparr> sc_rpc := GFlush bs, sc_final := bs \<rparr>)"
| failed: "sc_rpc s = GCall \<Longrightarrow> stream_step s (s \<lparr> sc_rpc := GDeregister, sc_err := sc_err s @ [e] \<rparr>)"
| flush: "sc_rpc s = GFlush (b # bs) \<Longrightarrow> length (sc_internal s) < internal_cap \<Longrightarrow> stream_step s ((put_internal b s) \<lparr> sc_rpc := GFlush bs \<rparr>)"
| flush_cancelled: "sc_rpc s = GFlush (b # bs) \<Longrightarrow> sc_ctx s = Some e \<Longrightarrow> stream_step s (s \<lparr> sc_rpc := GDeregister, sc_err := sc_err s @ [e] \<rparr>)"
| result: "sc_rpc s = GFlush [] \<Longrightarrow> stream_step s (s \<lparr> sc_rpc := GDeregister, sc_result := Some (sc_final s), sc_resultClosed := True \<rparr>)"
| deregister: "sc_rpc s = GDeregister \<Longrightarrow> stream_step s (s \<lparr> sc_rpc := GClose, sc_sub := False \<rparr>)"
| closes: "sc_rpc s = GClose \<Longrightarrow> stream_step s (s \<lparr> sc_rpc := GEnd, sc_internalClosed := True, sc_errClosed := True \<rparr>)"
| take: "sc_worker s = WTake \<Longrightarrow> sc_internal s = b # bs \<Longrightarrow> stream_step s (s \<lparr> sc_internal := bs, sc_worker := WPut b \<rparr>)"
| work_done: "sc_worker s = WTake \<Longrightarrow> sc_internal s = [] \<Longrightarrow> sc_internalClosed s \<Longrightarrow> stream_step s (s \<lparr> sc_contentClosed := True, sc_worker := WEnd \<rparr>)"
| put: "sc_worker s = WPut b \<Longrightarrow> length (sc_content s) < content_cap \<Longrightarrow> stream_step s (s \<lparr> sc_content := sc_content s @ [b], sc_worker := WTake \<rparr>)"
| worker_cancelled: "sc_worker s = WTake \<or> sc_worker s = WPut b \<Longrightarrow> sc_ctx s \<noteq> None \<Longrightarrow> stream_step s (s \<lparr> sc_worker := WDrain \<rparr>)"
| drain: "sc_worker s = WDrain \<Longrightarrow> sc_internal s = b # bs \<Longrightarrow> stream_step s (s \<lparr> sc_internal := bs \<rparr>)"
| drained: "sc_worker s = WDrain \<Longrightarrow> sc_internal s = [] \<Longrightarrow> sc_internalClosed s \<Longrightarrow> stream_step s (s \<lparr> sc_contentClosed := True, sc_worker := WEnd \<rparr>)"
| receives: "sc_content s = b # bs \<Longrightarrow> stream_step s (s \<lparr> sc_content := bs, sc_taken := sc_taken s @ [b] \<rparr>)"
| cancel: "sc_ctx s = None \<Longrightarrow> stream_step s (s \<lparr> sc_ctx := Some e \<rparr>)"

abbreviation stream_run :: "'b streaming_call \<Rightarrow> 'b streaming_call \<Rightarrow> bool" where
  "stream_run \<equiv> stream_step\<^sup>*\<^sup>*"

lemmas stream_defs = reader_lookup_def reader_send_def put_internal_def Let_def

section \<open>Blocks arrive in order\<close>

fun in_hand :: "'b worker_pc \<Rightarrow> 'b list" where
  "in_hand (WPut b) = [b]"
| "in_hand _ = []"

text \<open>While the context lives, what was sent is what the caller took, what waits for it, what the worker holds and what is
  still inside, in this order; and the content is closed only when all of it is out.\<close>

definition in_line :: "'b streaming_call \<Rightarrow> bool" where
  "in_line s \<longleftrightarrow> (sc_ctx s = None \<longrightarrow>
     sc_sent s = sc_taken s @ sc_content s @ in_hand (sc_worker s) @ sc_internal s \<and> sc_worker s \<noteq> WDrain
     \<and> (sc_contentClosed s \<longrightarrow> sc_worker s = WEnd) \<and> (sc_worker s = WEnd \<longrightarrow> sc_internal s = [] \<and> sc_internalClosed s))"

lemma in_line_step:
  assumes "stream_step s s'" and "in_line s" and "sc_internalClosed s \<longrightarrow> sc_rpc s = GEnd"
  shows "in_line s'"
  using assms by (cases rule: stream_step.cases) (auto simp: in_line_def stream_defs split: if_splits)

lemma closed_at_end: "stream_step s s' \<Longrightarrow> sc_internalClosed s \<longrightarrow> sc_rpc s = GEnd \<Longrightarrow> sc_internalClosed s' \<longrightarrow> sc_rpc s' = GEnd"
  by (cases rule: stream_step.cases) (auto simp: stream_defs split: if_splits)

theorem blocks_arrive_in_order:
  assumes "stream_run streaming_start s" and "sc_ctx s = None"
  shows "\<exists>rest. sc_sent s = sc_taken s @ rest" and "sc_contentClosed s \<Longrightarrow> sc_content s = [] \<Longrightarrow> sc_taken s = sc_sent s"
proof -
  have "in_line s \<and> (sc_internalClosed s \<longrightarrow> sc_rpc s = GEnd)"
    using assms(1)
  proof (induction rule: rtranclp_induct)
    case (step y z)
    then show ?case using in_line_step [of y z] closed_at_end [of y z] by blast
  qed (simp add: in_line_def streaming_start_def)
  then show "\<exists>rest. sc_sent s = sc_taken s @ rest" and "sc_contentClosed s \<Longrightarrow> sc_content s = [] \<Longrightarrow> sc_taken s = sc_sent s"
    using assms(2) by (auto simp: in_line_def)
qed

section \<open>Two faults\<close>

text \<open>The lookup and the sending are not under one lock: a notification whose subscriber was looked up before the request ended
  is sent on the channel that the goroutine of the request has closed, which panics in the reader of the client.\<close>

theorem reader_sends_on_closed_channel: "\<exists>s. stream_run streaming_start s \<and> sc_reader s = NPanic \<and> sc_ctx s = None"
proof -
  let ?s1 = "streaming_start \<lparr> sc_reader := NSend [b] \<rparr> :: 'a streaming_call"
  let ?s2 = "?s1 \<lparr> sc_rpc := GFlush [], sc_final := [] \<rparr>"
  let ?s3 = "?s2 \<lparr> sc_rpc := GDeregister, sc_result := Some (sc_final ?s2), sc_resultClosed := True \<rparr>"
  let ?s4 = "?s3 \<lparr> sc_rpc := GClose, sc_sub := False \<rparr>"
  let ?s5 = "?s4 \<lparr> sc_rpc := GEnd, sc_internalClosed := True, sc_errClosed := True \<rparr>"
  let ?s6 = "reader_send b [] ?s5"
  have "stream_step streaming_start (reader_lookup [b] streaming_start :: 'a streaming_call)" by (rule lookup) (simp add: streaming_start_def)
  then have "stream_step streaming_start ?s1" by (simp add: reader_lookup_def streaming_start_def)
  moreover have "stream_step ?s1 ?s2" by (rule answered) (simp add: streaming_start_def)
  moreover have "stream_step ?s2 ?s3" by (rule result) simp
  moreover have "stream_step ?s3 ?s4" by (rule deregister) simp
  moreover have "stream_step ?s4 ?s5" by (rule closes) simp
  moreover have "stream_step ?s5 ?s6" by (rule sends) simp
  ultimately have "stream_run streaming_start ?s6" by (meson rtranclp.rtrancl_into_rtrancl rtranclp.rtrancl_refl)
  moreover have "sc_reader ?s6 = NPanic" "sc_ctx ?s6 = None" by (simp_all add: reader_send_def streaming_start_def)
  ultimately show ?thesis by blast
qed

text \<open>After an error the channel of the result is never closed, and a caller that receives from it waits for ever.\<close>

definition result_open :: "'b streaming_call \<Rightarrow> bool" where
  "result_open s \<longleftrightarrow> (sc_result s \<noteq> None \<longrightarrow> sc_resultClosed s)
     \<and> (sc_resultClosed s \<longrightarrow> sc_err s = []) \<and> (sc_err s \<noteq> [] \<or> sc_resultClosed s \<longrightarrow> sc_rpc s \<in> {GDeregister, GClose, GEnd})"

lemma reader_fields [simp]:
  "sc_err (reader_lookup bs s) = sc_err s" "sc_result (reader_lookup bs s) = sc_result s" "sc_resultClosed (reader_lookup bs s) = sc_resultClosed s"
  "sc_rpc (reader_lookup bs s) = sc_rpc s" "sc_err (reader_send b bs s) = sc_err s" "sc_result (reader_send b bs s) = sc_result s"
  "sc_resultClosed (reader_send b bs s) = sc_resultClosed s" "sc_rpc (reader_send b bs s) = sc_rpc s"
  "sc_err (put_internal b s) = sc_err s" "sc_result (put_internal b s) = sc_result s" "sc_resultClosed (put_internal b s) = sc_resultClosed s"
  by (simp_all add: stream_defs)

lemma result_open_step: "stream_step s s' \<Longrightarrow> result_open s \<Longrightarrow> result_open s'"
  by (induction rule: stream_step.induct) (simp_all add: result_open_def, auto)

theorem result_stays_open_after_error:
  assumes "stream_run streaming_start s" and "sc_err s \<noteq> []"
  shows "\<not> sc_resultClosed s \<and> sc_result s = None"
proof -
  have "result_open s"
    using assms(1)
  proof (induction rule: rtranclp_induct)
    case (step y z)
    then show ?case using result_open_step by blast
  qed (simp add: result_open_def streaming_start_def)
  then show ?thesis using assms(2) by (auto simp: result_open_def)
qed

end
