(* ===== verification/Spec2Isabelle.thy ===== *)
theory Spec2Isabelle
  imports Dispatch_Sessions Job_Store Client_Iterators Pending Tool_Stream Circuit_Breaker Client_Breaker Rate_Limit
    Cache Validation Balanced_Client Client_Inbound Client_Session Coalescing Tool_Middleware Compose Aggregator Client_Cache
    Server_Requests Sse_Transport Server_Options Client_Stream
begin

text \<open>
  A verification of finemcp, a Go implementation of the Model Context Protocol: a server that
  answers JSON-RPC messages of a client, middleware around its tool calls, and a client.

  \<^bold>\<open>The program.\<close> A transport hands every message to \<open>HandleMessage\<close> (\<open>dispatch.go\<close>), which decodes it,
  checks authentication and the tenant, and routes it to a handler. Handlers read and change the
  server (\<open>server.go\<close>): registries of tools, resources, templates, prompts and roots, tools of single
  sessions, subscriptions, in-flight requests, tasks. A tool call runs the tool through the chain of
  middleware, may stream chunks to the client (\<open>stream.go\<close>) and may ask the client something
  (\<open>pending.go\<close>). The client (\<open>client/\<close>) correlates its requests with the responses, answers what the
  server asks, reconnects, retries, guards its transport with a circuit breaker, shares requests that
  are in flight, caches answers, iterates over pages, spreads requests over backends and joins several
  servers into one.

  \<^bold>\<open>The theories.\<close>
  \<^item> \<open>Mcp_Prelude\<close>: errors of Go as values with \<open>errors.Is\<close>, outcomes of user code that returns, fails
    or panics (\<open>hres\<close>), maps of Go as association lists with distinct keys, decimal numbers.
  \<^item> \<open>Json_Rpc\<close>, \<open>Mcp_Types\<close>, \<open>Protocol\<close>: messages, contents, results, the request context, definitions
    of tools and the like, and the decoding of parameters from JSON trees (\<open>jsonrpc.go\<close>, \<open>protocol.go\<close>,
    \<open>content.go\<close>, \<open>result.go\<close>, \<open>context.go\<close>, \<open>tool.go\<close>, \<open>resource.go\<close>, \<open>prompt.go\<close>, \<open>roots.go\<close>).
  \<^item> \<open>Names\<close>, \<open>Uri_Template\<close>: the bitmap test of tool names, the scanner of notification methods, and the
    parser and budgeted matcher of URI templates (\<open>tool_validator.go\<close>, \<open>notification_handler.go\<close>,
    \<open>uritemplate.go\<close>). The matcher decides the language of the template unless it gives up.
  \<^item> \<open>Registry\<close>, \<open>Session_Tools\<close>: registration with cached sorted snapshots and notifications, and the
    tools of sessions with the ring of closed sessions (\<open>server.go\<close>, \<open>session_tools.go\<close>). Invariants under
    arbitrary sequences of operations; the merge for \<open>tools/list\<close> is filtering after shadowing.
  \<^item> \<open>Lifecycle\<close>, \<open>Task_Store\<close>, \<open>Job_Store\<close>: the contract of entries that end once, as a locale, and the
    two stores that meet it (\<open>task.go\<close>, \<open>async.go\<close>).
  \<^item> \<open>Server\<close>, \<open>Dispatch\<close>, \<open>Dispatch_Props\<close>, \<open>Dispatch_Sessions\<close>: the state of the server, one definition
    per handler, and the properties of whole messages and sequences of messages: responses match
    requests, gates before handlers, isolation of tenants and task owners, tasks that run to their end.
  \<^item> \<open>Server_Options\<close>: the options of \<open>NewServer\<close>, which give a well-formed server (\<open>server.go\<close>).
  \<^item> \<open>Connections\<close>: the contract between the server and its transports as a locale: what is kept for a
    connection is kept by its identifier and gone when it is closed.
  \<^item> \<open>Http_Routing\<close>: the router by host name, which refines a map of patterns, and the headers for other
    origins (\<open>transport/hostrouter.go\<close>, \<open>cors.go\<close>).
  \<^item> \<open>Streamable\<close>, \<open>Sse_Transport\<close>: the HTTP transports with their sessions on the model of the server
    (\<open>transport/streamable.go\<close>, \<open>http.go\<close>, \<open>sse.go\<close>): messages need a session; under all options sessions
    that are gone leave no subscription and no tool of their own behind while requests do not overlap with
    their end; and what goes wrong when they do.
  \<^item> \<open>Server_Requests\<close>: sampling, elicitation, start and shutdown, and the loop over standard input and
    output (\<open>sampling.go\<close>, \<open>elicitation.go\<close>, \<open>serve.go\<close>, \<open>transport/stdio.go\<close>), which blocks on a tool that asks
    the client.
  \<^item> \<open>Pagination\<close>, \<open>Client_Iterators\<close>: the windows of the server and the iterators of the client; iterating
    over the pages of a list returns the list.
  \<^item> \<open>Pending\<close>, \<open>Tool_Stream\<close>: goroutines as step relations over channels, with invariants by rule
    induction for every interleaving.
  \<^item> \<open>Breaker_Spec\<close>, \<open>Circuit_Breaker\<close>, \<open>Client_Breaker\<close>: an abstract breaker as a locale and the breakers of
    the middleware and of the client transport that refine it.
  \<^item> \<open>Rate_Limit\<close>: the token bucket admits at most burst plus rate times length in any interval.
  \<^item> \<open>Cache_Spec\<close>, \<open>Lru_Cache\<close>, \<open>Cache\<close>: the contract of a cache backend as a locale, the LRU cache that
    refines a list ordered by recency and meets it, and the middleware, which is transparent for
    every backend that meets it (\<open>middleware/cache.go\<close>).
  \<^item> \<open>Validation\<close>: the validator of a JSON Schema subset against an inductive definition of conformance
    that uses nothing of the validator, on the schemas whose keywords the validator honours; which keywords
    it ignores; and the cache of compiled patterns (\<open>middleware/validation.go\<close>).
  \<^item> \<open>Retry\<close>, \<open>Client_Retry\<close>: an abstract loop of attempts, and the retry middleware and the retrier of the
    client as instances of it; the backoff strategies at their width (\<open>middleware/retry.go\<close>,
    \<open>client/retry.go\<close>, \<open>client/reconnect.go\<close>).
  \<^item> \<open>Access\<close>, \<open>Tool_Middleware\<close>: the middleware for authentication, HTTP credentials, roles and tenants,
    and the ones that catch panics, limit time and output, simulate, run in the background, audit,
    count costs and log. Roles come from a verified identity only, a dry run never reaches the tool, and
    a job that runs in the background ends (\<open>middleware/auth.go\<close>, \<open>httpauth.go\<close>, \<open>rbac.go\<close>, \<open>multitenant.go\<close>,
    \<open>recovery.go\<close>, \<open>sandbox.go\<close>, \<open>simulation.go\<close>, \<open>async.go\<close>, \<open>auditlog.go\<close>, \<open>costtracking.go\<close>, \<open>logging.go\<close>).
  \<^item> \<open>Compose\<close>: pipelines, parallel runs and fan-outs of handlers; the answer of a parallel run does not
    depend on the order of its branches (\<open>compose.go\<close>).
  \<^item> \<open>Content_Codec\<close>: the encoding of contents and tool results and their decoding at the client, as a
    round trip for the numbers that \<open>float64\<close> holds (\<open>content.go\<close>, \<open>result.go\<close>).
  \<^item> \<open>Correlation\<close>, \<open>Client_Core\<close>: the contract of a table of waiting calls as a locale, and the calls of the
    client, its reader and its closing as a step relation: a caller gets its own response; closing wakes
    the callers, unless a reader is stuck on a full channel that nobody waits on (\<open>client/client.go\<close>).
  \<^item> \<open>Client_Inbound\<close>, \<open>Client_Session\<close>: what the client does with notifications and requests of the server,
    its handshake, typed methods, health check and reconnection (\<open>client/client.go\<close>).
  \<^item> \<open>Client_Stream\<close>: the goroutines of a streaming tool call as a step relation; blocks arrive in order
    (\<open>client/client.go\<close>).
  \<^item> \<open>Coalescing\<close>, \<open>Client_Cache\<close>: callers that share one run of a request, and the cache of answers, which
    answers a request with what the server answered to the same method and parameters
    (\<open>client/coalescing.go\<close>, \<open>client/cache.go\<close>).
  \<^item> \<open>Client_Errors\<close>, \<open>Load_Balancer\<close>, \<open>Balanced_Client\<close>: the pool of backends, its strategies behind a locale,
    failover with what it returns in the end, health tracking, and the client interface of the pool
    (\<open>client/loadbalancer.go\<close>).
  \<^item> \<open>Aggregator\<close>: several servers behind one client, with names qualified by their server; the healthy
    servers are listed, in the arbitrary order of a Go map, and what is listed routes back to the server
    that listed it (\<open>client/aggregator.go\<close>).

  \<^bold>\<open>How state and operations correspond.\<close> A struct is a record with its fields in the order of the
  source; a pointer that may be nil is an option; a map is an association list without duplicate
  keys; a method is a definition that returns its results and the new state. What a mutex
  protects is one step. Code that runs in several goroutines is split at its accesses to shared
  state into steps of an inductive relation. User code (handlers, middleware, callbacks) is a function
  on the context and on a state of an arbitrary type, and may return, fail or panic.

  \<^bold>\<open>Bounds.\<close> The matcher of URI templates has the budget of 10,000 steps of the source. Request numbers
  of \<open>pending.go\<close> are 64-bit words, and the statements about them speak of fewer than \<open>2\<^sup>64\<close> steps. The
  sequence numbers of a stream are natural numbers. Floating-point numbers of the rate limiter, of the
  retry delays and of validated JSON are rational numbers; where the code converts one to \<open>int\<close> beyond 64
  bits, the result is an argument. Trees decoded into \<open>any\<close> keep the literals of their numbers, as the
  identifiers of requests do in the code; where the code keeps a \<open>float64\<close> instead and prints it again, in tool
  results, in the identifiers of answers to the server and in the results of calls, the conversion
  is an argument, which may fail. Elsewhere literals outside \<open>float64\<close> are not treated. References of schemas are followed 32 times
  as in the source; exactness of validation is stated for schemas whose chains are not longer.
  The closing of a stream has one closer, as in the source. Answers of the client are counted when they are
  given to the transport, whose error the code ignores. Requests through the load balancer are
  sequential, and a request to an HTTP transport is one step, or two for a POST. Loops are total functions,
  bounded by the data or by the counters of the source.

  \<^bold>\<open>Not modelled.\<close> Of the transports, listening on sockets, the WebSocket library, the HTML of
  \<open>transport/docs.go\<close> and the transports of the client (\<open>client/transport/\<close>), which are I/O over pipes and
  libraries. Encoding to bytes is the work of \<open>encoding/json\<close>; messages enter as JSON trees. Tracing and
  metrics (\<open>middleware/otel.go\<close>, \<open>client/observability.go\<close>, \<open>client/propagation.go\<close>) call OpenTelemetry, record
  and do not decide; \<open>client/auth.go\<close> calls an OAuth library. Schema generation and typed tools rest on
  reflection. The interactive client and the command line are terminal input and output. Examples, the
  test helpers and the documentation package are not part of the library.
\<close>

section \<open>Client and server together\<close>

text \<open>A response on the wire (\<open>jsonrpc.go\<close>); how a result is encoded is an argument.\<close>

definition marshal_error :: "JSONRPCError \<Rightarrow> json" where
  "marshal_error e = JObj ([(''code'', JNum (Itoa (err_Code e))), (''message'', JStr (json_text (err_Message e)))]
     @ (case err_Data e of None \<Rightarrow> [] | Some v \<Rightarrow> [(''data'', v)]))"

text \<open>An error as it arrives: its text is valid UTF-8, and \<open>null\<close> data is no data.\<close>

definition received_error :: "JSONRPCError \<Rightarrow> JSONRPCError" where
  "received_error e = \<lparr> err_Code = err_Code e, err_Message = json_text (err_Message e),
     err_Data = (if err_Data e = Some JNull then None else err_Data e) \<rparr>"

definition marshal_response :: "('r \<Rightarrow> json) \<Rightarrow> 'r JSONRPCResponse \<Rightarrow> json" where
  "marshal_response enc r =
     JObj ([(''jsonrpc'', JStr (resp_JSONRPC r)), (''id'', marshal_any (resp_ID r))]
       @ (case resp_Result r of None \<Rightarrow> [] | Some x \<Rightarrow> [(''result'', enc x)])
       @ (case resp_Error r of None \<Rightarrow> [] | Some e \<Rightarrow> [(''error'', marshal_error e)]))"

lemma foldName_error: "foldName ''code'' = ''CODE''" "foldName ''message'' = ''MESSAGE''" "foldName ''data'' = ''DATA''"
  by (subst foldName_ascii; simp add: fold_eval)+

lemmas message_eval = as_object_def field_def members_def d_any_def d_raw_def foldName_response foldName_method foldName_params foldName_error

lemma request_decodes:
  "UnmarshalRequest (request_message i method params)
     = Some \<lparr> req_JSONRPC = ''2.0'', req_ID = Some (JStr i), req_Method = method, req_Params = params, req_hasID = True \<rparr>"
  by (cases params) (simp_all add: UnmarshalRequest_def request_message_def message_eval del: foldName.simps)

lemma error_decodes:
  assumes "min_int \<le> err_Code e" "err_Code e \<le> max_int"
  shows "d_error None (marshal_error e) = Some (Some (received_error e))"
  using Atoi_Itoa [OF assms] by (cases "err_Data e") (simp_all add: marshal_error_def received_error_def message_eval del: foldName.simps)

lemma response_decodes:
  assumes "wf_response r" and "\<And>x. resp_Result r = Some x \<Longrightarrow> enc x \<noteq> JNull"
    and "\<And>e. resp_Error r = Some e \<Longrightarrow> min_int \<le> err_Code e \<and> err_Code e \<le> max_int" and "resp_ID r = Some (JStr i)"
  shows "handleMessage (Some (marshal_response enc r)) = InResponse"
    and "UnmarshalResponse (marshal_response enc r) = Some \<lparr> resp_JSONRPC = resp_JSONRPC r, resp_ID = Some (JStr i),
      resp_Result = map_option enc (resp_Result r),
      resp_Error = map_option received_error (resp_Error r) \<rparr>"
proof -
  have "(resp_Result r = None) \<noteq> (resp_Error r = None)" using assms(1) by (simp add: wf_response_def)
  then consider x where "resp_Result r = Some x" "resp_Error r = None" | e where "resp_Result r = None" "resp_Error r = Some e" by auto
  note c = this
  show "handleMessage (Some (marshal_response enc r)) = InResponse"
    by (cases rule: c) (simp_all add: handleMessage_def IsResponse_def marshal_response_def marshal_any_def assms(4) message_eval del: foldName.simps)
  show "UnmarshalResponse (marshal_response enc r) = Some \<lparr> resp_JSONRPC = resp_JSONRPC r, resp_ID = Some (JStr i),
      resp_Result = map_option enc (resp_Result r),
      resp_Error = map_option received_error (resp_Error r) \<rparr>"
  proof (cases rule: c)
    case (1 x)
    then show ?thesis using assms(2) by (simp add: UnmarshalResponse_def marshal_response_def marshal_any_def assms(4) message_eval del: foldName.simps)
  next
    case (2 e)
    then have "d_error None (marshal_error e) = Some (Some (received_error e))"
      using assms(3) error_decodes by blast
    then show ?thesis using 2 by (simp add: UnmarshalResponse_def marshal_response_def marshal_any_def assms(4) message_eval del: foldName.simps)
  qed
qed

text \<open>C2: A call of the client gets the answer of the server. The message of a call is a request for the
  server, which answers it (unless user code panics); what the server puts on the wire is a response for
  the client, is delivered under the identifier of the call and no other, and the caller sees the
  result that the server encoded or the error that it returned.\<close>

theorem call_gets_the_answer_of_the_server:
  assumes "method \<noteq> []" and "\<forall>x. enc x \<noteq> JNull"
    and "\<forall>r e. fst (HandleMessage env c (Some (request_message i method params)) s w) = Ret (Some r) \<and> resp_Error r = Some e
           \<longrightarrow> min_int \<le> err_Code e \<and> err_Code e \<le> max_int"
  shows "(\<exists>m. fst (HandleMessage env c (Some (request_message i method params)) s w) = Panic m)
    \<or> (\<exists>r resp. fst (HandleMessage env c (Some (request_message i method params)) s w) = Ret (Some r)
        \<and> handleMessage (Some (marshal_response enc r)) = InResponse \<and> UnmarshalResponse (marshal_response enc r) = Some resp
        \<and> response_key fmtv resp = i
        \<and> call_outcome decode (CGot (Some resp)) =
            (case resp_Error r of
               Some e \<Rightarrow> Inl (ResponseError (err_Code e) (json_text (err_Message e)) (if err_Data e = Some JNull then None else err_Data e))
             | None \<Rightarrow> (case decode (map_option enc (resp_Result r)) of
                          Inl m \<Rightarrow> Inl (OtherErr (Wrapped (''client: decode result: '' @ m) (ErrNew m))) | Inr v \<Rightarrow> Inr v)))"
proof -
  define req where "req = \<lparr> req_JSONRPC = ''2.0'', req_ID = Some (JStr i), req_Method = method, req_Params = params, req_hasID = True \<rparr>"
  have ok: "handled_ok (Some (JStr i)) (handleRequest env c req s w)"
    using handled_request [of req env c s w] by (simp add: req_def)
  have h: "fst (HandleMessage env c (Some (request_message i method params)) s w)
      = (case fst (handleRequest env c req s w) of Ret r \<Rightarrow> Ret (Some r) | Err e \<Rightarrow> Err e | Panic m \<Rightarrow> Panic m)"
    using assms(1) unfolding req_def
    by (simp add: HandleMessage_def request_decodes jsonrpcVersion_def IsNotification_def split: prod.splits hres.splits)
  show ?thesis
  proof (cases "fst (handleRequest env c req s w)")
    case (Ret r)
    then have a: "wf_response r" "resp_ID r = Some (JStr i)" using ok by (auto simp: handled_ok_def answers_def)
    have out: "fst (HandleMessage env c (Some (request_message i method params)) s w) = Ret (Some r)" using h Ret by simp
    note d = response_decodes [of r enc i, OF a(1) _ _ a(2)]
    have "handleMessage (Some (marshal_response enc r)) = InResponse" using d(1) assms(2,3) out by blast
    moreover obtain resp where u: "UnmarshalResponse (marshal_response enc r) = Some resp" and resp: "resp = \<lparr> resp_JSONRPC = resp_JSONRPC r,
        resp_ID = Some (JStr i), resp_Result = map_option enc (resp_Result r),
        resp_Error = map_option received_error (resp_Error r) \<rparr>"
      using d(2) assms(2,3) out by blast
    ultimately show ?thesis using out
      by (intro disjI2 exI [of _ r] exI [of _ resp]) (auto simp: response_key_def call_outcome_def received_error_def split: option.splits)
  next
    case (Err e)
    then show ?thesis using ok by (auto simp: handled_ok_def)
  next
    case (Panic m)
    then show ?thesis using h by simp
  qed
qed

theorem call_gets_the_answer_of_the_server_witness:
  "\<exists>r resp. fst (HandleMessage demo_env (demo_ctx ''a'') (Some (request_message ''c-1'' ''ping'' None)) demo_server 0) = Ret (Some r)
     \<and> UnmarshalResponse (marshal_response (\<lambda>_. JObj []) r) = Some resp \<and> response_key (\<lambda>_. []) resp = ''c-1''"
proof -
  let ?h = "fst (HandleMessage demo_env (demo_ctx ''a'') (Some (request_message ''c-1'' ''ping'' None)) demo_server 0)"
  have "?h = Ret (Some (NewResponse (Some (JStr ''c-1'')) REmpty))"
    by (simp add: HandleMessage_def request_decodes jsonrpcVersion_def IsNotification_def handleRequest_def request_body_def demo_server_def reply_def Let_def)
  then show ?thesis
    using call_gets_the_answer_of_the_server [of "''ping''" "\<lambda>_. JObj []" demo_env "demo_ctx ''a''" "''c-1''" None demo_server 0 "\<lambda>_. []" "\<lambda>_. Inr ()"]
    by auto
qed

end
